(* ===== verification/Prelude.thy ===== *)
theory Prelude
  imports Complex_Main "HOL-Library.Sublist" "HOL-Library.List_Lexorder" "HOL-Library.Char_ord"
    "HOL-Library.AList"
begin

text \<open>
  Shared vocabulary of the development: times, durations and file trees, the string functions of
  the JavaScript standard library that the program calls (\<^verbatim>\<open>includes\<close>, \<^verbatim>\<open>split\<close>,
  \<^verbatim>\<open>toLowerCase\<close>, \<^verbatim>\<open>trim\<close>, \<^verbatim>\<open>substring\<close>, decimal printing), integer rounding
  (\<^verbatim>\<open>Math.floor\<close>, \<^verbatim>\<open>Math.ceil\<close>), the JavaScript notion of falsy
  values, and the collections of facts the component theories extend.
\<close>

named_theorems key_simps "unfolding of the functions that build Redis key names"
named_theorems handler_defs "definitions of request and event handlers"
named_theorems preserves "one fact per operation: what it keeps of the invariant"

type_synonym time = int        \<comment> \<open>epoch milliseconds, as in Date.now()\<close>
type_synonym id = string       \<comment> \<open>a cuid2 or uuid\<close>
type_synonym dict = "(string \<times> string) list"   \<comment> \<open>Record<string, string>, in entry order\<close>
type_synonym files = dict      \<comment> \<open>path to content\<close>

section \<open>Options as the values of JavaScript that may be missing\<close>

definition or_else :: "'a option \<Rightarrow> 'a option \<Rightarrow> 'a option" where
  "or_else x y = (case x of Some v \<Rightarrow> Some v | None \<Rightarrow> y)"

definition or_default :: "'a option \<Rightarrow> 'a \<Rightarrow> 'a" where
  "or_default x d = (case x of Some v \<Rightarrow> v | None \<Rightarrow> d)"

lemma or_else_simps [simp]:
  "or_else (Some v) y = Some v" "or_else None y = y" "or_else x None = x"
  by (auto simp: or_else_def split: option.splits)

lemma or_default_simps [simp]: "or_default (Some v) d = v" "or_default None d = d"
  by (auto simp: or_default_def)

text \<open>A string is falsy exactly when it is empty, a number when it is zero.\<close>
definition truthy_str :: "string \<Rightarrow> bool" where "truthy_str s = (s \<noteq> [])"

definition str_opt :: "string option \<Rightarrow> string option" where
  "str_opt x = (case x of Some s \<Rightarrow> if s = [] then None else Some s | None \<Rightarrow> None)"

lemma str_opt_simps [simp]:
  "str_opt None = None" "str_opt (Some []) = None" "str_opt (Some (c # s)) = Some (c # s)"
  by (auto simp: str_opt_def)

lemma str_opt_Some: "str_opt x = Some s \<longleftrightarrow> x = Some s \<and> s \<noteq> []"
  by (auto simp: str_opt_def split: option.splits if_splits)

section \<open>Rounding\<close>

definition floor_div :: "int \<Rightarrow> int \<Rightarrow> int" where "floor_div a b = a div b"

definition ceil_div :: "int \<Rightarrow> int \<Rightarrow> int" where "ceil_div a b = - ((- a) div b)"

lemma ceil_div_bounds:
  assumes "0 < b"
  shows "a \<le> ceil_div a b * b" "ceil_div a b * b < a + b"
proof -
  have m: "(- a) div b * b + (- a) mod b = - a" by (rule div_mult_mod_eq)
  have r: "0 \<le> (- a) mod b" "(- a) mod b < b" using assms by simp_all
  have "ceil_div a b * b = - ((- a) div b * b)" by (simp add: ceil_div_def)
  with m r show "a \<le> ceil_div a b * b" "ceil_div a b * b < a + b" by linarith+
qed

lemma ceil_div_pos: "0 < a \<Longrightarrow> 0 < b \<Longrightarrow> 0 < ceil_div a b"
  using ceil_div_bounds(1)[of b a] by (smt (verit) mult_nonneg_nonneg mult_nonpos_nonneg)

text \<open>\<^verbatim>\<open>Math.round\<close> of a quotient of integers with a positive denominator: halves go up.\<close>
definition round_div :: "int \<Rightarrow> int \<Rightarrow> int" where
  "round_div a b = (2 * a + b) div (2 * b)"

lemma round_div_bounds:
  assumes "0 < b" "0 \<le> a" "a \<le> k * b"
  shows "0 \<le> round_div a b" "round_div a b \<le> k"
proof -
  show "0 \<le> round_div a b"
    using assms by (simp add: round_div_def pos_imp_zdiv_nonneg_iff)
  have "2 * a + b \<le> k * (2 * b) + b" using assms(3) by (simp add: algebra_simps)
  hence "(2 * a + b) div (2 * b) \<le> (k * (2 * b) + b) div (2 * b)"
    by (rule zdiv_mono1) (use assms(1) in simp)
  also have "\<dots> = k + b div (2 * b)"
    using assms(1) div_mult_self1[of "2 * b" b k] by (simp only: add.commute)
  also have "b div (2 * b) = 0" using assms(1) by (simp add: div_pos_pos_trivial)
  finally show "round_div a b \<le> k" unfolding round_div_def by simp
qed

section \<open>Strings\<close>

fun str_includes :: "string \<Rightarrow> string \<Rightarrow> bool" where
  "str_includes [] p = (p = [])"
| "str_includes (c # s) p = (prefix p (c # s) \<or> str_includes s p)"

lemma str_includes_sublist: "str_includes s p = sublist p s"
  by (induction s) (auto simp: sublist_Cons_right)

text \<open>\<^verbatim>\<open>s.split(c)\<close> for a one-character separator: never the empty list.\<close>
fun str_split :: "char \<Rightarrow> string \<Rightarrow> string list" where
  "str_split c [] = [[]]"
| "str_split c (x # s) =
     (if x = c then [] # str_split c s
      else (case str_split c s of [] \<Rightarrow> [[x]] | w # ws \<Rightarrow> (x # w) # ws))"

lemma str_split_not_Nil [simp]: "str_split c s \<noteq> []"
  by (induction s) (auto split: list.splits)

fun str_join :: "string \<Rightarrow> string list \<Rightarrow> string" where
  "str_join d [] = []"
| "str_join d [w] = w"
| "str_join d (w # v # ws) = w @ d @ str_join d (v # ws)"

lemma str_join_Cons: "ws \<noteq> [] \<Longrightarrow> str_join d (w # ws) = w @ d @ str_join d ws"
  by (cases ws) auto

lemma str_join_split: "str_join [c] (str_split c s) = s"
proof (induction s)
  case Nil
  show ?case by simp
next
  case (Cons x s)
  obtain w ws where w: "str_split c s = w # ws" by (cases "str_split c s") auto
  show ?case
  proof (cases "x = c")
    case True
    then show ?thesis using Cons by (simp add: str_join_Cons)
  next
    case False
    have "str_join [c] ((x # w) # ws) = x # str_join [c] (w # ws)" by (cases ws) auto
    then show ?thesis using Cons False w by simp
  qed
qed

lemma str_split_no_sep: "w \<in> set (str_split c s) \<Longrightarrow> c \<notin> set w"
proof (induction s arbitrary: w)
  case Nil
  then show ?case by simp
next
  case (Cons x s)
  then show ?case
    by (cases "str_split c s") (auto split: if_splits)
qed

lemma str_split_join:
  assumes "ws \<noteq> []" "\<forall>w\<in>set ws. c \<notin> set w"
  shows "str_split c (str_join [c] ws) = ws"
  using assms
proof (induction ws)
  case Nil
  then show ?case by simp
next
  case (Cons w ws)
  have one: "str_split c v = [v]" if "c \<notin> set v" for v
    using that by (induction v) auto
  have app: "str_split c (v @ c # t) = v # str_split c t" if "c \<notin> set v" for v t
    using that by (induction v) auto
  show ?case
  proof (cases ws)
    case Nil
    then show ?thesis using Cons one by simp
  next
    case (Cons v vs)
    then show ?thesis using Cons.IH Cons.prems app[of w "str_join [c] ws"]
      by (simp add: str_join_Cons)
  qed
qed

text \<open>Case folding and white space, on the ASCII range that e-mail addresses and file names use.\<close>
definition char_lower :: "char \<Rightarrow> char" where
  "char_lower c = (let n = of_char c :: nat in if 65 \<le> n \<and> n \<le> 90 then char_of (n + 32) else c)"

definition str_lower :: "string \<Rightarrow> string" where "str_lower = map char_lower"

definition is_space :: "char \<Rightarrow> bool" where
  "is_space c = (let n = of_char c :: nat in n = 32 \<or> (9 \<le> n \<and> n \<le> 13))"

definition is_digit :: "char \<Rightarrow> bool" where
  "is_digit c = (let n = of_char c :: nat in 48 \<le> n \<and> n \<le> 57)"

definition str_trim :: "string \<Rightarrow> string" where
  "str_trim s = rev (dropWhile is_space (rev (dropWhile is_space s)))"

lemma length_str_lower [simp]: "length (str_lower s) = length s"
  by (simp add: str_lower_def)

lemma str_lower_append [simp]: "str_lower (s @ t) = str_lower s @ str_lower t"
  by (simp add: str_lower_def)

lemma char_lower_idem [simp]: "char_lower (char_lower c) = char_lower c"
  by (auto simp: char_lower_def Let_def)

lemma str_lower_idem [simp]: "str_lower (str_lower s) = str_lower s"
  by (simp add: str_lower_def)

text \<open>\<^verbatim>\<open>String(n)\<close> for an integer.\<close>
fun nat_digits :: "nat \<Rightarrow> string" where
  "nat_digits n = (if n < 10 then [char_of (48 + n)] else nat_digits (n div 10) @ [char_of (48 + n mod 10)])"

declare nat_digits.simps [simp del]

definition str_of_int :: "int \<Rightarrow> string" where
  "str_of_int i = (if i < 0 then CHR ''-'' # nat_digits (nat (- i)) else nat_digits (nat i))"

lemma nat_digits_not_Nil [simp]: "nat_digits n \<noteq> []"
  by (subst nat_digits.simps) auto

text \<open>The value a list of decimal digits denotes, the inverse of printing.\<close>
definition digits_val :: "string \<Rightarrow> nat" where
  "digits_val = foldl (\<lambda>a c. 10 * a + (of_char c - 48)) 0"

lemma digits_val_snoc: "digits_val (s @ [c]) = 10 * digits_val s + (of_char c - 48)"
  by (simp add: digits_val_def)

lemma digits_val_nat_digits [simp]: "digits_val (nat_digits n) = n"
proof (induction n rule: nat_digits.induct)
  case (1 n)
  show ?case
  proof (cases "n < 10")
    case True
    then show ?thesis by (subst nat_digits.simps) (simp add: digits_val_def)
  next
    case False
    have "digits_val (nat_digits n) = 10 * digits_val (nat_digits (n div 10)) + n mod 10"
      using False by (subst nat_digits.simps) (simp add: digits_val_snoc)
    then show ?thesis using 1 False by simp
  qed
qed

lemma nat_digits_inj: "nat_digits m = nat_digits n \<longleftrightarrow> m = n"
  by (metis digits_val_nat_digits)

lemma nat_digits_are_digits: "c \<in> set (nat_digits n) \<Longrightarrow> is_digit c"
proof (induction n rule: nat_digits.induct)
  case (1 n)
  show ?case
  proof (cases "n < 10")
    case True
    then show ?thesis using 1(2) by (subst (asm) nat_digits.simps) (simp add: is_digit_def)
  next
    case False
    then have "c \<in> set (nat_digits (n div 10)) \<or> c = char_of (48 + n mod 10)"
      using 1(2) by (subst (asm) nat_digits.simps) auto
    moreover have "n mod 10 < 10" by simp
    ultimately show ?thesis using 1(1) False by (auto simp: is_digit_def)
  qed
qed

lemma length_nat_digits_le2: "n < 100 \<Longrightarrow> length (nat_digits n) \<le> 2"
  by (subst nat_digits.simps, subst nat_digits.simps) auto

section \<open>Dates\<close>

definition pad_left :: "nat \<Rightarrow> string \<Rightarrow> string" where
  "pad_left n s = replicate (n - length s) CHR ''0'' @ s"

text \<open>\<^verbatim>\<open>Date.prototype.toISOString\<close> for years 0 to 9999, by the proleptic Gregorian
  calendar (days are counted from 1 March of year 0, in eras of 400 years).\<close>
definition iso_string :: "time \<Rightarrow> string" where
  "iso_string t = (let ms = t mod 86400000; z = t div 86400000 + 719468;
     era = z div 146097; doe = z mod 146097;
     yoe = (doe - doe div 1460 + doe div 36524 - doe div 146096) div 365;
     doy = doe - (365 * yoe + yoe div 4 - yoe div 100);
     mp = (5 * doy + 2) div 153; d = doy - (153 * mp + 2) div 5 + 1;
     m = (if mp < 10 then mp + 3 else mp - 9);
     y = yoe + era * 400 + (if m \<le> 2 then 1 else 0);
     f = (\<lambda>n x. pad_left n (nat_digits (nat x)))
   in f 4 y @ ''-'' @ f 2 m @ ''-'' @ f 2 d @ ''T'' @ f 2 (ms div 3600000) @ '':'' @
      f 2 (ms div 60000 mod 60) @ '':'' @ f 2 (ms div 1000 mod 60) @ ''.'' @ f 3 (ms mod 1000) @ ''Z'')"

section \<open>Dictionaries in entry order\<close>

definition dict_get :: "dict \<Rightarrow> string \<Rightarrow> string option" where "dict_get d k = map_of d k"

text \<open>The spread \<^verbatim>\<open>{ ...a, ...b }\<close>.\<close>
definition dict_merge :: "dict \<Rightarrow> dict \<Rightarrow> dict" where
  "dict_merge a b = foldl (\<lambda>d (k, v). AList.update k v d) a b"

lemma dict_merge_conv: "distinct (map fst b) \<Longrightarrow> map_of (dict_merge a b) = map_of a ++ map_of b"
proof (induction b arbitrary: a)
  case Nil
  then show ?case by (simp add: dict_merge_def)
next
  case (Cons p b)
  obtain k v where p: "p = (k, v)" by force
  have "map_of (dict_merge a (p # b)) = map_of (AList.update k v a) ++ map_of b"
    using Cons p by (simp add: dict_merge_def)
  also have "\<dots> = map_of a ++ map_of (p # b)"
  proof -
    have k: "map_of b k = None" using Cons.prems p by (simp add: map_of_eq_None_iff)
    show ?thesis by (rule ext) (simp add: p update_conv' map_add_def k split: option.splits)
  qed
  finally show ?case .
qed

section \<open>Lists kept to a bound\<close>

definition last_n :: "nat \<Rightarrow> 'a list \<Rightarrow> 'a list" where
  "last_n n xs = drop (length xs - n) xs"

lemma length_last_n [simp]: "length (last_n n xs) = min n (length xs)"
  by (simp add: last_n_def)

lemma last_n_idle [simp]: "length xs \<le> n \<Longrightarrow> last_n n xs = xs"
  by (simp add: last_n_def)

lemma suffix_last_n: "suffix (last_n n xs) xs"
  by (simp add: last_n_def suffix_drop)

lemma last_n_snoc: "0 < n \<Longrightarrow> last (last_n n (xs @ [x])) = x"
  by (simp add: last_n_def)

end
