(* ===== verification/Data_Model.thy ===== *)
theory Data_Model
  imports Prelude
begin

text \<open>
  The data of the program: the database schema of
  \<^verbatim>\<open>packages/database/src/schema.ts\<close> and the shared types of
  \<^verbatim>\<open>packages/shared/src/index.ts\<close>. A row is a record, an enum a datatype with the
  constructors of the source, a timestamp an integer number of milliseconds, a nullable column
  an option. Columns of type \<^verbatim>\<open>integer\<close> are unbounded integers; the real column
  \<^verbatim>\<open>pass_threshold\<close> is a rational.
\<close>

section \<open>Enums\<close>

datatype role = ADMIN | CANDIDATE | REVIEWER
datatype attempt_status = IN_PROGRESS | SUBMITTED | GRADING | COMPLETED | FAILED
datatype event_type = TAB_LEAVE | TAB_RETURN | FULLSCREEN_EXIT | FULLSCREEN_ENTER | PASTE_ATTEMPT
datatype approval_status = PENDING | APPROVED | REJECTED

text \<open>The life cycle of an attempt runs upwards in this order; the two outcomes share a rank
  and are ordered by name only to make the order linear.\<close>
fun status_rank :: "attempt_status \<Rightarrow> nat" where
  "status_rank IN_PROGRESS = 0"
| "status_rank SUBMITTED = 1"
| "status_rank GRADING = 2"
| "status_rank COMPLETED = 3"
| "status_rank FAILED = 4"

lemma status_rank_inj: "status_rank x = status_rank y \<Longrightarrow> x = y"
  by (cases x; cases y) auto

instantiation attempt_status :: linorder
begin

definition less_eq_attempt_status :: "attempt_status \<Rightarrow> attempt_status \<Rightarrow> bool" where
  "less_eq_attempt_status x y = (status_rank x \<le> status_rank y)"

definition less_attempt_status :: "attempt_status \<Rightarrow> attempt_status \<Rightarrow> bool" where
  "less_attempt_status x y = (status_rank x < status_rank y)"

instance
  by standard
    (auto simp: less_eq_attempt_status_def less_attempt_status_def intro: status_rank_inj)

end

lemma IN_PROGRESS_least [simp]: "IN_PROGRESS \<le> (s :: attempt_status)"
  by (simp add: less_eq_attempt_status_def)

lemma le_IN_PROGRESS [simp]: "(s :: attempt_status) \<le> IN_PROGRESS \<longleftrightarrow> s = IN_PROGRESS"
  by (cases s) (simp_all add: less_eq_attempt_status_def)

section \<open>Challenge runners\<close>

text \<open>Values of \<^verbatim>\<open>z.any()\<close> in SQL sample rows.\<close>
datatype json = JNull | JBool bool | JNum rat | JStr string | JArr "json list"
  | JObj "(string \<times> json) list"

record candidate_cfg =
  cc_image :: string
  cc_workdir :: string
  cc_generatedFiles :: "dict option"
  cc_installCommand :: "string option"
  cc_runCommand :: string
  cc_port :: int
  cc_healthPath :: string
  cc_env :: "dict option"
  cc_startupTimeoutMs :: int

record tests_cfg =
  tc_image :: "string option"
  tc_installCommand :: "string option"
  tc_testCommand :: "string option"
  tc_env :: "dict option"
  tc_timeoutMs :: int

datatype sql_runtime = Postgresql | Mysql
datatype sql_isolation = Shared_db | Isolated

record sql_table =
  st_columns :: "(string \<times> string) list"
  st_rows :: "(string \<times> json) list list"
  st_truncated :: bool

record sql_public_test =
  sp_name :: string
  sp_expectedResult :: "(string \<times> json) list list option"
  sp_validationQuery :: "string option"
  sp_expectedAfterMutation :: "(string \<times> json) list list option"

record sql_generator =
  sg_table :: string
  sg_count :: int
  sg_columns :: dict

record sql_hidden_test =
  sh_name :: string
  sh_dataGenerator :: "sql_generator option"
  sh_referenceQuery :: string
  sh_validationQuery :: "string option"

record sql_cfg =
  sq_runtime :: sql_runtime
  sq_setupScript :: string
  sq_resetScript :: "string option"
  sq_image :: "string option"
  sq_tables :: "(string \<times> sql_table) list"
  sq_isolation :: sql_isolation
  sq_orderSensitive :: bool
  sq_columnOrderSensitive :: bool
  sq_timeoutMs :: int
  sq_publicTests :: "sql_public_test list"
  sq_hiddenTests :: "sql_hidden_test list"

datatype runner =
    RJest
  | RHttp string candidate_cfg tests_cfg     \<comment> \<open>runtime label, candidate, tests\<close>
  | RPlaywright candidate_cfg tests_cfg
  | RUiJsdom candidate_cfg tests_cfg
  | RSql sql_cfg

section \<open>Rows\<close>

record user =
  u_id :: id
  u_email :: string
  u_password :: string
  u_name :: "string option"
  u_role :: role
  u_approvalStatus :: approval_status
  u_approvedBy :: "id option"
  u_approvedAt :: "time option"
  u_createdAt :: time
  u_updatedAt :: time

record challenge =
  c_id :: id
  c_name :: string
  c_description :: "string option"
  c_starterFiles :: files
  c_publicTests :: string
  c_hiddenTests :: string
  c_dependencies :: dict
  c_nodeVersion :: string
  c_runner :: "runner option"
  c_createdAt :: time
  c_createdBy :: "id option"

record exam =
  e_id :: id
  e_title :: string
  e_description :: "string option"
  e_challengeId :: id
  e_timeLimit :: int
  e_maxAttempts :: int
  e_passThreshold :: rat
  e_scheduledStartAt :: "time option"
  e_scheduledEndAt :: "time option"
  e_timezone :: "string option"
  e_fullscreenRequired :: bool
  e_tabSwitchLogging :: bool
  e_pasteDisabled :: bool
  e_expectedCandidates :: "int option"
  e_poolWarmedAt :: "time option"
  e_isPublished :: bool
  e_publishedAt :: "time option"
  e_createdAt :: time
  e_updatedAt :: time
  e_createdBy :: id

record invitation =
  i_id :: id
  i_examId :: id
  i_email :: string
  i_token :: string
  i_usedAt :: "time option"
  i_expiresAt :: "time option"
  i_createdAt :: time

record attempt =
  a_id :: id
  a_examId :: id
  a_candidateId :: id
  a_status :: attempt_status
  a_startedAt :: time
  a_submittedAt :: "time option"
  a_files :: "files option"
  a_publicScore :: "int option"
  a_hiddenScore :: "int option"
  a_totalPublic :: "int option"
  a_totalHidden :: "int option"
  a_gradingLogs :: "string option"
  a_gradedAt :: "time option"
  a_tabExits :: int
  a_totalOutOfWindowSeconds :: int
  a_fullscreenExits :: int
  a_pasteAttempts :: int

record proctor_event =
  p_id :: id
  p_attemptId :: id
  p_eventType :: event_type
  p_timestamp :: time
  p_duration :: "int option"
  p_pasteLength :: "int option"
  p_isMultiline :: "bool option"

text \<open>A row of \<^verbatim>\<open>exam_attempts\<close> inserted with the column defaults.\<close>
definition new_attempt :: "id \<Rightarrow> id \<Rightarrow> id \<Rightarrow> files \<Rightarrow> time \<Rightarrow> attempt" where
  "new_attempt aid eid uid fs now =
    \<lparr> a_id = aid, a_examId = eid, a_candidateId = uid, a_status = IN_PROGRESS,
      a_startedAt = now, a_submittedAt = None, a_files = Some fs,
      a_publicScore = None, a_hiddenScore = None, a_totalPublic = None, a_totalHidden = None,
      a_gradingLogs = None, a_gradedAt = None,
      a_tabExits = 0, a_totalOutOfWindowSeconds = 0, a_fullscreenExits = 0, a_pasteAttempts = 0 \<rparr>"

lemma new_attempt_simps [simp]:
  "a_id (new_attempt aid eid uid fs now) = aid"
  "a_examId (new_attempt aid eid uid fs now) = eid"
  "a_candidateId (new_attempt aid eid uid fs now) = uid"
  "a_status (new_attempt aid eid uid fs now) = IN_PROGRESS"
  "a_files (new_attempt aid eid uid fs now) = Some fs"
  by (simp_all add: new_attempt_def)

section \<open>Shared types\<close>

text \<open>\<^verbatim>\<open>JwtPayload\<close>: the identity a request carries after authentication.\<close>
record jwt_payload =
  jp_userId :: id
  jp_email :: string
  jp_role :: role

record grading_job =
  j_attemptId :: id
  j_challengeId :: "id option"
  j_files :: files
  j_publicTests :: string
  j_hiddenTests :: string
  j_dependencies :: dict
  j_nodeVersion :: string
  j_timeLimit :: int      \<comment> \<open>seconds\<close>
  j_memoryLimit :: int    \<comment> \<open>MB\<close>
  j_runner :: "runner option"
  j_isPreview :: bool

record grading_result =
  gr_publicScore :: int
  gr_hiddenScore :: int
  gr_totalPublic :: int
  gr_totalHidden :: int
  gr_logs :: string
  gr_success :: bool
  gr_error :: "string option"

section \<open>Errors\<close>

text \<open>
  What a handler may throw: an \<^verbatim>\<open>ApiError\<close> (message, status, and for the schedule
  checks the metadata of \<^verbatim>\<open>attempts.ts\<close>), a \<^verbatim>\<open>ZodError\<close>, or a
  \<^verbatim>\<open>TypeError\<close> raised by a non-null assertion on a missing value.
\<close>
datatype error_meta = NoMeta | ExamNotStarted int time | ExamEnded time | RateLimited int

datatype error = ApiError string int error_meta | ZodError | TypeError | PlainError string

type_synonym 'a result = "error + 'a"

abbreviation api_error :: "string \<Rightarrow> int \<Rightarrow> 'a result" where
  "api_error m c \<equiv> Inl (ApiError m c NoMeta)"

end
