(* ===== verification/Documents.thy ===== *)
theory Documents
  imports Data_Model
begin

text \<open>
  What the program writes outside the database: the JSON documents it keeps in Redis (autosave
  buffers, timer state, presence and login sessions, refresh-token records, grading jobs,
  screenshots, keystroke data), the socket.io events it emits and the messages it publishes.
  A \<^verbatim>\<open>payload\<close> is the text stored under a key: \<^verbatim>\<open>JSON.stringify\<close> of a document is
  the document itself, a decimal number is \<^verbatim>\<open>Num\<close>, any other text is \<^verbatim>\<open>Txt\<close>, and
  \<^verbatim>\<open>JSON.parse\<close> of the latter throws.
\<close>

record timer_meta =
  tm_attemptId :: id
  tm_startedAt :: time
  tm_endTime :: time
  tm_timeLimit :: int
  tm_scheduledEndAt :: "time option"

record presence =
  pr_socketId :: string
  pr_userId :: id
  pr_attemptId :: id
  pr_lastActive :: time

record login_session =
  ls_userId :: id
  ls_email :: string
  ls_role :: role
  ls_passwordHash :: string
  ls_createdAt :: time
  ls_lastAccessedAt :: time
  ls_userAgent :: "string option"
  ls_ip :: "string option"

record refresh_data =
  rd_userId :: id
  rd_email :: string
  rd_role :: role
  rd_familyId :: id
  rd_createdAt :: time
  rd_rotationCount :: int

datatype storage = S3 | AZURE | LOCAL

record screenshot =
  sc_attemptId :: id
  sc_examId :: id
  sc_candidateId :: id
  sc_eventType :: "string option"
  sc_timestamp :: time
  sc_url :: string
  sc_filename :: string
  sc_storage :: "storage option"

record keystroke =
  k_key :: string
  k_ts :: time
  k_ctrl :: bool
  k_shift :: bool
  k_alt :: bool
  k_meta :: bool

text \<open>The compressed form: a flag is present (as 1) only when it is set.\<close>
record small_keystroke =
  sk_k :: string
  sk_t :: time
  sk_c :: "int option"
  sk_s :: "int option"
  sk_a :: "int option"
  sk_m :: "int option"

record keystroke_batch =
  kb_ks :: "small_keystroke list"
  kb_total :: int
  kb_ts :: time
  kb_n :: int

record speed_entry =
  sp_wpm :: int
  sp_cpm :: int
  sp_interval :: int
  sp_charCount :: int
  sp_totalKeystrokes :: int
  sp_sessionDuration :: int
  sp_timestamp :: time

datatype payload =
    Txt string
  | Num int
  | AutosaveDoc files time
  | TimerDoc timer_meta
  | PresenceDoc presence
  | LoginDoc login_session
  | RefreshDoc refresh_data
  | JobDoc grading_job
  | ShotDoc screenshot
  | BatchDoc keystroke_batch
  | SpeedDoc speed_entry

section \<open>Events and messages\<close>

datatype severity = Low | Medium | High

datatype event =
    TimerTick int time string "time option"      \<comment> \<open>remaining, endTime, formattedTime, scheduledEndAt\<close>
  | TimerExpired string "string option"           \<comment> \<open>message, reason\<close>
  | ProctorScreenshot screenshot
  | ProctorWarning event_type string int severity
  | GradingComplete grading_result bool
  | SpeedUpdate id speed_entry
  | AuthExpired string

datatype message =
    PoolWarmup "id list" "dict list"
  | ProctorMsg id event_type int time
  | ScreenshotMsg screenshot
  | EvictUser id

end
