(* ===== verification/Services.thy ===== *)
theory Services
  imports Documents "HOL-Library.FSet"
begin

text \<open>
  The services the program calls and does not contain: Redis, the PostgreSQL database behind
  drizzle, socket.io, JSON web tokens and bcrypt. They are a parameter of the model: the record
  \<^verbatim>\<open>services\<close> of commands over a world of type \<^verbatim>\<open>'w\<close> about which nothing is known.
  What the program relies on is the locale \<^verbatim>\<open>services\<close>: a view \<^verbatim>\<open>V\<close> of
  the world as a Redis keyspace, one map per table and the emitted and published messages, and
  for every command its documented effect on the view. \<^verbatim>\<open>Reference_Store\<close> has an
  executable instance. A command answers with what the documentation promises and no more:
  the order of \<^verbatim>\<open>SMEMBERS\<close>, \<^verbatim>\<open>SCAN\<close> and of a query without
  \<^verbatim>\<open>ORDER BY\<close> is left open. Failures of the services themselves (a lost connection)
  are outside the model, and so is the error of a command on a key that holds a value of another type:
  \<^verbatim>\<open>Redis_Types\<close> shows that the program never meets one.
\<close>

section \<open>The keyspace of Redis\<close>

record stream_entry =
  se_id :: string
  se_ms :: time
  se_jobId :: string
  se_attemptId :: id
  se_isPreview :: bool
  se_createdAt :: time
  se_job :: grading_job

datatype rvalue =
    RStr payload
  | RSet "string fset"
  | RList "payload list"
  | RHash "string \<Rightarrow> payload option"
  | RStream "stream_entry list"
  | RZSet "(string \<times> int) list"

type_synonym keyspace = "string \<Rightarrow> (rvalue \<times> time option) option"

definition ks_live :: "time \<Rightarrow> keyspace \<Rightarrow> string \<Rightarrow> (rvalue \<times> time option) option" where
  "ks_live now ks k = (case ks k of
     None \<Rightarrow> None
   | Some (v, None) \<Rightarrow> Some (v, None)
   | Some (v, Some t) \<Rightarrow> if now < t then Some (v, Some t) else None)"

definition ks_get :: "time \<Rightarrow> keyspace \<Rightarrow> string \<Rightarrow> payload option" where
  "ks_get now ks k = (case ks_live now ks k of Some (RStr p, _) \<Rightarrow> Some p | _ \<Rightarrow> None)"

definition ks_exists :: "time \<Rightarrow> keyspace \<Rightarrow> string \<Rightarrow> bool" where
  "ks_exists now ks k = (ks_live now ks k \<noteq> None)"

definition ks_set :: "time \<Rightarrow> string \<Rightarrow> payload \<Rightarrow> int option \<Rightarrow> keyspace \<Rightarrow> keyspace" where
  "ks_set now k p ttl ks = ks(k \<mapsto> (RStr p, map_option (\<lambda>s. now + 1000 * s) ttl))"

definition ks_del :: "string \<Rightarrow> keyspace \<Rightarrow> keyspace" where
  "ks_del k ks = ks(k := None)"

definition ks_expire :: "time \<Rightarrow> string \<Rightarrow> int \<Rightarrow> keyspace \<Rightarrow> keyspace" where
  "ks_expire now k s ks = (case ks_live now ks k of
     Some (v, _) \<Rightarrow> ks(k \<mapsto> (v, Some (now + 1000 * s))) | None \<Rightarrow> ks)"

definition ks_members :: "time \<Rightarrow> keyspace \<Rightarrow> string \<Rightarrow> string set" where
  "ks_members now ks k = (case ks_live now ks k of Some (RSet A, _) \<Rightarrow> fset A | _ \<Rightarrow> {})"

definition ks_sadd :: "time \<Rightarrow> string \<Rightarrow> string \<Rightarrow> keyspace \<Rightarrow> keyspace" where
  "ks_sadd now k m ks = (case ks_live now ks k of
     None \<Rightarrow> ks(k \<mapsto> (RSet {|m|}, None))
   | Some (RSet A, e) \<Rightarrow> ks(k \<mapsto> (RSet (finsert m A), e))
   | Some _ \<Rightarrow> ks)"

definition ks_srem :: "time \<Rightarrow> string \<Rightarrow> string \<Rightarrow> keyspace \<Rightarrow> keyspace" where
  "ks_srem now k m ks = (case ks_live now ks k of
     Some (RSet A, e) \<Rightarrow> if A |-| {|m|} = {||} then ks(k := None) else ks(k \<mapsto> (RSet (A |-| {|m|}), e))
   | _ \<Rightarrow> ks)"

definition ks_list :: "time \<Rightarrow> keyspace \<Rightarrow> string \<Rightarrow> payload list" where
  "ks_list now ks k = (case ks_live now ks k of Some (RList l, _) \<Rightarrow> l | _ \<Rightarrow> [])"

text \<open>Redis index ranges: negative indices count from the end, the range is inclusive.\<close>
definition redis_range :: "int \<Rightarrow> int \<Rightarrow> 'a list \<Rightarrow> 'a list" where
  "redis_range i j l = (let n = int (length l);
      a = (if i < 0 then max 0 (n + i) else i);
      b = (if j < 0 then n + j else min j (n - 1))
    in if b < a then [] else take (nat (b - a + 1)) (drop (nat a) l))"

definition ks_put_list :: "time \<Rightarrow> string \<Rightarrow> (payload list \<Rightarrow> payload list) \<Rightarrow> keyspace \<Rightarrow> keyspace" where
  "ks_put_list now k f ks = (case ks_live now ks k of
     None \<Rightarrow> if f [] = [] then ks(k := None) else ks(k \<mapsto> (RList (f []), None))
   | Some (RList l, e) \<Rightarrow> if f l = [] then ks(k := None) else ks(k \<mapsto> (RList (f l), e))
   | Some _ \<Rightarrow> ks)"

definition ks_hash :: "time \<Rightarrow> keyspace \<Rightarrow> string \<Rightarrow> (string \<Rightarrow> payload option) option" where
  "ks_hash now ks k = (case ks_live now ks k of Some (RHash h, _) \<Rightarrow> Some h | _ \<Rightarrow> None)"

definition ks_put_hash ::
  "time \<Rightarrow> string \<Rightarrow> ((string \<Rightarrow> payload option) \<Rightarrow> (string \<Rightarrow> payload option)) \<Rightarrow> keyspace \<Rightarrow> keyspace" where
  "ks_put_hash now k f ks = (case ks_live now ks k of
     None \<Rightarrow> ks(k \<mapsto> (RHash (f Map.empty), None))
   | Some (RHash h, e) \<Rightarrow> ks(k \<mapsto> (RHash (f h), e))
   | Some _ \<Rightarrow> ks)"

definition hash_setnx :: "string \<Rightarrow> payload \<Rightarrow> (string \<Rightarrow> payload option) \<Rightarrow> string \<Rightarrow> payload option" where
  "hash_setnx f p h = (if h f = None then h(f \<mapsto> p) else h)"

definition hash_incr :: "string \<Rightarrow> int \<Rightarrow> (string \<Rightarrow> payload option) \<Rightarrow> string \<Rightarrow> payload option" where
  "hash_incr f d h = (case h f of None \<Rightarrow> h(f \<mapsto> Num d) | Some (Num n) \<Rightarrow> h(f \<mapsto> Num (n + d)) | Some _ \<Rightarrow> h)"

definition ks_stream :: "time \<Rightarrow> keyspace \<Rightarrow> string \<Rightarrow> stream_entry list" where
  "ks_stream now ks k = (case ks_live now ks k of Some (RStream l, _) \<Rightarrow> l | _ \<Rightarrow> [])"

definition ks_put_stream ::
  "time \<Rightarrow> string \<Rightarrow> (stream_entry list \<Rightarrow> stream_entry list) \<Rightarrow> keyspace \<Rightarrow> keyspace" where
  "ks_put_stream now k f ks = (case ks_live now ks k of
     None \<Rightarrow> ks(k \<mapsto> (RStream (f []), None))
   | Some (RStream l, e) \<Rightarrow> ks(k \<mapsto> (RStream (f l), e))
   | Some _ \<Rightarrow> ks)"

definition ks_trim_stream :: "time \<Rightarrow> string \<Rightarrow> time \<Rightarrow> keyspace \<Rightarrow> keyspace" where
  "ks_trim_stream now k ms ks = (case ks_live now ks k of
     Some (RStream l, e) \<Rightarrow> ks(k \<mapsto> (RStream (filter (\<lambda>x. ms \<le> se_ms x) l), e)) | _ \<Rightarrow> ks)"

definition ks_trim_zset :: "time \<Rightarrow> string \<Rightarrow> int \<Rightarrow> int \<Rightarrow> keyspace \<Rightarrow> keyspace" where
  "ks_trim_zset now k lo hi ks = (case ks_live now ks k of
     Some (RZSet l, e) \<Rightarrow> (let r = filter (\<lambda>(_, x). \<not> (lo \<le> x \<and> x \<le> hi)) l in
        if r = [] then ks(k := None) else ks(k \<mapsto> (RZSet r, e))) | _ \<Rightarrow> ks)"

subsection \<open>How commands and lookups interact\<close>

text \<open>A reply is truthy when the key holds a non-empty text.\<close>
definition truthy_reply :: "payload option \<Rightarrow> bool" where
  "truthy_reply p = (p \<noteq> None \<and> p \<noteq> Some (Txt []))"

lemma truthy_reply_simps [simp]: "\<not> truthy_reply None" "truthy_reply (Some (Num n))"
  by (simp_all add: truthy_reply_def)

lemma ks_live_other [simp]:
  "k \<noteq> k' \<Longrightarrow> ks_live now (ks(k' \<mapsto> v)) k = ks_live now ks k"
  "k \<noteq> k' \<Longrightarrow> ks_live now (ks(k' := None)) k = ks_live now ks k"
  by (simp_all add: ks_live_def)

lemma ks_live_same [simp]:
  "ks_live now (ks(k \<mapsto> (v, None))) k = Some (v, None)"
  "ks_live now (ks(k \<mapsto> (v, Some t))) k = (if now < t then Some (v, Some t) else None)"
  "ks_live now (ks(k := None)) k = None"
  by (simp_all add: ks_live_def)

text \<open>A command on one key leaves the value at another.\<close>
lemma ks_live_frame [simp]:
  assumes "k \<noteq> k'"
  shows "ks_live now (ks_set t k' p ttl ks) k = ks_live now ks k"
    "ks_live now (ks_del k' ks) k = ks_live now ks k"
    "ks_live now (ks_expire t k' sec ks) k = ks_live now ks k"
    "ks_live now (ks_sadd t k' m ks) k = ks_live now ks k"
    "ks_live now (ks_srem t k' m ks) k = ks_live now ks k"
    "ks_live now (ks_put_list t k' fl ks) k = ks_live now ks k"
    "ks_live now (ks_put_hash t k' fh ks) k = ks_live now ks k"
    "ks_live now (ks_put_stream t k' fs ks) k = ks_live now ks k"
    "ks_live now (ks_trim_stream t k' ms ks) k = ks_live now ks k"
    "ks_live now (ks_trim_zset t k' lo hi ks) k = ks_live now ks k"
  using assms
  unfolding ks_set_def ks_del_def ks_expire_def ks_sadd_def ks_srem_def ks_put_list_def
    ks_put_hash_def ks_put_stream_def ks_trim_stream_def ks_trim_zset_def
  by (simp_all add: ks_live_def Let_def split: option.splits prod.splits rvalue.splits)

lemma ks_live_set [simp]:
  "ks_live now (ks_set t k p ttl ks) k = (case ttl of None \<Rightarrow> Some (RStr p, None)
     | Some s \<Rightarrow> if now < t + 1000 * s then Some (RStr p, Some (t + 1000 * s)) else None)"
  by (auto simp: ks_set_def split: option.splits)

lemma ks_live_del [simp]: "ks_live now (ks_del k ks) k = None"
  by (simp add: ks_del_def)

lemma ks_live_expire:
  "ks_live now (ks_expire t k s ks) k = (case ks_live t ks k of
     None \<Rightarrow> ks_live now ks k
   | Some (v, _) \<Rightarrow> if now < t + 1000 * s then Some (v, Some (t + 1000 * s)) else None)"
  by (auto simp: ks_expire_def split: option.splits)

text \<open>The typed reads depend on the live value only.\<close>
lemma ks_reads_cong:
  assumes "ks_live now ks k = ks_live now ks' k"
  shows "ks_get now ks k = ks_get now ks' k" "ks_exists now ks k = ks_exists now ks' k"
    "ks_members now ks k = ks_members now ks' k" "ks_list now ks k = ks_list now ks' k"
    "ks_hash now ks k = ks_hash now ks' k" "ks_stream now ks k = ks_stream now ks' k"
  using assms by (simp_all add: ks_get_def ks_exists_def ks_members_def ks_list_def ks_hash_def ks_stream_def)

lemma ks_get_frame [simp]:
  assumes "k \<noteq> k'"
  shows "ks_get now (ks_set t k' p ttl ks) k = ks_get now ks k"
    "ks_get now (ks_del k' ks) k = ks_get now ks k"
    "ks_get now (ks_expire t k' sec ks) k = ks_get now ks k"
    "ks_get now (ks_sadd t k' m ks) k = ks_get now ks k"
    "ks_get now (ks_srem t k' m ks) k = ks_get now ks k"
    "ks_get now (ks_put_list t k' fl ks) k = ks_get now ks k"
    "ks_get now (ks_put_hash t k' fh ks) k = ks_get now ks k"
    "ks_get now (ks_put_stream t k' fs ks) k = ks_get now ks k"
  using assms by (simp_all add: ks_get_def)

lemma ks_exists_frame [simp]:
  assumes "k \<noteq> k'"
  shows "ks_exists now (ks_set t k' p ttl ks) k = ks_exists now ks k"
    "ks_exists now (ks_del k' ks) k = ks_exists now ks k"
    "ks_exists now (ks_expire t k' sec ks) k = ks_exists now ks k"
    "ks_exists now (ks_sadd t k' m ks) k = ks_exists now ks k"
    "ks_exists now (ks_srem t k' m ks) k = ks_exists now ks k"
    "ks_exists now (ks_put_list t k' fl ks) k = ks_exists now ks k"
    "ks_exists now (ks_put_hash t k' fh ks) k = ks_exists now ks k"
    "ks_exists now (ks_put_stream t k' fs ks) k = ks_exists now ks k"
  using assms by (simp_all add: ks_exists_def)

lemma ks_members_frame [simp]:
  assumes "k \<noteq> k'"
  shows "ks_members now (ks_set t k' p ttl ks) k = ks_members now ks k"
    "ks_members now (ks_del k' ks) k = ks_members now ks k"
    "ks_members now (ks_expire t k' sec ks) k = ks_members now ks k"
    "ks_members now (ks_sadd t k' m ks) k = ks_members now ks k"
    "ks_members now (ks_srem t k' m ks) k = ks_members now ks k"
    "ks_members now (ks_put_list t k' fl ks) k = ks_members now ks k"
    "ks_members now (ks_put_hash t k' fh ks) k = ks_members now ks k"
    "ks_members now (ks_put_stream t k' fs ks) k = ks_members now ks k"
  using assms by (simp_all add: ks_members_def)

lemma ks_list_frame [simp]:
  assumes "k \<noteq> k'"
  shows "ks_list now (ks_set t k' p ttl ks) k = ks_list now ks k"
    "ks_list now (ks_del k' ks) k = ks_list now ks k"
    "ks_list now (ks_expire t k' sec ks) k = ks_list now ks k"
    "ks_list now (ks_put_list t k' fl ks) k = ks_list now ks k"
    "ks_list now (ks_put_hash t k' fh ks) k = ks_list now ks k"
  using assms by (simp_all add: ks_list_def)

lemma ks_stream_frame [simp]:
  assumes "k \<noteq> k'"
  shows "ks_stream now (ks_set t k' p ttl ks) k = ks_stream now ks k"
    "ks_stream now (ks_del k' ks) k = ks_stream now ks k"
    "ks_stream now (ks_expire t k' sec ks) k = ks_stream now ks k"
    "ks_stream now (ks_sadd t k' m ks) k = ks_stream now ks k"
    "ks_stream now (ks_srem t k' m ks) k = ks_stream now ks k"
    "ks_stream now (ks_put_list t k' fl ks) k = ks_stream now ks k"
    "ks_stream now (ks_put_hash t k' fh ks) k = ks_stream now ks k"
    "ks_stream now (ks_put_stream t k' fs ks) k = ks_stream now ks k"
  using assms by (simp_all add: ks_stream_def)

lemma ks_get_set [simp]:
  "ks_get now (ks_set t k p None ks) k = Some p"
  "ks_get now (ks_set t k p (Some s) ks) k = (if now < t + 1000 * s then Some p else None)"
  "ks_get now (ks_del k ks) k = None"
  by (simp_all add: ks_get_def)

lemma ks_exists_set [simp]:
  "ks_exists now (ks_set t k p None ks) k"
  "ks_exists now (ks_set t k p (Some s) ks) k \<longleftrightarrow> now < t + 1000 * s"
  "\<not> ks_exists now (ks_del k ks) k"
  by (simp_all add: ks_exists_def)

lemma ks_get_exists: "ks_get now ks k = Some p \<Longrightarrow> ks_exists now ks k"
  by (auto simp: ks_get_def ks_exists_def split: option.splits)

text \<open>Members of a set key, where the key is free or holds a set.\<close>
definition set_key :: "time \<Rightarrow> keyspace \<Rightarrow> string \<Rightarrow> bool" where
  "set_key now ks k = (case ks_live now ks k of None \<Rightarrow> True | Some (RSet _, _) \<Rightarrow> True | _ \<Rightarrow> False)"

lemma ks_members_sadd:
  "set_key now ks k \<Longrightarrow> ks_members now (ks_sadd now k m ks) k = insert m (ks_members now ks k)"
  by (auto simp: set_key_def ks_members_def ks_sadd_def ks_live_def
      split: option.splits prod.splits rvalue.splits if_splits)

lemma ks_members_srem [simp]:
  "ks_members now (ks_srem now k m ks) k = ks_members now ks k - {m}"
proof (cases "ks_live now ks k")
  case (Some ve)
  obtain v e where ve: "ve = (v, e)" by force
  show ?thesis
  proof (cases v)
    case (RSet A)
    have ex: "ks_live now (ks(k \<mapsto> (RSet (A |-| {|m|}), e))) k = Some (RSet (A |-| {|m|}), e)"
      using Some ve by (auto simp: ks_live_def split: option.splits if_splits)
    have "fset A - {m} = {}" if "A |-| {|m|} = {||}"
      using arg_cong[OF that, of fset] by simp
    then show ?thesis using Some ve RSet ex
      by (cases "A |-| {|m|} = {||}") (simp_all add: ks_srem_def ks_members_def)
  qed (use Some ve in \<open>simp_all add: ks_srem_def ks_members_def\<close>)
qed (simp add: ks_srem_def ks_members_def)

lemma ks_members_expire:
  "now < now + 1000 * s \<Longrightarrow> ks_members now (ks_expire now k s ks) k = ks_members now ks k"
  by (auto simp: ks_members_def ks_live_expire split: option.splits)

section \<open>The world seen through the view\<close>

record world =
  w_ks :: keyspace
  w_users :: "id \<Rightarrow> user option"
  w_challenges :: "id \<Rightarrow> challenge option"
  w_exams :: "id \<Rightarrow> exam option"
  w_invitations :: "id \<Rightarrow> invitation option"
  w_attempts :: "id \<Rightarrow> attempt option"
  w_events :: "id \<Rightarrow> proctor_event option"
  w_out :: "(string \<times> event) list"
  w_pub :: "(string \<times> message) list"

definition same_tables :: "world \<Rightarrow> world \<Rightarrow> bool" where
  "same_tables W W' = (w_users W' = w_users W \<and> w_challenges W' = w_challenges W \<and>
     w_exams W' = w_exams W \<and> w_invitations W' = w_invitations W \<and>
     w_attempts W' = w_attempts W \<and> w_events W' = w_events W)"

lemma same_tables_simps [simp]:
  "same_tables W W" "same_tables W (w_ks_update f W') = same_tables W W'"
  "same_tables W (w_out_update g W') = same_tables W W'"
  "same_tables W (w_pub_update h W') = same_tables W W'"
  by (simp_all add: same_tables_def)

lemma same_tables_trans: "same_tables W W' \<Longrightarrow> same_tables W' W'' \<Longrightarrow> same_tables W W''"
  by (simp add: same_tables_def)

section \<open>Tables\<close>

text \<open>The statements drizzle issues on one table. A where clause is a predicate on rows; a
  \<^verbatim>\<open>SET\<close> clause a function of the row.\<close>
record ('w, 'r) table_ops =
  t_select :: "('r \<Rightarrow> bool) \<Rightarrow> 'w \<Rightarrow> 'r list"
  t_insert :: "'r \<Rightarrow> 'w \<Rightarrow> 'w"
  t_update :: "('r \<Rightarrow> bool) \<Rightarrow> ('r \<Rightarrow> 'r) \<Rightarrow> 'w \<Rightarrow> 'w"
  t_delete :: "('r \<Rightarrow> bool) \<Rightarrow> 'w \<Rightarrow> 'w"

text \<open>\<^verbatim>\<open>findFirst\<close>.\<close>
definition t_first :: "('w, 'r) table_ops \<Rightarrow> ('r \<Rightarrow> bool) \<Rightarrow> 'w \<Rightarrow> 'r option" where
  "t_first T P w = (case t_select T P w of [] \<Rightarrow> None | r # _ \<Rightarrow> Some r)"

definition rows_update :: "('r \<Rightarrow> bool) \<Rightarrow> ('r \<Rightarrow> 'r) \<Rightarrow> (id \<Rightarrow> 'r option) \<Rightarrow> id \<Rightarrow> 'r option" where
  "rows_update P f m k = map_option (\<lambda>r. if P r then f r else r) (m k)"

definition rows_delete :: "('r \<Rightarrow> bool) \<Rightarrow> (id \<Rightarrow> 'r option) \<Rightarrow> id \<Rightarrow> 'r option" where
  "rows_delete P m k = (case m k of Some r \<Rightarrow> if P r then None else Some r | None \<Rightarrow> None)"

text \<open>\<^verbatim>\<open>UPDATE .. WHERE id = k\<close> on a keyed table.\<close>
definition row_upd :: "id \<Rightarrow> ('r \<Rightarrow> 'r) \<Rightarrow> (id \<Rightarrow> 'r option) \<Rightarrow> id \<Rightarrow> 'r option" where
  "row_upd k f m = (case m k of Some r \<Rightarrow> m(k \<mapsto> f r) | None \<Rightarrow> m)"

lemma row_upd_apply [simp]:
  "row_upd k f m x = (if x = k then map_option f (m k) else m x)"
  by (auto simp: row_upd_def split: option.splits)

lemma row_upd_Some [simp]: "m k = Some r \<Longrightarrow> row_upd k f m = m(k \<mapsto> f r)"
  by (simp add: row_upd_def)

text \<open>The contract of a table with primary key \<^verbatim>\<open>key\<close>, seen as the map
  \<^verbatim>\<open>get\<close> of the world and replaced by \<^verbatim>\<open>put\<close>.\<close>
definition table_ok ::
  "('w, 'r) table_ops \<Rightarrow> ('r \<Rightarrow> id) \<Rightarrow> (world \<Rightarrow> id \<Rightarrow> 'r option) \<Rightarrow>
   (((id \<Rightarrow> 'r option) \<Rightarrow> id \<Rightarrow> 'r option) \<Rightarrow> world \<Rightarrow> world) \<Rightarrow> ('w \<Rightarrow> world) \<Rightarrow> bool" where
  "table_ok T key get put V = (\<forall>w.
     (\<forall>k r. get (V w) k = Some r \<longrightarrow> key r = k) \<and>
     (\<forall>P. distinct (t_select T P w) \<and>
          set (t_select T P w) = {r. get (V w) (key r) = Some r \<and> P r}) \<and>
     (\<forall>r. get (V w) (key r) = None \<longrightarrow> V (t_insert T r w) = put (\<lambda>m. m(key r \<mapsto> r)) (V w)) \<and>
     (\<forall>P f. (\<forall>r. key (f r) = key r) \<longrightarrow> V (t_update T P f w) = put (rows_update P f) (V w)) \<and>
     (\<forall>P. V (t_delete T P w) = put (rows_delete P) (V w)))"

lemma table_keyed: "table_ok T key get put V \<Longrightarrow> get (V w) k = Some r \<Longrightarrow> key r = k"
  by (simp add: table_ok_def)

lemma table_distinct: "table_ok T key get put V \<Longrightarrow> distinct (t_select T P w)"
  by (simp add: table_ok_def)

lemma table_set:
  "table_ok T key get put V \<Longrightarrow> set (t_select T P w) = {r. get (V w) (key r) = Some r \<and> P r}"
  by (simp add: table_ok_def)

lemma table_insert:
  "table_ok T key get put V \<Longrightarrow> get (V w) (key r) = None \<Longrightarrow>
   V (t_insert T r w) = put (\<lambda>m. m(key r \<mapsto> r)) (V w)"
  by (simp add: table_ok_def)

lemma table_update:
  "table_ok T key get put V \<Longrightarrow> (\<And>r. key (f r) = key r) \<Longrightarrow>
   V (t_update T P f w) = put (rows_update P f) (V w)"
  by (simp add: table_ok_def)

lemma table_delete:
  "table_ok T key get put V \<Longrightarrow> V (t_delete T P w) = put (rows_delete P) (V w)"
  by (simp add: table_ok_def)

lemma distinct_set_single: "distinct xs \<Longrightarrow> set xs = {r} \<Longrightarrow> xs = [r]"
proof (cases xs)
  case (Cons y ys)
  assume "distinct xs" "set xs = {r}"
  with Cons have "y = r" "set ys \<subseteq> {r}" "r \<notin> set ys" by auto
  then show ?thesis using Cons by (cases ys) simp_all
qed simp

lemma table_first_id:
  assumes T: "table_ok T key get put V"
  shows "t_first T (\<lambda>r. key r = k) w = get (V w) k"
proof (cases "get (V w) k")
  case None
  then have "set (t_select T (\<lambda>r. key r = k) w) = {}" by (auto simp: table_set[OF T])
  then show ?thesis using None by (simp add: t_first_def)
next
  case (Some r)
  have "key r = k" by (rule table_keyed[OF T Some])
  then have "set (t_select T (\<lambda>r. key r = k) w) = {r}"
    using Some by (auto simp: table_set[OF T])
  moreover have "distinct (t_select T (\<lambda>r. key r = k) w)" by (rule table_distinct[OF T])
  ultimately have "t_select T (\<lambda>r. key r = k) w = [r]"
    by (rule distinct_set_single[rotated])
  then show ?thesis using Some by (simp add: t_first_def)
qed

lemma table_first_None:
  "table_ok T key get put V \<Longrightarrow>
   t_first T P w = None \<longleftrightarrow> (\<forall>k r. get (V w) k = Some r \<longrightarrow> \<not> P r)"
proof -
  assume T: "table_ok T key get put V"
  have "t_first T P w = None \<longleftrightarrow> set (t_select T P w) = {}"
    by (simp add: t_first_def split: list.splits)
  also have "\<dots> \<longleftrightarrow> (\<forall>r. get (V w) (key r) = Some r \<longrightarrow> \<not> P r)" by (auto simp: table_set[OF T])
  also have "\<dots> \<longleftrightarrow> (\<forall>k r. get (V w) k = Some r \<longrightarrow> \<not> P r)" by (metis table_keyed[OF T])
  finally show ?thesis .
qed

lemma table_first_Some:
  "table_ok T key get put V \<Longrightarrow> t_first T P w = Some r \<Longrightarrow> get (V w) (key r) = Some r \<and> P r"
  using table_set[of T key get put V P w]
  by (cases "t_select T P w") (auto simp: t_first_def)

lemma table_update_id:
  assumes T: "table_ok T key get put V" and key: "\<And>r. key (f r) = key r"
    and put: "\<And>g h. g (get (V w)) = h (get (V w)) \<Longrightarrow> put g (V w) = put h (V w)"
  shows "V (t_update T (\<lambda>r. key r = k) f w) = put (row_upd k f) (V w)"
proof -
  have "rows_update (\<lambda>r. key r = k) f (get (V w)) = row_upd k f (get (V w))"
  proof
    fix x
    show "rows_update (\<lambda>r. key r = k) f (get (V w)) x = row_upd k f (get (V w)) x"
    proof (cases "get (V w) x")
      case (Some r)
      moreover have "key r = x" by (rule table_keyed[OF T Some])
      ultimately show ?thesis by (auto simp: rows_update_def)
    qed (auto simp: rows_update_def)
  qed
  then show ?thesis unfolding table_update[OF T key, of "\<lambda>r. key r = k"] by (rule put)
qed

section \<open>Tokens\<close>

text \<open>The claims of a signed token; \<^verbatim>\<open>cl_refresh\<close> holds the token and family ids
  of a refresh token (the claims \<^verbatim>\<open>tokenId\<close>, \<^verbatim>\<open>familyId\<close> and
  \<^verbatim>\<open>type: 'refresh'\<close>, absent from an access token).\<close>
record claims =
  cl_userId :: id
  cl_email :: string
  cl_role :: role
  cl_refresh :: "(id \<times> id) option"

datatype jwt_failure = TokenExpired | JsonWebTokenError

section \<open>The commands\<close>

record 'w services =
  sv_get :: "time \<Rightarrow> string \<Rightarrow> 'w \<Rightarrow> payload option"
  sv_exists :: "time \<Rightarrow> string \<Rightarrow> 'w \<Rightarrow> bool"
  sv_set :: "time \<Rightarrow> string \<Rightarrow> payload \<Rightarrow> int option \<Rightarrow> 'w \<Rightarrow> 'w"
  sv_setnx :: "time \<Rightarrow> string \<Rightarrow> payload \<Rightarrow> int \<Rightarrow> 'w \<Rightarrow> bool \<times> 'w"
  sv_del :: "string \<Rightarrow> 'w \<Rightarrow> 'w"
  sv_expire :: "time \<Rightarrow> string \<Rightarrow> int \<Rightarrow> 'w \<Rightarrow> 'w"
  sv_sadd :: "time \<Rightarrow> string \<Rightarrow> string \<Rightarrow> 'w \<Rightarrow> 'w"
  sv_srem :: "time \<Rightarrow> string \<Rightarrow> string \<Rightarrow> 'w \<Rightarrow> 'w"
  sv_smembers :: "time \<Rightarrow> string \<Rightarrow> 'w \<Rightarrow> string list"
  sv_lpush :: "time \<Rightarrow> string \<Rightarrow> payload \<Rightarrow> 'w \<Rightarrow> 'w"
  sv_rpush :: "time \<Rightarrow> string \<Rightarrow> payload \<Rightarrow> 'w \<Rightarrow> 'w"
  sv_ltrim :: "time \<Rightarrow> string \<Rightarrow> int \<Rightarrow> int \<Rightarrow> 'w \<Rightarrow> 'w"
  sv_lrange :: "time \<Rightarrow> string \<Rightarrow> int \<Rightarrow> int \<Rightarrow> 'w \<Rightarrow> payload list"
  sv_hset :: "time \<Rightarrow> string \<Rightarrow> (string \<times> payload) list \<Rightarrow> 'w \<Rightarrow> 'w"
  sv_hsetnx :: "time \<Rightarrow> string \<Rightarrow> string \<Rightarrow> payload \<Rightarrow> 'w \<Rightarrow> 'w"
  sv_hincrby :: "time \<Rightarrow> string \<Rightarrow> string \<Rightarrow> int \<Rightarrow> 'w \<Rightarrow> 'w"
  sv_hgetall :: "time \<Rightarrow> string \<Rightarrow> 'w \<Rightarrow> (string \<Rightarrow> payload option) option"
  sv_xgroup :: "time \<Rightarrow> string \<Rightarrow> 'w \<Rightarrow> 'w"
  sv_xadd :: "time \<Rightarrow> string \<Rightarrow> string \<Rightarrow> id \<Rightarrow> bool \<Rightarrow> grading_job \<Rightarrow> 'w \<Rightarrow> string \<times> 'w"
  sv_xlen :: "time \<Rightarrow> string \<Rightarrow> 'w \<Rightarrow> int"
  sv_xtrim :: "time \<Rightarrow> string \<Rightarrow> time \<Rightarrow> 'w \<Rightarrow> 'w"
  sv_zremrange :: "time \<Rightarrow> string \<Rightarrow> int \<Rightarrow> int \<Rightarrow> 'w \<Rightarrow> 'w"
  sv_scan :: "time \<Rightarrow> string \<Rightarrow> 'w \<Rightarrow> string list list"
  sv_users :: "('w, user) table_ops"
  sv_challenges :: "('w, challenge) table_ops"
  sv_exams :: "('w, exam) table_ops"
  sv_invitations :: "('w, invitation) table_ops"
  sv_attempts :: "('w, attempt) table_ops"
  sv_events :: "('w, proctor_event) table_ops"
  sv_emit :: "string \<Rightarrow> event \<Rightarrow> 'w \<Rightarrow> 'w"
  sv_publish :: "string \<Rightarrow> message \<Rightarrow> 'w \<Rightarrow> 'w"
  sv_jwt_sign :: "string \<Rightarrow> claims \<Rightarrow> time \<Rightarrow> int \<Rightarrow> string"
  sv_jwt_verify :: "string \<Rightarrow> time \<Rightarrow> string \<Rightarrow> jwt_failure + claims"
  sv_jwt_decode :: "string \<Rightarrow> string \<Rightarrow> claims option"
  sv_hash_password :: "string \<Rightarrow> int \<Rightarrow> string \<Rightarrow> string"
  sv_compare :: "string \<Rightarrow> string \<Rightarrow> bool"

text \<open>
  \<^verbatim>\<open>sv_scan\<close> answers the pages that the successive \<^verbatim>\<open>SCAN\<close> calls of a loop
  return until the cursor is 0 again. \<^verbatim>\<open>sv_jwt_decode\<close> is \<^verbatim>\<open>jwt.verify\<close> with
  \<^verbatim>\<open>ignoreExpiration\<close>. \<^verbatim>\<open>sv_jwt_sign s c now d\<close> signs with the secret
  \<^verbatim>\<open>s\<close> a token valid for \<^verbatim>\<open>d\<close> seconds. \<^verbatim>\<open>sv_hash_password salt n pw\<close>
  is bcrypt with cost \<^verbatim>\<open>n\<close>.
\<close>

abbreviation find_user :: "'w services \<Rightarrow> id \<Rightarrow> 'w \<Rightarrow> user option" where
  "find_user S k \<equiv> t_first (sv_users S) (\<lambda>r. u_id r = k)"
abbreviation find_challenge :: "'w services \<Rightarrow> id \<Rightarrow> 'w \<Rightarrow> challenge option" where
  "find_challenge S k \<equiv> t_first (sv_challenges S) (\<lambda>r. c_id r = k)"
abbreviation find_exam :: "'w services \<Rightarrow> id \<Rightarrow> 'w \<Rightarrow> exam option" where
  "find_exam S k \<equiv> t_first (sv_exams S) (\<lambda>r. e_id r = k)"
abbreviation find_attempt :: "'w services \<Rightarrow> id \<Rightarrow> 'w \<Rightarrow> attempt option" where
  "find_attempt S k \<equiv> t_first (sv_attempts S) (\<lambda>r. a_id r = k)"
abbreviation update_user :: "'w services \<Rightarrow> id \<Rightarrow> (user \<Rightarrow> user) \<Rightarrow> 'w \<Rightarrow> 'w" where
  "update_user S k \<equiv> t_update (sv_users S) (\<lambda>r. u_id r = k)"
abbreviation update_challenge :: "'w services \<Rightarrow> id \<Rightarrow> (challenge \<Rightarrow> challenge) \<Rightarrow> 'w \<Rightarrow> 'w" where
  "update_challenge S k \<equiv> t_update (sv_challenges S) (\<lambda>r. c_id r = k)"
abbreviation update_exam :: "'w services \<Rightarrow> id \<Rightarrow> (exam \<Rightarrow> exam) \<Rightarrow> 'w \<Rightarrow> 'w" where
  "update_exam S k \<equiv> t_update (sv_exams S) (\<lambda>r. e_id r = k)"
abbreviation update_invitation :: "'w services \<Rightarrow> id \<Rightarrow> (invitation \<Rightarrow> invitation) \<Rightarrow> 'w \<Rightarrow> 'w" where
  "update_invitation S k \<equiv> t_update (sv_invitations S) (\<lambda>r. i_id r = k)"
abbreviation update_attempt :: "'w services \<Rightarrow> id \<Rightarrow> (attempt \<Rightarrow> attempt) \<Rightarrow> 'w \<Rightarrow> 'w" where
  "update_attempt S k \<equiv> t_update (sv_attempts S) (\<lambda>r. a_id r = k)"

section \<open>The contract\<close>

locale services =
  fixes S :: "'w services" and V :: "'w \<Rightarrow> world"
  assumes get [simp]: "sv_get S now k w = ks_get now (w_ks (V w)) k"
    and exists [simp]: "sv_exists S now k w = ks_exists now (w_ks (V w)) k"
    and set [simp]: "V (sv_set S now k p ttl w) = w_ks_update (ks_set now k p ttl) (V w)"
    and setnx_fst [simp]: "fst (sv_setnx S now k p s w) = (\<not> ks_exists now (w_ks (V w)) k)"
    and setnx_snd [simp]: "V (snd (sv_setnx S now k p s w)) =
      (if ks_exists now (w_ks (V w)) k then V w else w_ks_update (ks_set now k p (Some s)) (V w))"
    and del [simp]: "V (sv_del S k w) = w_ks_update (ks_del k) (V w)"
    and expire [simp]: "V (sv_expire S now k s w) = w_ks_update (ks_expire now k s) (V w)"
    and sadd [simp]: "V (sv_sadd S now k m w) = w_ks_update (ks_sadd now k m) (V w)"
    and srem [simp]: "V (sv_srem S now k m w) = w_ks_update (ks_srem now k m) (V w)"
    and smembers_set: "set (sv_smembers S now k w) = ks_members now (w_ks (V w)) k"
    and smembers_distinct [simp]: "distinct (sv_smembers S now k w)"
    and lpush [simp]: "V (sv_lpush S now k p w) = w_ks_update (ks_put_list now k (Cons p)) (V w)"
    and rpush [simp]: "V (sv_rpush S now k p w) = w_ks_update (ks_put_list now k (\<lambda>l. l @ [p])) (V w)"
    and ltrim [simp]: "V (sv_ltrim S now k i j w) = w_ks_update (ks_put_list now k (redis_range i j)) (V w)"
    and lrange [simp]: "sv_lrange S now k i j w = redis_range i j (ks_list now (w_ks (V w)) k)"
    and hset [simp]: "V (sv_hset S now k fs w) = w_ks_update (ks_put_hash now k (\<lambda>h. h ++ map_of fs)) (V w)"
    and hsetnx [simp]: "V (sv_hsetnx S now k f p w) = w_ks_update (ks_put_hash now k (hash_setnx f p)) (V w)"
    and hincrby [simp]: "V (sv_hincrby S now k f d w) = w_ks_update (ks_put_hash now k (hash_incr f d)) (V w)"
    and hgetall [simp]: "sv_hgetall S now k w = ks_hash now (w_ks (V w)) k"
    and xgroup [simp]: "V (sv_xgroup S now k w) = w_ks_update (ks_put_stream now k (\<lambda>l. l)) (V w)"
    and xadd [simp]: "V (snd (sv_xadd S now k jid aid pv job w)) = w_ks_update (ks_put_stream now k
        (\<lambda>l. l @ [\<lparr>se_id = fst (sv_xadd S now k jid aid pv job w), se_ms = now, se_jobId = jid,
          se_attemptId = aid, se_isPreview = pv, se_createdAt = now, se_job = job\<rparr>])) (V w)"
    and xlen [simp]: "sv_xlen S now k w = int (length (ks_stream now (w_ks (V w)) k))"
    and xtrim [simp]: "V (sv_xtrim S now k ms w) = w_ks_update (ks_trim_stream now k ms) (V w)"
    and zremrange [simp]: "V (sv_zremrange S now k lo hi w) = w_ks_update (ks_trim_zset now k lo hi) (V w)"
    and scan_set: "set (concat (sv_scan S now pre w)) = {k. prefix pre k \<and> ks_exists now (w_ks (V w)) k}"
    and users_ok: "table_ok (sv_users S) u_id w_users w_users_update V"
    and challenges_ok: "table_ok (sv_challenges S) c_id w_challenges w_challenges_update V"
    and exams_ok: "table_ok (sv_exams S) e_id w_exams w_exams_update V"
    and invitations_ok: "table_ok (sv_invitations S) i_id w_invitations w_invitations_update V"
    and attempts_ok: "table_ok (sv_attempts S) a_id w_attempts w_attempts_update V"
    and events_ok: "table_ok (sv_events S) p_id w_events w_events_update V"
    and emit [simp]: "V (sv_emit S room ev w) = w_out_update (\<lambda>l. l @ [(room, ev)]) (V w)"
    and publish [simp]: "V (sv_publish S ch msg w) = w_pub_update (\<lambda>l. l @ [(ch, msg)]) (V w)"
    and jwt_verify_sign: "sv_jwt_verify S sec now (sv_jwt_sign S sec c iat d) =
      (if now div 1000 < iat div 1000 + d then Inr c else Inl TokenExpired)"
    and jwt_verify_other: "sec \<noteq> sec' \<Longrightarrow> sv_jwt_verify S sec' now (sv_jwt_sign S sec c iat d) = Inl JsonWebTokenError"
    and jwt_verify_decode: "sv_jwt_verify S sec now t = Inr c \<Longrightarrow> sv_jwt_decode S sec t = Some c"
    and jwt_decode_sign: "sv_jwt_decode S sec (sv_jwt_sign S sec c iat d) = Some c"
    and jwt_no_space: "CHR '' '' \<notin> set (sv_jwt_sign S sec c iat d)"
    and compare_hash: "length pw \<le> 72 \<Longrightarrow> length pw' \<le> 72 \<Longrightarrow>
      sv_compare S pw (sv_hash_password S salt n pw') \<longleftrightarrow> pw = pw'"
begin

lemma find_user_eq [simp]: "find_user S k w = w_users (V w) k"
  by (rule table_first_id[OF users_ok])
lemma find_challenge_eq [simp]: "find_challenge S k w = w_challenges (V w) k"
  by (rule table_first_id[OF challenges_ok])
lemma find_exam_eq [simp]: "find_exam S k w = w_exams (V w) k"
  by (rule table_first_id[OF exams_ok])
lemma find_attempt_eq [simp]: "find_attempt S k w = w_attempts (V w) k"
  by (rule table_first_id[OF attempts_ok])

lemma update_user_eq [simp]:
  "(\<And>r. u_id (f r) = u_id r) \<Longrightarrow> V (update_user S k f w) = w_users_update (row_upd k f) (V w)"
  by (rule table_update_id[OF users_ok]) auto
lemma update_challenge_eq [simp]:
  "(\<And>r. c_id (f r) = c_id r) \<Longrightarrow> V (update_challenge S k f w) = w_challenges_update (row_upd k f) (V w)"
  by (rule table_update_id[OF challenges_ok]) auto
lemma update_exam_eq [simp]:
  "(\<And>r. e_id (f r) = e_id r) \<Longrightarrow> V (update_exam S k f w) = w_exams_update (row_upd k f) (V w)"
  by (rule table_update_id[OF exams_ok]) auto
lemma update_invitation_eq [simp]:
  "(\<And>r. i_id (f r) = i_id r) \<Longrightarrow> V (update_invitation S k f w) = w_invitations_update (row_upd k f) (V w)"
  by (rule table_update_id[OF invitations_ok]) auto
lemma update_attempt_eq [simp]:
  "(\<And>r. a_id (f r) = a_id r) \<Longrightarrow> V (update_attempt S k f w) = w_attempts_update (row_upd k f) (V w)"
  by (rule table_update_id[OF attempts_ok]) auto

end

end
