(* ===== verification/Reference_Store.thy ===== *)
theory Reference_Store
  imports Services
begin

text \<open>
  An executable instance of the service contract: a keyspace and tables kept as lists, tokens
  as a printable encoding of their claims. It shows that the contract can be met, and the
  witnesses of the properties run the program's handlers on it.
\<close>

section \<open>The keyspace\<close>

record ref_world =
  rw_ks :: "(string \<times> (rvalue \<times> time option)) list"
  rw_users :: "user list"
  rw_challenges :: "challenge list"
  rw_exams :: "exam list"
  rw_invitations :: "invitation list"
  rw_attempts :: "attempt list"
  rw_events :: "proctor_event list"
  rw_out :: "(string \<times> event) list"
  rw_pub :: "(string \<times> message) list"

definition empty_ref :: ref_world where
  "empty_ref = \<lparr> rw_ks = [], rw_users = [], rw_challenges = [], rw_exams = [], rw_invitations = [],
     rw_attempts = [], rw_events = [], rw_out = [], rw_pub = [] \<rparr>"

definition keyed :: "('r \<Rightarrow> id) \<Rightarrow> 'r list \<Rightarrow> id \<Rightarrow> 'r option" where
  "keyed key rows = map_of (map (\<lambda>r. (key r, r)) rows)"

definition ref_view :: "ref_world \<Rightarrow> world" where
  "ref_view w = \<lparr> w_ks = map_of (rw_ks w), w_users = keyed u_id (rw_users w),
     w_challenges = keyed c_id (rw_challenges w), w_exams = keyed e_id (rw_exams w),
     w_invitations = keyed i_id (rw_invitations w), w_attempts = keyed a_id (rw_attempts w),
     w_events = keyed p_id (rw_events w), w_out = rw_out w, w_pub = rw_pub w \<rparr>"

text \<open>Run a keyspace command that touches the key \<^verbatim>\<open>k\<close> only.\<close>
definition ref_at :: "string \<Rightarrow> (keyspace \<Rightarrow> keyspace) \<Rightarrow> ref_world \<Rightarrow> ref_world" where
  "ref_at k f w = w\<lparr> rw_ks := (case f (map_of (rw_ks w)) k of
     None \<Rightarrow> AList.delete k (rw_ks w) | Some v \<Rightarrow> AList.update k v (rw_ks w)) \<rparr>"

definition only_at :: "string \<Rightarrow> (keyspace \<Rightarrow> keyspace) \<Rightarrow> bool" where
  "only_at k f = (\<forall>ks. f ks = ks(k := f ks k))"

lemma ref_view_at:
  assumes "only_at k f" shows "ref_view (ref_at k f w) = w_ks_update f (ref_view w)"
proof -
  have "f (map_of (rw_ks w)) = (map_of (rw_ks w))(k := f (map_of (rw_ks w)) k)"
    using assms by (simp add: only_at_def)
  then show ?thesis
    by (simp add: ref_view_def ref_at_def update_conv' delete_conv' split: option.splits)
      (metis fun_upd_upd)
qed

lemmas ks_updates = ks_set_def ks_del_def ks_expire_def ks_sadd_def ks_srem_def ks_put_list_def
  ks_put_hash_def ks_put_stream_def ks_trim_stream_def ks_trim_zset_def

lemma only_at_ks [simp]:
  "only_at k (ks_set now k p ttl)" "only_at k (ks_del k)" "only_at k (ks_expire now k sec)"
  "only_at k (ks_sadd now k m)" "only_at k (ks_srem now k m)" "only_at k (ks_put_list now k fl)"
  "only_at k (ks_put_hash now k fh)" "only_at k (ks_put_stream now k fs)"
  "only_at k (ks_trim_stream now k ms)" "only_at k (ks_trim_zset now k lo hi)"
  unfolding only_at_def ks_updates
  by (auto simp: fun_eq_iff Let_def split: option.splits prod.splits rvalue.splits)

section \<open>Tables\<close>

fun canon :: "('r \<Rightarrow> id) \<Rightarrow> 'r list \<Rightarrow> 'r list" where
  "canon key [] = []"
| "canon key (r # rs) = r # filter (\<lambda>x. key x \<noteq> key r) (canon key rs)"

definition ref_table ::
  "('r \<Rightarrow> id) \<Rightarrow> (ref_world \<Rightarrow> 'r list) \<Rightarrow> (('r list \<Rightarrow> 'r list) \<Rightarrow> ref_world \<Rightarrow> ref_world) \<Rightarrow>
   (ref_world, 'r) table_ops" where
  "ref_table key rows upd =
    \<lparr> t_select = (\<lambda>P w. filter P (canon key (rows w))),
      t_insert = (\<lambda>r w. upd (\<lambda>l. l @ [r]) w),
      t_update = (\<lambda>P f w. upd (\<lambda>l. map (\<lambda>r. if P r then f r else r) (canon key l)) w),
      t_delete = (\<lambda>P w. upd (\<lambda>l. filter (\<lambda>r. \<not> P r) (canon key l)) w) \<rparr>"

lemma keyed_Nil [simp]: "keyed key [] = Map.empty"
  by (simp add: keyed_def)

lemma keyed_Cons: "keyed key (r # rs) = (keyed key rs)(key r \<mapsto> r)"
  by (simp add: keyed_def)

lemma keyed_key: "keyed key rs k = Some r \<Longrightarrow> key r = k"
  by (induction rs) (auto simp: keyed_Cons split: if_splits)

lemma canon_set: "r \<in> set (canon key rs) \<longleftrightarrow> keyed key rs (key r) = Some r"
  by (induction rs) (auto simp: keyed_Cons)

lemma canon_inj: "inj_on key (set (canon key rs))"
  by (auto simp: inj_on_def canon_set)

lemma canon_distinct: "distinct (canon key rs)"
  by (induction rs) auto

lemma keyed_inj: "inj_on key (set rs) \<Longrightarrow> keyed key rs k = Some r \<longleftrightarrow> r \<in> set rs \<and> key r = k"
  by (induction rs) (auto simp: keyed_Cons inj_on_def split: if_splits)

lemma keyed_canon_iff: "keyed key rs k = Some r \<longleftrightarrow> r \<in> set (canon key rs) \<and> key r = k"
  using canon_set[of r key rs] keyed_key[of key rs k r] by auto

lemma map_eqI_Some: "(\<And>k r. m k = Some r \<longleftrightarrow> m' k = Some r) \<Longrightarrow> m = m'"
  by (metis ext not_Some_eq)

lemma image_key_iff:
  "(\<And>x. key (g x) = key x) \<Longrightarrow> (r \<in> g ` A \<and> key r = k) = (\<exists>x. x \<in> A \<and> g x = r \<and> key x = k)"
  by (auto simp: image_iff)

lemma keyed_update:
  assumes "\<And>r. key (f r) = key r"
  shows "keyed key (map (\<lambda>r. if P r then f r else r) (canon key rs)) = rows_update P f (keyed key rs)"
proof (rule map_eqI_Some)
  fix k r
  let ?g = "\<lambda>r. if P r then f r else r"
  have key: "key (?g x) = key x" for x using assms by simp
  have inj: "inj_on key (set (map ?g (canon key rs)))"
    using canon_inj[of key rs] key unfolding inj_on_def set_map by (metis (no_types, lifting) imageE)
  have "keyed key (map ?g (canon key rs)) k = Some r \<longleftrightarrow> r \<in> ?g ` set (canon key rs) \<and> key r = k"
    by (simp only: keyed_inj[OF inj] set_map)
  also have "\<dots> \<longleftrightarrow> (\<exists>x. x \<in> set (canon key rs) \<and> ?g x = r \<and> key x = k)"
    by (rule image_key_iff) (rule key)
  also have "\<dots> \<longleftrightarrow> (\<exists>x. keyed key rs k = Some x \<and> ?g x = r)"
    by (simp only: keyed_canon_iff) blast
  finally show "keyed key (map ?g (canon key rs)) k = Some r \<longleftrightarrow> rows_update P f (keyed key rs) k = Some r"
    by (simp add: rows_update_def)
qed

lemma keyed_filter: "keyed key (filter (\<lambda>r. \<not> P r) (canon key rs)) = rows_delete P (keyed key rs)"
proof (rule map_eqI_Some)
  fix k r
  have inj: "inj_on key (set (filter (\<lambda>r. \<not> P r) (canon key rs)))"
    using canon_inj[of key rs] by (auto simp: inj_on_def)
  have "keyed key (filter (\<lambda>r. \<not> P r) (canon key rs)) k = Some r \<longleftrightarrow> keyed key rs k = Some r \<and> \<not> P r"
    unfolding keyed_inj[OF inj] by (simp add: keyed_canon_iff) blast
  then show "keyed key (filter (\<lambda>r. \<not> P r) (canon key rs)) k = Some r \<longleftrightarrow> rows_delete P (keyed key rs) k = Some r"
    by (auto simp: rows_delete_def split: option.splits)
qed

lemma keyed_append: "keyed key rs (key r) = None \<Longrightarrow> keyed key (rs @ [r]) = (keyed key rs)(key r \<mapsto> r)"
  by (auto simp: keyed_def map_add_def fun_eq_iff split: option.splits)

lemma ref_table_ok:
  assumes view: "\<And>w. get (ref_view w) = keyed key (rows w)"
    and put: "\<And>g h w. (\<And>l. keyed key (g l) = h (keyed key l)) \<Longrightarrow> ref_view (upd g w) = put h (ref_view w)"
    and ins: "\<And>g h w. keyed key (g (rows w)) = h (keyed key (rows w)) \<Longrightarrow> ref_view (upd g w) = put h (ref_view w)"
  shows "table_ok (ref_table key rows upd) key get put ref_view"
  unfolding table_ok_def ref_table_def view
  by (auto simp: keyed_key canon_set canon_distinct keyed_update keyed_filter keyed_append
      intro!: put ins)

section \<open>Tokens and passwords as printable text\<close>

definition enc_char :: "char \<Rightarrow> string" where
  "enc_char c = (let n = of_char c :: nat in [char_of (65 + n div 16), char_of (65 + n mod 16)])"

fun dec_chars :: "string \<Rightarrow> string" where
  "dec_chars (a # b # s) = char_of (16 * (of_char a - 65) + (of_char b - 65) :: nat) # dec_chars s"
| "dec_chars _ = []"

definition enc_fields :: "string list \<Rightarrow> string" where
  "enc_fields fs = str_join ''.'' (map (\<lambda>s. concat (map enc_char s)) fs)"

definition dec_fields :: "string \<Rightarrow> string list" where
  "dec_fields t = map dec_chars (str_split CHR ''.'' t)"

lemma of_char_small: "(of_char c :: nat) < 256"
  by (metis of_char_mod_256 mod_less_divisor zero_less_numeral)

lemma enc_char_props: "\<exists>a b. enc_char c = [a, b] \<and>
   char_of (16 * (of_char a - 65) + (of_char b - 65) :: nat) = c \<and>
   {a, b} \<inter> {CHR ''.'', CHR '' ''} = {}"
proof -
  let ?n = "of_char c :: nat"
  have n: "?n < 256" by (rule of_char_small)
  have d: "?n div 16 < 16" "?n mod 16 < 16"
    using n by (simp_all only: less_mult_imp_div_less[of ?n 16 16] mod_less_divisor zero_less_numeral)
  have a: "of_char (char_of (65 + ?n div 16) :: char) = 65 + ?n div 16"
    and b: "of_char (char_of (65 + ?n mod 16) :: char) = 65 + ?n mod 16"
    using d by simp_all
  have ne: "char_of (65 + m :: nat) \<noteq> CHR ''.''" "char_of (65 + m :: nat) \<noteq> CHR '' ''" if "m < 16" for m
  proof -
    have v: "of_char (char_of (65 + m :: nat) :: char) = 65 + m" using that by simp
    show "char_of (65 + m :: nat) \<noteq> CHR ''.''" using arg_cong[of _ "CHR ''.''" "of_char :: char \<Rightarrow> nat"] v by force
    show "char_of (65 + m :: nat) \<noteq> CHR '' ''" using arg_cong[of _ "CHR '' ''" "of_char :: char \<Rightarrow> nat"] v by force
  qed
  have "char_of (16 * (?n div 16) + ?n mod 16 :: nat) = c" by simp
  then show ?thesis using ne[OF d(1)] ne[OF d(2)]
    by (intro exI[of _ "char_of (65 + ?n div 16)"] exI[of _ "char_of (65 + ?n mod 16)"] conjI)
      (simp_all only: enc_char_def Let_def a b diff_add_inverse, auto)
qed

lemma enc_str_props: "dec_chars (concat (map enc_char s)) = s"
  "CHR ''.'' \<notin> set (concat (map enc_char s))" "CHR '' '' \<notin> set (concat (map enc_char s))"
proof (induction s)
  case (Cons c s)
  obtain a b where e: "enc_char c = [a, b]" "char_of (16 * (of_char a - 65) + (of_char b - 65) :: nat) = c"
    "{a, b} \<inter> {CHR ''.'', CHR '' ''} = {}" using enc_char_props by blast
  show "dec_chars (concat (map enc_char (c # s))) = c # s" using e Cons by simp
  show "CHR ''.'' \<notin> set (concat (map enc_char (c # s)))" using e Cons by auto
  show "CHR '' '' \<notin> set (concat (map enc_char (c # s)))" using e Cons by auto
qed simp_all

lemma dec_enc_fields: "fs \<noteq> [] \<Longrightarrow> dec_fields (enc_fields fs) = fs"
  unfolding dec_fields_def enc_fields_def
  by (subst str_split_join) (auto simp only: enc_str_props set_map map_map comp_def map_is_Nil_conv intro!: map_idI)

lemma enc_fields_no_space: "CHR '' '' \<notin> set (enc_fields fs)"
proof -
  have "CHR '' '' \<notin> set (str_join ''.'' ws)" if "\<forall>w\<in>set ws. CHR '' '' \<notin> set w" for ws
    using that by (induction "''.''" ws rule: str_join.induct) auto
  then show ?thesis unfolding enc_fields_def using enc_str_props(3) by force
qed

fun role_name :: "role \<Rightarrow> string" where
  "role_name ADMIN = ''ADMIN''"
| "role_name CANDIDATE = ''CANDIDATE''"
| "role_name REVIEWER = ''REVIEWER''"

definition role_of :: "string \<Rightarrow> role" where
  "role_of s = (if s = ''ADMIN'' then ADMIN else if s = ''REVIEWER'' then REVIEWER else CANDIDATE)"

lemma role_of_name [simp]: "role_of (role_name r) = r"
  by (cases r) (simp_all add: role_of_def)

definition ref_sign :: "string \<Rightarrow> claims \<Rightarrow> time \<Rightarrow> int \<Rightarrow> string" where
  "ref_sign sec c iat d = (let e = iat div 1000 + d in enc_fields
     ([sec, cl_userId c, cl_email c, role_name (cl_role c), nat_digits (nat e), nat_digits (nat (- e))] @
      (case cl_refresh c of None \<Rightarrow> [] | Some (t, f) \<Rightarrow> [t, f])))"

definition ref_open :: "string \<Rightarrow> (string \<times> claims \<times> int) option" where
  "ref_open t = (case dec_fields t of
     sec # u # m # r # e # e' # rest \<Rightarrow> Some (sec,
       \<lparr> cl_userId = u, cl_email = m, cl_role = role_of r,
         cl_refresh = (case rest of [t, f] \<Rightarrow> Some (t, f) | _ \<Rightarrow> None) \<rparr>,
       int (digits_val e) - int (digits_val e'))
   | _ \<Rightarrow> None)"

lemma ref_open_sign: "ref_open (ref_sign sec c iat d) = Some (sec, c, iat div 1000 + d)"
proof -
  have e: "int (nat x) - int (nat (- x)) = x" for x by simp
  show ?thesis
    by (cases c; cases "cl_refresh c")
      (simp_all add: ref_open_def ref_sign_def Let_def dec_enc_fields e split: option.splits prod.splits)
qed

definition ref_verify :: "string \<Rightarrow> time \<Rightarrow> string \<Rightarrow> jwt_failure + claims" where
  "ref_verify sec now t = (case ref_open t of
     Some (s, c, e) \<Rightarrow> if s \<noteq> sec then Inl JsonWebTokenError
                     else if now div 1000 < e then Inr c else Inl TokenExpired
   | None \<Rightarrow> Inl JsonWebTokenError)"

definition ref_decode :: "string \<Rightarrow> string \<Rightarrow> claims option" where
  "ref_decode sec t = (case ref_open t of Some (s, c, e) \<Rightarrow> if s = sec then Some c else None | None \<Rightarrow> None)"

section \<open>The services\<close>

definition ref_services :: "ref_world services" where
  "ref_services = \<lparr>
    sv_get = (\<lambda>now k w. ks_get now (map_of (rw_ks w)) k),
    sv_exists = (\<lambda>now k w. ks_exists now (map_of (rw_ks w)) k),
    sv_set = (\<lambda>now k p ttl. ref_at k (ks_set now k p ttl)),
    sv_setnx = (\<lambda>now k p sec w. if ks_exists now (map_of (rw_ks w)) k then (False, w)
                 else (True, ref_at k (ks_set now k p (Some sec)) w)),
    sv_del = (\<lambda>k. ref_at k (ks_del k)),
    sv_expire = (\<lambda>now k sec. ref_at k (ks_expire now k sec)),
    sv_sadd = (\<lambda>now k m. ref_at k (ks_sadd now k m)),
    sv_srem = (\<lambda>now k m. ref_at k (ks_srem now k m)),
    sv_smembers = (\<lambda>now k w. sorted_list_of_set (ks_members now (map_of (rw_ks w)) k)),
    sv_lpush = (\<lambda>now k p. ref_at k (ks_put_list now k (Cons p))),
    sv_rpush = (\<lambda>now k p. ref_at k (ks_put_list now k (\<lambda>l. l @ [p]))),
    sv_ltrim = (\<lambda>now k i j. ref_at k (ks_put_list now k (redis_range i j))),
    sv_lrange = (\<lambda>now k i j w. redis_range i j (ks_list now (map_of (rw_ks w)) k)),
    sv_hset = (\<lambda>now k fs. ref_at k (ks_put_hash now k (\<lambda>h. h ++ map_of fs))),
    sv_hsetnx = (\<lambda>now k f p. ref_at k (ks_put_hash now k (hash_setnx f p))),
    sv_hincrby = (\<lambda>now k f d. ref_at k (ks_put_hash now k (hash_incr f d))),
    sv_hgetall = (\<lambda>now k w. ks_hash now (map_of (rw_ks w)) k),
    sv_xgroup = (\<lambda>now k. ref_at k (ks_put_stream now k (\<lambda>l. l))),
    sv_xadd = (\<lambda>now k jid aid pv job w.
       let i = str_of_int now @ ''-'' @ nat_digits (length (ks_stream now (map_of (rw_ks w)) k))
       in (i, ref_at k (ks_put_stream now k (\<lambda>l. l @ [\<lparr>se_id = i, se_ms = now, se_jobId = jid,
          se_attemptId = aid, se_isPreview = pv, se_createdAt = now, se_job = job\<rparr>])) w)),
    sv_xlen = (\<lambda>now k w. int (length (ks_stream now (map_of (rw_ks w)) k))),
    sv_xtrim = (\<lambda>now k ms. ref_at k (ks_trim_stream now k ms)),
    sv_zremrange = (\<lambda>now k lo hi. ref_at k (ks_trim_zset now k lo hi)),
    sv_scan = (\<lambda>now pre w. [filter (\<lambda>k. prefix pre k \<and> ks_exists now (map_of (rw_ks w)) k) (map fst (rw_ks w))]),
    sv_users = ref_table u_id rw_users rw_users_update,
    sv_challenges = ref_table c_id rw_challenges rw_challenges_update,
    sv_exams = ref_table e_id rw_exams rw_exams_update,
    sv_invitations = ref_table i_id rw_invitations rw_invitations_update,
    sv_attempts = ref_table a_id rw_attempts rw_attempts_update,
    sv_events = ref_table p_id rw_events rw_events_update,
    sv_emit = (\<lambda>room ev. rw_out_update (\<lambda>l. l @ [(room, ev)])),
    sv_publish = (\<lambda>ch msg. rw_pub_update (\<lambda>l. l @ [(ch, msg)])),
    sv_jwt_sign = ref_sign,
    sv_jwt_verify = ref_verify,
    sv_jwt_decode = ref_decode,
    sv_hash_password = (\<lambda>salt n pw. enc_fields [salt, pw]),
    sv_compare = (\<lambda>pw h. (case dec_fields h of [_, pw'] \<Rightarrow> pw = pw' | _ \<Rightarrow> False)) \<rparr>"

lemma ref_ks [simp]: "w_ks (ref_view w) = map_of (rw_ks w)"
  by (simp add: ref_view_def)

lemma ref_exists_dom: "ks_exists now (map_of l) k \<Longrightarrow> k \<in> fst ` set l"
proof -
  assume "ks_exists now (map_of l) k"
  then have "map_of l k \<noteq> None" by (auto simp: ks_exists_def ks_live_def split: option.splits)
  then show ?thesis by (simp add: map_of_eq_None_iff)
qed

lemma ref_members [simp]: "set (sorted_list_of_set (ks_members now m k)) = ks_members now m k"
  by (rule set_sorted_list_of_set) (auto simp: ks_members_def split: option.splits prod.splits rvalue.splits)

lemma ref_sign_no_space [simp]: "CHR '' '' \<notin> set (ref_sign sec c iat d)"
  by (simp add: ref_sign_def Let_def enc_fields_no_space)

lemma ref_view_out [simp]: "ref_view (rw_out_update f w) = w_out_update f (ref_view w)"
  "ref_view (rw_pub_update g w) = w_pub_update g (ref_view w)"
  by (simp_all add: ref_view_def)

lemma ref_tables [simp]:
  "table_ok (ref_table u_id rw_users rw_users_update) u_id w_users w_users_update ref_view"
  "table_ok (ref_table c_id rw_challenges rw_challenges_update) c_id w_challenges w_challenges_update ref_view"
  "table_ok (ref_table e_id rw_exams rw_exams_update) e_id w_exams w_exams_update ref_view"
  "table_ok (ref_table i_id rw_invitations rw_invitations_update) i_id w_invitations w_invitations_update ref_view"
  "table_ok (ref_table a_id rw_attempts rw_attempts_update) a_id w_attempts w_attempts_update ref_view"
  "table_ok (ref_table p_id rw_events rw_events_update) p_id w_events w_events_update ref_view"
  by (rule ref_table_ok; simp add: ref_view_def)+

interpretation ref: services ref_services ref_view
  by unfold_locales
    (auto simp: ref_services_def ref_view_at ref_exists_dom Let_def ref_verify_def ref_decode_def
      ref_open_sign dec_enc_fields split: if_splits option.splits)

end
