(* ===== verification/Locks.thy ===== *)
theory Locks
  imports Reference_Store
begin

text \<open>
  The locks of the program are Redis keys set with \<^verbatim>\<open>SET key value NX EX ttl\<close> and
  released with \<^verbatim>\<open>DEL\<close>: the lock of a test run (\<^verbatim>\<open>grading:lock:\<close>), of the
  expiry of a timer (\<^verbatim>\<open>timer_lock:\<close>), of a scheduler cycle and of an overdue attempt.
  The locale is their contract; the service contract provides it for every key.
\<close>

locale expiring_lock =
  fixes acquire :: "time \<Rightarrow> 'w \<Rightarrow> bool \<times> 'w"
    and release :: "'w \<Rightarrow> 'w"
    and held :: "time \<Rightarrow> 'w \<Rightarrow> bool"
    and ttl :: int
  assumes acquire_iff: "fst (acquire t w) \<longleftrightarrow> \<not> held t w"
    and acquire_held: "\<not> held t w \<Longrightarrow> held t' (snd (acquire t w)) \<longleftrightarrow> t' < t + 1000 * ttl"
    and acquire_fails: "held t w \<Longrightarrow> held t' (snd (acquire t w)) \<longleftrightarrow> held t' w"
    and release_free: "\<not> held t (release w)"
    and held_antimono: "held t w \<Longrightarrow> t' \<le> t \<Longrightarrow> held t' w"
begin

text \<open>The number of successful acquisitions among attempts at the given times.\<close>
fun grants :: "time list \<Rightarrow> 'w \<Rightarrow> nat" where
  "grants [] w = 0"
| "grants (t # ts) w = (case acquire t w of (ok, w') \<Rightarrow> (if ok then 1 else 0) + grants ts w')"

lemma no_grant_while_held: "(\<And>t. t \<in> set ts \<Longrightarrow> held t w) \<Longrightarrow> grants ts w = 0"
proof (induction ts arbitrary: w)
  case (Cons t ts)
  obtain ok w' where a: "acquire t w = (ok, w')" by force
  have h: "held t w" using Cons.prems by simp
  have "\<not> ok" using acquire_iff[of t w] h a by simp
  moreover have "held u w'" if "u \<in> set ts" for u
    using acquire_fails[OF h, of u] a Cons.prems that by simp
  ultimately show ?case using Cons.IH[of w'] a by simp
qed simp

text \<open>Within one time-to-live at most one of any number of concurrent requests gets the lock.\<close>
lemma at_most_one_grant:
  assumes "\<And>t. t \<in> set ts \<Longrightarrow> t0 \<le> t \<and> t < t0 + 1000 * ttl"
  shows "grants ts w \<le> 1"
  using assms
proof (induction ts arbitrary: w)
  case (Cons t ts)
  obtain ok w' where a: "acquire t w = (ok, w')" by force
  show ?case
  proof (cases "held t w")
    case True
    then show ?thesis using acquire_iff[of t w] a Cons by simp
  next
    case False
    have "held u w'" if "u \<in> set ts" for u
      using acquire_held[OF False, of u] a Cons.prems[of u] Cons.prems[of t] that by simp
    then show ?thesis using no_grant_while_held[of ts w'] a by simp
  qed
qed simp

lemma reacquire_after_release: "fst (acquire t (release w))"
  by (simp add: acquire_iff release_free)

end

lemma ks_exists_antimono: "ks_exists t ks k \<Longrightarrow> t' \<le> t \<Longrightarrow> ks_exists t' ks k"
  by (auto simp: ks_exists_def ks_live_def split: option.splits if_splits)

sublocale services \<subseteq> nx: expiring_lock
  "\<lambda>t. sv_setnx S t k p ttl" "sv_del S k" "\<lambda>t w. ks_exists t (w_ks (V w)) k" ttl for k p ttl
  by unfold_locales (auto intro: ks_exists_antimono)

end
