(* ===== verification/Demo_World.thy ===== *)
theory Demo_World
  imports Reference_Store
begin

text \<open>
  A small database on the reference store: an administrator, a second administrator whose
  account is pending, a candidate, one challenge, one published exam of an hour with a single
  attempt, the candidate's attempt in progress and an open invitation. The witnesses of the
  properties start here.
\<close>

definition demo_challenge :: challenge where
  "demo_challenge = \<lparr> c_id = ''c1'', c_name = ''fizz'', c_description = None,
     c_starterFiles = [(''app.js'', ''0'')], c_publicTests = ''pub'', c_hiddenTests = ''hid'',
     c_dependencies = [], c_nodeVersion = ''20'', c_runner = None, c_createdAt = 0,
     c_createdBy = Some ''adm'' \<rparr>"

definition demo_exam :: exam where
  "demo_exam = \<lparr> e_id = ''e1'', e_title = ''exam'', e_description = None, e_challengeId = ''c1'',
     e_timeLimit = 60, e_maxAttempts = 1, e_passThreshold = 3 / 5, e_scheduledStartAt = None,
     e_scheduledEndAt = Some 7200000, e_timezone = Some ''UTC'', e_fullscreenRequired = True,
     e_tabSwitchLogging = True, e_pasteDisabled = True, e_expectedCandidates = Some 10,
     e_poolWarmedAt = None, e_isPublished = True, e_publishedAt = Some 0, e_createdAt = 0,
     e_updatedAt = 0, e_createdBy = ''adm'' \<rparr>"

definition demo_exam2 :: exam where
  "demo_exam2 = demo_exam\<lparr> e_id := ''e2'', e_scheduledEndAt := None \<rparr>"

definition demo_attempt :: attempt where
  "demo_attempt = new_attempt ''a1'' ''e1'' ''u1'' [(''app.js'', ''1'')] 1000"

definition demo_user :: "id \<Rightarrow> role \<Rightarrow> approval_status \<Rightarrow> user" where
  "demo_user i r st = \<lparr> u_id = i, u_email = i @ ''@x.org'', u_password = [], u_name = None, u_role = r,
     u_approvalStatus = st, u_approvedBy = None, u_approvedAt = None, u_createdAt = 0, u_updatedAt = 0 \<rparr>"

definition demo_invitation :: invitation where
  "demo_invitation = \<lparr> i_id = ''i1'', i_examId = ''e2'', i_email = ''U1@x.org'', i_token = ''tok'',
     i_usedAt = None, i_expiresAt = Some 99999999, i_createdAt = 0 \<rparr>"

definition demo_world :: ref_world where
  "demo_world = empty_ref\<lparr> rw_users := [demo_user ''adm'' ADMIN APPROVED, demo_user ''pen'' ADMIN PENDING,
       demo_user ''u1'' CANDIDATE APPROVED],
     rw_challenges := [demo_challenge], rw_exams := [demo_exam, demo_exam2],
     rw_invitations := [demo_invitation], rw_attempts := [demo_attempt] \<rparr>"

definition demo_candidate :: jwt_payload where
  "demo_candidate = \<lparr> jp_userId = ''u1'', jp_email = ''u1@x.org'', jp_role = CANDIDATE \<rparr>"

definition demo_admin :: jwt_payload where
  "demo_admin = \<lparr> jp_userId = ''adm'', jp_email = ''adm@x.org'', jp_role = ADMIN \<rparr>"

lemmas demo_rows = demo_challenge_def demo_exam_def demo_exam2_def demo_attempt_def demo_user_def demo_invitation_def
  demo_candidate_def demo_admin_def

abbreviation demo :: world where "demo \<equiv> ref_view demo_world"

lemma demo_view [simp]:
  "w_attempts demo ''a1'' = Some demo_attempt"
  "w_exams demo ''e1'' = Some demo_exam" "w_exams demo ''e2'' = Some demo_exam2"
  "w_challenges demo ''c1'' = Some demo_challenge"
  "w_users demo ''u1'' = Some (demo_user ''u1'' CANDIDATE APPROVED)"
  "w_users demo ''adm'' = Some (demo_user ''adm'' ADMIN APPROVED)"
  "w_users demo ''pen'' = Some (demo_user ''pen'' ADMIN PENDING)"
  "w_invitations demo ''i1'' = Some demo_invitation"
  "w_ks demo = Map.empty"
  by (simp_all add: ref_view_def demo_world_def keyed_def demo_rows empty_ref_def)

lemma demo_ks [simp]: "rw_ks demo_world = []"
  by (simp add: demo_world_def empty_ref_def)

lemma demo_attempts: "w_attempts demo = [''a1'' \<mapsto> demo_attempt]"
  by (simp add: ref_view_def demo_world_def keyed_def demo_rows empty_ref_def)

lemma demo_select:
  "t_select (sv_attempts ref_services) P demo_world = filter P [demo_attempt]"
  "t_select (sv_exams ref_services) Q demo_world = filter Q [demo_exam, demo_exam2]"
  "t_select (sv_invitations ref_services) R demo_world = filter R [demo_invitation]"
  "t_select (sv_challenges ref_services) C demo_world = filter C [demo_challenge]"
  "t_select (sv_users ref_services) U demo_world = filter U [demo_user ''adm'' ADMIN APPROVED,
     demo_user ''pen'' ADMIN PENDING, demo_user ''u1'' CANDIDATE APPROVED]"
  by (simp_all add: ref_services_def ref_table_def demo_world_def demo_exam_def demo_exam2_def demo_user_def)

lemma demo_row_fields [simp]:
  "a_status demo_attempt = IN_PROGRESS" "a_candidateId demo_attempt = ''u1''" "a_examId demo_attempt = ''e1''"
  "a_id demo_attempt = ''a1''" "e_challengeId demo_exam = ''c1''" "e_challengeId demo_exam2 = ''c1''"
  "jp_userId demo_candidate = ''u1''" "jp_role demo_candidate = CANDIDATE"
  "jp_userId demo_admin = ''adm''" "jp_role demo_admin = ADMIN"
  by (simp_all add: demo_rows)

lemma demo_keys_free [simp]: "ks_live now Map.empty k = None" "ks_get now Map.empty k = None"
  "\<not> ks_exists now Map.empty k" "ks_members now Map.empty k = {}"
  by (simp_all add: ks_live_def ks_get_def ks_exists_def ks_members_def)

end
