(* ===== verification/Autosave_Buffer.thy ===== *)
theory Autosave_Buffer
  imports Demo_World
begin

text \<open>
  \<^verbatim>\<open>apps/api/src/lib/autosave-buffer.ts\<close>: candidates' files are buffered in Redis
  and flushed to the database, periodically for the attempts in the dirty set and at once on
  submission. The locale \<^verbatim>\<open>autosave_store\<close> is the contract the submission paths
  rely on; it is proved here of the code's operations over any services that keep their own
  contract.
\<close>

section \<open>Operations\<close>

definition autosave_key :: "id \<Rightarrow> string" where
  [key_simps]: "autosave_key aid = ''autosave:'' @ aid"

definition autosave_dirty :: string where
  [key_simps]: "autosave_dirty = ''autosave:dirty''"

definition autosave_ttl :: int where "autosave_ttl = 12 * 60 * 60"

definition save_to_buffer :: "'w services \<Rightarrow> time \<Rightarrow> id \<Rightarrow> files \<Rightarrow> 'w \<Rightarrow> 'w" where
  "save_to_buffer S now aid fs w =
    sv_sadd S now autosave_dirty aid
      (sv_set S now (autosave_key aid) (AutosaveDoc fs now) (Some autosave_ttl) w)"

text \<open>A document without \<^verbatim>\<open>files\<close> yields undefined, unparsable text null.\<close>
definition get_from_buffer :: "'w services \<Rightarrow> time \<Rightarrow> id \<Rightarrow> 'w \<Rightarrow> files option" where
  "get_from_buffer S now aid w =
    (case sv_get S now (autosave_key aid) w of Some (AutosaveDoc fs _) \<Rightarrow> Some fs | _ \<Rightarrow> None)"

text \<open>Without parsable files the update throws and the \<^verbatim>\<open>catch\<close> answers false.\<close>
definition flush_to_database :: "'w services \<Rightarrow> time \<Rightarrow> id \<Rightarrow> 'w \<Rightarrow> bool \<times> 'w" where
  "flush_to_database S now aid w =
    (case sv_get S now (autosave_key aid) w of
       Some (AutosaveDoc fs _) \<Rightarrow>
         (let w1 = update_attempt S aid (a_files_update (\<lambda>_. Some fs)) w;
              w2 = sv_srem S now autosave_dirty aid w1
          in (True, w2))
     | _ \<Rightarrow> (False, w))"

fun flush_each :: "'w services \<Rightarrow> time \<Rightarrow> id list \<Rightarrow> nat \<Rightarrow> 'w \<Rightarrow> nat \<times> 'w" where
  "flush_each S now [] n w = (n, w)"
| "flush_each S now (aid # aids) n w =
    (case flush_to_database S now aid w of (ok, w') \<Rightarrow>
       flush_each S now aids (if ok then n + 1 else n) w')"

definition flush_all_dirty :: "'w services \<Rightarrow> time \<Rightarrow> 'w \<Rightarrow> nat \<times> 'w" where
  "flush_all_dirty S now w =
    (let dirty = sv_smembers S now autosave_dirty w
     in if dirty = [] then (0, w) else flush_each S now dirty 0 w)"

definition clear_buffer :: "'w services \<Rightarrow> time \<Rightarrow> id \<Rightarrow> 'w \<Rightarrow> 'w" where
  "clear_buffer S now aid w = sv_srem S now autosave_dirty aid (sv_del S (autosave_key aid) w)"

text \<open>The background job: \<^verbatim>\<open>flushInterval\<close> is set or null; a tick flushes.\<close>
definition flush_interval_ms :: int where "flush_interval_ms = 30 * 1000"

definition start_background_flush :: "bool \<Rightarrow> bool" where
  "start_background_flush running = (if running then running else True)"

definition stop_background_flush :: "bool \<Rightarrow> bool" where
  "stop_background_flush running = (if running then False else running)"

definition background_tick :: "'w services \<Rightarrow> time \<Rightarrow> bool \<Rightarrow> 'w \<Rightarrow> 'w" where
  "background_tick S now running w = (if running then snd (flush_all_dirty S now w) else w)"

definition get_buffer_stats :: "'w services \<Rightarrow> time \<Rightarrow> 'w \<Rightarrow> nat \<times> nat" where
  "get_buffer_stats S now w =
    (let keys = concat (sv_scan S now ''autosave:'' w)
     in (length (filter (\<lambda>k. k \<noteq> autosave_dirty) keys),
         length (sv_smembers S now autosave_dirty w)))"

definition graceful_shutdown :: "'w services \<Rightarrow> time \<Rightarrow> bool \<Rightarrow> 'w \<Rightarrow> bool \<times> 'w" where
  "graceful_shutdown S now running w =
    (stop_background_flush running, snd (flush_all_dirty S now w))"

section \<open>The contract of the store\<close>

text \<open>\<^verbatim>\<open>ok\<close> singles out the ids the program uses (no attempt is called
  \<^verbatim>\<open>dirty\<close>); \<^verbatim>\<open>row\<close> is the attempt's row in the database.\<close>
locale autosave_store =
  fixes save :: "id \<Rightarrow> files \<Rightarrow> 'w \<Rightarrow> 'w"
    and look :: "id \<Rightarrow> 'w \<Rightarrow> files option"
    and flush :: "id \<Rightarrow> 'w \<Rightarrow> bool \<times> 'w"
    and clear :: "id \<Rightarrow> 'w \<Rightarrow> 'w"
    and row :: "id \<Rightarrow> 'w \<Rightarrow> attempt option"
    and ok :: "id \<Rightarrow> bool"
  assumes look_save: "ok i \<Longrightarrow> ok j \<Longrightarrow> look i (save j fs w) = (if i = j then Some fs else look i w)"
    and row_save: "row i (save j fs w) = row i w"
    and flush_fst: "fst (flush i w) \<longleftrightarrow> look i w \<noteq> None"
    and look_flush: "ok i \<Longrightarrow> look i (snd (flush j w)) = look i w"
    and row_flush: "row i (snd (flush j w)) =
      (if i = j \<and> look j w \<noteq> None then map_option (a_files_update (\<lambda>_. look j w)) (row i w) else row i w)"
    and look_clear: "ok i \<Longrightarrow> look i (clear j w) = (if i = j then None else look i w)"
    and row_clear: "row i (clear j w) = row i w"
begin

lemma save_flush_row:
  "ok i \<Longrightarrow> row i w = Some a \<Longrightarrow> row i (snd (flush i (save i fs w))) = Some (a\<lparr>a_files := Some fs\<rparr>)"
  by (simp add: row_flush look_save row_save)

text \<open>After any sequence of saves the buffer holds the last one.\<close>
lemma look_saves:
  "ok i \<Longrightarrow> fss \<noteq> [] \<Longrightarrow> look i (fold (save i) fss w) = Some (last fss)"
  by (induction fss arbitrary: w) (auto simp: look_save)

lemma row_saves: "row i (fold (save i) fss w) = row i w"
  by (induction fss arbitrary: w) (auto simp: row_save)

text \<open>No saved edit is lost: saving, flushing and clearing leaves the last save in the row and
  nothing in the buffer.\<close>
lemma flush_clear_keeps:
  assumes "ok i" "row i w = Some a" "fss \<noteq> []"
  shows "row i (clear i (snd (flush i (fold (save i) fss w)))) = Some (a\<lparr>a_files := Some (last fss)\<rparr>)"
    and "look i (clear i (snd (flush i (fold (save i) fss w)))) = None"
  using assms by (simp_all add: row_clear row_flush look_saves row_saves look_clear)

lemma flush_idem: "ok i \<Longrightarrow> row j (snd (flush i (snd (flush i w)))) = row j (snd (flush i w))"
  by (cases "row i w") (auto simp: row_flush look_flush)

end

section \<open>The code keeps it\<close>

lemma autosave_key_eq [simp]: "autosave_key a = autosave_key b \<longleftrightarrow> a = b"
  "autosave_key a = autosave_dirty \<longleftrightarrow> a = ''dirty''" "autosave_dirty = autosave_key a \<longleftrightarrow> a = ''dirty''"
  by (auto simp: key_simps)

text \<open>What the buffer of an attempt holds, read off the world.\<close>
definition buffered :: "time \<Rightarrow> world \<Rightarrow> id \<Rightarrow> files option" where
  "buffered now W aid =
    (case ks_get now (w_ks W) (autosave_key aid) of Some (AutosaveDoc fs _) \<Rightarrow> Some fs | _ \<Rightarrow> None)"

abbreviation dirty_ids :: "time \<Rightarrow> world \<Rightarrow> id set" where
  "dirty_ids now W \<equiv> ks_members now (w_ks W) autosave_dirty"

lemma buffered_attempts [simp]: "buffered now (w_attempts_update f W) aid = buffered now W aid"
  "buffered now (w_out_update g W) aid = buffered now W aid"
  "buffered now (w_pub_update h W) aid = buffered now W aid"
  by (simp_all add: buffered_def)

lemma buffered_frame:
  "ks_get now (f (w_ks W)) (autosave_key aid) = ks_get now (w_ks W) (autosave_key aid) \<Longrightarrow>
   buffered now (w_ks_update f W) aid = buffered now W aid"
  by (simp add: buffered_def)

lemma buffered_srem [simp]:
  "aid \<noteq> ''dirty'' \<Longrightarrow> buffered now (w_ks_update (ks_srem t autosave_dirty j) W) aid = buffered now W aid"
  by (rule buffered_frame) simp

text \<open>The files a submission grades: those of the request, else the buffered ones, else the row's.\<close>
definition final_files :: "time \<Rightarrow> world \<Rightarrow> files option \<Rightarrow> attempt \<Rightarrow> files" where
  "final_files now W req a = or_default (or_else req (or_else (buffered now W (a_id a)) (a_files a))) []"

definition flushed :: "time \<Rightarrow> id \<Rightarrow> world \<Rightarrow> world" where
  "flushed now aid W = (case buffered now W aid of None \<Rightarrow> W
     | Some fs \<Rightarrow> w_ks_update (ks_srem now autosave_dirty aid)
         (w_attempts_update (row_upd aid (a_files_update (\<lambda>_. Some fs))) W))"

definition flushed_all :: "time \<Rightarrow> id set \<Rightarrow> world \<Rightarrow> id \<Rightarrow> attempt option" where
  "flushed_all now D W aid = (if aid \<in> D \<and> buffered now W aid \<noteq> None
     then map_option (a_files_update (\<lambda>_. buffered now W aid)) (w_attempts W aid) else w_attempts W aid)"

lemma flushed_simps [simp]:
  "aid \<noteq> ''dirty'' \<Longrightarrow> buffered now (flushed now j W) aid = buffered now W aid"
  "dirty_ids now (flushed now j W) = dirty_ids now W - (if buffered now W j = None then {} else {j})"
  "w_exams (flushed now j W) = w_exams W" "w_challenges (flushed now j W) = w_challenges W"
  "w_out (flushed now j W) = w_out W" "w_pub (flushed now j W) = w_pub W"
  "w_users (flushed now j W) = w_users W" "w_events (flushed now j W) = w_events W"
  by (auto simp: flushed_def split: option.splits)

lemma flushed_row:
  "w_attempts (flushed now j W) aid = (if aid = j \<and> buffered now W j \<noteq> None
     then map_option (a_files_update (\<lambda>_. buffered now W j)) (w_attempts W aid) else w_attempts W aid)"
  by (auto simp: flushed_def split: option.splits)

lemma flushed_other_key:
  "k \<noteq> autosave_dirty \<Longrightarrow> ks_live t (w_ks (flushed now j W)) k = ks_live t (w_ks W) k"
  by (simp add: flushed_def split: option.splits)

context services begin

lemma V_save_to_buffer [simp]:
  "V (save_to_buffer S now aid fs w) =
     w_ks_update (\<lambda>ks. ks_sadd now autosave_dirty aid
       (ks_set now (autosave_key aid) (AutosaveDoc fs now) (Some autosave_ttl) ks)) (V w)"
  by (simp add: save_to_buffer_def comp_def)

lemma get_from_buffer_eq [simp]: "get_from_buffer S now aid w = buffered now (V w) aid"
  by (simp add: get_from_buffer_def buffered_def)

lemma flush_fst [simp]: "fst (flush_to_database S now aid w) = (buffered now (V w) aid \<noteq> None)"
  by (simp add: flush_to_database_def buffered_def Let_def split: option.splits payload.splits)

lemma V_flush [simp]: "V (snd (flush_to_database S now aid w)) = flushed now aid (V w)"
  by (simp add: flush_to_database_def flushed_def buffered_def Let_def split: option.splits payload.splits)

lemma V_clear_buffer [simp]:
  "V (clear_buffer S now aid w) =
     w_ks_update (\<lambda>ks. ks_srem now autosave_dirty aid (ks_del (autosave_key aid) ks)) (V w)"
  by (simp add: clear_buffer_def comp_def)

lemma buffered_save:
  "aid \<noteq> ''dirty'' \<Longrightarrow> j \<noteq> ''dirty'' \<Longrightarrow>
   buffered now (V (save_to_buffer S now j fs w)) aid = (if aid = j then Some fs else buffered now (V w) aid)"
  by (simp add: buffered_def autosave_ttl_def)

lemma flush_each_all:
  assumes "distinct aids" "''dirty'' \<notin> set aids"
  shows "w_attempts (V (snd (flush_each S now aids n w))) = flushed_all now (set aids) (V w) \<and>
    fst (flush_each S now aids n w) = n + length (filter (\<lambda>a. buffered now (V w) a \<noteq> None) aids) \<and>
    dirty_ids now (V (snd (flush_each S now aids n w))) =
      dirty_ids now (V w) - {a \<in> set aids. buffered now (V w) a \<noteq> None}"
  using assms
proof (induction aids arbitrary: n w)
  case Nil
  show ?case by (simp add: flushed_all_def fun_eq_iff)
next
  case (Cons a aids)
  obtain b w' where f: "flush_to_database S now a w = (b, w')" by force
  have b: "b = (buffered now (V w) a \<noteq> None)" and w': "V w' = flushed now a (V w)"
    using flush_fst[of now a w] V_flush[of now a w] f by simp_all
  have ne: "x \<noteq> ''dirty''" if "x \<in> set aids" for x using Cons.prems(2) that by auto
  have keep: "buffered now (V w') x = buffered now (V w) x" if "x \<in> set aids" for x
    using ne[OF that] by (simp add: w')
  have fl: "filter (\<lambda>x. buffered now (V w') x \<noteq> None) aids = filter (\<lambda>x. buffered now (V w) x \<noteq> None) aids"
    "{x \<in> set aids. buffered now (V w') x \<noteq> None} = {x \<in> set aids. buffered now (V w) x \<noteq> None}"
    using keep by (auto intro: filter_cong)
  have row: "flushed_all now (set aids) (V w') = flushed_all now (set (a # aids)) (V w)"
  proof
    fix x
    show "flushed_all now (set aids) (V w') x = flushed_all now (set (a # aids)) (V w) x"
      using Cons.prems(1) keep[of x] by (auto simp: flushed_all_def w' flushed_row)
  qed
  have dirty: "dirty_ids now (V w') - {x \<in> set aids. buffered now (V w) x \<noteq> None} =
      dirty_ids now (V w) - {x \<in> set (a # aids). buffered now (V w) x \<noteq> None}"
    by (auto simp: w')
  have IH: "w_attempts (V (snd (flush_each S now aids m w'))) = flushed_all now (set aids) (V w')"
    "fst (flush_each S now aids m w') = m + length (filter (\<lambda>a. buffered now (V w') a \<noteq> None) aids)"
    "dirty_ids now (V (snd (flush_each S now aids m w'))) =
      dirty_ids now (V w') - {a \<in> set aids. buffered now (V w') a \<noteq> None}" for m
    using Cons.IH[of m w'] Cons.prems by auto
  have step: "flush_each S now (a # aids) n w = flush_each S now aids (if b then n + 1 else n) w'"
    by (simp add: f)
  show ?case unfolding step IH fl row dirty by (simp add: b)
qed

lemmas flush_each_spec = flush_each_all[THEN conjunct1] flush_each_all[THEN conjunct2, THEN conjunct1]
  flush_each_all[THEN conjunct2, THEN conjunct2]

text \<open>One periodic flush: every dirty attempt with a live buffer has its buffered files in the
  database, no other row changes, the count is the number of flushed attempts, and exactly the
  flushed attempts leave the dirty set.\<close>
lemma flush_all_dirty_spec:
  assumes "''dirty'' \<notin> dirty_ids now (V w)"
  shows "w_attempts (V (snd (flush_all_dirty S now w))) = flushed_all now (dirty_ids now (V w)) (V w)"
    and "fst (flush_all_dirty S now w) = card {a \<in> dirty_ids now (V w). buffered now (V w) a \<noteq> None}"
    and "dirty_ids now (V (snd (flush_all_dirty S now w))) =
           {a \<in> dirty_ids now (V w). buffered now (V w) a = None}"
proof -
  let ?d = "sv_smembers S now autosave_dirty w"
  have d: "distinct ?d" "set ?d = dirty_ids now (V w)" by (simp_all add: smembers_set)
  have n: "''dirty'' \<notin> set ?d" using assms d by simp
  note spec = flush_each_spec[OF d(1) n]
  have c: "length (filter P ?d) = card {a \<in> dirty_ids now (V w). P a}" for P
    using distinct_card[OF distinct_filter[OF d(1)], of P] d(2) by (simp add: Collect_conj_eq Int_commute)
  show "w_attempts (V (snd (flush_all_dirty S now w))) = flushed_all now (dirty_ids now (V w)) (V w)"
    using spec(1) d(2) by (auto simp: flush_all_dirty_def Let_def flushed_all_def fun_eq_iff)
  show "fst (flush_all_dirty S now w) = card {a \<in> dirty_ids now (V w). buffered now (V w) a \<noteq> None}"
  proof (cases "?d = []")
    case True
    then show ?thesis using c[of "\<lambda>a. buffered now (V w) a \<noteq> None"] by (simp add: flush_all_dirty_def)
  next
    case False
    then show ?thesis using c[of "\<lambda>a. buffered now (V w) a \<noteq> None"] spec(2)
      by (simp add: flush_all_dirty_def Let_def)
  qed
  show "dirty_ids now (V (snd (flush_all_dirty S now w))) =
           {a \<in> dirty_ids now (V w). buffered now (V w) a = None}"
    using spec(3) d(2) by (auto simp: flush_all_dirty_def Let_def)
qed

end

sublocale services \<subseteq> buffer: autosave_store
  "save_to_buffer S now" "get_from_buffer S now" "flush_to_database S now" "clear_buffer S now"
  "find_attempt S" "\<lambda>i. i \<noteq> ''dirty''" for now
proof (unfold_locales, goal_cases)
  case (1 i j fs w)
  then show ?case unfolding get_from_buffer_eq by (intro buffered_save)
next
  case (5 i j w)
  show ?case by (auto simp: flushed_row)
next
  case (6 i j w)
  then show ?case by (auto simp: buffered_def)
qed (auto simp: flushed_row)

context services begin

lemma saves_then_flush:
  assumes "aid \<noteq> ''dirty''" "w_attempts (V w) aid = Some a" "fss \<noteq> []"
  shows "w_attempts (V (snd (flush_to_database S now aid
           (fold (save_to_buffer S now aid) fss w)))) aid = Some (a\<lparr>a_files := Some (last fss)\<rparr>)"
  using buffer.flush_clear_keeps(1)[of aid w a fss now] assms by simp

end

section \<open>Properties\<close>

text \<open>C12: The periodic flush is complete and exact: afterwards every dirty attempt with a live buffer has
  its buffered files in the database, every other row is as before, the answer is the number of
  attempts flushed, and exactly those have left the dirty set (no attempt is called dirty).\<close>
theorem flush_all_dirty_complete:
  assumes "services S V" "''dirty'' \<notin> dirty_ids now (V w)" "flush_all_dirty S now w = (k, w')"
  shows "w_attempts (V w') = flushed_all now (dirty_ids now (V w)) (V w)
    \<and> k = card {a \<in> dirty_ids now (V w). buffered now (V w) a \<noteq> None}
    \<and> dirty_ids now (V w') = {a \<in> dirty_ids now (V w). buffered now (V w) a = None}"
  using services.flush_all_dirty_spec[OF assms(1,2)] assms(3) by simp

theorem flush_all_dirty_complete_witness:
  "\<exists>k w'. flush_all_dirty ref_services 9 (save_to_buffer ref_services 5 ''a1'' [(''p'', ''2'')] demo_world) = (k, w')
     \<and> k = 1 \<and> dirty_ids 9 (ref_view w') = {}
     \<and> w_attempts (ref_view w') ''a1'' = Some (demo_attempt\<lparr>a_files := Some [(''p'', ''2'')]\<rparr>)"
proof -
  define w where "w = save_to_buffer ref_services 5 ''a1'' [(''p'', ''2'')] demo_world"
  have V: "ref_view w = w_ks_update (\<lambda>ks. ks_sadd 5 autosave_dirty ''a1''
       (ks_set 5 (autosave_key ''a1'') (AutosaveDoc [(''p'', ''2'')] 5) (Some autosave_ttl) ks)) demo"
    unfolding w_def by (rule ref.V_save_to_buffer)
  have dirty: "dirty_ids 9 (ref_view w) = {''a1''}"
    unfolding V by (simp add: ks_members_def ks_sadd_def ks_live_def ks_set_def)
  have files: "buffered 9 (ref_view w) ''a1'' = Some [(''p'', ''2'')]"
    unfolding V by (simp add: buffered_def ks_get_def ks_sadd_def ks_live_def ks_set_def autosave_ttl_def)
  have rows: "w_attempts (ref_view w) ''a1'' = Some demo_attempt" unfolding V by simp
  obtain k w' where run: "flush_all_dirty ref_services 9 w = (k, w')" by force
  have "''dirty'' \<notin> dirty_ids 9 (ref_view w)" unfolding dirty by simp
  from flush_all_dirty_complete[OF ref.services_axioms this run]
  have eff: "w_attempts (ref_view w') = flushed_all 9 {''a1''} (ref_view w)"
    "k = card {a \<in> {''a1''}. buffered 9 (ref_view w) a \<noteq> None}"
    "dirty_ids 9 (ref_view w') = {a \<in> {''a1''}. buffered 9 (ref_view w) a = None}"
    unfolding dirty by blast+
  have "{a \<in> {''a1''}. buffered 9 (ref_view w) a \<noteq> None} = {''a1''}"
    "{a \<in> {''a1''}. buffered 9 (ref_view w) a = None} = {}" using files by auto
  then have "k = 1" "dirty_ids 9 (ref_view w') = {}" unfolding eff(2,3) by simp_all
  moreover have "w_attempts (ref_view w') ''a1'' = Some (demo_attempt\<lparr>a_files := Some [(''p'', ''2'')]\<rparr>)"
    unfolding eff(1) flushed_all_def using files rows by simp
  ultimately show ?thesis using run unfolding w_def by blast
qed

end
