(* ===== verification/Grading_Queue.thy ===== *)
theory Grading_Queue
  imports Reference_Store
begin

text \<open>
  \<^verbatim>\<open>apps/api/src/lib/grading.ts\<close>: the queue of grading jobs on Redis Streams.
  A submission goes to the high-priority stream, a test run of a candidate to the low one; the
  job's state is a hash under its id, and a hash of counters keeps the statistics. The worker
  that consumes the streams is a Go service, the theory \<^verbatim>\<open>Grader_Worker\<close>. The module flag
  \<^verbatim>\<open>streamsInitialized\<close> is passed and returned.
\<close>

section \<open>Names\<close>

definition stream_high :: string where [key_simps]: "stream_high = ''grading:jobs:high''"
definition stream_low :: string where [key_simps]: "stream_low = ''grading:jobs:low''"
definition stream_dlq :: string where [key_simps]: "stream_dlq = ''grading:jobs:dlq''"
definition retry_zset :: string where [key_simps]: "retry_zset = ''grading:jobs:retry''"
definition stats_key :: string where [key_simps]: "stats_key = ''grading:stats''"
definition paused_key :: string where [key_simps]: "paused_key = ''grading:queue:paused''"
definition stream_group :: string where "stream_group = ''grading-workers''"
definition job_ttl_sec :: int where "job_ttl_sec = 172800"

definition job_key :: "id \<Rightarrow> string" where [key_simps]: "job_key j = ''grading:job:'' @ j"

definition create_job_id :: "id \<Rightarrow> time \<Rightarrow> string \<Rightarrow> id" where
  "create_job_id aid now uuid = ''grading_'' @ aid @ ''_'' @ str_of_int now @ ''_'' @ take 8 uuid"

section \<open>JSON of a string dictionary and the pooling hash\<close>

definition hex_digit :: "nat \<Rightarrow> char" where
  "hex_digit n = (if n < 10 then char_of (48 + n) else char_of (87 + n))"

text \<open>The escapes of \<^verbatim>\<open>JSON.stringify\<close>: 92 is the backslash, 34 the quote.\<close>
definition json_char :: "char \<Rightarrow> string" where
  "json_char c = (let n = of_char c :: nat; b = char_of (92 :: nat) in
     if n = 34 \<or> n = 92 then [b, c]
     else if n = 8 then [b, CHR ''b''] else if n = 9 then [b, CHR ''t'']
     else if n = 10 then [b, CHR ''n''] else if n = 12 then [b, CHR ''f'']
     else if n = 13 then [b, CHR ''r'']
     else if n < 32 then [b] @ ''u00'' @ [hex_digit (n div 16), hex_digit (n mod 16)]
     else [c])"

definition json_string :: "string \<Rightarrow> string" where
  "json_string s = (let q = char_of (34 :: nat) in [q] @ concat (map json_char s) @ [q])"

definition json_dict :: "dict \<Rightarrow> string" where
  "json_dict d = ''{'' @ str_join '','' (map (\<lambda>(k, v). json_string k @ '':'' @ json_string v) d) @ ''}''"

definition runner_candidate :: "runner \<Rightarrow> candidate_cfg option" where
  "runner_candidate r = (case r of RHttp _ c _ \<Rightarrow> Some c | RPlaywright c _ \<Rightarrow> Some c
     | RUiJsdom c _ \<Rightarrow> Some c | _ \<Rightarrow> None)"

text \<open>\<^verbatim>\<open>sha\<close> is the hexadecimal SHA-256 digest of the text fed to the hash.\<close>
definition compute_dependencies_hash :: "(string \<Rightarrow> string) \<Rightarrow> runner option \<Rightarrow> string" where
  "compute_dependencies_hash sha r = (case r of
     None \<Rightarrow> []
   | Some RJest \<Rightarrow> []
   | Some r' \<Rightarrow> (let c = runner_candidate r' in
       take 16 (sha
         (or_default (map_option cc_image c) [] @
          or_default (Option.bind c cc_installCommand) [] @
          json_dict (or_default (Option.bind c cc_generatedFiles) [])))))"

section \<open>Reading fields\<close>

definition parse_int_safe :: "payload option \<Rightarrow> int \<Rightarrow> int" where
  "parse_int_safe p fallback = (case p of Some (Num n) \<Rightarrow> n | _ \<Rightarrow> fallback)"

definition parse_json_safe :: "payload option \<Rightarrow> grading_job option" where
  "parse_json_safe p = (case p of Some (JobDoc j) \<Rightarrow> Some j | _ \<Rightarrow> None)"

definition text_of :: "payload option \<Rightarrow> string option" where
  "text_of p = (case p of Some (Txt s) \<Rightarrow> Some s | _ \<Rightarrow> None)"

section \<open>Operations\<close>

definition ensure_streams_initialized :: "'w services \<Rightarrow> time \<Rightarrow> bool \<times> 'w \<Rightarrow> bool \<times> 'w" where
  "ensure_streams_initialized S now st = (case st of (init, w) \<Rightarrow>
     if init then (init, w)
     else (True, sv_xgroup S now stream_low (sv_xgroup S now stream_high w)))"

definition ensure_stats_initialized :: "'w services \<Rightarrow> time \<Rightarrow> bool \<times> 'w \<Rightarrow> bool \<times> 'w" where
  "ensure_stats_initialized S now st = (case ensure_streams_initialized S now st of (init, w) \<Rightarrow>
     (init, fold (\<lambda>f. sv_hsetnx S now stats_key f (Num 0))
        [''queued'', ''active'', ''completed'', ''failed'', ''retrying''] w))"

definition add_grading_job ::
  "'w services \<Rightarrow> time \<Rightarrow> string \<Rightarrow> grading_job \<Rightarrow> bool \<times> 'w \<Rightarrow> id \<times> (bool \<times> 'w)" where
  "add_grading_job S now uuid job st = (case ensure_stats_initialized S now st of (init, w0) \<Rightarrow>
     let jobId = create_job_id (j_attemptId job) now uuid;
         stream = (if j_isPreview job then stream_low else stream_high);
         flag = Num (if j_isPreview job then 1 else 0);
         (streamId, w1) = sv_xadd S now stream jobId (j_attemptId job) (j_isPreview job) job w0;
         w2 = sv_hset S now (job_key jobId)
               [(''status'', Txt ''queued''), (''progress'', Num 0),
                (''attemptId'', Txt (j_attemptId job)), (''stream'', Txt stream),
                (''streamId'', Txt streamId), (''createdAt'', Num now), (''updatedAt'', Num now),
                (''attempts'', Num 0), (''isPreview'', flag), (''payload'', JobDoc job),
                (''group'', Txt stream_group)] w1;
         w3 = sv_expire S now (job_key jobId) job_ttl_sec w2;
         w4 = sv_hincrby S now stats_key ''queued'' 1 w3
     in (jobId, (init, w4)))"

record job_status =
  js_id :: id
  js_state :: string
  js_data :: "grading_job option"
  js_progress :: int
  js_attemptsMade :: int
  js_timestamp :: int
  js_finishedOn :: int
  js_processedOn :: int
  js_stream :: "string option"
  js_streamId :: "string option"

definition get_job_status :: "'w services \<Rightarrow> time \<Rightarrow> id \<Rightarrow> 'w \<Rightarrow> job_status option" where
  "get_job_status S now jid w = (case sv_hgetall S now (job_key jid) w of
     None \<Rightarrow> None
   | Some d \<Rightarrow> Some \<lparr> js_id = jid, js_state = or_default (str_opt (text_of (d ''status''))) ''unknown'',
       js_data = parse_json_safe (d ''payload''),
       js_progress = parse_int_safe (d ''progress'') 0,
       js_attemptsMade = parse_int_safe (d ''attempts'') 0,
       js_timestamp = parse_int_safe (d ''createdAt'') 0,
       js_finishedOn = parse_int_safe (d ''completedAt'') 0,
       js_processedOn = parse_int_safe (d ''startedAt'') 0,
       js_stream = text_of (d ''stream''), js_streamId = text_of (d ''streamId'') \<rparr>)"

record queue_stats =
  qs_waiting :: int
  qs_active :: int
  qs_completed :: int
  qs_failed :: int
  qs_delayed :: int

definition get_queue_stats :: "'w services \<Rightarrow> time \<Rightarrow> bool \<times> 'w \<Rightarrow> queue_stats \<times> (bool \<times> 'w)" where
  "get_queue_stats S now st = (case ensure_stats_initialized S now st of (init, w) \<Rightarrow>
     (case sv_hgetall S now stats_key w of
        Some h \<Rightarrow> (\<lparr> qs_waiting = parse_int_safe (h ''queued'') 0, qs_active = parse_int_safe (h ''active'') 0,
            qs_completed = parse_int_safe (h ''completed'') 0, qs_failed = parse_int_safe (h ''failed'') 0,
            qs_delayed = parse_int_safe (h ''retrying'') 0 \<rparr>, (init, w))
      | None \<Rightarrow> (\<lparr> qs_waiting = sv_xlen S now stream_high w + sv_xlen S now stream_low w,
            qs_active = 0, qs_completed = 0, qs_failed = 0, qs_delayed = 0 \<rparr>, (init, w))))"

definition clean_queue :: "'w services \<Rightarrow> time \<Rightarrow> int \<Rightarrow> 'w \<Rightarrow> 'w" where
  "clean_queue S now grace w =
    sv_zremrange S now retry_zset 0 (now - grace)
      (sv_xtrim S now stream_dlq (now - grace)
        (sv_xtrim S now stream_low (now - grace)
          (sv_xtrim S now stream_high (now - grace) w)))"

definition pause_queue :: "'w services \<Rightarrow> time \<Rightarrow> 'w \<Rightarrow> 'w" where
  "pause_queue S now w = sv_set S now paused_key (Num 1) None w"

definition resume_queue :: "'w services \<Rightarrow> 'w \<Rightarrow> 'w" where
  "resume_queue S w = sv_del S paused_key w"

section \<open>What queueing a job does\<close>

lemma queue_names [simp]:
  "stream_high \<noteq> stream_low" "stream_low \<noteq> stream_high" "stream_high \<noteq> stats_key" "stats_key \<noteq> stream_high"
  "stream_low \<noteq> stats_key" "stats_key \<noteq> stream_low" "job_key j \<noteq> stream_high" "stream_high \<noteq> job_key j"
  "job_key j \<noteq> stream_low" "stream_low \<noteq> job_key j" "job_key j \<noteq> stats_key" "stats_key \<noteq> job_key j"
  by (simp_all add: key_simps)

definition queue_jobs :: "time \<Rightarrow> world \<Rightarrow> string \<Rightarrow> grading_job list" where
  "queue_jobs now W s = map se_job (ks_stream now (w_ks W) s)"

definition queued_count :: "time \<Rightarrow> world \<Rightarrow> int" where
  "queued_count now W = (case ks_hash now (w_ks W) stats_key of Some h \<Rightarrow> parse_int_safe (h ''queued'') 0 | None \<Rightarrow> 0)"

text \<open>A key that is free or holds a stream, respectively a hash.\<close>
definition stream_key :: "time \<Rightarrow> keyspace \<Rightarrow> string \<Rightarrow> bool" where
  "stream_key now ks k = (case ks_live now ks k of None \<Rightarrow> True | Some (RStream _, _) \<Rightarrow> True | _ \<Rightarrow> False)"

text \<open>The keys of the queue; everything else is untouched by it.\<close>
definition is_queue_key :: "string \<Rightarrow> bool" where
  "is_queue_key k = (k = stream_high \<or> k = stream_low \<or> k = stats_key \<or> prefix ''grading:job:'' k)"

lemma not_queue_key:
  assumes "\<not> is_queue_key k"
  shows "k \<noteq> stream_high" "k \<noteq> stream_low" "k \<noteq> stats_key" "k \<noteq> job_key j"
  using assms by (auto simp: is_queue_key_def key_simps)

lemma ks_stream_put [simp]:
  "stream_key now ks k \<Longrightarrow> ks_stream now (ks_put_stream now k f ks) k = f (ks_stream now ks k)"
  by (auto simp: stream_key_def ks_stream_def ks_put_stream_def ks_live_def
      split: option.splits prod.splits rvalue.splits if_splits)

lemma stream_key_put [simp]: "stream_key now ks k \<Longrightarrow> stream_key now (ks_put_stream now k' f ks) k"
  by (cases "k = k'")
    (auto simp: stream_key_def ks_put_stream_def ks_live_def split: option.splits prod.splits rvalue.splits if_splits)

lemma stream_key_put_hash [simp]: "k \<noteq> k' \<Longrightarrow> stream_key now (ks_put_hash now k' f ks) k = stream_key now ks k"
  by (simp add: stream_key_def)

text \<open>The effect of queueing a job on the keyspace, given the id the stream assigns.\<close>
definition init_ks :: "bool \<Rightarrow> time \<Rightarrow> keyspace \<Rightarrow> keyspace" where
  "init_ks init now ks = fold (\<lambda>f. ks_put_hash now stats_key (hash_setnx f (Num 0)))
     [''queued'', ''active'', ''completed'', ''failed'', ''retrying'']
     (if init then ks else ks_put_stream now stream_low (\<lambda>l. l) (ks_put_stream now stream_high (\<lambda>l. l) ks))"

definition job_fields :: "time \<Rightarrow> string \<Rightarrow> grading_job \<Rightarrow> (string \<times> payload) list" where
  "job_fields now sid job =
     [(''status'', Txt ''queued''), (''progress'', Num 0),
      (''attemptId'', Txt (j_attemptId job)), (''stream'', Txt (if j_isPreview job then stream_low else stream_high)),
      (''streamId'', Txt sid), (''createdAt'', Num now), (''updatedAt'', Num now),
      (''attempts'', Num 0), (''isPreview'', Num (if j_isPreview job then 1 else 0)), (''payload'', JobDoc job),
      (''group'', Txt stream_group)]"

definition add_job_ks :: "bool \<Rightarrow> time \<Rightarrow> string \<Rightarrow> string \<Rightarrow> grading_job \<Rightarrow> keyspace \<Rightarrow> keyspace" where
  "add_job_ks init now uuid sid job ks =
    (let jid = create_job_id (j_attemptId job) now uuid in
     ks_put_hash now stats_key (hash_incr ''queued'' 1)
      (ks_expire now (job_key jid) job_ttl_sec
        (ks_put_hash now (job_key jid) (\<lambda>h. h ++ map_of (job_fields now sid job))
          (ks_put_stream now (if j_isPreview job then stream_low else stream_high)
            (\<lambda>l. l @ [\<lparr>se_id = sid, se_ms = now, se_jobId = jid, se_attemptId = j_attemptId job,
               se_isPreview = j_isPreview job, se_createdAt = now, se_job = job\<rparr>])
            (init_ks init now ks)))))"

lemma init_ks_frame [simp]: "\<not> is_queue_key k \<Longrightarrow> ks_live t (init_ks init now ks) k = ks_live t ks k"
  by (simp add: init_ks_def not_queue_key)

lemma add_job_frame [simp]:
  "\<not> is_queue_key k \<Longrightarrow> ks_live t (add_job_ks init now uuid sid job ks) k = ks_live t ks k"
  by (simp add: add_job_ks_def Let_def not_queue_key)

lemma add_job_reads [simp]:
  assumes "\<not> is_queue_key k"
  shows "ks_get t (add_job_ks init now uuid sid job ks) k = ks_get t ks k"
    "ks_exists t (add_job_ks init now uuid sid job ks) k = ks_exists t ks k"
    "ks_members t (add_job_ks init now uuid sid job ks) k = ks_members t ks k"
  by (rule ks_reads_cong, simp add: assms)+

lemma init_ks_stream:
  assumes "stream_key now ks s" "s = stream_high \<or> s = stream_low"
  shows "ks_stream now (init_ks init now ks) s = ks_stream now ks s" "stream_key now (init_ks init now ks) s"
proof -
  have n: "s \<noteq> stats_key" using assms(2) by auto
  show "ks_stream now (init_ks init now ks) s = ks_stream now ks s"
    using assms by (auto simp: init_ks_def n)
  show "stream_key now (init_ks init now ks) s"
    using assms by (auto simp: init_ks_def n)
qed

lemma add_job_stream:
  assumes "stream_key now ks s" "s = stream_high \<or> s = stream_low"
  shows "map se_job (ks_stream now (add_job_ks init now uuid sid job ks) s) =
    map se_job (ks_stream now ks s) @
    (if s = (if j_isPreview job then stream_low else stream_high) then [job] else [])"
proof -
  have n: "s \<noteq> stats_key" "\<And>j. s \<noteq> job_key j" using assms(2) by auto
  show ?thesis
    using init_ks_stream[OF assms] assms(2) by (auto simp: add_job_ks_def Let_def n)
qed

context services begin

lemma V_fold_hsetnx: "V (fold (\<lambda>f. sv_hsetnx S now k f p) fs w) =
    w_ks_update (fold (\<lambda>f. ks_put_hash now k (hash_setnx f p)) fs) (V w)"
  by (induction fs arbitrary: w) (simp_all add: comp_def)

lemma V_ensure_stats:
  "V (snd (ensure_stats_initialized S now (init, w))) = w_ks_update (init_ks init now) (V w)"
  "fst (ensure_stats_initialized S now (init, w)) = True"
  by (simp_all add: ensure_stats_initialized_def ensure_streams_initialized_def V_fold_hsetnx
      init_ks_def comp_def del: fold_simps)

lemma add_job_V:
  assumes "add_grading_job S now uuid job (init, w) = (jid, st)"
  shows "jid = create_job_id (j_attemptId job) now uuid"
    and "fst st" and "\<exists>sid. V (snd st) = w_ks_update (add_job_ks init now uuid sid job) (V w)"
proof -
  obtain i0 w0 where e: "ensure_stats_initialized S now (init, w) = (i0, w0)" by force
  have w0: "V w0 = w_ks_update (init_ks init now) (V w)" "i0"
    using V_ensure_stats[of now init w] e by simp_all
  let ?s = "if j_isPreview job then stream_low else stream_high"
  let ?j = "create_job_id (j_attemptId job) now uuid"
  obtain sid w1 where x: "sv_xadd S now ?s ?j (j_attemptId job) (j_isPreview job) job w0 = (sid, w1)" by force
  have w1: "V w1 = w_ks_update (ks_put_stream now ?s (\<lambda>l. l @ [\<lparr>se_id = sid, se_ms = now, se_jobId = ?j,
      se_attemptId = j_attemptId job, se_isPreview = j_isPreview job, se_createdAt = now, se_job = job\<rparr>])) (V w0)"
    using xadd[of now ?s ?j "j_attemptId job" "j_isPreview job" job w0] x by simp
  show "jid = create_job_id (j_attemptId job) now uuid" "fst st"
    using assms e x w0(2) by (auto simp: add_grading_job_def Let_def)
  have "V (snd st) = w_ks_update (add_job_ks init now uuid sid job) (V w)"
    using assms e x w0 w1
    by (auto simp: add_grading_job_def Let_def add_job_ks_def job_fields_def comp_def)
  then show "\<exists>sid. V (snd st) = w_ks_update (add_job_ks init now uuid sid job) (V w)" by blast
qed

lemma add_job_queue:
  assumes "add_grading_job S now uuid job (init, w) = (jid, st)"
    "stream_key now (w_ks (V w)) s" "s = stream_high \<or> s = stream_low"
  shows "queue_jobs now (V (snd st)) s = queue_jobs now (V w) s @
    (if s = (if j_isPreview job then stream_low else stream_high) then [job] else [])"
  using add_job_V(3)[OF assms(1)] add_job_stream[OF assms(2,3)] by (auto simp: queue_jobs_def)

text \<open>The status of a job just queued.\<close>
lemma job_status_after_add:
  assumes "add_grading_job S now uuid job (init, w) = (jid, st)" "ks_live now (w_ks (V w)) (job_key jid) = None"
  shows "get_job_status S now jid (snd st) = Some \<lparr> js_id = jid, js_state = ''queued'', js_data = Some job,
    js_progress = 0, js_attemptsMade = 0, js_timestamp = now, js_finishedOn = 0, js_processedOn = 0,
    js_stream = Some (if j_isPreview job then stream_low else stream_high),
    js_streamId = js_streamId (the (get_job_status S now jid (snd st))) \<rparr>"
proof -
  obtain sid where v: "V (snd st) = w_ks_update (add_job_ks init now uuid sid job) (V w)"
    using add_job_V(3)[OF assms(1)] by blast
  have j: "jid = create_job_id (j_attemptId job) now uuid" by (rule add_job_V(1)[OF assms(1)])
  have "ks_live now (init_ks init now (w_ks (V w))) (job_key jid) = None"
    using assms(2) by (simp add: init_ks_def)
  then have "ks_hash now (w_ks (V (snd st))) (job_key jid) = Some (map_of (job_fields now sid job))"
    by (simp add: v j[symmetric] ks_hash_def add_job_ks_def Let_def ks_live_expire ks_put_hash_def[of now "job_key jid"] job_ttl_sec_def)
  then show ?thesis
    by (simp add: get_job_status_def job_fields_def text_of_def parse_json_safe_def parse_int_safe_def)
qed

end

end
