(* ===== verification/Timer_Service.thy ===== *)
theory Timer_Service
  imports Locks Autosave_Buffer Grading_Queue
begin

text \<open>
  \<^verbatim>\<open>apps/api/src/socket/timerService.ts\<close>: the server-side exam timer. Its end is kept
  in Redis, a local interval per attempt broadcasts the remaining seconds, and a
  \<^verbatim>\<open>timer_handled:\<close> key marks attempts whose timer is done. The state of an API
  instance (\<^verbatim>\<open>localIntervals\<close>, \<^verbatim>\<open>streamsInitialized\<close>) is the record
  \<^verbatim>\<open>instance_state\<close>; an entry of \<^verbatim>\<open>n_timers\<close> is a live interval with the end
  time and the scheduled end its closure captured. One handler runs at one time \<^verbatim>\<open>now\<close>.
\<close>

record instance_state =
  n_streams :: bool
  n_timers :: "(id \<times> (time \<times> time option)) list"

type_synonym 'w node = "instance_state \<times> 'w"

definition timer_key :: "id \<Rightarrow> string" where [key_simps]: "timer_key aid = ''timer:'' @ aid"
definition timer_lock_key :: "id \<Rightarrow> string" where [key_simps]: "timer_lock_key aid = ''timer_lock:'' @ aid"
definition timer_handled_key :: "id \<Rightarrow> string" where
  [key_simps]: "timer_handled_key aid = ''timer_handled:'' @ aid"

definition attempt_room :: "id \<Rightarrow> string" where [key_simps]: "attempt_room aid = ''attempt:'' @ aid"

section \<open>Handled timers\<close>

definition is_timer_handled :: "'w services \<Rightarrow> time \<Rightarrow> id \<Rightarrow> 'w \<Rightarrow> bool" where
  "is_timer_handled S now aid w = sv_exists S now (timer_handled_key aid) w"

definition mark_timer_handled :: "'w services \<Rightarrow> time \<Rightarrow> id \<Rightarrow> 'w \<Rightarrow> 'w" where
  "mark_timer_handled S now aid w = sv_set S now (timer_handled_key aid) (Num 1) (Some 3600) w"

definition clear_handled_timer :: "'w services \<Rightarrow> id \<Rightarrow> 'w \<Rightarrow> 'w" where
  "clear_handled_timer S aid w = sv_del S (timer_handled_key aid) w"

section \<open>Stopping\<close>

definition stop_timer :: "'w services \<Rightarrow> id \<Rightarrow> 'w node \<Rightarrow> 'w node" where
  "stop_timer S aid st = (case st of (n, w) \<Rightarrow>
     (n\<lparr> n_timers := AList.delete aid (n_timers n) \<rparr>, sv_del S (timer_key aid) w))"

definition stop_timer_permanently :: "'w services \<Rightarrow> time \<Rightarrow> id \<Rightarrow> 'w node \<Rightarrow> 'w node" where
  "stop_timer_permanently S now aid st = (case st of (n, w) \<Rightarrow>
     (case stop_timer S aid (n, mark_timer_handled S now aid w) of (n', w') \<Rightarrow>
        (n', sv_del S (timer_lock_key aid) w')))"

definition stop_all_local_timers :: "instance_state \<Rightarrow> instance_state" where
  "stop_all_local_timers n = n\<lparr> n_timers := [] \<rparr>"

definition local_timers_count :: "instance_state \<Rightarrow> nat" where
  "local_timers_count n = length (n_timers n)"

definition active_timers_count :: "'w services \<Rightarrow> time \<Rightarrow> 'w \<Rightarrow> nat" where
  "active_timers_count S now w = length (concat (sv_scan S now ''timer:'' w))"

section \<open>Reading the timer\<close>

definition remaining_seconds :: "time \<Rightarrow> time \<Rightarrow> int" where
  "remaining_seconds now endTime = max 0 (floor_div (endTime - now) 1000)"

definition get_timer_meta :: "'w services \<Rightarrow> time \<Rightarrow> id \<Rightarrow> 'w \<Rightarrow> timer_meta option" where
  "get_timer_meta S now aid w =
    (case sv_get S now (timer_key aid) w of Some (TimerDoc m) \<Rightarrow> Some m | _ \<Rightarrow> None)"

definition get_remaining_time :: "'w services \<Rightarrow> time \<Rightarrow> id \<Rightarrow> 'w \<Rightarrow> int option" where
  "get_remaining_time S now aid w =
    map_option (\<lambda>m. remaining_seconds now (tm_endTime m)) (get_timer_meta S now aid w)"

definition pad2 :: "string \<Rightarrow> string" where
  "pad2 s = replicate (2 - length s) CHR ''0'' @ s"

definition format_time :: "int \<Rightarrow> string" where
  "format_time seconds = (let mins = floor_div seconds 60; secs = seconds mod 60
     in pad2 (str_of_int mins) @ '':'' @ pad2 (str_of_int secs))"

section \<open>Expiry\<close>

text \<open>The job of a final submission, as the three submission paths build it.\<close>
definition full_job :: "id \<Rightarrow> files \<Rightarrow> challenge \<Rightarrow> grading_job" where
  "full_job aid fs c = \<lparr> j_attemptId = aid, j_challengeId = Some (c_id c), j_files = fs,
     j_publicTests = c_publicTests c, j_hiddenTests = c_hiddenTests c,
     j_dependencies = c_dependencies c, j_nodeVersion = c_nodeVersion c,
     j_timeLimit = 120, j_memoryLimit = 512, j_runner = c_runner c, j_isPreview = False \<rparr>"

text \<open>\<^verbatim>\<open>with: { exam: { with: { challenge: true } } }\<close>.\<close>
definition attempt_challenge :: "'w services \<Rightarrow> attempt \<Rightarrow> 'w \<Rightarrow> challenge option" where
  "attempt_challenge S a w = (case find_exam S (a_examId a) w of
     None \<Rightarrow> None | Some e \<Rightarrow> find_challenge S (e_challengeId e) w)"

text \<open>The body of the \<^verbatim>\<open>try\<close> in \<^verbatim>\<open>handleTimerExpired\<close>; a missing exam or
  challenge raises a TypeError after the status update, which the \<^verbatim>\<open>catch\<close> swallows.\<close>
definition auto_submit_expired :: "'w services \<Rightarrow> time \<Rightarrow> string \<Rightarrow> id \<Rightarrow> 'w node \<Rightarrow> 'w node" where
  "auto_submit_expired S now uuid aid st = (case st of (n, w) \<Rightarrow>
    (let w1 = sv_emit S (attempt_room aid)
           (TimerExpired ''Time is up! Your exam has been automatically submitted.'' None) w
     in case find_attempt S aid w1 of
       None \<Rightarrow> stop_timer S aid (n, w1)
     | Some a \<Rightarrow>
        if a_status a \<noteq> IN_PROGRESS then stop_timer S aid (n, w1)
        else
          (let w2 = snd (flush_to_database S now aid w1);
               fs = or_default (or_else (get_from_buffer S now aid w2) (a_files a)) [];
               w3 = update_attempt S aid (\<lambda>r. r\<lparr> a_status := SUBMITTED, a_submittedAt := Some now \<rparr>) w2
           in case attempt_challenge S a w1 of
             None \<Rightarrow> (n, w3)
           | Some c \<Rightarrow>
              (case add_grading_job S now uuid (full_job aid fs c) (n_streams n, w3) of
                (_, init, w4) \<Rightarrow>
                  (n\<lparr> n_streams := init \<rparr>, update_attempt S aid (a_status_update (\<lambda>_. GRADING)) w4)))))"

definition handle_timer_expired :: "'w services \<Rightarrow> time \<Rightarrow> string \<Rightarrow> id \<Rightarrow> 'w node \<Rightarrow> 'w node" where
  "handle_timer_expired S now uuid aid st = (case st of (n, w) \<Rightarrow>
    (let w1 = mark_timer_handled S now aid w in
     if truthy_reply (sv_get S now (timer_handled_key aid) w1) then stop_timer S aid (n, w1)
     else case sv_setnx S now (timer_lock_key aid) (Num 1) 60 w1 of (acquired, w2) \<Rightarrow>
       if \<not> acquired then stop_timer S aid (n, w2)
       else
         (let w3 = sv_set S now (timer_handled_key aid) (Num 1) (Some 3600) w2
          in case auto_submit_expired S now uuid aid (n, w3) of (n4, w4) \<Rightarrow>
            stop_timer S aid (n4, sv_del S (timer_lock_key aid) w4))))"

section \<open>Starting, ticking, resuming\<close>

text \<open>The earlier of the individual end and the scheduled end; epoch 0 counts as not set.\<close>
definition timer_end :: "time \<Rightarrow> int \<Rightarrow> time option \<Rightarrow> time" where
  "timer_end startedAt timeLimit scheduledEndAt =
    (let individual = startedAt + timeLimit * 60 * 1000
     in case scheduledEndAt of
       None \<Rightarrow> individual
     | Some t \<Rightarrow> if t = 0 then individual else min individual t)"

definition start_timer ::
  "'w services \<Rightarrow> time \<Rightarrow> string \<Rightarrow> id \<Rightarrow> time \<Rightarrow> int \<Rightarrow> time option \<Rightarrow> 'w node \<Rightarrow> 'w node" where
  "start_timer S now uuid aid startedAt timeLimit scheduledEndAt st = (case st of (n, w) \<Rightarrow>
     if is_timer_handled S now aid w then (n, w)
     else if map_of (n_timers n) aid \<noteq> None then (n, w)
     else
       (let endTime = timer_end startedAt timeLimit scheduledEndAt in
        if endTime \<le> now then handle_timer_expired S now uuid aid (n, w)
        else
          (let meta = \<lparr> tm_attemptId = aid, tm_startedAt = startedAt, tm_endTime = endTime,
                        tm_timeLimit = timeLimit, tm_scheduledEndAt = scheduledEndAt \<rparr>;
               w1 = sv_set S now (timer_key aid) (TimerDoc meta) None w;
               ttl = ceil_div (endTime - now) 1000 + 300;
               w2 = sv_expire S now (timer_key aid) ttl w1
           in (n\<lparr> n_timers := AList.update aid (endTime, scheduledEndAt) (n_timers n) \<rparr>, w2))))"

text \<open>One firing of the interval of an attempt.\<close>
definition timer_tick :: "'w services \<Rightarrow> time \<Rightarrow> string \<Rightarrow> id \<Rightarrow> 'w node \<Rightarrow> 'w node" where
  "timer_tick S now uuid aid st = (case st of (n, w) \<Rightarrow>
     (case map_of (n_timers n) aid of
        None \<Rightarrow> (n, w)
      | Some (endTime, sched) \<Rightarrow>
          if is_timer_handled S now aid w then (n, w)
          else
            (let rest = remaining_seconds now endTime;
                 w1 = sv_emit S (attempt_room aid) (TimerTick rest endTime (format_time rest) sched) w
             in if rest = 0
                then handle_timer_expired S now uuid aid
                       (stop_timer S aid (n, mark_timer_handled S now aid w1))
                else (n, w1))))"

definition resume_timer :: "'w services \<Rightarrow> time \<Rightarrow> string \<Rightarrow> id \<Rightarrow> 'w node \<Rightarrow> bool \<times> 'w node" where
  "resume_timer S now uuid aid st = (case st of (n, w) \<Rightarrow>
     if is_timer_handled S now aid w then (False, (n, w))
     else if map_of (n_timers n) aid \<noteq> None then (True, (n, w))
     else (case get_timer_meta S now aid w of
        None \<Rightarrow> (False, (n, w))
      | Some m \<Rightarrow>
          if remaining_seconds now (tm_endTime m) = 0
          then (False, handle_timer_expired S now uuid aid (n, mark_timer_handled S now aid w))
          else (True, (n\<lparr> n_timers := AList.update aid (tm_endTime m, None) (n_timers n) \<rparr>, w))))"

section \<open>Lemmas\<close>

lemma timer_key_eq [simp]: "timer_key a = timer_key b \<longleftrightarrow> a = b"
  "timer_handled_key a = timer_handled_key b \<longleftrightarrow> a = b"
  "timer_lock_key a = timer_lock_key b \<longleftrightarrow> a = b"
  by (simp_all add: key_simps)

lemma timer_keys_apart [simp]:
  "timer_key a \<noteq> timer_handled_key b" "timer_handled_key b \<noteq> timer_key a"
  "timer_key a \<noteq> timer_lock_key b" "timer_lock_key b \<noteq> timer_key a"
  "timer_handled_key a \<noteq> timer_lock_key b" "timer_lock_key b \<noteq> timer_handled_key a"
  "timer_key a \<noteq> autosave_key b" "autosave_key b \<noteq> timer_key a"
  "timer_handled_key a \<noteq> autosave_key b" "autosave_key b \<noteq> timer_handled_key a"
  "timer_lock_key a \<noteq> autosave_key b" "autosave_key b \<noteq> timer_lock_key a"
  "timer_key a \<noteq> autosave_dirty" "autosave_dirty \<noteq> timer_key a"
  "timer_handled_key a \<noteq> autosave_dirty" "autosave_dirty \<noteq> timer_handled_key a"
  "timer_lock_key a \<noteq> autosave_dirty" "autosave_dirty \<noteq> timer_lock_key a"
  by (simp_all add: key_simps)

lemma not_queue_keys [simp]:
  "\<not> is_queue_key (timer_key a)" "\<not> is_queue_key (timer_handled_key a)" "\<not> is_queue_key (timer_lock_key a)"
  "\<not> is_queue_key (autosave_key a)" "\<not> is_queue_key autosave_dirty"
  by (simp_all add: is_queue_key_def key_simps)

lemma timer_not_stream [simp]:
  "stream_high \<noteq> timer_key a" "stream_low \<noteq> timer_key a" "stream_high \<noteq> timer_handled_key a"
  "stream_low \<noteq> timer_handled_key a" "stream_high \<noteq> timer_lock_key a" "stream_low \<noteq> timer_lock_key a"
  "stream_high \<noteq> autosave_key a" "stream_low \<noteq> autosave_key a"
  "stream_high \<noteq> autosave_dirty" "stream_low \<noteq> autosave_dirty"
  by (simp_all add: key_simps)

lemma full_job_simps [simp]: "j_attemptId (full_job aid fs c) = aid" "j_files (full_job aid fs c) = fs"
  "j_hiddenTests (full_job aid fs c) = c_hiddenTests c" "\<not> j_isPreview (full_job aid fs c)"
  "j_publicTests (full_job aid fs c) = c_publicTests c"
  by (simp_all add: full_job_def)

text \<open>The challenge an attempt is graded against, read off the world.\<close>
definition challenge_of :: "world \<Rightarrow> attempt \<Rightarrow> challenge option" where
  "challenge_of W a = (case w_exams W (a_examId a) of None \<Rightarrow> None | Some e \<Rightarrow> w_challenges W (e_challengeId e))"

lemma challenge_of_frame [simp]:
  "challenge_of (w_ks_update f W) a = challenge_of W a" "challenge_of (w_attempts_update g W) a = challenge_of W a"
  "challenge_of (w_out_update h W) a = challenge_of W a" "challenge_of W (a_status_update i a) = challenge_of W a"
  by (simp_all add: challenge_of_def split: option.split)

lemma challenge_of_same: "same_tables W W' \<Longrightarrow> challenge_of W' a = challenge_of W a"
  by (simp add: challenge_of_def same_tables_def split: option.split)

context services begin

lemma is_timer_handled_eq [simp]:
  "is_timer_handled S now aid w = ks_exists now (w_ks (V w)) (timer_handled_key aid)"
  by (simp add: is_timer_handled_def)

lemma V_mark [simp]: "V (mark_timer_handled S now aid w) =
    w_ks_update (ks_set now (timer_handled_key aid) (Num 1) (Some 3600)) (V w)"
  by (simp add: mark_timer_handled_def)

lemma V_stop [simp]: "V (snd (stop_timer S aid (n, w))) = w_ks_update (ks_del (timer_key aid)) (V w)"
  "fst (stop_timer S aid (n, w)) = n\<lparr> n_timers := AList.delete aid (n_timers n) \<rparr>"
  by (simp_all add: stop_timer_def)

lemma V_stop_permanently [simp]:
  "V (snd (stop_timer_permanently S now aid (n, w))) =
     w_ks_update (\<lambda>ks. ks_del (timer_lock_key aid) (ks_del (timer_key aid)
       (ks_set now (timer_handled_key aid) (Num 1) (Some 3600) ks))) (V w)"
  "fst (stop_timer_permanently S now aid (n, w)) = n\<lparr> n_timers := AList.delete aid (n_timers n) \<rparr>"
  by (simp_all add: stop_timer_permanently_def stop_timer_def comp_def)

lemma attempt_challenge_eq [simp]: "attempt_challenge S a w = challenge_of (V w) a"
  by (simp add: attempt_challenge_def challenge_of_def split: option.splits)

text \<open>The handler marks the timer handled and then finds it handled: it stops there.\<close>
lemma handle_timer_expired_eq:
  "handle_timer_expired S now uuid aid (n, w) = stop_timer S aid (n, mark_timer_handled S now aid w)"
  by (simp add: handle_timer_expired_def Let_def)

lemma V_handle [simp]:
  "V (snd (handle_timer_expired S now uuid aid (n, w))) =
     w_ks_update (\<lambda>ks. ks_del (timer_key aid) (ks_set now (timer_handled_key aid) (Num 1) (Some 3600) ks)) (V w)"
  "fst (handle_timer_expired S now uuid aid (n, w)) = n\<lparr> n_timers := AList.delete aid (n_timers n) \<rparr>"
  by (simp_all add: handle_timer_expired_eq comp_def)

end

section \<open>The timer as a transition system\<close>

text \<open>Any interleaving of the operations of the timer service, at any times.\<close>
inductive timer_step :: "'w services \<Rightarrow> 'w node \<Rightarrow> 'w node \<Rightarrow> bool" for S where
  ts_start: "timer_step S st (start_timer S now uuid aid started limit sched st)"
| ts_tick: "timer_step S st (timer_tick S now uuid aid st)"
| ts_resume: "timer_step S st (snd (resume_timer S now uuid aid st))"
| ts_stop: "timer_step S st (stop_timer S aid st)"
| ts_stop_permanently: "timer_step S st (stop_timer_permanently S now aid st)"
| ts_shutdown: "timer_step S (n, w) (stop_all_local_timers n, w)"

inductive_cases timer_stepE: "timer_step S st st'"

text \<open>What the timer may change: keys of its own family and emitted events.\<close>
definition timer_frame :: "world \<Rightarrow> world \<Rightarrow> bool" where
  "timer_frame W W' = (same_tables W W' \<and> w_pub W' = w_pub W \<and>
     (\<forall>t. ks_stream t (w_ks W') stream_high = ks_stream t (w_ks W) stream_high))"

lemma timer_frame_refl [simp]: "timer_frame W W"
  by (simp add: timer_frame_def)

lemma timer_frame_trans: "timer_frame W W' \<Longrightarrow> timer_frame W' W'' \<Longrightarrow> timer_frame W W''"
  unfolding timer_frame_def using same_tables_trans by metis

context services begin

lemma timer_frame_handle: "timer_frame W (V w) \<Longrightarrow> timer_frame W (V (snd (handle_timer_expired S now uuid aid (n, w))))"
  by (erule timer_frame_trans) (simp add: timer_frame_def)

lemma timer_frame_step:
  assumes "timer_step S st st'" shows "timer_frame (V (snd st)) (V (snd st'))"
  using assms
proof (cases rule: timer_step.cases)
  case (ts_start now uuid aid started limit sched)
  obtain n w where st: "st = (n, w)" by force
  show ?thesis unfolding ts_start st start_timer_def
    by (simp add: Let_def timer_frame_def)
next
  case (ts_tick now uuid aid)
  obtain n w where st: "st = (n, w)" by force
  show ?thesis unfolding ts_tick st timer_tick_def stop_timer_def
    by (auto simp: Let_def split: option.splits) (simp_all add: timer_frame_def)
next
  case (ts_resume now uuid aid)
  obtain n w where st: "st = (n, w)" by force
  show ?thesis unfolding ts_resume st resume_timer_def
    by (auto simp: Let_def split: option.splits) (simp_all add: timer_frame_def)
next
  case (ts_stop aid)
  obtain n w where st: "st = (n, w)" by force
  show ?thesis unfolding ts_stop st by (simp add: timer_frame_def)
next
  case (ts_stop_permanently now aid)
  obtain n w where st: "st = (n, w)" by force
  show ?thesis unfolding ts_stop_permanently st by (simp add: timer_frame_def)
next
  case (ts_shutdown n w)
  then show ?thesis by simp
qed

lemma timer_frame_run:
  assumes "(timer_step S)\<^sup>*\<^sup>* st st'" shows "timer_frame (V (snd st)) (V (snd st'))"
  using assms by (induction rule: rtranclp_induct) (auto intro: timer_frame_trans timer_frame_step)

lemma start_timer_fresh:
  assumes "\<not> ks_exists now (w_ks (V w)) (timer_handled_key aid)" "map_of (n_timers n) aid = None"
    "now < timer_end started limit sched"
    and t: "now \<le> t" "t \<le> timer_end started limit sched"
  shows "get_remaining_time S t aid (snd (start_timer S now uuid aid started limit sched (n, w))) =
      Some ((timer_end started limit sched - t) div 1000)"
proof -
  let ?e = "timer_end started limit sched"
  have c: "?e - now \<le> ceil_div (?e - now) 1000 * 1000" by (rule ceil_div_bounds) simp
  then have live: "t < now + 1000 * (ceil_div (?e - now) 1000 + 300)" using t by (simp add: algebra_simps)
  have r: "remaining_seconds t ?e = (?e - t) div 1000"
    using t by (simp add: remaining_seconds_def floor_div_def pos_imp_zdiv_nonneg_iff)
  let ?m = "\<lparr> tm_attemptId = aid, tm_startedAt = started, tm_endTime = ?e,
                        tm_timeLimit = limit, tm_scheduledEndAt = sched \<rparr>"
  have "ks_get t (w_ks (V (snd (start_timer S now uuid aid started limit sched (n, w))))) (timer_key aid) = Some (TimerDoc ?m)"
    using assms live by (simp add: start_timer_def Let_def ks_get_def ks_live_expire)
  then show ?thesis by (simp add: get_remaining_time_def get_timer_meta_def r)
qed

end

section \<open>Properties\<close>

text \<open>C7: No run of the timer service submits an attempt: whatever sequence of starts, ticks, resumes
  and stops happens, at whatever times, every row of the attempts table and the stream of final
  grading jobs stay as they were. The expiry handler marks its attempt as handled before it asks
  whether somebody else handled it, so its submission code never runs.\<close>
theorem timer_never_submits:
  assumes "services S V" "(timer_step S)\<^sup>*\<^sup>* st st'"
  shows "w_attempts (V (snd st')) = w_attempts (V (snd st))
    \<and> queue_jobs now (V (snd st')) stream_high = queue_jobs now (V (snd st)) stream_high"
proof -
  have "timer_frame (V (snd st)) (V (snd st'))" by (rule services.timer_frame_run[OF assms])
  then show ?thesis
    by (simp add: timer_frame_def same_tables_def queue_jobs_def)
qed

text \<open>A timer that starts afresh can be read back from any instance at any later moment until its
  end: the remaining time is the whole seconds left until the earlier of the individual limit and
  the scheduled end of the exam.\<close>
theorem start_timer_remaining:
  assumes "services S V" "\<not> ks_exists now (w_ks (V w)) (timer_handled_key aid)"
    "map_of (n_timers n) aid = None" "now < timer_end started limit sched"
    "now \<le> t" "t \<le> timer_end started limit sched"
  shows "get_remaining_time S t aid (snd (start_timer S now uuid aid started limit sched (n, w))) =
      Some ((timer_end started limit sched - t) div 1000)"
  using assms by (rule services.start_timer_fresh)

text \<open>The time shown to the candidate can be read back: \<^verbatim>\<open>MM:SS\<close> has exactly two
  fields, the whole minutes and the seconds below sixty.\<close>
theorem format_time_fields:
  assumes "0 \<le> s"
  shows "map digits_val (str_split CHR '':'' (format_time s)) = [nat (s div 60), nat (s mod 60)]"
proof -
  have pad: "digits_val (pad2 (nat_digits n)) = n" for n
  proof -
    have "digits_val (replicate k CHR ''0'' @ t) = digits_val t" for k t
      by (induction k) (simp_all add: digits_val_def)
    then show ?thesis by (simp add: pad2_def)
  qed
  have colon: "CHR '':'' \<notin> set (pad2 (nat_digits n))" for n
    using nat_digits_are_digits[of "CHR '':''" n] by (auto simp: pad2_def is_digit_def)
  have "format_time s = str_join '':'' [pad2 (nat_digits (nat (s div 60))), pad2 (nat_digits (nat (s mod 60)))]"
  proof -
    have "\<not> s div 60 < 0" "\<not> s mod 60 < 0" using assms by simp_all
    then show ?thesis by (simp only: format_time_def Let_def floor_div_def str_of_int_def if_False str_join.simps)
  qed
  moreover have "str_split CHR '':'' \<dots> = [pad2 (nat_digits (nat (s div 60))), pad2 (nat_digits (nat (s mod 60)))]"
    by (rule str_split_join) (simp_all add: colon)
  ultimately show ?thesis by (simp add: pad)
qed

definition demo_instance :: instance_state where
  "demo_instance = \<lparr> n_streams = False, n_timers = [] \<rparr>"

theorem timer_never_submits_witness:
  "w_attempts (ref_view (snd (timer_tick ref_services 3700000 ''y'' ''a1''
     (start_timer ref_services 5000 ''x'' ''a1'' 1000 60 None (demo_instance, demo_world))))) = w_attempts demo"
proof -
  let ?s1 = "start_timer ref_services 5000 ''x'' ''a1'' 1000 60 None (demo_instance, demo_world)"
  have "timer_step ref_services (demo_instance, demo_world) ?s1" by (rule ts_start)
  moreover have "timer_step ref_services ?s1 (timer_tick ref_services 3700000 ''y'' ''a1'' ?s1)" by (rule ts_tick)
  ultimately have run: "(timer_step ref_services)\<^sup>*\<^sup>* (demo_instance, demo_world) (timer_tick ref_services 3700000 ''y'' ''a1'' ?s1)"
    by (meson r_into_rtranclp rtranclp_trans)
  show ?thesis using timer_never_submits[OF ref.services_axioms run] by simp
qed

theorem start_timer_remaining_witness:
  "get_remaining_time ref_services 6000 ''a1''
     (snd (start_timer ref_services 5000 ''x'' ''a1'' 1000 60 (Some 7200000) (demo_instance, demo_world))) = Some 3595"
  using start_timer_remaining[OF ref.services_axioms, of 5000 demo_world "''a1''" demo_instance 1000 60 "Some 7200000" 6000 "''x''"]
  by (simp add: demo_instance_def timer_end_def Let_def)

theorem format_time_fields_witness: "map digits_val (str_split CHR '':'' (format_time 3725)) = [62, 5]"
  using format_time_fields[of 3725] by simp

end
