(* ===== verification/Capped_Lists.thy ===== *)
theory Capped_Lists
  imports Reference_Store
begin

text \<open>
  Logs the program keeps to a bound: the screenshots of an attempt and of an exam
  (\<^verbatim>\<open>LPUSH\<close> and \<^verbatim>\<open>LTRIM 0 n-1\<close>), the keystroke batches and speed
  snapshots (\<^verbatim>\<open>RPUSH\<close> and \<^verbatim>\<open>LTRIM -n -1\<close>). The locale is their contract:
  the entries, newest first, are cut to the bound.
\<close>

locale capped_list =
  fixes push :: "'a \<Rightarrow> 'w \<Rightarrow> 'w"
    and entries :: "'w \<Rightarrow> 'a list"
    and cap :: nat
    and ok :: "'w \<Rightarrow> bool"
  assumes entries_push: "ok w \<Longrightarrow> entries (push x w) = take cap (x # entries w)"
    and ok_push: "ok w \<Longrightarrow> ok (push x w)"
begin

lemma ok_pushes: "ok w \<Longrightarrow> ok (fold push xs w)"
  by (induction xs arbitrary: w) (auto intro: ok_push)

text \<open>After pushing \<^verbatim>\<open>xs\<close> in turn the log holds the newest entries, newest first.\<close>
lemma entries_pushes:
  "ok w \<Longrightarrow> xs \<noteq> [] \<Longrightarrow> entries (fold push xs w) = take cap (rev xs @ entries w)"
proof (induction xs rule: rev_induct)
  case (snoc x xs)
  show ?case
  proof (cases "xs = []")
    case True
    then show ?thesis using snoc by (simp add: entries_push)
  next
    case False
    then have "entries (fold push (xs @ [x]) w) = take cap (x # take cap (rev xs @ entries w))"
      using snoc by (simp add: entries_push ok_pushes)
    also have "\<dots> = take cap (x # (rev xs @ entries w))" by (cases cap) (simp_all add: min_def)
    finally show ?thesis by simp
  qed
qed simp

lemma entries_bound: "ok w \<Longrightarrow> xs \<noteq> [] \<Longrightarrow> length (entries (fold push xs w)) \<le> cap"
  by (simp add: entries_pushes)

end

section \<open>Redis ranges\<close>

lemma redis_range_all [simp]: "redis_range 0 (- 1) l = l"
  by (simp add: redis_range_def Let_def)

lemma redis_range_take [simp]: "0 < n \<Longrightarrow> redis_range 0 (int n - 1) l = take n l"
  by (auto simp: redis_range_def Let_def min_def nat_diff_distrib)

lemma redis_range_last: "0 < n \<Longrightarrow> redis_range (- int n) (- 1) l = last_n n l"
  by (auto simp: redis_range_def Let_def last_n_def max_def nat_diff_distrib)

section \<open>Capped lists in Redis\<close>

text \<open>A key that is free or holds a list.\<close>
definition list_key :: "time \<Rightarrow> keyspace \<Rightarrow> string \<Rightarrow> bool" where
  "list_key now ks k = (case ks_live now ks k of None \<Rightarrow> True | Some (RList _, _) \<Rightarrow> True | _ \<Rightarrow> False)"

lemma list_key_put [simp]: "list_key now ks k \<Longrightarrow> list_key now (ks_put_list now k' f ks) k"
  by (cases "k = k'")
    (auto simp: list_key_def ks_put_list_def ks_live_def split: option.splits prod.splits rvalue.splits if_splits)

lemma ks_list_put [simp]: "list_key now ks k \<Longrightarrow> ks_list now (ks_put_list now k f ks) k = f (ks_list now ks k)"
  by (auto simp: list_key_def ks_list_def ks_put_list_def ks_live_def
      split: option.splits prod.splits rvalue.splits if_splits)

lemma list_key_expire [simp]: "0 < s \<Longrightarrow> list_key now (ks_expire now k s ks) k = list_key now ks k"
  by (auto simp: list_key_def ks_live_expire split: option.splits)

lemma ks_list_expire [simp]: "0 < s \<Longrightarrow> ks_list now (ks_expire now k s ks) k = ks_list now ks k"
  by (auto simp: ks_list_def ks_live_expire split: option.splits)

definition push_front :: "'w services \<Rightarrow> time \<Rightarrow> string \<Rightarrow> nat \<Rightarrow> int \<Rightarrow> payload \<Rightarrow> 'w \<Rightarrow> 'w" where
  "push_front S now k n ttl p w =
    sv_expire S now k ttl (sv_ltrim S now k 0 (int n - 1) (sv_lpush S now k p w))"

definition push_back :: "'w services \<Rightarrow> time \<Rightarrow> string \<Rightarrow> nat \<Rightarrow> int \<Rightarrow> payload \<Rightarrow> 'w \<Rightarrow> 'w" where
  "push_back S now k n ttl p w =
    sv_expire S now k ttl (sv_ltrim S now k (- int n) (- 1) (sv_rpush S now k p w))"

context services begin

definition list_at :: "time \<Rightarrow> string \<Rightarrow> 'w \<Rightarrow> payload list" where
  "list_at now k w = ks_list now (w_ks (V w)) k"

lemma V_push_front [simp]: "V (push_front S now k n ttl p w) =
    w_ks_update (\<lambda>ks. ks_expire now k ttl (ks_put_list now k (redis_range 0 (int n - 1)) (ks_put_list now k (Cons p) ks))) (V w)"
  by (simp add: push_front_def comp_def)

lemma V_push_back [simp]: "V (push_back S now k n ttl p w) =
    w_ks_update (\<lambda>ks. ks_expire now k ttl (ks_put_list now k (redis_range (- int n) (- 1)) (ks_put_list now k (\<lambda>l. l @ [p]) ks))) (V w)"
  by (simp add: push_back_def comp_def)

lemma rev_last_n: "rev (last_n n l) = take n (rev l)"
  by (cases "n \<le> length l") (simp_all add: last_n_def rev_drop)

lemma front_capped: "0 < n \<Longrightarrow> 0 < ttl \<Longrightarrow>
  capped_list (push_front S now k n ttl) (list_at now k) n (\<lambda>w. list_key now (w_ks (V w)) k)"
  by unfold_locales (simp_all add: list_at_def)

lemma back_capped: "0 < n \<Longrightarrow> 0 < ttl \<Longrightarrow>
  capped_list (push_back S now k n ttl) (\<lambda>w. rev (list_at now k w)) n (\<lambda>w. list_key now (w_ks (V w)) k)"
  by unfold_locales (simp_all add: list_at_def redis_range_last rev_last_n)

end

end
