(* ===== verification/Cloud_Storage.thy ===== *)
theory Cloud_Storage
  imports Documents
begin

text \<open>
  \<^verbatim>\<open>apps/api/src/lib/s3.ts\<close>: where a screenshot goes and the address it gets. The
  environment variables and the state of the lazily loaded Azure client are the record
  \<^verbatim>\<open>storage_config\<close>; the upload itself and the signing of an Azure address are calls
  of the vendors' libraries (\<^verbatim>\<open>sas\<close> is the signed address of a blob).
\<close>

record storage_config =
  cf_bucket :: string
  cf_region :: string
  cf_s3_access_key :: string
  cf_aws_access_key :: string
  cf_azure_connection :: string
  cf_azure_container :: string
  cf_azure_ready :: bool      \<comment> \<open>containerClient is set\<close>

definition is_s3_configured :: "storage_config \<Rightarrow> bool" where
  "is_s3_configured cf = (cf_bucket cf \<noteq> [] \<and> (cf_s3_access_key cf \<noteq> [] \<or> cf_aws_access_key cf \<noteq> []))"

definition is_azure_configured :: "storage_config \<Rightarrow> bool" where
  "is_azure_configured cf = (cf_azure_connection cf \<noteq> [])"

text \<open>The client of S3 is created exactly when S3 is configured.\<close>
definition active_storage :: "storage_config \<Rightarrow> storage" where
  "active_storage cf = (if is_s3_configured cf then S3
     else if is_azure_configured cf \<and> cf_azure_ready cf then AZURE else LOCAL)"

definition screenshot_object_key :: "id \<Rightarrow> id \<Rightarrow> string \<Rightarrow> string" where
  "screenshot_object_key eid aid filename = ''screenshots/'' @ eid @ ''/'' @ aid @ ''/'' @ filename"

definition store_screenshot ::
  "storage_config \<Rightarrow> (string \<Rightarrow> string) \<Rightarrow> id \<Rightarrow> id \<Rightarrow> string \<Rightarrow> string \<times> storage" where
  "store_screenshot cf sas eid aid filename =
    (let key = screenshot_object_key eid aid filename in
     case active_storage cf of
       S3 \<Rightarrow> (''https://'' @ cf_bucket cf @ ''.s3.'' @ cf_region cf @ ''.amazonaws.com/'' @ key, S3)
     | AZURE \<Rightarrow> (sas key, AZURE)
     | LOCAL \<Rightarrow> (''/uploads/screenshots/'' @ filename, LOCAL))"

definition storage_info :: "storage_config \<Rightarrow> bool \<times> storage \<times> string \<times> string" where
  "storage_info cf = (let st = active_storage cf in
     (st \<noteq> LOCAL, st,
      (if st = S3 then cf_bucket cf else if st = AZURE then cf_azure_container cf else ''N/A''),
      (if st = S3 then cf_region cf else ''N/A'')))"

lemma store_screenshot_location [simp]: "snd (store_screenshot cf sas eid aid f) = active_storage cf"
  by (simp add: store_screenshot_def Let_def split: storage.splits)

end
