(* ===== verification/Attempts.thy ===== *)
theory Attempts
  imports Timer_Service Capped_Lists Cloud_Storage Demo_World
begin

text \<open>
  \<^verbatim>\<open>apps/api/src/routes/attempts.ts\<close>: the routes of an exam attempt, from its start
  through autosave and test runs to the final submission, and the screenshots of proctoring.
  A handler takes the authenticated user and the parsed body (\<^verbatim>\<open>None\<close> when the zod schema
  rejects it) and answers a result with the new world. The limiters in front of the routes are
  modelled in \<^verbatim>\<open>Rate_Limiter\<close>.
\<close>

section \<open>File paths\<close>

definition path_escapes :: "string \<Rightarrow> bool" where
  "path_escapes p = (str_includes p ''..'' \<or> prefix ''/'' p \<or> str_includes p [char_of (92 :: nat)])"

definition path_hidden :: "string \<Rightarrow> bool" where
  "path_hidden p = list_ex (prefix ''.'') (str_split CHR ''/'' p)"

fun validate_file_paths :: "string list \<Rightarrow> error option" where
  "validate_file_paths [] = None"
| "validate_file_paths (p # ps) =
    (if path_escapes p then Some (ApiError (''Invalid file path: '' @ p) 400 NoMeta)
     else if path_hidden p then Some (ApiError (''Hidden files not allowed: '' @ p) 400 NoMeta)
     else validate_file_paths ps)"

section \<open>Reading attempts\<close>

record attempt_view =
  av_attempt :: attempt
  av_exam :: "exam option"
  av_challenge :: "challenge option"

definition list_attempts ::
  "'w services \<Rightarrow> jwt_payload \<Rightarrow> 'w \<Rightarrow> (attempt \<times> (string \<times> int) option) list" where
  "list_attempts S u w =
    (let rows = sort_key (\<lambda>a. - a_startedAt a)
           (t_select (sv_attempts S) (\<lambda>a. a_candidateId a = jp_userId u) w)
     in map (\<lambda>a. (a, map_option (\<lambda>e. (e_title e, e_timeLimit e)) (find_exam S (a_examId a) w))) rows)"

definition hide_tests :: "challenge \<Rightarrow> challenge" where
  "hide_tests c = c\<lparr> c_hiddenTests := ''[HIDDEN]'' \<rparr>"

definition get_attempt :: "'w services \<Rightarrow> jwt_payload \<Rightarrow> id \<Rightarrow> 'w \<Rightarrow> attempt_view result" where
  "get_attempt S u aid w = (case find_attempt S aid w of
     None \<Rightarrow> api_error ''Attempt not found'' 404
   | Some a \<Rightarrow>
      if jp_role u = CANDIDATE \<and> a_candidateId a \<noteq> jp_userId u then api_error ''Not authorized'' 403
      else Inr \<lparr> av_attempt = a, av_exam = find_exam S (a_examId a) w,
             av_challenge = (if jp_role u = CANDIDATE then map_option hide_tests (attempt_challenge S a w)
                             else attempt_challenge S a w) \<rparr>)"

definition get_starter_files :: "'w services \<Rightarrow> jwt_payload \<Rightarrow> id \<Rightarrow> 'w \<Rightarrow> files result" where
  "get_starter_files S u aid w = (case find_attempt S aid w of
     None \<Rightarrow> api_error ''Attempt not found'' 404
   | Some a \<Rightarrow>
      if a_candidateId a \<noteq> jp_userId u then api_error ''Not authorized'' 403
      else if a_status a \<noteq> IN_PROGRESS then api_error ''Attempt already submitted'' 400
      else Inr (or_default (map_option c_starterFiles (attempt_challenge S a w)) []))"

section \<open>Starting\<close>

datatype start_outcome = Resumed attempt | Created attempt

text \<open>The scheduled window of an exam at a time.\<close>
definition check_window :: "exam \<Rightarrow> time \<Rightarrow> error option" where
  "check_window e now =
    (case e_scheduledStartAt e of
       Some s \<Rightarrow> if now < s then Some (ApiError (''Exam has not started yet. It begins at '' @ iso_string s) 403
                 (ExamNotStarted (s - now) s))
               else (case e_scheduledEndAt e of
                 Some t \<Rightarrow> if t \<le> now then Some (ApiError ''Exam has ended. No new attempts can be started.'' 403 (ExamEnded t)) else None
               | None \<Rightarrow> None)
     | None \<Rightarrow> (case e_scheduledEndAt e of
                 Some t \<Rightarrow> if t \<le> now then Some (ApiError ''Exam has ended. No new attempts can be started.'' 403 (ExamEnded t)) else None
               | None \<Rightarrow> None))"

definition start_attempt ::
  "'w services \<Rightarrow> time \<Rightarrow> id \<Rightarrow> jwt_payload \<Rightarrow> id option \<Rightarrow> 'w \<Rightarrow> start_outcome result \<times> 'w" where
  "start_attempt S now newid u body w = (case body of
     None \<Rightarrow> (Inl ZodError, w)
   | Some eid \<Rightarrow>
      if eid = [] then (Inl ZodError, w)
      else (case find_exam S eid w of
        None \<Rightarrow> (api_error ''Exam not found or not published'' 404, w)
      | Some e \<Rightarrow>
         if \<not> e_isPublished e then (api_error ''Exam not found or not published'' 404, w)
         else (case check_window e now of
           Some err \<Rightarrow> (Inl err, w)
         | None \<Rightarrow>
            (let existing = t_select (sv_attempts S)
                   (\<lambda>a. a_examId a = eid \<and> a_candidateId a = jp_userId u) w
             in if e_maxAttempts e \<le> int (length existing)
                then (api_error ''Maximum attempts reached'' 400, w)
                else (case find (\<lambda>a. a_status a = IN_PROGRESS) existing of
                  Some a \<Rightarrow> (Inr (Resumed a), w)
                | None \<Rightarrow> (case find_challenge S (e_challengeId e) w of
                    None \<Rightarrow> (Inl TypeError, w)
                  | Some c \<Rightarrow>
                     (let a = new_attempt newid eid (jp_userId u) (c_starterFiles c) now
                      in (Inr (Created a), t_insert (sv_attempts S) a w))))))))"

section \<open>Saving\<close>

definition save_files ::
  "'w services \<Rightarrow> time \<Rightarrow> jwt_payload \<Rightarrow> id \<Rightarrow> files option \<Rightarrow> 'w \<Rightarrow> time result \<times> 'w" where
  "save_files S now u aid body w = (case body of
     None \<Rightarrow> (Inl ZodError, w)
   | Some fs \<Rightarrow> (case find_attempt S aid w of
        None \<Rightarrow> (api_error ''Attempt not found'' 404, w)
      | Some a \<Rightarrow>
         if a_candidateId a \<noteq> jp_userId u then (api_error ''Not authorized'' 403, w)
         else if a_status a \<noteq> IN_PROGRESS then (api_error ''Attempt already submitted'' 400, w)
         else (case validate_file_paths (map fst fs) of
           Some err \<Rightarrow> (Inl err, w)
         | None \<Rightarrow> (Inr now, save_to_buffer S now aid fs w))))"

section \<open>Running the public tests\<close>

definition grading_lock_key :: "id \<Rightarrow> string" where
  [key_simps]: "grading_lock_key aid = ''grading:lock:'' @ aid"

definition preview_job :: "id \<Rightarrow> files \<Rightarrow> challenge \<Rightarrow> grading_job" where
  "preview_job aid fs c = \<lparr> j_attemptId = aid, j_challengeId = Some (c_id c), j_files = fs,
     j_publicTests = c_publicTests c, j_hiddenTests = [],
     j_dependencies = c_dependencies c, j_nodeVersion = c_nodeVersion c,
     j_timeLimit = 60, j_memoryLimit = 512, j_runner = c_runner c, j_isPreview = True \<rparr>"

text \<open>The body of the \<^verbatim>\<open>try\<close> once the lock is held; it releases the lock itself on
  its three explicit errors.\<close>
definition run_tests_locked ::
  "'w services \<Rightarrow> time \<Rightarrow> string \<Rightarrow> jwt_payload \<Rightarrow> id \<Rightarrow> 'w node \<Rightarrow> id result \<times> 'w node" where
  "run_tests_locked S now uuid u aid st = (case st of (n, w) \<Rightarrow>
    (case find_attempt S aid w of
       None \<Rightarrow> (api_error ''Attempt not found'' 404, (n, sv_del S (grading_lock_key aid) w))
     | Some a \<Rightarrow>
        if a_candidateId a \<noteq> jp_userId u
        then (api_error ''Not authorized'' 403, (n, sv_del S (grading_lock_key aid) w))
        else if a_status a \<noteq> IN_PROGRESS
        then (api_error ''Attempt already submitted'' 400, (n, sv_del S (grading_lock_key aid) w))
        else
          (let fs = or_default (or_else (get_from_buffer S now aid w) (a_files a)) []
           in case attempt_challenge S a w of
             None \<Rightarrow> (Inl TypeError, (n, w))
           | Some c \<Rightarrow>
              (case add_grading_job S now uuid (preview_job (a_id a) fs c) (n_streams n, w) of
                (jid, init, w') \<Rightarrow> (Inr jid, (n\<lparr> n_streams := init \<rparr>, w'))))))"

definition run_tests ::
  "'w services \<Rightarrow> time \<Rightarrow> string \<Rightarrow> jwt_payload \<Rightarrow> id \<Rightarrow> 'w node \<Rightarrow> id result \<times> 'w node" where
  "run_tests S now uuid u aid st = (case st of (n, w) \<Rightarrow>
    (case sv_setnx S now (grading_lock_key aid) (Num now) 90 w of (acquired, w1) \<Rightarrow>
       if \<not> acquired
       then (api_error ''Tests are already running for this attempt. Please wait...'' 429, (n, w1))
       else (case run_tests_locked S now uuid u aid (n, w1) of
           (Inr jid, st2) \<Rightarrow> (Inr jid, st2)
         | (Inl err, (n2, w2)) \<Rightarrow> (Inl err, (n2, sv_del S (grading_lock_key aid) w2)))))"

section \<open>Submitting\<close>

definition submit_attempt ::
  "'w services \<Rightarrow> time \<Rightarrow> string \<Rightarrow> jwt_payload \<Rightarrow> id \<Rightarrow> files option option \<Rightarrow> 'w node \<Rightarrow> id result \<times> 'w node" where
  "submit_attempt S now uuid u aid body st = (case st of (n, w) \<Rightarrow> (case body of
     None \<Rightarrow> (Inl ZodError, (n, w))
   | Some req \<Rightarrow> (case find_attempt S aid w of
        None \<Rightarrow> (api_error ''Attempt not found'' 404, (n, w))
      | Some a \<Rightarrow>
         if a_candidateId a \<noteq> jp_userId u then (api_error ''Not authorized'' 403, (n, w))
         else if a_status a \<noteq> IN_PROGRESS then (api_error ''Attempt already submitted'' 400, (n, w))
         else
          (case stop_timer_permanently S now aid (n, w) of (n1, w1) \<Rightarrow>
            (let w2 = snd (flush_to_database S now aid w1);
                 fs = or_default (or_else req (or_else (get_from_buffer S now aid w2) (a_files a))) [];
                 w3 = update_attempt S aid (\<lambda>r. r\<lparr> a_status := SUBMITTED,
                        a_submittedAt := Some now, a_files := Some fs \<rparr>) w2
             in case attempt_challenge S a w of
               None \<Rightarrow> (Inl TypeError, (n1, w3))
             | Some c \<Rightarrow>
                (case add_grading_job S now uuid (full_job (a_id a) fs c) (n_streams n1, w3) of
                  (jid, init, w4) \<Rightarrow>
                    (let w5 = update_attempt S aid (a_status_update (\<lambda>_. GRADING)) w4;
                         w6 = clear_buffer S now aid w5
                     in (Inr jid, (n1\<lparr> n_streams := init \<rparr>, w6)))))))))"

section \<open>Screenshots\<close>

text \<open>\<^verbatim>\<open>multer\<close>: an image of at most 2 MB.\<close>
definition accept_screenshot :: "string \<Rightarrow> nat \<Rightarrow> bool" where
  "accept_screenshot mimetype bytes = (prefix ''image/'' mimetype \<and> bytes \<le> 2 * 1024 * 1024)"

text \<open>\<^verbatim>\<open>s.replace(/\.[^.]+$/, '')\<close>: drop the extension.\<close>
definition strip_extension :: "string \<Rightarrow> string" where
  "strip_extension s = (let r = rev s; e = takeWhile (\<lambda>c. c \<noteq> CHR ''.'') r; b = dropWhile (\<lambda>c. c \<noteq> CHR ''.'') r
     in if e \<noteq> [] \<and> b \<noteq> [] then rev (tl b) else s)"

text \<open>\<^verbatim>\<open>s.replace(/_\d+$/, '')\<close>: drop a numeric suffix.\<close>
definition strip_number :: "string \<Rightarrow> string" where
  "strip_number s = (let r = rev s; d = takeWhile is_digit r; b = dropWhile is_digit r
     in if d \<noteq> [] \<and> b \<noteq> [] \<and> hd b = CHR ''_'' then rev (tl b) else s)"

definition shots_key :: "id \<Rightarrow> string" where [key_simps]: "shots_key aid = ''screenshots:'' @ aid"
definition exam_shots_key :: "id \<Rightarrow> string" where [key_simps]: "exam_shots_key eid = ''screenshots:exam:'' @ eid"
definition monitor_room :: "id \<Rightarrow> string" where [key_simps]: "monitor_room eid = ''exam:monitor:'' @ eid"

definition push_attempt_shot :: "'w services \<Rightarrow> time \<Rightarrow> id \<Rightarrow> payload \<Rightarrow> 'w \<Rightarrow> 'w" where
  "push_attempt_shot S now aid p w = push_front S now (shots_key aid) 50 86400 p w"

definition push_exam_shot :: "'w services \<Rightarrow> time \<Rightarrow> id \<Rightarrow> payload \<Rightarrow> 'w \<Rightarrow> 'w" where
  "push_exam_shot S now eid p w = push_front S now (exam_shots_key eid) 200 86400 p w"

definition upload_screenshot ::
  "'w services \<Rightarrow> storage_config \<Rightarrow> (string \<Rightarrow> string) \<Rightarrow> time \<Rightarrow> jwt_payload \<Rightarrow> id \<Rightarrow> string option \<Rightarrow>
   string option \<Rightarrow> 'w \<Rightarrow> screenshot result \<times> 'w" where
  "upload_screenshot S cf sas now u aid file eventType w = (case file of
     None \<Rightarrow> (api_error ''No screenshot file provided'' 400, w)
   | Some original \<Rightarrow>
      (case t_first (sv_attempts S) (\<lambda>a. a_id a = aid \<and> a_candidateId a = jp_userId u) w of
        None \<Rightarrow> (api_error ''Attempt not found'' 404, w)
      | Some a \<Rightarrow>
         if a_status a \<notin> {IN_PROGRESS, GRADING}
         then (api_error ''Cannot capture screenshot for completed exam'' 400, w)
         else
          (let filename = aid @ ''_'' @ str_of_int now @ ''_'' @ strip_extension original @ ''.jpg'';
               (url, location) = store_screenshot cf sas (a_examId a) aid filename;
               shot = \<lparr> sc_attemptId = aid, sc_examId = a_examId a, sc_candidateId = a_candidateId a,
                        sc_eventType = eventType, sc_timestamp = now, sc_url = url,
                        sc_filename = filename, sc_storage = Some location \<rparr>;
               w1 = push_attempt_shot S now aid (ShotDoc shot) w;
               w2 = push_exam_shot S now (a_examId a) (ShotDoc shot) w1;
               w3 = sv_emit S (monitor_room (a_examId a)) (ProctorScreenshot shot) w2;
               w4 = sv_emit S (attempt_room aid) (ProctorScreenshot shot) w3;
               w5 = sv_publish S ''proctor:event'' (ScreenshotMsg shot) w4
           in (Inr shot, w5))))"

definition parse_shot :: "payload \<Rightarrow> screenshot option" where
  "parse_shot p = (case p of ShotDoc s \<Rightarrow> Some s | _ \<Rightarrow> None)"

record shot_row =
  sr_filename :: string
  sr_url :: string
  sr_eventType :: "string option"
  sr_capturedAt :: time
  sr_storage :: "storage option"     \<comment> \<open>None is 'UNKNOWN'\<close>

definition shot_row_of :: "screenshot \<Rightarrow> shot_row" where
  "shot_row_of s = \<lparr> sr_filename = sc_filename s, sr_url = sc_url s, sr_eventType = sc_eventType s,
     sr_capturedAt = sc_timestamp s, sr_storage = sc_storage s \<rparr>"

text \<open>The legacy listing of the upload directory: names with their modification times.\<close>
definition local_shot_row :: "string \<times> time \<Rightarrow> shot_row" where
  "local_shot_row f = (case f of (filename, mtime) \<Rightarrow>
     let parts = str_split CHR ''_'' (strip_extension filename);
         eventType = (if 2 < length parts then str_join ''_'' (drop 2 parts) else ''UNKNOWN'')
     in \<lparr> sr_filename = filename, sr_url = ''/uploads/screenshots/'' @ filename,
          sr_eventType = Some (strip_number eventType), sr_capturedAt = mtime, sr_storage = Some LOCAL \<rparr>)"

definition list_screenshots ::
  "'w services \<Rightarrow> (string \<times> time) list option \<Rightarrow> time \<Rightarrow> jwt_payload \<Rightarrow> id \<Rightarrow> 'w \<Rightarrow>
   (shot_row list \<times> nat \<times> bool) result" where
  "list_screenshots S dir now u aid w = (case find_attempt S aid w of
     None \<Rightarrow> api_error ''Attempt not found'' 404
   | Some a \<Rightarrow>
      if a_candidateId a \<noteq> jp_userId u \<and> \<not> (jp_role u = ADMIN \<or> jp_role u = REVIEWER)
      then api_error ''Forbidden'' 403
      else
       (let stored = sv_lrange S now (shots_key aid) 0 (- 1) w;
            shots = (if 0 < length stored then map shot_row_of (rev (List.map_filter parse_shot stored))
              else (case dir of None \<Rightarrow> []
                | Some files \<Rightarrow> sort_key sr_capturedAt
                    (map local_shot_row (filter (\<lambda>(f, _). prefix aid f) files))))
        in Inr (shots, length shots, 0 < length stored)))"

definition live_screenshots ::
  "'w services \<Rightarrow> time \<Rightarrow> jwt_payload \<Rightarrow> id \<Rightarrow> 'w \<Rightarrow> screenshot list result" where
  "live_screenshots S now u aid w =
    (if jp_role u \<notin> {ADMIN, REVIEWER} then api_error ''Forbidden'' 403
     else Inr (List.map_filter parse_shot (sv_lrange S now (shots_key aid) 0 49 w)))"

definition live_exam_screenshots ::
  "'w services \<Rightarrow> time \<Rightarrow> jwt_payload \<Rightarrow> id \<Rightarrow> 'w \<Rightarrow> screenshot list result" where
  "live_exam_screenshots S now u eid w =
    (if jp_role u \<notin> {ADMIN, REVIEWER} then api_error ''Forbidden'' 403
     else Inr (List.map_filter parse_shot (sv_lrange S now (exam_shots_key eid) 0 199 w)))"

section \<open>Lemmas\<close>

lemma validate_file_paths_iff:
  "validate_file_paths ps = None \<longleftrightarrow> (\<forall>p\<in>set ps. \<not> path_escapes p \<and> \<not> path_hidden p)"
  by (induction ps) auto

lemma attempts_keys [simp]:
  "grading_lock_key a = grading_lock_key b \<longleftrightarrow> a = b"
  "\<not> is_queue_key (grading_lock_key a)"
  "grading_lock_key a \<noteq> autosave_key b" "autosave_key b \<noteq> grading_lock_key a"
  "grading_lock_key a \<noteq> autosave_dirty" "autosave_dirty \<noteq> grading_lock_key a"
  "grading_lock_key a \<noteq> timer_handled_key b" "timer_handled_key b \<noteq> grading_lock_key a"
  "stream_high \<noteq> grading_lock_key a" "stream_low \<noteq> grading_lock_key a"
  by (simp_all add: key_simps is_queue_key_def)

lemma preview_job_simps [simp]: "j_isPreview (preview_job aid fs c)" "j_hiddenTests (preview_job aid fs c) = []"
  "j_attemptId (preview_job aid fs c) = aid" "j_files (preview_job aid fs c) = fs"
  by (simp_all add: preview_job_def)

text \<open>No error of the locked part is the 429 that leaves the lock alone.\<close>
lemma run_tests_locked_error:
  "fst (run_tests_locked S now uuid u aid st) = Inl (ApiError m c meta) \<Longrightarrow> c \<noteq> 429"
  by (auto simp: run_tests_locked_def Let_def split: prod.splits option.splits if_splits)

text \<open>What a successful submission makes of the world.\<close>
definition submitted_row :: "time \<Rightarrow> files \<Rightarrow> attempt \<Rightarrow> attempt" where
  "submitted_row now fs a = a\<lparr> a_status := GRADING, a_submittedAt := Some now, a_files := Some fs \<rparr>"

lemma submitted_row_simps [simp]: "a_status (submitted_row now fs a) = GRADING"
  "a_files (submitted_row now fs a) = Some fs" "a_submittedAt (submitted_row now fs a) = Some now"
  by (simp_all add: submitted_row_def)

context services begin

lemma attempt_id: "w_attempts (V w) aid = Some a \<Longrightarrow> a_id a = aid"
  by (rule table_keyed[OF attempts_ok])

lemma submit_world:
  assumes a: "w_attempts (V w) aid = Some a" "a_candidateId a = jp_userId u" "a_status a = IN_PROGRESS"
    and c: "challenge_of (V w) a = Some c" and aid: "aid \<noteq> ''dirty''"
    and fs_eq: "fs = final_files now (V w) req a"
  obtains init sid where
    "fst (submit_attempt S now uuid u aid (Some req) (n, w)) = Inr (create_job_id aid now uuid)"
    "fst (snd (submit_attempt S now uuid u aid (Some req) (n, w))) =
       n\<lparr> n_timers := AList.delete aid (n_timers n), n_streams := init \<rparr>"
    "V (snd (snd (submit_attempt S now uuid u aid (Some req) (n, w)))) =
       w_ks_update (\<lambda>ks. ks_srem now autosave_dirty aid (ks_del (autosave_key aid)
         (add_job_ks (n_streams n) now uuid sid (full_job aid fs c) ks)))
       (w_attempts_update (\<lambda>m. m(aid \<mapsto> submitted_row now fs a))
         (flushed now aid
           (w_ks_update (\<lambda>ks. ks_del (timer_lock_key aid) (ks_del (timer_key aid)
              (ks_set now (timer_handled_key aid) (Num 1) (Some 3600) ks))) (V w))))"
proof -
  have id: "a_id a = aid" using a(1) by (rule attempt_id)
  obtain n1 w1 where s1: "stop_timer_permanently S now aid (n, w) = (n1, w1)" by force
  have V1: "V w1 = w_ks_update (\<lambda>ks. ks_del (timer_lock_key aid) (ks_del (timer_key aid)
              (ks_set now (timer_handled_key aid) (Num 1) (Some 3600) ks))) (V w)"
    and n1: "n1 = n\<lparr> n_timers := AList.delete aid (n_timers n) \<rparr>"
    using V_stop_permanently[of now aid n w] s1 by simp_all
  define w2 where "w2 = snd (flush_to_database S now aid w1)"
  have V2: "V w2 = flushed now aid (V w1)" by (simp add: w2_def)
  have b: "buffered now (V w2) aid = buffered now (V w) aid"
  proof -
    have "buffered now (V w1) aid = buffered now (V w) aid" unfolding V1 by (rule buffered_frame) simp
    then show ?thesis using aid by (simp add: V2)
  qed
  have fs: "or_default (or_else req (or_else (get_from_buffer S now aid w2) (a_files a))) [] = fs"
    by (simp add: fs_eq final_files_def b id)
  define w3 where "w3 = update_attempt S aid (\<lambda>r. r\<lparr> a_status := SUBMITTED,
                        a_submittedAt := Some now, a_files := Some fs \<rparr>) w2"
  obtain jid init w4 where j: "add_grading_job S now uuid (full_job aid fs c) (n_streams n, w3) = (jid, init, w4)"
    by (cases "add_grading_job S now uuid (full_job aid fs c) (n_streams n, w3)") auto
  obtain sid where V4: "V w4 = w_ks_update (add_job_ks (n_streams n) now uuid sid (full_job aid fs c)) (V w3)"
    using add_job_V(3)[OF j] by auto
  have jid: "jid = create_job_id aid now uuid" using add_job_V(1)[OF j] by simp
  have res: "submit_attempt S now uuid u aid (Some req) (n, w) = (Inr jid, n1\<lparr> n_streams := init \<rparr>,
      clear_buffer S now aid (update_attempt S aid (a_status_update (\<lambda>_. GRADING)) w4))"
    using a c s1 j by (simp add: submit_attempt_def Let_def w2_def[symmetric] fs[unfolded get_from_buffer_eq V2] w3_def[symmetric] id n1)
  have row: "\<exists>fs0. w_attempts (V w2) aid = Some (a\<lparr>a_files := fs0\<rparr>)"
    using a(1) by (auto simp: V2 V1 flushed_row intro: exI[of _ "a_files a"])
  have upd: "w_attempts_update (row_upd aid (a_status_update (\<lambda>_. GRADING)))
       (w_attempts_update (row_upd aid (\<lambda>r. r\<lparr> a_status := SUBMITTED, a_submittedAt := Some now, a_files := Some fs \<rparr>)) (V w2))
     = w_attempts_update (\<lambda>m. m(aid \<mapsto> submitted_row now fs a)) (V w2)"
    using row by (cases "V w2") (auto simp: submitted_row_def)
  have "V (clear_buffer S now aid (update_attempt S aid (a_status_update (\<lambda>_. GRADING)) w4)) =
      w_ks_update (\<lambda>ks. ks_srem now autosave_dirty aid (ks_del (autosave_key aid)
         (add_job_ks (n_streams n) now uuid sid (full_job aid fs c) ks)))
       (w_attempts_update (\<lambda>m. m(aid \<mapsto> submitted_row now fs a)) (V w2))"
    unfolding upd[symmetric] by (simp add: V4 w3_def comp_def)
  then show ?thesis using that[of init sid] by (simp add: res jid n1 V2 V1)
qed

end

section \<open>Properties\<close>

context services begin

lemma submit_refused:
  assumes "w_attempts (V w) aid = Some a" "a_status a \<noteq> IN_PROGRESS"
  shows "\<exists>e. submit_attempt S now uuid u aid body (n, w) = (Inl e, (n, w))"
  using assms by (auto simp: submit_attempt_def split: option.splits)

lemma submit_success:
  assumes a: "w_attempts (V w) aid = Some a" "a_candidateId a = jp_userId u" "a_status a = IN_PROGRESS"
    and c: "challenge_of (V w) a = Some c" and aid: "aid \<noteq> ''dirty''"
    and q: "stream_key now (w_ks (V w)) stream_high"
    and run: "submit_attempt S now uuid u aid (Some req) (n, w) = (r, n', w')"
  shows "r = Inr (create_job_id aid now uuid)"
    "w_attempts (V w') = (w_attempts (V w))(aid \<mapsto> submitted_row now (final_files now (V w) req a) a)"
    "queue_jobs now (V w') stream_high =
       queue_jobs now (V w) stream_high @ [full_job aid (final_files now (V w) req a) c]"
    "buffered now (V w') aid = None" "aid \<notin> dirty_ids now (V w')"
    "ks_exists now (w_ks (V w')) (timer_handled_key aid)" "map_of (n_timers n') aid = None"
proof -
  obtain init sid where
    o: "r = Inr (create_job_id aid now uuid)" "n' = n\<lparr> n_timers := AList.delete aid (n_timers n), n_streams := init \<rparr>"
    "V w' = w_ks_update (\<lambda>ks. ks_srem now autosave_dirty aid (ks_del (autosave_key aid)
         (add_job_ks (n_streams n) now uuid sid (full_job aid (final_files now (V w) req a) c) ks)))
       (w_attempts_update (\<lambda>m. m(aid \<mapsto> submitted_row now (final_files now (V w) req a) a))
         (flushed now aid
           (w_ks_update (\<lambda>ks. ks_del (timer_lock_key aid) (ks_del (timer_key aid)
              (ks_set now (timer_handled_key aid) (Num 1) (Some 3600) ks))) (V w))))"
    using submit_world[OF a c aid refl, of now uuid req n] run by auto
  let ?W1 = "w_ks_update (\<lambda>ks. ks_del (timer_lock_key aid) (ks_del (timer_key aid)
              (ks_set now (timer_handled_key aid) (Num 1) (Some 3600) ks))) (V w)"
  show "r = Inr (create_job_id aid now uuid)" by (rule o(1))
  show "w_attempts (V w') = (w_attempts (V w))(aid \<mapsto> submitted_row now (final_files now (V w) req a) a)"
    by (auto simp: o(3) flushed_row fun_eq_iff)
  have l: "ks_live now (w_ks (flushed now aid ?W1)) stream_high = ks_live now (w_ks (V w)) stream_high"
    by (simp add: flushed_other_key)
  then have q': "stream_key now (w_ks (flushed now aid ?W1)) stream_high"
    using q by (simp add: stream_key_def)
  have "ks_stream now (w_ks (flushed now aid ?W1)) stream_high = ks_stream now (w_ks (V w)) stream_high"
    using l by (rule ks_reads_cong)
  then show "queue_jobs now (V w') stream_high =
       queue_jobs now (V w) stream_high @ [full_job aid (final_files now (V w) req a) c]"
    using add_job_stream[OF q', of "n_streams n" uuid sid "full_job aid (final_files now (V w) req a) c"]
    by (simp add: queue_jobs_def o(3))
  show "buffered now (V w') aid = None" using aid by (simp add: o(3) buffered_def)
  show "aid \<notin> dirty_ids now (V w')" by (simp add: o(3))
  have "ks_exists now (w_ks (flushed now aid ?W1)) (timer_handled_key aid) =
      ks_exists now (w_ks ?W1) (timer_handled_key aid)"
    by (rule ks_reads_cong) (rule flushed_other_key, simp)
  then show "ks_exists now (w_ks (V w')) (timer_handled_key aid)" by (simp add: o(3))
  show "map_of (n_timers n') aid = None" by (simp add: o(2) delete_conv')
qed

end

text \<open>C5: A final submission does all of its work: it answers the id of the grading job, the attempt
  becomes GRADING with the submission time and the files to grade (those of the request, else the
  buffered ones, else the row's), no other attempt changes, exactly one job with these files and
  the hidden tests is appended to the high-priority queue, the autosave buffer and its dirty mark
  are gone, the timer is marked handled and has no local interval left.\<close>
theorem submit_attempt_success:
  assumes "services S V" "w_attempts (V w) aid = Some a" "a_candidateId a = jp_userId u"
    "a_status a = IN_PROGRESS" "challenge_of (V w) a = Some c" "aid \<noteq> ''dirty''"
    "stream_key now (w_ks (V w)) stream_high"
    "submit_attempt S now uuid u aid (Some req) (n, w) = (r, n', w')"
  shows "r = Inr (create_job_id aid now uuid)
    \<and> w_attempts (V w') = (w_attempts (V w))(aid \<mapsto> submitted_row now (final_files now (V w) req a) a)
    \<and> queue_jobs now (V w') stream_high =
        queue_jobs now (V w) stream_high @ [full_job aid (final_files now (V w) req a) c]
    \<and> buffered now (V w') aid = None \<and> aid \<notin> dirty_ids now (V w')
    \<and> ks_exists now (w_ks (V w')) (timer_handled_key aid) \<and> map_of (n_timers n') aid = None"
  using services.submit_success[OF assms] by blast

definition demo_node :: "ref_world node" where
  "demo_node = (\<lparr> n_streams = False, n_timers = [(''a1'', (3601000, None))] \<rparr>, demo_world)"

lemma demo_challenge_of [simp]: "challenge_of demo demo_attempt = Some demo_challenge"
  by (simp add: challenge_of_def)

theorem submit_attempt_success_witness:
  "\<exists>r n' w'. submit_attempt ref_services 5000 ''deadbeef-1'' demo_candidate ''a1'' (Some (Some [(''app.js'', ''2'')])) demo_node
      = (r, n', w') \<and> r = Inr (create_job_id ''a1'' 5000 ''deadbeef-1'') \<and> a_status (the (w_attempts (ref_view w') ''a1'')) = GRADING"
proof -
  obtain r n' w' where run: "submit_attempt ref_services 5000 ''deadbeef-1'' demo_candidate ''a1''
      (Some (Some [(''app.js'', ''2'')])) demo_node = (r, n', w')"
    by (cases "submit_attempt ref_services 5000 ''deadbeef-1'' demo_candidate ''a1''
      (Some (Some [(''app.js'', ''2'')])) demo_node") auto
  show ?thesis
    using submit_attempt_success[OF ref.services_axioms, of demo_world "''a1''" demo_attempt demo_candidate
        demo_challenge 5000 "''deadbeef-1''" "Some [(''app.js'', ''2'')]" "fst demo_node" r n' w'] run
    by (simp add: demo_node_def stream_key_def)
qed

text \<open>C6: Submission happens at most once: after a successful submission every further submission of
  the attempt, by anyone, with any body and at any time, is refused and changes neither the world
  nor the instance.\<close>
theorem submit_attempt_once:
  assumes "services S V" "w_attempts (V w) aid = Some a" "a_candidateId a = jp_userId u"
    "a_status a = IN_PROGRESS" "challenge_of (V w) a = Some c" "aid \<noteq> ''dirty''"
    "stream_key now (w_ks (V w)) stream_high"
  shows "\<exists>e. submit_attempt S t uuid' u' aid body (snd (submit_attempt S now uuid u aid (Some req) (n, w))) =
    (Inl e, snd (submit_attempt S now uuid u aid (Some req) (n, w)))"
proof -
  obtain r n' w' where run: "submit_attempt S now uuid u aid (Some req) (n, w) = (r, n', w')"
    by (cases "submit_attempt S now uuid u aid (Some req) (n, w)") auto
  have "w_attempts (V w') aid = Some (submitted_row now (final_files now (V w) req a) a)"
    using services.submit_success(2)[OF assms run] by simp
  then show ?thesis using services.submit_refused[OF assms(1)] run by (auto simp del: not_None_eq)
qed

theorem submit_attempt_once_witness:
  "\<exists>e. submit_attempt ref_services 9000 ''x'' demo_admin ''a1'' (Some None)
      (snd (submit_attempt ref_services 5000 ''y'' demo_candidate ''a1'' (Some None) demo_node)) =
    (Inl e, snd (submit_attempt ref_services 5000 ''y'' demo_candidate ''a1'' (Some None) demo_node))"
  using submit_attempt_once[OF ref.services_axioms, of demo_world "''a1''" demo_attempt demo_candidate
      demo_challenge 5000 9000 "''x''" demo_admin "Some None" "''y''" None "fst demo_node"]
  by (simp add: demo_node_def stream_key_def)

section \<open>Path checks: on saving, not on submitting\<close>

lemma path_hidden_iff: "path_hidden p \<longleftrightarrow> (\<exists>part\<in>set (str_split CHR ''/'' p). prefix ''.'' part)"
  by (simp add: path_hidden_def list_ex_iff)

text \<open>The check of file paths on saving is exact: a set of files passes when and only when no path
  contains two dots in a row or a backslash, none is absolute and no component is hidden; a rejected
  save answers 400 and leaves the world as it was. A submission makes no such check: the same files
  sent with it are queued for grading as they are.\<close>
theorem unsafe_paths_saved_or_submitted:
  assumes "services S V" "w_attempts (V w) aid = Some a" "a_candidateId a = jp_userId u"
    "a_status a = IN_PROGRESS" "challenge_of (V w) a = Some c" "aid \<noteq> ''dirty''"
    "stream_key now (w_ks (V w)) stream_high"
    "(p, content) \<in> set fs"
    "sublist ''..'' p \<or> prefix ''/'' p \<or> char_of (92 :: nat) \<in> set p \<or> (\<exists>part\<in>set (str_split CHR ''/'' p). prefix ''.'' part)"
    "submit_attempt S now uuid u aid (Some (Some fs)) (n, w) = (r, n', w')"
  shows "(\<exists>m. save_files S now u aid (Some fs) w = (api_error m 400, w))
    \<and> queue_jobs now (V w') stream_high = queue_jobs now (V w) stream_high @ [full_job aid fs c]"
proof -
  have bs: "sublist [x] p \<longleftrightarrow> x \<in> set p" for x :: char
    by (auto simp: sublist_def in_set_conv_decomp)
  have "path_escapes p \<or> path_hidden p"
    using assms(9) by (auto simp: path_escapes_def path_hidden_iff str_includes_sublist bs)
  moreover have "p \<in> set (map fst fs)" using assms(8) by force
  ultimately have "validate_file_paths (map fst fs) \<noteq> None"
    unfolding validate_file_paths_iff by blast
  moreover have "\<exists>m. v = ApiError m 400 NoMeta" if "validate_file_paths ps = Some v" for ps v
    using that by (induction ps) (auto split: if_splits)
  ultimately obtain m where v: "validate_file_paths (map fst fs) = Some (ApiError m 400 NoMeta)" by auto
  have "save_files S now u aid (Some fs) w = (api_error m 400, w)"
    using assms(2-4) v by (simp add: save_files_def services.find_attempt_eq[OF assms(1)])
  moreover have "final_files now (V w) (Some fs) a = fs" by (simp add: final_files_def)
  ultimately show ?thesis
    using services.submit_success(3)[OF assms(1-7) assms(10)] by auto
qed

theorem unsafe_paths_witness:
  "\<exists>r n' w'. submit_attempt ref_services 5000 ''y'' demo_candidate ''a1'' (Some (Some [(''../x'', '''')])) demo_node = (r, n', w')
     \<and> (\<exists>m. save_files ref_services 5000 demo_candidate ''a1'' (Some [(''../x'', '''')]) demo_world = (api_error m 400, demo_world))"
proof -
  obtain r n' w' where run: "submit_attempt ref_services 5000 ''y'' demo_candidate ''a1''
      (Some (Some [(''../x'', '''')])) demo_node = (r, n', w')"
    by (cases "submit_attempt ref_services 5000 ''y'' demo_candidate ''a1'' (Some (Some [(''../x'', '''')])) demo_node") auto
  have "sublist ''..'' ''../x''" by (simp add: str_includes_sublist[symmetric])
  then show ?thesis
    using unsafe_paths_saved_or_submitted[OF ref.services_axioms, of demo_world "''a1''" demo_attempt demo_candidate
        demo_challenge 5000 "''../x''" "''''" "[(''../x'', '''')]" "''y''" "fst demo_node" r n' w'] run
    by (auto simp: demo_node_def stream_key_def)
qed

section \<open>Starting an attempt\<close>

definition attempts_of :: "world \<Rightarrow> id \<Rightarrow> id \<Rightarrow> id set" where
  "attempts_of W eid uid = {k. \<exists>a. w_attempts W k = Some a \<and> a_examId a = eid \<and> a_candidateId a = uid}"

context services begin

lemma attempts_of_select:
  "attempts_of (V w) eid uid = a_id ` set (t_select (sv_attempts S) (\<lambda>a. a_examId a = eid \<and> a_candidateId a = uid) w)"
proof
  show "attempts_of (V w) eid uid \<subseteq> a_id ` set (t_select (sv_attempts S) (\<lambda>a. a_examId a = eid \<and> a_candidateId a = uid) w)"
  proof
    fix k assume "k \<in> attempts_of (V w) eid uid"
    then obtain a where a: "w_attempts (V w) k = Some a" "a_examId a = eid" "a_candidateId a = uid"
      by (auto simp: attempts_of_def)
    moreover have "a_id a = k" using a(1) by (rule attempt_id)
    ultimately show "k \<in> a_id ` set (t_select (sv_attempts S) (\<lambda>a. a_examId a = eid \<and> a_candidateId a = uid) w)"
      by (auto simp: table_set[OF attempts_ok] intro!: image_eqI[of _ _ a])
  qed
  show "a_id ` set (t_select (sv_attempts S) (\<lambda>a. a_examId a = eid \<and> a_candidateId a = uid) w) \<subseteq> attempts_of (V w) eid uid"
    by (auto simp: attempts_of_def table_set[OF attempts_ok])
qed

lemma attempts_of_card:
  "card (attempts_of (V w) eid uid) =
     length (t_select (sv_attempts S) (\<lambda>a. a_examId a = eid \<and> a_candidateId a = uid) w)"
  and attempts_of_finite: "finite (attempts_of (V w) eid uid)"
proof -
  let ?l = "t_select (sv_attempts S) (\<lambda>a. a_examId a = eid \<and> a_candidateId a = uid) w"
  have "inj_on a_id (set ?l)"
  proof (rule inj_onI)
    fix x y assume "x \<in> set ?l" "y \<in> set ?l" "a_id x = a_id y"
    then show "x = y" by (simp add: table_set[OF attempts_ok])
  qed
  then show "card (attempts_of (V w) eid uid) = length ?l"
    by (simp add: attempts_of_select card_image distinct_card[OF table_distinct[OF attempts_ok]])
  show "finite (attempts_of (V w) eid uid)" by (simp add: attempts_of_select)
qed

lemma start_created:
  assumes "start_attempt S now newid u (Some eid) w = (Inr (Created a), w')"
    "w_attempts (V w) newid = None"
  shows "\<exists>e c. w_exams (V w) eid = Some e \<and> e_isPublished e \<and> check_window e now = None
      \<and> w_challenges (V w) (e_challengeId e) = Some c
      \<and> a = new_attempt newid eid (jp_userId u) (c_starterFiles c) now
      \<and> w_attempts (V w') = (w_attempts (V w))(newid \<mapsto> a)
      \<and> int (card (attempts_of (V w') eid (jp_userId u))) \<le> e_maxAttempts e"
proof -
  let ?l = "t_select (sv_attempts S) (\<lambda>a. a_examId a = eid \<and> a_candidateId a = jp_userId u) w"
  obtain e c where e: "w_exams (V w) eid = Some e" "e_isPublished e" "check_window e now = None"
      "w_challenges (V w) (e_challengeId e) = Some c" "\<not> e_maxAttempts e \<le> int (length ?l)"
      "a = new_attempt newid eid (jp_userId u) (c_starterFiles c) now" "w' = t_insert (sv_attempts S) a w"
    using assms(1) by (auto simp: start_attempt_def Let_def split: option.splits if_splits)
  have row: "w_attempts (V w') = (w_attempts (V w))(newid \<mapsto> a)"
    using table_insert[OF attempts_ok, of w a] assms(2) by (simp add: e(6,7))
  have "attempts_of (V w') eid (jp_userId u) = insert newid (attempts_of (V w) eid (jp_userId u))"
    using assms(2) by (auto simp: attempts_of_def row e(6))
  moreover have "newid \<notin> attempts_of (V w) eid (jp_userId u)" using assms(2) by (simp add: attempts_of_def)
  ultimately have "card (attempts_of (V w') eid (jp_userId u)) = length ?l + 1"
    by (simp add: attempts_of_finite attempts_of_card)
  then show ?thesis using e row by auto
qed

end

text \<open>C10: The route that starts an attempt creates one only on a published exam inside its scheduled window, with the starter
  files of its challenge, status IN_PROGRESS and the current time; the creation adds exactly this
  row, and the candidate's attempts at the exam are then within its maximum. (The route that accepts an
  invitation also creates attempts, and checks neither publication, window nor maximum.)\<close>
theorem start_attempt_created:
  assumes "services S V" "start_attempt S now newid u (Some eid) w = (Inr (Created a), w')"
    "w_attempts (V w) newid = None"
  shows "\<exists>e c. w_exams (V w) eid = Some e \<and> e_isPublished e \<and> check_window e now = None
      \<and> w_challenges (V w) (e_challengeId e) = Some c
      \<and> a = new_attempt newid eid (jp_userId u) (c_starterFiles c) now
      \<and> w_attempts (V w') = (w_attempts (V w))(newid \<mapsto> a)
      \<and> int (card (attempts_of (V w') eid (jp_userId u))) \<le> e_maxAttempts e"
  using assms by (rule services.start_created)

lemma demo_start: "start_attempt ref_services 5000 ''a2'' demo_candidate (Some ''e2'') demo_world =
   (Inr (Created (new_attempt ''a2'' ''e2'' ''u1'' [(''app.js'', ''0'')] 5000)),
    t_insert (sv_attempts ref_services) (new_attempt ''a2'' ''e2'' ''u1'' [(''app.js'', ''0'')] 5000) demo_world)"
  by (simp add: start_attempt_def Let_def demo_select demo_exam2_def demo_exam_def check_window_def demo_challenge_def)

theorem start_attempt_created_witness:
  "\<exists>e c. w_exams demo ''e2'' = Some e \<and> int (card (attempts_of (ref_view
      (snd (start_attempt ref_services 5000 ''a2'' demo_candidate (Some ''e2'') demo_world))) ''e2'' ''u1'')) \<le> e_maxAttempts e
     \<and> w_challenges demo (e_challengeId e) = Some c"
  using start_attempt_created[OF ref.services_axioms demo_start] by (auto simp: demo_attempts demo_start)

text \<open>A candidate cannot come back to an exam with a single attempt: while the one attempt is in
  progress, starting again answers 400 instead of resuming it, because the limit is checked before
  the attempt in progress is looked for.\<close>
theorem start_attempt_no_resume:
  assumes "services S V" "w_exams (V w) eid = Some e" "e_isPublished e" "check_window e now = None"
    "e_maxAttempts e = 1" "w_attempts (V w) aid = Some a" "a_examId a = eid"
    "a_candidateId a = jp_userId u" "a_status a = IN_PROGRESS" "eid \<noteq> []"
  shows "start_attempt S now newid u (Some eid) w = (api_error ''Maximum attempts reached'' 400, w)"
proof -
  have "aid \<in> attempts_of (V w) eid (jp_userId u)" using assms(6-8) by (simp add: attempts_of_def)
  then have "0 < card (attempts_of (V w) eid (jp_userId u))"
    using services.attempts_of_finite[OF assms(1)] card_gt_0_iff by blast
  then show ?thesis
    using assms(2-5,10) services.find_exam_eq[OF assms(1)] services.attempts_of_card[OF assms(1)]
    by (simp add: start_attempt_def Let_def Suc_le_eq)
qed

theorem start_attempt_no_resume_witness:
  "start_attempt ref_services 5000 ''a2'' demo_candidate (Some ''e1'') demo_world =
     (api_error ''Maximum attempts reached'' 400, demo_world)"
  by (rule start_attempt_no_resume[OF ref.services_axioms, of demo_world "''e1''" demo_exam _ "''a1''" demo_attempt])
    (simp_all add: demo_exam_def check_window_def)

section \<open>Test runs\<close>

sublocale services \<subseteq> test_lock: expiring_lock
  "\<lambda>t. sv_setnx S t (grading_lock_key aid) (Num v) 90" "sv_del S (grading_lock_key aid)"
  "\<lambda>t w. ks_exists t (w_ks (V w)) (grading_lock_key aid)" 90 for aid v
  by unfold_locales (auto intro: ks_exists_antimono)

context services begin

lemma run_tests_world:
  assumes a: "w_attempts (V w) aid = Some a" "a_candidateId a = jp_userId u" "a_status a = IN_PROGRESS"
    and c: "challenge_of (V w) a = Some c"
    and free: "\<not> ks_exists now (w_ks (V w)) (grading_lock_key aid)"
  shows "\<exists>init sid w'.
    run_tests S now uuid u aid (n, w) = (Inr (create_job_id aid now uuid), (n\<lparr> n_streams := init \<rparr>, w')) \<and>
    V w' = w_ks_update (\<lambda>ks. add_job_ks (n_streams n) now uuid sid
         (preview_job aid (final_files now (V w) None a) c)
         (ks_set now (grading_lock_key aid) (Num now) (Some 90) ks)) (V w)"
proof -
  have id: "a_id a = aid" using a(1) by (rule attempt_id)
  obtain ok w1 where l: "sv_setnx S now (grading_lock_key aid) (Num now) 90 w = (ok, w1)" by force
  have ok: ok and V1: "V w1 = w_ks_update (ks_set now (grading_lock_key aid) (Num now) (Some 90)) (V w)"
    using setnx_fst[of now "grading_lock_key aid" "Num now" 90 w] setnx_snd[of now "grading_lock_key aid" "Num now" 90 w]
      l free by simp_all
  have b: "buffered now (V w1) aid = buffered now (V w) aid" unfolding V1 by (rule buffered_frame) simp
  define fs where "fs = final_files now (V w) None a"
  have fs: "or_default (or_else (buffered now (V w1) aid) (a_files a)) [] = fs"
    by (simp add: fs_def final_files_def b id)
  obtain jid init w2 where j: "add_grading_job S now uuid (preview_job aid fs c) (n_streams n, w1) = (jid, init, w2)"
    by (cases "add_grading_job S now uuid (preview_job aid fs c) (n_streams n, w1)") auto
  have row: "w_attempts (V w1) aid = Some a" "challenge_of (V w1) a = Some c" using a c by (simp_all add: V1)
  have run: "run_tests S now uuid u aid (n, w) = (Inr jid, (n\<lparr> n_streams := init \<rparr>, w2))"
    using l ok row a(2,3) j id fs by (simp add: run_tests_def run_tests_locked_def Let_def)
  obtain sid where "V w2 = w_ks_update (add_job_ks (n_streams n) now uuid sid (preview_job aid fs c)) (V w1)"
    using add_job_V(3)[OF j] by auto
  then have "V w2 = w_ks_update (\<lambda>ks. add_job_ks (n_streams n) now uuid sid
         (preview_job aid (final_files now (V w) None a) c)
         (ks_set now (grading_lock_key aid) (Num now) (Some 90) ks)) (V w)"
    by (simp add: V1 fs_def comp_def)
  then show ?thesis using run add_job_V(1)[OF j] by auto
qed

lemma run_tests_success_cases:
  assumes "run_tests S now uuid u aid (n, w) = (Inr jid, st')"
  obtains a c where "w_attempts (V w) aid = Some a" "a_candidateId a = jp_userId u" "a_status a = IN_PROGRESS"
    "challenge_of (V w) a = Some c" "\<not> ks_exists now (w_ks (V w)) (grading_lock_key aid)"
proof -
  obtain ok w1 where l: "sv_setnx S now (grading_lock_key aid) (Num now) 90 w = (ok, w1)" by force
  have "ok = (\<not> ks_exists now (w_ks (V w)) (grading_lock_key aid))"
    using setnx_fst[of now "grading_lock_key aid" "Num now" 90 w] l by simp
  moreover have "same_tables (V w) (V w1)"
    using setnx_snd[of now "grading_lock_key aid" "Num now" 90 w] l by simp
  ultimately show ?thesis
    using assms that l
    by (auto simp: run_tests_def run_tests_locked_def Let_def same_tables_def challenge_of_def
        split: option.splits if_splits prod.splits sum.splits)
qed

lemma run_tests_locked_out:
  assumes "ks_exists t (w_ks (V w)) (grading_lock_key aid)"
  shows "fst (run_tests S t uuid u aid (n, w)) =
      api_error ''Tests are already running for this attempt. Please wait...'' 429"
    "V (snd (snd (run_tests S t uuid u aid (n, w)))) = V w"
proof -
  obtain ok w1 where l: "sv_setnx S t (grading_lock_key aid) (Num t) 90 w = (ok, w1)" by force
  have "\<not> ok" "V w1 = V w"
    using assms setnx_fst[of t "grading_lock_key aid" "Num t" 90 w] setnx_snd[of t "grading_lock_key aid" "Num t" 90 w] l
    by simp_all
  then show "fst (run_tests S t uuid u aid (n, w)) =
      api_error ''Tests are already running for this attempt. Please wait...'' 429"
    "V (snd (snd (run_tests S t uuid u aid (n, w)))) = V w"
    by (simp_all add: run_tests_def l)
qed

end

text \<open>A test run is a preview: it queues exactly one job on the low-priority stream, with the latest
  files of the candidate and with no hidden tests, leaves the final queue and every table alone,
  and holds the lock of the attempt for ninety seconds.\<close>
theorem run_tests_preview:
  assumes "services S V" "run_tests S now uuid u aid (n, w) = (Inr jid, (n', w'))"
    "stream_key now (w_ks (V w)) stream_low" "stream_key now (w_ks (V w)) stream_high"
  shows "\<exists>a c. w_attempts (V w) aid = Some a \<and> challenge_of (V w) a = Some c
    \<and> queue_jobs now (V w') stream_low = queue_jobs now (V w) stream_low
        @ [(full_job aid (final_files now (V w) None a) c)\<lparr> j_hiddenTests := [], j_timeLimit := 60, j_isPreview := True \<rparr>]
    \<and> queue_jobs now (V w') stream_high = queue_jobs now (V w) stream_high
    \<and> same_tables (V w) (V w')
    \<and> (\<forall>t. ks_exists t (w_ks (V w')) (grading_lock_key aid) = (t < now + 90000))"
proof -
  obtain a c where ac: "w_attempts (V w) aid = Some a" "a_candidateId a = jp_userId u" "a_status a = IN_PROGRESS"
    "challenge_of (V w) a = Some c" "\<not> ks_exists now (w_ks (V w)) (grading_lock_key aid)"
    by (rule services.run_tests_success_cases[OF assms(1,2)])
  obtain init sid where V': "V w' = w_ks_update (\<lambda>ks. add_job_ks (n_streams n) now uuid sid
         (preview_job aid (final_files now (V w) None a) c)
         (ks_set now (grading_lock_key aid) (Num now) (Some 90) ks)) (V w)"
    using services.run_tests_world[OF assms(1) ac, of uuid n] assms(2) by auto
  let ?ks = "ks_set now (grading_lock_key aid) (Num now) (Some 90) (w_ks (V w))"
  have q: "stream_key now ?ks stream_low" "stream_key now ?ks stream_high"
    using assms(3,4) by (simp_all add: stream_key_def)
  have j: "preview_job aid fs c = (full_job aid fs c)\<lparr> j_hiddenTests := [], j_timeLimit := 60, j_isPreview := True \<rparr>" for fs
    by (simp add: preview_job_def full_job_def)
  show ?thesis
    using ac add_job_stream[OF q(1), of "n_streams n" uuid sid "preview_job aid (final_files now (V w) None a) c"]
      add_job_stream[OF q(2), of "n_streams n" uuid sid "preview_job aid (final_files now (V w) None a) c"]
    by (simp add: V' queue_jobs_def j[symmetric])
qed

lemma demo_run_tests: "\<exists>init w'. run_tests ref_services 5000 ''y'' demo_candidate ''a1'' (fst demo_node, demo_world) =
    (Inr (create_job_id ''a1'' 5000 ''y''), ((fst demo_node)\<lparr> n_streams := init \<rparr>, w'))"
  using services.run_tests_world[OF ref.services_axioms, of demo_world "''a1''" demo_attempt demo_candidate
        demo_challenge 5000 "''y''" "fst demo_node"] by auto

theorem run_tests_preview_witness:
  "\<exists>n' w' c. run_tests ref_services 5000 ''y'' demo_candidate ''a1'' demo_node = (Inr (create_job_id ''a1'' 5000 ''y''), (n', w'))
     \<and> same_tables demo (ref_view w') \<and> challenge_of demo demo_attempt = Some c"
proof -
  obtain init w' where run: "run_tests ref_services 5000 ''y'' demo_candidate ''a1'' (fst demo_node, demo_world) =
      (Inr (create_job_id ''a1'' 5000 ''y''), ((fst demo_node)\<lparr> n_streams := init \<rparr>, w'))"
    using demo_run_tests by blast
  have node: "demo_node = (fst demo_node, demo_world)" by (simp add: demo_node_def)
  show ?thesis
    using run_tests_preview[OF ref.services_axioms run] run
    by (subst node) (auto simp: stream_key_def)
qed

section \<open>Screenshot logs\<close>

sublocale services \<subseteq> attempt_shots: capped_list
  "push_attempt_shot S now aid" "list_at now (shots_key aid)" 50 "\<lambda>w. list_key now (w_ks (V w)) (shots_key aid)"
  for now aid
  unfolding push_attempt_shot_def by (rule front_capped) simp_all

sublocale services \<subseteq> exam_shots: capped_list
  "push_exam_shot S now eid" "list_at now (exam_shots_key eid)" 200 "\<lambda>w. list_key now (w_ks (V w)) (exam_shots_key eid)"
  for now eid
  unfolding push_exam_shot_def by (rule front_capped) simp_all

end
