(* ===== verification/Log_Sanitizer.thy ===== *)
theory Log_Sanitizer
  imports Prelude
begin

text \<open>
  \<^verbatim>\<open>apps/api/src/lib/log-sanitizer.ts\<close>: what a candidate may see of the output of a
  grading run that \<^verbatim>\<open>grading-results.ts\<close> stores. The regular expressions of the module are sequences of character classes with
  greedy quantifiers; \<^verbatim>\<open>rmatch\<close> is their backtracking match at one position and
  \<^verbatim>\<open>replace_all\<close> is \<^verbatim>\<open>String.replace\<close> with the flag \<^verbatim>\<open>g\<close>.
\<close>

section \<open>Regular expressions\<close>

datatype atom =
    One "char \<Rightarrow> bool"
  | Star "char \<Rightarrow> bool"      \<comment> \<open>greedy\<close>
  | Opt "char \<Rightarrow> bool"       \<comment> \<open>greedy\<close>
  | Eol                        \<comment> \<open>$ with the flag m\<close>

definition newline :: char where "newline = char_of (10 :: nat)"

definition is_dot :: "char \<Rightarrow> bool" where
  "is_dot c = (c \<noteq> newline \<and> c \<noteq> char_of (13 :: nat))"

fun rmatch :: "atom list \<Rightarrow> string \<Rightarrow> string option" where
  "rmatch [] s = Some s"
| "rmatch (One p # r) [] = None"
| "rmatch (One p # r) (c # s) = (if p c then rmatch r s else None)"
| "rmatch (Opt p # r) [] = rmatch r []"
| "rmatch (Opt p # r) (c # s) =
     (if p c then (case rmatch r s of Some x \<Rightarrow> Some x | None \<Rightarrow> rmatch r (c # s)) else rmatch r (c # s))"
| "rmatch (Star p # r) [] = rmatch r []"
| "rmatch (Star p # r) (c # s) =
     (if p c then (case rmatch (Star p # r) s of Some x \<Rightarrow> Some x | None \<Rightarrow> rmatch r (c # s)) else rmatch r (c # s))"
| "rmatch (Eol # r) [] = rmatch r []"
| "rmatch (Eol # r) (c # s) = (if is_dot c then None else rmatch r (c # s))"

function replace_all :: "atom list \<Rightarrow> string \<Rightarrow> string \<Rightarrow> string" where
  "replace_all r t [] = []"
| "replace_all r t (c # s) = (case rmatch r (c # s) of
     Some rest \<Rightarrow> if length rest \<le> length s then t @ replace_all r t rest else c # replace_all r t s
   | None \<Rightarrow> c # replace_all r t s)"
  by pat_completeness auto
termination by (relation "measure (\<lambda>(r, t, s). length s)") auto

definition lit :: "string \<Rightarrow> atom list" where
  "lit s = map (\<lambda>c. One (\<lambda>x. x = c)) s"

definition lit_i :: "string \<Rightarrow> atom list" where
  "lit_i s = map (\<lambda>c. One (\<lambda>x. char_lower x = char_lower c)) s"

definition plus :: "(char \<Rightarrow> bool) \<Rightarrow> atom list" where "plus p = [One p, Star p]"

definition one_of :: "string \<Rightarrow> atom" where "one_of s = One (\<lambda>x. x \<in> set s)"

text \<open>\<^verbatim>\<open>hidden\.test\.[jt]s\<close>\<close>
definition hidden_file :: "atom list" where
  "hidden_file = lit ''hidden.test.'' @ [one_of ''jt''] @ lit ''s''"

definition line_col :: "atom list" where
  "line_col = lit '':'' @ plus is_digit @ lit '':'' @ plus is_digit"

section \<open>The sanitizer\<close>

definition pat_hidden_path :: "atom list" where "pat_hidden_path = lit ''__tests__/'' @ hidden_file"
definition pat_hidden_file :: "atom list" where "pat_hidden_file = hidden_file"
definition pat_stack :: "atom list" where "pat_stack = lit ''at'' @ [Star is_dot] @ hidden_file @ line_col"
definition pat_hidden_tests :: "atom list" where
  "pat_hidden_tests = lit_i ''Hidden Test'' @ [Opt (\<lambda>x. char_lower x = CHR ''s'')]"
definition pat_assertion :: "atom list" where
  "pat_assertion = lit_i ''expect(received).'' @ [Star is_dot, One (\<lambda>x. x = newline), Star is_dot] @ lit_i ''Hidden''"
definition pat_comment :: "atom list" where "pat_comment = lit ''// Hidden test'' @ [Star is_dot, Eol]"

definition sanitize_patterns :: "(atom list \<times> string) list" where
  "sanitize_patterns =
    [(pat_hidden_path, ''[HIDDEN_TEST_FILE]''), (pat_hidden_file, ''[HIDDEN_TEST_FILE]''),
     (pat_stack, ''at [HIDDEN_TEST]''), (pat_hidden_tests, ''[HIDDEN_TESTS]''),
     (pat_assertion, ''[HIDDEN_ASSERTION]''), (pat_comment, ''// [REDACTED]'')]"

definition apply_patterns :: "(atom list \<times> string) list \<Rightarrow> string \<Rightarrow> string" where
  "apply_patterns ps s = fold (\<lambda>(r, t). replace_all r t) ps s"

definition keep_line :: "string \<Rightarrow> bool" where
  "keep_line l = (let lower = str_lower l
     in \<not> str_includes lower ''hidden.test.'' \<or> str_includes lower ''[hidden_test'')"

definition max_log_length :: nat where "max_log_length = 10000"

definition truncation_note :: string where
  "truncation_note = [newline, newline] @ ''... [LOG TRUNCATED] ...''"

definition finish_log :: "string \<Rightarrow> string" where
  "finish_log s = (let result = str_join [newline] (filter keep_line (str_split newline s))
     in if max_log_length < length result then take max_log_length result @ truncation_note else result)"

definition sanitize_logs :: "string \<Rightarrow> bool \<Rightarrow> string" where
  "sanitize_logs logs isPreview = (if logs = [] then []
     else if isPreview then logs
     else finish_log (apply_patterns sanitize_patterns logs))"

definition sanitize_error :: "string \<Rightarrow> string" where
  "sanitize_error e = (if e = [] then []
     else replace_all (hidden_file @ line_col) ''[HIDDEN_TEST]''
       (replace_all (lit ''/'' @ plus (\<lambda>x. \<not> is_space x) @ lit ''/'' @ hidden_file) ''[HIDDEN_TEST]'' e))"

section \<open>Matching\<close>

lemma rmatch_suffix: "rmatch r s = Some x \<Longrightarrow> suffix x s"
  by (induction r s arbitrary: x rule: rmatch.induct)
    (auto split: if_splits option.splits intro: suffix_ConsI)

lemma rmatch_append: "rmatch (r @ r') s = Some x \<Longrightarrow> \<exists>y. suffix y s \<and> rmatch r' y = Some x"
proof (induction r arbitrary: s)
  case (Cons a r)
  show ?case
  proof (cases a)
    case (Star p)
    have "rmatch (Star p # r @ r') s = Some x \<Longrightarrow> \<exists>y. suffix y s \<and> rmatch r' y = Some x"
      by (induction s) (auto split: if_splits option.splits intro: suffix_ConsI dest: Cons.IH)
    then show ?thesis using Cons.prems Star by simp
  next
    case (Opt p)
    then show ?thesis using Cons.prems
      by (cases s) (auto split: if_splits option.splits intro: suffix_ConsI dest: Cons.IH)
  next
    case (One p)
    then show ?thesis using Cons.prems
      by (cases s) (auto split: if_splits intro: suffix_ConsI dest: Cons.IH)
  next
    case Eol
    then show ?thesis using Cons.prems
      by (cases s) (auto split: if_splits intro: suffix_ConsI dest: Cons.IH)
  qed
qed auto

lemma rmatch_lit: "rmatch (lit p @ r) s = (if prefix p s then rmatch r (drop (length p) s) else None)"
proof (induction p arbitrary: s)
  case (Cons c p)
  then show ?case by (cases s) (simp_all add: lit_def)
qed (simp add: lit_def)

lemma rmatch_lit_i:
  "rmatch (lit_i p @ r) s = (if length p \<le> length s \<and> str_lower (take (length p) s) = str_lower p
     then rmatch r (drop (length p) s) else None)"
proof (induction p arbitrary: s)
  case (Cons c p)
  then show ?case by (cases s) (simp_all add: lit_i_def str_lower_def)
qed (simp add: lit_i_def)

lemma rmatch_Opt_total: "rmatch [Opt p] s \<noteq> None"
  by (cases s) auto

section \<open>Replacing\<close>

lemma replace_all_id: "(\<And>y. suffix y s \<Longrightarrow> y \<noteq> [] \<Longrightarrow> rmatch r y = None) \<Longrightarrow> replace_all r t s = s"
proof (induction s)
  case (Cons c s)
  have "rmatch r (c # s) = None" using Cons.prems by simp
  moreover have "replace_all r t s = s" using Cons.prems by (intro Cons.IH) (auto intro: suffix_ConsI)
  ultimately show ?case by simp
qed simp

text \<open>A text that avoids the first character of the replacement starts the result only if it starts
  the input.\<close>
lemma prefix_replace_all:
  assumes "t \<noteq> []" "hd t \<notin> set p" "prefix p (replace_all r t s)"
  shows "prefix p s"
  using assms(2,3)
proof (induction s arbitrary: p)
  case (Cons c s)
  show ?case
  proof (cases p)
    case p: (Cons x p')
    have "hd (replace_all r t (c # s)) = x" using Cons.prems(2) p by (cases "replace_all r t (c # s)") auto
    moreover have "hd (t @ z) = hd t" for z using assms(1) by (cases t) auto
    moreover have "hd t \<noteq> x" using Cons.prems(1) p by auto
    ultimately have out: "replace_all r t (c # s) = c # replace_all r t s"
      by (auto split: option.splits if_splits)
    then show ?thesis using Cons p by auto
  qed simp
qed simp

text \<open>A text without the first and last characters of the replacement cannot straddle it.\<close>
lemma sublist_replaced:
  assumes "t \<noteq> []" "p \<noteq> []" "last t \<notin> set p" "\<not> sublist p t" "sublist p (t @ z)"
  shows "sublist p z"
proof -
  consider "sublist p z" | a b where "p = a @ b" "suffix a t" "prefix b z"
    using assms(4,5) by (auto simp: sublist_append)
  then show ?thesis
  proof cases
    case 2
    have "a = []"
    proof (rule ccontr)
      assume "a \<noteq> []"
      then have "last t = last a" using 2(2) assms(1) by (auto simp: suffix_def)
      moreover have "last a \<in> set p" using \<open>a \<noteq> []\<close> 2(1) by simp
      ultimately show False using assms(3) by simp
    qed
    then show ?thesis using 2 by (auto intro: prefix_imp_sublist)
  qed
qed

text \<open>If the expression matches wherever \<^verbatim>\<open>p\<close> starts, no \<^verbatim>\<open>p\<close> is left.\<close>
lemma replace_all_removes:
  assumes t: "t \<noteq> []" "p \<noteq> []" "hd t \<notin> set p" "last t \<notin> set p" "\<not> sublist p t"
    and m: "\<And>y. prefix p y \<Longrightarrow> rmatch r y \<noteq> None"
    and n: "\<And>y z. rmatch r y = Some z \<Longrightarrow> length z < length y"
  shows "\<not> sublist p (replace_all r t s)"
proof (induction s rule: length_induct)
  case (1 s)
  show ?case
  proof (cases s)
    case Nil
    then show ?thesis using t(2) by simp
  next
    case (Cons c s')
    show ?thesis
    proof (cases "rmatch r (c # s')")
      case None
      then have out: "replace_all r t s = c # replace_all r t s'" using Cons by simp
      have "\<not> prefix p (replace_all r t s)"
        using prefix_replace_all[OF t(1,3), of r s] m[of s] None Cons by auto
      moreover have "\<not> sublist p (replace_all r t s')" using 1 Cons by simp
      ultimately show ?thesis unfolding out sublist_Cons_right by blast
    next
      case (Some rest)
      then have l: "length rest < length s" using n[OF Some] Cons by simp
      then have "replace_all r t s = t @ replace_all r t rest" using Some Cons by simp
      then show ?thesis using sublist_replaced[OF t(1,2,4,5)] 1 l by metis
    qed
  qed
qed

text \<open>Replacing creates no \<^verbatim>\<open>p\<close>.\<close>
lemma replace_all_creates_none:
  assumes t: "t \<noteq> []" "p \<noteq> []" "hd t \<notin> set p" "last t \<notin> set p" "\<not> sublist p t"
    and s: "\<not> sublist p s"
  shows "\<not> sublist p (replace_all r t s)"
  using s
proof (induction s rule: length_induct)
  case (1 s)
  show ?case
  proof (cases s)
    case Nil
    then show ?thesis using t(2) by simp
  next
    case (Cons c s')
    have free: "\<not> sublist p y" if "suffix y s" for y
      using 1(2) that by (meson sublist_order.order.trans suffix_imp_sublist)
    have keep: "\<not> sublist p (c # replace_all r t s')" if "replace_all r t s = c # replace_all r t s'"
    proof -
      have "\<not> prefix p (replace_all r t s)"
        using prefix_replace_all[OF t(1,3), of r s] 1(2) by (auto intro: prefix_imp_sublist)
      moreover have "\<not> sublist p (replace_all r t s')" using 1(1) Cons free[of s'] by (auto intro: suffix_ConsI)
      ultimately show ?thesis using that by (simp add: sublist_Cons_right)
    qed
    show ?thesis
    proof (cases "rmatch r (c # s')")
      case None
      then show ?thesis using keep Cons by simp
    next
      case (Some rest)
      show ?thesis
      proof (cases "length rest \<le> length s'")
        case True
        then have out: "replace_all r t s = t @ replace_all r t rest" using Some Cons by simp
        have "\<not> sublist p rest" using free rmatch_suffix[OF Some] Cons by simp
        then have "\<not> sublist p (replace_all r t rest)" using 1(1) True Cons by simp
        then show ?thesis using sublist_replaced[OF t(1,2,4,5)] by (auto simp: out)
      next
        case False
        then show ?thesis using keep Some Cons by simp
      qed
    qed
  qed
qed

section \<open>What the patterns do\<close>

lemma rmatch_lit_shorter: "rmatch (lit (c # p) @ r) y = Some z \<Longrightarrow> length z < length y"
  by (auto simp: rmatch_lit split: if_splits dest!: rmatch_suffix suffix_length_le prefix_length_le)

lemma rmatch_lit_i_shorter: "rmatch (lit_i (c # p) @ r) y = Some z \<Longrightarrow> length z < length y"
  by (auto simp: rmatch_lit_i split: if_splits dest!: rmatch_suffix suffix_length_le)

lemma rmatch_hidden_file:
  "rmatch (hidden_file @ r) y = (if prefix ''hidden.test.js'' y \<or> prefix ''hidden.test.ts'' y
     then rmatch r (drop 14 y) else None)"
proof -
  have split: "prefix (''hidden.test.'' @ q) y \<longleftrightarrow> prefix ''hidden.test.'' y \<and> prefix q (drop 12 y)" for q
    by (auto simp: prefix_def)
  have d: "drop 14 y = drop 2 (drop 12 y)" by simp
  have js: "prefix ''hidden.test.js'' y \<longleftrightarrow> prefix ''hidden.test.'' y \<and> prefix ''js'' (drop 12 y)"
    and ts: "prefix ''hidden.test.ts'' y \<longleftrightarrow> prefix ''hidden.test.'' y \<and> prefix ''ts'' (drop 12 y)"
    using split[of "''js''"] split[of "''ts''"] by simp_all
  have tail: "rmatch ([one_of ''jt''] @ lit ''s'' @ r) z =
      (if prefix ''js'' z \<or> prefix ''ts'' z then rmatch r (drop 2 z) else None)" for z
  proof (cases z)
    case (Cons a z')
    then show ?thesis by (cases z') (auto simp: one_of_def lit_def)
  qed (simp add: one_of_def)
  have "rmatch (hidden_file @ r) y = (if prefix ''hidden.test.'' y then rmatch ([one_of ''jt''] @ lit ''s'' @ r) (drop 12 y) else None)"
  proof -
    have l: "length ''hidden.test.'' = 12" by simp
    show ?thesis unfolding hidden_file_def append_assoc rmatch_lit l ..
  qed
  then show ?thesis unfolding tail js ts d by simp
qed

definition hidden_names :: "string set" where "hidden_names = {''hidden.test.js'', ''hidden.test.ts''}"

lemma hidden_names_cond:
  assumes "p \<in> hidden_names"
  shows "p \<noteq> []" "CHR ''['' \<notin> set p" "CHR '']'' \<notin> set p" "CHR ''a'' \<notin> set p" "CHR ''/'' \<notin> set p" "newline \<notin> set p"
  using assms by (auto simp: hidden_names_def newline_def char_of_def)

lemma hidden_not_in:
  assumes "p \<in> hidden_names"
  shows "\<not> sublist p ''[HIDDEN_TEST_FILE]''" "\<not> sublist p ''at [HIDDEN_TEST]''" "\<not> sublist p ''[HIDDEN_TESTS]''"
    "\<not> sublist p ''[HIDDEN_ASSERTION]''" "\<not> sublist p ''// [REDACTED]''"
  using assms by (auto simp: hidden_names_def str_includes_sublist[symmetric])

lemma hidden_file_removed:
  assumes p: "p \<in> hidden_names"
  shows "\<not> sublist p (replace_all pat_hidden_file ''[HIDDEN_TEST_FILE]'' s)"
proof (rule replace_all_removes)
  fix y z
  show "rmatch pat_hidden_file y \<noteq> None" if "prefix p y"
    using p that rmatch_hidden_file[of "[]" y] by (auto simp: hidden_names_def pat_hidden_file_def)
  show "length z < length y" if "rmatch pat_hidden_file y = Some z"
    using that rmatch_lit_shorter[of "CHR ''h''" "''idden.test.''" "[one_of ''jt''] @ lit ''s''" y z]
    by (simp add: pat_hidden_file_def hidden_file_def)
qed (use hidden_names_cond[OF p] hidden_not_in[OF p] in simp_all)

text \<open>The text after the first two replacements.\<close>
definition after_files :: "string \<Rightarrow> string" where
  "after_files s = replace_all pat_hidden_file ''[HIDDEN_TEST_FILE]'' (replace_all pat_hidden_path ''[HIDDEN_TEST_FILE]'' s)"

lemma apply_sanitize_patterns:
  "apply_patterns sanitize_patterns s =
    replace_all pat_comment ''// [REDACTED]'' (replace_all pat_assertion ''[HIDDEN_ASSERTION]''
      (replace_all pat_hidden_tests ''[HIDDEN_TESTS]'' (replace_all pat_stack ''at [HIDDEN_TEST]'' (after_files s))))"
  by (simp add: apply_patterns_def sanitize_patterns_def after_files_def)

lemma patterns_hidden_free:
  assumes p: "p \<in> hidden_names" shows "\<not> sublist p (apply_patterns sanitize_patterns s)"
proof -
  note c = hidden_names_cond[OF p] hidden_not_in[OF p]
  have 0: "\<not> sublist p (after_files s)" unfolding after_files_def by (rule hidden_file_removed[OF p])
  have 1: "\<not> sublist p (replace_all pat_stack ''at [HIDDEN_TEST]'' (after_files s))"
    by (rule replace_all_creates_none[OF _ _ _ _ _ 0]) (use c in simp_all)
  have 2: "\<not> sublist p (replace_all pat_hidden_tests ''[HIDDEN_TESTS]'' (replace_all pat_stack ''at [HIDDEN_TEST]'' (after_files s)))"
    by (rule replace_all_creates_none[OF _ _ _ _ _ 1]) (use c in simp_all)
  have 3: "\<not> sublist p (replace_all pat_assertion ''[HIDDEN_ASSERTION]''
     (replace_all pat_hidden_tests ''[HIDDEN_TESTS]'' (replace_all pat_stack ''at [HIDDEN_TEST]'' (after_files s))))"
    by (rule replace_all_creates_none[OF _ _ _ _ _ 2]) (use c in simp_all)
  show ?thesis unfolding apply_sanitize_patterns
    by (rule replace_all_creates_none[OF _ _ _ _ _ 3]) (use c in simp_all)
qed

lemma sublist_join:
  "p \<noteq> [] \<Longrightarrow> c \<notin> set p \<Longrightarrow> sublist p (str_join [c] ws) \<Longrightarrow> \<exists>w\<in>set ws. sublist p w"
proof (induction ws)
  case (Cons w ws)
  show ?case
  proof (cases "ws = []")
    case False
    then have "sublist p (w @ [c] @ str_join [c] ws)" using Cons.prems by (simp add: str_join_Cons)
    then consider "sublist p w" | "sublist p ([c] @ str_join [c] ws)" | a b where "p = a @ b" "suffix a w" "prefix b ([c] @ str_join [c] ws)"
      by (auto simp: sublist_append)
    then show ?thesis
    proof cases
      case 2
      then have "sublist p (str_join [c] ws)"
        using Cons.prems(1,2) by (cases p) (auto simp: sublist_Cons_right)
      then show ?thesis using Cons by auto
    next
      case 3
      then have "b = []" using Cons.prems(2) by (cases b) auto
      then show ?thesis using 3 by auto
    qed auto
  qed (use Cons.prems in auto)
qed auto

lemma str_split_sublist: "w \<in> set (str_split c s) \<Longrightarrow> sublist w s"
proof -
  assume "w \<in> set (str_split c s)"
  moreover have "sublist w (str_join [c] ws)" if "w \<in> set ws" for ws
    using that
  proof (induction ws)
    case (Cons v vs)
    then show ?case
      by (cases "vs = []") (auto simp: str_join_Cons sublist_append sublist_Cons_right)
  qed simp
  ultimately show ?thesis using str_join_split by metis
qed

lemma finish_log_free:
  assumes p: "p \<in> hidden_names" and s: "\<not> sublist p s" shows "\<not> sublist p (finish_log s)"
proof -
  note c = hidden_names_cond[OF p]
  let ?r = "str_join [newline] (filter keep_line (str_split newline s))"
  have r: "\<not> sublist p ?r"
  proof
    assume "sublist p ?r"
    then obtain w where "w \<in> set (str_split newline s)" "sublist p w"
      using sublist_join[OF c(1) c(6)] by fastforce
    then show False using s str_split_sublist[of w newline s] by (meson sublist_order.order.trans)
  qed
  have "\<not> sublist p truncation_note"
    using p by (auto simp: hidden_names_def truncation_note_def str_includes_sublist[symmetric])
  moreover have "\<not> sublist p (take n ?r)" for n
    using r by (meson sublist_order.order.trans sublist_take)
  moreover have "\<not> (\<exists>a b. p = a @ b \<and> suffix a (take n ?r) \<and> prefix b truncation_note \<and> b \<noteq> [])" for n
  proof
    assume "\<exists>a b. p = a @ b \<and> suffix a (take n ?r) \<and> prefix b truncation_note \<and> b \<noteq> []"
    then obtain a b where "p = a @ b" "prefix b truncation_note" "b \<noteq> []" by blast
    then have "newline \<in> set p" by (cases b) (auto simp: truncation_note_def)
    then show False using c(6) by simp
  qed
  ultimately have "\<not> sublist p (take n ?r @ truncation_note)" for n
    unfolding sublist_append by (metis append_Nil2 suffix_imp_sublist)
  then show ?thesis using r by (simp add: finish_log_def Let_def)
qed

section \<open>Properties\<close>

text \<open>The sanitizer hides the names of hidden tests: whatever the grader printed, the sanitized log of a
  final grading contains neither hidden.test.js nor hidden.test.ts anywhere, and
  it is never longer than ten thousand characters and the note of its truncation.\<close>
theorem sanitized_log_hides_files:
  "\<not> sublist ''hidden.test.js'' (sanitize_logs logs False) \<and> \<not> sublist ''hidden.test.ts'' (sanitize_logs logs False)
   \<and> length (sanitize_logs logs False) \<le> max_log_length + length truncation_note"
proof -
  have "\<not> sublist p (sanitize_logs logs False)" if "p \<in> hidden_names" for p
    using that finish_log_free[OF that patterns_hidden_free[OF that]]
    by (auto simp: sanitize_logs_def hidden_names_cond)
  moreover have "length (finish_log s) \<le> max_log_length + length truncation_note" for s
    by (simp add: finish_log_def Let_def)
  ultimately show ?thesis by (simp add: hidden_names_def sanitize_logs_def)
qed

lemma pat_stack_dead: "replace_all pat_stack t (after_files s) = after_files s"
proof (rule replace_all_id)
  fix y assume y: "suffix y (after_files s)"
  show "rmatch pat_stack y = None"
  proof (rule ccontr)
    assume "rmatch pat_stack y \<noteq> None"
    then obtain x where "rmatch ((lit ''at'' @ [Star is_dot]) @ hidden_file @ line_col) y = Some x"
      by (auto simp: pat_stack_def)
    then obtain z where z: "suffix z y" "rmatch (hidden_file @ line_col) z = Some x"
      using rmatch_append by blast
    then obtain p where "p \<in> hidden_names" "prefix p z"
      by (auto simp: rmatch_hidden_file hidden_names_def split: if_splits)
    moreover have "sublist z (after_files s)" using z(1) y by (meson suffix_imp_sublist suffix_order.trans)
    ultimately have "sublist p (after_files s)" by (meson prefix_imp_sublist sublist_order.order.trans)
    then show False using hidden_file_removed[OF \<open>p \<in> hidden_names\<close>] by (simp add: after_files_def)
  qed
qed

lemma hidden_test_removed: "\<not> sublist ''Hidden test'' (replace_all pat_hidden_tests ''[HIDDEN_TESTS]'' s)"
proof (rule replace_all_removes)
  fix y z
  show "rmatch pat_hidden_tests y \<noteq> None" if pre: "prefix ''Hidden test'' y"
  proof -
    obtain r where "y = ''Hidden test'' @ r" using pre unfolding prefix_def by blast
    then have "take (length ''Hidden Test'') y = ''Hidden test''" "length ''Hidden Test'' \<le> length y" by simp_all
    moreover have "str_lower ''Hidden test'' = str_lower ''Hidden Test''" by code_simp
    ultimately have "length ''Hidden Test'' \<le> length y \<and> str_lower (take (length ''Hidden Test'') y) = str_lower ''Hidden Test''"
      by (simp only: simp_thms)
    then show ?thesis unfolding pat_hidden_tests_def rmatch_lit_i using rmatch_Opt_total by simp
  qed
  show "length z < length y" if "rmatch pat_hidden_tests y = Some z"
    using that rmatch_lit_i_shorter unfolding pat_hidden_tests_def by blast
qed (auto simp: str_includes_sublist[symmetric])

lemma pat_comment_dead:
  "replace_all pat_comment t (replace_all pat_assertion ''[HIDDEN_ASSERTION]'' (replace_all pat_hidden_tests ''[HIDDEN_TESTS]'' s)) =
   replace_all pat_assertion ''[HIDDEN_ASSERTION]'' (replace_all pat_hidden_tests ''[HIDDEN_TESTS]'' s)" (is "_ = ?out")
proof (rule replace_all_id)
  fix y assume y: "suffix y ?out"
  have free: "\<not> sublist ''Hidden test'' ?out"
    by (rule replace_all_creates_none[OF _ _ _ _ _ hidden_test_removed]) (auto simp: str_includes_sublist[symmetric])
  show "rmatch pat_comment y = None"
  proof (rule ccontr)
    assume "rmatch pat_comment y \<noteq> None"
    then have "prefix ''// Hidden test'' y" by (auto simp: pat_comment_def rmatch_lit split: if_splits)
    then have "sublist ''Hidden test'' y" by (auto simp: prefix_def sublist_Cons_right)
    then show False using free y by (meson suffix_imp_sublist sublist_order.order.trans)
  qed
qed

text \<open>Two of the six replacements never do anything: the one for stack traces runs after the file
  names it looks for were replaced, and the one that redacts the rest of a line after a comment
  starting with Hidden test runs after these two words were replaced. The sanitizer is equal to
  the one without them, and the text of such a comment is left in the log.\<close>
theorem sanitizer_dead_patterns:
  "apply_patterns sanitize_patterns s =
     apply_patterns [(pat_hidden_path, ''[HIDDEN_TEST_FILE]''), (pat_hidden_file, ''[HIDDEN_TEST_FILE]''),
       (pat_hidden_tests, ''[HIDDEN_TESTS]''), (pat_assertion, ''[HIDDEN_ASSERTION]'')] s
   \<and> sanitize_logs ''// Hidden test: 42'' False = ''// [HIDDEN_TESTS]: 42''"
proof
  show "apply_patterns sanitize_patterns s =
     apply_patterns [(pat_hidden_path, ''[HIDDEN_TEST_FILE]''), (pat_hidden_file, ''[HIDDEN_TEST_FILE]''),
       (pat_hidden_tests, ''[HIDDEN_TESTS]''), (pat_assertion, ''[HIDDEN_ASSERTION]'')] s"
    unfolding apply_sanitize_patterns pat_stack_dead pat_comment_dead
    by (simp add: apply_patterns_def after_files_def)
  show "sanitize_logs ''// Hidden test: 42'' False = ''// [HIDDEN_TESTS]: 42''"
    by code_simp
qed

end
