(* ===== verification/Grading_Results.thy ===== *)
theory Grading_Results
  imports Log_Sanitizer Demo_World
begin

text \<open>
  \<^verbatim>\<open>apps/api/src/lib/grading-results.ts\<close>: how the result of a grading run is
  stored. A preview of the public tests leaves the status of the attempt alone; a final result
  completes or fails it. No other module calls it: the Go worker writes the rows itself
  (\<^verbatim>\<open>Grader_Worker\<close>).
\<close>

definition graded_row :: "time \<Rightarrow> grading_result \<Rightarrow> bool \<Rightarrow> attempt \<Rightarrow> attempt" where
  "graded_row now r isPreview a = a\<lparr>
     a_publicScore := Some (gr_publicScore r), a_hiddenScore := Some (gr_hiddenScore r),
     a_totalPublic := Some (gr_totalPublic r), a_totalHidden := Some (gr_totalHidden r),
     a_gradingLogs := Some (sanitize_logs (gr_logs r) isPreview), a_gradedAt := Some now,
     a_status := (if isPreview then a_status a else if gr_success r then COMPLETED else FAILED) \<rparr>"

definition update_attempt_results ::
  "'w services \<Rightarrow> time \<Rightarrow> id \<Rightarrow> grading_result \<Rightarrow> bool \<Rightarrow> 'w \<Rightarrow> grading_result \<times> 'w" where
  "update_attempt_results S now aid r isPreview w =
    (r\<lparr> gr_logs := sanitize_logs (gr_logs r) isPreview,
        gr_error := (case str_opt (gr_error r) of None \<Rightarrow> None | Some e \<Rightarrow> Some (sanitize_error e)) \<rparr>,
     update_attempt S aid (graded_row now r isPreview) w)"

lemma graded_row_id [simp]: "a_id (graded_row now r p a) = a_id a" "a_examId (graded_row now r p a) = a_examId a"
  "a_candidateId (graded_row now r p a) = a_candidateId a" "a_files (graded_row now r p a) = a_files a"
  "a_status (graded_row now r p a) = (if p then a_status a else if gr_success r then COMPLETED else FAILED)"
  by (simp_all add: graded_row_def)

context services begin

lemma V_update_results [simp]: "V (snd (update_attempt_results S now aid r p w)) =
    w_attempts_update (row_upd aid (graded_row now r p)) (V w)"
  by (simp add: update_attempt_results_def)

end

text \<open>Storing a result decides the outcome only when it is final: a preview keeps the status of the
  attempt, a final result makes it COMPLETED or FAILED by its success flag; the four scores are
  those of the run, the stored log is the sanitized one and the one sent on to the clients is the
  same, and no other row, nor anything else of the row, changes.\<close>
theorem update_attempt_results_effect:
  assumes "services S V" "w_attempts (V w) aid = Some a" "update_attempt_results S now aid r isPreview w = (out, w')"
  shows "w_attempts (V w') = (w_attempts (V w))(aid \<mapsto> a\<lparr>
      a_publicScore := Some (gr_publicScore r), a_hiddenScore := Some (gr_hiddenScore r),
      a_totalPublic := Some (gr_totalPublic r), a_totalHidden := Some (gr_totalHidden r),
      a_gradingLogs := Some (gr_logs out), a_gradedAt := Some now,
      a_status := (if isPreview then a_status a else if gr_success r then COMPLETED else FAILED) \<rparr>)
    \<and> gr_logs out = sanitize_logs (gr_logs r) isPreview
    \<and> w_ks (V w') = w_ks (V w) \<and> w_out (V w') = w_out (V w)"
proof -
  have out: "gr_logs out = sanitize_logs (gr_logs r) isPreview"
    using assms(3) by (auto simp: update_attempt_results_def)
  have "V w' = w_attempts_update (row_upd aid (graded_row now r isPreview)) (V w)"
    using services.V_update_results[OF assms(1), of now aid r isPreview w] assms(3) by simp
  then show ?thesis using assms(2) by (simp add: out graded_row_def)
qed

theorem update_attempt_results_witness:
  "\<exists>out w'. update_attempt_results ref_services 9 ''a1''
      \<lparr> gr_publicScore = 1, gr_hiddenScore = 2, gr_totalPublic = 1, gr_totalHidden = 3, gr_logs = [],
        gr_success = False, gr_error = None \<rparr> False demo_world = (out, w')
     \<and> map_option a_status (w_attempts (ref_view w') ''a1'') = Some FAILED"
proof -
  let ?r = "\<lparr> gr_publicScore = 1, gr_hiddenScore = 2, gr_totalPublic = 1, gr_totalHidden = 3, gr_logs = [],
        gr_success = False, gr_error = None \<rparr>"
  obtain out w' where run: "update_attempt_results ref_services 9 ''a1'' ?r False demo_world = (out, w')" by force
  show ?thesis
    using update_attempt_results_effect[OF ref.services_axioms demo_view(1) run] run by simp
qed

end
