(* ===== verification/Challenge_Validator.thy ===== *)
theory Challenge_Validator
  imports Log_Sanitizer
begin

text \<open>
  \<^verbatim>\<open>apps/api/src/lib/challenge-validator.ts\<close>: the static checks of a challenge before
  it is published. A missing string or dictionary is the empty one; the two agree in every test
  the validator makes.
\<close>

record challenge_input =
  ci_name :: string
  ci_starterFiles :: "(string \<times> string) list"
  ci_publicTests :: string
  ci_hiddenTests :: string
  ci_solutionFiles :: "(string \<times> string) list"

record check =
  ck_name :: string
  ck_passed :: bool
  ck_message :: string

record validation_result =
  vr_isValid :: bool
  vr_errors :: "string list"
  vr_warnings :: "string list"
  vr_checks :: "check list"

definition mk_check :: "string \<Rightarrow> bool \<Rightarrow> string \<Rightarrow> check" where
  "mk_check n p m = \<lparr> ck_name = n, ck_passed = p, ck_message = m \<rparr>"

definition blank :: "string \<Rightarrow> bool" where "blank s = (str_trim s = [])"

fun regex_test :: "atom list \<Rightarrow> string \<Rightarrow> bool" where
  "regex_test r [] = (rmatch r [] \<noteq> None)"
| "regex_test r (c # s) = (rmatch r (c # s) \<noteq> None \<or> regex_test r s)"

definition is_word :: "char \<Rightarrow> bool" where
  "is_word c = (let n = of_char c :: nat in is_digit c \<or> (65 \<le> n \<and> n \<le> 90) \<or> (97 \<le> n \<and> n \<le> 122) \<or> n = 95)"

definition is_quote :: "char \<Rightarrow> bool" where
  "is_quote c = (c = char_of (39 :: nat) \<or> c = char_of (34 :: nat))"

text \<open>\<^verbatim>\<open>expect\([^)]+\)\.toEqual\(\s*['"][\w-]{8,}['"]\s*\)\<close>\<close>
definition pat_hardcoded :: "atom list" where
  "pat_hardcoded = lit ''expect('' @ plus (\<lambda>x. x \<noteq> CHR '')'') @ lit '').toEqual('' @
     [Star is_space, One is_quote] @ replicate 8 (One (\<lambda>x. is_word x \<or> x = CHR ''-'')) @
     [Star (\<lambda>x. is_word x \<or> x = CHR ''-''), One is_quote, Star is_space] @ lit '')''"

definition quoted_app :: "nat \<Rightarrow> string" where
  "quoted_app q = ''require('' @ [char_of q] @ ''../src/app'' @ [char_of q] @ '')''"

definition isolation_check :: "string \<Rightarrow> bool \<Rightarrow> check" where
  "isolation_check n ok = mk_check n ok (if ok then ''Tests use jest.resetModules()'' else ''Missing test isolation'')"

definition validate_challenge :: "challenge_input \<Rightarrow> validation_result" where
  "validate_challenge c = (let
     e1 = (if blank (ci_name c) then [''Challenge name is required''] else []);
     k1 = [mk_check ''Required fields'' (e1 = [])
            (if e1 = [] then ''All required fields present'' else ''Missing required fields'')];
     nfiles = length (ci_starterFiles c);
     e2 = (if nfiles = 0 then [''At least one starter file is required''] else []);
     k2 = [mk_check ''Starter files'' (0 < nfiles) (nat_digits nfiles @ '' starter file(s) found'')];
     pubiso = str_includes (ci_publicTests c) ''jest.resetModules()'';
     e3 = (if blank (ci_publicTests c) then [''Public tests are required''] else []);
     w3 = (if \<not> blank (ci_publicTests c) \<and> \<not> pubiso
           then [''Public tests should use jest.resetModules() in beforeEach for isolation''] else []);
     k3 = (if blank (ci_publicTests c) then [] else [isolation_check ''Public test isolation'' pubiso]) @
          [mk_check ''Public tests'' (ci_publicTests c \<noteq> [])
            (if ci_publicTests c \<noteq> [] then ''Public tests provided'' else ''No public tests'')];
     hidiso = str_includes (ci_hiddenTests c) ''jest.resetModules()'';
     w4 = (if blank (ci_hiddenTests c) then [''Hidden tests are recommended for robust grading'']
           else if \<not> hidiso then [''Hidden tests should use jest.resetModules() in beforeEach for isolation''] else []);
     k4 = (if blank (ci_hiddenTests c) then [] else [isolation_check ''Hidden test isolation'' hidiso]) @
          [mk_check ''Hidden tests'' (ci_hiddenTests c \<noteq> [])
            (if ci_hiddenTests c \<noteq> [] then ''Hidden tests provided'' else ''No hidden tests (recommended)'')];
     allTests = ci_publicTests c @ [newline] @ ci_hiddenTests c;
     w5 = (if regex_test pat_hardcoded allTests
           then [''Tests may contain hardcoded IDs - consider using dynamic data''] else []);
     dyn = (str_includes allTests ''Date.now()'' \<or> str_includes allTests ''Math.random()'' \<or> str_includes allTests ''uuid'');
     k5 = [mk_check ''Dynamic test data'' dyn
            (if dyn then ''Uses dynamic/random test data'' else ''Consider using dynamic test data'')];
     w6 = (if str_includes allTests (quoted_app 39) \<or> str_includes allTests (quoted_app 34) then []
           else [''Tests should import app from ../src/app for consistency'']);
     k7 = (if ci_solutionFiles c \<noteq> []
           then [mk_check ''Solution files provided'' True ''Solution files available for manual validation''] else []);
     w7 = (if ci_solutionFiles c \<noteq> [] then []
           else [''No solution files provided. Consider adding them for thorough testing.'']);
     errors = e1 @ e2 @ e3
   in \<lparr> vr_isValid = (errors = []), vr_errors = errors, vr_warnings = w3 @ w4 @ w5 @ w6 @ w7,
        vr_checks = k1 @ k2 @ k3 @ k4 @ k5 @ k7 \<rparr>)"

definition quick_validate :: "challenge_input \<Rightarrow> validation_result" where
  "quick_validate c = (let
     errors = (if blank (ci_name c) then [''Challenge name is required''] else []) @
              (if ci_starterFiles c = [] then [''Starter files required''] else []) @
              (if blank (ci_publicTests c) then [''Public tests required''] else []);
     pubiso = str_includes (ci_publicTests c) ''jest.resetModules()'';
     hidiso = str_includes (ci_hiddenTests c) ''jest.resetModules()'';
     warnings = (if blank (ci_hiddenTests c) then [''Hidden tests recommended''] else []) @
              (if \<not> pubiso then [''Add jest.resetModules() to public tests''] else []) @
              (if ci_hiddenTests c \<noteq> [] \<and> \<not> hidiso then [''Add jest.resetModules() to hidden tests''] else []);
     n = length (ci_starterFiles c)
   in \<lparr> vr_isValid = (errors = []), vr_errors = errors, vr_warnings = warnings,
        vr_checks =
          [mk_check ''Name'' (ci_name c \<noteq> []) (if ci_name c \<noteq> [] then ci_name c else ''Missing''),
           mk_check ''Starter files'' (n \<noteq> 0) (nat_digits n @ '' files''),
           mk_check ''Public tests'' (ci_publicTests c \<noteq> []) (if ci_publicTests c \<noteq> [] then ''Present'' else ''Missing''),
           mk_check ''Hidden tests'' (ci_hiddenTests c \<noteq> []) (if ci_hiddenTests c \<noteq> [] then ''Present'' else ''Recommended''),
           mk_check ''Public test isolation'' pubiso (if pubiso then ''Good'' else ''Add jest.resetModules()''),
           mk_check ''Hidden test isolation'' (hidiso \<or> ci_hiddenTests c = [])
             (if hidiso then ''Good'' else ''Add jest.resetModules()'')] \<rparr>)"

section \<open>The two validators\<close>

lemma validate_challenge_valid:
  "vr_isValid (validate_challenge c) \<longleftrightarrow>
     \<not> blank (ci_name c) \<and> ci_starterFiles c \<noteq> [] \<and> \<not> blank (ci_publicTests c)"
  by (simp add: validate_challenge_def Let_def)

lemma quick_validate_valid:
  "vr_isValid (quick_validate c) \<longleftrightarrow>
     \<not> blank (ci_name c) \<and> ci_starterFiles c \<noteq> [] \<and> \<not> blank (ci_publicTests c)"
  by (simp add: quick_validate_def Let_def)

lemma blank_iff: "blank s \<longleftrightarrow> (\<forall>c\<in>set s. is_space c)"
proof -
  have "blank s \<longleftrightarrow> (\<forall>c\<in>set (dropWhile is_space s). is_space c)"
    by (simp add: blank_def str_trim_def dropWhile_eq_Nil_conv)
  also have "\<dots> \<longleftrightarrow> (\<forall>c\<in>set s. is_space c)"
    by (metis dropWhile_eq_Nil_conv hd_dropWhile list.set_intros(1) list.exhaust_sel set_dropWhileD)
  finally show ?thesis .
qed

text \<open>The quick validation and the full one accept the same challenges, with the same number of
  errors: those with a name and public tests that are not only white space and at least one starter
  file. The hidden tests, the isolation of the tests and everything else only cause warnings.\<close>
theorem validators_agree:
  "vr_isValid (validate_challenge c) = vr_isValid (quick_validate c)
   \<and> length (vr_errors (validate_challenge c)) = length (vr_errors (quick_validate c))
   \<and> vr_isValid (validate_challenge c) =
       ((\<exists>x\<in>set (ci_name c). \<not> is_space x) \<and> ci_starterFiles c \<noteq> [] \<and> (\<exists>x\<in>set (ci_publicTests c). \<not> is_space x))"
  unfolding validate_challenge_valid quick_validate_valid
  by (auto simp: blank_iff validate_challenge_def quick_validate_def Let_def)

end
