(* ===== verification/Exam_Scheduler.thy ===== *)
theory Exam_Scheduler
  imports Timer_Service
begin

text \<open>
  \<^verbatim>\<open>apps/api/src/lib/exam-scheduler.ts\<close>: the background job that asks the grader to
  warm its pools before an exam and submits the attempts that are still in progress when the
  scheduled end of their exam, or their own time limit and a minute of grace, has passed. A cycle
  runs under a lock with a time to live. The fresh part of a job id is a function of the attempt;
  \<^verbatim>\<open>io\<close> tells whether a socket.io server was handed to the scheduler.
\<close>

definition scheduler_interval_ms :: int where "scheduler_interval_ms = 30 * 1000"
definition scheduler_lock_key :: string where [key_simps]: "scheduler_lock_key = ''exam_scheduler:lock''"
definition scheduler_lock_ttl :: int where "scheduler_lock_ttl = 60"
definition processed_key :: "id \<Rightarrow> time \<Rightarrow> string" where
  [key_simps]: "processed_key eid t = ''exam_scheduler:processed:'' @ eid @ '':'' @ iso_string t"
definition attempt_lock_key :: "id \<Rightarrow> string" where
  [key_simps]: "attempt_lock_key aid = ''scheduler:attempt_lock:'' @ aid"

section \<open>Submitting one attempt\<close>

definition auto_submit_attempt ::
  "'w services \<Rightarrow> time \<Rightarrow> (id \<Rightarrow> string) \<Rightarrow> bool \<Rightarrow> attempt \<Rightarrow> challenge option \<Rightarrow> 'w node \<Rightarrow> 'w node" where
  "auto_submit_attempt S now uuid io a ch st = (case st of (n, w) \<Rightarrow>
    (let w1 = (if io then sv_emit S (attempt_room (a_id a))
           (TimerExpired ''Exam window has closed. Your exam has been automatically submitted.'' (Some ''scheduled_end'')) w
         else w);
         w2 = snd (flush_to_database S now (a_id a) w1);
         fs = or_default (or_else (get_from_buffer S now (a_id a) w2) (a_files a)) [];
         w3 = update_attempt S (a_id a) (\<lambda>r. r\<lparr> a_status := SUBMITTED, a_submittedAt := Some now, a_files := Some fs \<rparr>) w2
     in case ch of
       None \<Rightarrow> (n, w3)
     | Some c \<Rightarrow>
        (case add_grading_job S now (uuid (a_id a)) (full_job (a_id a) fs c) (n_streams n, w3) of
          (_, init, w4) \<Rightarrow> (n\<lparr> n_streams := init \<rparr>, update_attempt S (a_id a) (a_status_update (\<lambda>_. GRADING)) w4))))"

fun auto_submit_each ::
  "'w services \<Rightarrow> time \<Rightarrow> (id \<Rightarrow> string) \<Rightarrow> bool \<Rightarrow> challenge option \<Rightarrow> attempt list \<Rightarrow> 'w node \<Rightarrow> 'w node" where
  "auto_submit_each S now uuid io ch [] st = st"
| "auto_submit_each S now uuid io ch (a # as) st =
     auto_submit_each S now uuid io ch as (auto_submit_attempt S now uuid io a ch st)"

section \<open>The cycle\<close>

definition warmup_exams :: "'w services \<Rightarrow> time \<Rightarrow> 'w \<Rightarrow> exam list" where
  "warmup_exams S now w = t_select (sv_exams S)
     (\<lambda>e. case e_scheduledStartAt e of None \<Rightarrow> False | Some t \<Rightarrow> now \<le> t \<and> t \<le> now + 15 * 60 * 1000) w"

definition request_warmup :: "'w services \<Rightarrow> time \<Rightarrow> 'w \<Rightarrow> 'w" where
  "request_warmup S now w = (let upcoming = warmup_exams S now w in
     if upcoming = [] then w
     else sv_publish S ''pool:warmup'' (PoolWarmup (map e_id upcoming)
       (map c_dependencies (List.map_filter (\<lambda>e. find_challenge S (e_challengeId e) w) upcoming))) w)"

text \<open>The expired exams with, as of the query, their attempts in progress and their challenge.\<close>
definition expired_exams ::
  "'w services \<Rightarrow> time \<Rightarrow> 'w \<Rightarrow> (exam \<times> time \<times> attempt list \<times> challenge option) list" where
  "expired_exams S now w =
    map (\<lambda>e. (e, the (e_scheduledEndAt e),
        t_select (sv_attempts S) (\<lambda>a. a_examId a = e_id e \<and> a_status a = IN_PROGRESS) w,
        find_challenge S (e_challengeId e) w))
      (t_select (sv_exams S) (\<lambda>e. case e_scheduledEndAt e of None \<Rightarrow> False
         | Some t \<Rightarrow> t \<le> now \<and> now - 24 * 60 * 60 * 1000 \<le> t) w)"

definition process_expired_exam ::
  "'w services \<Rightarrow> time \<Rightarrow> (id \<Rightarrow> string) \<Rightarrow> bool \<Rightarrow> exam \<times> time \<times> attempt list \<times> challenge option \<Rightarrow> 'w node \<Rightarrow> 'w node" where
  "process_expired_exam S now uuid io x st = (case x of (e, t, as, ch) \<Rightarrow> (case st of (n, w) \<Rightarrow>
     if truthy_reply (sv_get S now (processed_key (e_id e) t) w) then (n, w)
     else if as = [] then (n, sv_set S now (processed_key (e_id e) t) (Num 1) (Some (24 * 60 * 60)) w)
     else (case auto_submit_each S now uuid io ch as (n, w) of (n', w') \<Rightarrow>
       (n', sv_set S now (processed_key (e_id e) t) (Num 1) (Some (24 * 60 * 60)) w'))))"

fun process_expired_exams ::
  "'w services \<Rightarrow> time \<Rightarrow> (id \<Rightarrow> string) \<Rightarrow> bool \<Rightarrow> (exam \<times> time \<times> attempt list \<times> challenge option) list \<Rightarrow> 'w node \<Rightarrow> 'w node" where
  "process_expired_exams S now uuid io [] st = st"
| "process_expired_exams S now uuid io (x # xs) st =
     process_expired_exams S now uuid io xs (process_expired_exam S now uuid io x st)"

text \<open>Past the individual limit and a minute of grace.\<close>
definition overdue :: "time \<Rightarrow> attempt \<Rightarrow> exam \<Rightarrow> bool" where
  "overdue now a e = (a_startedAt a + e_timeLimit e * 60 * 1000 + 60 * 1000 < now)"

definition fallback_attempt ::
  "'w services \<Rightarrow> time \<Rightarrow> (id \<Rightarrow> string) \<Rightarrow> bool \<Rightarrow> attempt \<times> (exam \<times> challenge option) option \<Rightarrow> 'w node \<Rightarrow> 'w node" where
  "fallback_attempt S now uuid io x st = (case x of (a, ec) \<Rightarrow> (case st of (n, w) \<Rightarrow>
     (case ec of None \<Rightarrow> (n, w)
      | Some (e, ch) \<Rightarrow>
         if overdue now a e
         then (case sv_setnx S now (attempt_lock_key (a_id a)) (Num 1) 300 w of (acquired, w1) \<Rightarrow>
            if \<not> acquired then (n, w1) else auto_submit_attempt S now uuid io a ch (n, w1))
         else (n, w))))"

fun fallback_attempts ::
  "'w services \<Rightarrow> time \<Rightarrow> (id \<Rightarrow> string) \<Rightarrow> bool \<Rightarrow> (attempt \<times> (exam \<times> challenge option) option) list \<Rightarrow> 'w node \<Rightarrow> 'w node" where
  "fallback_attempts S now uuid io [] st = st"
| "fallback_attempts S now uuid io (x # xs) st =
     fallback_attempts S now uuid io xs (fallback_attempt S now uuid io x st)"

definition attempts_in_progress ::
  "'w services \<Rightarrow> 'w \<Rightarrow> (attempt \<times> (exam \<times> challenge option) option) list" where
  "attempts_in_progress S w =
    map (\<lambda>a. (a, map_option (\<lambda>e. (e, find_challenge S (e_challengeId e) w)) (find_exam S (a_examId a) w)))
      (t_select (sv_attempts S) (\<lambda>a. a_status a = IN_PROGRESS) w)"

definition run_scheduler_cycle ::
  "'w services \<Rightarrow> time \<Rightarrow> int \<Rightarrow> (id \<Rightarrow> string) \<Rightarrow> bool \<Rightarrow> 'w node \<Rightarrow> 'w node" where
  "run_scheduler_cycle S now pid uuid io st = (case st of (n, w) \<Rightarrow>
    (case sv_setnx S now scheduler_lock_key (Num pid) scheduler_lock_ttl w of (acquired, w0) \<Rightarrow>
       if \<not> acquired then (n, w0)
       else
         (let w1 = request_warmup S now w0;
              (n2, w2) = process_expired_exams S now uuid io (expired_exams S now w1) (n, w1);
              (n3, w3) = fallback_attempts S now uuid io (attempts_in_progress S w2) (n2, w2)
          in (n3, sv_del S scheduler_lock_key w3))))"

section \<open>The cycle in steps\<close>

text \<open>The cycle awaits at every query and every attempt, so requests, other servers and, once the
  lock has run out, other cycles come between. Where a cycle stands, with the rows it has read and not yet
  worked off: before the announcement, before the query of the ended exams, at the next of them, within one, before the query of all
  attempts in progress, at the next of those; or within a manual processing of one exam.\<close>
type_synonym expired_entry = "exam \<times> time \<times> attempt list \<times> challenge option"

datatype scheduler_at = At_rest | At_warmup | At_query
  | At_exams "expired_entry list" | At_attempts expired_entry "expired_entry list"
  | At_fallback | At_overdue "(attempt \<times> (exam \<times> challenge option) option) list"
  | At_manual "challenge option" "attempt list"

definition scheduler_step ::
  "'w services \<Rightarrow> time \<Rightarrow> int \<Rightarrow> (id \<Rightarrow> string) \<Rightarrow> bool \<Rightarrow> scheduler_at \<times> 'w node \<Rightarrow> scheduler_at \<times> 'w node" where
  "scheduler_step S now pid uuid io p = (case p of (l, n, w) \<Rightarrow> (case l of
     At_rest \<Rightarrow> (case sv_setnx S now scheduler_lock_key (Num pid) scheduler_lock_ttl w of (acquired, w0) \<Rightarrow>
        (if acquired then At_warmup else At_rest, n, w0))
   | At_warmup \<Rightarrow> (At_query, n, request_warmup S now w)
   | At_query \<Rightarrow> (At_exams (expired_exams S now w), n, w)
   | At_exams [] \<Rightarrow> (At_fallback, n, w)
   | At_exams ((e, t, as, ch) # xs) \<Rightarrow>
       if truthy_reply (sv_get S now (processed_key (e_id e) t) w) then (At_exams xs, n, w)
       else if as = [] then (At_exams xs, n, sv_set S now (processed_key (e_id e) t) (Num 1) (Some (24 * 60 * 60)) w)
       else (At_attempts (e, t, as, ch) xs, n, w)
   | At_attempts (e, t, [], ch) xs \<Rightarrow> (At_exams xs, n, sv_set S now (processed_key (e_id e) t) (Num 1) (Some (24 * 60 * 60)) w)
   | At_attempts (e, t, a # as, ch) xs \<Rightarrow> (At_attempts (e, t, as, ch) xs, auto_submit_attempt S now uuid io a ch (n, w))
   | At_fallback \<Rightarrow> (At_overdue (attempts_in_progress S w), n, w)
   | At_overdue [] \<Rightarrow> (At_rest, n, sv_del S scheduler_lock_key w)
   | At_overdue (x # xs) \<Rightarrow> (At_overdue xs, fallback_attempt S now uuid io x (n, w))
   | At_manual ch [] \<Rightarrow> (At_rest, n, w)
   | At_manual ch (a # as) \<Rightarrow> (At_manual ch as, auto_submit_attempt S now uuid io a ch (n, w))))"

section \<open>Manual processing, start and stop\<close>

definition process_exam_end ::
  "'w services \<Rightarrow> time \<Rightarrow> (id \<Rightarrow> string) \<Rightarrow> bool \<Rightarrow> id \<Rightarrow> 'w node \<Rightarrow> nat result \<times> 'w node" where
  "process_exam_end S now uuid io eid st = (case st of (n, w) \<Rightarrow>
     (case find_exam S eid w of
        None \<Rightarrow> (Inl (PlainError ''Exam not found''), (n, w))
      | Some e \<Rightarrow>
         (let as = t_select (sv_attempts S) (\<lambda>a. a_examId a = eid \<and> a_status a = IN_PROGRESS) w
          in (Inr (length as), auto_submit_each S now uuid io (find_challenge S (e_challengeId e) w) as (n, w)))))"

text \<open>Its first step: the query; the answer is the number of the attempts read.\<close>
definition exam_end_query :: "'w services \<Rightarrow> id \<Rightarrow> 'w \<Rightarrow> scheduler_at" where
  "exam_end_query S eid w = (case find_exam S eid w of None \<Rightarrow> At_rest
     | Some e \<Rightarrow> At_manual (find_challenge S (e_challengeId e) w)
         (t_select (sv_attempts S) (\<lambda>a. a_examId a = eid \<and> a_status a = IN_PROGRESS) w))"

text \<open>The interval is set or null; starting runs one cycle at once.\<close>
definition start_exam_scheduler ::
  "'w services \<Rightarrow> time \<Rightarrow> int \<Rightarrow> (id \<Rightarrow> string) \<Rightarrow> bool \<Rightarrow> 'w node \<Rightarrow> bool \<times> 'w node" where
  "start_exam_scheduler S now pid uuid running st =
     (if running then (True, st) else (True, run_scheduler_cycle S now pid uuid True st))"

definition stop_exam_scheduler :: "bool \<Rightarrow> bool" where
  "stop_exam_scheduler running = False"

definition scheduler_status :: "bool \<Rightarrow> bool \<times> int" where
  "scheduler_status running = (running, scheduler_interval_ms)"

section \<open>A cycle that nothing interrupts\<close>

definition scheduler_next ::
  "'w services \<Rightarrow> time \<Rightarrow> int \<Rightarrow> (id \<Rightarrow> string) \<Rightarrow> bool \<Rightarrow> scheduler_at \<times> 'w node \<Rightarrow> scheduler_at \<times> 'w node \<Rightarrow> bool" where
  "scheduler_next S now pid uuid io p q = (q = scheduler_step S now pid uuid io p)"

lemma scheduler_first:
  "(scheduler_next S now pid uuid io)\<^sup>*\<^sup>* (scheduler_step S now pid uuid io p) q \<Longrightarrow> (scheduler_next S now pid uuid io)\<^sup>*\<^sup>* p q"
  by (erule converse_rtranclp_into_rtranclp[rotated]) (simp add: scheduler_next_def)

lemma attempts_steps:
  "(scheduler_next S now pid uuid io)\<^sup>*\<^sup>* (At_attempts (e, t, as, ch) xs, st)
     (At_exams xs, case auto_submit_each S now uuid io ch as st of (n, w) \<Rightarrow>
        (n, sv_set S now (processed_key (e_id e) t) (Num 1) (Some (24 * 60 * 60)) w))"
proof (induction as arbitrary: st)
  case Nil
  show ?case by (rule scheduler_first) (cases st, simp add: scheduler_step_def)
next
  case (Cons a as)
  show ?case by (rule scheduler_first) (use Cons in \<open>cases st, simp add: scheduler_step_def\<close>)
qed

lemma exams_steps:
  "(scheduler_next S now pid uuid io)\<^sup>*\<^sup>* (At_exams xs, st) (At_fallback, process_expired_exams S now uuid io xs st)"
proof (induction xs arbitrary: st)
  case Nil
  show ?case by (rule scheduler_first) (cases st, simp add: scheduler_step_def)
next
  case (Cons x xs)
  obtain e t as ch where x: "x = (e, t, as, ch)" by (cases x) auto
  obtain n w where st: "st = (n, w)" by force
  show ?case
  proof (rule scheduler_first)
    show "(scheduler_next S now pid uuid io)\<^sup>*\<^sup>* (scheduler_step S now pid uuid io (At_exams (x # xs), st))
        (At_fallback, process_expired_exams S now uuid io (x # xs) st)"
      using rtranclp_trans[OF attempts_steps[of S now pid uuid io e t as ch xs "(n, w)"] Cons.IH] Cons.IH
      by (simp add: x st scheduler_step_def process_expired_exam_def)
  qed
qed

lemma overdue_steps:
  "(scheduler_next S now pid uuid io)\<^sup>*\<^sup>* (At_overdue xs, st)
     (At_rest, case fallback_attempts S now uuid io xs st of (n, w) \<Rightarrow> (n, sv_del S scheduler_lock_key w))"
proof (induction xs arbitrary: st)
  case Nil
  show ?case by (rule scheduler_first) (cases st, simp add: scheduler_step_def)
next
  case (Cons x xs)
  show ?case by (rule scheduler_first) (use Cons in \<open>cases st, simp add: scheduler_step_def\<close>)
qed

lemma manual_steps:
  "(scheduler_next S now pid uuid io)\<^sup>*\<^sup>* (At_manual ch as, st) (At_rest, auto_submit_each S now uuid io ch as st)"
proof (induction as arbitrary: st)
  case Nil
  show ?case by (rule scheduler_first) (cases st, simp add: scheduler_step_def)
next
  case (Cons a as)
  show ?case by (rule scheduler_first) (use Cons in \<open>cases st, simp add: scheduler_step_def\<close>)
qed

lemma cycle_steps:
  "(scheduler_next S now pid uuid io)\<^sup>*\<^sup>* (scheduler_step S now pid uuid io (At_rest, st)) (At_rest, run_scheduler_cycle S now pid uuid io st)"
proof -
  obtain n w where st: "st = (n, w)" by force
  obtain ok w0 where l: "sv_setnx S now scheduler_lock_key (Num pid) scheduler_lock_ttl w = (ok, w0)" by force
  define w1 where "w1 = request_warmup S now w0"
  obtain n2 w2 where e: "process_expired_exams S now uuid io (expired_exams S now w1) (n, w1) = (n2, w2)"
    by (cases "process_expired_exams S now uuid io (expired_exams S now w1) (n, w1)") auto
  have first: "(scheduler_next S now pid uuid io)\<^sup>*\<^sup>* (At_warmup, n, w0) (At_fallback, n2, w2)"
    using exams_steps[of S now pid uuid io "expired_exams S now w1" "(n, w1)"]
    by (intro scheduler_first[of S now pid uuid io "(At_warmup, n, w0)"])
      (simp add: scheduler_step_def w1_def[symmetric], intro scheduler_first[of S now pid uuid io "(At_query, n, w1)"],
        simp add: scheduler_step_def e)
  have second: "(scheduler_next S now pid uuid io)\<^sup>*\<^sup>* (At_fallback, n2, w2)
      (At_rest, case fallback_attempts S now uuid io (attempts_in_progress S w2) (n2, w2) of (n, w) \<Rightarrow> (n, sv_del S scheduler_lock_key w))"
    by (rule scheduler_first) (simp add: scheduler_step_def overdue_steps)
  show ?thesis
    using rtranclp_trans[OF first second]
    by (cases ok) (simp_all add: st scheduler_step_def run_scheduler_cycle_def l w1_def[symmetric] e split: prod.split)
qed

section \<open>What a cycle does to the attempts\<close>

lemma scheduler_keys [simp]:
  "\<not> is_queue_key (processed_key e t)" "\<not> is_queue_key (attempt_lock_key a)" "\<not> is_queue_key scheduler_lock_key"
  "processed_key e t \<noteq> autosave_dirty" "attempt_lock_key a \<noteq> autosave_dirty" "scheduler_lock_key \<noteq> autosave_dirty"
  "processed_key e t \<noteq> autosave_key a" "autosave_key a \<noteq> processed_key e t"
  "attempt_lock_key a \<noteq> processed_key e t" "processed_key e t \<noteq> attempt_lock_key a"
  "scheduler_lock_key \<noteq> attempt_lock_key a" "attempt_lock_key a \<noteq> scheduler_lock_key"
  "scheduler_lock_key \<noteq> processed_key e t" "processed_key e t \<noteq> scheduler_lock_key"
  "attempt_lock_key a = attempt_lock_key b \<longleftrightarrow> a = b"
  "autosave_key a \<noteq> scheduler_lock_key" "autosave_key a \<noteq> attempt_lock_key b"
  by (simp_all add: is_queue_key_def key_simps)

lemma processed_key_inj: "CHR '':'' \<notin> set e \<Longrightarrow> CHR '':'' \<notin> set e' \<Longrightarrow> processed_key e t = processed_key e' t' \<Longrightarrow> e = e'"
proof -
  assume c: "CHR '':'' \<notin> set e" "CHR '':'' \<notin> set e'" and k: "processed_key e t = processed_key e' t'"
  have "takeWhile (\<lambda>x. x \<noteq> CHR '':'') (x @ '':'' @ y) = x" if "CHR '':'' \<notin> set x" for x y
    using that by (induction x) auto
  then show "e = e'" using c k unfolding key_simps by (metis same_append_eq)
qed

text \<open>The row of an attempt after an automatic submission, and a change of the world that submits
  the attempts of \<^verbatim>\<open>D\<close>: their rows are the submitted ones, all others are untouched,
  and no key outside \<^verbatim>\<open>K\<close> changes.\<close>
definition auto_row :: "time \<Rightarrow> world \<Rightarrow> attempt \<Rightarrow> attempt" where
  "auto_row now W a = a\<lparr> a_status := (if challenge_of W a = None then SUBMITTED else GRADING),
     a_submittedAt := Some now, a_files := Some (final_files now W None a) \<rparr>"

definition queue_and_dirty :: "string set" where
  "queue_and_dirty = insert autosave_dirty {k. is_queue_key k}"

text \<open>The job queued for an attempt with a challenge, and the jobs a change of the world appends for
  the attempts of \<^verbatim>\<open>D\<close>, one for each of them in some order.\<close>
definition auto_jobs :: "time \<Rightarrow> world \<Rightarrow> id \<Rightarrow> grading_job list" where
  "auto_jobs now W k = (case w_attempts W k of None \<Rightarrow> []
     | Some a \<Rightarrow> (case challenge_of W a of None \<Rightarrow> [] | Some c \<Rightarrow> [full_job k (final_files now W None a) c]))"

definition queues_for :: "time \<Rightarrow> id set \<Rightarrow> world \<Rightarrow> world \<Rightarrow> bool" where
  "queues_for now D W W' = (stream_key now (w_ks W) stream_high \<longrightarrow> stream_key now (w_ks W') stream_high \<and>
     (\<exists>ks. distinct ks \<and> set ks = D \<and>
        queue_jobs now W' stream_high = queue_jobs now W stream_high @ concat (map (auto_jobs now W) ks)))"

lemma queues_for_cong: "ks_live now (w_ks W'') stream_high = ks_live now (w_ks W') stream_high \<Longrightarrow>
    queues_for now D W W'' = queues_for now D W W'"
  by (simp add: queues_for_def stream_key_def queue_jobs_def ks_stream_def)

lemma queues_for_refl [simp]: "queues_for now {} W W"
  by (simp add: queues_for_def)

lemma queues_for_same: "ks_live now (w_ks W') stream_high = ks_live now (w_ks W) stream_high \<Longrightarrow> queues_for now {} W W'"
  by (simp add: queues_for_cong[of now W' W])

lemma stream_high_key [simp]: "processed_key e t \<noteq> stream_high" "attempt_lock_key a \<noteq> stream_high" "scheduler_lock_key \<noteq> stream_high"
  "stream_high \<noteq> processed_key e t" "stream_high \<noteq> attempt_lock_key a" "stream_high \<noteq> scheduler_lock_key"
  by (simp_all add: key_simps)

lemma queues_for_trans:
  assumes "queues_for now D W W1" "queues_for now E W1 W2" "D \<inter> E = {}" "\<And>k. k \<in> E \<Longrightarrow> auto_jobs now W1 k = auto_jobs now W k"
  shows "queues_for now (D \<union> E) W W2"
  unfolding queues_for_def
proof (intro impI)
  assume "stream_key now (w_ks W) stream_high"
  then obtain ks where ks: "stream_key now (w_ks W1) stream_high" "distinct ks" "set ks = D"
    "queue_jobs now W1 stream_high = queue_jobs now W stream_high @ concat (map (auto_jobs now W) ks)"
    using assms(1) by (auto simp: queues_for_def)
  then obtain ls where ls: "stream_key now (w_ks W2) stream_high" "distinct ls" "set ls = E"
    "queue_jobs now W2 stream_high = queue_jobs now W1 stream_high @ concat (map (auto_jobs now W1) ls)"
    using assms(2) by (auto simp: queues_for_def)
  have "concat (map (auto_jobs now W1) ls) = concat (map (auto_jobs now W) ls)"
    by (rule arg_cong[of _ _ concat]) (use ls(3) assms(4) in simp)
  then show "stream_key now (w_ks W2) stream_high \<and> (\<exists>ks. distinct ks \<and> set ks = D \<union> E \<and>
        queue_jobs now W2 stream_high = queue_jobs now W stream_high @ concat (map (auto_jobs now W) ks))"
    using ks ls assms(3) by (intro conjI exI[of _ "ks @ ls"]) simp_all
qed

lemma stream_key_expire: "k \<noteq> k' \<Longrightarrow> stream_key now (ks_expire now k' ttl ks) k = stream_key now ks k"
  by (simp add: stream_key_def)

lemma stream_key_add_job: "stream_key now ks stream_high \<Longrightarrow> stream_key now (add_job_ks i now u sid job ks) stream_high"
  by (simp add: add_job_ks_def Let_def init_ks_stream(2) stream_key_expire)

definition submits :: "time \<Rightarrow> id set \<Rightarrow> string set \<Rightarrow> world \<Rightarrow> world \<Rightarrow> bool" where
  "submits now D K W W' =
    ((\<forall>k. w_attempts W' k = (if k \<in> D then map_option (auto_row now W) (w_attempts W k) else w_attempts W k)) \<and>
     w_exams W' = w_exams W \<and> w_challenges W' = w_challenges W \<and> w_users W' = w_users W \<and> queues_for now D W W' \<and>
     (\<forall>t k. k \<notin> K \<longrightarrow> ks_live t (w_ks W') k = ks_live t (w_ks W) k))"

lemma submits_refl [simp]: "submits now {} K W W"
  by (simp add: submits_def)

lemma submits_same_row:
  assumes "submits now D K W W'" "autosave_key (a_id a) \<notin> K"
  shows "auto_row now W' a = auto_row now W a" "final_files now W' None a = final_files now W None a"
    "challenge_of W' a = challenge_of W a"
proof -
  have "ks_live now (w_ks W') (autosave_key (a_id a)) = ks_live now (w_ks W) (autosave_key (a_id a))"
    using assms by (simp add: submits_def)
  then have "buffered now W' (a_id a) = buffered now W (a_id a)"
    by (simp add: buffered_def ks_get_def)
  then show "final_files now W' None a = final_files now W None a" by (simp add: final_files_def)
  show "challenge_of W' a = challenge_of W a"
    using assms(1) by (simp add: submits_def challenge_of_def split: option.split)
  then show "auto_row now W' a = auto_row now W a"
    using \<open>final_files now W' None a = final_files now W None a\<close> by (simp add: auto_row_def)
qed

text \<open>Whether an attempt id is usable: its buffer is not the dirty set.\<close>
lemma queue_and_dirty_keys [simp]:
  "autosave_key a \<in> queue_and_dirty \<longleftrightarrow> a = ''dirty''"
  "processed_key e t \<notin> queue_and_dirty" "attempt_lock_key a \<notin> queue_and_dirty"
  "scheduler_lock_key \<notin> queue_and_dirty"
  by (auto simp: queue_and_dirty_def)

lemma submits_trans:
  assumes "submits now D K W W1" "submits now E L W1 W2" "D \<inter> E = {}"
    "\<And>k a. k \<in> E \<Longrightarrow> w_attempts W k = Some a \<Longrightarrow> autosave_key (a_id a) \<notin> K"
  shows "submits now (D \<union> E) (K \<union> L) W W2"
  unfolding submits_def
proof (intro conjI allI impI)
  fix k
  show "w_attempts W2 k = (if k \<in> D \<union> E then map_option (auto_row now W) (w_attempts W k) else w_attempts W k)"
  proof (cases "k \<in> E")
    case True
    then have "w_attempts W1 k = w_attempts W k" using assms(1,3) by (auto simp: submits_def)
    then show ?thesis using assms(2) True assms(4)[OF True] submits_same_row[OF assms(1)]
      by (cases "w_attempts W k") (auto simp: submits_def)
  next
    case False
    then show ?thesis using assms(1,2) by (simp add: submits_def)
  qed
next
  show "queues_for now (D \<union> E) W W2"
  proof (rule queues_for_trans[of now D W W1 E W2])
    fix k assume k: "k \<in> E"
    then have "w_attempts W1 k = w_attempts W k" using assms(1,3) by (auto simp: submits_def)
    then show "auto_jobs now W1 k = auto_jobs now W k" using assms(4)[OF k] submits_same_row[OF assms(1)]
      by (auto simp: auto_jobs_def split: option.split)
  qed (use assms in \<open>simp_all add: submits_def\<close>)
qed (use assms(1,2) in \<open>simp_all add: submits_def\<close>)

context services begin

lemma auto_submit_submits:
  assumes "w_attempts (V w) (a_id a) = Some a" "a_id a \<noteq> ''dirty''" "ch = challenge_of (V w) a"
  shows "submits now {a_id a} queue_and_dirty (V w) (V (snd (auto_submit_attempt S now uuid io a ch (n, w))))"
proof -
  define w1 where "w1 = (if io then sv_emit S (attempt_room (a_id a))
           (TimerExpired ''Exam window has closed. Your exam has been automatically submitted.'' (Some ''scheduled_end'')) w else w)"
  define w2 where "w2 = snd (flush_to_database S now (a_id a) w1)"
  define fs where "fs = or_default (or_else (buffered now (V w2) (a_id a)) (a_files a)) []"
  define w3 where "w3 = update_attempt S (a_id a) (\<lambda>r. r\<lparr> a_status := SUBMITTED, a_submittedAt := Some now, a_files := Some fs \<rparr>) w2"
  have high: "ks_live now (w_ks (V w3)) stream_high = ks_live now (w_ks (V w)) stream_high"
    by (simp add: w3_def w2_def w1_def flushed_other_key key_simps)
  have v2: "V w2 = flushed now (a_id a) (V w1)" by (simp add: w2_def)
  have b: "buffered now (V w2) (a_id a) = buffered now (V w) (a_id a)" using assms(2) by (simp add: v2 w1_def)
  have fs: "fs = final_files now (V w) None a" by (simp add: fs_def final_files_def b)
  have fs': "or_default (or_else (buffered now (flushed now (a_id a) (V w1)) (a_id a)) (a_files a)) [] = fs"
    by (simp add: fs_def v2)
  have att2: "w_attempts (V w2) k = (if k = a_id a \<and> buffered now (V w) k \<noteq> None
      then Some (a\<lparr>a_files := buffered now (V w) k\<rparr>) else w_attempts (V w) k)" for k
    using assms(1) by (auto simp: v2 w1_def flushed_row)
  have same2: "w_exams (V w2) = w_exams (V w)" "w_challenges (V w2) = w_challenges (V w)" "w_users (V w2) = w_users (V w)"
    by (simp_all add: v2 w1_def)
  have ks2: "k \<notin> queue_and_dirty \<Longrightarrow> ks_live t (w_ks (V w2)) k = ks_live t (w_ks (V w)) k" for t k
    by (simp add: v2 w1_def flushed_other_key queue_and_dirty_def)
  show ?thesis
  proof (cases ch)
    case None
    have "snd (auto_submit_attempt S now uuid io a ch (n, w)) = w3"
      using None by (simp add: auto_submit_attempt_def Let_def w1_def[symmetric] w2_def[symmetric] v2 fs' w3_def)
    then show ?thesis using assms(1,3) None same2 ks2 att2
      using high[unfolded w3_def]
      by (auto simp: submits_def w3_def auto_row_def fs queues_for_def auto_jobs_def queue_jobs_def stream_key_def ks_stream_def intro!: exI[of _ "[a_id a]"])
  next
    case (Some c)
    obtain jid st where add: "add_grading_job S now (uuid (a_id a)) (full_job (a_id a) fs c) (n_streams n, w3) = (jid, st)"
      by (cases "add_grading_job S now (uuid (a_id a)) (full_job (a_id a) fs c) (n_streams n, w3)") auto
    obtain sid where v4: "V (snd st) = w_ks_update (add_job_ks (n_streams n) now (uuid (a_id a)) sid (full_job (a_id a) fs c)) (V w3)"
      using add_job_V(3)[OF add] by auto
    have e: "snd (auto_submit_attempt S now uuid io a ch (n, w)) = update_attempt S (a_id a) (a_status_update (\<lambda>_. GRADING)) (snd st)"
      using Some add by (simp add: auto_submit_attempt_def Let_def w1_def[symmetric] w2_def[symmetric] v2 fs' w3_def[symmetric] split: prod.split)
    moreover have "queues_for now {a_id a} (V w) (V (snd (auto_submit_attempt S now uuid io a ch (n, w))))"
      unfolding queues_for_def
    proof (intro impI conjI exI[of _ "[a_id a]"])
      assume q: "stream_key now (w_ks (V w)) stream_high"
      then have q3: "stream_key now (w_ks (V w3)) stream_high" using high by (simp add: stream_key_def)
      have "challenge_of (V w) a = Some c" by (rule trans[OF assms(3)[symmetric] Some])
      then have j: "auto_jobs now (V w) (a_id a) = [full_job (a_id a) fs c]" by (simp add: auto_jobs_def fs assms(1))
      have "queue_jobs now (V w3) stream_high = queue_jobs now (V w) stream_high" using high by (simp add: queue_jobs_def ks_stream_def)
      then show "queue_jobs now (V (snd (auto_submit_attempt S now uuid io a ch (n, w)))) stream_high =
          queue_jobs now (V w) stream_high @ concat (map (auto_jobs now (V w)) [a_id a])"
        using add_job_stream[OF q3] e by (simp add: j v4 queue_jobs_def)
    next
      assume q: "stream_key now (w_ks (V w)) stream_high"
      then have "stream_key now (w_ks (V w3)) stream_high" using high by (simp add: stream_key_def)
      then show "stream_key now (w_ks (V (snd (auto_submit_attempt S now uuid io a ch (n, w))))) stream_high"
        by (simp add: e v4 stream_key_add_job)
    qed simp_all
    ultimately show ?thesis using assms(1,3) Some same2 ks2 att2 e
      by (auto simp: submits_def w3_def auto_row_def fs v4 queue_and_dirty_def)
  qed
qed

end

text \<open>The attempts selected by a query, still as the query saw them.\<close>
definition current :: "world \<Rightarrow> challenge option \<Rightarrow> attempt list \<Rightarrow> bool" where
  "current W ch as = (distinct (map a_id as) \<and>
     (\<forall>a\<in>set as. w_attempts W (a_id a) = Some a \<and> a_id a \<noteq> ''dirty'' \<and> challenge_of W a = ch))"

lemma submits_current:
  assumes "submits now D K W W'" "current W ch as" "D \<inter> a_id ` set as = {}"
  shows "current W' ch as"
proof -
  have "challenge_of W' a = challenge_of W a" for a
    using assms(1) by (simp add: submits_def challenge_of_def split: option.split)
  then show ?thesis using assms unfolding current_def submits_def by fastforce
qed

context services begin

lemma auto_submit_each_submits:
  "current (V w) ch as \<Longrightarrow>
   submits now (a_id ` set as) queue_and_dirty (V w) (V (snd (auto_submit_each S now uuid io ch as (n, w))))"
proof (induction as arbitrary: n w)
  case Nil
  then show ?case by simp
next
  case (Cons a as)
  obtain n1 w1 where st: "auto_submit_attempt S now uuid io a ch (n, w) = (n1, w1)"
    by (cases "auto_submit_attempt S now uuid io a ch (n, w)") auto
  have one: "submits now {a_id a} queue_and_dirty (V w) (V w1)"
    using auto_submit_submits[of w a ch now uuid io n] Cons.prems st by (simp add: current_def)
  have "current (V w1) ch as"
    by (rule submits_current[OF one]) (use Cons.prems in \<open>auto simp: current_def\<close>)
  then have rest: "submits now (a_id ` set as) queue_and_dirty (V w1) (V (snd (auto_submit_each S now uuid io ch as (n1, w1))))"
    by (rule Cons.IH)
  have "submits now ({a_id a} \<union> a_id ` set as) (queue_and_dirty \<union> queue_and_dirty) (V w)
      (V (snd (auto_submit_each S now uuid io ch as (n1, w1))))"
    by (rule submits_trans[OF one rest]) (use Cons.prems in \<open>auto simp: current_def\<close>)
  then show ?case using st by simp
qed

end

text \<open>The attempts an entry of the list of expired exams submits.\<close>
definition entry_due :: "time \<Rightarrow> world \<Rightarrow> exam \<times> time \<times> attempt list \<times> challenge option \<Rightarrow> id set" where
  "entry_due now W x = (case x of (e, t, as, ch) \<Rightarrow>
     if truthy_reply (ks_get now (w_ks W) (processed_key (e_id e) t)) then {} else a_id ` set as)"

definition entry_key :: "exam \<times> time \<times> attempt list \<times> challenge option \<Rightarrow> string" where
  "entry_key x = processed_key (e_id (fst x)) (fst (snd x))"

definition entry_ok :: "world \<Rightarrow> exam \<times> time \<times> attempt list \<times> challenge option \<Rightarrow> bool" where
  "entry_ok W x = (current W (snd (snd (snd x))) (fst (snd (snd x))) \<and>
     (\<forall>a\<in>set (fst (snd (snd x))). a_examId a = e_id (fst x)) \<and> CHR '':'' \<notin> set (e_id (fst x)))"

lemma submits_set_key:
  assumes "submits now D K W W'" "k \<noteq> stream_high"
  shows "submits now D (insert k K) W (w_ks_update (ks_set t k p ttl) W')"
  using assms queues_for_cong[of now "w_ks_update (ks_set t k p ttl) W'" W'] by (simp add: submits_def)

lemma submits_entry:
  assumes "submits now D K W W'" "entry_key x \<notin> K"
  shows "entry_due now W' x = entry_due now W x"
proof -
  obtain e t as ch where x: "x = (e, t, as, ch)" by (cases x) auto
  have "ks_live now (w_ks W') (processed_key (e_id e) t) = ks_live now (w_ks W) (processed_key (e_id e) t)"
    using assms x by (simp add: submits_def entry_key_def)
  then show ?thesis by (simp add: x entry_due_def ks_get_def)
qed

context services begin

lemma process_expired_exam_submits:
  assumes "entry_ok (V w) x"
  shows "submits now (entry_due now (V w) x) (insert (entry_key x) queue_and_dirty) (V w)
     (V (snd (process_expired_exam S now uuid io x (n, w))))"
proof -
  obtain e t as ch where x: "x = (e, t, as, ch)" by (cases x) auto
  obtain n1 w1 where st: "auto_submit_each S now uuid io ch as (n, w) = (n1, w1)"
    by (cases "auto_submit_each S now uuid io ch as (n, w)") auto
  have "submits now (a_id ` set as) queue_and_dirty (V w) (V w1)"
    using auto_submit_each_submits[of w ch as now uuid io n] assms st by (simp add: x entry_ok_def)
  then show ?thesis using submits_set_key[of now "{}" queue_and_dirty "V w" "V w"] submits_set_key[of now _ queue_and_dirty "V w" "V w1"]
    by (auto simp: x process_expired_exam_def entry_due_def entry_key_def st)
qed

lemma process_expired_exams_submits:
  assumes "\<forall>x\<in>set xs. entry_ok (V w) x" "distinct (map (\<lambda>x. e_id (fst x)) xs)"
  shows "submits now (\<Union>x\<in>set xs. entry_due now (V w) x) (entry_key ` set xs \<union> queue_and_dirty) (V w)
     (V (snd (process_expired_exams S now uuid io xs (n, w))))"
  using assms
proof (induction xs arbitrary: n w)
  case Nil
  then show ?case by (simp add: submits_def)
next
  case (Cons x xs)
  obtain n1 w1 where st: "process_expired_exam S now uuid io x (n, w) = (n1, w1)"
    by (cases "process_expired_exam S now uuid io x (n, w)") auto
  have one: "submits now (entry_due now (V w) x) (insert (entry_key x) queue_and_dirty) (V w) (V w1)"
    using process_expired_exam_submits[of w x now uuid io n] Cons.prems(1) st by simp
  have due: "entry_due now (V w) y \<subseteq> {k. \<exists>a. w_attempts (V w) k = Some a \<and> a_examId a = e_id (fst y) \<and> k \<noteq> ''dirty'' \<and> a_id a = k}"
    if "y \<in> set (x # xs)" for y
  proof
    fix k assume "k \<in> entry_due now (V w) y"
    then obtain b where "b \<in> set (fst (snd (snd y)))" "k = a_id b"
      by (cases y) (auto simp: entry_due_def split: if_splits)
    moreover have "entry_ok (V w) y" using Cons.prems(1) that by blast
    ultimately show "k \<in> {k. \<exists>a. w_attempts (V w) k = Some a \<and> a_examId a = e_id (fst y) \<and> k \<noteq> ''dirty'' \<and> a_id a = k}"
      by (simp add: entry_ok_def current_def)
  qed
  have apart: "entry_due now (V w) x \<inter> a_id ` set (fst (snd (snd y))) = {}" "entry_key y \<notin> insert (entry_key x) queue_and_dirty"
    if y: "y \<in> set xs" for y
  proof -
    have ne: "e_id (fst y) \<noteq> e_id (fst x)" proof -
      have "e_id (fst x) \<notin> (\<lambda>x. e_id (fst x)) ` set xs" using Cons.prems(2) by simp
      then show ?thesis by (metis (mono_tags) imageI y)
    qed
    have ok: "entry_ok (V w) x" "entry_ok (V w) y" using Cons.prems(1) y by auto
    show "entry_key y \<notin> insert (entry_key x) queue_and_dirty"
      using ne ok processed_key_inj[of "e_id (fst y)" "e_id (fst x)"] by (auto simp: entry_key_def entry_ok_def)
    show "entry_due now (V w) x \<inter> a_id ` set (fst (snd (snd y))) = {}"
    proof (rule ccontr)
      assume "\<not> ?thesis"
      then obtain b where b: "a_id b \<in> entry_due now (V w) x" "b \<in> set (fst (snd (snd y)))" by auto
      obtain a where "w_attempts (V w) (a_id b) = Some a" "a_examId a = e_id (fst x)" using due[of x] b(1) by auto
      moreover have "w_attempts (V w) (a_id b) = Some b" "a_examId b = e_id (fst y)"
        using ok(2) b(2) by (simp_all add: entry_ok_def current_def)
      ultimately show False using ne by simp
    qed
  qed
  have ok1: "\<forall>y\<in>set xs. entry_ok (V w1) y"
  proof
    fix y assume y: "y \<in> set xs"
    have "entry_ok (V w) y" using Cons.prems(1) y by simp
    then show "entry_ok (V w1) y"
      using submits_current[OF one _ apart(1)[OF y]] by (simp add: entry_ok_def)
  qed
  have d1: "(\<Union>y\<in>set xs. entry_due now (V w1) y) = (\<Union>y\<in>set xs. entry_due now (V w) y)"
    using submits_entry[OF one apart(2)] by simp
  have rest: "submits now (\<Union>y\<in>set xs. entry_due now (V w) y) (entry_key ` set xs \<union> queue_and_dirty) (V w1)
     (V (snd (process_expired_exams S now uuid io xs (n1, w1))))"
    using Cons.IH[OF ok1, of n1] Cons.prems(2) d1 by simp
  have sub: "entry_due now (V w) y \<subseteq> a_id ` set (fst (snd (snd y)))" for y
    by (cases y) (auto simp: entry_due_def)
  have "submits now (entry_due now (V w) x \<union> (\<Union>y\<in>set xs. entry_due now (V w) y))
     (insert (entry_key x) queue_and_dirty \<union> (entry_key ` set xs \<union> queue_and_dirty)) (V w)
     (V (snd (process_expired_exams S now uuid io xs (n1, w1))))"
  proof (rule submits_trans[OF one rest])
    show "entry_due now (V w) x \<inter> (\<Union>y\<in>set xs. entry_due now (V w) y) = {}"
      using apart(1) sub by blast
    fix k a assume k: "k \<in> (\<Union>y\<in>set xs. entry_due now (V w) y)" "w_attempts (V w) k = Some a"
    then have "a_id a \<noteq> ''dirty''" using due by fastforce
    then show "autosave_key (a_id a) \<notin> insert (entry_key x) queue_and_dirty"
      by (auto simp: entry_key_def key_simps queue_and_dirty_def is_queue_key_def)
  qed
  moreover have "insert (entry_key x) queue_and_dirty \<union> (entry_key ` set xs \<union> queue_and_dirty) =
      entry_key ` set (x # xs) \<union> queue_and_dirty" by auto
  ultimately show ?case using st by simp
qed

text \<open>The attempts the fallback submits: past their own limit, and no lock in place.\<close>

lemma fallback_submits:
  assumes "\<forall>(a, ec)\<in>set xs. w_attempts (V w) (a_id a) = Some a \<and> a_id a \<noteq> ''dirty'' \<and>
      (\<forall>e ch. ec = Some (e, ch) \<longrightarrow> challenge_of (V w) a = ch)"
    "distinct (map (\<lambda>x. a_id (fst x)) xs)"
  shows "submits now {a_id a |a e ch. (a, Some (e, ch)) \<in> set xs \<and> overdue now a e \<and>
        \<not> ks_exists now (w_ks (V w)) (attempt_lock_key (a_id a))}
      (range attempt_lock_key \<union> queue_and_dirty) (V w)
     (V (snd (fallback_attempts S now uuid io xs (n, w))))"
  using assms
proof (induction xs arbitrary: n w)
  case Nil
  then show ?case by (simp add: submits_def)
next
  case (Cons x xs)
  obtain a ec where x: "x = (a, ec)" by force
  let ?K = "range attempt_lock_key \<union> queue_and_dirty"
  let ?due = "\<lambda>w xs. {a_id a |a e ch. (a, Some (e, ch)) \<in> set xs \<and> overdue now a e \<and>
        \<not> ks_exists now (w_ks (V w)) (attempt_lock_key (a_id a))}"
  obtain n1 w1 where st: "fallback_attempt S now uuid io x (n, w) = (n1, w1)"
    by (cases "fallback_attempt S now uuid io x (n, w)") auto
  have a: "w_attempts (V w) (a_id a) = Some a" "a_id a \<noteq> ''dirty''" using Cons.prems(1) x by auto
  have one: "submits now (?due w [x]) (insert (attempt_lock_key (a_id a)) queue_and_dirty) (V w) (V w1)"
  proof (cases "\<exists>e ch. ec = Some (e, ch) \<and> overdue now a e \<and> \<not> ks_exists now (w_ks (V w)) (attempt_lock_key (a_id a))")
    case True
    then obtain e ch where ec: "ec = Some (e, ch)" "overdue now a e"
      "\<not> ks_exists now (w_ks (V w)) (attempt_lock_key (a_id a))" by blast
    define w0 where "w0 = snd (sv_setnx S now (attempt_lock_key (a_id a)) (Num 1) 300 w)"
    have snx: "sv_setnx S now (attempt_lock_key (a_id a)) (Num 1) 300 w = (True, w0)"
      using ec(3) by (simp add: w0_def prod_eq_iff)
    have w0: "V w0 = w_ks_update (ks_set now (attempt_lock_key (a_id a)) (Num 1) (Some 300)) (V w)"
      using ec(3) by (simp add: w0_def)
    have pre: "submits now {} (insert (attempt_lock_key (a_id a)) queue_and_dirty) (V w) (V w0)"
      by (simp add: w0 submits_def queues_for_same)
    have run: "auto_submit_attempt S now uuid io a ch (n, w0) = (n1, w1)"
      using st ec by (simp add: x fallback_attempt_def snx)
    have "submits now {a_id a} queue_and_dirty (V w0) (V w1)"
      using auto_submit_submits[of w0 a ch now uuid io n] a Cons.prems(1) run ec by (simp add: w0 x)
    then have "submits now ({} \<union> {a_id a}) (insert (attempt_lock_key (a_id a)) queue_and_dirty \<union> queue_and_dirty) (V w) (V w1)"
      by (rule submits_trans[OF pre])
        (use a in \<open>auto simp: key_simps queue_and_dirty_def is_queue_key_def\<close>)
    moreover have "?due w [x] = {a_id a}" using ec x by auto
    ultimately show ?thesis by simp
  next
    case False
    then have "?due w [x] = {}" using x by auto
    moreover have "V w1 = V w" using st False
      by (auto simp: x fallback_attempt_def split: option.splits prod.splits if_splits)
        (metis fst_conv setnx_fst setnx_snd snd_conv)+
    ultimately show ?thesis by (simp only: submits_refl)
  qed
  have D1: "?due w [x] \<subseteq> {a_id a}" by (auto simp: x)
  have ne: "a_id b \<noteq> a_id a" if "(b, ec') \<in> set xs" for b ec'
    using Cons.prems(2) that x by force
  have ok1: "\<forall>(b, ec)\<in>set xs. w_attempts (V w1) (a_id b) = Some b \<and> a_id b \<noteq> ''dirty'' \<and>
      (\<forall>e ch. ec = Some (e, ch) \<longrightarrow> challenge_of (V w1) b = ch)"
  proof
    fix y assume y: "y \<in> set xs"
    obtain b ec' where b: "y = (b, ec')" by force
    have "w_attempts (V w1) (a_id b) = w_attempts (V w) (a_id b)"
      using one D1 ne y b unfolding submits_def by auto
    moreover have "challenge_of (V w1) b = challenge_of (V w) b"
      using one by (simp add: submits_def challenge_of_def split: option.split)
    ultimately show "case y of (b, ec) \<Rightarrow> w_attempts (V w1) (a_id b) = Some b \<and> a_id b \<noteq> ''dirty'' \<and>
      (\<forall>e ch. ec = Some (e, ch) \<longrightarrow> challenge_of (V w1) b = ch)" using Cons.prems(1) y b by auto
  qed
  have lock1: "ks_exists now (w_ks (V w1)) (attempt_lock_key (a_id b)) = ks_exists now (w_ks (V w)) (attempt_lock_key (a_id b))"
    if "a_id b \<noteq> a_id a" for b
    using one that by (simp add: submits_def ks_exists_def)
  have dueeq: "?due w1 xs = ?due w xs"
    using lock1 ne by (metis (no_types, lifting))
  have rest: "submits now (?due w xs) ?K (V w1) (V (snd (fallback_attempts S now uuid io xs (n1, w1))))"
    using Cons.IH[OF ok1, of n1] Cons.prems(2) dueeq by simp
  have "submits now (?due w [x] \<union> ?due w xs) (insert (attempt_lock_key (a_id a)) queue_and_dirty \<union> ?K) (V w)
     (V (snd (fallback_attempts S now uuid io xs (n1, w1))))"
  proof (rule submits_trans[OF one rest])
    have "k \<noteq> a_id a" if "k \<in> ?due w xs" for k using that ne by auto
    then show "?due w [x] \<inter> ?due w xs = {}" using D1 by (meson disjoint_iff singletonD subsetD)
    fix k b assume k: "k \<in> ?due w xs" "w_attempts (V w) k = Some b"
    then obtain c ec' where c: "(c, ec') \<in> set xs" "k = a_id c" by auto
    then have "w_attempts (V w) (a_id c) = Some c" "a_id c \<noteq> ''dirty''" using Cons.prems(1) by auto
    then have "a_id b \<noteq> ''dirty''" using k(2) c(2) by simp
    then show "autosave_key (a_id b) \<notin> insert (attempt_lock_key (a_id a)) queue_and_dirty"
      by (auto simp: key_simps queue_and_dirty_def is_queue_key_def)
  qed
  moreover have "?due w [x] \<union> ?due w xs = ?due w (x # xs)"
    by (simp only: list.set insert_iff empty_iff) blast
  moreover have "insert (attempt_lock_key (a_id a)) queue_and_dirty \<union> ?K = ?K" by auto
  ultimately show ?case using st by simp
qed

lemma distinct_ids: "distinct (map a_id (t_select (sv_attempts S) P w))"
  unfolding distinct_map
proof (intro conjI inj_onI)
  fix x y assume "x \<in> set (t_select (sv_attempts S) P w)" "y \<in> set (t_select (sv_attempts S) P w)" "a_id x = a_id y"
  then show "x = y" by (simp add: table_set[OF attempts_ok])
qed (rule table_distinct[OF attempts_ok])

lemma distinct_exam_ids: "distinct (map e_id (t_select (sv_exams S) P w))"
  unfolding distinct_map
proof (intro conjI inj_onI)
  fix x y assume "x \<in> set (t_select (sv_exams S) P w)" "y \<in> set (t_select (sv_exams S) P w)" "e_id x = e_id y"
  then show "x = y" by (simp add: table_set[OF exams_ok])
qed (rule table_distinct[OF exams_ok])

lemma expired_entries:
  assumes "\<forall>k a. w_attempts (V w) k = Some a \<longrightarrow> k \<noteq> ''dirty''"
    "\<forall>k e. w_exams (V w) k = Some e \<longrightarrow> CHR '':'' \<notin> set k"
  shows "\<forall>x\<in>set (expired_exams S now w). entry_ok (V w) x"
    "distinct (map (\<lambda>x. e_id (fst x)) (expired_exams S now w))"
proof -
  let ?Q = "\<lambda>e. case e_scheduledEndAt e of None \<Rightarrow> False | Some t \<Rightarrow> t \<le> now \<and> now - 24 * 60 * 60 * 1000 \<le> t"
  show "\<forall>x\<in>set (expired_exams S now w). entry_ok (V w) x"
  proof
    fix x assume "x \<in> set (expired_exams S now w)"
    then obtain e where e: "e \<in> set (t_select (sv_exams S) ?Q w)"
      and x: "x = (e, the (e_scheduledEndAt e), t_select (sv_attempts S) (\<lambda>a. a_examId a = e_id e \<and> a_status a = IN_PROGRESS) w,
        find_challenge S (e_challengeId e) w)" by (auto simp: expired_exams_def)
    have row: "w_exams (V w) (e_id e) = Some e" using e by (simp add: table_set[OF exams_ok])
    let ?as = "t_select (sv_attempts S) (\<lambda>a. a_examId a = e_id e \<and> a_status a = IN_PROGRESS) w"
    have sel: "w_attempts (V w) (a_id a) = Some a \<and> a_examId a = e_id e" if "a \<in> set ?as" for a
      using that by (simp add: table_set[OF attempts_ok])
    have "challenge_of (V w) a = find_challenge S (e_challengeId e) w" if "a \<in> set ?as" for a
      using sel[OF that] row by (simp add: challenge_of_def)
    moreover have "a_id a \<noteq> ''dirty''" if "a \<in> set ?as" for a
      using sel[OF that] assms(1) by blast
    moreover have "CHR '':'' \<notin> set (e_id e)" using row assms(2) by blast
    ultimately show "entry_ok (V w) x"
      using sel distinct_ids by (simp add: x entry_ok_def current_def)
  qed
  have "map (\<lambda>x. e_id (fst x)) (expired_exams S now w) = map e_id (t_select (sv_exams S) ?Q w)"
    by (simp add: expired_exams_def comp_def)
  then show "distinct (map (\<lambda>x. e_id (fst x)) (expired_exams S now w))"
    by (simp only: distinct_exam_ids)
qed

lemma progress_entries:
  assumes "\<forall>k a. w_attempts (V w) k = Some a \<longrightarrow> k \<noteq> ''dirty''"
  shows "\<forall>(a, ec)\<in>set (attempts_in_progress S w). w_attempts (V w) (a_id a) = Some a \<and> a_id a \<noteq> ''dirty'' \<and>
      (\<forall>e ch. ec = Some (e, ch) \<longrightarrow> challenge_of (V w) a = ch)"
    "distinct (map (\<lambda>x. a_id (fst x)) (attempts_in_progress S w))"
proof -
  let ?as = "t_select (sv_attempts S) (\<lambda>a. a_status a = IN_PROGRESS) w"
  show "distinct (map (\<lambda>x. a_id (fst x)) (attempts_in_progress S w))"
    using distinct_ids[of "\<lambda>a. a_status a = IN_PROGRESS" w] by (simp add: attempts_in_progress_def comp_def)
  have "w_attempts (V w) (a_id a) = Some a \<and> a_id a \<noteq> ''dirty''" if "a \<in> set ?as" for a
    using that assms by (simp add: table_set[OF attempts_ok])
  then show "\<forall>(a, ec)\<in>set (attempts_in_progress S w). w_attempts (V w) (a_id a) = Some a \<and> a_id a \<noteq> ''dirty'' \<and>
      (\<forall>e ch. ec = Some (e, ch) \<longrightarrow> challenge_of (V w) a = ch)"
    unfolding attempts_in_progress_def by (auto simp: challenge_of_def)
qed

end

text \<open>The attempts a cycle has to submit: those in progress in an exam that ended within the last day
  and is not marked processed, and those past their own limit and grace that nobody else locked.\<close>
definition cycle_due :: "time \<Rightarrow> world \<Rightarrow> id set" where
  "cycle_due now W = {k. \<exists>a e. w_attempts W k = Some a \<and> a_status a = IN_PROGRESS \<and>
     w_exams W (a_examId a) = Some e \<and>
     ((\<exists>t. e_scheduledEndAt e = Some t \<and> t \<le> now \<and> now - 24 * 60 * 60 * 1000 \<le> t \<and>
          \<not> truthy_reply (ks_get now (w_ks W) (processed_key (e_id e) t))) \<or>
      (overdue now a e \<and> \<not> ks_exists now (w_ks W) (attempt_lock_key k)))}"

context services begin

lemma expired_due:
  "(\<Union>x\<in>set (expired_exams S now w). entry_due now (V w) x) =
    {k. \<exists>a e t. w_attempts (V w) k = Some a \<and> a_status a = IN_PROGRESS \<and> w_exams (V w) (a_examId a) = Some e \<and>
       e_scheduledEndAt e = Some t \<and> t \<le> now \<and> now - 24 * 60 * 60 * 1000 \<le> t \<and>
       \<not> truthy_reply (ks_get now (w_ks (V w)) (processed_key (e_id e) t))}" (is "?L = ?R")
proof (intro equalityI subsetI)
  fix k assume "k \<in> ?L"
  then obtain x where "x \<in> set (expired_exams S now w)" "k \<in> entry_due now (V w) x" by blast
  then obtain e where e: "e \<in> set (t_select (sv_exams S) (\<lambda>e. case e_scheduledEndAt e of None \<Rightarrow> False
         | Some t \<Rightarrow> t \<le> now \<and> now - 24 * 60 * 60 * 1000 \<le> t) w)"
      and k: "k \<in> entry_due now (V w) (e, the (e_scheduledEndAt e),
        t_select (sv_attempts S) (\<lambda>a. a_examId a = e_id e \<and> a_status a = IN_PROGRESS) w,
        find_challenge S (e_challengeId e) w)" by (auto simp: expired_exams_def)
  obtain a where "a \<in> set (t_select (sv_attempts S) (\<lambda>a. a_examId a = e_id e \<and> a_status a = IN_PROGRESS) w)" "k = a_id a"
      "\<not> truthy_reply (ks_get now (w_ks (V w)) (processed_key (e_id e) (the (e_scheduledEndAt e))))"
    using k by (auto simp: entry_due_def split: if_splits)
  then have "w_attempts (V w) k = Some a" "a_examId a = e_id e" "a_status a = IN_PROGRESS"
    "\<not> truthy_reply (ks_get now (w_ks (V w)) (processed_key (e_id e) (the (e_scheduledEndAt e))))"
    by (simp_all add: table_set[OF attempts_ok])
  moreover obtain t where "e_scheduledEndAt e = Some t" "t \<le> now" "now - 24 * 60 * 60 * 1000 \<le> t" "w_exams (V w) (e_id e) = Some e"
    using e by (auto simp: table_set[OF exams_ok] split: option.splits)
  ultimately show "k \<in> ?R" by auto
next
  fix k assume "k \<in> ?R"
  then obtain a e t where a: "w_attempts (V w) k = Some a" "a_status a = IN_PROGRESS" "w_exams (V w) (a_examId a) = Some e"
    "e_scheduledEndAt e = Some t" "t \<le> now" "now - 24 * 60 * 60 * 1000 \<le> t"
    "\<not> truthy_reply (ks_get now (w_ks (V w)) (processed_key (e_id e) t))" by blast
  have ids: "a_id a = k" "e_id e = a_examId a"
    using table_keyed[OF attempts_ok] table_keyed[OF exams_ok] a by blast+
  let ?x = "(e, t, t_select (sv_attempts S) (\<lambda>a. a_examId a = e_id e \<and> a_status a = IN_PROGRESS) w,
        find_challenge S (e_challengeId e) w)"
  have "e \<in> set (t_select (sv_exams S) (\<lambda>e. case e_scheduledEndAt e of None \<Rightarrow> False
         | Some t \<Rightarrow> t \<le> now \<and> now - 24 * 60 * 60 * 1000 \<le> t) w)"
    using a ids by (simp add: table_set[OF exams_ok])
  then have "?x \<in> set (expired_exams S now w)"
    using a(4) by (auto simp: expired_exams_def image_iff intro!: bexI[of _ e])
  moreover have "a \<in> set (t_select (sv_attempts S) (\<lambda>a. a_examId a = e_id e \<and> a_status a = IN_PROGRESS) w)"
    using a ids by (simp add: table_set[OF attempts_ok])
  then have "k \<in> entry_due now (V w) ?x"
    using a(7) ids(1) by (auto simp: entry_due_def)
  ultimately show "k \<in> ?L" by blast
qed

lemma in_progress_mem:
  "(a, Some (e, ch)) \<in> set (attempts_in_progress S w) \<longleftrightarrow> w_attempts (V w) (a_id a) = Some a \<and>
     a_status a = IN_PROGRESS \<and> w_exams (V w) (a_examId a) = Some e \<and> ch = w_challenges (V w) (e_challengeId e)"
proof -
  have "(a, Some (e, ch)) \<in> set (attempts_in_progress S w) \<longleftrightarrow>
      a \<in> set (t_select (sv_attempts S) (\<lambda>a. a_status a = IN_PROGRESS) w) \<and>
      w_exams (V w) (a_examId a) = Some e \<and> ch = w_challenges (V w) (e_challengeId e)"
    by (auto simp: attempts_in_progress_def image_iff) (auto simp: map_option_case split: option.splits)
  then show ?thesis by (simp add: table_set[OF attempts_ok])
qed

lemma fallback_due:
  "{a_id a |a e ch. (a, Some (e, ch)) \<in> set (attempts_in_progress S w) \<and> overdue now a e \<and> P (a_id a)} =
   {k. \<exists>a e. w_attempts (V w) k = Some a \<and> a_status a = IN_PROGRESS \<and> w_exams (V w) (a_examId a) = Some e \<and>
      overdue now a e \<and> P k}"
  unfolding in_progress_mem
proof (intro equalityI subsetI, goal_cases)
  case (1 k)
  then show ?case by blast
next
  case (2 k)
  then obtain a e where a: "w_attempts (V w) k = Some a" "a_status a = IN_PROGRESS" "w_exams (V w) (a_examId a) = Some e"
      "overdue now a e" "P k" by blast
  moreover have "a_id a = k" by (rule table_keyed[OF attempts_ok a(1)])
  ultimately show ?case by blast
qed

lemma cycle_submits:
  assumes ids: "\<forall>k a. w_attempts (V w) k = Some a \<longrightarrow> k \<noteq> ''dirty''"
    "\<forall>k e. w_exams (V w) k = Some e \<longrightarrow> CHR '':'' \<notin> set k"
    and free: "\<not> ks_exists now (w_ks (V w)) scheduler_lock_key"
  shows "submits now (cycle_due now (V w)) UNIV (V w) (V (snd (run_scheduler_cycle S now pid uuid io (n, w))))"
proof -
  define w0 where "w0 = snd (sv_setnx S now scheduler_lock_key (Num pid) scheduler_lock_ttl w)"
  have snx: "sv_setnx S now scheduler_lock_key (Num pid) scheduler_lock_ttl w = (True, w0)"
    using free by (simp add: w0_def prod_eq_iff)
  define w1 where "w1 = request_warmup S now w0"
  obtain n2 w2 where r2: "process_expired_exams S now uuid io (expired_exams S now w1) (n, w1) = (n2, w2)"
    by (cases "process_expired_exams S now uuid io (expired_exams S now w1) (n, w1)") auto
  obtain n3 w3 where r3: "fallback_attempts S now uuid io (attempts_in_progress S w2) (n2, w2) = (n3, w3)"
    by (cases "fallback_attempts S now uuid io (attempts_in_progress S w2) (n2, w2)") auto
  have w': "V (snd (run_scheduler_cycle S now pid uuid io (n, w))) = w_ks_update (ks_del scheduler_lock_key) (V w3)"
    using r2 r3 by (simp add: run_scheduler_cycle_def snx w1_def Let_def)
  have v1: "w_attempts (V w1) = w_attempts (V w)" "w_exams (V w1) = w_exams (V w)"
    "w_challenges (V w1) = w_challenges (V w)" "w_users (V w1) = w_users (V w)"
    "w_ks (V w1) = ks_set now scheduler_lock_key (Num pid) (Some scheduler_lock_ttl) (w_ks (V w))"
    using free by (simp_all add: w1_def w0_def request_warmup_def Let_def)
  have s1: "submits now {} {scheduler_lock_key} (V w) (V w1)" using v1 by (simp add: submits_def queues_for_same)
  let ?D1 = "\<Union>x\<in>set (expired_exams S now w1). entry_due now (V w1) x"
  let ?K1 = "entry_key ` set (expired_exams S now w1) \<union> queue_and_dirty"
  have s2: "submits now ?D1 ?K1 (V w1) (V w2)"
    using process_expired_exams_submits[OF expired_entries[of w1 now], of now uuid io n] ids v1 r2 by simp
  have ids2: "\<forall>k a. w_attempts (V w2) k = Some a \<longrightarrow> k \<noteq> ''dirty''"
    using s2 ids(1) v1(1) unfolding submits_def by (metis (no_types, lifting) map_option_eq_Some)
  let ?D2 = "{a_id a |a e ch. (a, Some (e, ch)) \<in> set (attempts_in_progress S w2) \<and> overdue now a e \<and>
        \<not> ks_exists now (w_ks (V w2)) (attempt_lock_key (a_id a))}"
  have s3: "submits now ?D2 (range attempt_lock_key \<union> queue_and_dirty) (V w2) (V w3)"
    using fallback_submits[OF progress_entries[OF ids2], of now uuid io n2] r3 by simp
  have w2_att: "w_attempts (V w2) k = (if k \<in> ?D1 then map_option (auto_row now (V w1)) (w_attempts (V w) k) else w_attempts (V w) k)" for k
    using s2 v1(1) unfolding submits_def by metis
  have ex: "w_exams (V w2) = w_exams (V w)" using s2 v1 by (simp add: submits_def)
  have lock2: "ks_exists now (w_ks (V w2)) (attempt_lock_key k) = ks_exists now (w_ks (V w)) (attempt_lock_key k)" for k
  proof -
    have "attempt_lock_key k \<notin> ?K1" by (auto simp: entry_key_def)
    then have "ks_live now (w_ks (V w2)) (attempt_lock_key k) = ks_live now (w_ks (V w1)) (attempt_lock_key k)"
      using s2 unfolding submits_def by blast
    then show ?thesis by (simp add: ks_exists_def v1)
  qed
  have fresh: "auto_row now (V w1) b \<noteq> a" if "a_status a = IN_PROGRESS" for a b
    using that by (auto simp: auto_row_def)
  have D2: "?D2 = {k. \<exists>a e. w_attempts (V w) k = Some a \<and> a_status a = IN_PROGRESS \<and> w_exams (V w) (a_examId a) = Some e \<and>
      overdue now a e \<and> \<not> ks_exists now (w_ks (V w)) (attempt_lock_key k)} - ?D1" (is "_ = ?R2 - _")
    unfolding lock2 fallback_due[of w2 now "\<lambda>k. \<not> ks_exists now (w_ks (V w)) (attempt_lock_key k)"] ex
  proof (intro equalityI subsetI, goal_cases)
    case (1 k)
    then obtain a e where a: "w_attempts (V w2) k = Some a" "a_status a = IN_PROGRESS" "w_exams (V w) (a_examId a) = Some e"
      "overdue now a e" "\<not> ks_exists now (w_ks (V w)) (attempt_lock_key k)" by blast
    have "k \<notin> ?D1" using a(1) fresh[OF a(2)] w2_att[of k] by (cases "w_attempts (V w) k") (auto split: if_splits)
    then show ?case using a w2_att[of k] by auto
  next
    case (2 k)
    then show ?case using w2_att[of k] by auto
  qed
  have D1: "?D1 \<union> ?R2 = cycle_due now (V w)"
  proof -
    have key: "w_exams (V w) x = Some e \<Longrightarrow> e_id e = x" for x e by (rule table_keyed[OF exams_ok])
    have pk: "ks_get now (w_ks (V w1)) (processed_key i t) = ks_get now (w_ks (V w)) (processed_key i t)" for i t
      by (simp add: v1)
    show ?thesis unfolding expired_due cycle_due_def v1(1,2) pk by blast
  qed
  have s13: "submits now (?D1 \<union> ?D2) (?K1 \<union> (range attempt_lock_key \<union> queue_and_dirty)) (V w1) (V w3)"
  proof (rule submits_trans[OF s2 s3])
    show "?D1 \<inter> ?D2 = {}" unfolding D2 by blast
    fix k a assume "k \<in> ?D2" "w_attempts (V w1) k = Some a"
    then have "w_attempts (V w) k = Some a" by (simp add: v1)
    then have "a_id a \<noteq> ''dirty''" using ids(1) table_keyed[OF attempts_ok] by blast
    then show "autosave_key (a_id a) \<notin> ?K1" by (auto simp: entry_key_def)
  qed
  have "?D1 \<union> ?D2 = cycle_due now (V w)" unfolding D2 D1[symmetric] by blast
  then have s13': "submits now (cycle_due now (V w)) (?K1 \<union> (range attempt_lock_key \<union> queue_and_dirty)) (V w1) (V w3)"
    using s13 by simp
  have "submits now ({} \<union> cycle_due now (V w)) ({scheduler_lock_key} \<union> (?K1 \<union> (range attempt_lock_key \<union> queue_and_dirty))) (V w) (V w3)"
    by (rule submits_trans[OF s1 s13']) simp_all
  then show ?thesis unfolding w'
    using queues_for_cong[of now "w_ks_update (ks_del scheduler_lock_key) (V w3)" "V w3" "cycle_due now (V w)" "V w"]
    by (simp add: submits_def)
qed

lemma cycle_locked:
  assumes "ks_exists now (w_ks (V w)) scheduler_lock_key"
  shows "V (snd (run_scheduler_cycle S now pid uuid io (n, w))) = V w"
    "fst (run_scheduler_cycle S now pid uuid io (n, w)) = n"
proof -
  obtain b w0 where snx: "sv_setnx S now scheduler_lock_key (Num pid) scheduler_lock_ttl w = (b, w0)" by force
  have "\<not> b" "V w0 = V w" using setnx_fst[of now scheduler_lock_key "Num pid" scheduler_lock_ttl w]
      setnx_snd[of now scheduler_lock_key "Num pid" scheduler_lock_ttl w] snx assms by simp_all
  then show "V (snd (run_scheduler_cycle S now pid uuid io (n, w))) = V w"
    "fst (run_scheduler_cycle S now pid uuid io (n, w)) = n"
    by (simp_all add: run_scheduler_cycle_def snx)
qed

end

section \<open>Properties\<close>

text \<open>C8: A scheduler cycle submits exactly the attempts that are due. A cycle that nothing interrupts and that gets the lock
  turns the row of every attempt in progress whose exam ended within the last day and is not yet
  processed, or that is a minute past its own time limit and not locked by somebody else, into
  a submitted one with its latest saved files (waiting for the grader when the challenge exists), appends to the queue of submissions, if its key holds
  a stream, exactly one job for each of them that has a challenge, with those files,
  and leaves every other attempt, the exams, challenges and users as they were; while another
  instance holds the lock a cycle does nothing. No attempt has the word dirty as its id and no exam a colon in its id, as is so for the ids of the
  database, which are UUIDs.\<close>
theorem scheduler_cycle_exact:
  assumes "services S V" "\<forall>k a. w_attempts (V w) k = Some a \<longrightarrow> k \<noteq> ''dirty''"
    "\<forall>k e. w_exams (V w) k = Some e \<longrightarrow> CHR '':'' \<notin> set k"
    "run_scheduler_cycle S now pid uuid io (n, w) = (n', w')"
  shows "if ks_exists now (w_ks (V w)) scheduler_lock_key then V w' = V w \<and> n' = n
    else (\<forall>k. w_attempts (V w') k = (if k \<in> cycle_due now (V w)
        then map_option (auto_row now (V w)) (w_attempts (V w) k) else w_attempts (V w) k))
      \<and> (stream_key now (w_ks (V w)) stream_high \<longrightarrow> (\<exists>ks. distinct ks \<and> set ks = cycle_due now (V w)
          \<and> queue_jobs now (V w') stream_high = queue_jobs now (V w) stream_high @ concat (map (auto_jobs now (V w)) ks)))
      \<and> w_exams (V w') = w_exams (V w) \<and> w_challenges (V w') = w_challenges (V w) \<and> w_users (V w') = w_users (V w)"
proof (cases "ks_exists now (w_ks (V w)) scheduler_lock_key")
  case True
  then show ?thesis using services.cycle_locked[OF assms(1) True, of pid uuid io n] assms(4) by simp
next
  case False
  then show ?thesis using services.cycle_submits[OF assms(1-3) False, of pid uuid io n] assms(4)
    by (simp add: submits_def queues_for_def)
qed

theorem scheduler_cycle_exact_witness:
  "\<exists>n' w'. run_scheduler_cycle ref_services 7300000 42 (\<lambda>a. ''u'' @ a) True (demo_instance, demo_world) = (n', w')
     \<and> w_attempts (ref_view w') ''a1'' = Some (auto_row 7300000 demo demo_attempt)
     \<and> (\<exists>ks. ''a1'' \<in> set ks \<and> queue_jobs 7300000 (ref_view w') stream_high =
          queue_jobs 7300000 demo stream_high @ concat (map (auto_jobs 7300000 demo) ks))"
proof -
  obtain n' w' where run: "run_scheduler_cycle ref_services 7300000 42 (\<lambda>a. ''u'' @ a) True (demo_instance, demo_world) = (n', w')"
    by (cases "run_scheduler_cycle ref_services 7300000 42 (\<lambda>a. ''u'' @ a) True (demo_instance, demo_world)") auto
  have due: "''a1'' \<in> cycle_due 7300000 demo"
    by (simp add: cycle_due_def demo_rows)
  have ids: "\<forall>k a. w_attempts demo k = Some a \<longrightarrow> k \<noteq> ''dirty''" by (simp add: demo_attempts)
  have exs: "\<forall>k e. w_exams demo k = Some e \<longrightarrow> CHR '':'' \<notin> set k"
    by (auto simp: ref_view_def demo_world_def keyed_def demo_rows empty_ref_def split: if_splits)
  have high: "stream_key 7300000 (w_ks demo) stream_high" by (simp add: stream_key_def)
  show ?thesis using scheduler_cycle_exact[OF ref.services_axioms ids exs run] run due high by (auto simp: demo_rows)
qed


end
