(* ===== verification/Session_Cache.thy ===== *)
theory Session_Cache
  imports Demo_World
begin

text \<open>
  \<^verbatim>\<open>apps/api/src/lib/session-cache.ts\<close>: login sessions in Redis with a sliding week of
  life, the set of a user's session ids, and the index from an e-mail address to its session that
  lets a login skip bcrypt. The random session id of a new session is an argument. Under the key
  of a session id there is a session document or nothing (\<^verbatim>\<open>Redis_Types\<close>): presences share
  the prefix \<^verbatim>\<open>session:\<close>, with a colon in the rest.
\<close>

definition session_ttl :: int where "session_ttl = 7 * 24 * 60 * 60"
definition session_key :: "id \<Rightarrow> string" where [key_simps]: "session_key i = ''session:'' @ i"
definition user_sessions_key :: "id \<Rightarrow> string" where [key_simps]: "user_sessions_key u = ''user_sessions:'' @ u"
definition login_cache_key :: "string \<Rightarrow> string" where [key_simps]: "login_cache_key m = ''login_cache:'' @ m"

definition hash_prefix :: "string \<Rightarrow> string" where "hash_prefix h = take 20 h"

definition create_session ::
  "'w services \<Rightarrow> time \<Rightarrow> id \<Rightarrow> user \<Rightarrow> string option \<Rightarrow> string option \<Rightarrow> 'w \<Rightarrow> id \<times> 'w" where
  "create_session S now sid u agent ip w =
    (let doc = \<lparr> ls_userId = u_id u, ls_email = u_email u, ls_role = u_role u,
                 ls_passwordHash = hash_prefix (u_password u), ls_createdAt = now, ls_lastAccessedAt = now,
                 ls_userAgent = agent, ls_ip = ip \<rparr>;
         w1 = sv_set S now (session_key sid) (LoginDoc doc) (Some session_ttl) w;
         w2 = sv_sadd S now (user_sessions_key (u_id u)) sid w1;
         w3 = sv_expire S now (user_sessions_key (u_id u)) session_ttl w2
     in (sid, w3))"

definition get_session :: "'w services \<Rightarrow> time \<Rightarrow> id \<Rightarrow> 'w \<Rightarrow> login_session option \<times> 'w" where
  "get_session S now sid w = (case sv_get S now (session_key sid) w of
     Some (LoginDoc s) \<Rightarrow>
       (let s' = s\<lparr> ls_lastAccessedAt := now \<rparr>
        in (Some s', sv_set S now (session_key sid) (LoginDoc s') (Some session_ttl) w))
   | _ \<Rightarrow> (None, w))"

definition invalidate_session :: "'w services \<Rightarrow> time \<Rightarrow> id \<Rightarrow> 'w \<Rightarrow> 'w" where
  "invalidate_session S now sid w = (case get_session S now sid w of (s, w1) \<Rightarrow>
     sv_del S (session_key sid)
       (case s of None \<Rightarrow> w1 | Some s \<Rightarrow> sv_srem S now (user_sessions_key (ls_userId s)) sid w1))"

definition validate_session :: "'w services \<Rightarrow> time \<Rightarrow> id \<Rightarrow> string \<Rightarrow> 'w \<Rightarrow> login_session option \<times> 'w" where
  "validate_session S now sid hash w = (case get_session S now sid w of
     (None, w1) \<Rightarrow> (None, w1)
   | (Some s, w1) \<Rightarrow>
       if ls_passwordHash s \<noteq> hash_prefix hash then (None, invalidate_session S now sid w1)
       else (Some s, w1))"

definition invalidate_all_user_sessions :: "'w services \<Rightarrow> time \<Rightarrow> id \<Rightarrow> 'w \<Rightarrow> nat \<times> 'w" where
  "invalidate_all_user_sessions S now uid w =
    (let sids = sv_smembers S now (user_sessions_key uid) w in
     if sids = [] then (0, w)
     else (length sids, sv_del S (user_sessions_key uid) (fold (\<lambda>sid. sv_del S (session_key sid)) sids w)))"

fun collect_sessions :: "'w services \<Rightarrow> time \<Rightarrow> id list \<Rightarrow> 'w \<Rightarrow> login_session list \<times> 'w" where
  "collect_sessions S now [] w = ([], w)"
| "collect_sessions S now (sid # sids) w = (case get_session S now sid w of (s, w1) \<Rightarrow>
     (case collect_sessions S now sids w1 of (ss, w2) \<Rightarrow>
        ((case s of None \<Rightarrow> ss | Some s \<Rightarrow> s # ss), w2)))"

definition get_user_sessions :: "'w services \<Rightarrow> time \<Rightarrow> id \<Rightarrow> 'w \<Rightarrow> login_session list \<times> 'w" where
  "get_user_sessions S now uid w = collect_sessions S now (sv_smembers S now (user_sessions_key uid) w) w"

definition get_cached_login :: "'w services \<Rightarrow> time \<Rightarrow> string \<Rightarrow> 'w \<Rightarrow> (id \<times> login_session) option \<times> 'w" where
  "get_cached_login S now email w = (case sv_get S now (login_cache_key email) w of
     Some (Txt sid) \<Rightarrow>
       if sid = [] then (None, w)
       else (case get_session S now sid w of
          (None, w1) \<Rightarrow> (None, sv_del S (login_cache_key email) w1)
        | (Some s, w1) \<Rightarrow> (Some (sid, s), w1))
   | _ \<Rightarrow> (None, w))"

definition set_cached_login :: "'w services \<Rightarrow> time \<Rightarrow> string \<Rightarrow> id \<Rightarrow> 'w \<Rightarrow> 'w" where
  "set_cached_login S now email sid w = sv_set S now (login_cache_key email) (Txt sid) (Some session_ttl) w"

definition remove_cached_login :: "'w services \<Rightarrow> string \<Rightarrow> 'w \<Rightarrow> 'w" where
  "remove_cached_login S email w = sv_del S (login_cache_key email) w"

section \<open>Lemmas\<close>

lemma session_keys [simp]:
  "session_key a = session_key b \<longleftrightarrow> a = b" "login_cache_key a = login_cache_key b \<longleftrightarrow> a = b"
  "user_sessions_key a = user_sessions_key b \<longleftrightarrow> a = b"
  "session_key a \<noteq> login_cache_key b" "login_cache_key b \<noteq> session_key a"
  "session_key a \<noteq> user_sessions_key b" "user_sessions_key b \<noteq> session_key a"
  "user_sessions_key a \<noteq> login_cache_key b" "login_cache_key b \<noteq> user_sessions_key a"
  by (simp_all add: key_simps)

text \<open>The session under an id, read off the world.\<close>
definition session_of :: "time \<Rightarrow> world \<Rightarrow> id \<Rightarrow> login_session option" where
  "session_of now W sid = (case ks_get now (w_ks W) (session_key sid) of Some (LoginDoc s) \<Rightarrow> Some s | _ \<Rightarrow> None)"

context services begin

lemma get_session_eq:
  "get_session S now sid w = (case session_of now (V w) sid of None \<Rightarrow> (None, w)
     | Some s \<Rightarrow> (Some (s\<lparr> ls_lastAccessedAt := now \<rparr>),
         sv_set S now (session_key sid) (LoginDoc (s\<lparr> ls_lastAccessedAt := now \<rparr>)) (Some session_ttl) w))"
  by (simp add: get_session_def session_of_def Let_def split: option.splits payload.splits)

lemma V_create_session:
  "V (snd (create_session S now sid u agent ip w)) = w_ks_update (\<lambda>ks.
     ks_expire now (user_sessions_key (u_id u)) session_ttl (ks_sadd now (user_sessions_key (u_id u)) sid
       (ks_set now (session_key sid) (LoginDoc \<lparr> ls_userId = u_id u, ls_email = u_email u, ls_role = u_role u,
                 ls_passwordHash = hash_prefix (u_password u), ls_createdAt = now, ls_lastAccessedAt = now,
                 ls_userAgent = agent, ls_ip = ip \<rparr>) (Some session_ttl) ks))) (V w)"
  "fst (create_session S now sid u agent ip w) = sid"
  by (simp_all add: create_session_def Let_def comp_def)

lemma V_fold_del: "V (fold (\<lambda>x. sv_del S (k x)) xs w) = w_ks_update (fold (\<lambda>x. ks_del (k x)) xs) (V w)"
  by (induction xs arbitrary: w) (simp_all add: comp_def)

text \<open>Every session of the user's set is gone after a logout of all.\<close>
lemma invalidate_all_sessions:
  assumes "sid \<in> ks_members now (w_ks (V w)) (user_sessions_key uid)"
  shows "session_of t (V (snd (invalidate_all_user_sessions S now uid w))) sid = None"
proof -
  let ?sids = "sv_smembers S now (user_sessions_key uid) w"
  have m: "sid \<in> set ?sids" using assms by (simp add: smembers_set)
  have gone: "ks_live t (fold (\<lambda>x. ks_del (session_key x)) xs ks) (session_key sid) = None"
    if "sid \<in> set xs \<or> ks_live t ks (session_key sid) = None" for xs ks
    using that
  proof (induction xs arbitrary: ks)
    case (Cons x xs)
    show ?case by (cases "sid = x") (use Cons in simp_all)
  qed simp
  have "?sids \<noteq> []" using m by auto
  then have "ks_get t (w_ks (V (snd (invalidate_all_user_sessions S now uid w)))) (session_key sid) = None"
    using gone[of ?sids] m by (simp add: invalidate_all_user_sessions_def Let_def V_fold_del ks_get_def)
  then show ?thesis by (simp add: session_of_def)
qed

end

end
