(* ===== verification/Token_Manager.thy ===== *)
theory Token_Manager
  imports Demo_World
begin

text \<open>
  \<^verbatim>\<open>apps/api/src/lib/token-manager.ts\<close>: access tokens of a day, refresh tokens of a week
  that are rotated on every use and tracked in Redis by family, so that a second use of a rotated
  token revokes the family. The environment variables are a record; the random ids of new
  tokens are arguments.
\<close>

section \<open>Configuration\<close>

record env =
  env_jwt_secret :: "string option"
  env_jwt_refresh_secret :: "string option"
  env_production :: bool
  env_bcrypt_rounds :: int
  env_first_admin_bootstrap :: bool

definition refresh_key :: "id \<Rightarrow> string" where [key_simps]: "refresh_key t = ''refresh:'' @ t"
definition family_key :: "id \<Rightarrow> string" where [key_simps]: "family_key f = ''token_family:'' @ f"
definition revoked_key :: "id \<Rightarrow> string" where [key_simps]: "revoked_key t = ''revoked:'' @ t"

definition access_expiry :: int where "access_expiry = 24 * 60 * 60"
definition refresh_expiry :: int where "refresh_expiry = 7 * 24 * 60 * 60"

definition get_secrets :: "env \<Rightarrow> (string \<times> string) result" where
  "get_secrets E = (case str_opt (env_jwt_secret E) of
     None \<Rightarrow> Inl (PlainError ''JWT_SECRET not configured'')
   | Some acc \<Rightarrow> Inr (acc, or_default (str_opt (env_jwt_refresh_secret E)) acc))"

definition access_claims :: "jwt_payload \<Rightarrow> claims" where
  "access_claims p = \<lparr> cl_userId = jp_userId p, cl_email = jp_email p, cl_role = jp_role p, cl_refresh = None \<rparr>"

definition refresh_claims :: "jwt_payload \<Rightarrow> id \<Rightarrow> id \<Rightarrow> claims" where
  "refresh_claims p tid fid = (access_claims p)\<lparr> cl_refresh := Some (tid, fid) \<rparr>"

definition claims_payload :: "claims \<Rightarrow> jwt_payload" where
  "claims_payload c = \<lparr> jp_userId = cl_userId c, jp_email = cl_email c, jp_role = cl_role c \<rparr>"

definition token_data :: "jwt_payload \<Rightarrow> id \<Rightarrow> time \<Rightarrow> int \<Rightarrow> refresh_data" where
  "token_data p fid now n = \<lparr> rd_userId = jp_userId p, rd_email = jp_email p, rd_role = jp_role p,
     rd_familyId = fid, rd_createdAt = now, rd_rotationCount = n \<rparr>"

section \<open>Operations\<close>

definition generate_access_token :: "env \<Rightarrow> 'w services \<Rightarrow> time \<Rightarrow> jwt_payload \<Rightarrow> string result" where
  "generate_access_token E S now p = (case get_secrets E of Inl e \<Rightarrow> Inl e
     | Inr (acc, _) \<Rightarrow> Inr (sv_jwt_sign S acc (access_claims p) now access_expiry))"

definition generate_refresh_token ::
  "env \<Rightarrow> 'w services \<Rightarrow> time \<Rightarrow> id \<Rightarrow> id \<Rightarrow> jwt_payload \<Rightarrow> 'w \<Rightarrow> string result \<times> 'w" where
  "generate_refresh_token E S now tid fid p w = (case get_secrets E of Inl e \<Rightarrow> (Inl e, w)
     | Inr (_, sec) \<Rightarrow>
       (let token = sv_jwt_sign S sec (refresh_claims p tid fid) now refresh_expiry;
            w1 = sv_set S now (refresh_key tid) (RefreshDoc (token_data p fid now 0)) (Some refresh_expiry) w;
            w2 = sv_sadd S now (family_key fid) tid w1;
            w3 = sv_expire S now (family_key fid) refresh_expiry w2
        in (Inr token, w3)))"

definition verify_access_token :: "env \<Rightarrow> 'w services \<Rightarrow> time \<Rightarrow> string \<Rightarrow> (error + jwt_failure) + jwt_payload" where
  "verify_access_token E S now token = (case get_secrets E of Inl e \<Rightarrow> Inl (Inl e)
     | Inr (acc, _) \<Rightarrow> (case sv_jwt_verify S acc now token of Inl f \<Rightarrow> Inl (Inr f) | Inr c \<Rightarrow> Inr (claims_payload c)))"

definition revoke_token :: "'w services \<Rightarrow> time \<Rightarrow> id \<Rightarrow> 'w \<Rightarrow> 'w" where
  "revoke_token S now tid w =
     sv_set S now (revoked_key tid) (Num 1) (Some refresh_expiry) (sv_del S (refresh_key tid) w)"

definition revoke_token_family :: "'w services \<Rightarrow> time \<Rightarrow> id \<Rightarrow> 'w \<Rightarrow> 'w" where
  "revoke_token_family S now fid w =
     sv_del S (family_key fid) (fold (revoke_token S now) (sv_smembers S now (family_key fid) w) w)"

text \<open>Everything after the secrets is inside a \<^verbatim>\<open>try\<close>; a value that is no record of the
  module raises there.\<close>
definition rotate_refresh_token ::
  "env \<Rightarrow> 'w services \<Rightarrow> time \<Rightarrow> id \<Rightarrow> string \<Rightarrow> 'w \<Rightarrow> (string \<times> string) option result \<times> 'w" where
  "rotate_refresh_token E S now newid old w = (case get_secrets E of Inl e \<Rightarrow> (Inl e, w)
     | Inr (acc, sec) \<Rightarrow>
       (case sv_jwt_verify S sec now old of
          Inl _ \<Rightarrow> (Inr None, w)
        | Inr c \<Rightarrow>
          (case cl_refresh c of
             None \<Rightarrow> (Inr None, w)
           | Some (tid, fid) \<Rightarrow>
               if sv_exists S now (revoked_key tid) w
               then (Inr None, revoke_token_family S now fid w)
               else (case sv_get S now (refresh_key tid) w of
                   Some (RefreshDoc d) \<Rightarrow>
                     (let p = claims_payload c;
                          w1 = revoke_token S now tid w;
                          w2 = sv_set S now (refresh_key newid)
                                 (RefreshDoc (token_data p fid now (rd_rotationCount d + 1))) (Some refresh_expiry) w1;
                          w3 = sv_sadd S now (family_key fid) newid w2;
                          token = sv_jwt_sign S sec (refresh_claims p newid fid) now refresh_expiry
                      in (Inr (Some (sv_jwt_sign S acc (access_claims p) now access_expiry, token)), w3))
                 | _ \<Rightarrow> (Inr None, w)))))"

text \<open>A token without a token id names the key \<^verbatim>\<open>undefined\<close>.\<close>
definition revoke_refresh_token :: "env \<Rightarrow> 'w services \<Rightarrow> time \<Rightarrow> string \<Rightarrow> 'w \<Rightarrow> bool result \<times> 'w" where
  "revoke_refresh_token E S now token w = (case get_secrets E of Inl e \<Rightarrow> (Inl e, w)
     | Inr (_, sec) \<Rightarrow> (case sv_jwt_decode S sec token of
         None \<Rightarrow> (Inr False, w)
       | Some c \<Rightarrow> (Inr True, revoke_token S now (case cl_refresh c of Some (tid, _) \<Rightarrow> tid | None \<Rightarrow> ''undefined'') w)))"

definition scan_keys :: "'w services \<Rightarrow> time \<Rightarrow> string \<Rightarrow> 'w \<Rightarrow> string list" where
  "scan_keys S now pre w = concat (sv_scan S now pre w)"

definition revoke_if_users :: "'w services \<Rightarrow> time \<Rightarrow> id \<Rightarrow> string \<Rightarrow> 'w \<Rightarrow> 'w" where
  "revoke_if_users S now uid key w = (case sv_get S now key w of
     Some (RefreshDoc d) \<Rightarrow> if rd_userId d = uid then revoke_token_family S now (rd_familyId d) w else w
   | _ \<Rightarrow> w)"

definition revoke_all_user_tokens :: "'w services \<Rightarrow> time \<Rightarrow> id \<Rightarrow> 'w \<Rightarrow> 'w" where
  "revoke_all_user_tokens S now uid w = fold (revoke_if_users S now uid) (scan_keys S now ''refresh:'' w) w"

record token_stats =
  ts_activeTokens :: nat
  ts_revokedTokens :: nat
  ts_tokenFamilies :: nat

definition get_token_stats :: "'w services \<Rightarrow> time \<Rightarrow> 'w \<Rightarrow> token_stats" where
  "get_token_stats S now w = \<lparr> ts_activeTokens = length (scan_keys S now ''refresh:'' w),
     ts_revokedTokens = length (scan_keys S now ''revoked:'' w),
     ts_tokenFamilies = length (scan_keys S now ''token_family:'' w) \<rparr>"

section \<open>Lemmas\<close>

lemma token_keys [simp]:
  "refresh_key a = refresh_key b \<longleftrightarrow> a = b" "revoked_key a = revoked_key b \<longleftrightarrow> a = b"
  "family_key a = family_key b \<longleftrightarrow> a = b"
  "refresh_key a \<noteq> revoked_key b" "revoked_key b \<noteq> refresh_key a" "refresh_key a \<noteq> family_key b"
  "family_key b \<noteq> refresh_key a" "revoked_key a \<noteq> family_key b" "family_key b \<noteq> revoked_key a"
  by (simp_all add: key_simps)

lemma claims_simps [simp]:
  "claims_payload (access_claims p) = p" "claims_payload (refresh_claims p tid fid) = p"
  "cl_refresh (access_claims p) = None" "cl_refresh (refresh_claims p tid fid) = Some (tid, fid)"
  by (simp_all add: access_claims_def refresh_claims_def claims_payload_def)

text \<open>A key that was never written.\<close>
lemma never_written [simp]: "ks k = None \<Longrightarrow> ks_live now ks k = None"
  by (simp add: ks_live_def)

definition revoked_ks :: "time \<Rightarrow> id \<Rightarrow> keyspace \<Rightarrow> keyspace" where
  "revoked_ks now tid ks = ks_set now (revoked_key tid) (Num 1) (Some refresh_expiry) (ks_del (refresh_key tid) ks)"

lemma revoked_ks_other [simp]:
  "k \<noteq> revoked_key tid \<Longrightarrow> k \<noteq> refresh_key tid \<Longrightarrow> ks_live t (revoked_ks now tid ks) k = ks_live t ks k"
  by (simp add: revoked_ks_def)

lemma fold_revoked_other:
  "\<forall>t\<in>set tids. k \<noteq> revoked_key t \<and> k \<noteq> refresh_key t \<Longrightarrow>
   ks_live t (fold (revoked_ks now) tids ks) k = ks_live t ks k"
  by (induction tids arbitrary: ks) simp_all

lemma fold_revoked:
  "tid \<in> set tids \<Longrightarrow> ks_live t (fold (revoked_ks now) tids ks) (refresh_key tid) = None"
  "tid \<in> set tids \<Longrightarrow> t < now + 1000 * refresh_expiry \<Longrightarrow>
     ks_exists t (fold (revoked_ks now) tids ks) (revoked_key tid)"
proof -
  have keep: "ks_live t (fold (revoked_ks now) xs ks) (refresh_key tid) = None"
    if "ks_live t ks (refresh_key tid) = None" for xs ks
    using that by (induction xs arbitrary: ks) (simp_all add: revoked_ks_def ks_live_other ks_set_def ks_del_def ks_live_def)
  have keep': "ks_exists t (fold (revoked_ks now) xs ks) (revoked_key tid)"
    if "ks_exists t ks (revoked_key tid)" "t < now + 1000 * refresh_expiry" for xs ks
    using that by (induction xs arbitrary: ks) (simp_all add: revoked_ks_def ks_set_def ks_del_def ks_live_def ks_exists_def)
  show "tid \<in> set tids \<Longrightarrow> ks_live t (fold (revoked_ks now) tids ks) (refresh_key tid) = None"
    by (induction tids arbitrary: ks) (auto simp: revoked_ks_def intro: keep)
  show "tid \<in> set tids \<Longrightarrow> t < now + 1000 * refresh_expiry \<Longrightarrow>
     ks_exists t (fold (revoked_ks now) tids ks) (revoked_key tid)"
    by (induction tids arbitrary: ks) (auto simp: revoked_ks_def intro: keep')
qed

context services begin

lemma V_revoke_token [simp]: "V (revoke_token S now tid w) = w_ks_update (revoked_ks now tid) (V w)"
  by (simp add: revoke_token_def revoked_ks_def[abs_def] comp_def)

lemma V_fold_revoke: "V (fold (revoke_token S now) tids w) = w_ks_update (fold (revoked_ks now) tids) (V w)"
  by (induction tids arbitrary: w) (simp_all add: comp_def)

lemma V_revoke_family:
  "V (revoke_token_family S now fid w) =
     w_ks_update (\<lambda>ks. ks_del (family_key fid) (fold (revoked_ks now) (sv_smembers S now (family_key fid) w) ks)) (V w)"
  by (simp add: revoke_token_family_def V_fold_revoke comp_def)

text \<open>After a family is revoked none of its members is live and all are marked revoked.\<close>
lemma family_revoked:
  assumes "tid \<in> ks_members now (w_ks (V w)) (family_key fid)"
  shows "ks_live t (w_ks (V (revoke_token_family S now fid w))) (refresh_key tid) = None"
    "t < now + 1000 * refresh_expiry \<Longrightarrow> ks_exists t (w_ks (V (revoke_token_family S now fid w))) (revoked_key tid)"
  using assms by (simp_all add: V_revoke_family fold_revoked smembers_set)

lemma V_generate_refresh:
  assumes "get_secrets E = Inr (acc, sec)" "generate_refresh_token E S now tid fid p w = (r, w')"
  shows "r = Inr (sv_jwt_sign S sec (refresh_claims p tid fid) now refresh_expiry)"
    "V w' = w_ks_update (\<lambda>ks. ks_expire now (family_key fid) refresh_expiry (ks_sadd now (family_key fid) tid
       (ks_set now (refresh_key tid) (RefreshDoc (token_data p fid now 0)) (Some refresh_expiry) ks))) (V w)"
  using assms by (auto simp: generate_refresh_token_def Let_def comp_def)

lemma generate_refresh_keys:
  assumes "get_secrets E = Inr (acc, sec)" "generate_refresh_token E S now tid fid p w = (r, w')"
  shows "w_ks (V w') = ks_expire now (family_key fid) refresh_expiry (ks_sadd now (family_key fid) tid
       (ks_set now (refresh_key tid) (RefreshDoc (token_data p fid now 0)) (Some refresh_expiry) (w_ks (V w))))"
  using V_generate_refresh(2)[OF assms] by simp

lemma rotate_ok:
  assumes "get_secrets E = Inr (acc, sec)" "sv_jwt_verify S sec now old = Inr c" "cl_refresh c = Some (tid, fid)"
    "\<not> ks_exists now (w_ks (V w)) (revoked_key tid)" "ks_get now (w_ks (V w)) (refresh_key tid) = Some (RefreshDoc d)"
    "rotate_refresh_token E S now newid old w = (r, w')"
  shows "r = Inr (Some (sv_jwt_sign S acc (access_claims (claims_payload c)) now access_expiry,
      sv_jwt_sign S sec (refresh_claims (claims_payload c) newid fid) now refresh_expiry))"
    "V w' = w_ks_update (\<lambda>ks. ks_sadd now (family_key fid) newid
       (ks_set now (refresh_key newid) (RefreshDoc (token_data (claims_payload c) fid now (rd_rotationCount d + 1)))
         (Some refresh_expiry) (revoked_ks now tid ks))) (V w)"
  using assms by (auto simp: rotate_refresh_token_def Let_def comp_def)

lemma rotate_reuse:
  assumes "get_secrets E = Inr (acc, sec)" "sv_jwt_verify S sec now old = Inr c" "cl_refresh c = Some (tid, fid)"
    "ks_exists now (w_ks (V w)) (revoked_key tid)"
  shows "rotate_refresh_token E S now newid old w = (Inr None, revoke_token_family S now fid w)"
  using assms by (simp add: rotate_refresh_token_def)

end

section \<open>Properties\<close>

context services begin

lemma jwt_fresh: "now div 1000 < iat div 1000 + d \<Longrightarrow> sv_jwt_verify S sec now (sv_jwt_sign S sec c iat d) = Inr c"
  by (simp add: jwt_verify_sign)

text \<open>A session: the first token of a family is issued and then rotated once.\<close>
lemma issued_and_rotated:
  assumes sec: "get_secrets E = Inr (acc, sec)"
    and fresh: "w_ks (V w) (family_key fid) = None" "w_ks (V w) (revoked_key tid) = None" "tid \<noteq> tid1"
    and gen: "generate_refresh_token E S t0 tid fid p w = (Inr tok, w0)"
    and rot: "rotate_refresh_token E S t1 tid1 tok w0 = (r1, w1)"
    and t: "t0 \<le> t1" "t1 div 1000 < t0 div 1000 + refresh_expiry"
  shows "r1 = Inr (Some (sv_jwt_sign S acc (access_claims p) t1 access_expiry,
        sv_jwt_sign S sec (refresh_claims p tid1 fid) t1 refresh_expiry))"
    and "tok = sv_jwt_sign S sec (refresh_claims p tid fid) t0 refresh_expiry"
    and "t < t1 + 1000 * refresh_expiry \<Longrightarrow> ks_exists t (w_ks (V w1)) (revoked_key tid)"
    and "t < t0 + 1000 * refresh_expiry \<Longrightarrow> ks_members t (w_ks (V w1)) (family_key fid) = {tid, tid1}"
    and "ks_live t (w_ks (V w1)) (family_key fid) = (if t < t0 + 1000 * refresh_expiry
      then Some (RSet {|tid1, tid|}, Some (t0 + 1000 * refresh_expiry)) else None)"
    and "x \<noteq> tid \<Longrightarrow> ks_live t (w_ks (V w1)) (revoked_key x) = ks_live t (w_ks (V w)) (revoked_key x)"
    and "t < t1 + 1000 * refresh_expiry \<Longrightarrow>
      ks_get t (w_ks (V w1)) (refresh_key tid1) = Some (RefreshDoc (token_data p fid t1 1))"
proof -
  note g = V_generate_refresh[OF sec gen]
  show tok: "tok = sv_jwt_sign S sec (refresh_claims p tid fid) t0 refresh_expiry" using g(1) by simp
  have lt: "t1 < t0 + 1000 * refresh_expiry" using t by (simp add: refresh_expiry_def)
  have ver: "sv_jwt_verify S sec t1 tok = Inr (refresh_claims p tid fid)"
    unfolding tok by (rule jwt_fresh[OF t(2)])
  have F: "ks_expire t0 (family_key fid) refresh_expiry (ks_sadd t0 (family_key fid) tid
       (ks_set t0 (refresh_key tid) (RefreshDoc (token_data p fid t0 0)) (Some refresh_expiry) (w_ks (V w)))) =
     (w_ks (V w))(refresh_key tid \<mapsto> (RStr (RefreshDoc (token_data p fid t0 0)), Some (t0 + 1000 * refresh_expiry)),
       family_key fid \<mapsto> (RSet {|tid|}, Some (t0 + 1000 * refresh_expiry)))"
    using fresh(1) by (simp add: ks_expire_def ks_sadd_def ks_set_def ks_live_def)
  have ks0: "w_ks (V w0) = \<dots>" using g(2) F by simp
  have nr: "\<not> ks_exists t1 (w_ks (V w0)) (revoked_key tid)"
    using fresh(2) by (simp add: ks0 ks_exists_def)
  have get0: "ks_get t1 (w_ks (V w0)) (refresh_key tid) = Some (RefreshDoc (token_data p fid t0 0))"
    using lt by (simp add: ks0 ks_get_def)
  note r = rotate_ok[OF sec ver _ nr get0 rot, simplified]
  show "r1 = Inr (Some (sv_jwt_sign S acc (access_claims p) t1 access_expiry,
        sv_jwt_sign S sec (refresh_claims p tid1 fid) t1 refresh_expiry))"
    using r(1) by simp
  define ks' where "ks' = ks_set t1 (refresh_key tid1) (RefreshDoc (token_data p fid t1 1)) (Some refresh_expiry)
     (revoked_ks t1 tid (w_ks (V w0)))"
  have ks1: "w_ks (V w1) = ks_sadd t1 (family_key fid) tid1 ks'"
    using r(2) by (simp add: ks'_def token_data_def)
  have "ks_live t1 ks' (family_key fid) = Some (RSet {|tid|}, Some (t0 + 1000 * refresh_expiry))"
    using lt by (simp add: ks'_def ks0)
  then have sadd: "ks_sadd t1 (family_key fid) tid1 ks' =
      ks'(family_key fid \<mapsto> (RSet {|tid1, tid|}, Some (t0 + 1000 * refresh_expiry)))"
    by (simp add: ks_sadd_def)
  show "t < t0 + 1000 * refresh_expiry \<Longrightarrow> ks_members t (w_ks (V w1)) (family_key fid) = {tid, tid1}"
    "ks_live t (w_ks (V w1)) (family_key fid) = (if t < t0 + 1000 * refresh_expiry
      then Some (RSet {|tid1, tid|}, Some (t0 + 1000 * refresh_expiry)) else None)"
    by (auto simp: ks1 sadd ks_members_def)
  show "t < t1 + 1000 * refresh_expiry \<Longrightarrow> ks_exists t (w_ks (V w1)) (revoked_key tid)"
    by (simp add: ks1 ks'_def revoked_ks_def)
  show "x \<noteq> tid \<Longrightarrow> ks_live t (w_ks (V w1)) (revoked_key x) = ks_live t (w_ks (V w)) (revoked_key x)"
    by (simp add: ks1 ks'_def ks0)
  show "t < t1 + 1000 * refresh_expiry \<Longrightarrow>
      ks_get t (w_ks (V w1)) (refresh_key tid1) = Some (RefreshDoc (token_data p fid t1 1))"
    by (simp add: ks1 ks'_def)
qed

end

lemma live_of_entry: "ks k = ks' k \<Longrightarrow> ks_live t ks k = ks_live t ks' k"
  by (simp add: ks_live_def)

lemma live_earlier: "ks_live t2 ks k = Some v \<Longrightarrow> t1 \<le> t2 \<Longrightarrow> ks_live t1 ks k = Some v"
  by (auto simp: ks_live_def split: option.splits prod.splits if_splits)

lemma sadd_live:
  assumes "ks_live t2 ks k = Some (RSet M, ex)" "t1 \<le> t2"
  shows "ks_live t2 (ks_sadd t1 k x ks) k = Some (RSet (finsert x M), ex)"
proof -
  have "ks_live t1 ks k = Some (RSet M, ex)" by (rule live_earlier[OF assms])
  then have "ks_sadd t1 k x ks = ks(k \<mapsto> (RSet (finsert x M), ex))" by (simp add: ks_sadd_def)
  then show ?thesis using assms(1) by (auto simp: ks_live_def split: option.splits prod.splits if_splits)
qed

text \<open>A token of the family, as it was signed at some time.\<close>
abbreviation family_token :: "'w services \<Rightarrow> string \<Rightarrow> jwt_payload \<Rightarrow> id \<Rightarrow> id \<Rightarrow> time \<Rightarrow> string" where
  "family_token S sec p tid fid t \<equiv> sv_jwt_sign S sec (refresh_claims p tid fid) t refresh_expiry"

context services begin

text \<open>A token whose mark as revoked was set after it was signed is never accepted again.\<close>
lemma revoked_refused:
  assumes "get_secrets E = Inr (acc, sec)" "ks_live t (w_ks (V w)) (revoked_key x) \<noteq> None \<or> t0 + 1000 * refresh_expiry \<le> t" "s \<le> t0"
  shows "fst (rotate_refresh_token E S t tid' (family_token S sec p x fid s) w) = Inr None"
proof (cases "t div 1000 < s div 1000 + refresh_expiry")
  case True
  then have "t < t0 + 1000 * refresh_expiry" using assms(3) by (simp add: refresh_expiry_def)
  then have "ks_exists t (w_ks (V w)) (revoked_key x)" using assms(2) by (auto simp: ks_exists_def)
  then show ?thesis using rotate_reuse[OF assms(1) jwt_fresh[OF True]] by simp
next
  case False
  then show ?thesis using assms(1) by (simp add: rotate_refresh_token_def jwt_verify_sign)
qed

end

text \<open>The second use of a rotated token ends the session.\<close>
context services begin

lemma reuse_ends_family:
  assumes "get_secrets E = Inr (acc, sec)"
    and live: "\<not> ks_exists t1 (w_ks (V w)) (revoked_key tid)" "ks_get t1 (w_ks (V w)) (refresh_key tid) = Some (RefreshDoc d)"
    and fam: "ks_live t2 (w_ks (V w)) (family_key fid) = Some (RSet M, ex)" and new: "tid \<noteq> tid1"
    and rot1: "rotate_refresh_token E S t1 tid1 (family_token S sec p tid fid t0) w = (r1, w1)"
    and kept: "w_ks (V w2) (revoked_key tid) = w_ks (V w1) (revoked_key tid)"
      "ks_members t2 (w_ks (V w1)) (family_key fid) \<subseteq> ks_members t2 (w_ks (V w2)) (family_key fid)"
    and rot2: "rotate_refresh_token E S t2 tid2 (family_token S sec p tid fid t0) w2 = (r2, w3)"
    and times: "t0 \<le> t1" "t1 \<le> t2" "t2 div 1000 < t0 div 1000 + refresh_expiry"
  shows "\<exists>a. r1 = Inr (Some (a, family_token S sec p tid1 fid t1))
    \<and> (\<forall>t. t div 1000 < t1 div 1000 + access_expiry \<longrightarrow> verify_access_token E S t a = Inr p)
    \<and> r2 = Inr None \<and> tid1 \<in> ks_members t2 (w_ks (V w2)) (family_key fid)
    \<and> (\<forall>x\<in>ks_members t2 (w_ks (V w2)) (family_key fid). \<forall>q s t3 w4 tid3. s \<le> t2
        \<and> w_ks (V w4) (revoked_key x) = w_ks (V w3) (revoked_key x) \<longrightarrow>
        fst (rotate_refresh_token E S t3 tid3 (family_token S sec q x fid s) w4) = Inr None)"
proof -
  have t1: "t1 div 1000 < t0 div 1000 + refresh_expiry" using times zdiv_mono1[of t1 t2 1000] by linarith
  have lt: "t2 < t1 + 1000 * refresh_expiry" using times by (simp add: refresh_expiry_def)
  note ok = rotate_ok[OF assms(1) jwt_fresh[OF t1] _ live rot1, simplified]
  have rev1: "ks_live t2 (w_ks (V w1)) (revoked_key tid) \<noteq> None" using lt new by (simp add: ok(2) revoked_ks_def)
  then have "ks_exists t2 (w_ks (V w2)) (revoked_key tid)"
    using live_of_entry[of "w_ks (V w2)" "revoked_key tid" "w_ks (V w1)" t2] kept(1) by (simp add: ks_exists_def)
  then have r2: "r2 = Inr None" "w3 = revoke_token_family S t2 fid w2"
    using rotate_reuse[OF assms(1) jwt_fresh[OF times(3)]] rot2 by simp_all
  define ks' where "ks' = ks_set t1 (refresh_key tid1) (RefreshDoc (token_data p fid t1 (rd_rotationCount d + 1))) (Some refresh_expiry)
     (revoked_ks t1 tid (w_ks (V w)))"
  have "ks_live t2 ks' (family_key fid) = Some (RSet M, ex)" using fam by (simp add: ks'_def)
  then have "tid1 \<in> ks_members t2 (w_ks (V w1)) (family_key fid)"
    using sadd_live[of t2 ks' "family_key fid" M ex t1 tid1] times(2) by (simp add: ok(2) ks'_def[symmetric] ks_members_def)
  then have mem: "tid1 \<in> ks_members t2 (w_ks (V w2)) (family_key fid)" using kept(2) by blast
  have "fst (rotate_refresh_token E S t3 tid3 (family_token S sec q x fid s) w4) = Inr None"
    if x: "x \<in> ks_members t2 (w_ks (V w2)) (family_key fid)" and s: "s \<le> t2"
      and w4: "w_ks (V w4) (revoked_key x) = w_ks (V w3) (revoked_key x)" for x q s t3 w4 tid3
  proof (rule revoked_refused[OF assms(1) _ s])
    show "ks_live t3 (w_ks (V w4)) (revoked_key x) \<noteq> None \<or> t2 + 1000 * refresh_expiry \<le> t3"
      using family_revoked(2)[OF x, of t3] live_of_entry[of "w_ks (V w4)" "revoked_key x" "w_ks (V w3)" t3] w4 by (auto simp: r2(2) ks_exists_def)
  qed
  then show ?thesis using ok(1) r2(1) mem jwt_fresh[of _ t1 access_expiry acc "access_claims p"] assms(1)
    by (auto simp: verify_access_token_def)
qed

end

text \<open>C23: Reuse of a rotated refresh token is detected and kills its family, as long as the family is on record. Take any
  refresh token that is in use: signed at some time, not revoked, with its record. Its rotation answers
  an access token of the same identity, valid for its day, and a
  new refresh token. Whenever the old token is presented again while its own week has not passed and the set of its family,
  which lives for a week from the first token of the family, is still there, with whatever rotations and other operations in between that keep its mark
  as revoked and the members of the set, the answer is a
  refusal, and from then on every refresh token of the family that was signed until then, the new one among them, is refused for ever, in every later
  world that keeps the marks this sets (after the set has expired the reuse is refused and the successor stays usable: \<^verbatim>\<open>reuse_undetected_after_family_expiry\<close>).\<close>
theorem refresh_reuse_revokes_family:
  assumes "services S V" "get_secrets E = Inr (acc, sec)"
    "\<not> ks_exists t1 (w_ks (V w)) (revoked_key tid)" "ks_get t1 (w_ks (V w)) (refresh_key tid) = Some (RefreshDoc d)"
    "ks_live t2 (w_ks (V w)) (family_key fid) = Some (RSet M, ex)" "tid \<noteq> tid1"
    "rotate_refresh_token E S t1 tid1 (family_token S sec p tid fid t0) w = (r1, w1)"
    "w_ks (V w2) (revoked_key tid) = w_ks (V w1) (revoked_key tid)"
    "ks_members t2 (w_ks (V w1)) (family_key fid) \<subseteq> ks_members t2 (w_ks (V w2)) (family_key fid)"
    "rotate_refresh_token E S t2 tid2 (family_token S sec p tid fid t0) w2 = (r2, w3)"
    "t0 \<le> t1" "t1 \<le> t2" "t2 div 1000 < t0 div 1000 + refresh_expiry"
  shows "\<exists>a. r1 = Inr (Some (a, family_token S sec p tid1 fid t1))
    \<and> (\<forall>t. t div 1000 < t1 div 1000 + access_expiry \<longrightarrow> verify_access_token E S t a = Inr p)
    \<and> r2 = Inr None \<and> tid1 \<in> ks_members t2 (w_ks (V w2)) (family_key fid)
    \<and> (\<forall>x\<in>ks_members t2 (w_ks (V w2)) (family_key fid). \<forall>q s t3 w4 tid3. s \<le> t2
        \<and> w_ks (V w4) (revoked_key x) = w_ks (V w3) (revoked_key x) \<longrightarrow>
        fst (rotate_refresh_token E S t3 tid3 (family_token S sec q x fid s) w4) = Inr None)"
  by (rule services.reuse_ends_family[OF assms])

context services begin

lemma reuse_after_expiry:
  assumes "get_secrets E = Inr (acc, sec)"
    "w_ks (V w) (family_key fid) = None" "w_ks (V w) (revoked_key tid) = None" "tid \<noteq> tid1"
    "w_ks (V w) (revoked_key tid1) = None" "tid1 \<noteq> tid2" "w_ks (V w) (revoked_key tid2) = None" "tid \<noteq> tid2"
    "generate_refresh_token E S t0 tid fid p w = (Inr tok, w0)"
    "rotate_refresh_token E S t1 tid1 tok w0 = (Inr (Some (a1, tok1)), w1)"
    "rotate_refresh_token E S t2 tid2 tok1 w1 = (Inr (Some (a2, tok2)), w2)"
    "rotate_refresh_token E S t3 tid3 tok1 w2 = (r3, w3)"
    "t0 \<le> t1" "t1 \<le> t2" "t2 div 1000 < t0 div 1000 + refresh_expiry"
    "t0 + 1000 * refresh_expiry \<le> t3" "t3 div 1000 < t1 div 1000 + refresh_expiry"
  shows "r3 = Inr None \<and> (\<exists>a3 tok3. fst (rotate_refresh_token E S t3 tid4 tok2 w3) = Inr (Some (a3, tok3)))"
proof -
  have mono: "t1 div 1000 \<le> t2 div 1000" "t0 div 1000 \<le> t1 div 1000"
    using assms(13,14) by (simp_all add: zdiv_mono1)
  have t1: "t1 div 1000 < t0 div 1000 + refresh_expiry" and t2: "t2 div 1000 < t1 div 1000 + refresh_expiry"
    using mono assms(15) by linarith+
  have lt: "t2 < t0 + 1000 * refresh_expiry" "t2 < t1 + 1000 * refresh_expiry" "t3 < t2 + 1000 * refresh_expiry"
    using assms(14,15,17) t2 mono by (simp_all add: refresh_expiry_def)
  note run = issued_and_rotated[OF assms(1-4,9,10,13) t1]
  have tok1: "tok1 = sv_jwt_sign S sec (refresh_claims p tid1 fid) t1 refresh_expiry" using run(1) by simp
  have ver1: "t div 1000 < t1 div 1000 + refresh_expiry \<Longrightarrow> sv_jwt_verify S sec t tok1 = Inr (refresh_claims p tid1 fid)" for t
    unfolding tok1 by (rule jwt_fresh)
  have nr: "\<not> ks_exists t2 (w_ks (V w1)) (revoked_key tid1)"
    using run(6)[of tid1 t2] assms(4,5) by (simp add: ks_exists_def)
  note r = rotate_ok[OF assms(1) ver1[OF t2] _ nr run(7)[OF lt(2)] assms(11), simplified]
  define ks' where "ks' = ks_set t2 (refresh_key tid2) (RefreshDoc (token_data p fid t2 2)) (Some refresh_expiry)
     (revoked_ks t2 tid1 (w_ks (V w1)))"
  have ks2: "w_ks (V w2) = ks_sadd t2 (family_key fid) tid2 ks'"
    using r(2) by (simp add: ks'_def token_data_def)
  have "ks_live t2 ks' (family_key fid) = Some (RSet {|tid1, tid|}, Some (t0 + 1000 * refresh_expiry))"
    using lt(1) run(5)[of t2] by (simp add: ks'_def)
  then have sadd: "ks_sadd t2 (family_key fid) tid2 ks' =
      ks'(family_key fid \<mapsto> (RSet {|tid2, tid1, tid|}, Some (t0 + 1000 * refresh_expiry)))"
    by (simp add: ks_sadd_def)
  have rev1: "ks_exists t3 (w_ks (V w2)) (revoked_key tid1)"
    using lt(3) by (simp add: ks2 sadd ks'_def ks_exists_def revoked_ks_def)
  have mem: "ks_members t3 (w_ks (V w2)) (family_key fid) = {}"
    using assms(16) by (simp add: ks2 sadd ks_members_def)
  have r3: "r3 = Inr None" "w3 = revoke_token_family S t3 fid w2"
    using rotate_reuse[OF assms(1) ver1[OF assms(17)] _ rev1, of fid tid3] assms(12) by simp_all
  have "sv_smembers S t3 (family_key fid) w2 = []"
    using mem smembers_set[of t3 "family_key fid" w2] by simp
  then have ks3: "w_ks (V w3) = ks_del (family_key fid) (w_ks (V w2))"
    by (simp add: r3(2) V_revoke_family)
  have "tok2 = sv_jwt_sign S sec (refresh_claims p tid2 fid) t2 refresh_expiry" using r(1) by simp
  then have ver2: "sv_jwt_verify S sec t3 tok2 = Inr (refresh_claims p tid2 fid)"
    using jwt_fresh[of t3 t2 refresh_expiry sec "refresh_claims p tid2 fid"] assms(17) mono by simp
  have nr2: "\<not> ks_exists t3 (w_ks (V w3)) (revoked_key tid2)"
  proof -
    have "ks_live t3 (w_ks (V w1)) (revoked_key tid2) = ks_live t3 (w_ks (V w)) (revoked_key tid2)"
      by (rule run(6)) (use assms(8) in simp)
    then show ?thesis using assms(6,7) by (simp add: ks3 ks2 sadd ks'_def ks_exists_def)
  qed
  have get2: "ks_get t3 (w_ks (V w3)) (refresh_key tid2) = Some (RefreshDoc (token_data p fid t2 2))"
    using lt(3) by (simp add: ks3 ks2 sadd ks'_def ks_get_def)
  obtain r4 w4 where run4: "rotate_refresh_token E S t3 tid4 tok2 w3 = (r4, w4)" by force
  then show ?thesis using rotate_ok(1)[OF assms(1) ver2 _ nr2 get2 run4, of fid] r3(1) by simp
qed

end

text \<open>The detection does not outlive the first token of the family: rotation adds the new token to
  the family set but does not extend the set's week. A rotated token that is presented again after
  the first token's week, while it is itself still valid, is refused, but the token that was
  issued in its place stays usable.\<close>
theorem reuse_undetected_after_family_expiry:
  assumes "services S V" "get_secrets E = Inr (acc, sec)"
    "w_ks (V w) (family_key fid) = None" "w_ks (V w) (revoked_key tid) = None" "tid \<noteq> tid1"
    "w_ks (V w) (revoked_key tid1) = None" "tid1 \<noteq> tid2" "w_ks (V w) (revoked_key tid2) = None" "tid \<noteq> tid2"
    "generate_refresh_token E S t0 tid fid p w = (Inr tok, w0)"
    "rotate_refresh_token E S t1 tid1 tok w0 = (Inr (Some (a1, tok1)), w1)"
    "rotate_refresh_token E S t2 tid2 tok1 w1 = (Inr (Some (a2, tok2)), w2)"
    "rotate_refresh_token E S t3 tid3 tok1 w2 = (r3, w3)"
    "t0 \<le> t1" "t1 \<le> t2" "t2 div 1000 < t0 div 1000 + refresh_expiry"
    "t0 + 1000 * refresh_expiry \<le> t3" "t3 div 1000 < t1 div 1000 + refresh_expiry"
  shows "r3 = Inr None \<and> (\<exists>a3 tok3. fst (rotate_refresh_token E S t3 tid4 tok2 w3) = Inr (Some (a3, tok3)))"
  using assms by (rule services.reuse_after_expiry)

definition demo_env :: env where
  "demo_env = \<lparr> env_jwt_secret = Some ''s1'', env_jwt_refresh_secret = None, env_production = False,
     env_bcrypt_rounds = 10, env_first_admin_bootstrap = False \<rparr>"

lemma demo_secrets: "get_secrets demo_env = Inr (''s1'', ''s1'')"
  by (simp add: get_secrets_def demo_env_def)

text \<open>A token just issued is in use.\<close>
lemma demo_issued:
  "w_ks (ref_view (snd (generate_refresh_token demo_env ref_services 1000 ''t0'' ''f'' demo_candidate demo_world))) =
     [refresh_key ''t0'' \<mapsto> (RStr (RefreshDoc (token_data demo_candidate ''f'' 1000 0)), Some 604801000),
      family_key ''f'' \<mapsto> (RSet {|''t0''|}, Some 604801000)]"
proof -
  obtain r w' where g: "generate_refresh_token demo_env ref_services 1000 ''t0'' ''f'' demo_candidate demo_world = (r, w')" by force
  have "w_ks (ref_view w') = ks_expire 1000 (family_key ''f'') refresh_expiry (ks_sadd 1000 (family_key ''f'') ''t0''
       (ks_set 1000 (refresh_key ''t0'') (RefreshDoc (token_data demo_candidate ''f'' 1000 0)) (Some refresh_expiry) (w_ks demo)))"
    by (rule ref.generate_refresh_keys[OF demo_secrets g])
  then show ?thesis
    by (simp only: g snd_conv) (simp add: ks_expire_def ks_sadd_def ks_set_def ks_live_def refresh_expiry_def)
qed

theorem refresh_reuse_revokes_family_witness:
  "\<exists>tok w0 r1 w1 r2 w2 a tok1.
     generate_refresh_token demo_env ref_services 1000 ''t0'' ''f'' demo_candidate demo_world = (Inr tok, w0)
   \<and> rotate_refresh_token demo_env ref_services 5000 ''t1'' tok w0 = (r1, w1) \<and> r1 = Inr (Some (a, tok1))
   \<and> rotate_refresh_token demo_env ref_services 500000000 ''t2'' tok w1 = (r2, w2) \<and> r2 = Inr None
   \<and> fst (rotate_refresh_token demo_env ref_services 700000000 ''t3'' tok1 w2) = Inr None"
proof -
  let ?tok = "family_token ref_services ''s1'' demo_candidate ''t0'' ''f'' 1000"
  define w0 where "w0 = snd (generate_refresh_token demo_env ref_services 1000 ''t0'' ''f'' demo_candidate demo_world)"
  have g: "generate_refresh_token demo_env ref_services 1000 ''t0'' ''f'' demo_candidate demo_world = (Inr ?tok, w0)"
    by (simp add: w0_def generate_refresh_token_def demo_secrets Let_def)
  have ks: "w_ks (ref_view w0) = [refresh_key ''t0'' \<mapsto> (RStr (RefreshDoc (token_data demo_candidate ''f'' 1000 0)), Some 604801000),
      family_key ''f'' \<mapsto> (RSet {|''t0''|}, Some 604801000)]" unfolding w0_def by (rule demo_issued)
  have live: "\<not> ks_exists 5000 (w_ks (ref_view w0)) (revoked_key ''t0'')"
    "ks_get 5000 (w_ks (ref_view w0)) (refresh_key ''t0'') = Some (RefreshDoc (token_data demo_candidate ''f'' 1000 0))"
    "ks_live 500000000 (w_ks (ref_view w0)) (family_key ''f'') = Some (RSet {|''t0''|}, Some 604801000)"
    unfolding ks by (simp_all add: ks_exists_def ks_get_def ks_live_def)
  obtain r1 w1 where r1: "rotate_refresh_token demo_env ref_services 5000 ''t1'' ?tok w0 = (r1, w1)" by force
  obtain r2 w2 where r2: "rotate_refresh_token demo_env ref_services 500000000 ''t2'' ?tok w1 = (r2, w2)" by force
  have t: "''t0'' \<noteq> ''t1''" "(1000::int) \<le> 5000" "(5000::int) \<le> 500000000" "500000000 div 1000 < 1000 div 1000 + refresh_expiry"
    by (simp_all add: refresh_expiry_def)
  obtain a where a: "r1 = Inr (Some (a, family_token ref_services ''s1'' demo_candidate ''t1'' ''f'' 5000))" "r2 = Inr None"
    "fst (rotate_refresh_token demo_env ref_services 700000000 ''t3'' (family_token ref_services ''s1'' demo_candidate ''t1'' ''f'' 5000) w2) = Inr None"
    using refresh_reuse_revokes_family[OF ref.services_axioms demo_secrets live t(1) r1 refl subset_refl r2 t(2-4)] t(3) by blast
  then show ?thesis using g r1 r2 by blast
qed

theorem reuse_undetected_witness:
  "\<exists>tok w0 a1 tok1 w1 a2 tok2 w2 r3 w3 a3 tok3.
     generate_refresh_token demo_env ref_services 1000 ''t0'' ''f'' demo_candidate demo_world = (Inr tok, w0)
   \<and> rotate_refresh_token demo_env ref_services 300001000 ''t1'' tok w0 = (Inr (Some (a1, tok1)), w1)
   \<and> rotate_refresh_token demo_env ref_services 400001000 ''t2'' tok1 w1 = (Inr (Some (a2, tok2)), w2)
   \<and> rotate_refresh_token demo_env ref_services 700001000 ''t3'' tok1 w2 = (r3, w3) \<and> r3 = Inr None
   \<and> fst (rotate_refresh_token demo_env ref_services 700001000 ''t4'' tok2 w3) = Inr (Some (a3, tok3))"
proof -
  obtain tok w0 where g: "generate_refresh_token demo_env ref_services 1000 ''t0'' ''f'' demo_candidate demo_world = (Inr tok, w0)"
    by (simp add: generate_refresh_token_def demo_secrets Let_def)
  obtain x w1 where x: "rotate_refresh_token demo_env ref_services 300001000 ''t1'' tok w0 = (x, w1)" by force
  have f: "w_ks demo (family_key ''f'') = None" "w_ks demo (revoked_key ''t0'') = None" "''t0'' \<noteq> ''t1''"
    "(1000::int) \<le> 300001000" "300001000 div 1000 < 1000 div 1000 + refresh_expiry"
    by (simp_all add: refresh_expiry_def)
  note run = ref.issued_and_rotated[OF demo_secrets f(1,2,3) g x f(4,5)]
  obtain a1 tok1 where x1: "x = Inr (Some (a1, tok1))"
    and tok1: "tok1 = sv_jwt_sign ref_services ''s1'' (refresh_claims demo_candidate ''t1'' ''f'') 300001000 refresh_expiry"
    using run(1) by blast
  have r1: "rotate_refresh_token demo_env ref_services 300001000 ''t1'' tok w0 = (Inr (Some (a1, tok1)), w1)"
    using x x1 by simp
  obtain y w2 where y: "rotate_refresh_token demo_env ref_services 400001000 ''t2'' tok1 w1 = (y, w2)" by force
  have ver: "sv_jwt_verify ref_services ''s1'' 400001000 tok1 = Inr (refresh_claims demo_candidate ''t1'' ''f'')"
    unfolding tok1 by (rule ref.jwt_fresh) (simp add: refresh_expiry_def)
  have nr: "\<not> ks_exists 400001000 (w_ks (ref_view w1)) (revoked_key ''t1'')"
    using run(6)[of "''t1''" 400001000] by (simp add: ks_exists_def)
  have lt: "(400001000::int) < 300001000 + 1000 * refresh_expiry" by (simp add: refresh_expiry_def)
  have "y = Inr (Some (sv_jwt_sign ref_services ''s1'' (access_claims demo_candidate) 400001000 access_expiry,
      sv_jwt_sign ref_services ''s1'' (refresh_claims demo_candidate ''t2'' ''f'') 400001000 refresh_expiry))"
    using ref.rotate_ok(1)[OF demo_secrets ver _ nr run(7)[OF lt] y, of "''f''"] by simp
  then obtain a2 tok2 where r2: "rotate_refresh_token demo_env ref_services 400001000 ''t2'' tok1 w1 = (Inr (Some (a2, tok2)), w2)"
    using y by blast
  obtain r3 w3 where r3: "rotate_refresh_token demo_env ref_services 700001000 ''t3'' tok1 w2 = (r3, w3)" by force
  show ?thesis
    using reuse_undetected_after_family_expiry[OF ref.services_axioms demo_secrets f(1,2,3) _ _ _ _ g r1 r2 r3, of "''t4''"] g r1 r2 r3
    by (auto simp: refresh_expiry_def)
qed

end
