(* ===== verification/Auth_Middleware.thy ===== *)
theory Auth_Middleware
  imports Token_Manager
begin

text \<open>
  \<^verbatim>\<open>apps/api/src/middleware/auth.ts\<close> and \<^verbatim>\<open>errorHandler.ts\<close>: the identity of a
  request, the role and approval checks, the legacy token of a week, and what the client sees of an
  error. A middleware either fails with an error or passes the identity on.
\<close>

section \<open>The secret\<close>

text \<open>The module leaves the process in production without a secret.\<close>
definition auth_secret :: "env \<Rightarrow> string option" where
  "auth_secret E = (case str_opt (env_jwt_secret E) of
     Some s \<Rightarrow> Some s
   | None \<Rightarrow> if env_production E then None else Some ''dev-only-secret-change-in-production'')"

section \<open>authenticate\<close>

text \<open>A token is read from the header by splitting it at spaces.\<close>
definition bearer_token :: "string option \<Rightarrow> string option" where
  "bearer_token header = (case header of None \<Rightarrow> None
     | Some h \<Rightarrow> if prefix ''Bearer '' h then Some (str_split CHR '' '' h ! 1) else None)"

definition authenticate :: "'w services \<Rightarrow> string \<Rightarrow> time \<Rightarrow> string option \<Rightarrow> jwt_payload result" where
  "authenticate S secret now header = (case bearer_token header of
     None \<Rightarrow> api_error ''Authorization header missing or invalid'' 401
   | Some token \<Rightarrow>
       (case sv_jwt_verify S secret now token of
          Inl TokenExpired \<Rightarrow> api_error ''Token has expired. Please log in again.'' 401
        | Inl JsonWebTokenError \<Rightarrow> api_error ''Invalid token. Please log in again.'' 401
        | Inr c \<Rightarrow> Inr (claims_payload c)))"

section \<open>requireRole and requireApproved\<close>

definition require_role :: "'w services \<Rightarrow> role list \<Rightarrow> jwt_payload option \<Rightarrow> 'w \<Rightarrow> unit result" where
  "require_role S roles user w = (case user of
     None \<Rightarrow> api_error ''Not authenticated'' 401
   | Some p \<Rightarrow>
       if jp_role p \<notin> set roles then api_error ''Insufficient permissions'' 403
       else if jp_role p = ADMIN \<or> jp_role p = REVIEWER
       then (case find_user S (jp_userId p) w of
            None \<Rightarrow> api_error ''User not found'' 404
          | Some u \<Rightarrow>
             (case u_approvalStatus u of
                APPROVED \<Rightarrow> Inr ()
              | PENDING \<Rightarrow> api_error ''Your account is pending approval. Please wait for an admin to approve your account.'' 403
              | REJECTED \<Rightarrow> api_error ''Your account registration was rejected. Please contact support.'' 403))
       else Inr ())"

definition require_approved :: "'w services \<Rightarrow> jwt_payload option \<Rightarrow> 'w \<Rightarrow> unit result" where
  "require_approved S user w = (case user of
     None \<Rightarrow> api_error ''Not authenticated'' 401
   | Some p \<Rightarrow>
      (case find_user S (jp_userId p) w of
         None \<Rightarrow> api_error ''User not found'' 404
       | Some u \<Rightarrow> if u_role u \<noteq> CANDIDATE \<and> u_approvalStatus u \<noteq> APPROVED
                   then api_error ''Account not approved'' 403 else Inr ()))"

definition generate_token :: "'w services \<Rightarrow> string \<Rightarrow> time \<Rightarrow> jwt_payload \<Rightarrow> string" where
  "generate_token S secret now p = sv_jwt_sign S secret (access_claims p) now (7 * 24 * 60 * 60)"

definition verify_token :: "'w services \<Rightarrow> string \<Rightarrow> time \<Rightarrow> string \<Rightarrow> jwt_failure + jwt_payload" where
  "verify_token S secret now token = map_sum id claims_payload (sv_jwt_verify S secret now token)"

section \<open>The error handler\<close>

record response =
  rs_status :: int
  rs_error :: string
  rs_message :: "string option"
  rs_meta :: error_meta

text \<open>The message of a ZodError is the library's.\<close>
definition error_handler :: "string \<Rightarrow> error \<Rightarrow> response" where
  "error_handler zod_message err = (case err of
     ApiError m c meta \<Rightarrow> \<lparr> rs_status = c, rs_error = m, rs_message = None, rs_meta = meta \<rparr>
   | ZodError \<Rightarrow> \<lparr> rs_status = 400, rs_error = ''Validation error'', rs_message = Some zod_message, rs_meta = NoMeta \<rparr>
   | TypeError \<Rightarrow> \<lparr> rs_status = 500, rs_error = ''Internal server error'', rs_message = None, rs_meta = NoMeta \<rparr>
   | PlainError _ \<Rightarrow> \<lparr> rs_status = 500, rs_error = ''Internal server error'', rs_message = None, rs_meta = NoMeta \<rparr>)"

section \<open>Lemmas\<close>

lemma str_split_append: "c \<notin> set v \<Longrightarrow> str_split c (v @ c # t) = v # str_split c t"
  by (induction v) auto

lemma str_split_none: "c \<notin> set v \<Longrightarrow> str_split c v = [v]"
  by (induction v) auto

text \<open>A token without spaces is read back from the header that carries it.\<close>
lemma bearer_token_read: "CHR '' '' \<notin> set t \<Longrightarrow> bearer_token (Some (''Bearer '' @ t)) = Some t"
proof -
  assume t: "CHR '' '' \<notin> set t"
  have "str_split CHR '' '' (''Bearer'' @ CHR '' '' # t) = ''Bearer'' # str_split CHR '' '' t"
    by (rule str_split_append) simp
  then show ?thesis using t by (simp add: bearer_token_def str_split_none)
qed

context services begin

lemma authenticate_signed:
  "authenticate S secret now (Some (''Bearer '' @ sv_jwt_sign S sec c iat d)) =
    (if secret \<noteq> sec then api_error ''Invalid token. Please log in again.'' 401
     else if now div 1000 < iat div 1000 + d then Inr (claims_payload c)
     else api_error ''Token has expired. Please log in again.'' 401)"
proof -
  have "bearer_token (Some (''Bearer '' @ sv_jwt_sign S sec c iat d)) = Some (sv_jwt_sign S sec c iat d)"
    by (rule bearer_token_read[OF jwt_no_space])
  then show ?thesis unfolding authenticate_def
    by (cases "secret = sec") (simp_all add: jwt_verify_sign jwt_verify_other del: append_Cons append_Nil)
qed

end

section \<open>Properties\<close>

text \<open>The week's token is read back exactly: the header that carries a generated token authenticates
  as the identity it was generated for from its issue until, and not after, seven days of whole
  seconds, and with another secret it is refused as invalid.\<close>
theorem generated_token_authenticates:
  assumes "services S V"
  shows "authenticate S secret now (Some (''Bearer '' @ generate_token S sec iat p)) =
    (if secret \<noteq> sec then api_error ''Invalid token. Please log in again.'' 401
     else if now div 1000 < iat div 1000 + 604800 then Inr p
     else api_error ''Token has expired. Please log in again.'' 401)"
  using services.authenticate_signed[OF assms, of secret now sec "access_claims p" iat 604800]
  by (simp add: generate_token_def)

theorem generated_token_witness:
  "authenticate ref_services ''k'' 5000 (Some (''Bearer '' @ generate_token ref_services ''k'' 1000 demo_candidate)) = Inr demo_candidate"
  using generated_token_authenticates[OF ref.services_axioms, of "''k''" 5000 "''k''" 1000 demo_candidate] by simp

text \<open>When no separate refresh secret is configured a refresh token works as an access token: the
  authentication middleware looks at the signature only, not at the type claim, so the refresh
  token of a week authenticates every request for its whole life. With a separate secret it is refused.\<close>
theorem refresh_token_authenticates:
  assumes "services S V" "get_secrets E = Inr (acc, sec)" "auth_secret E = Some secret"
    "generate_refresh_token E S t0 tid fid p w = (Inr tok, w')" "now div 1000 < t0 div 1000 + 604800"
  shows "authenticate S secret now (Some (''Bearer '' @ tok)) =
    (if str_opt (env_jwt_refresh_secret E) = None \<or> env_jwt_refresh_secret E = env_jwt_secret E then Inr p
     else api_error ''Invalid token. Please log in again.'' 401)"
proof -
  have tok: "tok = sv_jwt_sign S sec (refresh_claims p tid fid) t0 refresh_expiry"
    using services.V_generate_refresh(1)[OF assms(1,2,4)] by simp
  obtain a where a: "str_opt (env_jwt_secret E) = Some a" "acc = a" "sec = or_default (str_opt (env_jwt_refresh_secret E)) a"
    using assms(2) by (auto simp: get_secrets_def split: option.splits)
  then have "secret = a" using assms(3) by (simp add: auth_secret_def)
  moreover have "sec = a \<longleftrightarrow> str_opt (env_jwt_refresh_secret E) = None \<or> env_jwt_refresh_secret E = env_jwt_secret E"
    using a(1,3) by (auto simp: str_opt_def or_default_def split: option.splits if_splits)
  ultimately show ?thesis using assms(5) unfolding tok services.authenticate_signed[OF assms(1)]
    by (auto simp: refresh_expiry_def)
qed

theorem refresh_token_authenticates_witness:
  "\<exists>tok w'. generate_refresh_token demo_env ref_services 1000 ''t'' ''f'' demo_candidate demo_world = (Inr tok, w')
     \<and> authenticate ref_services ''s1'' 500000000 (Some (''Bearer '' @ tok)) = Inr demo_candidate"
proof -
  obtain tok w' where g: "generate_refresh_token demo_env ref_services 1000 ''t'' ''f'' demo_candidate demo_world = (Inr tok, w')"
    by (simp add: generate_refresh_token_def demo_secrets Let_def)
  have "auth_secret demo_env = Some ''s1''" by (simp add: auth_secret_def demo_env_def)
  then show ?thesis
    using refresh_token_authenticates[OF ref.services_axioms demo_secrets _ g, of "''s1''" 500000000] g
    by (simp add: demo_env_def)
qed

text \<open>The role check passes exactly the identities that carry one of the roles in their token and,
  for administrators and reviewers, whose account exists and is approved now; the role of the
  account itself is not looked at, so a demoted administrator keeps access until the token expires.\<close>
theorem require_role_iff:
  assumes "services S V"
  shows "require_role S roles user w = Inr () \<longleftrightarrow>
    (\<exists>p. user = Some p \<and> jp_role p \<in> set roles \<and>
       (jp_role p = CANDIDATE \<or> (\<exists>u. w_users (V w) (jp_userId p) = Some u \<and> u_approvalStatus u = APPROVED)))"
  by (cases user) (auto simp: require_role_def services.find_user_eq[OF assms] intro: role.exhaust
      split: option.splits approval_status.splits)

theorem require_role_witness:
  "require_role ref_services [ADMIN] (Some \<lparr> jp_userId = ''u1'', jp_email = [], jp_role = ADMIN \<rparr>) demo_world = Inr ()"
  using require_role_iff[OF ref.services_axioms, of "[ADMIN]" "Some \<lparr> jp_userId = ''u1'', jp_email = [], jp_role = ADMIN \<rparr>" demo_world]
  by (simp add: demo_user_def)

end
