(* ===== verification/Http_App.thy ===== *)
theory Http_App
  imports Auth_Middleware
begin

text \<open>
  The HTTP front of the server: \<^verbatim>\<open>middleware/rateLimiter.ts\<close> (who shares a counter with
  whom, and the quotas), \<^verbatim>\<open>middleware/apiVersion.ts\<close> and the middleware chain of
  \<^verbatim>\<open>app.ts\<close>. The counters themselves are the express-rate-limit package on Redis; the
  model has the key under which a request is counted.
\<close>

section \<open>Requests\<close>

datatype header = HOne string | HMany "string list"

record request =
  rq_forwarded :: "header option"
  rq_ip :: "string option"
  rq_remoteAddress :: "string option"
  rq_authorization :: "string option"
  rq_user :: "jwt_payload option"
  rq_bodyEmail :: "string option"
  rq_apiVersion :: "string option"
  rq_headerVersion :: "string option"
  rq_queryVersion :: "string option"

section \<open>Keys of the limiters\<close>

text \<open>\<^verbatim>\<open>getClientIP\<close>; an empty header is falsy.\<close>
definition get_client_ip :: "request \<Rightarrow> string" where
  "get_client_ip r =
    (let fallback = or_default (or_else (str_opt (rq_ip r)) (str_opt (rq_remoteAddress r))) ''unknown'';
         first = (\<lambda>s. str_trim (hd (str_split CHR '','' s)))
     in case rq_forwarded r of
          None \<Rightarrow> fallback
        | Some (HOne s) \<Rightarrow> if s = [] then fallback else first s
        | Some (HMany ss) \<Rightarrow> first (case ss of [] \<Rightarrow> [] | s # _ \<Rightarrow> s))"

definition user_id_key :: "request \<Rightarrow> string" where
  "user_id_key r = (case rq_user r of
     Some p \<Rightarrow> if jp_userId p \<noteq> [] then ''user:'' @ jp_userId p else ''ip:'' @ get_client_ip r
   | None \<Rightarrow> ''ip:'' @ get_client_ip r)"

definition login_key :: "request \<Rightarrow> string" where
  "login_key r = ''email:'' @ or_default (str_opt (map_option str_lower (rq_bodyEmail r))) ''unknown''"

definition registration_key :: "request \<Rightarrow> string" where
  "registration_key r = ''email:'' @ or_default (str_opt (map_option str_lower (rq_bodyEmail r))) (get_client_ip r)"

definition global_ip_key :: "request \<Rightarrow> string" where
  "global_ip_key r = ''gip:'' @ get_client_ip r"

section \<open>The limiters\<close>

record limiter =
  lm_prefix :: string
  lm_windowMs :: int
  lm_max :: int
  lm_key :: "request \<Rightarrow> string"
  lm_skipSuccessful :: bool

definition mk_limiter :: "string \<Rightarrow> int \<Rightarrow> int \<Rightarrow> (request \<Rightarrow> string) \<Rightarrow> limiter" where
  "mk_limiter p ms m k = \<lparr> lm_prefix = p, lm_windowMs = ms, lm_max = m, lm_key = k, lm_skipSuccessful = False \<rparr>"

text \<open>The key in Redis: \<^verbatim>\<open>rl:<prefix>:<key>\<close>.\<close>
definition counter_key :: "limiter \<Rightarrow> request \<Rightarrow> string" where
  "counter_key l r = ''rl:'' @ lm_prefix l @ '':'' @ lm_key l r"

definition global_ip_limiter :: "bool \<Rightarrow> limiter" where
  "global_ip_limiter development = mk_limiter ''gip'' 1000 (if development then 10000 else 5000) global_ip_key"
definition login_limiter :: "bool \<Rightarrow> limiter" where
  "login_limiter development =
     (mk_limiter ''login'' (15 * 60 * 1000) (if development then 50 else 10) login_key)\<lparr> lm_skipSuccessful := True \<rparr>"
definition registration_limiter :: "bool \<Rightarrow> limiter" where
  "registration_limiter development = mk_limiter ''register'' (60 * 60 * 1000) (if development then 50 else 5) registration_key"
definition api_limiter :: limiter where "api_limiter = mk_limiter ''api'' (60 * 1000) 300 user_id_key"
definition strict_limiter :: limiter where "strict_limiter = mk_limiter ''strict'' (60 * 60 * 1000) 5 user_id_key"
definition submission_limiter :: limiter where "submission_limiter = mk_limiter ''submission'' (60 * 1000) 10 user_id_key"
definition screenshot_limiter :: limiter where "screenshot_limiter = mk_limiter ''screenshot'' (5 * 1000) 15 user_id_key"
definition autosave_limiter :: limiter where "autosave_limiter = mk_limiter ''autosave'' (10 * 1000) 20 user_id_key"
definition run_tests_limiter :: limiter where "run_tests_limiter = mk_limiter ''runtests'' (30 * 1000) 5 user_id_key"

section \<open>API version\<close>

definition supported_versions :: "string list" where "supported_versions = [''1'', ''2'']"
definition default_version :: string where "default_version = ''1''"
definition latest_version :: string where "latest_version = ''1''"

text \<open>A header or parameter counts when it is a non-empty string that names a supported version.\<close>
definition version_of :: "string option \<Rightarrow> string option" where
  "version_of h = (case h of None \<Rightarrow> None
     | Some s \<Rightarrow> if s \<noteq> [] \<and> str_trim s \<in> set supported_versions then Some (str_trim s) else None)"

definition get_api_version :: "request \<Rightarrow> string" where
  "get_api_version r = or_default (or_else (str_opt (rq_apiVersion r))
     (or_else (version_of (rq_headerVersion r)) (version_of (rq_queryVersion r)))) default_version"

definition detect_api_version :: "request \<Rightarrow> request \<times> (string \<times> string) list" where
  "detect_api_version r = (let v = get_api_version r in
     (r\<lparr> rq_apiVersion := Some v \<rparr>, [(''X-API-Version'', v), (''X-API-Latest-Version'', latest_version)]))"

definition require_version :: "string \<Rightarrow> request \<Rightarrow> request \<times> (string \<times> string) list" where
  "require_version v r = (r\<lparr> rq_apiVersion := Some v \<rparr>, [(''X-API-Version'', v)])"

definition validate_version :: "request \<Rightarrow> request result" where
  "validate_version r = (let v = get_api_version r in
     if v \<notin> set supported_versions
     then api_error (''Unsupported API version: '' @ v @ ''. Supported versions: '' @ str_join '', '' supported_versions) 400
     else Inr (r\<lparr> rq_apiVersion := Some v \<rparr>))"

definition versioned_response :: "request \<Rightarrow> 'a \<Rightarrow> (string \<Rightarrow> ('a \<Rightarrow> 'a) option) \<Rightarrow> 'a" where
  "versioned_response r data transformers =
     (case transformers (or_default (str_opt (rq_apiVersion r)) default_version) of None \<Rightarrow> data | Some f \<Rightarrow> f data)"

section \<open>The chain of app.ts\<close>

text \<open>What happens to a request under \<^verbatim>\<open>/api\<close> before its router sees it: the version is
  detected and the request is counted by the two general limiters. No middleware of the chain
  authenticates; the routers do, each for itself.\<close>
definition api_chain :: "bool \<Rightarrow> request \<Rightarrow> request \<times> string list" where
  "api_chain development r = (let r1 = fst (detect_api_version r)
     in (r1, [counter_key (global_ip_limiter development) r1, counter_key api_limiter r1]))"

text \<open>A request as it arrives: nobody has set \<^verbatim>\<open>req.user\<close> or the version yet.\<close>
definition arrives :: "request \<Rightarrow> bool" where
  "arrives r = (rq_user r = None \<and> rq_apiVersion r = None)"

definition authenticated :: "jwt_payload \<Rightarrow> request \<Rightarrow> request" where
  "authenticated p r = r\<lparr> rq_user := Some p \<rparr>"

section \<open>Properties\<close>

lemma get_client_ip_frame [simp]:
  "get_client_ip (r\<lparr> rq_user := u \<rparr>) = get_client_ip r" "get_client_ip (r\<lparr> rq_apiVersion := v \<rparr>) = get_client_ip r"
  "get_client_ip (r\<lparr> rq_authorization := a \<rparr>) = get_client_ip r" "get_client_ip (r\<lparr> rq_bodyEmail := e \<rparr>) = get_client_ip r"
  by (simp_all add: get_client_ip_def)

definition demo_request :: "string \<Rightarrow> request" where
  "demo_request h = \<lparr> rq_forwarded = Some (HOne h), rq_ip = Some ''10.0.0.1'', rq_remoteAddress = None,
     rq_authorization = None, rq_user = None, rq_bodyEmail = None, rq_apiVersion = None,
     rq_headerVersion = Some '' 2'', rq_queryVersion = Some ''1'' \<rparr>"

lemma demo_request_ip: "get_client_ip (demo_request ''1.2.3.4, 5.6.7.8'') = ''1.2.3.4''"
  by (simp add: demo_request_def get_client_ip_def Let_def str_trim_def is_space_def)

text \<open>Behind authentication every user has a counter of their own: for each of the per-user limiters two
  authenticated requests share a counter exactly when they carry the same user id, whatever
  addresses they come from, and never with a request that is counted by address.\<close>
theorem per_user_counters:
  assumes "jp_userId p \<noteq> []" "jp_userId q \<noteq> []"
    "l \<in> {api_limiter, strict_limiter, submission_limiter, screenshot_limiter, autosave_limiter, run_tests_limiter}"
  shows "(counter_key l (authenticated p r) = counter_key l (authenticated q r') \<longleftrightarrow> jp_userId p = jp_userId q)
    \<and> counter_key l (authenticated p r) \<noteq> counter_key l (r'\<lparr> rq_user := None \<rparr>)"
  using assms by (auto simp: counter_key_def api_limiter_def strict_limiter_def submission_limiter_def
      screenshot_limiter_def autosave_limiter_def run_tests_limiter_def mk_limiter_def user_id_key_def authenticated_def)

theorem per_user_counters_witness:
  "counter_key api_limiter (authenticated \<lparr> jp_userId = ''a'', jp_email = [], jp_role = CANDIDATE \<rparr> (demo_request []))
   \<noteq> counter_key api_limiter (authenticated \<lparr> jp_userId = ''b'', jp_email = [], jp_role = CANDIDATE \<rparr> (demo_request ''x''))"
  using per_user_counters[of "\<lparr> jp_userId = ''a'', jp_email = [], jp_role = CANDIDATE \<rparr>"
    "\<lparr> jp_userId = ''b'', jp_email = [], jp_role = CANDIDATE \<rparr>" api_limiter "demo_request []" "demo_request ''x''"] by simp

text \<open>The general limiter of the middleware chain counts by address, not by user: it runs before any
  authentication, so for a request as it arrives the counter depends only on the client address,
  which is the first entry of the \<^verbatim>\<open>X-Forwarded-For\<close> header the client sends. Users
  behind one address share its 300 requests per minute, and a client that varies the header is
  never counted twice under the same key.\<close>
theorem general_limiter_by_address:
  assumes "arrives r" "arrives r'"
  shows "snd (api_chain dev r) = [''rl:gip:gip:'' @ get_client_ip r, ''rl:api:ip:'' @ get_client_ip r]
    \<and> (snd (api_chain dev r) = snd (api_chain dev r') \<longleftrightarrow> get_client_ip r = get_client_ip r')
    \<and> (\<forall>a. snd (api_chain dev (r\<lparr> rq_authorization := a \<rparr>)) = snd (api_chain dev r))"
  using assms by (auto simp: arrives_def api_chain_def detect_api_version_def Let_def counter_key_def
      global_ip_limiter_def api_limiter_def mk_limiter_def global_ip_key_def user_id_key_def)

theorem general_limiter_witness:
  "snd (api_chain False (demo_request ''1.2.3.4, 5.6.7.8'')) = [''rl:gip:gip:1.2.3.4'', ''rl:api:ip:1.2.3.4'']"
  using general_limiter_by_address[of "demo_request ''1.2.3.4, 5.6.7.8''" "demo_request ''1.2.3.4, 5.6.7.8''" False]
    demo_request_ip by (simp add: arrives_def demo_request_def)

text \<open>The version a request runs under is always a supported one, the header wins over the query
  parameter, and an unknown value in either is ignored; so the validating middleware, which asks
  the same function, never refuses a request.\<close>
theorem api_version_supported:
  assumes "rq_apiVersion r = None"
  shows "get_api_version r \<in> set supported_versions
    \<and> (version_of (rq_headerVersion r) \<noteq> None \<longrightarrow> Some (get_api_version r) = version_of (rq_headerVersion r))
    \<and> (\<exists>r'. validate_version r = Inr r')
    \<and> get_api_version (fst (detect_api_version r)) = get_api_version r"
proof -
  have v: "version_of h = Some v \<Longrightarrow> v \<in> set supported_versions" for h v
    by (auto simp: version_of_def split: option.splits if_splits)
  have s: "get_api_version r \<in> set supported_versions"
    using assms v by (auto simp: get_api_version_def or_else_def or_default_def default_version_def
        supported_versions_def split: option.splits)
  then have "get_api_version r \<noteq> []" by (auto simp: supported_versions_def)
  then have "get_api_version (fst (detect_api_version r)) = get_api_version r"
    by (simp add: detect_api_version_def Let_def get_api_version_def str_opt_def)
  then show ?thesis using s assms
    by (auto simp: validate_version_def Let_def get_api_version_def)
qed

theorem api_version_witness: "get_api_version (demo_request []) \<in> set supported_versions"
  using api_version_supported[of "demo_request []"] by (simp add: demo_request_def)

end
