(* ===== verification/Query_Params.thy ===== *)
theory Query_Params
  imports Data_Model
begin

text \<open>
  The query parameters of the listing routes: page and limit as
  \<^verbatim>\<open>parseInt\<close> reads them and the routes clamp them, the escaping of search text of
  \<^verbatim>\<open>apps/api/src/lib/utils.ts\<close>, and the \<^verbatim>\<open>LIKE\<close> operator the patterns are for.
\<close>

section \<open>Numbers\<close>

text \<open>\<^verbatim>\<open>parseInt(s)\<close>: leading white space, a sign, then the digits as far as they go,
  hexadecimal ones after \<^verbatim>\<open>0x\<close>; \<^verbatim>\<open>None\<close> is NaN.\<close>
definition hex_digit :: "char \<Rightarrow> nat option" where
  "hex_digit c = (let n = of_char c :: nat in
     if 48 \<le> n \<and> n \<le> 57 then Some (n - 48) else if 65 \<le> n \<and> n \<le> 70 then Some (n - 55)
     else if 97 \<le> n \<and> n \<le> 102 then Some (n - 87) else None)"

definition js_parse_int :: "string \<Rightarrow> int option" where
  "js_parse_int s = (let t = dropWhile is_space s;
      (sg, u) = (case t of [] \<Rightarrow> (1, t)
        | c # r \<Rightarrow> if c = CHR ''-'' then (-1, r) else if c = CHR ''+'' then (1, r) else (1, t));
      hex = prefix ''0x'' u \<or> prefix ''0X'' u;
      d = takeWhile (if hex then (\<lambda>c. hex_digit c \<noteq> None) else is_digit) (if hex then drop 2 u else u)
    in if d = [] then None
       else Some (sg * int (if hex then foldl (\<lambda>a c. 16 * a + the (hex_digit c)) 0 d else digits_val d)))"

text \<open>\<^verbatim>\<open>parseInt(x) || d\<close>: a missing parameter reads as NaN.\<close>
definition int_param :: "string option \<Rightarrow> int \<Rightarrow> int" where
  "int_param q d = (case q of None \<Rightarrow> d | Some s \<Rightarrow>
     (case js_parse_int s of None \<Rightarrow> d | Some n \<Rightarrow> if n = 0 then d else n))"

definition page_param :: "string option \<Rightarrow> int" where "page_param q = max 1 (int_param q 1)"
definition limit_param :: "string option \<Rightarrow> int" where "limit_param q = min 100 (max 1 (int_param q 20))"

text \<open>\<^verbatim>\<open>LIMIT l OFFSET (p - 1) * l\<close>.\<close>
definition page_slice :: "int \<Rightarrow> int \<Rightarrow> 'a list \<Rightarrow> 'a list" where
  "page_slice page limit xs = take (nat limit) (drop (nat ((page - 1) * limit)) xs)"

lemma page_bounds: "1 \<le> page_param q" "1 \<le> limit_param q" "limit_param q \<le> 100"
  by (simp_all add: page_param_def limit_param_def)

text \<open>Pages cut a listing into consecutive pieces.\<close>
lemma take_append_take_drop: "take m xs @ take n (drop m xs) = take (m + n) xs"
  by (simp add: take_add)

lemma pages_cover: "1 \<le> l \<Longrightarrow> concat (map (\<lambda>p. page_slice (int p + 1) l xs) [0..<k]) = take (k * nat l) xs"
proof (induction k)
  case (Suc k)
  have "nat (int k * l) = k * nat l" using Suc.prems by (simp add: nat_mult_distrib)
  then show ?case using Suc by (simp add: page_slice_def take_append_take_drop add.commute)
qed simp

section \<open>LIKE patterns\<close>

definition backslash :: char where "backslash = char_of (92 :: nat)"

text \<open>\<^verbatim>\<open>pattern.replace(/[%_\\]/g, '\\$&')\<close>.\<close>
definition escape_like_pattern :: "string \<Rightarrow> string" where
  "escape_like_pattern p = concat (map (\<lambda>c.
     if c = CHR ''%'' \<or> c = CHR ''_'' \<or> c = backslash then [backslash, c] else [c]) p)"

text \<open>\<^verbatim>\<open>LIKE\<close>: \<^verbatim>\<open>%\<close> stands for any text, \<^verbatim>\<open>_\<close> for any
  character, a backslash makes the next character stand for itself. A pattern that ends in a
  lone backslash is an error, here no match.\<close>
fun sql_like :: "string \<Rightarrow> string \<Rightarrow> bool" where
  "sql_like [] s = (s = [])"
| "sql_like (c # p) [] = (if c = CHR ''%'' then sql_like p [] else False)"
| "sql_like (c # p) (x # s) =
     (if c = CHR ''%'' then sql_like p (x # s) \<or> sql_like (c # p) s
      else if c = CHR ''_'' then sql_like p s
      else if c = backslash then (case p of [] \<Rightarrow> False | d # q \<Rightarrow> x = d \<and> sql_like q s)
      else x = c \<and> sql_like p s)"

definition search_pattern :: "string \<Rightarrow> string" where
  "search_pattern q = ''%'' @ escape_like_pattern q @ ''%''"

lemma escape_Nil [simp]: "escape_like_pattern [] = []"
  by (simp add: escape_like_pattern_def)

lemma escape_Cons: "escape_like_pattern (c # p) =
    (if c = CHR ''%'' \<or> c = CHR ''_'' \<or> c = backslash then [backslash, c] else [c]) @ escape_like_pattern p"
  by (simp add: escape_like_pattern_def)

lemma backslash_special [simp]: "backslash \<noteq> CHR ''%''" "backslash \<noteq> CHR ''_''" "CHR ''%'' \<noteq> backslash" "CHR ''_'' \<noteq> backslash"
  unfolding backslash_def by code_simp+

lemma like_escape_append: "sql_like (escape_like_pattern p @ r) s \<longleftrightarrow> (\<exists>t. s = p @ t \<and> sql_like r t)"
proof (induction p arbitrary: s)
  case (Cons c p)
  show ?case by (cases s) (use Cons in \<open>auto simp: escape_Cons\<close>)
qed simp

lemma like_percent: "sql_like (CHR ''%'' # p) s \<longleftrightarrow> (\<exists>u v. s = u @ v \<and> sql_like p v)"
proof (induction s)
  case (Cons x s)
  have "sql_like (CHR ''%'' # p) (x # s) \<longleftrightarrow> sql_like p (x # s) \<or> (\<exists>u v. s = u @ v \<and> sql_like p v)"
    using Cons by simp
  also have "\<dots> \<longleftrightarrow> (\<exists>u v. x # s = u @ v \<and> sql_like p v)"
    by (metis append_Cons append_Nil append_eq_Cons_conv)
  finally show ?case .
qed simp

lemma like_search: "sql_like (search_pattern q) s \<longleftrightarrow> sublist q s"
proof -
  have all: "sql_like ''%'' t" for t by (induction t) simp_all
  have "sql_like (search_pattern q) s \<longleftrightarrow> (\<exists>u v. s = u @ v \<and> sql_like (escape_like_pattern q @ ''%'') v)"
    unfolding search_pattern_def by (simp only: append_Cons append_Nil like_percent)
  also have "\<dots> \<longleftrightarrow> (\<exists>u t. s = u @ q @ t)" by (auto simp: like_escape_append all)
  finally show ?thesis by (auto simp: sublist_def)
qed

text \<open>Search text is taken literally: whatever characters a search contains, the escaped pattern
  between two percent signs matches exactly the texts that contain the search as a substring.\<close>
theorem escaped_search_literal: "sql_like (search_pattern q) s \<longleftrightarrow> sublist q s"
  by (rule like_search)

end
