(* ===== verification/Request_Schemas.thy ===== *)
theory Request_Schemas
  imports Data_Model
begin

text \<open>
  The request schemas of \<^verbatim>\<open>packages/shared/src/index.ts\<close>. A body that has the fields at
  their types is a record; a schema is the check of the remaining constraints together with the
  defaults, and answers a \<^verbatim>\<open>ZodError\<close> when they fail. The test for an e-mail address is
  the zod package's and a parameter; so is the reading of a date text (\<^verbatim>\<open>None\<close> is an
  invalid date), which the language leaves to the implementation outside the ISO format. Numbers of
  a body are rationals.
\<close>

section \<open>Accounts\<close>

record login_body =
  lb_email :: string
  lb_password :: string

definition login_schema :: "(string \<Rightarrow> bool) \<Rightarrow> login_body \<Rightarrow> login_body result" where
  "login_schema is_email b = (if is_email (lb_email b) \<and> 6 \<le> length (lb_password b) then Inr b else Inl ZodError)"

record register_body =
  rb_email :: string
  rb_password :: string
  rb_name :: "string option"
  rb_role :: "role option"

definition register_schema :: "(string \<Rightarrow> bool) \<Rightarrow> register_body \<Rightarrow> register_body result" where
  "register_schema is_email b =
    (if is_email (rb_email b) \<and> 6 \<le> length (rb_password b) \<and>
        (case rb_name b of None \<Rightarrow> True | Some n \<Rightarrow> 2 \<le> length n)
     then Inr b else Inl ZodError)"

section \<open>Challenges\<close>

record challenge_body =
  cb_name :: string
  cb_description :: "string option"
  cb_starterFiles :: files
  cb_publicTests :: string
  cb_hiddenTests :: string
  cb_dependencies :: dict
  cb_nodeVersion :: "string option"
  cb_runner :: "runner option"

definition create_challenge_schema :: "challenge_body \<Rightarrow> challenge_body result" where
  "create_challenge_schema b =
    (if 3 \<le> length (cb_name b) \<and> 1 \<le> length (cb_publicTests b) \<and> 1 \<le> length (cb_hiddenTests b)
     then Inr (b\<lparr> cb_nodeVersion := Some (or_default (cb_nodeVersion b) ''20'') \<rparr>) else Inl ZodError)"

text \<open>The partial schema: every field may be missing; the default of \<^verbatim>\<open>nodeVersion\<close> does not
  apply to a missing field that is optional.\<close>
record challenge_patch =
  cp_name :: "string option"
  cp_description :: "string option"
  cp_starterFiles :: "files option"
  cp_publicTests :: "string option"
  cp_hiddenTests :: "string option"
  cp_dependencies :: "dict option"
  cp_nodeVersion :: "string option"
  cp_runner :: "runner option"

definition opt_all :: "('a \<Rightarrow> bool) \<Rightarrow> 'a option \<Rightarrow> bool" where
  "opt_all P x = (case x of None \<Rightarrow> True | Some v \<Rightarrow> P v)"

lemma opt_all_simps [simp]: "opt_all P None" "opt_all P (Some v) = P v"
  by (simp_all add: opt_all_def)

definition update_challenge_schema :: "challenge_patch \<Rightarrow> challenge_patch result" where
  "update_challenge_schema b =
    (if opt_all (\<lambda>n. 3 \<le> length n) (cp_name b) \<and> opt_all (\<lambda>t. 1 \<le> length t) (cp_publicTests b) \<and>
        opt_all (\<lambda>t. 1 \<le> length t) (cp_hiddenTests b)
     then Inr b else Inl ZodError)"

section \<open>Exams\<close>

record exam_body =
  eb_title :: string
  eb_description :: "string option"
  eb_challengeId :: id
  eb_timeLimit :: rat
  eb_maxAttempts :: "rat option"
  eb_passThreshold :: "rat option"
  eb_fullscreenRequired :: "bool option"
  eb_tabSwitchLogging :: "bool option"
  eb_pasteDisabled :: "bool option"
  eb_expectedCandidates :: "rat option"
  eb_scheduledStartAt :: "string option"
  eb_scheduledEndAt :: "string option"
  eb_timezone :: "string option"

text \<open>A parsed body: defaults filled in, dates read.\<close>
record exam_fields =
  ef_title :: string
  ef_description :: "string option"
  ef_challengeId :: id
  ef_timeLimit :: rat
  ef_maxAttempts :: rat
  ef_passThreshold :: rat
  ef_fullscreenRequired :: bool
  ef_tabSwitchLogging :: bool
  ef_pasteDisabled :: bool
  ef_expectedCandidates :: rat
  ef_scheduledStartAt :: "time option"
  ef_scheduledEndAt :: "time option"
  ef_timezone :: string

definition between :: "rat \<Rightarrow> rat \<Rightarrow> rat \<Rightarrow> bool" where
  "between a b x = (a \<le> x \<and> x \<le> b)"

definition is_int_rat :: "rat \<Rightarrow> bool" where
  "is_int_rat r = (of_int \<lfloor>r\<rfloor> = r)"

text \<open>The transform of a date field: a missing, null or empty text and an invalid date give null.\<close>
definition date_field :: "(string \<Rightarrow> time option) \<Rightarrow> string option \<Rightarrow> time option" where
  "date_field parse x = (case str_opt x of None \<Rightarrow> None | Some s \<Rightarrow> parse s)"

definition end_after_start :: "time option \<Rightarrow> time option \<Rightarrow> bool" where
  "end_after_start s e = (case s of None \<Rightarrow> True | Some s \<Rightarrow> (case e of None \<Rightarrow> True | Some e \<Rightarrow> s < e))"

definition create_exam_schema :: "(string \<Rightarrow> time option) \<Rightarrow> exam_body \<Rightarrow> exam_fields result" where
  "create_exam_schema parse b =
    (let s = date_field parse (eb_scheduledStartAt b); e = date_field parse (eb_scheduledEndAt b)
     in if 3 \<le> length (eb_title b) \<and> 1 \<le> length (eb_challengeId b) \<and> between 5 480 (eb_timeLimit b) \<and>
           opt_all (between 1 10) (eb_maxAttempts b) \<and> opt_all (between 0 1) (eb_passThreshold b) \<and>
           opt_all (\<lambda>n. is_int_rat n \<and> between 1 10000 n) (eb_expectedCandidates b) \<and> end_after_start s e
        then Inr \<lparr> ef_title = eb_title b, ef_description = eb_description b, ef_challengeId = eb_challengeId b,
            ef_timeLimit = eb_timeLimit b, ef_maxAttempts = or_default (eb_maxAttempts b) 1,
            ef_passThreshold = or_default (eb_passThreshold b) (3 / 5),
            ef_fullscreenRequired = or_default (eb_fullscreenRequired b) True,
            ef_tabSwitchLogging = or_default (eb_tabSwitchLogging b) True,
            ef_pasteDisabled = or_default (eb_pasteDisabled b) True,
            ef_expectedCandidates = or_default (eb_expectedCandidates b) 100,
            ef_scheduledStartAt = s, ef_scheduledEndAt = e, ef_timezone = or_default (eb_timezone b) ''Asia/Kolkata'' \<rparr>
        else Inl ZodError)"

record exam_patch =
  ep_title :: "string option"
  ep_description :: "string option"
  ep_challengeId :: "id option"
  ep_timeLimit :: "rat option"
  ep_maxAttempts :: "rat option"
  ep_passThreshold :: "rat option"
  ep_fullscreenRequired :: "bool option"
  ep_tabSwitchLogging :: "bool option"
  ep_pasteDisabled :: "bool option"
  ep_expectedCandidates :: "rat option"
  ep_scheduledStartAt :: "string option"
  ep_scheduledEndAt :: "string option"
  ep_timezone :: "string option"

text \<open>The parsed patch: the two date fields are always present after their transform, the other
  fields only when the body has them.\<close>
definition update_exam_schema ::
  "(string \<Rightarrow> time option) \<Rightarrow> exam_patch \<Rightarrow> (exam_patch \<times> time option \<times> time option) result" where
  "update_exam_schema parse b =
    (let s = date_field parse (ep_scheduledStartAt b); e = date_field parse (ep_scheduledEndAt b)
     in if opt_all (\<lambda>t. 3 \<le> length t) (ep_title b) \<and> opt_all (\<lambda>t. 1 \<le> length t) (ep_challengeId b) \<and>
           opt_all (between 5 480) (ep_timeLimit b) \<and> opt_all (between 1 10) (ep_maxAttempts b) \<and>
           opt_all (between 0 1) (ep_passThreshold b) \<and>
           opt_all (\<lambda>n. is_int_rat n \<and> between 1 10000 n) (ep_expectedCandidates b) \<and> end_after_start s e
        then Inr (b, s, e) else Inl ZodError)"

section \<open>Proctoring, roles, paging\<close>

record proctor_body =
  pb_attemptId :: id
  pb_eventType :: event_type
  pb_duration :: "rat option"
  pb_pasteLength :: "rat option"
  pb_isMultiline :: "bool option"

definition proctor_event_schema :: "proctor_body \<Rightarrow> proctor_body result" where
  "proctor_event_schema b = (if 1 \<le> length (pb_attemptId b) then Inr b else Inl ZodError)"

text \<open>Columns of type integer take whole numbers only.\<close>
definition int_column :: "rat \<Rightarrow> int option" where
  "int_column r = (if is_int_rat r then Some \<lfloor>r\<rfloor> else None)"

section \<open>Facts\<close>

lemma int_column_of_int [simp]: "int_column (of_int n) = Some n" "int_column (numeral k) = Some (numeral k)"
  "int_column 1 = Some 1" "int_column 0 = Some 0"
  by (simp_all add: int_column_def is_int_rat_def)

lemma int_column_Some: "int_column r = Some n \<longleftrightarrow> r = of_int n"
  by (auto simp: int_column_def is_int_rat_def)

text \<open>What a parsed exam promises.\<close>
definition exam_fields_ok :: "exam_fields \<Rightarrow> bool" where
  "exam_fields_ok f = (3 \<le> length (ef_title f) \<and> ef_challengeId f \<noteq> [] \<and> between 5 480 (ef_timeLimit f) \<and>
     between 1 10 (ef_maxAttempts f) \<and> between 0 1 (ef_passThreshold f) \<and>
     between 1 10000 (ef_expectedCandidates f) \<and> is_int_rat (ef_expectedCandidates f) \<and>
     end_after_start (ef_scheduledStartAt f) (ef_scheduledEndAt f))"

lemma create_exam_schema_ok: "create_exam_schema parse b = Inr f \<Longrightarrow> exam_fields_ok f"
proof -
  assume "create_exam_schema parse b = Inr f"
  then show ?thesis
    by (cases "eb_maxAttempts b"; cases "eb_passThreshold b"; cases "eb_expectedCandidates b")
      (auto simp: create_exam_schema_def Let_def exam_fields_ok_def between_def is_int_rat_def split: if_splits)
qed

end
