(* ===== verification/Auth_Routes.thy ===== *)
theory Auth_Routes
  imports Request_Schemas Session_Cache Auth_Middleware
begin

text \<open>
  \<^verbatim>\<open>apps/api/src/routes/auth.ts\<close>: registration, login, refresh, logout. The secret of
  the legacy token is the one of the authentication middleware; the random ids of tokens, sessions
  and rows and the salt of a hash are arguments, gathered in a record. Failures after the first write
  leave what was written, as in the code.
\<close>

record fresh_ids =
  fr_userId :: id
  fr_tokenId :: id
  fr_familyId :: id
  fr_sessionId :: id
  fr_salt :: string

record public_user =
  pu_id :: id
  pu_email :: string
  pu_name :: "string option"
  pu_role :: role
  pu_approvalStatus :: approval_status

definition public_user_of :: "user \<Rightarrow> public_user" where
  "public_user_of u = \<lparr> pu_id = u_id u, pu_email = u_email u, pu_name = u_name u, pu_role = u_role u,
     pu_approvalStatus = u_approvalStatus u \<rparr>"

record auth_answer =
  aa_user :: public_user
  aa_token :: string
  aa_accessToken :: string
  aa_refreshToken :: string
  aa_sessionId :: "id option"
  aa_message :: "string option"

definition user_payload :: "user \<Rightarrow> jwt_payload" where
  "user_payload u = \<lparr> jp_userId = u_id u, jp_email = u_email u, jp_role = u_role u \<rparr>"

section \<open>Tokens of an answer\<close>

definition issue_tokens ::
  "env \<Rightarrow> 'w services \<Rightarrow> string \<Rightarrow> time \<Rightarrow> fresh_ids \<Rightarrow> user \<Rightarrow> id option \<Rightarrow> string option \<Rightarrow> 'w \<Rightarrow> auth_answer result \<times> 'w" where
  "issue_tokens E S secret now fr u sid msg w =
    (case generate_access_token E S now (user_payload u) of
       Inl e \<Rightarrow> (Inl e, w)
     | Inr acc \<Rightarrow>
        (case generate_refresh_token E S now (fr_tokenId fr) (fr_familyId fr) (user_payload u) w of
           (Inl e, w1) \<Rightarrow> (Inl e, w1)
         | (Inr ref, w1) \<Rightarrow>
             (Inr \<lparr> aa_user = public_user_of u, aa_token = generate_token S secret now (user_payload u),
                aa_accessToken = acc, aa_refreshToken = ref, aa_sessionId = sid, aa_message = msg \<rparr>, w1)))"

section \<open>register\<close>

definition approved_admins :: "'w services \<Rightarrow> 'w \<Rightarrow> nat" where
  "approved_admins S w = length (t_select (sv_users S) (\<lambda>u. u_role u = ADMIN \<and> u_approvalStatus u = APPROVED) w)"

definition register ::
  "env \<Rightarrow> 'w services \<Rightarrow> string \<Rightarrow> (string \<Rightarrow> bool) \<Rightarrow> time \<Rightarrow> fresh_ids \<Rightarrow> register_body option \<Rightarrow> 'w \<Rightarrow> auth_answer result \<times> 'w" where
  "register E S secret is_email now fr body w = (case body of None \<Rightarrow> (Inl ZodError, w)
   | Some b \<Rightarrow> (case register_schema is_email b of Inl e \<Rightarrow> (Inl e, w)
   | Inr data \<Rightarrow>
      (case t_first (sv_users S) (\<lambda>u. u_email u = rb_email data) w of
         Some _ \<Rightarrow> (api_error ''Email already registered'' 400, w)
       | None \<Rightarrow>
          (let hashed = sv_hash_password S (fr_salt fr) (env_bcrypt_rounds E) (rb_password data);
               role = or_default (rb_role data) CANDIDATE;
               status0 = (if role = CANDIDATE then APPROVED else PENDING);
               status = (if role = ADMIN \<and> approved_admins S w = 0 \<and> env_first_admin_bootstrap E
                         then APPROVED else status0);
               u = \<lparr> u_id = fr_userId fr, u_email = rb_email data, u_password = hashed, u_name = rb_name data,
                     u_role = role, u_approvalStatus = status, u_approvedBy = None,
                     u_approvedAt = (if role = CANDIDATE then Some now else None), u_createdAt = now, u_updatedAt = now \<rparr>;
               w1 = t_insert (sv_users S) u w;
               message = (if status = PENDING
                 then ''Account created. Your account is pending approval by an administrator.''
                 else ''Account created successfully.'')
           in issue_tokens E S secret now fr u None (Some message) w1))))"

section \<open>login\<close>

definition cache_hit :: "(id \<times> login_session) option \<Rightarrow> user \<Rightarrow> id option" where
  "cache_hit cached u = (case cached of None \<Rightarrow> None
     | Some (sid, s) \<Rightarrow> if ls_passwordHash s = hash_prefix (u_password u) then Some sid else None)"

definition login ::
  "env \<Rightarrow> 'w services \<Rightarrow> string \<Rightarrow> (string \<Rightarrow> bool) \<Rightarrow> time \<Rightarrow> fresh_ids \<Rightarrow> string option \<Rightarrow> string option
     \<Rightarrow> login_body option \<Rightarrow> 'w \<Rightarrow> auth_answer result \<times> 'w" where
  "login E S secret is_email now fr agent ip body w = (case body of None \<Rightarrow> (Inl ZodError, w)
   | Some b \<Rightarrow> (case login_schema is_email b of Inl e \<Rightarrow> (Inl e, w)
   | Inr data \<Rightarrow>
      (case t_first (sv_users S) (\<lambda>u. u_email u = lb_email data) w of
         None \<Rightarrow> (api_error ''Invalid credentials'' 401, w)
       | Some u \<Rightarrow>
          if u_role u \<noteq> CANDIDATE \<and> u_approvalStatus u = PENDING
          then (api_error ''Your account is pending approval. Please wait for an administrator to approve your account.'' 403, w)
          else if u_role u \<noteq> CANDIDATE \<and> u_approvalStatus u = REJECTED
          then (api_error ''Your account registration was rejected. Please contact support.'' 403, w)
          else (case get_cached_login S now (lb_email data) w of (cached, w1) \<Rightarrow>
            (case cache_hit cached u of
               Some sid \<Rightarrow> issue_tokens E S secret now fr u (Some sid) None w1
             | None \<Rightarrow>
                if \<not> sv_compare S (lb_password data) (u_password u)
                then (api_error ''Invalid credentials'' 401, w1)
                else (case create_session S now (fr_sessionId fr) u agent ip w1 of (sid, w2) \<Rightarrow>
                   issue_tokens E S secret now fr u (Some sid) None (set_cached_login S now (lb_email data) sid w2)))))))"

section \<open>refresh, logout, me\<close>

definition refresh ::
  "env \<Rightarrow> 'w services \<Rightarrow> time \<Rightarrow> id \<Rightarrow> string option \<Rightarrow> 'w \<Rightarrow> (string \<times> string) result \<times> 'w" where
  "refresh E S now newid token w = (case str_opt token of
     None \<Rightarrow> (api_error ''Refresh token required'' 400, w)
   | Some t \<Rightarrow> (case rotate_refresh_token E S now newid t w of
       (Inl e, w1) \<Rightarrow> (Inl e, w1)
     | (Inr None, w1) \<Rightarrow> (api_error ''Invalid or expired refresh token'' 401, w1)
     | (Inr (Some tokens), w1) \<Rightarrow> (Inr tokens, w1)))"

definition logout ::
  "env \<Rightarrow> 'w services \<Rightarrow> time \<Rightarrow> string option \<Rightarrow> string option \<Rightarrow> 'w \<Rightarrow> unit result \<times> 'w" where
  "logout E S now token email w =
    (let (r, w1) = (case str_opt token of None \<Rightarrow> (Inr True, w) | Some t \<Rightarrow> revoke_refresh_token E S now t w)
     in case r of Inl e \<Rightarrow> (Inl e, w1)
        | Inr _ \<Rightarrow> (Inr (), case str_opt email of None \<Rightarrow> w1 | Some m \<Rightarrow> remove_cached_login S m w1))"

text \<open>\<^verbatim>\<open>evictUserSockets\<close> of \<^verbatim>\<open>socket/index.ts\<close> publishes to every instance.\<close>
definition evict_user_sockets :: "'w services \<Rightarrow> id \<Rightarrow> 'w \<Rightarrow> 'w" where
  "evict_user_sockets S uid w = sv_publish S ''socket:evict'' (EvictUser uid) w"

definition logout_all :: "'w services \<Rightarrow> time \<Rightarrow> jwt_payload \<Rightarrow> 'w \<Rightarrow> unit result \<times> 'w" where
  "logout_all S now p w =
    (Inr (), evict_user_sockets S (jp_userId p)
       (remove_cached_login S (jp_email p)
         (snd (invalidate_all_user_sessions S now (jp_userId p) (revoke_all_user_tokens S now (jp_userId p) w)))))"

text \<open>A token that fails to verify raises an error of the jwt library, which the error handler
  turns into an internal error.\<close>
definition me :: "'w services \<Rightarrow> string \<Rightarrow> time \<Rightarrow> string option \<Rightarrow> 'w \<Rightarrow> public_user result" where
  "me S secret now header w = (case bearer_token header of
     None \<Rightarrow> api_error ''Not authenticated'' 401
   | Some token \<Rightarrow> (case verify_token S secret now token of
       Inl _ \<Rightarrow> Inl (PlainError ''jwt'')
     | Inr p \<Rightarrow> (case find_user S (jp_userId p) w of
         None \<Rightarrow> api_error ''User not found'' 404
       | Some u \<Rightarrow> Inr (public_user_of u))))"

section \<open>Lemmas\<close>

lemma issue_tokens_ok:
  assumes "get_secrets E = Inr (acc, sec)" "issue_tokens E S secret now fr u sid msg w = (r, w')"
  shows "r = Inr \<lparr> aa_user = public_user_of u, aa_token = generate_token S secret now (user_payload u),
      aa_accessToken = sv_jwt_sign S acc (access_claims (user_payload u)) now access_expiry,
      aa_refreshToken = sv_jwt_sign S sec (refresh_claims (user_payload u) (fr_tokenId fr) (fr_familyId fr)) now refresh_expiry,
      aa_sessionId = sid, aa_message = msg \<rparr>"
    "w' = snd (generate_refresh_token E S now (fr_tokenId fr) (fr_familyId fr) (user_payload u) w)"
  using assms by (auto simp: issue_tokens_def generate_access_token_def generate_refresh_token_def Let_def)

lemma token_session_keys [simp]:
  "refresh_key a \<noteq> session_key b" "session_key b \<noteq> refresh_key a" "family_key a \<noteq> session_key b" "session_key b \<noteq> family_key a"
  "refresh_key a \<noteq> login_cache_key b" "login_cache_key b \<noteq> refresh_key a" "family_key a \<noteq> login_cache_key b"
  "login_cache_key b \<noteq> family_key a"
  by (simp_all add: key_simps)

definition email_unique :: "world \<Rightarrow> bool" where
  "email_unique W = (\<forall>k l u v. w_users W k = Some u \<longrightarrow> w_users W l = Some v \<longrightarrow> u_email u = u_email v \<longrightarrow> k = l)"

context services begin

lemma V_generate_refresh_ks:
  assumes "get_secrets E = Inr (acc, sec)"
  shows "V (snd (generate_refresh_token E S now tid fid p w)) = w_ks_update (\<lambda>ks. ks_expire now (family_key fid) refresh_expiry
     (ks_sadd now (family_key fid) tid (ks_set now (refresh_key tid) (RefreshDoc (token_data p fid now 0)) (Some refresh_expiry) ks))) (V w)"
  by (rule V_generate_refresh(2)[OF assms prod.collapse[symmetric]])

lemma find_by_email:
  assumes "email_unique (V w)" "w_users (V w) k = Some u"
  shows "t_first (sv_users S) (\<lambda>v. u_email v = u_email u) w = Some u"
proof (cases "t_first (sv_users S) (\<lambda>v. u_email v = u_email u) w")
  case None
  then show ?thesis using assms(2) by (auto simp: table_first_None[OF users_ok])
next
  case (Some v)
  have v: "w_users (V w) (u_id v) = Some v" "u_email v = u_email u"
    using table_first_Some[OF users_ok Some] by blast+
  have "u_id v = k" using assms v unfolding email_unique_def by blast
  then have "v = u" using v(1) assms(2) by (metis option.inject)
  then show ?thesis using Some by (simp only:)
qed

lemma login_checked:
  assumes "is_email (u_email u)" "6 \<le> length pw"
    "email_unique (V w)" "w_users (V w) k = Some u" "u_role u = CANDIDATE \<or> u_approvalStatus u = APPROVED"
    "get_cached_login S now (u_email u) w = (cached, w1)"
  shows "login E S secret is_email now fr agent ip (Some \<lparr> lb_email = u_email u, lb_password = pw \<rparr>) w =
    (case cache_hit cached u of
       Some sid \<Rightarrow> issue_tokens E S secret now fr u (Some sid) None w1
     | None \<Rightarrow> if \<not> sv_compare S pw (u_password u) then (api_error ''Invalid credentials'' 401, w1)
         else issue_tokens E S secret now fr u (Some (fr_sessionId fr)) None
           (set_cached_login S now (u_email u) (fr_sessionId fr) (snd (create_session S now (fr_sessionId fr) u agent ip w1))))"
proof -
  have ap: "\<not> (u_role u \<noteq> CANDIDATE \<and> u_approvalStatus u = PENDING)" "\<not> (u_role u \<noteq> CANDIDATE \<and> u_approvalStatus u = REJECTED)"
    using assms(5) by auto
  have cs: "create_session S now (fr_sessionId fr) u agent ip w1 =
      (fr_sessionId fr, snd (create_session S now (fr_sessionId fr) u agent ip w1))"
    by (simp add: create_session_def Let_def)
  show ?thesis
    unfolding login_def login_schema_def
    by (simp add: assms(1,2,6) find_by_email[OF assms(3,4)] ap, subst cs) (auto split: option.split)
qed

lemma no_cached_login:
  "ks_get now (w_ks (V w)) (login_cache_key m) = None \<Longrightarrow> get_cached_login S now m w = (None, w)"
  by (simp add: get_cached_login_def)

lemma V_issue_tokens:
  assumes "get_secrets E = Inr (acc, sec)"
  shows "V (snd (issue_tokens E S secret now fr u sid msg w)) = w_ks_update (\<lambda>ks.
      ks_expire now (family_key (fr_familyId fr)) refresh_expiry (ks_sadd now (family_key (fr_familyId fr)) (fr_tokenId fr)
       (ks_set now (refresh_key (fr_tokenId fr)) (RefreshDoc (token_data (user_payload u) (fr_familyId fr) now 0)) (Some refresh_expiry) ks))) (V w)"
proof -
  obtain r w' where run: "issue_tokens E S secret now fr u sid msg w = (r, w')" by force
  show ?thesis unfolding run snd_conv issue_tokens_ok(2)[OF assms run] by (rule V_generate_refresh_ks[OF assms])
qed

lemma issue_tokens_Inr:
  assumes "get_secrets E = Inr (acc, sec)"
  shows "\<exists>a. fst (issue_tokens E S secret now fr u sid msg w) = Inr a \<and> aa_sessionId a = sid"
proof -
  obtain r w' where run: "issue_tokens E S secret now fr u sid msg w = (r, w')" by force
  show ?thesis using issue_tokens_ok(1)[OF assms run] by (simp add: run)
qed

lemma login_uncached:
  assumes "get_secrets E = Inr (acc, sec)" "is_email (u_email u)" "6 \<le> length pw"
    "email_unique (V w)" "w_users (V w) k = Some u" "u_role u = CANDIDATE \<or> u_approvalStatus u = APPROVED"
    "ks_get now (w_ks (V w)) (login_cache_key (u_email u)) = None"
  shows "login E S secret is_email now fr agent ip (Some \<lparr> lb_email = u_email u, lb_password = pw \<rparr>) w =
    (if sv_compare S pw (u_password u)
     then issue_tokens E S secret now fr u (Some (fr_sessionId fr)) None
        (set_cached_login S now (u_email u) (fr_sessionId fr) (snd (create_session S now (fr_sessionId fr) u agent ip w)))
     else (api_error ''Invalid credentials'' 401, w))"
  using login_checked[where is_email = is_email, OF assms(2-6) no_cached_login[OF assms(7)]] by (simp add: cache_hit_def)

text \<open>After a login that verified the password the session of the user is cached.\<close>
lemma login_caches:
  assumes sec: "get_secrets E = Inr (acc, sec)" and u: "is_email (u_email u)" "6 \<le> length pw"
    "email_unique (V w)" "w_users (V w) k = Some u" "u_role u = CANDIDATE \<or> u_approvalStatus u = APPROVED"
    and free: "ks_get t1 (w_ks (V w)) (login_cache_key (u_email u)) = None"
    and run: "login E S secret is_email t1 fr agent ip (Some \<lparr> lb_email = u_email u, lb_password = pw \<rparr>) w = (Inr a, w1)"
    and t: "t2 < t1 + 1000 * session_ttl"
  shows "ks_get t2 (w_ks (V w1)) (login_cache_key (u_email u)) = Some (Txt (fr_sessionId fr))"
    "\<exists>s. session_of t2 (V w1) (fr_sessionId fr) = Some s \<and> ls_passwordHash s = hash_prefix (u_password u)"
    "w_users (V w1) = w_users (V w)" "aa_sessionId a = Some (fr_sessionId fr)"
proof -
  define w' where "w' = set_cached_login S t1 (u_email u) (fr_sessionId fr) (snd (create_session S t1 (fr_sessionId fr) u agent ip w))"
  have "login E S secret is_email t1 fr agent ip (Some \<lparr> lb_email = u_email u, lb_password = pw \<rparr>) w =
      issue_tokens E S secret t1 fr u (Some (fr_sessionId fr)) None w'"
    using login_uncached[where is_email = is_email, OF sec u free, of secret fr agent ip] run unfolding w'_def by (auto split: if_splits)
  then have it: "issue_tokens E S secret t1 fr u (Some (fr_sessionId fr)) None w' = (Inr a, w1)" using run by simp
  have v1: "V w1 = V (snd (issue_tokens E S secret t1 fr u (Some (fr_sessionId fr)) None w'))" by (simp add: it)
  show "aa_sessionId a = Some (fr_sessionId fr)" using issue_tokens_Inr[OF sec, of secret t1 fr u "Some (fr_sessionId fr)" None w'] it by auto
  show "w_users (V w1) = w_users (V w)"
    unfolding v1 V_issue_tokens[OF sec] by (simp add: w'_def set_cached_login_def V_create_session)
  have frame: "ks_live t2 (w_ks (V w1)) x = ks_live t2 (w_ks (V w')) x"
    if "x \<noteq> refresh_key (fr_tokenId fr)" "x \<noteq> family_key (fr_familyId fr)" for x
    unfolding v1 V_issue_tokens[OF sec] using that by simp
  have lc: "ks_live t2 (w_ks (V w1)) (login_cache_key (u_email u)) = ks_live t2 (w_ks (V w')) (login_cache_key (u_email u))"
    and se: "ks_live t2 (w_ks (V w1)) (session_key (fr_sessionId fr)) = ks_live t2 (w_ks (V w')) (session_key (fr_sessionId fr))"
    by (rule frame; simp)+
  show "ks_get t2 (w_ks (V w1)) (login_cache_key (u_email u)) = Some (Txt (fr_sessionId fr))"
    using t unfolding ks_get_def lc by (simp add: w'_def set_cached_login_def)
  show "\<exists>s. session_of t2 (V w1) (fr_sessionId fr) = Some s \<and> ls_passwordHash s = hash_prefix (u_password u)"
    using t unfolding session_of_def ks_get_def se by (simp add: w'_def set_cached_login_def V_create_session)
qed

lemma register_then_login:
  assumes "get_secrets E = Inr (acc, sec)" "is_email m" "6 \<le> length pw" "length pw \<le> 72"
    "6 \<le> length pw'" "length pw' \<le> 72" "email_unique (V w)" "\<forall>k u. w_users (V w) k = Some u \<longrightarrow> u_email u \<noteq> m"
    "w_users (V w) (fr_userId fr) = None" "w_ks (V w) (login_cache_key m) = None"
    "register E S secret is_email t0 fr (Some \<lparr> rb_email = m, rb_password = pw, rb_name = None, rb_role = None \<rparr>) w = (r0, w0)"
    "login E S secret is_email t1 fr' agent ip (Some \<lparr> lb_email = m, lb_password = pw' \<rparr>) w0 = (r1, w1)"
  shows "(\<exists>a. r0 = Inr a \<and> pu_role (aa_user a) = CANDIDATE \<and> pu_approvalStatus (aa_user a) = APPROVED)
    \<and> (if pw' = pw then \<exists>b. r1 = Inr b \<and> pu_id (aa_user b) = fr_userId fr
       else r1 = api_error ''Invalid credentials'' 401 \<and> w1 = w0)"
proof -
  define u where "u = \<lparr> u_id = fr_userId fr, u_email = m, u_password = sv_hash_password S (fr_salt fr) (env_bcrypt_rounds E) pw,
     u_name = None, u_role = CANDIDATE, u_approvalStatus = APPROVED, u_approvedBy = None,
     u_approvedAt = Some t0, u_createdAt = t0, u_updatedAt = t0 \<rparr>"
  have none: "t_first (sv_users S) (\<lambda>u. u_email u = m) w = None"
    using assms(8) by (simp add: table_first_None[OF users_ok])
  have reg: "register E S secret is_email t0 fr (Some \<lparr> rb_email = m, rb_password = pw, rb_name = None, rb_role = None \<rparr>) w
     = issue_tokens E S secret t0 fr u None (Some ''Account created successfully.'') (t_insert (sv_users S) u w)"
    using assms(2,3) none by (simp add: register_def register_schema_def Let_def u_def)
  let ?w = "t_insert (sv_users S) u w"
  have ins: "V ?w = w_users_update (\<lambda>r. r(fr_userId fr \<mapsto> u)) (V w)"
    using table_insert[OF users_ok, of w u] assms(9) by (simp add: u_def)
  have it: "issue_tokens E S secret t0 fr u None (Some ''Account created successfully.'') ?w = (r0, w0)"
    using reg assms(11) by simp
  have r0: "\<exists>a. r0 = Inr a \<and> aa_user a = public_user_of u" using issue_tokens_ok(1)[OF assms(1) it] by simp
  have v0: "V w0 = V (snd (issue_tokens E S secret t0 fr u None (Some ''Account created successfully.'') ?w))" by (simp add: it)
  have us: "w_users (V w0) = (w_users (V w))(fr_userId fr \<mapsto> u)"
    unfolding v0 V_issue_tokens[OF assms(1)] by (simp add: ins)
  have row: "w_users (V w0) (fr_userId fr) = Some u" by (simp add: us)
  have uniq: "email_unique (V w0)"
    using assms(7,8) unfolding email_unique_def us by (auto simp: u_def)
  have free: "ks_get t1 (w_ks (V w0)) (login_cache_key m) = None"
    using assms(10) unfolding v0 V_issue_tokens[OF assms(1)] by (simp add: ins ks_get_def)
  have email: "u_email u = m" by (simp add: u_def)
  have log: "login E S secret is_email t1 fr' agent ip (Some \<lparr> lb_email = m, lb_password = pw' \<rparr>) w0 =
    (if sv_compare S pw' (u_password u)
     then issue_tokens E S secret t1 fr' u (Some (fr_sessionId fr')) None
        (set_cached_login S t1 m (fr_sessionId fr') (snd (create_session S t1 (fr_sessionId fr') u agent ip w0)))
     else (api_error ''Invalid credentials'' 401, w0))"
    using login_uncached[where is_email = is_email and u = u and w = w0 and pw = pw' and now = t1, OF assms(1) _ assms(5) uniq row]
      assms(2) free by (simp add: email u_def)
  have cmp: "sv_compare S pw' (u_password u) \<longleftrightarrow> pw' = pw"
    using compare_hash[OF assms(6,4)] by (simp add: u_def)
  show ?thesis
  proof (cases "pw' = pw")
    case True
    then have "issue_tokens E S secret t1 fr' u (Some (fr_sessionId fr')) None
        (set_cached_login S t1 m (fr_sessionId fr') (snd (create_session S t1 (fr_sessionId fr') u agent ip w0))) = (r1, w1)"
      using log cmp assms(12) by simp
    from issue_tokens_ok(1)[OF assms(1) this] show ?thesis using True r0 by (auto simp: public_user_of_def u_def)
  next
    case False
    then show ?thesis using log cmp assms(12) r0 by (auto simp: public_user_of_def u_def)
  qed
qed

end

section \<open>Properties\<close>

text \<open>C38: A registration can be logged in to with its password, and with no other of the same bounds: a fresh address
  registers with a password of 6 to 72 characters as an approved candidate, and the first login after it with a password of 6 to 72 characters succeeds exactly when it is the one
  registered; any other of that length is refused with 401 and changes nothing. (Shorter ones are refused by the schema, and of longer ones only the first 72
  bytes count.)\<close>
theorem register_login_roundtrip:
  assumes "services S V" "get_secrets E = Inr (acc, sec)" "is_email m" "6 \<le> length pw" "length pw \<le> 72"
    "6 \<le> length pw'" "length pw' \<le> 72" "email_unique (V w)" "\<forall>k u. w_users (V w) k = Some u \<longrightarrow> u_email u \<noteq> m"
    "w_users (V w) (fr_userId fr) = None" "w_ks (V w) (login_cache_key m) = None"
    "register E S secret is_email t0 fr (Some \<lparr> rb_email = m, rb_password = pw, rb_name = None, rb_role = None \<rparr>) w = (r0, w0)"
    "login E S secret is_email t1 fr' agent ip (Some \<lparr> lb_email = m, lb_password = pw' \<rparr>) w0 = (r1, w1)"
  shows "(\<exists>a. r0 = Inr a \<and> pu_role (aa_user a) = CANDIDATE \<and> pu_approvalStatus (aa_user a) = APPROVED)
    \<and> (if pw' = pw then \<exists>b. r1 = Inr b \<and> pu_id (aa_user b) = fr_userId fr
       else r1 = api_error ''Invalid credentials'' 401 \<and> w1 = w0)"
  using assms by (rule services.register_then_login)

text \<open>A cached login is not checked against the password: once somebody has logged in to an account
  with its password, for the week of the session every password of at least six characters logs in
  to the account and gets tokens for it, from wherever it is sent.\<close>
theorem cached_login_accepts_any_password:
  assumes "services S V" "get_secrets E = Inr (acc, sec)" "is_email (u_email u)" "6 \<le> length pw"
    "email_unique (V w)" "w_users (V w) k = Some u" "u_role u = CANDIDATE \<or> u_approvalStatus u = APPROVED"
    "ks_get t1 (w_ks (V w)) (login_cache_key (u_email u)) = None" "fr_sessionId fr \<noteq> []"
    "login E S secret is_email t1 fr agent ip (Some \<lparr> lb_email = u_email u, lb_password = pw \<rparr>) w = (Inr a, w1)"
    "t2 < t1 + 1000 * session_ttl" "6 \<le> length other"
  shows "\<exists>b. fst (login E S secret is_email t2 fr' agent' ip' (Some \<lparr> lb_email = u_email u, lb_password = other \<rparr>) w1) = Inr b
    \<and> aa_user b = public_user_of u \<and> aa_sessionId b = aa_sessionId a"
proof -
  note c = services.login_caches[where is_email = is_email, OF assms(1-8,10,11)]
  obtain s where s: "session_of t2 (V w1) (fr_sessionId fr) = Some s" "ls_passwordHash s = hash_prefix (u_password u)"
    using c(2) by blast
  obtain cached w2 where get: "get_cached_login S t2 (u_email u) w1 = (cached, w2)" by force
  have hit: "cache_hit cached u = Some (fr_sessionId fr)"
    using get c(1) s assms(9)
    by (auto simp: get_cached_login_def services.get[OF assms(1)] services.get_session_eq[OF assms(1)] cache_hit_def)
  have uniq: "email_unique (V w1)" using assms(5) c(3) by (simp add: email_unique_def)
  have row: "w_users (V w1) k = Some u" using assms(6) c(3) by simp
  have "login E S secret is_email t2 fr' agent' ip' (Some \<lparr> lb_email = u_email u, lb_password = other \<rparr>) w1 =
      issue_tokens E S secret t2 fr' u (Some (fr_sessionId fr)) None w2"
    using services.login_checked[where is_email = is_email, OF assms(1,3,12) uniq row assms(7) get] hit by simp
  moreover obtain r w3 where run: "issue_tokens E S secret t2 fr' u (Some (fr_sessionId fr)) None w2 = (r, w3)" by force
  ultimately show ?thesis using issue_tokens_ok(1)[OF assms(2) run] c(4) by simp
qed

definition demo_ids :: "string \<Rightarrow> fresh_ids" where
  "demo_ids x = \<lparr> fr_userId = ''u'' @ x, fr_tokenId = ''t'' @ x, fr_familyId = ''f'' @ x, fr_sessionId = ''s'' @ x, fr_salt = ''salt'' \<rparr>"

lemma demo_emails: "email_unique demo" "\<forall>k u. w_users demo k = Some u \<longrightarrow> u_email u \<noteq> ''n@x.org''"
  by (auto simp: email_unique_def ref_view_def demo_world_def keyed_def demo_user_def empty_ref_def split: if_splits)

theorem register_login_roundtrip_witness:
  "\<exists>r0 w0 r1 w1. register demo_env ref_services ''s1'' (\<lambda>m. CHR ''@'' \<in> set m) 1000 (demo_ids ''9'')
       (Some \<lparr> rb_email = ''n@x.org'', rb_password = ''secret1'', rb_name = None, rb_role = None \<rparr>) demo_world = (r0, w0)
   \<and> login demo_env ref_services ''s1'' (\<lambda>m. CHR ''@'' \<in> set m) 2000 (demo_ids ''8'') None None
       (Some \<lparr> lb_email = ''n@x.org'', lb_password = ''secret1'' \<rparr>) w0 = (r1, w1) \<and> (\<exists>b. r1 = Inr b)"
proof -
  obtain r0 w0 where r0: "register demo_env ref_services ''s1'' (\<lambda>m. CHR ''@'' \<in> set m) 1000 (demo_ids ''9'')
       (Some \<lparr> rb_email = ''n@x.org'', rb_password = ''secret1'', rb_name = None, rb_role = None \<rparr>) demo_world = (r0, w0)" by force
  obtain r1 w1 where r1: "login demo_env ref_services ''s1'' (\<lambda>m. CHR ''@'' \<in> set m) 2000 (demo_ids ''8'') None None
       (Some \<lparr> lb_email = ''n@x.org'', lb_password = ''secret1'' \<rparr>) w0 = (r1, w1)" by force
  have new: "w_users demo (fr_userId (demo_ids ''9'')) = None"
    by (simp add: ref_view_def demo_world_def keyed_def demo_user_def empty_ref_def demo_ids_def)
  show ?thesis
    using register_login_roundtrip[OF ref.services_axioms demo_secrets _ _ _ _ _ demo_emails new _ r0 r1] r0 r1 by auto
qed

definition login_world :: ref_world where
  "login_world = demo_world\<lparr> rw_users := [(demo_user ''u1'' CANDIDATE APPROVED)\<lparr> u_password :=
     sv_hash_password ref_services ''salt'' 10 ''secret1'' \<rparr>] \<rparr>"

theorem cached_login_witness:
  "\<exists>a w1 b. login demo_env ref_services ''s1'' (\<lambda>m. True) 1000 (demo_ids ''8'') None None
       (Some \<lparr> lb_email = ''u1@x.org'', lb_password = ''secret1'' \<rparr>) login_world = (Inr a, w1)
   \<and> fst (login demo_env ref_services ''s1'' (\<lambda>m. True) 2000 (demo_ids ''7'') None None
       (Some \<lparr> lb_email = ''u1@x.org'', lb_password = ''wrong-one'' \<rparr>) w1) = Inr b"
proof -
  let ?u = "(demo_user ''u1'' CANDIDATE APPROVED)\<lparr> u_password := sv_hash_password ref_services ''salt'' 10 ''secret1'' \<rparr>"
  have users: "w_users (ref_view login_world) = [''u1'' \<mapsto> ?u]" and ks: "w_ks (ref_view login_world) = Map.empty"
    by (simp_all add: ref_view_def login_world_def keyed_def demo_user_def)
  have uniq: "email_unique (ref_view login_world)" by (simp add: email_unique_def users)
  have row: "w_users (ref_view login_world) ''u1'' = Some ?u" by (simp add: users)
  have mail: "u_email ?u = ''u1@x.org''" "u_role ?u = CANDIDATE" by (simp_all add: demo_user_def)
  have cmp: "sv_compare ref_services ''secret1'' (u_password ?u)" by (simp add: ref.compare_hash)
  have free: "ks_get 1000 (w_ks (ref_view login_world)) (login_cache_key (u_email ?u)) = None" unfolding ks by simp
  obtain r w1 where run: "login demo_env ref_services ''s1'' (\<lambda>m. True) 1000 (demo_ids ''8'') None None
       (Some \<lparr> lb_email = u_email ?u, lb_password = ''secret1'' \<rparr>) login_world = (r, w1)" by force
  have "\<exists>a. r = Inr a"
    using ref.login_uncached[where is_email = "\<lambda>m. True", OF demo_secrets _ _ uniq row _ free, of "''secret1''" "''s1''" "demo_ids ''8''" None None]
      ref.issue_tokens_Inr[OF demo_secrets] cmp run mail by (auto simp: prod_eq_iff) (metis fst_conv)
  then obtain a where run': "login demo_env ref_services ''s1'' (\<lambda>m. True) 1000 (demo_ids ''8'') None None
       (Some \<lparr> lb_email = u_email ?u, lb_password = ''secret1'' \<rparr>) login_world = (Inr a, w1)" using run by auto
  have "\<exists>b. fst (login demo_env ref_services ''s1'' (\<lambda>m. True) 2000 (demo_ids ''7'') None None
       (Some \<lparr> lb_email = u_email ?u, lb_password = ''wrong-one'' \<rparr>) w1) = Inr b"
    using cached_login_accepts_any_password[where is_email = "\<lambda>m. True", OF ref.services_axioms demo_secrets _ _ uniq row _ free _ run',
      of 2000 "''wrong-one''" "demo_ids ''7''" None None] mail
    by (auto simp: session_ttl_def demo_ids_def)
  then show ?thesis using run' unfolding mail by blast
qed

end
