(* ===== verification/Admin_Users.thy ===== *)
theory Admin_Users
  imports Query_Params Auth_Middleware Request_Schemas
begin

text \<open>
  \<^verbatim>\<open>apps/api/src/routes/admin-users.ts\<close>: the administration of accounts. Every route runs
  after \<^verbatim>\<open>authenticate\<close> and \<^verbatim>\<open>requireRole('ADMIN')\<close>, which is the wrapper
  \<^verbatim>\<open>as_admin\<close>. A query without ties in its \<^verbatim>\<open>ORDER BY\<close> column has one order;
  rows with equal columns keep the order in which the database finds them.
\<close>

text \<open>A route behind \<^verbatim>\<open>requireRole(...)\<close>.\<close>
definition as_role :: "'w services \<Rightarrow> role list \<Rightarrow> jwt_payload \<Rightarrow> ('w \<Rightarrow> 'a result \<times> 'w) \<Rightarrow> 'w \<Rightarrow> 'a result \<times> 'w" where
  "as_role S roles p route w = (case require_role S roles (Some p) w of Inl e \<Rightarrow> (Inl e, w) | Inr _ \<Rightarrow> route w)"

abbreviation as_admin :: "'w services \<Rightarrow> jwt_payload \<Rightarrow> ('w \<Rightarrow> 'a result \<times> 'w) \<Rightarrow> 'w \<Rightarrow> 'a result \<times> 'w" where
  "as_admin S \<equiv> as_role S [ADMIN]"

text \<open>A page of a listing with the number of all matches.\<close>
record 'a page =
  pg_data :: "'a list"
  pg_total :: nat
  pg_page :: int
  pg_limit :: int

definition make_page :: "string option \<Rightarrow> string option \<Rightarrow> 'a list \<Rightarrow> 'a page" where
  "make_page qpage qlimit xs = \<lparr> pg_data = page_slice (page_param qpage) (limit_param qlimit) xs,
     pg_total = length xs, pg_page = page_param qpage, pg_limit = limit_param qlimit \<rparr>"

section \<open>Listing\<close>

fun approval_of_name :: "string \<Rightarrow> approval_status option" where
  "approval_of_name s = (if s = ''PENDING'' then Some PENDING else if s = ''APPROVED'' then Some APPROVED
     else if s = ''REJECTED'' then Some REJECTED else None)"

fun role_of_name :: "string \<Rightarrow> role option" where
  "role_of_name s = (if s = ''ADMIN'' then Some ADMIN else if s = ''CANDIDATE'' then Some CANDIDATE
     else if s = ''REVIEWER'' then Some REVIEWER else None)"

text \<open>The search text is put between percent signs as it is.\<close>
definition user_matches :: "string option \<Rightarrow> string option \<Rightarrow> string option \<Rightarrow> user \<Rightarrow> bool" where
  "user_matches search status role u =
    ((case str_opt search of None \<Rightarrow> True
      | Some s \<Rightarrow> (let pat = ''%'' @ s @ ''%'' in
          sql_like pat (u_email u) \<or> (case u_name u of None \<Rightarrow> False | Some n \<Rightarrow> sql_like pat n))) \<and>
     (case Option.bind status approval_of_name of None \<Rightarrow> True | Some st \<Rightarrow> u_approvalStatus u = st) \<and>
     (case Option.bind role role_of_name of None \<Rightarrow> True | Some r \<Rightarrow> u_role u = r))"

record user_row =
  ur_user :: user
  ur_approver :: "user option"

definition list_users ::
  "'w services \<Rightarrow> string option \<Rightarrow> string option \<Rightarrow> string option \<Rightarrow> string option \<Rightarrow> string option \<Rightarrow> 'w \<Rightarrow> user_row page" where
  "list_users S qpage qlimit search status role w =
    make_page qpage qlimit (map (\<lambda>u. \<lparr> ur_user = u, ur_approver = Option.bind (u_approvedBy u) (\<lambda>i. find_user S i w) \<rparr>)
      (sort_key (\<lambda>u. - u_createdAt u) (t_select (sv_users S) (user_matches search status role) w)))"

definition list_pending :: "'w services \<Rightarrow> 'w \<Rightarrow> user list" where
  "list_pending S w = sort_key u_createdAt
     (t_select (sv_users S) (\<lambda>u. u_approvalStatus u = PENDING \<and> (u_role u = ADMIN \<or> u_role u = REVIEWER)) w)"

section \<open>Decisions\<close>

definition decide_user ::
  "'w services \<Rightarrow> approval_status \<Rightarrow> string \<Rightarrow> string \<Rightarrow> time \<Rightarrow> jwt_payload \<Rightarrow> id \<Rightarrow> 'w \<Rightarrow> user result \<times> 'w" where
  "decide_user S st own already now p uid w =
    (if uid = jp_userId p then (api_error own 400, w)
     else (case find_user S uid w of
        None \<Rightarrow> (api_error ''User not found'' 404, w)
      | Some u \<Rightarrow>
          if u_approvalStatus u = st then (api_error already 400, w)
          else (let f = (\<lambda>r. r\<lparr> u_approvalStatus := st, u_approvedBy := Some (jp_userId p),
                              u_approvedAt := Some now, u_updatedAt := now \<rparr>)
                in (Inr (f u), update_user S uid f w))))"

definition approve_user :: "'w services \<Rightarrow> time \<Rightarrow> jwt_payload \<Rightarrow> id \<Rightarrow> 'w \<Rightarrow> user result \<times> 'w" where
  "approve_user S = decide_user S APPROVED ''Cannot approve your own account'' ''User is already approved''"

definition reject_user :: "'w services \<Rightarrow> time \<Rightarrow> jwt_payload \<Rightarrow> id \<Rightarrow> 'w \<Rightarrow> user result \<times> 'w" where
  "reject_user S = decide_user S REJECTED ''Cannot reject your own account'' ''User is already rejected''"

definition needs_approval :: "role \<Rightarrow> user \<Rightarrow> bool" where
  "needs_approval r u = ((r = ADMIN \<or> r = REVIEWER) \<and> u_role u = CANDIDATE)"

definition change_role :: "'w services \<Rightarrow> time \<Rightarrow> jwt_payload \<Rightarrow> id \<Rightarrow> string option \<Rightarrow> 'w \<Rightarrow> user result \<times> 'w" where
  "change_role S now p uid name w = (case Option.bind name role_of_name of
     None \<Rightarrow> (api_error ''Invalid role'' 400, w)
   | Some r \<Rightarrow>
      if uid = jp_userId p then (api_error ''Cannot change your own role'' 400, w)
      else (case find_user S uid w of
         None \<Rightarrow> (api_error ''User not found'' 404, w)
       | Some u \<Rightarrow>
          (let f = (\<lambda>x. x\<lparr> u_role := r,
                 u_approvalStatus := (if needs_approval r u then PENDING else u_approvalStatus u), u_updatedAt := now \<rparr>)
           in (Inr (f u), update_user S uid f w))))"

record user_stats =
  us_total :: nat
  us_admins :: nat
  us_reviewers :: nat
  us_candidates :: nat
  us_pendingApproval :: nat

definition count_users :: "'w services \<Rightarrow> (user \<Rightarrow> bool) \<Rightarrow> 'w \<Rightarrow> nat" where
  "count_users S P w = length (t_select (sv_users S) P w)"

definition user_statistics :: "'w services \<Rightarrow> 'w \<Rightarrow> user_stats" where
  "user_statistics S w = \<lparr> us_total = count_users S (\<lambda>_. True) w, us_admins = count_users S (\<lambda>u. u_role u = ADMIN) w,
     us_reviewers = count_users S (\<lambda>u. u_role u = REVIEWER) w, us_candidates = count_users S (\<lambda>u. u_role u = CANDIDATE) w,
     us_pendingApproval = count_users S (\<lambda>u. u_approvalStatus u = PENDING) w \<rparr>"

section \<open>The administration as a transition system\<close>

text \<open>One request by anybody whose token passes the role check.\<close>
inductive admin_step :: "'w services \<Rightarrow> jwt_payload \<Rightarrow> 'w \<Rightarrow> 'w \<Rightarrow> bool" for S where
  as_approve: "admin_step S p w (snd (as_admin S p (approve_user S now p uid) w))"
| as_reject: "admin_step S p w (snd (as_admin S p (reject_user S now p uid) w))"
| as_change: "admin_step S p w (snd (as_admin S p (change_role S now p uid name) w))"

inductive_cases admin_stepE: "admin_step S p w w'"

definition approved_admin_ids :: "world \<Rightarrow> id set" where
  "approved_admin_ids W = {k. \<exists>u. w_users W k = Some u \<and> u_role u = ADMIN \<and> u_approvalStatus u = APPROVED}"

text \<open>A run in which every request comes from an account that is an approved administrator in the
  database at that moment.\<close>
inductive honest_admin_run :: "'w services \<Rightarrow> ('w \<Rightarrow> world) \<Rightarrow> 'w \<Rightarrow> 'w \<Rightarrow> bool" for S V where
  har_refl: "honest_admin_run S V w w"
| har_step: "honest_admin_run S V w w' \<Longrightarrow> jp_userId p \<in> approved_admin_ids (V w') \<Longrightarrow> admin_step S p w' w''
     \<Longrightarrow> honest_admin_run S V w w''"

lemma as_role_cases: "as_role S roles p route w = (case require_role S roles (Some p) w of Inl e \<Rightarrow> (Inl e, w) | Inr _ \<Rightarrow> route w)"
  by (simp add: as_role_def)

context services begin

lemma decide_row:
  assumes "decide_user S st own already now p uid w = (r, w')"
  shows "V w' = V w \<or> (uid \<noteq> jp_userId p \<and> (\<exists>f. V w' = w_users_update (row_upd uid f) (V w)))"
  using assms by (auto simp: decide_user_def Let_def split: if_splits option.splits)

lemma change_row:
  assumes "change_role S now p uid name w = (r, w')"
  shows "V w' = V w \<or> (uid \<noteq> jp_userId p \<and> (\<exists>f. V w' = w_users_update (row_upd uid f) (V w)))"
  using assms by (auto simp: change_role_def Let_def split: if_splits option.splits)

text \<open>Nobody changes their own account.\<close>
lemma admin_step_keeps_actor:
  assumes "admin_step S p w w'" shows "w_users (V w') (jp_userId p) = w_users (V w) (jp_userId p)"
  using assms
proof (cases rule: admin_step.cases)
  case (as_approve now uid)
  obtain r x where run: "approve_user S now p uid w = (r, x)" by force
  then show ?thesis using decide_row[OF run[unfolded approve_user_def]]
    by (auto simp: as_approve as_role_def run split: sum.split)
next
  case (as_reject now uid)
  obtain r x where run: "reject_user S now p uid w = (r, x)" by force
  then show ?thesis using decide_row[OF run[unfolded reject_user_def]]
    by (auto simp: as_reject as_role_def run split: sum.split)
next
  case (as_change now uid name)
  obtain r x where run: "change_role S now p uid name w = (r, x)" by force
  then show ?thesis using change_row[OF run]
    by (auto simp: as_change as_role_def run split: sum.split)
qed

lemma honest_run_keeps_admin:
  assumes "honest_admin_run S V w w'" "approved_admin_ids (V w) \<noteq> {}"
  shows "approved_admin_ids (V w') \<noteq> {}"
  using assms
proof (induction rule: honest_admin_run.induct)
  case (har_step w w' p w'')
  have "w_users (V w'') (jp_userId p) = w_users (V w') (jp_userId p)"
    by (rule admin_step_keeps_actor[OF har_step.hyps(3)])
  then have "jp_userId p \<in> approved_admin_ids (V w'')" using har_step.hyps(2) by (simp add: approved_admin_ids_def)
  then show ?case by blast
qed simp

lemma change_then_reject:
  assumes "w_users (V w) a = Some ua" "w_users (V w) b = Some ub" "u_role ua = ADMIN" "u_approvalStatus ua = APPROVED"
    "u_role ub = ADMIN" "u_approvalStatus ub = APPROVED" "a \<noteq> b" "approved_admin_ids (V w) = {a, b}"
    "jp_userId pa = a" "jp_role pa = ADMIN" "jp_userId pb = b" "jp_role pb = ADMIN"
    "as_admin S pa (change_role S t1 pa b (Some ''CANDIDATE'')) w = (r1, w1)"
    "as_admin S pb (reject_user S t2 pb a) w1 = (r2, w2)"
  shows "(\<exists>x. r1 = Inr x) \<and> (\<exists>x. r2 = Inr x) \<and> approved_admin_ids (V w2) = {}"
proof -
  have r1: "require_role S [ADMIN] (Some pa) w = Inr ()" using assms by (simp add: require_role_def)
  have V1: "V w1 = w_users_update (row_upd b (\<lambda>x. x\<lparr> u_role := CANDIDATE, u_approvalStatus := APPROVED, u_updatedAt := t1 \<rparr>)) (V w)"
    and o1: "\<exists>x. r1 = Inr x"
    using assms(1-13) r1 by (auto simp: as_role_def change_role_def Let_def needs_approval_def)
  have us1: "w_users (V w1) b = Some (ub\<lparr> u_role := CANDIDATE, u_approvalStatus := APPROVED, u_updatedAt := t1 \<rparr>)"
    "w_users (V w1) a = Some ua" using V1 assms(1,2,7) by simp_all
  have r2: "require_role S [ADMIN] (Some pb) w1 = Inr ()"
    using us1(1) assms(11,12) by (simp add: require_role_def)
  have V2: "V w2 = w_users_update (row_upd a (\<lambda>r. r\<lparr> u_approvalStatus := REJECTED, u_approvedBy := Some b,
       u_approvedAt := Some t2, u_updatedAt := t2 \<rparr>)) (V w1)" and o2: "\<exists>x. r2 = Inr x"
    using assms(4,7,11,14) r2 us1 by (auto simp: as_role_def reject_user_def decide_user_def Let_def)
  have "k \<notin> approved_admin_ids (V w2)" for k
  proof (cases "k = a \<or> k = b")
    case True
    then show ?thesis using us1 assms(7) by (auto simp: V2 approved_admin_ids_def)
  next
    case False
    then have "k \<notin> approved_admin_ids (V w)" using assms(8) by simp
    then show ?thesis using False by (auto simp: V2 V1 approved_admin_ids_def)
  qed
  then show ?thesis using o1 o2 by blast
qed

end

section \<open>Properties\<close>

text \<open>C29: As long as every request of the account administration comes from an account that is an
  approved administrator at that moment, an approved administrator remains: no sequence of approvals, rejections and
  role changes can remove the last one, because nobody changes their own account.\<close>
theorem an_admin_remains:
  assumes "services S V" "honest_admin_run S V w w'" "approved_admin_ids (V w) \<noteq> {}"
  shows "approved_admin_ids (V w') \<noteq> {}"
  using assms by (rule services.honest_run_keeps_admin)

text \<open>The check the routes really make is weaker than that: it reads the role from the token. Of two
  approved administrators the first demotes the second to candidate, and the second, whose account
  is now a candidate's, rejects the first with the old token: both requests succeed and no approved administrator is
  left, so that nobody can approve one again.\<close>
theorem demoted_admin_locks_out:
  assumes "services S V" "w_users (V w) a = Some ua" "w_users (V w) b = Some ub" "u_role ua = ADMIN" "u_approvalStatus ua = APPROVED"
    "u_role ub = ADMIN" "u_approvalStatus ub = APPROVED" "a \<noteq> b" "approved_admin_ids (V w) = {a, b}"
    "jp_userId pa = a" "jp_role pa = ADMIN" "jp_userId pb = b" "jp_role pb = ADMIN"
    "as_admin S pa (change_role S t1 pa b (Some ''CANDIDATE'')) w = (r1, w1)"
    "as_admin S pb (reject_user S t2 pb a) w1 = (r2, w2)"
  shows "(\<exists>x. r1 = Inr x) \<and> (\<exists>x. r2 = Inr x) \<and> approved_admin_ids (V w2) = {}"
  using assms by (rule services.change_then_reject)

definition two_admins :: ref_world where
  "two_admins = demo_world\<lparr> rw_users := [demo_user ''a'' ADMIN APPROVED, demo_user ''b'' ADMIN APPROVED] \<rparr>"

lemma two_admins_users: "w_users (ref_view two_admins) = [''a'' \<mapsto> demo_user ''a'' ADMIN APPROVED, ''b'' \<mapsto> demo_user ''b'' ADMIN APPROVED]"
  by (rule ext) (simp add: ref_view_def two_admins_def keyed_def demo_user_def)

lemma two_admins_ids: "approved_admin_ids (ref_view two_admins) = {''a'', ''b''}"
  by (auto simp: approved_admin_ids_def two_admins_users demo_user_def split: if_splits)

definition admin_token :: "id \<Rightarrow> jwt_payload" where
  "admin_token i = \<lparr> jp_userId = i, jp_email = [], jp_role = ADMIN \<rparr>"

theorem an_admin_remains_witness:
  "approved_admin_ids (ref_view (snd (as_admin ref_services (admin_token ''a'') (reject_user ref_services 9 (admin_token ''a'') ''b'') two_admins))) \<noteq> {}"
proof -
  let ?w = "snd (as_admin ref_services (admin_token ''a'') (reject_user ref_services 9 (admin_token ''a'') ''b'') two_admins)"
  have "honest_admin_run ref_services ref_view two_admins ?w"
    by (rule har_step[OF har_refl _ as_reject]) (simp add: two_admins_ids admin_token_def)
  then show ?thesis using an_admin_remains[OF ref.services_axioms] by (simp add: two_admins_ids)
qed

theorem demoted_admin_witness:
  "\<exists>r1 w1 r2 w2. as_admin ref_services (admin_token ''a'') (change_role ref_services 1 (admin_token ''a'') ''b'' (Some ''CANDIDATE'')) two_admins = (r1, w1)
    \<and> as_admin ref_services (admin_token ''b'') (reject_user ref_services 2 (admin_token ''b'') ''a'') w1 = (r2, w2)
    \<and> approved_admin_ids (ref_view w2) = {}"
proof -
  obtain r1 w1 where r1: "as_admin ref_services (admin_token ''a'') (change_role ref_services 1 (admin_token ''a'') ''b'' (Some ''CANDIDATE'')) two_admins = (r1, w1)" by force
  obtain r2 w2 where r2: "as_admin ref_services (admin_token ''b'') (reject_user ref_services 2 (admin_token ''b'') ''a'') w1 = (r2, w2)" by force
  show ?thesis
    using demoted_admin_locks_out[OF ref.services_axioms _ _ _ _ _ _ _ two_admins_ids _ _ _ _ r1 r2] r1 r2
    by (auto simp: two_admins_users demo_user_def admin_token_def)
qed

end
