(* ===== verification/Challenge_Routes.thy ===== *)
theory Challenge_Routes
  imports Admin_Users Challenge_Validator
begin

text \<open>
  \<^verbatim>\<open>apps/api/src/routes/challenges.ts\<close>: the administration of challenges, every route behind
  \<^verbatim>\<open>as_admin\<close>. The order of texts is the database's collation, a parameter that maps a
  text to its sort key. An update without any column is refused by the query builder, a raised
  error.
\<close>

section \<open>Listing\<close>

text \<open>\<^verbatim>\<open>ORDER BY\<close> a text column or the creation time, ascending or descending.\<close>
definition order_rows :: "('r \<Rightarrow> 'k :: linorder) \<Rightarrow> bool \<Rightarrow> 'r list \<Rightarrow> 'r list" where
  "order_rows k asc rs = (if asc then sort_key k rs else rev (sort_key k rs))"

definition order_by ::
  "(string \<Rightarrow> string) \<Rightarrow> string \<Rightarrow> ('r \<Rightarrow> string) \<Rightarrow> ('r \<Rightarrow> time) \<Rightarrow> string option \<Rightarrow> string option \<Rightarrow> 'r list \<Rightarrow> 'r list" where
  "order_by coll column text created qsort qorder rs = (let asc = (qorder = Some ''asc'') in
     if qsort = Some column then order_rows (coll \<circ> text) asc rs else order_rows created asc rs)"

definition search_matches :: "string option \<Rightarrow> string \<Rightarrow> bool" where
  "search_matches q s = (case str_opt q of None \<Rightarrow> True | Some t \<Rightarrow> sql_like (search_pattern t) s)"

definition list_challenges ::
  "'w services \<Rightarrow> (string \<Rightarrow> string) \<Rightarrow> string option \<Rightarrow> string option \<Rightarrow> string option \<Rightarrow> string option \<Rightarrow> string option \<Rightarrow> 'w \<Rightarrow> challenge page" where
  "list_challenges S coll qpage qlimit search qsort qorder w =
    make_page qpage qlimit (order_by coll ''name'' c_name c_createdAt qsort qorder
      (t_select (sv_challenges S) (\<lambda>c. search_matches search (c_name c)) w))"

definition all_challenges :: "'w services \<Rightarrow> (string \<Rightarrow> string) \<Rightarrow> 'w \<Rightarrow> (id \<times> string) list" where
  "all_challenges S coll w = map (\<lambda>c. (c_id c, c_name c)) (sort_key (coll \<circ> c_name) (t_select (sv_challenges S) (\<lambda>_. True) w))"

definition get_challenge :: "'w services \<Rightarrow> id \<Rightarrow> 'w \<Rightarrow> challenge result" where
  "get_challenge S cid w = (case find_challenge S cid w of
     None \<Rightarrow> api_error ''Challenge not found'' 404 | Some c \<Rightarrow> Inr c)"

section \<open>Changing\<close>

definition create_challenge ::
  "'w services \<Rightarrow> time \<Rightarrow> id \<Rightarrow> jwt_payload \<Rightarrow> challenge_body option \<Rightarrow> 'w \<Rightarrow> challenge result \<times> 'w" where
  "create_challenge S now newid p body w = (case body of None \<Rightarrow> (Inl ZodError, w)
   | Some b \<Rightarrow> (case create_challenge_schema b of Inl e \<Rightarrow> (Inl e, w)
     | Inr d \<Rightarrow>
        (let c = \<lparr> c_id = newid, c_name = cb_name d, c_description = cb_description d,
             c_starterFiles = cb_starterFiles d, c_publicTests = cb_publicTests d, c_hiddenTests = cb_hiddenTests d,
             c_dependencies = cb_dependencies d, c_nodeVersion = or_default (cb_nodeVersion d) ''20'',
             c_runner = cb_runner d, c_createdAt = now, c_createdBy = Some (jp_userId p) \<rparr>
         in (Inr c, t_insert (sv_challenges S) c w))))"

definition patch_challenge :: "challenge_patch \<Rightarrow> challenge \<Rightarrow> challenge" where
  "patch_challenge d c = c\<lparr> c_name := or_default (cp_name d) (c_name c),
     c_description := or_else (cp_description d) (c_description c),
     c_starterFiles := or_default (cp_starterFiles d) (c_starterFiles c),
     c_publicTests := or_default (cp_publicTests d) (c_publicTests c),
     c_hiddenTests := or_default (cp_hiddenTests d) (c_hiddenTests c),
     c_dependencies := or_default (cp_dependencies d) (c_dependencies c),
     c_nodeVersion := or_default (cp_nodeVersion d) (c_nodeVersion c),
     c_runner := or_else (cp_runner d) (c_runner c) \<rparr>"

definition empty_challenge_patch :: challenge_patch where
  "empty_challenge_patch = \<lparr> cp_name = None, cp_description = None, cp_starterFiles = None, cp_publicTests = None,
     cp_hiddenTests = None, cp_dependencies = None, cp_nodeVersion = None, cp_runner = None \<rparr>"

definition update_challenge_route ::
  "'w services \<Rightarrow> id \<Rightarrow> challenge_patch option \<Rightarrow> 'w \<Rightarrow> challenge result \<times> 'w" where
  "update_challenge_route S cid body w = (case body of None \<Rightarrow> (Inl ZodError, w)
   | Some b \<Rightarrow> (case update_challenge_schema b of Inl e \<Rightarrow> (Inl e, w)
     | Inr d \<Rightarrow> (case find_challenge S cid w of
          None \<Rightarrow> (api_error ''Challenge not found'' 404, w)
        | Some c \<Rightarrow>
            if d = empty_challenge_patch then (Inl (PlainError ''No values to set''), w)
            else (Inr (patch_challenge d c), update_challenge S cid (patch_challenge d) w))))"

definition in_use_message :: "nat \<Rightarrow> string" where
  "in_use_message n = ''Cannot delete challenge: '' @ nat_digits n @ '' exam(s) are using this challenge.''"

definition delete_challenge :: "'w services \<Rightarrow> id \<Rightarrow> 'w \<Rightarrow> unit result \<times> 'w" where
  "delete_challenge S cid w = (case find_challenge S cid w of
     None \<Rightarrow> (api_error ''Challenge not found'' 404, w)
   | Some c \<Rightarrow>
      (let n = length (t_select (sv_exams S) (\<lambda>e. e_challengeId e = cid) w)
       in if 0 < n then (api_error (in_use_message n) 400, w)
          else (Inr (), t_delete (sv_challenges S) (\<lambda>c. c_id c = cid) w)))"

section \<open>Validating\<close>

text \<open>The body of the quick validation may miss any field; a missing name reads as empty.\<close>
definition validate_route ::
  "string option \<Rightarrow> files option \<Rightarrow> string option \<Rightarrow> string option \<Rightarrow> validation_result" where
  "validate_route name starter publicTests hiddenTests = quick_validate \<lparr> ci_name = or_default name [],
     ci_starterFiles = or_default starter [], ci_publicTests = or_default publicTests [],
     ci_hiddenTests = or_default hiddenTests [], ci_solutionFiles = [] \<rparr>"

definition validate_existing :: "'w services \<Rightarrow> id \<Rightarrow> files option \<Rightarrow> 'w \<Rightarrow> validation_result result" where
  "validate_existing S cid solution w = (case find_challenge S cid w of
     None \<Rightarrow> api_error ''Challenge not found'' 404
   | Some c \<Rightarrow> Inr (validate_challenge \<lparr> ci_name = c_name c, ci_starterFiles = c_starterFiles c,
       ci_publicTests = c_publicTests c, ci_hiddenTests = c_hiddenTests c, ci_solutionFiles = or_default solution [] \<rparr>))"

section \<open>Lemmas\<close>

lemma patch_challenge_id [simp]: "c_id (patch_challenge d c) = c_id c"
  by (simp add: patch_challenge_def)

lemma set_order_by [simp]: "set (order_by coll column text created qsort qorder rs) = set rs"
  "length (order_by coll column text created qsort qorder rs) = length rs"
  by (simp_all add: order_by_def order_rows_def Let_def)

lemma page_slice_sub: "set (page_slice p l xs) \<subseteq> set xs"
  unfolding page_slice_def by (meson in_set_dropD in_set_takeD subsetI)

lemma length_page_slice: "1 \<le> l \<Longrightarrow> int (length (page_slice p l xs)) \<le> l"
  by (simp add: page_slice_def)

lemma search_matches_iff: "search_matches q s \<longleftrightarrow> (case str_opt q of None \<Rightarrow> True | Some t \<Rightarrow> sublist t s)"
proof (cases "str_opt q")
  case (Some t)
  have "sql_like (search_pattern t) s \<longleftrightarrow> sublist t s" by (rule like_search)
  then show ?thesis using Some by (simp add: search_matches_def)
qed (simp add: search_matches_def)

end
