(* ===== verification/Exam_Routes.thy ===== *)
theory Exam_Routes
  imports Challenge_Routes Attempts
begin

text \<open>
  \<^verbatim>\<open>apps/api/src/routes/exams.ts\<close>: exams and invitations. Whether an invitation has to
  carry an e-mail address is the flag \<^verbatim>\<open>require_email\<close> of the environment. The constraints
  of the database that the routes lean on are checked where a statement could break them: whole
  numbers in integer columns, the reference of an exam to its challenge, the address of an invitation
  that must not be null; breaking one raises an error and changes nothing.
\<close>

section \<open>Reading\<close>

definition is_staff :: "jwt_payload \<Rightarrow> bool" where
  "is_staff p = (jp_role p = ADMIN \<or> jp_role p = REVIEWER)"

definition exam_visible :: "jwt_payload \<Rightarrow> string option \<Rightarrow> exam \<Rightarrow> bool" where
  "exam_visible p search e = ((is_staff p \<or> e_isPublished e) \<and> search_matches search (e_title e))"

record exam_row =
  xr_exam :: exam
  xr_challenge :: "(id \<times> string) option"

definition list_exams ::
  "'w services \<Rightarrow> (string \<Rightarrow> string) \<Rightarrow> jwt_payload \<Rightarrow> string option \<Rightarrow> string option \<Rightarrow> string option \<Rightarrow> string option \<Rightarrow> string option \<Rightarrow> 'w \<Rightarrow> exam_row page" where
  "list_exams S coll p qpage qlimit search qsort qorder w =
    make_page qpage qlimit (map (\<lambda>e. \<lparr> xr_exam = e, xr_challenge = map_option (\<lambda>c. (c_id c, c_name c)) (find_challenge S (e_challengeId e) w) \<rparr>)
      (order_by coll ''title'' e_title e_createdAt qsort qorder (t_select (sv_exams S) (exam_visible p search) w)))"

text \<open>A path that starts with \<^verbatim>\<open>invite-\<close> is passed on and answered by nobody.\<close>
definition hide_hidden :: "jwt_payload \<Rightarrow> challenge \<Rightarrow> challenge" where
  "hide_hidden p c = (if jp_role p \<noteq> ADMIN then c\<lparr> c_hiddenTests := ''[HIDDEN]'' \<rparr> else c)"

definition get_exam :: "'w services \<Rightarrow> jwt_payload \<Rightarrow> id \<Rightarrow> 'w \<Rightarrow> (exam \<times> challenge option) option result" where
  "get_exam S p eid w = (if prefix ''invite-'' eid then Inr None
     else (case find_exam S eid w of
        None \<Rightarrow> api_error ''Exam not found'' 404
      | Some e \<Rightarrow>
          if jp_role p = CANDIDATE \<and> \<not> e_isPublished e then api_error ''Exam not found'' 404
          else Inr (Some (e, map_option (hide_hidden p) (find_challenge S (e_challengeId e) w)))))"

definition expired :: "time \<Rightarrow> invitation \<Rightarrow> bool" where
  "expired now i = (case i_expiresAt i of None \<Rightarrow> False | Some t \<Rightarrow> t < now)"

definition get_invitation :: "'w services \<Rightarrow> time \<Rightarrow> string \<Rightarrow> 'w \<Rightarrow> (invitation \<times> exam option) result" where
  "get_invitation S now token w = (case t_first (sv_invitations S) (\<lambda>i. i_token i = token) w of
     None \<Rightarrow> api_error ''Invalid or expired invitation'' 404
   | Some i \<Rightarrow> if expired now i then api_error ''Invitation has expired'' 410
               else Inr (i, find_exam S (i_examId i) w))"

section \<open>Accepting an invitation\<close>

datatype accepted = ResumedAttempt id | NewAttempt id

definition accept_invitation ::
  "'w services \<Rightarrow> bool \<Rightarrow> time \<Rightarrow> id \<Rightarrow> jwt_payload \<Rightarrow> string \<Rightarrow> 'w \<Rightarrow> accepted result \<times> 'w" where
  "accept_invitation S require_email now newid p token w =
    (case t_first (sv_invitations S) (\<lambda>i. i_token i = token) w of
       None \<Rightarrow> (api_error ''Invalid invitation'' 404, w)
     | Some i \<Rightarrow>
        if i_email i \<noteq> [] \<and> str_lower (i_email i) \<noteq> str_lower (jp_email p)
        then (api_error ''This invitation was sent to a different email address'' 403, w)
        else if i_email i = [] \<and> require_email
        then (api_error ''Invalid invitation: email binding required'' 400, w)
        else if expired now i then (api_error ''Invitation has expired'' 410, w)
        else if i_usedAt i \<noteq> None then (api_error ''Invitation has already been used'' 400, w)
        else (case t_first (sv_attempts S) (\<lambda>a. a_examId a = i_examId i \<and> a_candidateId a = jp_userId p) w of
            Some a \<Rightarrow> (Inr (ResumedAttempt (a_id a)), w)
          | None \<Rightarrow>
             (let w1 = update_invitation S (i_id i) (\<lambda>r. r\<lparr> i_usedAt := Some now \<rparr>) w
              in case find_exam S (i_examId i) w of
                   None \<Rightarrow> (Inl TypeError, w1)
                 | Some e \<Rightarrow> (case find_challenge S (e_challengeId e) w of
                     None \<Rightarrow> (Inl TypeError, w1)
                   | Some c \<Rightarrow> (Inr (NewAttempt newid),
                       t_insert (sv_attempts S) (new_attempt newid (i_examId i) (jp_userId p) (c_starterFiles c) now) w1)))))"

section \<open>Changing exams\<close>

definition new_exam :: "exam_fields \<Rightarrow> id \<Rightarrow> id \<Rightarrow> time \<Rightarrow> exam option" where
  "new_exam f eid creator now = (case (int_column (ef_timeLimit f), int_column (ef_maxAttempts f), int_column (ef_expectedCandidates f)) of
     (Some mins, Some ma, Some ec) \<Rightarrow> Some \<lparr> e_id = eid, e_title = ef_title f, e_description = ef_description f,
        e_challengeId = ef_challengeId f, e_timeLimit = mins, e_maxAttempts = ma, e_passThreshold = ef_passThreshold f,
        e_scheduledStartAt = ef_scheduledStartAt f, e_scheduledEndAt = ef_scheduledEndAt f,
        e_timezone = Some (ef_timezone f), e_fullscreenRequired = ef_fullscreenRequired f,
        e_tabSwitchLogging = ef_tabSwitchLogging f, e_pasteDisabled = ef_pasteDisabled f,
        e_expectedCandidates = Some ec, e_poolWarmedAt = None, e_isPublished = False, e_publishedAt = None,
        e_createdAt = now, e_updatedAt = now, e_createdBy = creator \<rparr>
   | _ \<Rightarrow> None)"

definition create_exam ::
  "'w services \<Rightarrow> (string \<Rightarrow> time option) \<Rightarrow> time \<Rightarrow> id \<Rightarrow> jwt_payload \<Rightarrow> exam_body option \<Rightarrow> 'w \<Rightarrow> exam result \<times> 'w" where
  "create_exam S parse now newid p body w = (case body of None \<Rightarrow> (Inl ZodError, w)
   | Some b \<Rightarrow> (case create_exam_schema parse b of Inl e \<Rightarrow> (Inl e, w)
     | Inr f \<Rightarrow> (case find_challenge S (ef_challengeId f) w of
          None \<Rightarrow> (api_error ''Challenge not found'' 404, w)
        | Some _ \<Rightarrow> (case new_exam f newid (jp_userId p) now of
            None \<Rightarrow> (Inl (PlainError ''invalid input syntax for type integer''), w)
          | Some e \<Rightarrow> (Inr e, t_insert (sv_exams S) e w)))))"

text \<open>\<^verbatim>\<open>SET\<close> the columns of a parsed patch: the two dates always.\<close>
definition opt_int :: "rat option \<Rightarrow> int \<Rightarrow> int option" where
  "opt_int x d = (case x of None \<Rightarrow> Some d | Some r \<Rightarrow> int_column r)"

definition patch_exam :: "exam_patch \<Rightarrow> time option \<Rightarrow> time option \<Rightarrow> time \<Rightarrow> exam \<Rightarrow> exam" where
  "patch_exam d start end now e = e\<lparr> e_title := or_default (ep_title d) (e_title e),
     e_description := or_else (ep_description d) (e_description e),
     e_challengeId := or_default (ep_challengeId d) (e_challengeId e),
     e_timeLimit := or_default (opt_int (ep_timeLimit d) (e_timeLimit e)) (e_timeLimit e),
     e_maxAttempts := or_default (opt_int (ep_maxAttempts d) (e_maxAttempts e)) (e_maxAttempts e),
     e_passThreshold := or_default (ep_passThreshold d) (e_passThreshold e),
     e_fullscreenRequired := or_default (ep_fullscreenRequired d) (e_fullscreenRequired e),
     e_tabSwitchLogging := or_default (ep_tabSwitchLogging d) (e_tabSwitchLogging e),
     e_pasteDisabled := or_default (ep_pasteDisabled d) (e_pasteDisabled e),
     e_expectedCandidates := (case ep_expectedCandidates d of None \<Rightarrow> e_expectedCandidates e | Some r \<Rightarrow> int_column r),
     e_scheduledStartAt := start, e_scheduledEndAt := end,
     e_timezone := or_else (ep_timezone d) (e_timezone e), e_updatedAt := now \<rparr>"

text \<open>The database refuses a fraction in an integer column and an unknown challenge.\<close>
definition patch_allowed :: "'w services \<Rightarrow> exam_patch \<Rightarrow> 'w \<Rightarrow> bool" where
  "patch_allowed S d w = (opt_int (ep_timeLimit d) 0 \<noteq> None \<and> opt_int (ep_maxAttempts d) 0 \<noteq> None \<and>
     (case ep_challengeId d of None \<Rightarrow> True | Some c \<Rightarrow> find_challenge S c w \<noteq> None))"

definition update_exam_route ::
  "'w services \<Rightarrow> (string \<Rightarrow> time option) \<Rightarrow> time \<Rightarrow> id \<Rightarrow> exam_patch option \<Rightarrow> 'w \<Rightarrow> exam result \<times> 'w" where
  "update_exam_route S parse now eid body w = (case body of None \<Rightarrow> (Inl ZodError, w)
   | Some b \<Rightarrow> (case update_exam_schema parse b of Inl e \<Rightarrow> (Inl e, w)
     | Inr (d, start, end) \<Rightarrow> (case find_exam S eid w of
          None \<Rightarrow> (api_error ''Exam not found'' 404, w)
        | Some e \<Rightarrow>
            if \<not> patch_allowed S d w then (Inl (PlainError ''constraint violated''), w)
            else (Inr (patch_exam d start end now e), update_exam S eid (patch_exam d start end now) w))))"

definition publish_exam :: "'w services \<Rightarrow> time \<Rightarrow> id \<Rightarrow> 'w \<Rightarrow> exam result \<times> 'w" where
  "publish_exam S now eid w = (case find_exam S eid w of
     None \<Rightarrow> (api_error ''Exam not found'' 404, w)
   | Some e \<Rightarrow> (let f = (\<lambda>x. x\<lparr> e_isPublished := True, e_publishedAt := Some now, e_updatedAt := now \<rparr>)
       in (Inr (f e), update_exam S eid f w)))"

text \<open>The update comes first; an empty answer means there is no such exam.\<close>
definition unpublish_exam :: "'w services \<Rightarrow> time \<Rightarrow> id \<Rightarrow> 'w \<Rightarrow> exam result \<times> 'w" where
  "unpublish_exam S now eid w = (let f = (\<lambda>x. x\<lparr> e_isPublished := False, e_updatedAt := now \<rparr>);
       w1 = update_exam S eid f w
     in case find_exam S eid w of None \<Rightarrow> (api_error ''Exam not found'' 404, w1) | Some e \<Rightarrow> (Inr (f e), w1))"

section \<open>Inviting\<close>

text \<open>\<^verbatim>\<open>/^[^\s@]+@[^\s@]+\.[^\s@]+$/\<close>: one at sign, no white space, and a dot behind the
  at sign with something on both sides of it.\<close>
definition email_format :: "string \<Rightarrow> bool" where
  "email_format s = (case str_split CHR ''@'' s of
     [local, domain] \<Rightarrow> local \<noteq> [] \<and> \<not> list_ex is_space s \<and>
        list_ex (\<lambda>k. domain ! k = CHR ''.'' \<and> 0 < k \<and> k + 1 < length domain) [0..<length domain]
   | _ \<Rightarrow> False)"

text \<open>\<^verbatim>\<open>expiresIn\<close> is a number of hours, zero and missing meaning a week.\<close>
definition invite_expiry :: "time \<Rightarrow> rat option \<Rightarrow> time" where
  "invite_expiry now hours = (case hours of
     Some h \<Rightarrow> if h = 0 then now + 7 * 24 * 60 * 60 * 1000 else \<lfloor>of_int now + h * 60 * 60 * 1000\<rfloor>
   | None \<Rightarrow> now + 7 * 24 * 60 * 60 * 1000)"

definition create_invitation ::
  "'w services \<Rightarrow> bool \<Rightarrow> string \<Rightarrow> time \<Rightarrow> id \<Rightarrow> string \<Rightarrow> id \<Rightarrow> string option \<Rightarrow> rat option \<Rightarrow> 'w \<Rightarrow> (invitation \<times> string) result \<times> 'w" where
  "create_invitation S require_email frontend now newid token eid email hours w =
    (if require_email \<and> str_opt email = None then (api_error ''Email is required for invitations'' 400, w)
     else if \<not> opt_all email_format (str_opt email) then (api_error ''Invalid email format'' 400, w)
     else (case find_exam S eid w of
        None \<Rightarrow> (api_error ''Exam not found'' 404, w)
      | Some e \<Rightarrow> (case str_opt email of
          None \<Rightarrow> (Inl (PlainError ''null value in column email''), w)
        | Some m \<Rightarrow>
           (let i = \<lparr> i_id = newid, i_examId = e_id e, i_email = m, i_token = token, i_usedAt = None,
                      i_expiresAt = Some (invite_expiry now hours), i_createdAt = now \<rparr>
            in (Inr (i, frontend @ ''/exam/invite/'' @ token), t_insert (sv_invitations S) i w)))))"

section \<open>Deleting\<close>

definition attempts_message :: "nat \<Rightarrow> string" where
  "attempts_message n = ''Cannot delete exam: '' @ nat_digits n @ '' attempt(s) exist. Archive the exam instead.''"

definition delete_exam :: "'w services \<Rightarrow> id \<Rightarrow> 'w \<Rightarrow> unit result \<times> 'w" where
  "delete_exam S eid w = (case find_exam S eid w of
     None \<Rightarrow> (api_error ''Exam not found'' 404, w)
   | Some e \<Rightarrow>
      (let n = length (t_select (sv_attempts S) (\<lambda>a. a_examId a = eid) w)
       in if 0 < n then (api_error (attempts_message n) 400, w)
          else (Inr (), t_delete (sv_exams S) (\<lambda>e. e_id e = eid) (t_delete (sv_invitations S) (\<lambda>i. i_examId i = eid) w))))"

text \<open>The pool routes answer a fixed message.\<close>
datatype pool_route = WarmPool | WarmupStatus | PoolStatus | PoolResize | PoolDrain

definition pool_message :: "pool_route \<Rightarrow> string" where
  "pool_message r = (case r of
     WarmPool \<Rightarrow> ''Pool warming is now handled automatically by the grader service. Warmup is triggered 15 minutes before scheduled exam start.''
   | WarmupStatus \<Rightarrow> ''Pool status is now managed by the grader service.''
   | PoolStatus \<Rightarrow> ''Pool status is now managed by the grader service.''
   | PoolResize \<Rightarrow> ''Pool resizing is now managed by the grader service.''
   | PoolDrain \<Rightarrow> ''Pool draining is now managed by the grader service.'')"

section \<open>Properties\<close>

lemma patch_exam_fields [simp]: "e_id (patch_exam d s t now e) = e_id e"
  "e_challengeId (patch_exam d s t now e) = or_default (ep_challengeId d) (e_challengeId e)"
  "e_scheduledStartAt (patch_exam d s t now e) = s" "e_scheduledEndAt (patch_exam d s t now e) = t"
  by (simp_all add: patch_exam_def)

text \<open>The invitation that a token stands for; tokens are unique in the database.\<close>
definition invitation_at :: "world \<Rightarrow> string \<Rightarrow> invitation \<Rightarrow> bool" where
  "invitation_at W token i = (w_invitations W (i_id i) = Some i \<and> i_token i = token \<and>
     (\<forall>k j. w_invitations W k = Some j \<and> i_token j = token \<longrightarrow> k = i_id i))"

definition invited :: "bool \<Rightarrow> jwt_payload \<Rightarrow> invitation \<Rightarrow> bool" where
  "invited req p i = (if i_email i = [] then \<not> req else str_lower (i_email i) = str_lower (jp_email p))"

context services begin

lemma find_invitation: "invitation_at (V w) token i \<Longrightarrow> t_first (sv_invitations S) (\<lambda>i. i_token i = token) w = Some i"
proof -
  assume i: "invitation_at (V w) token i"
  then have "t_first (sv_invitations S) (\<lambda>i. i_token i = token) w \<noteq> None"
    unfolding table_first_None[OF invitations_ok] invitation_at_def by blast
  then obtain j where j: "t_first (sv_invitations S) (\<lambda>i. i_token i = token) w = Some j" by blast
  have "w_invitations (V w) (i_id j) = Some j \<and> i_token j = token"
    using table_first_Some[OF invitations_ok j] by simp
  then have "j = i" using i unfolding invitation_at_def by (metis option.inject)
  then show ?thesis using j by simp
qed

lemma accept_used:
  assumes "invitation_at (V w) token i" "i_usedAt i \<noteq> None"
  shows "snd (accept_invitation S req now newid p token w) = w \<and> isl (fst (accept_invitation S req now newid p token w))"
  using assms(2) unfolding accept_invitation_def find_invitation[OF assms(1)] by simp

lemma accept_new:
  assumes i: "invitation_at (V w) token i" and x: "w_exams (V w) (i_examId i) = Some e" "w_challenges (V w) (e_challengeId e) = Some c"
    and new: "w_attempts (V w) newid = None"
    and run: "accept_invitation S req now newid p token w = (r, w')"
  shows "(\<exists>k. r = Inr (NewAttempt k)) \<longleftrightarrow> invited req p i \<and> \<not> expired now i \<and> i_usedAt i = None
      \<and> attempts_of (V w) (i_examId i) (jp_userId p) = {}"
    "r = Inr (NewAttempt k) \<Longrightarrow> r = Inr (NewAttempt newid) \<and>
      V w' = w_attempts_update (\<lambda>m. m(newid \<mapsto> new_attempt newid (i_examId i) (jp_userId p) (c_starterFiles c) now))
        (w_invitations_update (\<lambda>m. m(i_id i \<mapsto> i\<lparr> i_usedAt := Some now \<rparr>)) (V w))"
    "\<forall>k. r \<noteq> Inr (NewAttempt k) \<Longrightarrow> w' = w"
proof -
  have none: "t_first (sv_attempts S) (\<lambda>a. a_examId a = i_examId i \<and> a_candidateId a = jp_userId p) w = None \<longleftrightarrow>
      attempts_of (V w) (i_examId i) (jp_userId p) = {}"
    by (auto simp: table_first_None[OF attempts_ok] attempts_of_def)
  let ?w1 = "update_invitation S (i_id i) (\<lambda>r. r\<lparr> i_usedAt := Some now \<rparr>) w"
  have w1: "V ?w1 = w_invitations_update (\<lambda>m. m(i_id i \<mapsto> i\<lparr> i_usedAt := Some now \<rparr>)) (V w)"
    using i[unfolded invitation_at_def, THEN conjunct1] by (cases "V w") simp
  have ins: "V (t_insert (sv_attempts S) (new_attempt newid (i_examId i) (jp_userId p) (c_starterFiles c) now) ?w1) =
      w_attempts_update (\<lambda>m. m(newid \<mapsto> new_attempt newid (i_examId i) (jp_userId p) (c_starterFiles c) now)) (V ?w1)"
    using table_insert[OF attempts_ok, of ?w1 "new_attempt newid (i_examId i) (jp_userId p) (c_starterFiles c) now"] new
    by (simp add: w1 del: update_invitation_eq)
  note acc = run[unfolded accept_invitation_def find_invitation[OF i] Let_def]
  show "(\<exists>k. r = Inr (NewAttempt k)) \<longleftrightarrow> invited req p i \<and> \<not> expired now i \<and> i_usedAt i = None
      \<and> attempts_of (V w) (i_examId i) (jp_userId p) = {}" using acc x none
    by (auto simp: invited_def split: if_splits option.splits)
  show "r = Inr (NewAttempt newid) \<and> V w' = w_attempts_update (\<lambda>m. m(newid \<mapsto> new_attempt newid (i_examId i) (jp_userId p) (c_starterFiles c) now))
        (w_invitations_update (\<lambda>m. m(i_id i \<mapsto> i\<lparr> i_usedAt := Some now \<rparr>)) (V w))" if "r = Inr (NewAttempt k)"
    using acc x that ins w1 by (auto simp del: update_invitation_eq split: if_splits option.splits)
  show "w' = w" if "\<forall>k. r \<noteq> Inr (NewAttempt k)" using acc x that by (auto split: if_splits option.splits)
qed

end

text \<open>C28: Accepting an invitation creates an attempt exactly when the invitation is for the e-mail address of
  the user (upper and lower case alike), has not expired, was not used and the user has no attempt at the
  exam yet; whether the exam is published, its scheduled window and its maximum of attempts do not matter.
  The attempt holds the starter files, the invitation is marked as used, nothing else changes, and from then
  on the same link is refused to everybody, its owner included.\<close>
theorem accept_invitation_once:
  assumes "services S V" "invitation_at (V w) token i" "w_exams (V w) (i_examId i) = Some e"
    "w_challenges (V w) (e_challengeId e) = Some c" "w_attempts (V w) newid = None"
    "accept_invitation S req now newid p token w = (r, w')"
  shows "(r = Inr (NewAttempt newid) \<longleftrightarrow> invited req p i \<and> \<not> expired now i \<and> i_usedAt i = None
      \<and> attempts_of (V w) (i_examId i) (jp_userId p) = {})
    \<and> (if r = Inr (NewAttempt newid)
       then V w' = w_attempts_update (\<lambda>m. m(newid \<mapsto> new_attempt newid (i_examId i) (jp_userId p) (c_starterFiles c) now))
            (w_invitations_update (\<lambda>m. m(i_id i \<mapsto> i\<lparr> i_usedAt := Some now \<rparr>)) (V w))
          \<and> (\<forall>now' id' p'. isl (fst (accept_invitation S req now' id' p' token w')) \<and> snd (accept_invitation S req now' id' p' token w') = w')
       else w' = w)"
proof -
  note n = services.accept_new[OF assms]
  show ?thesis
  proof (cases "\<exists>k. r = Inr (NewAttempt k)")
    case True
    then obtain k where k: "r = Inr (NewAttempt k)" by blast
    note v = n(2)[OF k]
    have "invitation_at (V w') token (i\<lparr> i_usedAt := Some now \<rparr>)"
      using assms(2) v unfolding invitation_at_def by auto
    then show ?thesis using n(1) v services.accept_used[OF assms(1)] by simp
  next
    case False
    then have w: "w' = w" and r: "r \<noteq> Inr (NewAttempt newid)" using n(3) by blast+
    have "\<not> (invited req p i \<and> \<not> expired now i \<and> i_usedAt i = None \<and> attempts_of (V w) (i_examId i) (jp_userId p) = {})"
      using n(1) False by blast
    then show ?thesis using w r by simp
  qed
qed

theorem accept_invitation_once_witness:
  "\<exists>w'. accept_invitation ref_services True 5000 ''a2'' demo_candidate ''tok'' demo_world = (Inr (NewAttempt ''a2''), w')
   \<and> isl (fst (accept_invitation ref_services True 6000 ''a3'' demo_candidate ''tok'' w'))"
proof -
  obtain r w' where run: "accept_invitation ref_services True 5000 ''a2'' demo_candidate ''tok'' demo_world = (r, w')" by force
  have "invitation_at demo ''tok'' demo_invitation"
    by (auto simp: invitation_at_def ref_view_def demo_world_def keyed_def demo_invitation_def empty_ref_def split: if_splits)
  moreover have "invited True demo_candidate demo_invitation" by (simp add: invited_def demo_rows str_lower_def) code_simp
  ultimately show ?thesis using accept_invitation_once[OF ref.services_axioms _ _ _ _ run, of demo_invitation demo_exam2 demo_challenge] run
    by (auto simp: demo_invitation_def expired_def attempts_of_def demo_attempts split: if_splits)
qed

text \<open>An update of an exam whose body does not mention the two dates erases its schedule: the answer and the
  stored exam have no start and no end, so attempts can be started at any time.\<close>
theorem update_exam_drops_schedule:
  assumes "services S V" "ep_scheduledStartAt b = None" "ep_scheduledEndAt b = None"
    "update_exam_route S parse now eid (Some b) w = (Inr e, w')"
  shows "w_exams (V w') eid = Some e \<and> e_scheduledStartAt e = None \<and> e_scheduledEndAt e = None \<and> (\<forall>t. check_window e t = None)"
proof -
  have "\<exists>d. e = patch_exam d None None now (the (w_exams (V w) eid)) \<and> w_exams (V w') eid = Some e"
    using assms(2-4) services.find_exam_eq[OF assms(1)] services.update_exam_eq[OF assms(1), where f = "patch_exam b None None now"]
    by (auto simp: update_exam_route_def update_exam_schema_def date_field_def Let_def split: if_splits option.splits)
  then show ?thesis by (auto simp: check_window_def)
qed

definition retitle :: "string \<Rightarrow> exam_patch" where
  "retitle t = \<lparr> ep_title = Some t, ep_description = None, ep_challengeId = None, ep_timeLimit = None, ep_maxAttempts = None,
     ep_passThreshold = None, ep_fullscreenRequired = None, ep_tabSwitchLogging = None, ep_pasteDisabled = None,
     ep_expectedCandidates = None, ep_scheduledStartAt = None, ep_scheduledEndAt = None, ep_timezone = None \<rparr>"

theorem update_exam_drops_schedule_witness:
  "\<exists>e w'. e_scheduledEndAt demo_exam \<noteq> None
    \<and> update_exam_route ref_services (\<lambda>_. None) 5000 ''e1'' (Some (retitle ''new title'')) demo_world = (Inr e, w')
    \<and> e_scheduledEndAt e = None"
proof -
  obtain e w' where run: "update_exam_route ref_services (\<lambda>_. None) 5000 ''e1'' (Some (retitle ''new title'')) demo_world = (Inr e, w')"
    by (simp add: update_exam_route_def update_exam_schema_def Let_def retitle_def opt_all_def date_field_def end_after_start_def
      patch_allowed_def opt_int_def)
  have "e_scheduledEndAt demo_exam \<noteq> None" by (simp add: demo_exam_def)
  then show ?thesis using update_exam_drops_schedule[OF ref.services_axioms _ _ run] run by (simp add: retitle_def)
qed

end
