(* ===== verification/Exam_Content.thy ===== *)
theory Exam_Content
  imports Exam_Routes
begin

text \<open>
  What the routes of challenges, exams, invitations and attempts keep of the database: every
  reference points to a row that exists and every exam stays within the bounds of its schema. The
  routes are the steps of a relation, the invariant is proved for each of them and then for every run.
\<close>

section \<open>The content of the database as a transition system\<close>

text \<open>Any request to these routes that writes; the ids of new rows
  are unused. A user who gets a new attempt has an account.\<close>
inductive exam_step :: "'w services \<Rightarrow> ('w \<Rightarrow> world) \<Rightarrow> 'w \<Rightarrow> 'w \<Rightarrow> bool" for S V where
  xs_create_challenge: "w_challenges (V w) newid = None \<Longrightarrow> exam_step S V w (snd (create_challenge S now newid p cbody w))"
| xs_update_challenge: "exam_step S V w (snd (update_challenge_route S cid cpatch w))"
| xs_delete_challenge: "exam_step S V w (snd (delete_challenge S cid w))"
| xs_create_exam: "w_exams (V w) newid = None \<Longrightarrow> exam_step S V w (snd (create_exam S parse now newid p ebody w))"
| xs_update_exam: "exam_step S V w (snd (update_exam_route S parse now eid epatch w))"
| xs_publish: "exam_step S V w (snd (publish_exam S now eid w))"
| xs_unpublish: "exam_step S V w (snd (unpublish_exam S now eid w))"
| xs_delete_exam: "exam_step S V w (snd (delete_exam S eid w))"
| xs_invite: "w_invitations (V w) newid = None \<Longrightarrow>
    exam_step S V w (snd (create_invitation S req frontend now newid token eid email hours w))"
| xs_accept: "w_attempts (V w) newid = None \<Longrightarrow> w_users (V w) (jp_userId p) \<noteq> None \<Longrightarrow>
    exam_step S V w (snd (accept_invitation S req now newid p token w))"
| xs_start: "w_attempts (V w) newid = None \<Longrightarrow> w_users (V w) (jp_userId p) \<noteq> None \<Longrightarrow>
    exam_step S V w (snd (start_attempt S now newid p body w))"
| xs_save: "exam_step S V w (snd (save_files S now p aid files w))"
| xs_run_tests: "exam_step S V w (snd (snd (run_tests S now uuid p aid (n, w))))"
| xs_submit: "exam_step S V w (snd (snd (submit_attempt S now uuid p aid sbody (n, w))))"
| xs_screenshot: "exam_step S V w (snd (upload_screenshot S cf sas now p aid file et w))"

text \<open>No row refers to a row that is not there.\<close>
definition refs_ok :: "world \<Rightarrow> bool" where
  "refs_ok W = ((\<forall>k e. w_exams W k = Some e \<longrightarrow> w_challenges W (e_challengeId e) \<noteq> None) \<and>
     (\<forall>k i. w_invitations W k = Some i \<longrightarrow> w_exams W (i_examId i) \<noteq> None) \<and>
     (\<forall>k a. w_attempts W k = Some a \<longrightarrow> w_exams W (a_examId a) \<noteq> None \<and> w_users W (a_candidateId a) \<noteq> None))"

text \<open>An exam within the bounds of the schemas.\<close>
definition exam_ok :: "exam \<Rightarrow> bool" where
  "exam_ok e = (5 \<le> e_timeLimit e \<and> e_timeLimit e \<le> 480 \<and> 1 \<le> e_maxAttempts e \<and> e_maxAttempts e \<le> 10 \<and>
     0 \<le> e_passThreshold e \<and> e_passThreshold e \<le> 1 \<and>
     end_after_start (e_scheduledStartAt e) (e_scheduledEndAt e))"

definition exams_ok_inv :: "world \<Rightarrow> bool" where
  "exams_ok_inv W = (\<forall>k e. w_exams W k = Some e \<longrightarrow> exam_ok e)"

definition content_ok :: "world \<Rightarrow> bool" where
  "content_ok W = (refs_ok W \<and> exams_ok_inv W)"

lemma content_okI:
  assumes "\<And>k e. w_exams W k = Some e \<Longrightarrow> w_challenges W (e_challengeId e) \<noteq> None \<and> exam_ok e"
    "\<And>k i. w_invitations W k = Some i \<Longrightarrow> w_exams W (i_examId i) \<noteq> None"
    "\<And>k a. w_attempts W k = Some a \<Longrightarrow> w_exams W (a_examId a) \<noteq> None \<and> w_users W (a_candidateId a) \<noteq> None"
  shows "content_ok W"
  using assms unfolding content_ok_def refs_ok_def exams_ok_inv_def by blast

lemma content_okD:
  assumes "content_ok W"
  shows "w_exams W k = Some e \<Longrightarrow> w_challenges W (e_challengeId e) \<noteq> None \<and> exam_ok e"
    "w_invitations W k = Some i \<Longrightarrow> w_exams W (i_examId i) \<noteq> None"
    "w_attempts W k = Some a \<Longrightarrow> w_exams W (a_examId a) \<noteq> None \<and> w_users W (a_candidateId a) \<noteq> None"
  using assms unfolding content_ok_def refs_ok_def exams_ok_inv_def by blast+

lemma new_exam_ok:
  assumes "new_exam f eid creator now = Some e" "exam_fields_ok f"
  shows "exam_ok e" "e_challengeId e = ef_challengeId f" "e_id e = eid"
  using assms by (auto simp: new_exam_def exam_fields_ok_def exam_ok_def between_def int_column_Some split: option.splits)

lemma patch_exam_ok:
  assumes "update_exam_schema parse b = Inr (d, s, t)" "exam_ok e"
  shows "exam_ok (patch_exam d s t now e)"
proof -
  have d: "d = b" "end_after_start s t" "opt_all (between 5 480) (ep_timeLimit b)" "opt_all (between 1 10) (ep_maxAttempts b)"
    "opt_all (between 0 1) (ep_passThreshold b)"
    using assms(1) by (auto simp: update_exam_schema_def Let_def split: if_splits)
  have i: "5 \<le> n \<and> n \<le> 480" if "opt_int (ep_timeLimit b) (e_timeLimit e) = Some n" for n
    using that d(3) assms(2) by (auto simp: opt_int_def opt_all_def int_column_Some between_def exam_ok_def split: option.splits)
  have m: "1 \<le> n \<and> n \<le> 10" if "opt_int (ep_maxAttempts b) (e_maxAttempts e) = Some n" for n
    using that d(4) assms(2) by (auto simp: opt_int_def opt_all_def int_column_Some between_def exam_ok_def split: option.splits)
  show ?thesis using i m d assms(2)
    by (auto simp: exam_ok_def patch_exam_def or_default_def opt_all_def between_def split: option.splits)
qed

text \<open>Changes of one table and what they need.\<close>
lemma content_frame:
  assumes "content_ok W" "w_exams W' = w_exams W" "w_challenges W' = w_challenges W" "w_users W' = w_users W"
    "w_invitations W' = w_invitations W" "w_attempts W' = w_attempts W"
  shows "content_ok W'"
  using assms by (simp add: content_ok_def refs_ok_def exams_ok_inv_def)

lemma content_insert_challenge: "content_ok W \<Longrightarrow> content_ok (w_challenges_update (\<lambda>m. m(k \<mapsto> c)) W)"
  by (auto simp: content_ok_def refs_ok_def exams_ok_inv_def)

lemma content_update_challenge: "content_ok W \<Longrightarrow> content_ok (w_challenges_update (row_upd k f) W)"
  by (auto simp: content_ok_def refs_ok_def exams_ok_inv_def)

lemma content_insert_exam:
  assumes "content_ok W" "exam_ok e" "w_challenges W (e_challengeId e) \<noteq> None"
  shows "content_ok (w_exams_update (\<lambda>m. m(k \<mapsto> e)) W)"
proof (rule content_okI, goal_cases)
  case (1 k' e')
  then show ?case using assms content_okD(1)[OF assms(1), of k' e'] by (simp split: if_splits)
next
  case (2 k' i)
  then show ?case using content_okD(2)[OF assms(1), of k' i] by simp
next
  case (3 k' a)
  then show ?case using content_okD(3)[OF assms(1), of k' a] by simp
qed

lemma content_update_exam:
  assumes "content_ok W" "\<And>e. w_exams W k = Some e \<Longrightarrow> exam_ok (f e) \<and> w_challenges W (e_challengeId (f e)) \<noteq> None"
  shows "content_ok (w_exams_update (row_upd k f) W)"
proof (rule content_okI, goal_cases)
  case (1 k' e')
  then show ?case using assms(2) content_okD(1)[OF assms(1), of k' e'] by (auto split: if_splits)
next
  case (2 k' i)
  then show ?case using content_okD(2)[OF assms(1), of k' i] by (auto split: if_splits)
next
  case (3 k' a)
  then show ?case using content_okD(3)[OF assms(1), of k' a] by (auto split: if_splits)
qed

lemma content_insert_attempt:
  assumes "content_ok W" "w_exams W (a_examId a) \<noteq> None" "w_users W (a_candidateId a) \<noteq> None"
  shows "content_ok (w_attempts_update (\<lambda>m. m(k \<mapsto> a)) W)"
proof (rule content_okI, goal_cases)
  case (1 k' e')
  then show ?case using content_okD(1)[OF assms(1), of k' e'] by simp
next
  case (2 k' i)
  then show ?case using content_okD(2)[OF assms(1), of k' i] by simp
next
  case (3 k' a')
  then show ?case using assms(2,3) content_okD(3)[OF assms(1), of k' a'] by (simp split: if_splits)
qed

lemma content_invitations:
  assumes "content_ok W" "\<And>k' i'. m' k' = Some i' \<Longrightarrow> w_exams W (i_examId i') \<noteq> None"
  shows "content_ok (w_invitations_update (\<lambda>_. m') W)"
  using assms by (auto simp: content_ok_def refs_ok_def exams_ok_inv_def)

lemma content_delete_challenge:
  assumes "content_ok W" "\<And>k e. w_exams W k = Some e \<Longrightarrow> e_challengeId e \<noteq> c"
    "\<And>k r. w_challenges W k = Some r \<Longrightarrow> c_id r = k"
  shows "content_ok (w_challenges_update (rows_delete (\<lambda>r. c_id r = c)) W)"
proof (rule content_okI, goal_cases)
  case (1 k e)
  then show ?case using content_okD(1)[OF assms(1), of k e] assms(2)[of k e] assms(3)
    by (auto simp: rows_delete_def split: option.split)
next
  case (2 k i)
  then show ?case using content_okD(2)[OF assms(1), of k i] by simp
next
  case (3 k a)
  then show ?case using content_okD(3)[OF assms(1), of k a] by simp
qed

lemma content_delete_exam:
  assumes "content_ok W" "\<And>k a. w_attempts W k = Some a \<Longrightarrow> a_examId a \<noteq> x"
    "\<And>k r. w_exams W k = Some r \<Longrightarrow> e_id r = k"
  shows "content_ok (w_exams_update (rows_delete (\<lambda>r. e_id r = x)) (w_invitations_update (rows_delete (\<lambda>i. i_examId i = x)) W))"
proof (rule content_okI, goal_cases)
  case (1 k e)
  then show ?case using content_okD(1)[OF assms(1), of k e] by (auto simp: rows_delete_def split: option.splits if_splits)
next
  case (2 k i)
  then have "w_invitations W k = Some i" "i_examId i \<noteq> x" by (auto simp: rows_delete_def split: option.splits if_splits)
  then show ?case using content_okD(2)[OF assms(1), of k i] assms(3) by (auto simp: rows_delete_def split: option.split)
next
  case (3 k a)
  then have "w_attempts W k = Some a" by simp
  then show ?case using content_okD(3)[OF assms(1), of k a] assms(2)[of k a] assms(3)
    by (auto simp: rows_delete_def split: option.split)
qed

context services begin

lemma no_exam_uses: "t_select (sv_exams S) P w = [] \<Longrightarrow> w_exams (V w) k = Some e \<Longrightarrow> \<not> P e"
  using table_set[OF exams_ok, of P w] table_keyed[OF exams_ok, of w k e] by auto

lemma no_attempt_uses: "t_select (sv_attempts S) P w = [] \<Longrightarrow> w_attempts (V w) k = Some a \<Longrightarrow> \<not> P a"
  using table_set[OF attempts_ok, of P w] table_keyed[OF attempts_ok, of w k a] by auto

lemma create_challenge_ok [preserves]:
  assumes "content_ok (V w)" "w_challenges (V w) newid = None"
  shows "content_ok (V (snd (create_challenge S now newid p body w)))"
proof -
  have "V (t_insert (sv_challenges S) c w) = w_challenges_update (\<lambda>m. m(newid \<mapsto> c)) (V w)" if "c_id c = newid" for c
    using table_insert[OF challenges_ok, of w c] assms(2) that by simp
  then show ?thesis using assms(1)
    by (auto simp: create_challenge_def Let_def content_insert_challenge split: option.split sum.split)
qed

lemma update_challenge_ok [preserves]:
  "content_ok (V w) \<Longrightarrow> content_ok (V (snd (update_challenge_route S cid body w)))"
  by (auto simp: update_challenge_route_def content_update_challenge split: option.split sum.split)

lemma delete_challenge_ok [preserves]:
  assumes "content_ok (V w)" shows "content_ok (V (snd (delete_challenge S cid w)))"
proof -
  have "content_ok (w_challenges_update (rows_delete (\<lambda>r. c_id r = cid)) (V w))"
    if "t_select (sv_exams S) (\<lambda>e. e_challengeId e = cid) w = []"
    by (rule content_delete_challenge[OF assms]) (use no_exam_uses[OF that] table_keyed[OF challenges_ok] in blast)+
  then show ?thesis using assms
    by (auto simp: delete_challenge_def Let_def table_delete[OF challenges_ok] split: option.split)
qed

lemma create_exam_ok [preserves]:
  assumes "content_ok (V w)" "w_exams (V w) newid = None"
  shows "content_ok (V (snd (create_exam S parse now newid p body w)))"
proof -
  have "content_ok (V (t_insert (sv_exams S) e w))"
    if "create_exam_schema parse b = Inr f" "w_challenges (V w) (ef_challengeId f) = Some c" "new_exam f newid x now = Some e" for b f c x e
  proof -
    note e = new_exam_ok[OF that(3) create_exam_schema_ok[OF that(1)]]
    have "V (t_insert (sv_exams S) e w) = w_exams_update (\<lambda>m. m(newid \<mapsto> e)) (V w)"
      using table_insert[OF exams_ok, of w e] assms(2) e(3) by simp
    then show ?thesis using content_insert_exam[OF assms(1) e(1)] e(2) that(2) by simp
  qed
  then show ?thesis using assms(1) by (auto simp: create_exam_def split: option.split sum.split)
qed

lemma update_exam_ok [preserves]:
  assumes "content_ok (V w)" shows "content_ok (V (snd (update_exam_route S parse now eid body w)))"
proof -
  have "content_ok (w_exams_update (row_upd eid (patch_exam d s t now)) (V w))"
    if "update_exam_schema parse b = Inr (d, s, t)" "patch_allowed S d w" for b d s t
  proof (rule content_update_exam[OF assms])
    fix e assume e: "w_exams (V w) eid = Some e"
    have "w_challenges (V w) (or_default (ep_challengeId d) (e_challengeId e)) \<noteq> None"
      using that(2) content_okD(1)[OF assms e] by (auto simp: patch_allowed_def or_default_def split: option.splits)
    then show "exam_ok (patch_exam d s t now e) \<and> w_challenges (V w) (e_challengeId (patch_exam d s t now e)) \<noteq> None"
      using patch_exam_ok[OF that(1)] content_okD(1)[OF assms e] by simp
  qed
  then show ?thesis using assms by (auto simp: update_exam_route_def split: option.split sum.split)
qed

lemma publish_ok [preserves]: "content_ok (V w) \<Longrightarrow> content_ok (V (snd (publish_exam S now eid w)))"
  by (auto simp: publish_exam_def Let_def exam_ok_def dest: content_okD(1) intro!: content_update_exam split: option.split)

lemma unpublish_ok [preserves]: "content_ok (V w) \<Longrightarrow> content_ok (V (snd (unpublish_exam S now eid w)))"
  by (auto simp: unpublish_exam_def Let_def exam_ok_def dest: content_okD(1) intro!: content_update_exam split: option.split)

lemma delete_exam_ok [preserves]:
  assumes "content_ok (V w)" shows "content_ok (V (snd (delete_exam S eid w)))"
proof -
  have "content_ok (w_exams_update (rows_delete (\<lambda>r. e_id r = eid)) (w_invitations_update (rows_delete (\<lambda>i. i_examId i = eid)) (V w)))"
    if "t_select (sv_attempts S) (\<lambda>a. a_examId a = eid) w = []"
    by (rule content_delete_exam[OF assms]) (use no_attempt_uses[OF that] table_keyed[OF exams_ok] in blast)+
  then show ?thesis using assms
    by (auto simp: delete_exam_def Let_def table_delete[OF exams_ok] table_delete[OF invitations_ok] split: option.split)
qed

lemma create_invitation_ok [preserves]:
  assumes "content_ok (V w)" "w_invitations (V w) newid = None"
  shows "content_ok (V (snd (create_invitation S req frontend now newid token eid email hours w)))"
proof -
  have "content_ok (V (t_insert (sv_invitations S) i w))" if "i_id i = newid" "w_exams (V w) (i_examId i) = Some e" for i e
  proof -
    have "V (t_insert (sv_invitations S) i w) = w_invitations_update (\<lambda>_. (w_invitations (V w))(newid \<mapsto> i)) (V w)"
      using table_insert[OF invitations_ok, of w i] assms(2) that(1) by (cases "V w") simp
    moreover have "content_ok (w_invitations_update (\<lambda>_. (w_invitations (V w))(newid \<mapsto> i)) (V w))"
      by (rule content_invitations[OF assms(1)]) (use that(2) content_okD(2)[OF assms(1)] in \<open>auto split: if_splits\<close>)
    ultimately show ?thesis by simp
  qed
  moreover have "w_exams (V w) (e_id e) = Some e" if "w_exams (V w) eid = Some e" for e
    using table_keyed[OF exams_ok that] that by simp
  ultimately show ?thesis using assms(1)
    by (auto simp: create_invitation_def Let_def split: option.split)
qed

lemma insert_attempt_ok:
  assumes "content_ok (V w)" "w_attempts (V w) newid = None" "w_exams (V w) eid = Some e" "w_users (V w) uid \<noteq> None"
  shows "content_ok (V (t_insert (sv_attempts S) (new_attempt newid eid uid fs now) w))"
proof -
  have "V (t_insert (sv_attempts S) (new_attempt newid eid uid fs now) w) =
      w_attempts_update (\<lambda>m. m(newid \<mapsto> new_attempt newid eid uid fs now)) (V w)"
    using table_insert[OF attempts_ok, of w "new_attempt newid eid uid fs now"] assms(2) by simp
  then show ?thesis using content_insert_attempt[OF assms(1)] assms(3,4) by simp
qed

lemma use_invitation_ok:
  assumes "content_ok (V w)"
  shows "content_ok (V (update_invitation S k (\<lambda>r. r\<lparr> i_usedAt := u \<rparr>) w))"
proof -
  have "content_ok (w_invitations_update (\<lambda>_. row_upd k (\<lambda>r. r\<lparr> i_usedAt := u \<rparr>) (w_invitations (V w))) (V w))"
    by (rule content_invitations[OF assms]) (auto split: if_splits dest: content_okD(2)[OF assms])
  then show ?thesis by (cases "V w") simp
qed

lemma accept_ok [preserves]:
  assumes "content_ok (V w)" "w_attempts (V w) newid = None" "w_users (V w) (jp_userId p) \<noteq> None"
  shows "content_ok (V (snd (accept_invitation S req now newid p token w)))"
proof -
  let ?w = "\<lambda>i. update_invitation S (i_id i) (\<lambda>r. r\<lparr> i_usedAt := Some now \<rparr>) w"
  have "content_ok (V (t_insert (sv_attempts S) (new_attempt newid (i_examId i) (jp_userId p) fs now) (?w i)))"
    if "w_exams (V w) (i_examId i) = Some e" for i fs e
    by (rule insert_attempt_ok[OF use_invitation_ok[OF assms(1)], where newid = newid and eid = "i_examId i" and e = e]) (use that assms in auto)
  then show ?thesis using assms(1) use_invitation_ok[OF assms(1)]
    by (auto simp: accept_invitation_def Let_def simp del: update_invitation_eq split: option.split)
qed

lemma start_ok [preserves]:
  assumes "content_ok (V w)" "w_attempts (V w) newid = None" "w_users (V w) (jp_userId p) \<noteq> None"
  shows "content_ok (V (snd (start_attempt S now newid p body w)))"
  using assms by (auto simp: start_attempt_def Let_def intro!: insert_attempt_ok split: option.split)

text \<open>The other routes of attempts change rows without changing what they refer to, or no row at all.\<close>
lemma content_plain [simp]:
  "content_ok (w_ks_update f W) = content_ok W" "content_ok (w_out_update g W) = content_ok W" "content_ok (w_pub_update h W) = content_ok W"
  by (simp_all add: content_ok_def refs_ok_def exams_ok_inv_def)

lemma content_update_attempt:
  assumes "content_ok W" "\<And>a. a_examId (f a) = a_examId a \<and> a_candidateId (f a) = a_candidateId a"
  shows "content_ok (w_attempts_update (row_upd k f) W)"
proof (rule content_okI, goal_cases)
  case (1 k' e)
  then show ?case using content_okD(1)[OF assms(1), of k' e] by simp
next
  case (2 k' i)
  then show ?case using content_okD(2)[OF assms(1), of k' i] by simp
next
  case (3 k' a)
  then show ?case using content_okD(3)[OF assms(1)] assms(2) by (auto split: if_splits)
qed

lemma flush_ok [preserves]: "content_ok (V w) \<Longrightarrow> content_ok (V (snd (flush_to_database S now aid w)))"
  by (auto simp: flushed_def intro!: content_update_attempt split: option.split)

lemma update_attempt_ok:
  assumes "content_ok (V w)" "\<And>a. a_id (f a) = a_id a" "\<And>a. a_examId (f a) = a_examId a \<and> a_candidateId (f a) = a_candidateId a"
  shows "content_ok (V (update_attempt S aid f w))"
  using assms content_update_attempt by simp

lemma add_job_ok [preserves]: "content_ok (V (snd st)) \<Longrightarrow> content_ok (V (snd (snd (add_grading_job S now uuid job st))))"
  using add_job_V(3)[of now uuid job "fst st" "snd st" "fst (add_grading_job S now uuid job st)" "snd (add_grading_job S now uuid job st)"] by auto

lemma save_ok [preserves]: "content_ok (V w) \<Longrightarrow> content_ok (V (snd (save_files S now p aid files w)))"
  by (auto simp: save_files_def save_to_buffer_def Let_def split: option.split)

lemma run_tests_ok [preserves]:
  assumes "content_ok (V w)" shows "content_ok (V (snd (snd (run_tests S now uuid p aid (n, w)))))"
proof -
  have lock: "content_ok (V (snd (sv_setnx S now (grading_lock_key aid) (Num now) 90 w)))" using assms by simp
  have "content_ok (V (snd (snd (run_tests_locked S now uuid p aid (n, w1)))))" if "content_ok (V w1)" for w1
    using that add_job_ok by (auto simp: run_tests_locked_def Let_def case_prod_beta split: option.split)
  from this[OF lock] show ?thesis using lock
    by (auto simp: run_tests_def case_prod_beta split: sum.split)
qed

lemma submit_ok [preserves]:
  assumes "content_ok (V w)" shows "content_ok (V (snd (snd (submit_attempt S now uuid p aid body (n, w)))))"
proof -
  have stop: "content_ok (V (snd (stop_timer_permanently S now aid (n, w))))" using assms by simp
  note flush = flush_ok[OF stop]
  have row: "content_ok (V (update_attempt S aid (\<lambda>r. r\<lparr> a_status := SUBMITTED, a_submittedAt := Some now, a_files := Some fs \<rparr>)
      (snd (flush_to_database S now aid (snd (stop_timer_permanently S now aid (n, w)))))))" for fs
    by (rule update_attempt_ok[OF flush]) simp_all
  have graded: "content_ok (V (clear_buffer S now aid (update_attempt S aid (a_status_update (\<lambda>_. GRADING)) w')))" if "content_ok (V w')" for w'
    using that by (auto simp: clear_buffer_def Let_def intro!: content_update_attempt)
  show ?thesis unfolding submit_attempt_def Let_def
    using assms row graded[OF add_job_ok] by (auto simp: case_prod_beta simp del: update_attempt_eq split: option.split)
qed

lemma screenshot_ok [preserves]: "content_ok (V w) \<Longrightarrow> content_ok (V (snd (upload_screenshot S cf sas now p aid file et w)))"
  by (auto simp: upload_screenshot_def push_attempt_shot_def push_exam_shot_def Let_def split: option.split prod.split)

lemma exam_step_ok:
  assumes "exam_step S V w w'" "content_ok (V w)" shows "content_ok (V w')"
  using assms by (cases rule: exam_step.cases) (simp_all add: preserves)

lemma exam_run_ok:
  assumes "(exam_step S V)\<^sup>*\<^sup>* w w'" "content_ok (V w)" shows "content_ok (V w')"
  using assms by (induction rule: rtranclp_induct) (auto intro: exam_step_ok)

end

section \<open>The property\<close>

text \<open>C27: Whatever requests arrive at the routes of challenges, exams, invitations and attempts, their saves, test runs, submissions and
  screenshots included, in any
  order and whatever they carry: every exam refers to a challenge that exists, every invitation
  and every attempt to an exam that exists, every attempt to a user that exists, and every exam has between
  5 and 480 minutes, between 1 and 10 attempts, a pass threshold between 0 and 1 and an end after its start. The ids of new rows are
  unused and a user who gets a new attempt has an account.\<close>
theorem content_invariant:
  assumes "services S V" "content_ok (V w)" "(exam_step S V)\<^sup>*\<^sup>* w w'"
  shows "content_ok (V w')"
  using services.exam_run_ok[OF assms(1,3,2)] .

lemma demo_content_ok: "content_ok demo"
  by (rule content_okI)
    (auto simp: ref_view_def demo_world_def keyed_def demo_rows empty_ref_def exam_ok_def end_after_start_def split: if_splits)

theorem content_invariant_witness:
  "content_ok (ref_view (snd (accept_invitation ref_services True 5000 ''a2'' demo_candidate ''tok'' demo_world)))"
proof (rule content_invariant[OF ref.services_axioms demo_content_ok r_into_rtranclp])
  have "w_attempts demo ''a2'' = None" by (simp add: demo_attempts)
  then show "exam_step ref_services ref_view demo_world (snd (accept_invitation ref_services True 5000 ''a2'' demo_candidate ''tok'' demo_world))"
    by (rule xs_accept) simp
qed

end
