(* ===== verification/Proctoring.thy ===== *)
theory Proctoring
  imports Attempts Request_Schemas
begin

text \<open>
  \<^verbatim>\<open>apps/api/src/routes/proctor.ts\<close> (the events) and
  \<^verbatim>\<open>apps/api/src/socket/proctorService.ts\<close>: a proctoring event is a row of
  \<^verbatim>\<open>proctor_events\<close> and an update of a counter of the attempt, two statements without a
  transaction. The columns are 32-bit integers: the database refuses fractions and numbers out of
  range, and the value of a missing optional field is null.
\<close>

section \<open>The two statements\<close>

definition int4 :: "int \<Rightarrow> bool" where
  "int4 n = (- (2 ^ 31) \<le> n \<and> n < 2 ^ 31)"

definition int4_column :: "rat option \<Rightarrow> int option option" where
  "int4_column r = (case r of None \<Rightarrow> Some None
     | Some x \<Rightarrow> (case int_column x of Some n \<Rightarrow> if int4 n then Some (Some n) else None | None \<Rightarrow> None))"

definition insert_event ::
  "'w services \<Rightarrow> time \<Rightarrow> id \<Rightarrow> id \<Rightarrow> event_type \<Rightarrow> rat option \<Rightarrow> rat option \<Rightarrow> bool option \<Rightarrow> 'w \<Rightarrow> unit result \<times> 'w" where
  "insert_event S now newid aid et duration pasteLength isMultiline w =
    (case (int4_column duration, int4_column pasteLength) of
       (Some d, Some n) \<Rightarrow> (Inr (), t_insert (sv_events S) \<lparr> p_id = newid, p_attemptId = aid, p_eventType = et,
           p_timestamp = now, p_duration = d, p_pasteLength = n, p_isMultiline = isMultiline \<rparr> w)
     | _ \<Rightarrow> (Inl (PlainError ''invalid integer''), w))"

text \<open>\<^verbatim>\<open>SET counter = counter + ..\<close>, which fails out of range.\<close>
definition bump :: "event_type \<Rightarrow> rat option \<Rightarrow> attempt \<Rightarrow> attempt option" where
  "bump et duration a =
    (let set = (\<lambda>n r. if int4 n then Some r else None) in
     case et of
       TAB_LEAVE \<Rightarrow> set (a_tabExits a + 1) (a\<lparr> a_tabExits := a_tabExits a + 1 \<rparr>)
     | TAB_RETURN \<Rightarrow> (case duration of
           None \<Rightarrow> Some a
         | Some x \<Rightarrow> if x = 0 then Some a else
             (let n = a_totalOutOfWindowSeconds a + \<lfloor>x\<rfloor> in set n (a\<lparr> a_totalOutOfWindowSeconds := n \<rparr>)))
     | FULLSCREEN_EXIT \<Rightarrow> set (a_fullscreenExits a + 1) (a\<lparr> a_fullscreenExits := a_fullscreenExits a + 1 \<rparr>)
     | PASTE_ATTEMPT \<Rightarrow> set (a_pasteAttempts a + 1) (a\<lparr> a_pasteAttempts := a_pasteAttempts a + 1 \<rparr>)
     | FULLSCREEN_ENTER \<Rightarrow> Some a)"

definition update_integrity_counters ::
  "'w services \<Rightarrow> id \<Rightarrow> event_type \<Rightarrow> rat option \<Rightarrow> 'w \<Rightarrow> unit result \<times> 'w" where
  "update_integrity_counters S aid et duration w = (case find_attempt S aid w of
     None \<Rightarrow> (Inr (), w)
   | Some a \<Rightarrow> if bump et duration a = None then (Inl (PlainError ''integer out of range''), w)
       else (Inr (), update_attempt S aid (\<lambda>r. or_default (bump et duration r) r) w))"

section \<open>The route\<close>

definition log_event ::
  "'w services \<Rightarrow> time \<Rightarrow> id \<Rightarrow> jwt_payload \<Rightarrow> proctor_body option \<Rightarrow> 'w \<Rightarrow> unit result \<times> 'w" where
  "log_event S now newid u body w = (case body of None \<Rightarrow> (Inl ZodError, w)
   | Some b \<Rightarrow> (case proctor_event_schema b of Inl e \<Rightarrow> (Inl e, w)
     | Inr d \<Rightarrow> (case find_attempt S (pb_attemptId d) w of
          None \<Rightarrow> (api_error ''Attempt not found'' 404, w)
        | Some a \<Rightarrow>
            if a_candidateId a \<noteq> jp_userId u then (api_error ''Not authorized'' 403, w)
            else if a_status a \<noteq> IN_PROGRESS then (Inr (), w)
            else (case insert_event S now newid (pb_attemptId d) (pb_eventType d) (pb_duration d) (pb_pasteLength d) (pb_isMultiline d) w of
                (Inl e, w1) \<Rightarrow> (Inl e, w1)
              | (Inr _, w1) \<Rightarrow> update_integrity_counters S (pb_attemptId d) (pb_eventType d) (pb_duration d) w1))))"

definition list_events :: "'w services \<Rightarrow> jwt_payload \<Rightarrow> id \<Rightarrow> 'w \<Rightarrow> proctor_event list result" where
  "list_events S u aid w = (if jp_role u = CANDIDATE then api_error ''Not authorized'' 403
     else Inr (sort_key p_timestamp (t_select (sv_events S) (\<lambda>e. p_attemptId e = aid) w)))"

section \<open>The socket service\<close>

record event_data =
  ed_attemptId :: id
  ed_eventType :: string
  ed_duration :: "rat option"
  ed_pasteLength :: "rat option"
  ed_isMultiline :: "bool option"

definition event_type_of_name :: "string \<Rightarrow> event_type option" where
  "event_type_of_name s = map_of [(''TAB_LEAVE'', TAB_LEAVE), (''TAB_RETURN'', TAB_RETURN),
     (''FULLSCREEN_EXIT'', FULLSCREEN_EXIT), (''FULLSCREEN_ENTER'', FULLSCREEN_ENTER), (''PASTE_ATTEMPT'', PASTE_ATTEMPT)] s"

definition warning_message :: "event_type \<Rightarrow> string" where
  "warning_message et = (case et of
     TAB_LEAVE \<Rightarrow> ''Tab switching detected. This activity is being recorded.''
   | FULLSCREEN_EXIT \<Rightarrow> ''Fullscreen mode exited. Please return to fullscreen to continue.''
   | PASTE_ATTEMPT \<Rightarrow> ''Paste blocked. Please write your own code.''
   | _ \<Rightarrow> [])"

definition violations :: "event_type \<Rightarrow> attempt \<Rightarrow> int" where
  "violations et a = (case et of
     TAB_LEAVE \<Rightarrow> a_tabExits a | TAB_RETURN \<Rightarrow> a_tabExits a
   | FULLSCREEN_EXIT \<Rightarrow> a_fullscreenExits a | FULLSCREEN_ENTER \<Rightarrow> a_fullscreenExits a
   | PASTE_ATTEMPT \<Rightarrow> a_pasteAttempts a)"

definition get_violation_count :: "'w services \<Rightarrow> id \<Rightarrow> event_type \<Rightarrow> 'w \<Rightarrow> int" where
  "get_violation_count S aid et w = (case find_attempt S aid w of None \<Rightarrow> 0 | Some a \<Rightarrow> violations et a)"

definition get_severity :: "event_type \<Rightarrow> int \<Rightarrow> severity" where
  "get_severity et n = (if et = PASTE_ATTEMPT then High else if 5 \<le> n then High else if 3 \<le> n then Medium else Low)"

text \<open>Seconds cut to a day; zero is no duration.\<close>
definition validated_duration :: "rat option \<Rightarrow> rat option" where
  "validated_duration d = (case d of None \<Rightarrow> None | Some x \<Rightarrow> if x = 0 then None else Some (min (max 0 x) 86400))"

definition log_proctor_event ::
  "'w services \<Rightarrow> time \<Rightarrow> id \<Rightarrow> jwt_payload \<Rightarrow> event_data \<Rightarrow> 'w \<Rightarrow> unit result \<times> 'w" where
  "log_proctor_event S now newid u d w = (let aid = ed_attemptId d; dur = validated_duration (ed_duration d) in
    (case find_attempt S aid w of
       None \<Rightarrow> (Inr (), w)
     | Some a \<Rightarrow>
        if a_candidateId a \<noteq> jp_userId u \<or> a_status a \<noteq> IN_PROGRESS then (Inr (), w)
        else (case event_type_of_name (ed_eventType d) of
            None \<Rightarrow> (Inl (PlainError ''invalid input value for enum event_type''), w)
          | Some et \<Rightarrow> (case insert_event S now newid aid et dur (ed_pasteLength d) (ed_isMultiline d) w of
                (Inl e, w1) \<Rightarrow> (Inl e, w1)
              | (Inr _, w1) \<Rightarrow> (case update_integrity_counters S aid et dur w1 of
                    (Inl e, w2) \<Rightarrow> (Inl e, w2)
                  | (Inr _, w2) \<Rightarrow>
                     (let n = get_violation_count S aid et w2;
                          w3 = (if warning_message et \<noteq> [] then sv_emit S (attempt_room aid)
                                 (ProctorWarning et (warning_message et) n (get_severity et n)) w2 else w2)
                      in (Inr (), sv_publish S ''proctor:event'' (ProctorMsg aid et n now) w3)))))))"

section \<open>The summary\<close>

definition integrity_score :: "attempt \<Rightarrow> int" where
  "integrity_score a = max 0 (100 - a_tabExits a * 5 - a_fullscreenExits a * 10 - a_pasteAttempts a * 15
     - a_totalOutOfWindowSeconds a div 30 * 2)"

record integrity_summary =
  is_tabExits :: int
  is_totalOutOfWindowSeconds :: int
  is_fullscreenExits :: int
  is_pasteAttempts :: int
  is_totalViolations :: int
  is_integrityScore :: int

definition get_integrity_summary :: "'w services \<Rightarrow> id \<Rightarrow> 'w \<Rightarrow> integrity_summary option" where
  "get_integrity_summary S aid w = map_option (\<lambda>a. \<lparr> is_tabExits = a_tabExits a,
     is_totalOutOfWindowSeconds = a_totalOutOfWindowSeconds a, is_fullscreenExits = a_fullscreenExits a,
     is_pasteAttempts = a_pasteAttempts a, is_totalViolations = a_tabExits a + a_fullscreenExits a + a_pasteAttempts a,
     is_integrityScore = integrity_score a \<rparr>) (find_attempt S aid w)"

section \<open>Counters and events agree\<close>

definition events_of :: "world \<Rightarrow> id \<Rightarrow> event_type \<Rightarrow> id set" where
  "events_of W aid et = {k. \<exists>e. w_events W k = Some e \<and> p_attemptId e = aid \<and> p_eventType e = et}"

definition away_seconds :: "world \<Rightarrow> id \<Rightarrow> int" where
  "away_seconds W aid = (\<Sum>k\<in>events_of W aid TAB_RETURN. or_default (p_duration (the (w_events W k))) 0)"

definition tally_ok :: "world \<Rightarrow> id \<Rightarrow> attempt \<Rightarrow> bool" where
  "tally_ok W aid a = (a_tabExits a = int (card (events_of W aid TAB_LEAVE)) \<and>
     a_fullscreenExits a = int (card (events_of W aid FULLSCREEN_EXIT)) \<and>
     a_pasteAttempts a = int (card (events_of W aid PASTE_ATTEMPT)) \<and>
     a_totalOutOfWindowSeconds a = away_seconds W aid)"

definition counters_ok :: "world \<Rightarrow> bool" where
  "counters_ok W = (\<forall>aid a. w_attempts W aid = Some a \<longrightarrow> tally_ok W aid a)"

text \<open>An event of either entrance that is answered without an error; its id is unused.\<close>
inductive proctor_step :: "'w services \<Rightarrow> ('w \<Rightarrow> world) \<Rightarrow> 'w \<Rightarrow> 'w \<Rightarrow> bool" for S V where
  ps_route: "w_events (V w) newid = None \<Longrightarrow> log_event S now newid u body w = (Inr (), w') \<Longrightarrow> proctor_step S V w w'"
| ps_socket: "w_events (V w) newid = None \<Longrightarrow> log_proctor_event S now newid u d w = (Inr (), w') \<Longrightarrow> proctor_step S V w w'"

lemma bump_id: "bump et d a = Some a' \<Longrightarrow> a_id a' = a_id a"
  by (auto simp: bump_def Let_def split: event_type.splits option.splits if_splits)

lemma bump_id_default [simp]: "a_id (or_default (bump et d a) a) = a_id a"
  using bump_id[of et d a] by (cases "bump et d a") (simp_all add: or_default_def)

lemma tally_insert:
  assumes tally: "tally_ok W aid a" and fresh: "w_events W k = None" and fin: "finite (dom (w_events W))"
    and e: "p_attemptId e = aid" "p_eventType e = et" "int4_column d = Some (p_duration e)" and b: "bump et d a = Some a'"
    and W': "w_events W' = (w_events W)(k \<mapsto> e)"
  shows "tally_ok W' aid a'"
proof -
  have finite: "finite (events_of W aid t)" for t
    by (rule finite_subset[OF _ fin]) (auto simp: events_of_def)
  have notin: "k \<notin> events_of W aid t" for t using fresh by (simp add: events_of_def)
  have ev: "events_of W' aid t = (if t = et then insert k (events_of W aid t) else events_of W aid t)" for t
    using e(1,2) fresh by (auto simp: events_of_def W')
  have old: "(\<Sum>j\<in>events_of W aid TAB_RETURN. or_default (p_duration (the (w_events W' j))) 0) = away_seconds W aid"
    unfolding away_seconds_def by (rule sum.cong) (use notin in \<open>auto simp: W'\<close>)
  have away: "away_seconds W' aid = away_seconds W aid + (if et = TAB_RETURN then or_default (p_duration e) 0 else 0)"
    using old notin[of TAB_RETURN] finite[of TAB_RETURN] by (simp add: away_seconds_def ev W')
  have dur: "\<lfloor>x\<rfloor> = or_default (p_duration e) 0" if "d = Some x" for x
    using e(3) that by (auto simp: int4_column_def int_column_Some or_default_def split: option.splits if_splits)
  have none: "or_default (p_duration e) 0 = 0" if "d = None" using e(3) that by (simp add: int4_column_def or_default_def)
  show ?thesis using b tally away dur none notin finite
    by (cases et) (auto simp: tally_ok_def bump_def Let_def ev split: if_splits option.splits)
qed

lemma tally_other:
  assumes "w_events W' = (w_events W)(k \<mapsto> e)" "w_events W k = None" "p_attemptId e \<noteq> aid"
  shows "tally_ok W' aid a = tally_ok W aid a"
proof -
  have ev: "events_of W' aid t = events_of W aid t" for t using assms by (auto simp: events_of_def)
  have "away_seconds W' aid = away_seconds W aid"
    unfolding away_seconds_def ev by (rule sum.cong) (use assms(1,2) in \<open>auto simp: events_of_def\<close>)
  then show ?thesis by (simp add: tally_ok_def ev)
qed

context services begin

lemma events_finite: "finite (dom (w_events (V w)))"
proof (rule finite_subset)
  show "dom (w_events (V w)) \<subseteq> p_id ` set (t_select (sv_events S) (\<lambda>_. True) w)"
  proof
    fix k assume "k \<in> dom (w_events (V w))"
    then obtain e where e: "w_events (V w) k = Some e" by blast
    have "p_id e = k" by (rule table_keyed[OF events_ok e])
    then show "k \<in> p_id ` set (t_select (sv_events S) (\<lambda>_. True) w)"
      using e by (auto simp: table_set[OF events_ok])
  qed
qed simp

lemma insert_event_ok:
  assumes "insert_event S now newid aid et d n m w = (Inr (), w1)" "w_events (V w) newid = None"
  obtains e where "V w1 = w_events_update (\<lambda>t. t(newid \<mapsto> e)) (V w)" "p_attemptId e = aid" "p_eventType e = et"
    "int4_column d = Some (p_duration e)"
proof -
  obtain d' n' where c: "int4_column d = Some d'" "int4_column n = Some n'"
    and w1: "w1 = t_insert (sv_events S) \<lparr> p_id = newid, p_attemptId = aid, p_eventType = et,
           p_timestamp = now, p_duration = d', p_pasteLength = n', p_isMultiline = m \<rparr> w"
    using assms(1) by (auto simp: insert_event_def split: option.splits)
  show thesis
    by (rule that[of "\<lparr> p_id = newid, p_attemptId = aid, p_eventType = et,
           p_timestamp = now, p_duration = d', p_pasteLength = n', p_isMultiline = m \<rparr>"])
      (use table_insert[OF events_ok, of w "\<lparr> p_id = newid, p_attemptId = aid, p_eventType = et,
           p_timestamp = now, p_duration = d', p_pasteLength = n', p_isMultiline = m \<rparr>"] assms(2) c w1 in auto)
qed

lemma counters_step:
  assumes "counters_ok (V w)" "insert_event S now newid aid et d n m w = (Inr (), w1)" "w_events (V w) newid = None"
    "w_attempts (V w) aid = Some a" "update_integrity_counters S aid et d w1 = (Inr (), w2)"
  shows "counters_ok (V w2)" "\<exists>a'. bump et d a = Some a' \<and> w_attempts (V w2) = (w_attempts (V w))(aid \<mapsto> a')"
proof -
  obtain e where e: "V w1 = w_events_update (\<lambda>t. t(newid \<mapsto> e)) (V w)" "p_attemptId e = aid" "p_eventType e = et"
      "int4_column d = Some (p_duration e)"
    using insert_event_ok[OF assms(2,3)] by blast
  have row: "w_attempts (V w1) aid = Some a" using assms(4) by (simp add: e(1))
  obtain a' where b: "bump et d a = Some a'" using assms(5) row by (auto simp: update_integrity_counters_def split: if_splits)
  have w2: "w2 = update_attempt S aid (\<lambda>r. or_default (bump et d r) r) w1"
    using assms(5) row b by (simp add: update_integrity_counters_def)
  have V2: "w_attempts (V w2) = (w_attempts (V w))(aid \<mapsto> a')" "w_events (V w2) = (w_events (V w))(newid \<mapsto> e)"
    using row b update_attempt_eq[of "\<lambda>r. or_default (bump et d r) r" aid w1] unfolding w2
    by (simp_all add: e(1) bump_id_default[unfolded or_default_def] or_default_def)
  show "\<exists>a'. bump et d a = Some a' \<and> w_attempts (V w2) = (w_attempts (V w))(aid \<mapsto> a')" using b V2 by blast
  show "counters_ok (V w2)" unfolding counters_ok_def
  proof (intro allI impI)
    fix k r assume r: "w_attempts (V w2) k = Some r"
    show "tally_ok (V w2) k r"
    proof (cases "k = aid")
      case True
      then have "r = a'" using r V2 by simp
      then show ?thesis using tally_insert[OF _ assms(3) events_finite e(2-4) b V2(2), of ] assms(1,4) True
        by (simp add: counters_ok_def)
    next
      case False
      then have "w_attempts (V w) k = Some r" using r V2 by simp
      then have "tally_ok (V w) k r" using assms(1) by (simp add: counters_ok_def)
      then show ?thesis using tally_other[OF V2(2) assms(3), of k] e(2) False by simp
    qed
  qed
qed

lemma proctor_step_ok:
  assumes "proctor_step S V w w'" "counters_ok (V w)" shows "counters_ok (V w')"
  using assms(1)
proof cases
  case (ps_route newid now u body)
  then show ?thesis using assms(2)
    by (auto simp: log_event_def split: option.splits sum.splits if_splits prod.splits dest: counters_step(1)[OF assms(2)])
next
  case (ps_socket newid now u d)
  have out: "counters_ok (w_out_update g W) = counters_ok W" "counters_ok (w_pub_update f W) = counters_ok W" for f g W
    by (simp_all add: counters_ok_def tally_ok_def away_seconds_def events_of_def)
  show ?thesis using ps_socket assms(2)
    by (auto simp: log_proctor_event_def Let_def out split: option.splits sum.splits if_splits prod.splits dest: counters_step(1)[OF assms(2)])
qed

end

section \<open>Properties\<close>

text \<open>C30: The counters of every attempt agree with its recorded events, through any sequence of events that the
  route and the socket accept: the tab exits, fullscreen exits and paste attempts are the numbers
  of events of these types, and the seconds out of the window are the sum of the durations of the returns.\<close>
theorem counters_match_events:
  assumes "services S V" "counters_ok (V w)" "(proctor_step S V)\<^sup>*\<^sup>* w w'"
  shows "counters_ok (V w')"
  using assms(3,2) by (induction rule: rtranclp_induct) (auto intro: services.proctor_step_ok[OF assms(1)])

definition tab_leave :: event_data where
  "tab_leave = \<lparr> ed_attemptId = ''a1'', ed_eventType = ''TAB_LEAVE'', ed_duration = None, ed_pasteLength = None, ed_isMultiline = None \<rparr>"

lemma demo_events: "w_events demo = Map.empty"
  by (simp add: ref_view_def demo_world_def keyed_def empty_ref_def)

lemma demo_counters: "counters_ok demo"
  by (auto simp: counters_ok_def demo_attempts tally_ok_def events_of_def away_seconds_def demo_events demo_attempt_def new_attempt_def
      split: if_splits)

theorem counters_match_events_witness:
  "\<exists>w'. log_proctor_event ref_services 5000 ''p1'' demo_candidate tab_leave demo_world = (Inr (), w') \<and> counters_ok (ref_view w')"
proof -
  obtain r w' where run: "log_proctor_event ref_services 5000 ''p1'' demo_candidate tab_leave demo_world = (r, w')" by force
  have r: "r = Inr ()"
    using run by (auto simp: log_proctor_event_def tab_leave_def Let_def event_type_of_name_def insert_event_def int4_column_def
      validated_duration_def update_integrity_counters_def bump_def demo_attempt_def new_attempt_def int4_def demo_attempts
      table_insert[OF ref.events_ok] demo_events split: prod.splits sum.splits if_splits)
  have "proctor_step ref_services ref_view demo_world w'"
    by (rule ps_socket[OF _ run[unfolded r]]) (simp add: demo_events)
  then show ?thesis using counters_match_events[OF ref.services_axioms demo_counters] run r by blast
qed

text \<open>The route takes a negative duration: a candidate whose time out of the window is on record can send one
  return event that sets it back to zero, and the integrity score does not fall.\<close>
theorem negative_duration_erases_time:
  assumes "services S V" "w_attempts (V w) aid = Some a" "a_candidateId a = jp_userId u" "a_status a = IN_PROGRESS"
    "0 < a_totalOutOfWindowSeconds a" "int4 (a_totalOutOfWindowSeconds a)" "w_events (V w) newid = None" "aid \<noteq> []"
    "b = \<lparr> pb_attemptId = aid, pb_eventType = TAB_RETURN, pb_duration = Some (- of_int (a_totalOutOfWindowSeconds a)),
           pb_pasteLength = None, pb_isMultiline = None \<rparr>"
    "log_event S now newid u (Some b) w = (r, w')"
  shows "r = Inr () \<and> (\<exists>a'. w_attempts (V w') aid = Some a' \<and> a_totalOutOfWindowSeconds a' = 0 \<and> integrity_score a \<le> integrity_score a')"
proof -
  let ?n = "a_totalOutOfWindowSeconds a" and ?d = "Some (- of_int (a_totalOutOfWindowSeconds a)) :: rat option"
  have col: "int4_column ?d = Some (Some (- ?n))"
    using assms(5,6) int_column_of_int(1)[of "- ?n"] by (simp add: int4_column_def int4_def)
  obtain w1 where ins: "insert_event S now newid aid TAB_RETURN ?d None None w = (Inr (), w1)"
    using col by (simp add: insert_event_def int4_column_def)
  obtain e where e: "V w1 = w_events_update (\<lambda>t. t(newid \<mapsto> e)) (V w)"
    using services.insert_event_ok[OF assms(1) ins assms(7)] by blast
  have b: "bump TAB_RETURN ?d a = Some (a\<lparr> a_totalOutOfWindowSeconds := 0 \<rparr>)"
    using assms(5) by (simp add: bump_def Let_def int4_def)
  have upd: "update_integrity_counters S aid TAB_RETURN ?d w1 = (r, w')"
    using assms(10) ins by (simp add: assms(9) log_event_def proctor_event_schema_def services.find_attempt_eq[OF assms(1)] assms(2,3,4,8) Suc_le_eq)
  have row: "w_attempts (V w1) aid = Some a" using assms(2) by (simp add: e)
  have w': "r = Inr ()" "w' = update_attempt S aid (\<lambda>x. or_default (bump TAB_RETURN ?d x) x) w1"
    using upd row b by (auto simp: update_integrity_counters_def services.find_attempt_eq[OF assms(1)])
  have "w_attempts (V w') aid = Some (a\<lparr> a_totalOutOfWindowSeconds := 0 \<rparr>)"
    using services.update_attempt_eq[OF assms(1), of "\<lambda>x. or_default (bump TAB_RETURN ?d x) x" aid w1] row b w'(2)
    by (simp add: or_default_def[symmetric])
  moreover have "0 \<le> ?n div 30" using assms(5) by simp
  then have "integrity_score a \<le> integrity_score (a\<lparr> a_totalOutOfWindowSeconds := 0 \<rparr>)"
    unfolding integrity_score_def by (intro max.mono order_refl) simp
  ultimately show ?thesis using w'(1) by simp
qed

definition away_world :: ref_world where
  "away_world = demo_world\<lparr> rw_attempts := [demo_attempt\<lparr> a_totalOutOfWindowSeconds := 600 \<rparr>] \<rparr>"

theorem negative_duration_witness:
  "\<exists>w' a'. log_event ref_services 5000 ''p1'' demo_candidate (Some \<lparr> pb_attemptId = ''a1'', pb_eventType = TAB_RETURN,
       pb_duration = Some (- 600), pb_pasteLength = None, pb_isMultiline = None \<rparr>) away_world = (Inr (), w')
     \<and> w_attempts (ref_view w') ''a1'' = Some a' \<and> a_totalOutOfWindowSeconds a' = 0"
proof -
  let ?a = "demo_attempt\<lparr> a_totalOutOfWindowSeconds := 600 \<rparr>"
  obtain r w' where run: "log_event ref_services 5000 ''p1'' demo_candidate (Some \<lparr> pb_attemptId = ''a1'', pb_eventType = TAB_RETURN,
       pb_duration = Some (- of_int (a_totalOutOfWindowSeconds ?a)), pb_pasteLength = None, pb_isMultiline = None \<rparr>) away_world = (r, w')"
    by force
  have "w_attempts (ref_view away_world) ''a1'' = Some ?a" "w_events (ref_view away_world) ''p1'' = None"
    by (simp_all add: ref_view_def away_world_def demo_world_def keyed_def demo_attempt_def empty_ref_def)
  then show ?thesis using negative_duration_erases_time[OF ref.services_axioms _ _ _ _ _ _ _ refl run] run
    by (auto simp: int4_def)
qed

text \<open>The integrity score stays between 0 and 100 while the counters are natural numbers; it is 100 exactly
  when no violation is on record and less than half a minute was spent out of the window, and every
  further violation lowers it or leaves it at 0.\<close>
theorem integrity_score_bounds:
  assumes "0 \<le> a_tabExits a" "0 \<le> a_fullscreenExits a" "0 \<le> a_pasteAttempts a" "0 \<le> a_totalOutOfWindowSeconds a"
  shows "0 \<le> integrity_score a \<and> integrity_score a \<le> 100
    \<and> (integrity_score a = 100 \<longleftrightarrow> a_tabExits a = 0 \<and> a_fullscreenExits a = 0 \<and> a_pasteAttempts a = 0 \<and> a_totalOutOfWindowSeconds a < 30)
    \<and> (\<forall>et d a'. et \<in> {TAB_LEAVE, FULLSCREEN_EXIT, PASTE_ATTEMPT} \<and> bump et d a = Some a' \<longrightarrow>
         integrity_score a' < integrity_score a \<or> integrity_score a = 0)"
proof -
  let ?q = "a_totalOutOfWindowSeconds a div 30"
  have q: "0 \<le> ?q" "?q = 0 \<longleftrightarrow> a_totalOutOfWindowSeconds a < 30" using assms(4) by auto
  have full: "integrity_score a = 100 \<longleftrightarrow> a_tabExits a = 0 \<and> a_fullscreenExits a = 0 \<and> a_pasteAttempts a = 0 \<and> a_totalOutOfWindowSeconds a < 30"
    using assms(1-3) q unfolding integrity_score_def by linarith
  have "integrity_score a' < integrity_score a \<or> integrity_score a = 0"
    if "et \<in> {TAB_LEAVE, FULLSCREEN_EXIT, PASTE_ATTEMPT}" "bump et d a = Some a'" for et d a'
    using that assms q(1) by (cases et) (auto simp: bump_def Let_def integrity_score_def split: if_splits)
  moreover have "0 \<le> integrity_score a" "integrity_score a \<le> 100" using assms q(1) by (simp_all add: integrity_score_def)
  ultimately show ?thesis using full by blast
qed

theorem integrity_score_witness: "integrity_score demo_attempt = 100"
  using integrity_score_bounds[of demo_attempt] by (simp add: demo_attempt_def new_attempt_def)

end
