(* ===== verification/Presence.thy ===== *)
theory Presence
  imports Demo_World
begin

text \<open>
  \<^verbatim>\<open>apps/api/src/socket/presenceService.ts\<close>: which sockets have an attempt open. A session
  is a document with an expiry under its own key and a member of the set of its attempt, which has an expiry of its
  own. The timeout (seconds, \<^verbatim>\<open>SESSION_TIMEOUT\<close>, 600 by default) is an argument.
\<close>

section \<open>Operations\<close>

definition presence_set :: "id \<Rightarrow> string" where
  "presence_set aid = ''sessions:'' @ aid"

definition presence_key :: "id \<Rightarrow> string \<Rightarrow> string" where
  "presence_key aid sid = ''session:'' @ aid @ '':'' @ sid"

text \<open>The other sessions of the attempt in turn: an active one of the same user refuses, one that is
  stale or unreadable is removed.\<close>
fun check_sessions :: "'w services \<Rightarrow> int \<Rightarrow> time \<Rightarrow> id \<Rightarrow> string \<Rightarrow> id \<Rightarrow> string list \<Rightarrow> 'w \<Rightarrow> bool \<times> 'w" where
  "check_sessions S T now aid sid uid [] w = (True, w)"
| "check_sessions S T now aid sid uid (x # xs) w =
    (if x = sid then check_sessions S T now aid sid uid xs w
     else (let data = sv_get S now (presence_key aid x) w in
       if \<not> truthy_reply data then check_sessions S T now aid sid uid xs (sv_srem S now (presence_set aid) x w)
       else (case data of
          Some (PresenceDoc s) \<Rightarrow>
            if now - pr_lastActive s < T * 1000
            then (if pr_userId s = uid then (False, w) else check_sessions S T now aid sid uid xs w)
            else check_sessions S T now aid sid uid xs (sv_del S (presence_key aid x) (sv_srem S now (presence_set aid) x w))
        | _ \<Rightarrow> check_sessions S T now aid sid uid xs (sv_del S (presence_key aid x) (sv_srem S now (presence_set aid) x w)))))"

definition track_session :: "'w services \<Rightarrow> int \<Rightarrow> time \<Rightarrow> id \<Rightarrow> string \<Rightarrow> id \<Rightarrow> 'w \<Rightarrow> bool \<times> 'w" where
  "track_session S T now aid sid uid w =
    (case check_sessions S T now aid sid uid (sv_smembers S now (presence_set aid) w) w of
       (False, w1) \<Rightarrow> (False, w1)
     | (True, w1) \<Rightarrow> (True,
         sv_expire S now (presence_set aid) (T + 60)
          (sv_sadd S now (presence_set aid) sid
           (sv_set S now (presence_key aid sid)
             (PresenceDoc \<lparr> pr_socketId = sid, pr_userId = uid, pr_attemptId = aid, pr_lastActive = now \<rparr>) (Some T) w1))))"

definition remove_session :: "'w services \<Rightarrow> time \<Rightarrow> id \<Rightarrow> string \<Rightarrow> 'w \<Rightarrow> 'w" where
  "remove_session S now aid sid w = sv_del S (presence_key aid sid) (sv_srem S now (presence_set aid) sid w)"

fun count_sessions :: "'w services \<Rightarrow> time \<Rightarrow> id \<Rightarrow> string list \<Rightarrow> 'w \<Rightarrow> nat \<times> 'w" where
  "count_sessions S now aid [] w = (0, w)"
| "count_sessions S now aid (x # xs) w =
    (if sv_exists S now (presence_key aid x) w
     then (case count_sessions S now aid xs w of (n, w1) \<Rightarrow> (n + 1, w1))
     else count_sessions S now aid xs (sv_srem S now (presence_set aid) x w))"

definition get_session_count :: "'w services \<Rightarrow> time \<Rightarrow> id \<Rightarrow> 'w \<Rightarrow> nat \<times> 'w" where
  "get_session_count S now aid w = count_sessions S now aid (sv_smembers S now (presence_set aid) w) w"

definition has_active_session :: "'w services \<Rightarrow> time \<Rightarrow> id \<Rightarrow> 'w \<Rightarrow> bool \<times> 'w" where
  "has_active_session S now aid w = (case get_session_count S now aid w of (n, w1) \<Rightarrow> (0 < n, w1))"

text \<open>The heartbeat renews the session key only.\<close>
definition update_session_activity :: "'w services \<Rightarrow> int \<Rightarrow> time \<Rightarrow> id \<Rightarrow> string \<Rightarrow> 'w \<Rightarrow> 'w" where
  "update_session_activity S T now aid sid w = (case sv_get S now (presence_key aid sid) w of
     Some (PresenceDoc s) \<Rightarrow> sv_set S now (presence_key aid sid) (PresenceDoc (s\<lparr> pr_lastActive := now \<rparr>)) (Some T) w
   | _ \<Rightarrow> w)"

fun sessions_of :: "'w services \<Rightarrow> time \<Rightarrow> id \<Rightarrow> string list \<Rightarrow> 'w \<Rightarrow> (string \<times> id) list \<times> 'w" where
  "sessions_of S now aid [] w = ([], w)"
| "sessions_of S now aid (x # xs) w = (case sv_get S now (presence_key aid x) w of
     Some (PresenceDoc s) \<Rightarrow> (case sessions_of S now aid xs w of (l, w1) \<Rightarrow> ((x, pr_userId s) # l, w1))
   | _ \<Rightarrow> sessions_of S now aid xs (sv_srem S now (presence_set aid) x w))"

definition get_sessions_for_attempt :: "'w services \<Rightarrow> time \<Rightarrow> id \<Rightarrow> 'w \<Rightarrow> (string \<times> id) list \<times> 'w" where
  "get_sessions_for_attempt S now aid w = sessions_of S now aid (sv_smembers S now (presence_set aid) w) w"

definition clear_all_sessions :: "'w services \<Rightarrow> time \<Rightarrow> id \<Rightarrow> 'w \<Rightarrow> 'w" where
  "clear_all_sessions S now aid w = sv_del S (presence_set aid)
     (fold (\<lambda>sid. sv_del S (presence_key aid sid)) (sv_smembers S now (presence_set aid) w) w)"

definition get_total_session_count :: "'w services \<Rightarrow> time \<Rightarrow> 'w \<Rightarrow> nat" where
  "get_total_session_count S now w =
    sum_list (map (\<lambda>k. length (sv_smembers S now k w)) (concat (sv_scan S now ''sessions:'' w)))"

section \<open>Lemmas\<close>

lemma presence_keys [simp]: "presence_key aid a = presence_key aid b \<longleftrightarrow> a = b"
  "presence_key aid a \<noteq> presence_set b" "presence_set b \<noteq> presence_key aid a"
  by (simp_all add: presence_key_def presence_set_def)

text \<open>A session of one user and nothing else at the attempt.\<close>
definition alone :: "keyspace \<Rightarrow> int \<Rightarrow> id \<Rightarrow> string \<Rightarrow> id \<Rightarrow> time \<Rightarrow> time \<Rightarrow> bool" where
  "alone ks T aid sid uid joined seen =
    (ks (presence_set aid) = Some (RSet {|sid|}, Some (joined + 1000 * (T + 60))) \<and>
     (\<exists>s. ks (presence_key aid sid) = Some (RStr (PresenceDoc s), Some (seen + 1000 * T)) \<and>
        pr_userId s = uid \<and> pr_lastActive s = seen))"

text \<open>Heartbeats in order, none later than the timeout after the one before.\<close>
fun beats :: "int \<Rightarrow> time \<Rightarrow> time list \<Rightarrow> bool" where
  "beats T t [] = True"
| "beats T t (x # xs) = (t \<le> x \<and> x < t + 1000 * T \<and> beats T x xs)"

context services begin

lemma track_alone:
  assumes "w_ks (V w) (presence_set aid) = None" "0 < T"
  shows "fst (track_session S T now aid sid uid w)"
    "alone (w_ks (V (snd (track_session S T now aid sid uid w)))) T aid sid uid now now"
proof -
  have "set (sv_smembers S now (presence_set aid) w) = {}"
    using assms(1) by (simp add: smembers_set ks_members_def ks_live_def)
  then have empty: "sv_smembers S now (presence_set aid) w = []" by simp
  show "fst (track_session S T now aid sid uid w)" by (simp add: track_session_def empty)
  show "alone (w_ks (V (snd (track_session S T now aid sid uid w)))) T aid sid uid now now"
    using assms by (simp add: track_session_def empty alone_def ks_updates ks_live_def)
qed

lemma beat_alone:
  assumes "alone (w_ks (V w)) T aid sid uid joined seen" "seen \<le> now" "now < seen + 1000 * T"
  shows "alone (w_ks (V (update_session_activity S T now aid sid w))) T aid sid uid joined now"
  using assms by (auto simp: alone_def update_session_activity_def ks_get_def ks_live_def ks_updates)

lemma beats_alone:
  "alone (w_ks (V w)) T aid sid uid joined seen \<Longrightarrow> beats T seen hs \<Longrightarrow>
   alone (w_ks (V (fold (\<lambda>x. update_session_activity S T x aid sid) hs w))) T aid sid uid joined (last (seen # hs))"
proof (induction hs arbitrary: w seen)
  case (Cons x hs)
  then show ?case using beat_alone[OF Cons.prems(1)] Cons.IH by simp
qed simp

lemma track_second:
  assumes "alone (w_ks (V w)) T aid sid uid joined seen" "seen \<le> now" "now < seen + 1000 * T" "sid' \<noteq> sid"
  shows "fst (track_session S T now aid sid' uid w) \<longleftrightarrow> joined + 1000 * (T + 60) \<le> now"
proof (cases "now < joined + 1000 * (T + 60)")
  case True
  obtain s where s: "w_ks (V w) (presence_key aid sid) = Some (RStr (PresenceDoc s), Some (seen + 1000 * T))"
      "pr_userId s = uid" "pr_lastActive s = seen" using assms(1) by (auto simp: alone_def)
  have "set (sv_smembers S now (presence_set aid) w) = {sid}"
    using assms(1) True by (simp add: smembers_set ks_members_def ks_live_def alone_def)
  then have "sv_smembers S now (presence_set aid) w = [sid]"
    by (rule distinct_set_single[OF smembers_distinct])
  then show ?thesis using assms(2-4) s True
    by (simp add: track_session_def ks_get_def ks_live_def truthy_reply_def)
next
  case False
  then have "set (sv_smembers S now (presence_set aid) w) = {}"
    using assms(1) by (simp add: smembers_set ks_members_def ks_live_def alone_def)
  then show ?thesis using False by (simp add: track_session_def)
qed

end

section \<open>The property\<close>

text \<open>One tab at a time, for eleven minutes: while the first session of an attempt stays active (heartbeats
  closer together than the timeout), a second session of the same user is refused exactly until a
  minute more than the timeout has passed since the first one joined; from then on it is let in although the
  first is still active, because a heartbeat renews the key of the session and not the set of sessions.\<close>
theorem presence_exclusive_until:
  assumes "services S V" "w_ks (V w) (presence_set aid) = None" "0 < T"
    "track_session S T joined aid sid uid w = (ok, w1)" "beats T joined hs"
    "w2 = fold (\<lambda>x. update_session_activity S T x aid sid) hs w1"
    "last (joined # hs) \<le> now" "now < last (joined # hs) + 1000 * T" "sid' \<noteq> sid"
  shows "ok \<and> (fst (track_session S T now aid sid' uid w2) \<longleftrightarrow> joined + 1000 * (T + 60) \<le> now)"
proof -
  have "ok" "alone (w_ks (V w1)) T aid sid uid joined joined"
    using services.track_alone[OF assms(1-3), of joined sid uid] assms(4) by simp_all
  then show ?thesis
    using services.track_second[OF assms(1) services.beats_alone[OF assms(1) _ assms(5)] assms(7-9)] assms(6) by simp
qed

theorem presence_witness:
  "\<exists>w1 w2. track_session ref_services 600 0 ''a1'' ''s1'' ''u1'' demo_world = (True, w1)
     \<and> w2 = fold (\<lambda>x. update_session_activity ref_services 600 x ''a1'' ''s1'') [500000] w1
     \<and> \<not> fst (track_session ref_services 600 600000 ''a1'' ''s2'' ''u1'' w2)
     \<and> fst (track_session ref_services 600 700000 ''a1'' ''s2'' ''u1'' w2)"
proof -
  obtain ok w1 where run: "track_session ref_services 600 0 ''a1'' ''s1'' ''u1'' demo_world = (ok, w1)" by force
  have free: "w_ks demo (presence_set ''a1'') = None" by simp
  note excl = presence_exclusive_until[OF ref.services_axioms free _ run, of "[500000]"]
  show ?thesis using excl[OF _ _ refl, of 600000 "''s2''"] excl[OF _ _ refl, of 700000 "''s2''"] run by simp
qed

end
