(* ===== verification/Keystrokes.thy ===== *)
theory Keystrokes
  imports Attempts
begin

text \<open>
  \<^verbatim>\<open>apps/api/src/socket/keystrokeService.ts\<close> and the keystroke route of
  \<^verbatim>\<open>apps/api/src/routes/proctor.ts\<close>: batches of key presses and snapshots of the
  typing speed, each in a list of the newest 200, and a hash of running totals. A handler gets the
  attempt that its socket has joined and answers what it passes to the callback.
\<close>

datatype 'a ack = Success 'a | Refused string | Failure

section \<open>Storing\<close>

definition batch_key :: "id \<Rightarrow> string" where "batch_key aid = ''keystroke:batch:'' @ aid"
definition speed_key :: "id \<Rightarrow> string" where "speed_key aid = ''keystroke:speed:'' @ aid"
definition keystroke_stats_key :: "id \<Rightarrow> string" where "keystroke_stats_key aid = ''keystroke:stats:'' @ aid"

definition keystroke_ttl :: int where "keystroke_ttl = 86400"
definition max_batches :: nat where "max_batches = 200"
definition max_speed_snapshots :: nat where "max_speed_snapshots = 200"
definition max_batch_payload :: nat where "max_batch_payload = 50000"

definition compress :: "keystroke \<Rightarrow> small_keystroke" where
  "compress k = (let flag = (\<lambda>b. if b then Some 1 else None) in
     \<lparr> sk_k = k_key k, sk_t = k_ts k, sk_c = flag (k_ctrl k), sk_s = flag (k_shift k), sk_a = flag (k_alt k), sk_m = flag (k_meta k) \<rparr>)"

definition json_flag :: "string \<Rightarrow> int option \<Rightarrow> string" where
  "json_flag n f = (case f of None \<Rightarrow> [] | Some v \<Rightarrow> '','' @ json_string n @ '':'' @ str_of_int v)"

definition json_keystroke :: "small_keystroke \<Rightarrow> string" where
  "json_keystroke k = ''{'' @ json_string ''k'' @ '':'' @ json_string (sk_k k) @ '','' @ json_string ''t'' @ '':'' @ str_of_int (sk_t k)
     @ json_flag ''c'' (sk_c k) @ json_flag ''s'' (sk_s k) @ json_flag ''a'' (sk_a k) @ json_flag ''m'' (sk_m k) @ ''}''"

definition json_batch :: "keystroke_batch \<Rightarrow> string" where
  "json_batch b = ''{'' @ json_string ''ks'' @ '':['' @ str_join '','' (map json_keystroke (kb_ks b)) @ ''],'' @ json_string ''total'' @ '':'' @ str_of_int (kb_total b)
     @ '','' @ json_string ''ts'' @ '':'' @ str_of_int (kb_ts b) @ '','' @ json_string ''n'' @ '':'' @ str_of_int (kb_n b) @ ''}''"

record batch_data =
  bd_attemptId :: id
  bd_keystrokes :: "keystroke list option"
  bd_totalKeystrokes :: int
  bd_timestamp :: time

definition batch_doc :: "batch_data \<Rightarrow> keystroke_batch" where
  "batch_doc d = (let ks = or_default (bd_keystrokes d) [] in
     \<lparr> kb_ks = map compress ks, kb_total = bd_totalKeystrokes d, kb_ts = bd_timestamp d, kb_n = int (length ks) \<rparr>)"

definition keystroke_batch_event ::
  "'w services \<Rightarrow> time \<Rightarrow> id option \<Rightarrow> batch_data \<Rightarrow> 'w \<Rightarrow> unit ack \<times> 'w" where
  "keystroke_batch_event S now joined d w =
    (if joined \<noteq> Some (bd_attemptId d) then (Refused ''Not authorized'', w)
     else if or_default (bd_keystrokes d) [] = [] then (Success (), w)
     else if max_batch_payload < length (json_batch (batch_doc d)) then (Refused ''Payload too large'', w)
     else
       (let stats = keystroke_stats_key (bd_attemptId d);
            w1 = push_back S now (batch_key (bd_attemptId d)) max_batches keystroke_ttl (BatchDoc (batch_doc d)) w;
            w2 = sv_hincrby S now stats ''totalKeystrokes'' (kb_n (batch_doc d)) w1;
            w3 = sv_hset S now stats [(''lastActivity'', Num (bd_timestamp d))] w2
        in (Success (), sv_expire S now stats keystroke_ttl w3)))"

record speed_data =
  sd_attemptId :: id
  sd_wpm :: int
  sd_cpm :: int
  sd_interval :: int
  sd_charCount :: int
  sd_totalKeystrokes :: int
  sd_sessionDuration :: int
  sd_timestamp :: time

definition speed_doc :: "speed_data \<Rightarrow> speed_entry" where
  "speed_doc d = \<lparr> sp_wpm = sd_wpm d, sp_cpm = sd_cpm d, sp_interval = sd_interval d, sp_charCount = sd_charCount d,
     sp_totalKeystrokes = sd_totalKeystrokes d, sp_sessionDuration = sd_sessionDuration d, sp_timestamp = sd_timestamp d \<rparr>"

definition exam_id_cache_key :: "id \<Rightarrow> string" where "exam_id_cache_key aid = ''attempt:examId:'' @ aid"

definition get_exam_id_for_attempt :: "'w services \<Rightarrow> time \<Rightarrow> id \<Rightarrow> 'w \<Rightarrow> id option" where
  "get_exam_id_for_attempt S now aid w = (case sv_get S now (exam_id_cache_key aid) w of
     Some (Txt e) \<Rightarrow> if e \<noteq> [] then Some e else None | _ \<Rightarrow> None)"

definition keystroke_speed_event ::
  "'w services \<Rightarrow> time \<Rightarrow> id option \<Rightarrow> speed_data \<Rightarrow> 'w \<Rightarrow> unit ack \<times> 'w" where
  "keystroke_speed_event S now joined d w =
    (if joined \<noteq> Some (sd_attemptId d) then (Refused ''Not authorized'', w)
     else
       (let aid = sd_attemptId d; stats = keystroke_stats_key aid;
            w1 = push_back S now (speed_key aid) max_speed_snapshots keystroke_ttl (SpeedDoc (speed_doc d)) w;
            w2 = sv_hset S now stats [(''lastWpm'', Num (sd_wpm d))] w1;
            w3 = sv_hset S now stats [(''lastCpm'', Num (sd_cpm d))] w2;
            w4 = sv_hset S now stats [(''sessionDuration'', Num (sd_sessionDuration d))] w3;
            w5 = sv_expire S now stats keystroke_ttl w4;
            w6 = (case get_exam_id_for_attempt S now aid w5 of None \<Rightarrow> w5
                  | Some e \<Rightarrow> sv_emit S (monitor_room e) (SpeedUpdate aid (speed_doc d)) w5)
        in (Success (), w6)))"

section \<open>Reading\<close>

record keystroke_stats =
  ks_totalKeystrokes :: int
  ks_lastWpm :: int
  ks_lastCpm :: int
  ks_sessionDuration :: int
  ks_lastActivity :: int

definition stat_field :: "(string \<Rightarrow> payload option) \<Rightarrow> string \<Rightarrow> int" where
  "stat_field h f = (case h f of Some (Num n) \<Rightarrow> n | _ \<Rightarrow> 0)"

definition get_keystroke_stats :: "'w services \<Rightarrow> time \<Rightarrow> id \<Rightarrow> 'w \<Rightarrow> keystroke_stats option" where
  "get_keystroke_stats S now aid w = (case sv_hgetall S now (keystroke_stats_key aid) w of
     None \<Rightarrow> None
   | Some h \<Rightarrow> Some \<lparr> ks_totalKeystrokes = stat_field h ''totalKeystrokes'', ks_lastWpm = stat_field h ''lastWpm'',
       ks_lastCpm = stat_field h ''lastCpm'', ks_sessionDuration = stat_field h ''sessionDuration'',
       ks_lastActivity = stat_field h ''lastActivity'' \<rparr>)"

definition get_typing_speed_history :: "'w services \<Rightarrow> time \<Rightarrow> id \<Rightarrow> 'w \<Rightarrow> speed_entry list" where
  "get_typing_speed_history S now aid w =
    List.map_filter (\<lambda>p. case p of SpeedDoc s \<Rightarrow> Some s | _ \<Rightarrow> None) (sv_lrange S now (speed_key aid) 0 (- 1) w)"

definition get_keystroke_batches :: "'w services \<Rightarrow> time \<Rightarrow> id \<Rightarrow> int \<Rightarrow> int \<Rightarrow> 'w \<Rightarrow> keystroke_batch list" where
  "get_keystroke_batches S now aid i j w =
    List.map_filter (\<lambda>p. case p of BatchDoc b \<Rightarrow> Some b | _ \<Rightarrow> None) (sv_lrange S now (batch_key aid) i j w)"

text \<open>\<^verbatim>\<open>Math.round(total / n)\<close> is \<^verbatim>\<open>round_div\<close>.\<close>
record typing_speed =
  ty_avgWpm :: int
  ty_avgCpm :: int
  ty_peakWpm :: int
  ty_history :: "speed_entry list"

definition typing_speed_of :: "speed_entry list \<Rightarrow> typing_speed" where
  "typing_speed_of l = (if l = [] then \<lparr> ty_avgWpm = 0, ty_avgCpm = 0, ty_peakWpm = 0, ty_history = l \<rparr>
     else \<lparr> ty_avgWpm = round_div (sum_list (map sp_wpm l)) (int (length l)),
            ty_avgCpm = round_div (sum_list (map sp_cpm l)) (int (length l)),
            ty_peakWpm = Max (set (map sp_wpm l)), ty_history = l \<rparr>)"

definition expand :: "small_keystroke \<Rightarrow> keystroke" where
  "expand k = (let on = (\<lambda>f. case f of None \<Rightarrow> False | Some v \<Rightarrow> v \<noteq> 0) in
     \<lparr> k_key = sk_k k, k_ts = sk_t k, k_ctrl = on (sk_c k), k_shift = on (sk_s k), k_alt = on (sk_a k), k_meta = on (sk_m k) \<rparr>)"

definition keystroke_report ::
  "'w services \<Rightarrow> time \<Rightarrow> jwt_payload \<Rightarrow> id \<Rightarrow> 'w \<Rightarrow> (keystroke_stats \<times> typing_speed \<times> keystroke list) result" where
  "keystroke_report S now u aid w = (if jp_role u = CANDIDATE then api_error ''Not authorized'' 403
     else Inr (or_default (get_keystroke_stats S now aid w)
            \<lparr> ks_totalKeystrokes = 0, ks_lastWpm = 0, ks_lastCpm = 0, ks_sessionDuration = 0, ks_lastActivity = 0 \<rparr>,
          typing_speed_of (get_typing_speed_history S now aid w),
          concat (map (\<lambda>b. map expand (kb_ks b)) (get_keystroke_batches S now aid 0 (- 1) w))))"

section \<open>Lemmas\<close>

lemma expand_compress [simp]: "expand (compress k) = k"
  by (cases k) (simp add: expand_def compress_def Let_def)

lemma last_n_last_n: "last_n n (last_n n xs @ [x]) = last_n n (xs @ [x])"
  by (cases n; cases "length xs < n") (simp_all add: last_n_def Suc_diff_Suc not_less)

lemma last_n_ne: "0 < n \<Longrightarrow> last_n n (xs @ [x]) \<noteq> []"
  by (simp add: last_n_def)

text \<open>What the two keys of an attempt hold after batches: the newest documents and their sum.\<close>
definition logged :: "keyspace \<Rightarrow> id \<Rightarrow> time \<Rightarrow> keystroke_batch list \<Rightarrow> bool" where
  "logged ks aid t ds = (ks (batch_key aid) = Some (RList (map BatchDoc (last_n max_batches ds)), Some (t + 1000 * keystroke_ttl)) \<and>
     (\<exists>h. ks (keystroke_stats_key aid) = Some (RHash h, Some (t + 1000 * keystroke_ttl)) \<and>
        h ''totalKeystrokes'' = Some (Num (sum_list (map kb_n ds)))))"

definition accepted_batch :: "id \<Rightarrow> batch_data \<Rightarrow> bool" where
  "accepted_batch aid d = (bd_attemptId d = aid \<and> or_default (bd_keystrokes d) [] \<noteq> [] \<and>
     length (json_batch (batch_doc d)) \<le> max_batch_payload)"

text \<open>Batches in order, less than a day apart.\<close>
fun timely :: "time \<Rightarrow> (time \<times> batch_data) list \<Rightarrow> bool" where
  "timely t [] = True"
| "timely t ((x, d) # ds) = (t \<le> x \<and> x < t + 1000 * keystroke_ttl \<and> timely x ds)"

definition send_batches :: "'w services \<Rightarrow> id \<Rightarrow> (time \<times> batch_data) list \<Rightarrow> 'w \<Rightarrow> 'w" where
  "send_batches S aid ds w = fold (\<lambda>(t, d) w. snd (keystroke_batch_event S t (Some aid) d w)) ds w"

lemma keystroke_keys [simp]: "batch_key a \<noteq> keystroke_stats_key b" "keystroke_stats_key b \<noteq> batch_key a"
  by (simp_all add: batch_key_def keystroke_stats_key_def)

lemma map_last_n: "map f (last_n n l) = last_n n (map f l)"
  by (simp add: last_n_def drop_map)

context services begin

lemma batch_logged:
  assumes "accepted_batch aid d" "logged (w_ks (V w)) aid t ds" "t \<le> now" "now < t + 1000 * keystroke_ttl"
  shows "logged (w_ks (V (snd (keystroke_batch_event S now (Some aid) d w)))) aid now (ds @ [batch_doc d])"
proof -
  have r: "redis_range (- int max_batches) (- 1) l = last_n max_batches l" for l :: "payload list"
    by (rule redis_range_last) (simp add: max_batches_def)
  have ne: "0 < max_batches" by (simp add: max_batches_def)
  have last: "last_n max_batches (map BatchDoc (last_n max_batches ds) @ [BatchDoc b]) = map BatchDoc (last_n max_batches (ds @ [b]))" for b
    by (simp add: map_last_n last_n_last_n)
  obtain h where h: "w_ks (V w) (keystroke_stats_key aid) = Some (RHash h, Some (t + 1000 * keystroke_ttl))"
      "h ''totalKeystrokes'' = Some (Num (sum_list (map kb_n ds)))" using assms(2) by (auto simp: logged_def)
  have b: "w_ks (V w) (batch_key aid) = Some (RList (map BatchDoc (last_n max_batches ds)), Some (t + 1000 * keystroke_ttl))"
    using assms(2) by (simp add: logged_def)
  have ttl: "0 < keystroke_ttl" by (simp add: keystroke_ttl_def)
  show ?thesis using assms(1,3,4) h b ttl last_n_ne[OF ne]
    by (simp add: keystroke_batch_event_def accepted_batch_def Let_def logged_def ks_updates ks_live_def r last hash_incr_def add.commute)
qed

lemma first_batch_logged:
  assumes "accepted_batch aid d" "w_ks (V w) (batch_key aid) = None" "w_ks (V w) (keystroke_stats_key aid) = None"
  shows "logged (w_ks (V (snd (keystroke_batch_event S now (Some aid) d w)))) aid now [batch_doc d]"
proof -
  have r: "redis_range (- int max_batches) (- 1) [p] = [p]" for p :: payload
    by (subst redis_range_last) (simp_all add: max_batches_def)
  have one: "Suc 0 \<le> max_batches" by (simp add: max_batches_def)
  show ?thesis using assms
    by (simp add: keystroke_batch_event_def accepted_batch_def Let_def logged_def ks_updates ks_live_def r last_n_idle hash_incr_def
      keystroke_ttl_def one)
qed

lemma send_logged:
  "logged (w_ks (V w)) aid t ds \<Longrightarrow> timely t es \<Longrightarrow> \<forall>(x, d)\<in>set es. accepted_batch aid d \<Longrightarrow>
   logged (w_ks (V (send_batches S aid es w))) aid (last (t # map fst es)) (ds @ map (batch_doc \<circ> snd) es)"
proof (induction es arbitrary: w t ds)
  case (Cons e es)
  obtain x d where e: "e = (x, d)" by force
  show ?case using Cons.IH[OF batch_logged[where d = d and now = x and t = t and ds = ds]] Cons.prems by (simp add: e send_batches_def)
qed (simp add: send_batches_def)

lemma read_logged:
  assumes "logged (w_ks (V w)) aid t ds" "now < t + 1000 * keystroke_ttl" "jp_role u \<noteq> CANDIDATE"
  obtains st sp where "keystroke_report S now u aid w = Inr (st, sp, concat (map (\<lambda>b. map expand (kb_ks b)) (last_n max_batches ds)))"
    "ks_totalKeystrokes st = sum_list (map kb_n ds)"
proof -
  have "List.map_filter (\<lambda>p. case p of BatchDoc b \<Rightarrow> Some b | _ \<Rightarrow> None) (map BatchDoc l) = l" for l
    by (induction l) (simp_all add: List.map_filter_def)
  then show thesis using assms that
    by (auto simp: keystroke_report_def get_keystroke_batches_def get_keystroke_stats_def logged_def ks_list_def ks_hash_def ks_live_def stat_field_def)
qed

end

section \<open>The property\<close>


definition one_key :: "string \<Rightarrow> bool \<Rightarrow> batch_data" where
  "one_key k shift = \<lparr> bd_attemptId = ''a1'', bd_keystrokes = Some [\<lparr> k_key = k, k_ts = 5, k_ctrl = False, k_shift = shift, k_alt = False, k_meta = False \<rparr>],
     bd_totalKeystrokes = 1, bd_timestamp = 5 \<rparr>"


end
