(* ===== verification/Socket_Server.thy ===== *)
theory Socket_Server
  imports Proctoring Presence Keystrokes Auth_Routes
begin

text \<open>
  \<^verbatim>\<open>apps/api/src/socket/index.ts\<close> and
  \<^verbatim>\<open>apps/api/src/socket/examHandlers.ts\<close>: the sockets of one API instance and what
  their events do. A socket remembers the token of its handshake, the identity it acts as, the attempt it
  has joined (\<^verbatim>\<open>socket.data.attemptId\<close>), the exam it monitors and its rooms;
  \<^verbatim>\<open>userSockets\<close> maps the user a socket connected as to its sockets. A handler answers what
  it passes to its callback. Writes of proctoring events on a disconnect need fresh row ids: the argument
  \<^verbatim>\<open>fresh\<close> gives one for each socket.
\<close>

section \<open>State\<close>

record socket =
  so_user :: jwt_payload
  so_tracked :: id
  so_token :: string
  so_checkedAt :: "time option"
  so_attempt :: "id option"
  so_monitoring :: "id option"
  so_rooms :: "string list"

record socket_server =
  ss_sockets :: "string \<Rightarrow> socket option"
  ss_userSockets :: "id \<Rightarrow> string list option"

type_synonym 'w hub = "socket_server \<times> 'w node"

definition token_check_interval :: int where "token_check_interval = 5 * 60 * 1000"

definition upd_socket :: "string \<Rightarrow> (socket \<Rightarrow> socket) \<Rightarrow> socket_server \<Rightarrow> socket_server" where
  "upd_socket sid f srv = (case ss_sockets srv sid of None \<Rightarrow> srv
     | Some k \<Rightarrow> srv\<lparr> ss_sockets := (ss_sockets srv)(sid \<mapsto> f k) \<rparr>)"

section \<open>Connecting and disconnecting\<close>

text \<open>The middleware: the identity of the handshake token.\<close>
definition handshake :: "'w services \<Rightarrow> string \<Rightarrow> time \<Rightarrow> string option \<Rightarrow> string + jwt_payload" where
  "handshake S secret now token = (case str_opt token of
     None \<Rightarrow> Inl ''Authentication required''
   | Some t \<Rightarrow> (case verify_token S secret now t of Inl _ \<Rightarrow> Inl ''Invalid or expired token'' | Inr p \<Rightarrow> Inr p))"

definition track_user :: "id \<Rightarrow> string \<Rightarrow> (id \<Rightarrow> string list option) \<Rightarrow> id \<Rightarrow> string list option" where
  "track_user u sid m = (let l = or_default (m u) [] in m(u \<mapsto> if sid \<in> set l then l else l @ [sid]))"

definition untrack_user :: "id \<Rightarrow> string \<Rightarrow> (id \<Rightarrow> string list option) \<Rightarrow> id \<Rightarrow> string list option" where
  "untrack_user u sid m = (case m u of None \<Rightarrow> m
     | Some l \<Rightarrow> (let l' = removeAll sid l in if l' = [] then m(u := None) else m(u \<mapsto> l')))"

definition connect :: "'w services \<Rightarrow> string \<Rightarrow> time \<Rightarrow> string \<Rightarrow> string option \<Rightarrow> socket_server \<Rightarrow> (string + unit) \<times> socket_server" where
  "connect S secret now sid token srv = (case handshake S secret now token of
     Inl e \<Rightarrow> (Inl e, srv)
   | Inr p \<Rightarrow> (Inr (), srv\<lparr>
       ss_sockets := (ss_sockets srv)(sid \<mapsto> \<lparr> so_user = p, so_tracked = jp_userId p, so_token = or_default token [],
          so_checkedAt = Some now, so_attempt = None, so_monitoring = None, so_rooms = [sid] \<rparr>),
       ss_userSockets := track_user (jp_userId p) sid (ss_userSockets srv) \<rparr>))"

definition leave_event :: "id \<Rightarrow> event_data" where
  "leave_event aid = \<lparr> ed_attemptId = aid, ed_eventType = ''TAB_LEAVE'', ed_duration = None, ed_pasteLength = None, ed_isMultiline = None \<rparr>"

text \<open>The two disconnect handlers of a socket, and the socket is gone.\<close>
definition on_disconnect :: "'w services \<Rightarrow> time \<Rightarrow> (string \<Rightarrow> id) \<Rightarrow> string \<Rightarrow> socket_server \<times> 'w \<Rightarrow> socket_server \<times> 'w" where
  "on_disconnect S now fresh sid st = (case st of (srv, w) \<Rightarrow> (case ss_sockets srv sid of
     None \<Rightarrow> (srv, w)
   | Some k \<Rightarrow>
      (srv\<lparr> ss_sockets := (ss_sockets srv)(sid := None), ss_userSockets := untrack_user (so_tracked k) sid (ss_userSockets srv) \<rparr>,
       case str_opt (so_attempt k) of None \<Rightarrow> w
       | Some aid \<Rightarrow> snd (log_proctor_event S now (fresh sid) (so_user k) (leave_event aid) (remove_session S now aid sid w)))))"

definition auth_refresh ::
  "'w services \<Rightarrow> string \<Rightarrow> time \<Rightarrow> (string \<Rightarrow> id) \<Rightarrow> string \<Rightarrow> string \<Rightarrow> socket_server \<times> 'w \<Rightarrow> unit ack \<times> socket_server \<times> 'w" where
  "auth_refresh S secret now fresh sid token st = (case st of (srv, w) \<Rightarrow> (case verify_token S secret now token of
     Inr p \<Rightarrow> (Success (), upd_socket sid (\<lambda>k. k\<lparr> so_user := p, so_checkedAt := Some now \<rparr>) srv, w)
   | Inl _ \<Rightarrow> (Refused ''Invalid token'', on_disconnect S now fresh sid (srv, w))))"

section \<open>Periodic validation and eviction\<close>

definition expire_socket :: "'w services \<Rightarrow> time \<Rightarrow> (string \<Rightarrow> id) \<Rightarrow> string \<Rightarrow> string \<Rightarrow> socket_server \<times> 'w \<Rightarrow> socket_server \<times> 'w" where
  "expire_socket S now fresh msg sid st = (case st of (srv, w) \<Rightarrow>
     on_disconnect S now fresh sid (srv, sv_emit S sid (AuthExpired msg) w))"

definition validate_socket ::
  "'w services \<Rightarrow> string \<Rightarrow> time \<Rightarrow> (string \<Rightarrow> id) \<Rightarrow> string \<Rightarrow> socket_server \<times> 'w \<Rightarrow> socket_server \<times> 'w" where
  "validate_socket S secret now fresh sid st = (case st of (srv, w) \<Rightarrow> (case ss_sockets srv sid of
     None \<Rightarrow> (srv, w)
   | Some k \<Rightarrow>
      if (case so_checkedAt k of None \<Rightarrow> False | Some t \<Rightarrow> t \<noteq> 0 \<and> now - t < token_check_interval) then (srv, w)
      else if so_token k = [] then expire_socket S now fresh ''Session expired. Please log in again.'' sid (srv, w)
      else (case verify_token S secret now (so_token k) of
          Inr _ \<Rightarrow> (upd_socket sid (\<lambda>k. k\<lparr> so_checkedAt := Some now \<rparr>) srv, w)
        | Inl _ \<Rightarrow> expire_socket S now fresh ''Session expired. Please log in again.'' sid (srv, w))))"

text \<open>One firing of the interval over the connected sockets.\<close>
definition validate_tokens ::
  "'w services \<Rightarrow> string \<Rightarrow> time \<Rightarrow> (string \<Rightarrow> id) \<Rightarrow> string list \<Rightarrow> socket_server \<times> 'w \<Rightarrow> socket_server \<times> 'w" where
  "validate_tokens S secret now fresh sids st = fold (validate_socket S secret now fresh) sids st"

definition evict_socket :: "'w services \<Rightarrow> time \<Rightarrow> (string \<Rightarrow> id) \<Rightarrow> string \<Rightarrow> socket_server \<times> 'w \<Rightarrow> socket_server \<times> 'w" where
  "evict_socket S now fresh sid st = (case st of (srv, w) \<Rightarrow>
     if ss_sockets srv sid = None then (srv, w) else expire_socket S now fresh ''Session terminated.'' sid (srv, w))"

record eviction =
  ev_userId :: "id option"
  ev_socketId :: "string option"

definition handle_eviction :: "'w services \<Rightarrow> time \<Rightarrow> (string \<Rightarrow> id) \<Rightarrow> eviction \<Rightarrow> socket_server \<times> 'w \<Rightarrow> socket_server \<times> 'w" where
  "handle_eviction S now fresh d st = (case str_opt (ev_socketId d) of
     Some sid \<Rightarrow> evict_socket S now fresh sid st
   | None \<Rightarrow> (case str_opt (ev_userId d) of
        None \<Rightarrow> st
      | Some u \<Rightarrow> fold (evict_socket S now fresh) (or_default (ss_userSockets (fst st) u) []) st))"

section \<open>Messages from the grader\<close>

definition handle_grading_complete :: "'w services \<Rightarrow> id \<Rightarrow> grading_result \<Rightarrow> bool \<Rightarrow> 'w \<Rightarrow> 'w" where
  "handle_grading_complete S aid r preview w =
    (let w1 = sv_emit S (attempt_room aid) (GradingComplete r preview) w
     in if preview then sv_del S (grading_lock_key aid) w1 else w1)"

text \<open>The messages of the subscribed channels.\<close>
datatype channel_message = GradingDone id grading_result bool | ProctorNotice id string | Eviction eviction

definition on_message :: "'w services \<Rightarrow> time \<Rightarrow> (string \<Rightarrow> id) \<Rightarrow> channel_message \<Rightarrow> socket_server \<times> 'w \<Rightarrow> socket_server \<times> 'w" where
  "on_message S now fresh m st = (case m of
     GradingDone aid r preview \<Rightarrow> (fst st, handle_grading_complete S aid r preview (snd st))
   | ProctorNotice _ _ \<Rightarrow> st
   | Eviction d \<Rightarrow> handle_eviction S now fresh d st)"

definition get_attempt_room_size :: "string list \<Rightarrow> id \<Rightarrow> socket_server \<Rightarrow> nat" where
  "get_attempt_room_size sids aid srv =
    length (filter (\<lambda>sid. case ss_sockets srv sid of None \<Rightarrow> False | Some k \<Rightarrow> attempt_room aid \<in> set (so_rooms k)) sids)"

definition emit_to_attempt :: "'w services \<Rightarrow> id \<Rightarrow> event \<Rightarrow> 'w \<Rightarrow> 'w" where
  "emit_to_attempt S aid e w = sv_emit S (attempt_room aid) e w"

section \<open>The exam handlers\<close>

record join_data =
  jo_attemptId :: id
  jo_files :: "files option"
  jo_startedAt :: time
  jo_timeLimit :: int
  jo_scheduledStartAt :: "time option"
  jo_scheduledEndAt :: "time option"
  jo_timezone :: "string option"

definition join_room :: "string \<Rightarrow> socket \<Rightarrow> socket" where
  "join_room r k = k\<lparr> so_rooms := (if r \<in> set (so_rooms k) then so_rooms k else so_rooms k @ [r]) \<rparr>"

definition leave_room :: "string \<Rightarrow> socket \<Rightarrow> socket" where
  "leave_room r k = k\<lparr> so_rooms := removeAll r (so_rooms k) \<rparr>"

definition attempt_join ::
  "'w services \<Rightarrow> int \<Rightarrow> time \<Rightarrow> string \<Rightarrow> string \<Rightarrow> socket \<Rightarrow> id \<Rightarrow> 'w hub \<Rightarrow> join_data ack \<times> 'w hub" where
  "attempt_join S T now uuid sid k aid st = (case st of (srv, n, w) \<Rightarrow>
    (case t_first (sv_attempts S) (\<lambda>a. a_id a = aid \<and> a_candidateId a = jp_userId (so_user k)) w of
       None \<Rightarrow> (Refused ''Attempt not found or access denied'', (srv, n, w))
     | Some a \<Rightarrow>
        if a_status a \<noteq> IN_PROGRESS then (Refused ''Attempt is not in progress'', (srv, n, w))
        else (case track_session S T now aid sid (jp_userId (so_user k)) w of
          (False, w1) \<Rightarrow> (Refused ''Another session is already active for this exam. Please close other tabs.'', (srv, n, w1))
        | (True, w1) \<Rightarrow>
           (let srv1 = upd_socket sid (\<lambda>k. join_room (attempt_room aid) k\<lparr> so_attempt := Some aid \<rparr>) srv
            in case find_exam S (a_examId a) w of
                 None \<Rightarrow> (Refused ''Failed to join attempt'', (srv1, n, w1))
               | Some e \<Rightarrow>
                  (Success \<lparr> jo_attemptId = aid, jo_files = a_files a, jo_startedAt = a_startedAt a, jo_timeLimit = e_timeLimit e,
                     jo_scheduledStartAt = e_scheduledStartAt e, jo_scheduledEndAt = e_scheduledEndAt e, jo_timezone = e_timezone e \<rparr>,
                   (srv1, start_timer S now uuid aid (a_startedAt a) (e_timeLimit e) (e_scheduledEndAt e) (n, w1)))))))"

definition code_save :: "'w services \<Rightarrow> int \<Rightarrow> time \<Rightarrow> string \<Rightarrow> socket \<Rightarrow> id \<Rightarrow> files \<Rightarrow> 'w \<Rightarrow> time ack \<times> 'w" where
  "code_save S T now sid k aid fs w =
    (if so_attempt k \<noteq> Some aid then (Refused ''Cannot save to this attempt'', w)
     else (Success now, update_session_activity S T now aid sid (save_to_buffer S now aid fs w)))"

definition code_flush :: "'w services \<Rightarrow> time \<Rightarrow> socket \<Rightarrow> id \<Rightarrow> 'w \<Rightarrow> unit ack \<times> 'w" where
  "code_flush S now k aid w =
    (if so_attempt k \<noteq> Some aid then (Refused ''Cannot flush this attempt'', w)
     else (Success (), snd (flush_to_database S now aid w)))"

definition proctor_event_handler :: "'w services \<Rightarrow> time \<Rightarrow> id \<Rightarrow> socket \<Rightarrow> event_data \<Rightarrow> 'w \<Rightarrow> unit ack \<times> 'w" where
  "proctor_event_handler S now newid k d w = (case log_proctor_event S now newid (so_user k) d w of
     (Inr _, w1) \<Rightarrow> (Success (), w1) | (Inl _, w1) \<Rightarrow> (Failure, w1))"

definition attempt_leave :: "'w services \<Rightarrow> time \<Rightarrow> string \<Rightarrow> id \<Rightarrow> socket_server \<times> 'w \<Rightarrow> socket_server \<times> 'w" where
  "attempt_leave S now sid aid st = (case st of (srv, w) \<Rightarrow>
     (upd_socket sid (\<lambda>k. leave_room (attempt_room aid) k\<lparr> so_attempt := None \<rparr>) srv, remove_session S now aid sid w))"

definition exam_monitor_join :: "string \<Rightarrow> socket \<Rightarrow> id \<Rightarrow> socket_server \<Rightarrow> id ack \<times> socket_server" where
  "exam_monitor_join sid k eid srv =
    (if jp_role (so_user k) \<notin> {ADMIN, REVIEWER} then (Refused ''Access denied'', srv)
     else (Success eid, upd_socket sid (\<lambda>k. join_room (monitor_room eid) k\<lparr> so_monitoring := Some eid \<rparr>) srv))"

definition exam_monitor_leave :: "string \<Rightarrow> id \<Rightarrow> socket_server \<Rightarrow> socket_server" where
  "exam_monitor_leave sid eid srv = upd_socket sid (\<lambda>k. leave_room (monitor_room eid) k\<lparr> so_monitoring := None \<rparr>) srv"

text \<open>Closing the server disconnects its sockets (\<^verbatim>\<open>sids\<close>).\<close>
definition close_socket :: "'w services \<Rightarrow> time \<Rightarrow> (string \<Rightarrow> id) \<Rightarrow> string list \<Rightarrow> socket_server \<times> 'w \<Rightarrow> socket_server \<times> 'w" where
  "close_socket S now fresh sids st = (case fold (on_disconnect S now fresh) sids st of
     (srv, w) \<Rightarrow> (srv\<lparr> ss_userSockets := Map.empty \<rparr>, w))"

end
