(* ===== verification/Socket_Facts.thy ===== *)
theory Socket_Facts
  imports Socket_Server
begin

text \<open>
  What the socket server keeps: the registry of sockets by user is exact in every reachable state, so an
  eviction ends exactly the sockets that connected as the user. Two behaviours that
  are not what the code means to do: the periodic check looks at the handshake token after a
  refresh, and a save that arrives after the submission still reaches the row.
\<close>

section \<open>The registry\<close>

definition tracked :: "socket_server \<Rightarrow> id \<Rightarrow> string set" where
  "tracked srv u = (case ss_userSockets srv u of None \<Rightarrow> {} | Some l \<Rightarrow> set l)"

definition registry_ok :: "socket_server \<Rightarrow> bool" where
  "registry_ok srv = ((\<forall>u. tracked srv u = {sid. \<exists>k. ss_sockets srv sid = Some k \<and> so_tracked k = u}) \<and>
    (\<forall>u l. ss_userSockets srv u = Some l \<longrightarrow> distinct l \<and> l \<noteq> []))"

lemma tracked_track [simp]:
  "tracked (srv\<lparr> ss_sockets := s, ss_userSockets := track_user u sid (ss_userSockets srv) \<rparr>) v =
     (if v = u then insert sid (tracked srv u) else tracked srv v)"
  by (auto simp: tracked_def track_user_def Let_def split: option.splits)

lemma tracked_untrack [simp]:
  "tracked (srv\<lparr> ss_sockets := s, ss_userSockets := untrack_user u sid (ss_userSockets srv) \<rparr>) v =
     (if v = u then tracked srv u - {sid} else tracked srv v)"
proof (cases "ss_userSockets srv u")
  case (Some l)
  have "removeAll sid l = [] \<longleftrightarrow> set l - {sid} = {}" by (metis set_removeAll set_empty)
  then show ?thesis using Some by (auto simp: tracked_def untrack_user_def Let_def)
qed (auto simp: tracked_def untrack_user_def)

lemma track_lists: "\<forall>u l. m u = Some l \<longrightarrow> distinct l \<and> l \<noteq> [] \<Longrightarrow>
    \<forall>u l. track_user v sid m u = Some l \<longrightarrow> distinct l \<and> l \<noteq> []"
  by (cases "m v") (auto simp: track_user_def Let_def)

lemma untrack_lists: "\<forall>u l. m u = Some l \<longrightarrow> distinct l \<and> l \<noteq> [] \<Longrightarrow>
    \<forall>u l. untrack_user v sid m u = Some l \<longrightarrow> distinct l \<and> l \<noteq> []"
  by (auto simp: untrack_user_def Let_def distinct_removeAll split: option.splits)

lemma upd_socket_user [simp]: "ss_userSockets (upd_socket sid f srv) = ss_userSockets srv"
  by (simp add: upd_socket_def split: option.splits)

lemma upd_socket_at: "ss_sockets (upd_socket sid f srv) x = (if x = sid then map_option f (ss_sockets srv sid) else ss_sockets srv x)"
  by (auto simp: upd_socket_def split: option.splits)

lemma upd_socket_ok [simp]:
  assumes "\<And>k. so_tracked (f k) = so_tracked k" "registry_ok srv"
  shows "registry_ok (upd_socket sid f srv)"
proof -
  have "(\<exists>k. ss_sockets (upd_socket sid f srv) x = Some k \<and> so_tracked k = u) \<longleftrightarrow>
      (\<exists>k. ss_sockets srv x = Some k \<and> so_tracked k = u)" for x u
    using assms(1) by (auto simp: upd_socket_at)
  then show ?thesis using assms(2) by (simp add: registry_ok_def tracked_def)
qed

lemma tracked_rooms [simp]: "so_tracked (join_room r k) = so_tracked k" "so_tracked (leave_room r k) = so_tracked k"
  by (simp_all add: join_room_def leave_room_def)

lemma connect_ok:
  assumes "registry_ok srv" "ss_sockets srv sid = None" shows "registry_ok (snd (connect S secret now sid token srv))"
proof (cases "handshake S secret now token")
  case (Inr p)
  have t: "tracked srv u = {sid. \<exists>k. ss_sockets srv sid = Some k \<and> so_tracked k = u}" for u
    using assms(1) by (simp add: registry_ok_def)
  let ?srv = "snd (connect S secret now sid token srv)"
  have users: "ss_userSockets ?srv = track_user (jp_userId p) sid (ss_userSockets srv)" by (simp add: connect_def Inr)
  show ?thesis unfolding registry_ok_def
  proof (intro conjI allI)
    fix v
    have new: "tracked ?srv v = (if v = jp_userId p then insert sid (tracked srv v) else tracked srv v)" by (simp add: connect_def Inr)
    show "tracked ?srv v = {x. \<exists>k. ss_sockets ?srv x = Some k \<and> so_tracked k = v}"
      unfolding new t using assms(2) by (auto simp: connect_def Inr)
  next
    show "ss_userSockets ?srv u = Some l \<longrightarrow> distinct l \<and> l \<noteq> []" for u l
      unfolding users using track_lists assms(1)[unfolded registry_ok_def, THEN conjunct2] by blast
  qed
qed (use assms in \<open>simp add: connect_def\<close>)

lemma disconnect_sockets: "ss_sockets (fst (on_disconnect S now fresh sid (srv, w))) = (ss_sockets srv)(sid := None)"
  by (auto simp: on_disconnect_def split: option.splits)

lemma disconnect_ok:
  assumes "registry_ok srv" shows "registry_ok (fst (on_disconnect S now fresh sid (srv, w)))"
proof (cases "ss_sockets srv sid")
  case (Some k)
  have t: "tracked srv u = {sid. \<exists>k. ss_sockets srv sid = Some k \<and> so_tracked k = u}" for u
    using assms by (simp add: registry_ok_def)
  have l: "\<forall>u l. ss_userSockets srv u = Some l \<longrightarrow> distinct l \<and> l \<noteq> []" using assms by (simp add: registry_ok_def)
  let ?srv = "fst (on_disconnect S now fresh sid (srv, w))"
  have users: "ss_userSockets ?srv = untrack_user (so_tracked k) sid (ss_userSockets srv)" by (simp add: on_disconnect_def Some)
  show ?thesis unfolding registry_ok_def
  proof (intro conjI allI)
    fix v
    have new: "tracked ?srv v = (if v = so_tracked k then tracked srv v - {sid} else tracked srv v)" by (simp add: on_disconnect_def Some)
    show "tracked ?srv v = {x. \<exists>k. ss_sockets ?srv x = Some k \<and> so_tracked k = v}"
      unfolding new t using Some by (auto simp: disconnect_sockets)
  next
    show "ss_userSockets ?srv u = Some l \<longrightarrow> distinct l \<and> l \<noteq> []" for u l
      unfolding users using untrack_lists[OF l] by blast
  qed
qed (use assms in \<open>simp add: on_disconnect_def\<close>)

lemma expire_ok: "registry_ok srv \<Longrightarrow> registry_ok (fst (expire_socket S now fresh msg sid (srv, w)))"
  by (simp add: expire_socket_def disconnect_ok)

lemma validate_ok: "registry_ok srv \<Longrightarrow> registry_ok (fst (validate_socket S secret now fresh sid (srv, w)))"
  by (auto simp: validate_socket_def expire_ok split: option.splits sum.splits)

lemma validate_all_ok: "registry_ok (fst st) \<Longrightarrow> registry_ok (fst (validate_tokens S secret now fresh sids st))"
  unfolding validate_tokens_def
proof (induction sids arbitrary: st)
  case (Cons sid sids)
  then show ?case using validate_ok[of "fst st" S secret now fresh sid "snd st"] by simp
qed simp

lemma evict_socket_eff:
  "ss_sockets (fst (evict_socket S now fresh sid (srv, w))) = (ss_sockets srv)(sid := None)"
  "registry_ok srv \<Longrightarrow> registry_ok (fst (evict_socket S now fresh sid (srv, w)))"
  by (auto simp: evict_socket_def expire_socket_def disconnect_sockets disconnect_ok)

lemma evict_all_eff:
  "ss_sockets (fst (fold (evict_socket S now fresh) l st)) = (\<lambda>x. if x \<in> set l then None else ss_sockets (fst st) x)"
  "registry_ok (fst st) \<Longrightarrow> registry_ok (fst (fold (evict_socket S now fresh) l st))"
proof (induction l arbitrary: st)
  case (Cons sid l)
  have e: "ss_sockets (fst (evict_socket S now fresh sid st)) = (ss_sockets (fst st))(sid := None)"
    "registry_ok (fst st) \<Longrightarrow> registry_ok (fst (evict_socket S now fresh sid st))" for st
    using evict_socket_eff[where S = S and now = now and fresh = fresh and sid = sid and srv = "fst st" and w = "snd st"] by simp_all
  { case 1 show ?case unfolding fold.simps comp_apply Cons.IH(1) e(1) by (rule ext) simp }
  { case 2 then show ?case using Cons.IH(2) e(2) by simp }
qed auto

lemma eviction_ok: "registry_ok (fst st) \<Longrightarrow> registry_ok (fst (handle_eviction S now fresh d st))"
  using evict_socket_eff(2)[where S = S and now = now and fresh = fresh and srv = "fst st" and w = "snd st"]
  by (auto simp: handle_eviction_def evict_all_eff(2) split: option.splits)

text \<open>The events of the server; a new socket has a new id.\<close>
inductive server_step :: "'w services \<Rightarrow> socket_server \<times> 'w \<Rightarrow> socket_server \<times> 'w \<Rightarrow> bool" for S where
  st_connect: "ss_sockets srv sid = None \<Longrightarrow> server_step S (srv, w) (snd (connect S secret now sid token srv), w)"
| st_disconnect: "server_step S (srv, w) (on_disconnect S now fresh sid (srv, w))"
| st_refresh: "server_step S (srv, w) (snd (auth_refresh S secret now fresh sid token (srv, w)))"
| st_validate: "server_step S (srv, w) (validate_tokens S secret now fresh sids (srv, w))"
| st_message: "server_step S (srv, w) (on_message S now fresh m (srv, w))"
| st_join: "attempt_join S T now uuid sid k aid (srv, n, w) = (r, srv', n', w') \<Longrightarrow> server_step S (srv, w) (srv', w')"
| st_leave: "server_step S (srv, w) (attempt_leave S now sid aid (srv, w))"
| st_monitor: "server_step S (srv, w) (snd (exam_monitor_join sid k eid srv), w)"
| st_unmonitor: "server_step S (srv, w) (exam_monitor_leave sid eid srv, w)"
| st_world: "server_step S (srv, w) (srv, w')"

lemma server_step_ok: "server_step S st st' \<Longrightarrow> registry_ok (fst st) \<Longrightarrow> registry_ok (fst st')"
proof (induction rule: server_step.induct)
  case (st_refresh srv w secret now fresh sid token)
  then show ?case by (auto simp: auth_refresh_def disconnect_ok split: sum.splits)
next
  case (st_message srv w now fresh m)
  then show ?case by (cases m) (simp_all add: on_message_def eviction_ok)
next
  case (st_join T now uuid sid k aid srv n w r srv' n' w')
  then show ?case by (auto simp: attempt_join_def Let_def split: option.splits if_splits prod.splits bool.splits)
qed (auto simp: connect_ok disconnect_ok validate_all_ok attempt_leave_def exam_monitor_join_def exam_monitor_leave_def)

lemma server_run_ok: "(server_step S)\<^sup>*\<^sup>* st st' \<Longrightarrow> registry_ok (fst st) \<Longrightarrow> registry_ok (fst st')"
  by (induction rule: rtranclp_induct) (auto intro: server_step_ok)

definition empty_server :: socket_server where
  "empty_server = \<lparr> ss_sockets = Map.empty, ss_userSockets = Map.empty \<rparr>"

lemma empty_server_ok [simp]: "registry_ok empty_server"
  by (simp add: registry_ok_def empty_server_def tracked_def)

section \<open>Late saves\<close>

lemma session_autosave [simp]: "presence_key a sid \<noteq> autosave_key b" "autosave_key b \<noteq> presence_key a sid"
  "presence_key a sid \<noteq> autosave_dirty" "autosave_dirty \<noteq> presence_key a sid"
  by (simp_all add: presence_key_def key_simps)

context services begin

lemma activity_buffer: "buffered t (V (update_session_activity S T now a sid w)) b = buffered t (V w) b"
  "w_attempts (V (update_session_activity S T now a sid w)) = w_attempts (V w)"
proof -
  have "ks_get t (ks_set now (presence_key a sid) p ttl ks) (autosave_key b) = ks_get t ks (autosave_key b)" for p ttl ks
    by (rule ks_get_frame) simp
  then show "buffered t (V (update_session_activity S T now a sid w)) b = buffered t (V w) b"
    by (auto simp: update_session_activity_def buffered_def split: option.splits payload.splits)
  show "w_attempts (V (update_session_activity S T now a sid w)) = w_attempts (V w)"
    by (auto simp: update_session_activity_def split: option.splits payload.splits)
qed

lemma code_save_buffer:
  assumes "so_attempt k = Some aid" "aid \<noteq> ''dirty''" "t < now + 1000 * autosave_ttl"
  shows "fst (code_save S T now sid k aid fs w) = Success now"
    "buffered t (V (snd (code_save S T now sid k aid fs w))) aid = Some fs"
    "w_attempts (V (snd (code_save S T now sid k aid fs w))) = w_attempts (V w)"
  using assms by (simp_all add: code_save_def activity_buffer) (simp add: buffered_def ks_get_def)

lemma late_save:
  assumes "so_attempt k = Some aid" "aid \<noteq> ''dirty''" "t < now + 1000 * autosave_ttl" "w_attempts (V w) aid = Some a"
  shows "w_attempts (V (snd (flush_to_database S t aid (snd (code_save S T now sid k aid fs w))))) =
    (w_attempts (V w))(aid \<mapsto> a\<lparr> a_files := Some fs \<rparr>)"
  using code_save_buffer(2,3)[OF assms(1-3), of T sid fs w] assms(4) by (auto simp: flushed_row fun_eq_iff)

end

section \<open>Properties\<close>

text \<open>C31: Logging out everywhere ends exactly the sockets of the user: in every state the server reaches from its
  start, an eviction message for a user disconnects all sockets that connected as that user and no other
  socket, and forgets the user. (A socket that has since refreshed to a token of another user counts
  for the user it connected as.)\<close>
theorem eviction_ends_user_sockets:
  assumes "(server_step S)\<^sup>*\<^sup>* (empty_server, w0) (srv, w)" "u \<noteq> []"
    "handle_eviction S now fresh \<lparr> ev_userId = Some u, ev_socketId = None \<rparr> (srv, w) = (srv', w')"
  shows "(\<forall>sid. ss_sockets srv' sid = (case ss_sockets srv sid of None \<Rightarrow> None | Some k \<Rightarrow> if so_tracked k = u then None else Some k))
    \<and> ss_userSockets srv' u = None"
proof -
  have ok: "registry_ok srv" using server_run_ok[OF assms(1)] by simp
  have srv': "srv' = fst (fold (evict_socket S now fresh) (or_default (ss_userSockets srv u) []) (srv, w))"
    using assms(2,3) by (simp add: handle_eviction_def str_opt_def truthy_str_def)
  have members: "sid \<in> set (or_default (ss_userSockets srv u) []) \<longleftrightarrow> (\<exists>k. ss_sockets srv sid = Some k \<and> so_tracked k = u)" for sid
  proof -
    have "set (or_default (ss_userSockets srv u) []) = tracked srv u" by (simp add: tracked_def or_default_def split: option.splits)
    then show ?thesis using ok by (simp add: registry_ok_def)
  qed
  have sockets: "ss_sockets srv' sid = (case ss_sockets srv sid of None \<Rightarrow> None | Some k \<Rightarrow> if so_tracked k = u then None else Some k)" for sid
    unfolding srv' evict_all_eff(1) members by (simp split: option.splits)
  have ok': "registry_ok srv'" unfolding srv' by (rule evict_all_eff(2)) (simp add: ok)
  then have "tracked srv' u = {}" using sockets by (auto simp: registry_ok_def split: option.splits if_splits)
  moreover have "\<forall>l. ss_userSockets srv' u = Some l \<longrightarrow> l \<noteq> []" using ok' by (simp add: registry_ok_def)
  ultimately have "ss_userSockets srv' u = None" by (cases "ss_userSockets srv' u") (auto simp: tracked_def)
  then show ?thesis using sockets by blast
qed

text \<open>Refreshing the token of a socket does not keep it alive: although the new token is valid, the first
  periodic check after five minutes that finds the token of the handshake expired disconnects the socket.\<close>
theorem refreshed_socket_evicted:
  assumes "ss_sockets srv sid = Some k" "verify_token S secret now (so_token k) = Inl e" "verify_token S secret r new = Inr p"
    "auth_refresh S secret r fresh sid new (srv, w) = (ack, srv1, w1)" "r + token_check_interval \<le> now"
  shows "ack = Success () \<and> (\<exists>k1. ss_sockets srv1 sid = Some k1 \<and> so_user k1 = p)
    \<and> ss_sockets (fst (validate_tokens S secret now fresh [sid] (srv1, w1))) sid = None"
proof -
  have srv1: "ack = Success ()" "srv1 = upd_socket sid (\<lambda>k. k\<lparr> so_user := p, so_checkedAt := Some r \<rparr>) srv"
    using assms(3,4) by (simp_all add: auth_refresh_def)
  have k1: "ss_sockets srv1 sid = Some (k\<lparr> so_user := p, so_checkedAt := Some r \<rparr>)"
    using assms(1) by (simp add: srv1(2) upd_socket_at)
  have "ss_sockets (fst (validate_socket S secret now fresh sid (srv1, w1))) sid = None"
    using assms(2,5) by (simp add: validate_socket_def k1 expire_socket_def disconnect_sockets)
  then show ?thesis using srv1(1) k1 by (simp add: validate_tokens_def)
qed

text \<open>C40: A save that a socket sends after the submission is accepted and replaces what the row says was submitted: the
  next flush writes the new files into the attempt under grading, while the grading job keeps the files
  of the submission.\<close>
theorem save_after_submission_overwrites:
  assumes "services S V" "w_attempts (V w) aid = Some a" "a_candidateId a = jp_userId u"
    "a_status a = IN_PROGRESS" "challenge_of (V w) a = Some c" "aid \<noteq> ''dirty''"
    "stream_key now (w_ks (V w)) stream_high"
    "submit_attempt S now uuid u aid (Some (Some fs)) (n, w) = (r, n', w')"
    "so_attempt k = Some aid" "code_save S T t sid k aid late w' = (ack, w1)"
    "t' < t + 1000 * autosave_ttl" "flush_to_database S t' aid w1 = (b, w2)"
  shows "ack = Success t \<and> w_attempts (V w2) aid = Some ((submitted_row now fs a)\<lparr> a_files := Some late \<rparr>)
    \<and> full_job aid fs c \<in> set (queue_jobs now (V w') stream_high)"
proof -
  have fs: "final_files now (V w) (Some fs) a = fs" by (simp add: final_files_def or_else_def)
  note s = services.submit_success[OF assms(1-8)]
  have row: "w_attempts (V w') aid = Some (submitted_row now fs a)" using s(2) fs by simp
  have "ack = Success t" using services.code_save_buffer(1)[OF assms(1,9,6,11), of T sid late w'] assms(10) by simp
  moreover have "w_attempts (V w2) aid = Some ((submitted_row now fs a)\<lparr> a_files := Some late \<rparr>)"
    using services.late_save[OF assms(1,9,6,11) row, of T sid late] assms(10,12) by simp
  ultimately show ?thesis using s(3) fs by simp
qed

section \<open>Witnesses\<close>

definition demo_token :: "time \<Rightarrow> string" where
  "demo_token now = generate_token ref_services ''s1'' now demo_candidate"

lemma demo_token_verify: "verify_token ref_services ''s1'' now (demo_token iat) =
    (if now div 1000 < iat div 1000 + 604800 then Inr demo_candidate else Inl TokenExpired)"
  by (simp add: verify_token_def demo_token_def generate_token_def ref.jwt_verify_sign)

lemma demo_token_ne: "demo_token iat \<noteq> []"
  by (simp add: demo_token_def generate_token_def ref_services_def ref_sign_def enc_fields_def)

definition one_socket :: socket_server where
  "one_socket = snd (connect ref_services ''s1'' 1000 ''k1'' (Some (demo_token 1000)) empty_server)"

lemma one_socket_at: "ss_sockets one_socket ''k1'' = Some \<lparr> so_user = demo_candidate, so_tracked = ''u1'', so_token = demo_token 1000,
    so_checkedAt = Some 1000, so_attempt = None, so_monitoring = None, so_rooms = [''k1''] \<rparr>"
  by (simp add: one_socket_def connect_def handshake_def str_opt_def truthy_str_def demo_token_ne demo_token_verify)

theorem eviction_witness:
  "\<exists>srv' w'. ss_sockets one_socket ''k1'' \<noteq> None
    \<and> handle_eviction ref_services 2000 (\<lambda>_. ''p1'') \<lparr> ev_userId = Some ''u1'', ev_socketId = None \<rparr> (one_socket, demo_world) = (srv', w')
    \<and> ss_sockets srv' ''k1'' = None"
proof -
  obtain srv' w' where run: "handle_eviction ref_services 2000 (\<lambda>_. ''p1'') \<lparr> ev_userId = Some ''u1'', ev_socketId = None \<rparr> (one_socket, demo_world) = (srv', w')"
    by force
  have "server_step ref_services (empty_server, demo_world) (one_socket, demo_world)"
    unfolding one_socket_def by (rule st_connect) (simp add: empty_server_def)
  then have "(server_step ref_services)\<^sup>*\<^sup>* (empty_server, demo_world) (one_socket, demo_world)" by (rule r_into_rtranclp)
  then show ?thesis using eviction_ends_user_sockets[OF _ _ run] run one_socket_at by auto
qed

theorem refreshed_socket_witness:
  "\<exists>ack srv1 w1. auth_refresh ref_services ''s1'' 604000000 (\<lambda>_. ''p1'') ''k1'' (demo_token 603000000) (one_socket, demo_world) = (ack, srv1, w1)
    \<and> verify_token ref_services ''s1'' 605800000 (demo_token 603000000) = Inr demo_candidate
    \<and> ss_sockets (fst (validate_tokens ref_services ''s1'' 605800000 (\<lambda>_. ''p1'') [''k1''] (srv1, w1))) ''k1'' = None"
proof -
  obtain ack srv1 w1 where run: "auth_refresh ref_services ''s1'' 604000000 (\<lambda>_. ''p1'') ''k1'' (demo_token 603000000) (one_socket, demo_world) = (ack, srv1, w1)"
    by (cases "auth_refresh ref_services ''s1'' 604000000 (\<lambda>_. ''p1'') ''k1'' (demo_token 603000000) (one_socket, demo_world)") auto
  show ?thesis
    using refreshed_socket_evicted[OF one_socket_at _ _ run, of 605800000 TokenExpired demo_candidate] run
    by (simp add: demo_token_verify token_check_interval_def)
qed

theorem late_save_witness:
  "\<exists>n' w' ack w1 b w2. submit_attempt ref_services 5000 ''y'' demo_candidate ''a1'' (Some (Some [(''app.js'', ''2'')])) demo_node =
      (Inr (create_job_id ''a1'' 5000 ''y''), n', w')
    \<and> code_save ref_services 600 6000 ''k1'' (the (ss_sockets one_socket ''k1'')\<lparr> so_attempt := Some ''a1'' \<rparr>) ''a1'' [(''app.js'', ''3'')] w' = (ack, w1)
    \<and> flush_to_database ref_services 7000 ''a1'' w1 = (b, w2)
    \<and> map_option a_files (w_attempts (ref_view w2) ''a1'') = Some (Some [(''app.js'', ''3'')])"
proof -
  let ?k = "the (ss_sockets one_socket ''k1'')\<lparr> so_attempt := Some ''a1'' \<rparr>"
  obtain r n' w' where run: "submit_attempt ref_services 5000 ''y'' demo_candidate ''a1'' (Some (Some [(''app.js'', ''2'')])) (fst demo_node, demo_world) = (r, n', w')"
    by (cases "submit_attempt ref_services 5000 ''y'' demo_candidate ''a1'' (Some (Some [(''app.js'', ''2'')])) (fst demo_node, demo_world)") auto
  obtain ack w1 where save: "code_save ref_services 600 6000 ''k1'' ?k ''a1'' [(''app.js'', ''3'')] w' = (ack, w1)" by force
  obtain b w2 where flush: "flush_to_database ref_services 7000 ''a1'' w1 = (b, w2)" by force
  have "r = Inr (create_job_id ''a1'' 5000 ''y'')"
    using services.submit_success(1)[OF ref.services_axioms _ _ _ _ _ _ run, of demo_attempt demo_challenge] by (simp add: stream_key_def)
  moreover have "w_attempts (ref_view w2) ''a1'' = Some ((submitted_row 5000 [(''app.js'', ''2'')] demo_attempt)\<lparr> a_files := Some [(''app.js'', ''3'')] \<rparr>)"
    using save_after_submission_overwrites[OF ref.services_axioms _ _ _ _ _ _ run _ save _ flush, of demo_attempt demo_challenge]
    by (simp add: stream_key_def autosave_ttl_def)
  ultimately show ?thesis using run save flush by (auto simp: demo_node_def)
qed

section \<open>The lock of the test runs\<close>

context services begin

lemma run_tests_entry:
  assumes "run_tests S now uuid u aid (n, w) = (Inr jid, (n', w'))"
  shows "ks_live t (w_ks (V w')) (grading_lock_key aid) = (if t < now + 90000 then Some (RStr (Num now), Some (now + 90000)) else None)"
proof -
  obtain a c where ac: "w_attempts (V w) aid = Some a" "a_candidateId a = jp_userId u" "a_status a = IN_PROGRESS"
    "challenge_of (V w) a = Some c" "\<not> ks_exists now (w_ks (V w)) (grading_lock_key aid)"
    by (rule run_tests_success_cases[OF assms])
  show ?thesis using run_tests_world[OF ac, of uuid n] assms by auto
qed

lemma grading_complete_lock:
  "w_ks (V (handle_grading_complete S aid r preview w)) =
    (if preview then ks_del (grading_lock_key aid) (w_ks (V w)) else w_ks (V w))"
  "w_attempts (V (handle_grading_complete S aid r preview w)) = w_attempts (V w)"
  "w_exams (V (handle_grading_complete S aid r preview w)) = w_exams (V w)"
  "w_challenges (V (handle_grading_complete S aid r preview w)) = w_challenges (V w)"
  by (simp_all add: handle_grading_complete_def Let_def)

end

text \<open>C11: Test runs of one attempt exclude each other until the preview is done. A run that is queued leaves a lock, and
  in every later world where the entry of the lock is still the same, by whatever operations that world came about, every run of the attempt within
  ninety seconds of the first answers 429 and changes nothing, on any instance, while after ninety seconds the lock is free. The message of
  the grader that a final grading of the attempt is complete leaves the lock; the message that a preview is complete frees it, so that from then on a run of
  the candidate, with the attempt in progress and its challenge in place, is queued again.\<close>
theorem run_tests_exclusive:
  assumes "services S V" "run_tests S now uuid u aid (n, w) = (Inr jid, (n', w'))"
    "w_ks (V w1) (grading_lock_key aid) = w_ks (V w') (grading_lock_key aid)"
  shows "(if t < now + 90000
      then fst (run_tests S t uuid' u' aid (n1, w1)) = api_error ''Tests are already running for this attempt. Please wait...'' 429
        \<and> V (snd (snd (run_tests S t uuid' u' aid (n1, w1)))) = V w1
      else \<not> ks_exists t (w_ks (V w1)) (grading_lock_key aid))
    \<and> w_ks (V (handle_grading_complete S aid r False w1)) (grading_lock_key aid) = w_ks (V w') (grading_lock_key aid)
    \<and> (\<forall>a c. w_attempts (V w1) aid = Some a \<and> a_status a = IN_PROGRESS \<and> challenge_of (V w1) a = Some c
        \<and> a_candidateId a = jp_userId u' \<longrightarrow>
        fst (run_tests S t uuid' u' aid (n1, handle_grading_complete S aid r True w1)) = Inr (create_job_id aid t uuid'))"
proof (intro conjI allI impI)
  have l: "ks_live t (w_ks (V w1)) (grading_lock_key aid) = (if t < now + 90000 then Some (RStr (Num now), Some (now + 90000)) else None)"
    using live_of_entry[of "w_ks (V w1)" "grading_lock_key aid" "w_ks (V w')" t] assms(3) services.run_tests_entry[OF assms(1,2), of t] by simp
  show "if t < now + 90000
      then fst (run_tests S t uuid' u' aid (n1, w1)) = api_error ''Tests are already running for this attempt. Please wait...'' 429
        \<and> V (snd (snd (run_tests S t uuid' u' aid (n1, w1)))) = V w1
      else \<not> ks_exists t (w_ks (V w1)) (grading_lock_key aid)"
  proof (cases "t < now + 90000")
    case True
    then have "ks_exists t (w_ks (V w1)) (grading_lock_key aid)" using l by (simp add: ks_exists_def)
    then show ?thesis using True services.run_tests_locked_out[OF assms(1)] by simp
  qed (use l in \<open>simp add: ks_exists_def\<close>)
  show "w_ks (V (handle_grading_complete S aid r False w1)) (grading_lock_key aid) = w_ks (V w') (grading_lock_key aid)"
    using assms(3) by (simp add: services.grading_complete_lock[OF assms(1)])
  fix a c assume a: "w_attempts (V w1) aid = Some a \<and> a_status a = IN_PROGRESS \<and> challenge_of (V w1) a = Some c
        \<and> a_candidateId a = jp_userId u'"
  let ?w = "handle_grading_complete S aid r True w1"
  have "w_attempts (V ?w) aid = Some a" "challenge_of (V ?w) a = Some c" "\<not> ks_exists t (w_ks (V ?w)) (grading_lock_key aid)"
    using a by (simp_all add: services.grading_complete_lock[OF assms(1)] challenge_of_def ks_exists_def cong: option.case_cong)
  then show "fst (run_tests S t uuid' u' aid (n1, ?w)) = Inr (create_job_id aid t uuid')"
    using a services.run_tests_world[OF assms(1), of ?w aid a u' c t uuid' n1] by auto
qed

theorem run_tests_exclusive_witness:
  "\<exists>st. run_tests ref_services 5000 ''y'' demo_candidate ''a1'' demo_node = (Inr (create_job_id ''a1'' 5000 ''y''), st)
     \<and> fst (run_tests ref_services 6000 ''z'' demo_candidate ''a1'' st) =
         api_error ''Tests are already running for this attempt. Please wait...'' 429"
proof -
  obtain init w' where run: "run_tests ref_services 5000 ''y'' demo_candidate ''a1'' (fst demo_node, demo_world) =
      (Inr (create_job_id ''a1'' 5000 ''y''), ((fst demo_node)\<lparr> n_streams := init \<rparr>, w'))"
    using demo_run_tests by blast
  have node: "demo_node = (fst demo_node, demo_world)" by (simp add: demo_node_def)
  show ?thesis
    using run_tests_exclusive[OF ref.services_axioms run refl, of 6000] run by (subst node) auto
qed

end
