(* ===== verification/Reports.thy ===== *)
theory Reports
  imports Challenge_Routes Demo_World
begin

text \<open>
  \<^verbatim>\<open>apps/api/src/routes/reports.ts\<close>: the listings, statistics and charts of the
  attempts. Scores are computed with doubles: the argument \<^verbatim>\<open>fl\<close> rounds a number to
  the nearest double. Its documented properties, the locale \<^verbatim>\<open>ieee\<close>, are that it is
  monotone and exact on the whole numbers below 2 to the 53rd. Missing totals and scores count as 0.
\<close>

section \<open>Scores\<close>

definition nz :: "int option \<Rightarrow> int" where "nz x = or_default x 0"

definition total_tests :: "attempt \<Rightarrow> int" where "total_tests a = nz (a_totalPublic a) + nz (a_totalHidden a)"
definition passed_tests :: "attempt \<Rightarrow> int" where "passed_tests a = nz (a_publicScore a) + nz (a_hiddenScore a)"

definition js_round :: "rat \<Rightarrow> int" where "js_round x = \<lfloor>x + 1 / 2\<rfloor>"

text \<open>\<^verbatim>\<open>(passed / total) * 100\<close>.\<close>
definition percent :: "(rat \<Rightarrow> rat) \<Rightarrow> attempt \<Rightarrow> rat" where
  "percent fl a = fl (fl (of_int (passed_tests a) / of_int (total_tests a)) * 100)"

locale ieee =
  fixes fl :: "rat \<Rightarrow> rat"
  assumes fl_mono: "x \<le> y \<Longrightarrow> fl x \<le> fl y"
    and fl_int: "\<bar>n\<bar> < 2 ^ 53 \<Longrightarrow> fl (of_int n) = of_int n"
begin

lemma fl_between: "\<bar>m\<bar> < 2 ^ 53 \<Longrightarrow> \<bar>n\<bar> < 2 ^ 53 \<Longrightarrow> of_int m \<le> x \<Longrightarrow> x \<le> of_int n \<Longrightarrow> of_int m \<le> fl x \<and> fl x \<le> of_int n"
  using fl_mono[of "of_int m" x] fl_mono[of x "of_int n"] fl_int[of m] fl_int[of n] by simp

text \<open>A score between none and all of the tests gives a percentage between 0 and 100.\<close>
lemma percent_bounds:
  assumes "0 \<le> passed_tests a" "passed_tests a \<le> total_tests a" "0 < total_tests a"
  shows "0 \<le> js_round (percent fl a)" "js_round (percent fl a) \<le> 100"
proof -
  have q: "0 \<le> (of_int (passed_tests a) / of_int (total_tests a) :: rat)" "(of_int (passed_tests a) / of_int (total_tests a) :: rat) \<le> 1"
    using assms by simp_all
  have "0 \<le> fl (of_int (passed_tests a) / of_int (total_tests a)) \<and> fl (of_int (passed_tests a) / of_int (total_tests a)) \<le> 1"
    using fl_between[of 0 1] q by simp
  then have "0 \<le> percent fl a \<and> percent fl a \<le> 100"
    using fl_between[of 0 100 "fl (of_int (passed_tests a) / of_int (total_tests a)) * 100"] by (simp add: percent_def)
  then show "0 \<le> js_round (percent fl a)" "js_round (percent fl a) \<le> 100"
    by (simp_all add: js_round_def floor_le_iff le_floor_iff)
qed

lemma percent_all: "passed_tests a = total_tests a \<Longrightarrow> total_tests a \<noteq> 0 \<Longrightarrow> js_round (percent fl a) = 100"
  using fl_int[of 1] fl_int[of 100] by (simp add: percent_def js_round_def) linarith

lemma percent_none: "passed_tests a = 0 \<Longrightarrow> js_round (percent fl a) = 0"
  using fl_int[of 0] by (simp add: percent_def js_round_def floor_eq_iff)

end

interpretation exact: ieee "\<lambda>x. x"
  by unfold_locales simp_all

section \<open>GET /attempts\<close>

record report_row =
  rr_attempt :: attempt
  rr_candidate :: "user option"
  rr_exam :: "exam option"
  rr_challengeName :: "string option"
  rr_percentage :: "int option"
  rr_flags :: int

fun status_of_name :: "string \<Rightarrow> attempt_status option" where
  "status_of_name s = (if s = ''IN_PROGRESS'' then Some IN_PROGRESS else if s = ''SUBMITTED'' then Some SUBMITTED
     else if s = ''GRADING'' then Some GRADING else if s = ''COMPLETED'' then Some COMPLETED
     else if s = ''FAILED'' then Some FAILED else None)"

text \<open>Rows without a submission time come last, and first when descending, as nulls do.\<close>
definition order_attempts :: "string option \<Rightarrow> string option \<Rightarrow> attempt list \<Rightarrow> attempt list" where
  "order_attempts qsort qorder rs = (let asc = (qorder = Some ''asc'') in
     if qsort = Some ''status'' then order_rows a_status asc rs
     else if qsort = Some ''submittedAt''
     then (let present = order_rows (\<lambda>a. the (a_submittedAt a)) asc (filter (\<lambda>a. a_submittedAt a \<noteq> None) rs);
               missing = filter (\<lambda>a. a_submittedAt a = None) rs
           in if asc then present @ missing else missing @ present)
     else order_rows a_startedAt asc rs)"

definition row_matches :: "string \<Rightarrow> user option \<Rightarrow> exam option \<Rightarrow> bool" where
  "row_matches lower c e = (let has = (\<lambda>s. str_includes (str_lower s) lower) in
     has (case c of None \<Rightarrow> [] | Some u \<Rightarrow> or_default (u_name u) []) \<or> has (case c of None \<Rightarrow> [] | Some u \<Rightarrow> u_email u)
     \<or> has (case e of None \<Rightarrow> [] | Some x \<Rightarrow> e_title x))"

definition attempt_row :: "(rat \<Rightarrow> rat) \<Rightarrow> 'w services \<Rightarrow> 'w \<Rightarrow> attempt \<Rightarrow> report_row" where
  "attempt_row fl S w a = (let e = find_exam S (a_examId a) w in
     \<lparr> rr_attempt = a, rr_candidate = find_user S (a_candidateId a) w, rr_exam = e,
       rr_challengeName = Option.bind e (\<lambda>e. map_option c_name (find_challenge S (e_challengeId e) w)),
       rr_percentage = (if 0 < total_tests a then Some (js_round (percent fl a)) else None),
       rr_flags = a_tabExits a + a_fullscreenExits a + a_pasteAttempts a \<rparr>)"

definition report_attempts ::
  "(rat \<Rightarrow> rat) \<Rightarrow> 'w services \<Rightarrow> string option \<Rightarrow> string option \<Rightarrow> string option \<Rightarrow> string option \<Rightarrow> string option \<Rightarrow>
   string option \<Rightarrow> string option \<Rightarrow> 'w \<Rightarrow> report_row page" where
  "report_attempts fl S qpage qlimit qsearch qstatus qexam qsort qorder w =
    (let status = Option.bind (str_opt qstatus) status_of_name; eid = str_opt qexam;
         rows = order_attempts qsort qorder (t_select (sv_attempts S)
           (\<lambda>a. (case status of None \<Rightarrow> True | Some s \<Rightarrow> a_status a = s) \<and> (case eid of None \<Rightarrow> True | Some e \<Rightarrow> a_examId a = e)) w);
         search = str_trim (or_default qsearch []);
         found = (if search = [] then rows
           else filter (\<lambda>a. row_matches (str_lower search) (find_user S (a_candidateId a) w) (find_exam S (a_examId a) w)) rows)
     in make_page qpage qlimit (map (attempt_row fl S w) found))"

section \<open>GET /exam/:examId\<close>

record exam_stats =
  es_totalAttempts :: nat
  es_completedAttempts :: nat
  es_passedAttempts :: nat
  es_passRate :: "rat option"
  es_averageScore :: "rat option"

definition passes :: "(rat \<Rightarrow> rat) \<Rightarrow> exam \<Rightarrow> attempt \<Rightarrow> bool" where
  "passes fl e a = (a_totalPublic a \<noteq> None \<and> a_totalHidden a \<noteq> None \<and> 0 < total_tests a \<and>
     e_passThreshold e \<le> fl (of_int (passed_tests a) / of_int (total_tests a)))"

text \<open>\<^verbatim>\<open>Math.round(x * 10) / 10\<close>.\<close>
definition one_decimal :: "(rat \<Rightarrow> rat) \<Rightarrow> rat \<Rightarrow> rat" where
  "one_decimal fl x = fl (of_int (js_round (fl (x * 10))) / 10)"

definition exam_statistics :: "(rat \<Rightarrow> rat) \<Rightarrow> exam \<Rightarrow> attempt list \<Rightarrow> exam_stats" where
  "exam_statistics fl e rows =
    (let done = filter (\<lambda>a. a_status a = COMPLETED) rows; ok = filter (passes fl e) done;
         n = length done;
         rate = fl (fl (of_nat (length ok) / of_nat n) * 100);
         sum = foldl (\<lambda>s a. fl (s + (if 0 < total_tests a then percent fl a else 0))) 0 done
     in \<lparr> es_totalAttempts = length rows, es_completedAttempts = n, es_passedAttempts = length ok,
          es_passRate = (if 0 < n then Some (one_decimal fl rate) else None),
          es_averageScore = (if 0 < n then Some (one_decimal fl (fl (sum / of_nat n))) else None) \<rparr>)"

definition score_text :: "int option \<Rightarrow> int option \<Rightarrow> string" where
  "score_text s t = str_of_int (nz s) @ ''/'' @ str_of_int (nz t)"

definition total_text :: "attempt \<Rightarrow> string" where
  "total_text a = (if a_totalPublic a \<noteq> None \<and> a_totalHidden a \<noteq> None
     then str_of_int (passed_tests a) @ ''/'' @ str_of_int (total_tests a) else ''Pending'')"

record exam_report_row =
  xt_attempt :: attempt
  xt_candidate :: "user option"
  xt_public :: string
  xt_hidden :: string
  xt_total :: string

definition exam_report ::
  "(rat \<Rightarrow> rat) \<Rightarrow> 'w services \<Rightarrow> id \<Rightarrow> 'w \<Rightarrow> (exam \<times> string option \<times> exam_stats \<times> exam_report_row list) result" where
  "exam_report fl S eid w = (case find_exam S eid w of
     None \<Rightarrow> api_error ''Exam not found'' 404
   | Some e \<Rightarrow>
      (let rows = order_attempts (Some ''submittedAt'') None (t_select (sv_attempts S) (\<lambda>a. a_examId a = eid) w)
       in Inr (e, map_option c_name (find_challenge S (e_challengeId e) w), exam_statistics fl e rows,
            map (\<lambda>a. \<lparr> xt_attempt = a, xt_candidate = find_user S (a_candidateId a) w,
               xt_public = score_text (a_publicScore a) (a_totalPublic a),
               xt_hidden = score_text (a_hiddenScore a) (a_totalHidden a), xt_total = total_text a \<rparr>) rows)))"

section \<open>GET /attempt/:attemptId\<close>

text \<open>Minutes, rounded; a time of 0 counts as missing.\<close>
definition time_spent :: "attempt \<Rightarrow> int option" where
  "time_spent a = (case a_submittedAt a of None \<Rightarrow> None
     | Some t \<Rightarrow> Some (round_div (t - a_startedAt a) 60000))"

record attempt_report =
  ar_attempt :: attempt
  ar_candidate :: "user option"
  ar_exam :: "exam option"
  ar_challengeName :: "string option"
  ar_timeSpentMinutes :: "int option"
  ar_proctorEvents :: "proctor_event list"

definition attempt_report_route :: "'w services \<Rightarrow> id \<Rightarrow> 'w \<Rightarrow> attempt_report result" where
  "attempt_report_route S aid w = (case find_attempt S aid w of
     None \<Rightarrow> api_error ''Attempt not found'' 404
   | Some a \<Rightarrow> (let e = find_exam S (a_examId a) w in
       Inr \<lparr> ar_attempt = a, ar_candidate = find_user S (a_candidateId a) w, ar_exam = e,
         ar_challengeName = Option.bind e (\<lambda>e. map_option c_name (find_challenge S (e_challengeId e) w)),
         ar_timeSpentMinutes = time_spent a,
         ar_proctorEvents = sort_key p_timestamp (t_select (sv_events S) (\<lambda>p. p_attemptId p = aid) w) \<rparr>))"

section \<open>GET /dashboard\<close>

record dashboard =
  da_totalExams :: nat
  da_totalAttempts :: nat
  da_totalCandidates :: nat
  da_recent :: "(attempt \<times> string option \<times> string option) list"

definition dashboard_route :: "'w services \<Rightarrow> 'w \<Rightarrow> dashboard" where
  "dashboard_route S w =
    \<lparr> da_totalExams = length (t_select (sv_exams S) (\<lambda>_. True) w),
      da_totalAttempts = length (t_select (sv_attempts S) (\<lambda>_. True) w),
      da_totalCandidates = length (t_select (sv_users S) (\<lambda>u. u_role u = CANDIDATE) w),
      da_recent = map (\<lambda>a. (a, map_option (\<lambda>u. or_default (str_opt (u_name u)) (u_email u)) (find_user S (a_candidateId a) w),
          map_option e_title (find_exam S (a_examId a) w)))
        (take 10 (order_rows a_startedAt False (t_select (sv_attempts S) (\<lambda>_. True) w))) \<rparr>"

section \<open>GET /analytics\<close>

record scored =
  pf_attemptId :: id
  pf_name :: string
  pf_email :: string
  pf_pct :: int
  pf_examTitle :: string

record analytics =
  an_buckets :: "nat list"
  an_pass :: nat
  an_fail :: nat
  an_pending :: nat
  an_scored :: "scored list"

definition bucket_of :: "int \<Rightarrow> int" where
  "bucket_of pct = min 9 (pct div 10)"

text \<open>The loop body. A negative bucket would be a new property of the array; it is not counted.\<close>
definition analyse :: "(rat \<Rightarrow> rat) \<Rightarrow> (attempt \<Rightarrow> user option) \<Rightarrow> (attempt \<Rightarrow> exam option) \<Rightarrow> attempt \<Rightarrow> analytics \<Rightarrow> analytics" where
  "analyse fl candidate examOf a r =
    (if total_tests a = 0 \<or> a_status a = IN_PROGRESS then r\<lparr> an_pending := an_pending r + 1 \<rparr>
     else (let pct = js_round (percent fl a); b = bucket_of pct;
               s = \<lparr> pf_attemptId = a_id a, pf_name = or_default (str_opt (Option.bind (candidate a) u_name)) ''Unnamed'',
                     pf_email = (case candidate a of None \<Rightarrow> [] | Some u \<Rightarrow> u_email u), pf_pct = pct,
                     pf_examTitle = (case examOf a of None \<Rightarrow> [] | Some e \<Rightarrow> e_title e) \<rparr>
           in r\<lparr> an_buckets := (if 0 \<le> b then (an_buckets r)[nat b := an_buckets r ! nat b + 1] else an_buckets r),
                 an_pass := (if 50 \<le> pct then an_pass r + 1 else an_pass r),
                 an_fail := (if 50 \<le> pct then an_fail r else an_fail r + 1),
                 an_scored := an_scored r @ [s] \<rparr>))"

definition empty_analytics :: analytics where
  "empty_analytics = \<lparr> an_buckets = replicate 10 0, an_pass = 0, an_fail = 0, an_pending = 0, an_scored = [] \<rparr>"

definition analyse_all ::
  "(rat \<Rightarrow> rat) \<Rightarrow> (attempt \<Rightarrow> user option) \<Rightarrow> (attempt \<Rightarrow> exam option) \<Rightarrow> attempt list \<Rightarrow> analytics" where
  "analyse_all fl candidate examOf rows = fold (analyse fl candidate examOf) rows empty_analytics"

definition day_of :: "time \<Rightarrow> string" where
  "day_of t = hd (str_split CHR ''T'' (iso_string t))"

text \<open>The last 30 days, oldest first, on a server that runs in UTC.\<close>
definition daily_attempts :: "time \<Rightarrow> attempt list \<Rightarrow> (string \<times> nat) list" where
  "daily_attempts now rows =
    map (\<lambda>i. let d = day_of (now - int i * 86400000) in (d, length (filter (\<lambda>a. day_of (a_startedAt a) = d) rows))) (rev [0..<30])"

definition top_performers :: "scored list \<Rightarrow> scored list" where
  "top_performers l = take 10 (sort_key (\<lambda>s. - pf_pct s) l)"

record analytics_answer =
  aw_scoreDistribution :: "nat list"
  aw_pass :: nat
  aw_fail :: nat
  aw_pending :: nat
  aw_dailyAttempts :: "(string \<times> nat) list"
  aw_topPerformers :: "scored list"
  aw_totalAttempts :: nat
  aw_exams :: "(id \<times> string) list"

definition analytics_route :: "(rat \<Rightarrow> rat) \<Rightarrow> 'w services \<Rightarrow> time \<Rightarrow> string option \<Rightarrow> 'w \<Rightarrow> analytics_answer" where
  "analytics_route fl S now qexam w =
    (let rows = order_rows a_startedAt False (t_select (sv_attempts S)
           (\<lambda>a. case str_opt qexam of None \<Rightarrow> True | Some e \<Rightarrow> a_examId a = e) w);
         r = analyse_all fl (\<lambda>a. find_user S (a_candidateId a) w) (\<lambda>a. find_exam S (a_examId a) w) rows
     in \<lparr> aw_scoreDistribution = an_buckets r, aw_pass = an_pass r, aw_fail = an_fail r, aw_pending = an_pending r,
          aw_dailyAttempts = daily_attempts now rows, aw_topPerformers = top_performers (an_scored r),
          aw_totalAttempts = length rows,
          aw_exams = map (\<lambda>e. (e_id e, e_title e)) (order_rows e_createdAt False (t_select (sv_exams S) (\<lambda>_. True) w)) \<rparr>)"

section \<open>The property\<close>

definition scored_row :: "attempt \<Rightarrow> bool" where
  "scored_row a = (total_tests a \<noteq> 0 \<and> a_status a \<noteq> IN_PROGRESS)"

definition pct_of :: "(rat \<Rightarrow> rat) \<Rightarrow> attempt \<Rightarrow> int" where
  "pct_of fl a = js_round (percent fl a)"

definition count_if :: "('a \<Rightarrow> bool) \<Rightarrow> 'a list \<Rightarrow> nat" where
  "count_if P xs = length (filter P xs)"

lemma count_if_simps [simp]: "count_if P [] = 0" "count_if P (xs @ [x]) = count_if P xs + (if P x then 1 else 0)"
  by (simp_all add: count_if_def)

lemma count_if_sum: "count_if P xs = count_if (\<lambda>x. P x \<and> Q x) xs + count_if (\<lambda>x. P x \<and> \<not> Q x) xs"
  by (induction xs) (auto simp: count_if_def)

text \<open>Scores are numbers of tests: between none and all of them.\<close>
definition scores_ok :: "attempt \<Rightarrow> bool" where
  "scores_ok a = (0 \<le> passed_tests a \<and> passed_tests a \<le> total_tests a)"

context ieee begin

lemma bucket_bounds: "scores_ok a \<Longrightarrow> scored_row a \<Longrightarrow> 0 \<le> bucket_of (pct_of fl a) \<and> bucket_of (pct_of fl a) < 10"
  using percent_bounds[of a] by (auto simp: scores_ok_def scored_row_def bucket_of_def pct_of_def pos_imp_zdiv_nonneg_iff)

lemma analyse_all_snoc: "analyse_all fl c e (xs @ [x]) = analyse fl c e x (analyse_all fl c e xs)"
  by (simp add: analyse_all_def)

lemma analyse_fields:
  assumes "scores_ok a"
  shows "an_buckets (analyse fl c e a r) = (if scored_row a
      then (an_buckets r)[nat (bucket_of (pct_of fl a)) := an_buckets r ! nat (bucket_of (pct_of fl a)) + 1] else an_buckets r)"
    "an_pass (analyse fl c e a r) = an_pass r + (if scored_row a \<and> 50 \<le> pct_of fl a then 1 else 0)"
    "an_fail (analyse fl c e a r) = an_fail r + (if scored_row a \<and> \<not> 50 \<le> pct_of fl a then 1 else 0)"
    "an_pending (analyse fl c e a r) = an_pending r + (if scored_row a then 0 else 1)"
    "map pf_pct (an_scored (analyse fl c e a r)) = map pf_pct (an_scored r) @ (if scored_row a then [pct_of fl a] else [])"
  using bucket_bounds[OF assms] by (auto simp: analyse_def scored_row_def pct_of_def Let_def)

lemma bump_bucket:
  assumes "0 \<le> k" "k < 10"
  shows "(map f [0..<10])[nat k := Suc (map f [0..<10] ! nat k)] = map (\<lambda>i. f i + (if k = int i then 1 else 0 :: nat)) [0..<10]"
proof (rule nth_equalityI)
  fix i assume "i < length ((map f [0..<10])[nat k := Suc (map f [0..<10] ! nat k)])"
  then have i: "i < 10" by simp
  then show "(map f [0..<10])[nat k := Suc (map f [0..<10] ! nat k)] ! i = map (\<lambda>i. f i + (if k = int i then 1 else 0 :: nat)) [0..<10] ! i"
    using assms by (cases "i = nat k") (simp_all add: nth_list_update)
qed simp

lemma analyse_all_counts:
  assumes "\<forall>a\<in>set rows. scores_ok a"
  shows "an_buckets (analyse_all fl c e rows) = map (\<lambda>i. count_if (\<lambda>a. scored_row a \<and> bucket_of (pct_of fl a) = int i) rows) [0..<10]"
    "an_pass (analyse_all fl c e rows) = count_if (\<lambda>a. scored_row a \<and> 50 \<le> pct_of fl a) rows"
    "an_fail (analyse_all fl c e rows) = count_if (\<lambda>a. scored_row a \<and> \<not> 50 \<le> pct_of fl a) rows"
    "an_pending (analyse_all fl c e rows) = count_if (\<lambda>a. \<not> scored_row a) rows"
    "map pf_pct (an_scored (analyse_all fl c e rows)) = map (pct_of fl) (filter scored_row rows)"
  using assms
proof (induction rows rule: rev_induct)
  case Nil
  { case 1 show ?case by (simp add: analyse_all_def empty_analytics_def map_replicate_const) }
qed (simp_all add: analyse_all_snoc analyse_fields bump_bucket bucket_bounds, simp_all add: analyse_all_def empty_analytics_def)

end

lemma bucket_sum: "(\<Sum>i<10. count_if (\<lambda>a. P a \<and> g a = int i) xs) = count_if (\<lambda>a. P a \<and> 0 \<le> g a \<and> g a < 10) xs"
proof (induction xs rule: rev_induct)
  case (snoc x xs)
  have "(\<Sum>i<10. if P x \<and> g x = int i then 1 else 0 :: nat) = (if P x \<and> 0 \<le> g x \<and> g x < 10 then 1 else 0)"
  proof (cases "P x \<and> 0 \<le> g x \<and> g x < 10")
    case True
    then have "(if P x \<and> g x = int i then 1 else 0 :: nat) = (if i = nat (g x) then 1 else 0)" for i by auto
    moreover have "nat (g x) < 10" using True by linarith
    ultimately show ?thesis using True by (simp add: sum.delta')
  next
    case False
    then have "\<not> (P x \<and> g x = int i)" if "i < 10" for i using that by auto
    then show ?thesis using False by (simp add: sum.neutral)
  qed
  then show ?case using snoc.IH by (simp add: sum.distrib)
qed simp

text \<open>The charts count every attempt once: passed, failed and pending attempts add up to all attempts, the ten
  bars of the score distribution add up to the scored ones, bar i counts the scores from 10 i to 10 i + 9
  (the last one to 100), passed means 50 percent or more, and the top performers are at most ten, best first.
  Scores are assumed to be numbers of tests; the rounding of doubles does not matter.\<close>
theorem analytics_partition:
  assumes "ieee fl" "\<forall>a\<in>set rows. scores_ok a" "r = analyse_all fl c e rows"
  shows "an_pass r + an_fail r + an_pending r = length rows
    \<and> length (an_buckets r) = 10 \<and> sum_list (an_buckets r) = an_pass r + an_fail r
    \<and> (\<forall>i<9. an_buckets r ! i = count_if (\<lambda>a. scored_row a \<and> 10 * int i \<le> pct_of fl a \<and> pct_of fl a < 10 * int i + 10) rows)
    \<and> an_buckets r ! 9 = count_if (\<lambda>a. scored_row a \<and> 90 \<le> pct_of fl a) rows
    \<and> an_pass r = count_if (\<lambda>a. scored_row a \<and> 50 \<le> pct_of fl a) rows
    \<and> length (top_performers (an_scored r)) \<le> 10 \<and> sorted_wrt (\<lambda>s t. pf_pct t \<le> pf_pct s) (top_performers (an_scored r))"
proof -
  note n = ieee.analyse_all_counts[OF assms(1,2), of c e, folded assms(3)]
  have all: "count_if (\<lambda>a. scored_row a) rows = an_pass r + an_fail r"
    unfolding n(2,3) by (rule count_if_sum)
  have "length rows = count_if scored_row rows + count_if (\<lambda>a. \<not> scored_row a) rows"
    using count_if_sum[of "\<lambda>_. True" rows scored_row] by (simp add: count_if_def)
  then have total: "an_pass r + an_fail r + an_pending r = length rows" using all n(4) by simp
  have in_range: "count_if (\<lambda>a. scored_row a \<and> 0 \<le> bucket_of (pct_of fl a) \<and> bucket_of (pct_of fl a) < 10) rows = count_if (\<lambda>a. scored_row a) rows"
    unfolding count_if_def using ieee.bucket_bounds[OF assms(1)] assms(2) by (intro arg_cong[where f = length] filter_cong) auto
  have sum: "sum_list (an_buckets r) = an_pass r + an_fail r"
    unfolding n(1) interv_sum_list_conv_sum_set_nat all[symmetric] in_range[symmetric] bucket_sum[symmetric]
    by (simp add: lessThan_atLeast0)
  have low: "bucket_of p = int i \<longleftrightarrow> 10 * int i \<le> p \<and> p < 10 * int i + 10" if "i < 9" for i p
    using that by (auto simp: bucket_of_def min_def)
  have high: "bucket_of p = 9 \<longleftrightarrow> 90 \<le> p" for p by (auto simp: bucket_of_def min_def)
  have "sorted_wrt (\<lambda>s t. pf_pct t \<le> pf_pct s) (sort_key (\<lambda>s. - pf_pct s) l)" for l :: "scored list"
    using sorted_sort_key[of "\<lambda>s. - pf_pct s" l] by (simp add: sorted_map)
  then have top: "sorted_wrt (\<lambda>s t. pf_pct t \<le> pf_pct s) (top_performers (an_scored r))"
    unfolding top_performers_def by (rule sorted_wrt_take)
  show ?thesis using total sum n(2) top by (auto simp: n(1) low high top_performers_def)
qed

definition graded :: "int \<Rightarrow> int \<Rightarrow> attempt" where
  "graded p t = demo_attempt\<lparr> a_status := COMPLETED, a_publicScore := Some p, a_totalPublic := Some t, a_hiddenScore := Some 0, a_totalHidden := Some 0 \<rparr>"

theorem analytics_partition_witness:
  "an_buckets (analyse_all (\<lambda>x. x) (\<lambda>_. None) (\<lambda>_. None) [graded 1 2, graded 2 2, demo_attempt]) ! 9 = 1"
proof -
  have ok: "\<forall>a\<in>set [graded 1 2, graded 2 2, demo_attempt]. scores_ok a"
    by (simp add: scores_ok_def graded_def passed_tests_def total_tests_def nz_def demo_attempt_def new_attempt_def)
  show ?thesis using analytics_partition[OF exact.ieee_axioms ok refl, of "\<lambda>_. None" "\<lambda>_. None"]
    by (simp add: count_if_def scored_row_def pct_of_def js_round_def percent_def graded_def passed_tests_def total_tests_def nz_def
      demo_attempt_def new_attempt_def floor_eq_iff)
qed

text \<open>Half of the tests pass in the charts and fail in the report of an exam that asks for 60 percent.\<close>
lemma pass_marks_differ:
  "an_pass (analyse_all (\<lambda>x. x) (\<lambda>_. None) (\<lambda>_. None) [graded 1 2]) = 1
   \<and> es_passedAttempts (exam_statistics (\<lambda>x. x) demo_exam [graded 1 2]) = 0"
  by (simp add: analyse_all_def analyse_def empty_analytics_def exam_statistics_def passes_def Let_def js_round_def percent_def graded_def
    passed_tests_def total_tests_def nz_def demo_attempt_def new_attempt_def demo_exam_def floor_eq_iff)

end
