(* ===== verification/Grader_Worker.thy ===== *)
theory Grader_Worker
  imports Attempts
begin

text \<open>
  \<^verbatim>\<open>apps/grader-go\<close>: the consumer of the grading streams (internal/worker/worker.go), what it writes to the
  database (internal/db/postgres.go) and its configuration (internal/config/config.go). The worker reads new messages of the
  two streams through a consumer group, runs one goroutine for each message, puts failed jobs into a sorted set until
  they are due again, and takes over messages that were not acknowledged in time.

  A goroutine is cut where the grader runs: \<^verbatim>\<open>process_begin\<close> is \<^verbatim>\<open>processMessage\<close> up to the call of
  \<^verbatim>\<open>RunGrader\<close>, \<^verbatim>\<open>process_end\<close> the rest, with the grader's answer and the success of the two
  database writes as arguments; between them anything may happen. Redis is the state \<^verbatim>\<open>grader\<close>: of a stream,
  the messages not yet delivered to the group and those delivered and not acknowledged with the time of their last
  delivery; the job hashes; the counters; the retry set in the order of its scores. Commands of Redis do not fail. The expiry
  of a job hash is an event that may happen at any time; timestamps of the hash (createdAt, startedAt, completedAt,
  updatedAt) are left out.
\<close>

section \<open>Configuration\<close>

record grader_config =
  cf_concurrency :: int
  cf_readBatch :: int
  cf_pelIdleMs :: int
  cf_retryBaseMs :: int
  cf_retryMaxMs :: int
  cf_maxAttempts :: int
  cf_jobTtlSec :: int

text \<open>\<^verbatim>\<open>strconv.Atoi\<close> on a 64-bit machine: an optional sign and digits, within the range.\<close>
definition go_atoi :: "string \<Rightarrow> int option" where
  "go_atoi s = (let (neg, ds) = (case s of c # t \<Rightarrow> if c = CHR ''-'' then (True, t) else if c = CHR ''+'' then (False, t) else (False, s)
       | [] \<Rightarrow> (False, s));
     n = (if neg then - int (digits_val ds) else int (digits_val ds))
   in if ds \<noteq> [] \<and> list_all is_digit ds \<and> - (2 ^ 63) \<le> n \<and> n < 2 ^ 63 then Some n else None)"

text \<open>An environment variable that is not set reads as the empty text.\<close>
definition get_env_int :: "(string \<Rightarrow> string) \<Rightarrow> string \<Rightarrow> int \<Rightarrow> int" where
  "get_env_int env key fallback = (if env key = [] then fallback else or_default (go_atoi (env key)) fallback)"

definition load_config :: "(string \<Rightarrow> string) \<Rightarrow> int \<Rightarrow> grader_config option" where
  "load_config env cpus = (let auto = max 1 (cpus div 3) in
     if env ''DATABASE_URL'' = [] then None
     else Some \<lparr> cf_concurrency = max 1 (get_env_int env ''GRADING_CONCURRENCY'' auto),
       cf_readBatch = max 1 (get_env_int env ''GRADING_STREAM_BATCH'' 10),
       cf_pelIdleMs = get_env_int env ''GRADING_PEL_IDLE_MS'' 60000,
       cf_retryBaseMs = get_env_int env ''GRADING_RETRY_BASE_MS'' 1000,
       cf_retryMaxMs = get_env_int env ''GRADING_RETRY_MAX_MS'' 60000,
       cf_maxAttempts = max 1 (get_env_int env ''GRADING_MAX_ATTEMPTS'' 3),
       cf_jobTtlSec = get_env_int env ''GRADING_JOB_TTL_SEC'' 172800 \<rparr>)"

section \<open>Jobs\<close>

text \<open>The text of a payload: missing, not readable as a job (with the error of the decoder), or a job.\<close>
datatype job_payload = No_payload | Unreadable string | Readable grading_job

datatype job_state = Queued | Processing | Retrying | Completed_job | Failed_job

record job_entry =
  jh_status :: "job_state option"
  jh_payload :: job_payload
  jh_attemptId :: id
  jh_isPreview :: bool
  jh_attempts :: int
  jh_progress :: int
  jh_error :: "string option"
  jh_retryAt :: "time option"

definition empty_hash :: job_entry where
  "empty_hash = \<lparr> jh_status = None, jh_payload = No_payload, jh_attemptId = [], jh_isPreview = False, jh_attempts = 0,
     jh_progress = 0, jh_error = None, jh_retryAt = None \<rparr>"

definition validate_candidate :: "candidate_cfg \<Rightarrow> string option" where
  "validate_candidate c =
    (if str_trim (cc_image c) = [] then Some ''candidate image is required''
     else if str_trim (cc_runCommand c) = [] then Some ''candidate run command is required'' else None)"

text \<open>The error of \<^verbatim>\<open>validateJobPayload\<close>, if any.\<close>
definition validate_job_payload :: "grading_job \<Rightarrow> string option" where
  "validate_job_payload j =
    (if str_trim (j_attemptId j) = [] then Some ''attemptId is required''
     else case j_runner j of
       None \<Rightarrow> Some ''runner configuration is required''
     | Some (RHttp _ c _) \<Rightarrow> validate_candidate c
     | Some (RPlaywright c _) \<Rightarrow> validate_candidate c
     | Some (RUiJsdom c _) \<Rightarrow> validate_candidate c
     | Some (RSql q) \<Rightarrow> if str_trim (sq_setupScript q) = [] then Some ''database setup script is required for sql mode'' else None
     | Some RJest \<Rightarrow> Some ''unsupported runner mode: jest'')"

text \<open>The delay before a failed job is due again. The doubles of the source are exact below 2^53.\<close>
definition retry_delay :: "int \<Rightarrow> int \<Rightarrow> int \<Rightarrow> int" where
  "retry_delay base mx n = (let d = base * 2 ^ nat (n - 1) in if mx < d then mx else d)"

text \<open>\<^verbatim>\<open>strings.ReplaceAll\<close> for a text that is not empty.\<close>
function go_replace_all :: "string \<Rightarrow> string \<Rightarrow> string \<Rightarrow> string" where
  "go_replace_all old new [] = []"
| "go_replace_all old new (c # s) =
    (if old \<noteq> [] \<and> prefix old (c # s) then new @ go_replace_all old new (drop (length old) (c # s))
     else c # go_replace_all old new s)"
  by pat_completeness auto
termination by (relation "measure (\<lambda>(_, _, s). length s)") (auto simp: Suc_diff_le)

definition sanitize_worker_error :: "string \<Rightarrow> string" where
  "sanitize_worker_error msg = take 200 (go_replace_all ''/tmp/'' ''[temp]'' (go_replace_all ''/var/folders/'' ''[temp]'' msg))"

section \<open>The state\<close>

datatype stream = High | Low

record job_message =
  m_id :: nat
  m_jobId :: id
  m_payload :: job_payload

text \<open>A goroutine that holds a message: before the grader runs, or while it runs, with the number of the attempt.\<close>
datatype run = Received stream job_message | Grading stream job_message grading_job int

record completion =
  cp_attemptId :: id
  cp_result :: grading_result
  cp_isPreview :: bool
  cp_jobId :: id
  cp_error :: "string option"

record grader =
  g_seq :: nat
  g_new :: "stream \<Rightarrow> job_message list"
  g_pending :: "stream \<Rightarrow> (job_message \<times> time) list"
  g_jobs :: "id \<Rightarrow> job_entry option"
  g_stats :: "job_state \<Rightarrow> int"
  g_retry :: "(id \<times> time) list"
  g_dlq :: "(id \<times> job_payload \<times> string) list"
  g_paused :: bool
  g_rows :: "id \<Rightarrow> attempt option"
  g_published :: "completion list"
  g_runs :: "run list"
  g_hand :: "id list"   \<comment> \<open>ids the retry loop has removed from the set and not yet queued again\<close>

definition hash_at :: "grader \<Rightarrow> id \<Rightarrow> job_entry" where
  "hash_at g j = or_default (g_jobs g j) empty_hash"

section \<open>The commands of the worker\<close>

text \<open>\<^verbatim>\<open>transitionScript\<close>: the counter of the state that is left goes down, that of the new state up. Only
  the three states that a job leaves again are counted down.\<close>
definition transition :: "id \<Rightarrow> job_state \<Rightarrow> (job_entry \<Rightarrow> job_entry) \<Rightarrow> grader \<Rightarrow> grader" where
  "transition j next f g = (let prev = jh_status (hash_at g j);
       s1 = (case prev of Some Queued \<Rightarrow> (g_stats g)(Queued := g_stats g Queued - 1)
               | Some Processing \<Rightarrow> (g_stats g)(Processing := g_stats g Processing - 1)
               | Some Retrying \<Rightarrow> (g_stats g)(Retrying := g_stats g Retrying - 1)
               | _ \<Rightarrow> g_stats g)
     in g\<lparr> g_stats := s1(next := s1 next + 1),
           g_jobs := (g_jobs g)(j \<mapsto> f ((hash_at g j)\<lparr> jh_status := Some next \<rparr>)) \<rparr>)"

definition update_job_hash :: "id \<Rightarrow> (job_entry \<Rightarrow> job_entry) \<Rightarrow> grader \<Rightarrow> grader" where
  "update_job_hash j f g = g\<lparr> g_jobs := (g_jobs g)(j \<mapsto> f (hash_at g j)) \<rparr>"

definition update_progress :: "id \<Rightarrow> int \<Rightarrow> grader \<Rightarrow> grader" where
  "update_progress j p = update_job_hash j (jh_progress_update (\<lambda>_. p))"

definition send_to_dlq :: "id \<Rightarrow> job_payload \<Rightarrow> string \<Rightarrow> grader \<Rightarrow> grader" where
  "send_to_dlq j p err g = g\<lparr> g_dlq := g_dlq g @ [(j, p, err)] \<rparr>"

definition ack_and_delete :: "stream \<Rightarrow> nat \<Rightarrow> grader \<Rightarrow> grader" where
  "ack_and_delete s i g = g\<lparr> g_pending := (g_pending g)(s := filter (\<lambda>(m, _). m_id m \<noteq> i) (g_pending g s)) \<rparr>"

definition xadd :: "stream \<Rightarrow> id \<Rightarrow> job_payload \<Rightarrow> grader \<Rightarrow> grader" where
  "xadd s j p g = g\<lparr> g_seq := Suc (g_seq g),
     g_new := (g_new g)(s := g_new g s @ [\<lparr> m_id = g_seq g, m_jobId = j, m_payload = p \<rparr>]) \<rparr>"

text \<open>\<^verbatim>\<open>ZADD\<close>: members are ordered by score, then by name.\<close>
fun zinsert :: "id \<times> time \<Rightarrow> (id \<times> time) list \<Rightarrow> (id \<times> time) list" where
  "zinsert x [] = [x]"
| "zinsert x (y # ys) = (if snd x < snd y \<or> snd x = snd y \<and> fst x < fst y then x # y # ys else y # zinsert x ys)"

definition zadd :: "id \<Rightarrow> time \<Rightarrow> grader \<Rightarrow> grader" where
  "zadd j t g = g\<lparr> g_retry := zinsert (j, t) (filter (\<lambda>(k, _). k \<noteq> j) (g_retry g)) \<rparr>"

definition publish_complete :: "completion \<Rightarrow> grader \<Rightarrow> grader" where
  "publish_complete c g = g\<lparr> g_published := g_published g @ [c] \<rparr>"

section \<open>The database\<close>

definition status_for_result :: "grading_result \<Rightarrow> attempt_status" where
  "status_for_result r = (if gr_success r then COMPLETED else FAILED)"

definition result_row :: "time \<Rightarrow> grading_result \<Rightarrow> bool \<Rightarrow> attempt \<Rightarrow> attempt" where
  "result_row now r isPreview a =
    (if isPreview then a\<lparr> a_publicScore := Some (gr_publicScore r), a_totalPublic := Some (gr_totalPublic r),
        a_gradingLogs := Some (gr_logs r), a_gradedAt := Some now \<rparr>
     else a\<lparr> a_publicScore := Some (gr_publicScore r), a_totalPublic := Some (gr_totalPublic r),
        a_hiddenScore := Some (gr_hiddenScore r), a_totalHidden := Some (gr_totalHidden r),
        a_gradingLogs := Some (gr_logs r), a_gradedAt := Some now, a_status := status_for_result r \<rparr>)"

text \<open>\<^verbatim>\<open>UpdateAttemptResults\<close>; \<^verbatim>\<open>ok\<close> tells whether the statement succeeds. The answer is the result as
  it is sent on, or an error.\<close>
definition store_results :: "bool \<Rightarrow> time \<Rightarrow> id \<Rightarrow> grading_result \<Rightarrow> bool \<Rightarrow> grader \<Rightarrow> (string + grading_result) \<times> grader" where
  "store_results ok now aid r isPreview g =
    (if aid = [] then (Inl ''attemptId is required'', g)
     else if \<not> ok then (Inl ''statement failed'', g)
     else (Inr (if isPreview then r\<lparr> gr_hiddenScore := 0, gr_totalHidden := 0 \<rparr> else r),
           g\<lparr> g_rows := row_upd aid (result_row now r isPreview) (g_rows g) \<rparr>))"

section \<open>One message\<close>

definition reject_message :: "stream \<Rightarrow> job_message \<Rightarrow> job_payload \<Rightarrow> string \<Rightarrow> grader \<Rightarrow> grader" where
  "reject_message s m p err g =
    ack_and_delete s (m_id m) (send_to_dlq (m_jobId m) p err
      (transition (m_jobId m) Failed_job (jh_error_update (\<lambda>_. Some err)) g))"

text \<open>\<^verbatim>\<open>processMessage\<close> up to the grader: the goroutine that goes on, if the message is not rejected.\<close>
definition process_begin :: "stream \<Rightarrow> job_message \<Rightarrow> grader \<Rightarrow> run option \<times> grader" where
  "process_begin s m g = (if m_jobId m = [] then (None, ack_and_delete s (m_id m) g)
     else let p = (if m_payload m = No_payload then jh_payload (hash_at g (m_jobId m)) else m_payload m) in
       case p of
         No_payload \<Rightarrow> (None, reject_message s m No_payload ''missing payload'' g)
       | Unreadable e \<Rightarrow> (None, reject_message s m p (''invalid payload: '' @ e) g)
       | Readable job \<Rightarrow> (case validate_job_payload job of
            Some e \<Rightarrow> (None, reject_message s m p (''invalid job: '' @ e) g)
          | None \<Rightarrow>
             (let g1 = update_job_hash (m_jobId m) (\<lambda>h. h\<lparr> jh_payload := p, jh_attemptId := j_attemptId job,
                    jh_isPreview := j_isPreview job \<rparr>) g;
                  g2 = update_progress (m_jobId m) 10 (transition (m_jobId m) Processing (\<lambda>h. h) g1);
                  n = jh_attempts (hash_at g2 (m_jobId m)) + 1
              in (Some (Grading s m job n), update_job_hash (m_jobId m) (jh_attempts_update (\<lambda>_. n)) g2))))"

text \<open>The answer of \<^verbatim>\<open>RunGrader\<close>.\<close>
datatype grading_outcome = Graded grading_result | Grader_error string

definition failure_result :: "string \<Rightarrow> grading_result" where
  "failure_result err = \<lparr> gr_publicScore = 0, gr_hiddenScore = 0, gr_totalPublic = 0, gr_totalHidden = 0,
     gr_logs = ''Grading error: '' @ err, gr_success = False, gr_error = Some err \<rparr>"

text \<open>The part of \<^verbatim>\<open>processMessage\<close> after a failure, of the grader or of the first write.\<close>
definition process_failure :: "grader_config \<Rightarrow> time \<Rightarrow> bool \<Rightarrow> stream \<Rightarrow> job_message \<Rightarrow> grading_job \<Rightarrow> int \<Rightarrow> string \<Rightarrow> grader \<Rightarrow> grader" where
  "process_failure cf now ok s m job n err0 g =
    (let err = sanitize_worker_error err0; r = failure_result err;
         g1 = snd (store_results ok now (j_attemptId job) r (j_isPreview job) g);
         g2 = publish_complete \<lparr> cp_attemptId = j_attemptId job, cp_result = r, cp_isPreview = j_isPreview job,
                cp_jobId = m_jobId m, cp_error = Some err \<rparr> g1
     in if n < cf_maxAttempts cf
        then let t = now + retry_delay (cf_retryBaseMs cf) (cf_retryMaxMs cf) n in
             ack_and_delete s (m_id m) (zadd (m_jobId m) t
               (transition (m_jobId m) Retrying (\<lambda>h. h\<lparr> jh_error := Some err, jh_retryAt := Some t \<rparr>) g2))
        else ack_and_delete s (m_id m) (send_to_dlq (m_jobId m) (Readable job) err
               (transition (m_jobId m) Failed_job (jh_error_update (\<lambda>_. Some err)) g2)))"

text \<open>\<^verbatim>\<open>processMessage\<close> from the answer of the grader on. \<^verbatim>\<open>ok1\<close> and \<^verbatim>\<open>ok2\<close> tell whether the
  writes of the result and of the failure succeed.\<close>
definition process_end :: "grader_config \<Rightarrow> time \<Rightarrow> grading_outcome \<Rightarrow> bool \<Rightarrow> bool \<Rightarrow> stream \<Rightarrow> job_message \<Rightarrow> grading_job \<Rightarrow> int \<Rightarrow> grader \<Rightarrow> grader" where
  "process_end cf now out ok1 ok2 s m job n g = (case out of
     Grader_error e \<Rightarrow> process_failure cf now ok2 s m job n e g
   | Graded r \<Rightarrow>
      (case store_results ok1 now (j_attemptId job) r (j_isPreview job) (update_progress (m_jobId m) 80 g) of
         (Inl e, g1) \<Rightarrow> process_failure cf now ok2 s m job n (''db update failed: '' @ e) g1
       | (Inr r', g1) \<Rightarrow>
          ack_and_delete s (m_id m) (transition (m_jobId m) Completed_job (\<lambda>h. h)
            (update_progress (m_jobId m) 100
              (publish_complete \<lparr> cp_attemptId = j_attemptId job, cp_result = r', cp_isPreview = j_isPreview job,
                   cp_jobId = m_jobId m, cp_error = None \<rparr>
                (update_progress (m_jobId m) 90 g1))))))"

section \<open>The three loops\<close>

definition available :: "grader_config \<Rightarrow> grader \<Rightarrow> nat" where
  "available cf g = nat (cf_concurrency cf) - length (g_runs g)"

text \<open>\<^verbatim>\<open>readAndDispatch\<close>: never more messages than there are free slots.\<close>
definition read_and_dispatch :: "grader_config \<Rightarrow> time \<Rightarrow> stream \<Rightarrow> grader \<Rightarrow> grader" where
  "read_and_dispatch cf now s g = (let k = min (nat (cf_readBatch cf)) (available cf g); ms = take k (g_new g s) in
     g\<lparr> g_new := (g_new g)(s := drop k (g_new g s)),
        g_pending := (g_pending g)(s := g_pending g s @ map (\<lambda>m. (m, now)) ms),
        g_runs := g_runs g @ map (Received s) ms \<rparr>)"

text \<open>A turn of \<^verbatim>\<open>processingLoop\<close>: first the submissions, then the test runs if there is room.\<close>
definition processing_turn :: "grader_config \<Rightarrow> time \<Rightarrow> grader \<Rightarrow> grader" where
  "processing_turn cf now g = (if g_paused g then g
     else let g1 = read_and_dispatch cf now High g in
       if 0 < available cf g1 then read_and_dispatch cf now Low g1 else g1)"

text \<open>\<^verbatim>\<open>reclaimStream\<close>: of the first twenty messages that are not acknowledged, those that were delivered long enough
  ago are claimed, and as many of them started as there is room.\<close>
definition reclaim_stream :: "grader_config \<Rightarrow> time \<Rightarrow> stream \<Rightarrow> grader \<Rightarrow> grader" where
  "reclaim_stream cf now s g = (if available cf g = 0 then g
     else let idle = filter (\<lambda>(m, t). cf_pelIdleMs cf \<le> now - t) (take 20 (g_pending g s)) in
       g\<lparr> g_pending := (g_pending g)(s := map (\<lambda>(m, t). (m, if (m, t) \<in> set idle then now else t)) (g_pending g s)),
          g_runs := g_runs g @ map (Received s) (take (available cf g) (map fst idle)) \<rparr>)"

text \<open>\<^verbatim>\<open>retryLoop\<close>, first half: at most fifty ids that are due leave the set.\<close>
definition take_due :: "time \<Rightarrow> grader \<Rightarrow> grader" where
  "take_due now g = (let ids = map fst (take 50 (filter (\<lambda>(_, t). t \<le> now) (g_retry g))) in
     g\<lparr> g_retry := filter (\<lambda>(k, _). k \<notin> set ids) (g_retry g), g_hand := g_hand g @ ids \<rparr>)"

text \<open>\<^verbatim>\<open>requeueJob\<close>.\<close>
definition requeue_job :: "id \<Rightarrow> grader \<Rightarrow> grader" where
  "requeue_job j g = (let h = hash_at g j in
     if jh_payload h = No_payload
     then send_to_dlq j No_payload ''missing payload on retry''
       (transition j Failed_job (jh_error_update (\<lambda>_. Some ''missing payload on retry'')) g)
     else transition j Queued (\<lambda>h. h) (xadd (if jh_isPreview h then Low else High) j (jh_payload h) g))"

definition retry_cleanup :: "grader_config \<Rightarrow> time \<Rightarrow> grader \<Rightarrow> grader" where
  "retry_cleanup cf now g = g\<lparr> g_retry := filter (\<lambda>(_, t). \<not> t \<le> now - 1000 * cf_jobTtlSec cf) (g_retry g) \<rparr>"

section \<open>Events\<close>

text \<open>The two writes of the API's \<^verbatim>\<open>addGradingJob\<close> as the worker sees them: the message on the stream, then
  the hash with the counter.\<close>
definition api_add :: "id \<Rightarrow> grading_job \<Rightarrow> grader \<Rightarrow> grader" where
  "api_add j job = xadd (if j_isPreview job then Low else High) j (Readable job)"

definition api_record :: "id \<Rightarrow> grading_job \<Rightarrow> grader \<Rightarrow> grader" where
  "api_record j job g = g\<lparr> g_stats := (g_stats g)(Queued := g_stats g Queued + 1),
     g_jobs := (g_jobs g)(j \<mapsto> (hash_at g j)\<lparr> jh_status := Some Queued, jh_progress := 0, jh_attemptId := j_attemptId job,
       jh_attempts := 0, jh_isPreview := j_isPreview job, jh_payload := Readable job \<rparr>) \<rparr>"

datatype grader_event =
    Api_add id grading_job
  | Api_record id grading_job
  | Turn time
  | Reclaim stream time
  | Begin nat
  | Answer nat grading_outcome bool bool time
  | Due time
  | Requeue
  | Cleanup time
  | Hash_expires id
  | Pause bool
  | Crash

definition remove_run :: "nat \<Rightarrow> grader \<Rightarrow> grader" where
  "remove_run i g = g\<lparr> g_runs := take i (g_runs g) @ drop (Suc i) (g_runs g) \<rparr>"

definition begin_run :: "nat \<Rightarrow> grader \<Rightarrow> grader" where
  "begin_run i g = (if i < length (g_runs g) then (case g_runs g ! i of
       Received s m \<Rightarrow> (case process_begin s m g of
           (None, g') \<Rightarrow> remove_run i g' | (Some r, g') \<Rightarrow> g'\<lparr> g_runs := (g_runs g')[i := r] \<rparr>)
     | Grading _ _ _ _ \<Rightarrow> g) else g)"

definition end_run :: "grader_config \<Rightarrow> nat \<Rightarrow> grading_outcome \<Rightarrow> bool \<Rightarrow> bool \<Rightarrow> time \<Rightarrow> grader \<Rightarrow> grader" where
  "end_run cf i out ok1 ok2 now g = (if i < length (g_runs g) then (case g_runs g ! i of
       Grading s m job n \<Rightarrow> remove_run i (process_end cf now out ok1 ok2 s m job n g)
     | Received _ _ \<Rightarrow> g) else g)"

definition requeue_next :: "grader \<Rightarrow> grader" where
  "requeue_next g = (case g_hand g of [] \<Rightarrow> g | j # js \<Rightarrow> requeue_job j (g\<lparr> g_hand := js \<rparr>))"

text \<open>One event. A crash of the worker loses its goroutines and what the retry loop holds.\<close>
fun grader_step :: "grader_config \<Rightarrow> grader_event \<Rightarrow> grader \<Rightarrow> grader" where
  "grader_step cf (Api_add j job) g = api_add j job g"
| "grader_step cf (Api_record j job) g = api_record j job g"
| "grader_step cf (Turn now) g = processing_turn cf now g"
| "grader_step cf (Reclaim s now) g = reclaim_stream cf now s g"
| "grader_step cf (Begin i) g = begin_run i g"
| "grader_step cf (Answer i out ok1 ok2 now) g = end_run cf i out ok1 ok2 now g"
| "grader_step cf (Due now) g = take_due now g"
| "grader_step cf Requeue g = requeue_next g"
| "grader_step cf (Cleanup now) g = retry_cleanup cf now g"
| "grader_step cf (Hash_expires j) g = g\<lparr> g_jobs := (g_jobs g)(j := None) \<rparr>"
| "grader_step cf (Pause b) g = g\<lparr> g_paused := b \<rparr>"
| "grader_step cf Crash g = g\<lparr> g_runs := [], g_hand := [] \<rparr>"

definition grader_run :: "grader_config \<Rightarrow> grader_event list \<Rightarrow> grader \<Rightarrow> grader" where
  "grader_run cf es g = fold (grader_step cf) es g"

lemma grader_run_simps [simp]: "grader_run cf [] g = g" "grader_run cf (e # es) g = grader_run cf es (grader_step cf e g)"
  by (simp_all add: grader_run_def)

lemma grader_run_snoc: "grader_run cf (es @ [e]) g = grader_step cf e (grader_run cf es g)"
  by (simp add: grader_run_def)

definition start_grader :: "(id \<Rightarrow> attempt option) \<Rightarrow> grader" where
  "start_grader rows = \<lparr> g_seq = 0, g_new = (\<lambda>_. []), g_pending = (\<lambda>_. []), g_jobs = Map.empty, g_stats = (\<lambda>_. 0),
     g_retry = [], g_dlq = [], g_paused = False, g_rows = rows, g_published = [], g_runs = [], g_hand = [] \<rparr>"

section \<open>What each command leaves alone\<close>

lemma transition_fields [simp]:
  "g_seq (transition j n f g) = g_seq g" "g_new (transition j n f g) = g_new g" "g_pending (transition j n f g) = g_pending g"
  "g_retry (transition j n f g) = g_retry g" "g_dlq (transition j n f g) = g_dlq g" "g_rows (transition j n f g) = g_rows g"
  "g_published (transition j n f g) = g_published g" "g_runs (transition j n f g) = g_runs g" "g_hand (transition j n f g) = g_hand g"
  by (simp_all add: transition_def Let_def)

lemma update_hash_fields [simp]:
  "g_seq (update_job_hash j f g) = g_seq g" "g_new (update_job_hash j f g) = g_new g" "g_pending (update_job_hash j f g) = g_pending g"
  "g_retry (update_job_hash j f g) = g_retry g" "g_dlq (update_job_hash j f g) = g_dlq g" "g_rows (update_job_hash j f g) = g_rows g"
  "g_published (update_job_hash j f g) = g_published g" "g_runs (update_job_hash j f g) = g_runs g"
  "g_hand (update_job_hash j f g) = g_hand g" "g_stats (update_job_hash j f g) = g_stats g"
  by (simp_all add: update_job_hash_def)

lemma progress_fields [simp]:
  "g_seq (update_progress j p g) = g_seq g" "g_new (update_progress j p g) = g_new g" "g_pending (update_progress j p g) = g_pending g"
  "g_retry (update_progress j p g) = g_retry g" "g_dlq (update_progress j p g) = g_dlq g" "g_rows (update_progress j p g) = g_rows g"
  "g_published (update_progress j p g) = g_published g" "g_runs (update_progress j p g) = g_runs g"
  "g_hand (update_progress j p g) = g_hand g" "g_stats (update_progress j p g) = g_stats g"
  by (simp_all add: update_progress_def)

lemma dlq_fields [simp]:
  "g_seq (send_to_dlq j p e g) = g_seq g" "g_new (send_to_dlq j p e g) = g_new g" "g_pending (send_to_dlq j p e g) = g_pending g"
  "g_retry (send_to_dlq j p e g) = g_retry g" "g_dlq (send_to_dlq j p e g) = g_dlq g @ [(j, p, e)]"
  "g_rows (send_to_dlq j p e g) = g_rows g" "g_published (send_to_dlq j p e g) = g_published g"
  "g_runs (send_to_dlq j p e g) = g_runs g" "g_hand (send_to_dlq j p e g) = g_hand g"
  "g_jobs (send_to_dlq j p e g) = g_jobs g" "g_stats (send_to_dlq j p e g) = g_stats g"
  by (simp_all add: send_to_dlq_def)

lemma ack_fields [simp]:
  "g_seq (ack_and_delete s i g) = g_seq g" "g_new (ack_and_delete s i g) = g_new g"
  "g_retry (ack_and_delete s i g) = g_retry g" "g_dlq (ack_and_delete s i g) = g_dlq g" "g_rows (ack_and_delete s i g) = g_rows g"
  "g_published (ack_and_delete s i g) = g_published g" "g_runs (ack_and_delete s i g) = g_runs g"
  "g_hand (ack_and_delete s i g) = g_hand g" "g_jobs (ack_and_delete s i g) = g_jobs g" "g_stats (ack_and_delete s i g) = g_stats g"
  "g_pending (ack_and_delete s i g) s' = (if s' = s then filter (\<lambda>(m, _). m_id m \<noteq> i) (g_pending g s) else g_pending g s')"
  by (simp_all add: ack_and_delete_def)

lemma zadd_fields [simp]:
  "g_seq (zadd j t g) = g_seq g" "g_new (zadd j t g) = g_new g" "g_pending (zadd j t g) = g_pending g"
  "g_dlq (zadd j t g) = g_dlq g" "g_rows (zadd j t g) = g_rows g" "g_published (zadd j t g) = g_published g"
  "g_runs (zadd j t g) = g_runs g" "g_hand (zadd j t g) = g_hand g" "g_jobs (zadd j t g) = g_jobs g" "g_stats (zadd j t g) = g_stats g"
  by (simp_all add: zadd_def)

lemma publish_fields [simp]:
  "g_seq (publish_complete c g) = g_seq g" "g_new (publish_complete c g) = g_new g" "g_pending (publish_complete c g) = g_pending g"
  "g_retry (publish_complete c g) = g_retry g" "g_dlq (publish_complete c g) = g_dlq g" "g_rows (publish_complete c g) = g_rows g"
  "g_published (publish_complete c g) = g_published g @ [c]" "g_runs (publish_complete c g) = g_runs g"
  "g_hand (publish_complete c g) = g_hand g" "g_jobs (publish_complete c g) = g_jobs g" "g_stats (publish_complete c g) = g_stats g"
  by (simp_all add: publish_complete_def)

lemma store_fields [simp]:
  "g_seq (snd (store_results ok now aid r p g)) = g_seq g" "g_new (snd (store_results ok now aid r p g)) = g_new g"
  "g_pending (snd (store_results ok now aid r p g)) = g_pending g" "g_retry (snd (store_results ok now aid r p g)) = g_retry g"
  "g_dlq (snd (store_results ok now aid r p g)) = g_dlq g" "g_published (snd (store_results ok now aid r p g)) = g_published g"
  "g_runs (snd (store_results ok now aid r p g)) = g_runs g" "g_hand (snd (store_results ok now aid r p g)) = g_hand g"
  "g_jobs (snd (store_results ok now aid r p g)) = g_jobs g" "g_stats (snd (store_results ok now aid r p g)) = g_stats g"
  by (simp_all add: store_results_def)

lemma xadd_fields [simp]:
  "g_seq (xadd s j p g) = Suc (g_seq g)" "g_pending (xadd s j p g) = g_pending g" "g_retry (xadd s j p g) = g_retry g"
  "g_dlq (xadd s j p g) = g_dlq g" "g_rows (xadd s j p g) = g_rows g" "g_published (xadd s j p g) = g_published g"
  "g_runs (xadd s j p g) = g_runs g" "g_hand (xadd s j p g) = g_hand g" "g_jobs (xadd s j p g) = g_jobs g" "g_stats (xadd s j p g) = g_stats g"
  "g_new (xadd s j p g) s' = g_new g s' @ (if s' = s then [\<lparr> m_id = g_seq g, m_jobId = j, m_payload = p \<rparr>] else [])"
  by (simp_all add: xadd_def)

lemma set_zinsert [simp]: "set (zinsert x xs) = insert x (set xs)"
  by (induction xs) auto

lemma members_zadd [simp]: "fst ` set (g_retry (zadd j t g)) = insert j (fst ` set (g_retry g))"
  by (force simp: zadd_def)

section \<open>No job is lost\<close>

text \<open>A job is held while a message for it waits in a stream or is not acknowledged, and settled when it waits for its
  next attempt, ended in the dead letters or was answered without an error.\<close>
definition stream_set :: "grader \<Rightarrow> stream \<Rightarrow> job_message set" where
  "stream_set g s = set (g_new g s) \<union> fst ` set (g_pending g s)"

definition held :: "grader \<Rightarrow> id \<Rightarrow> bool" where
  "held g j = (\<exists>s. \<exists>m\<in>stream_set g s. m_jobId m = j)"

definition settled :: "grader \<Rightarrow> id \<Rightarrow> bool" where
  "settled g j = (j \<in> fst ` set (g_retry g) \<or> j \<in> set (g_hand g) \<or> j \<in> fst ` set (g_dlq g)
     \<or> (\<exists>c\<in>set (g_published g). cp_jobId c = j \<and> cp_error c = None))"

definition accounted :: "grader \<Rightarrow> id \<Rightarrow> bool" where
  "accounted g j = (held g j \<or> settled g j)"

fun run_message :: "run \<Rightarrow> job_message" where
  "run_message (Received s m) = m"
| "run_message (Grading s m job n) = m"

definition messages :: "grader \<Rightarrow> job_message set" where
  "messages g = (\<Union>s. stream_set g s) \<union> run_message ` set (g_runs g)"

lemma stream_set_cong: "g_new g' = g_new g \<Longrightarrow> g_pending g' = g_pending g \<Longrightarrow> stream_set g' s = stream_set g s"
  by (simp add: stream_set_def)

lemma stream_set_xadd [simp]: "stream_set (xadd s j p g) s' =
    (if s' = s then insert \<lparr> m_id = g_seq g, m_jobId = j, m_payload = p \<rparr> (stream_set g s) else stream_set g s')"
  by (auto simp: stream_set_def)

lemma held_xadd [simp]: "held (xadd s j p g) k = (k = j \<or> held g k)"
  by (auto simp: held_def split: if_splits)

lemma held_cong: "g_new g' = g_new g \<Longrightarrow> g_pending g' = g_pending g \<Longrightarrow> held g' k = held g k"
  by (simp add: held_def stream_set_def)

text \<open>Ids name messages.\<close>
definition ids_ok :: "grader \<Rightarrow> bool" where
  "ids_ok g = (\<forall>m\<in>messages g. m_id m < g_seq g \<and> (\<forall>m'\<in>messages g. m_id m' = m_id m \<longrightarrow> m' = m))"

lemma ids_ok_mono: "ids_ok g \<Longrightarrow> messages g' \<subseteq> messages g \<Longrightarrow> g_seq g' = g_seq g \<Longrightarrow> ids_ok g'"
  unfolding ids_ok_def by (metis subsetD)

lemma ids_ok_xadd:
  assumes "ids_ok g" shows "ids_ok (xadd s j p g)"
proof -
  let ?m = "\<lparr> m_id = g_seq g, m_jobId = j, m_payload = p \<rparr>"
  have sub: "m = ?m \<or> m \<in> messages g" if "m \<in> messages (xadd s j p g)" for m
    using that by (auto simp: messages_def split: if_splits)
  have old: "m_id m < g_seq g" "m' \<in> messages g \<Longrightarrow> m_id m' = m_id m \<Longrightarrow> m' = m" if "m \<in> messages g" for m m'
    using assms that unfolding ids_ok_def by blast+
  show ?thesis unfolding ids_ok_def
  proof (intro ballI conjI impI)
    fix m m' assume m: "m \<in> messages (xadd s j p g)" "m' \<in> messages (xadd s j p g)" "m_id m' = m_id m"
    show "m' = m"
    proof (cases "m = ?m \<or> m' = ?m")
      case True
      then show ?thesis using sub[OF m(1)] sub[OF m(2)] m(3) old(1)[of m] old(1)[of m'] by fastforce
    next
      case False
      then show ?thesis using sub[OF m(1)] sub[OF m(2)] m(3) old(2)[of m m'] by blast
    qed
  next
    fix m assume "m \<in> messages (xadd s j p g)"
    then show "m_id m < g_seq (xadd s j p g)" using sub[of m] old(1)[of m] by auto
  qed
qed

lemma held_ack:
  assumes "held g j" "\<And>p. p \<in> set (g_pending g s) \<Longrightarrow> m_id (fst p) = i \<Longrightarrow> m_jobId (fst p) \<noteq> j"
  shows "held (ack_and_delete s i g) j"
proof -
  from assms(1) consider s' m where "m \<in> set (g_new g s')" "m_jobId m = j" | s' p where "p \<in> set (g_pending g s')" "m_jobId (fst p) = j"
    by (auto simp: held_def stream_set_def)
  then show ?thesis
  proof cases
    case 2
    then have "p \<in> set (g_pending (ack_and_delete s i g) s')" using assms(2)[of p] by auto
    then show ?thesis using 2(2) unfolding held_def stream_set_def by blast
  qed (auto simp: held_def stream_set_def)
qed

text \<open>Taking a message off the stream keeps every other job, and its own once that is settled.\<close>
lemma accounted_ack:
  assumes "accounted g k" "m_jobId m = k \<longrightarrow> settled g k"
    "\<And>p. p \<in> set (g_pending g s) \<Longrightarrow> m_id (fst p) = m_id m \<Longrightarrow> fst p = m"
  shows "accounted (ack_and_delete s (m_id m) g) k"
proof (cases "settled g k")
  case True
  then show ?thesis by (simp add: accounted_def settled_def)
next
  case False
  then have "held g k" "m_jobId m \<noteq> k" using assms(1,2) by (auto simp: accounted_def)
  then have "held (ack_and_delete s (m_id m) g) k" using assms(3) by (intro held_ack) auto
  then show ?thesis by (simp add: accounted_def)
qed

lemma pending_ids:
  assumes "ids_ok g" "m \<in> run_message ` set (g_runs g)" "p \<in> set (g_pending g s)" "m_id (fst p) = m_id m"
  shows "fst p = m"
proof -
  have "fst p \<in> messages g" "m \<in> messages g" using assms(2,3) by (auto simp: messages_def stream_set_def)
  then show ?thesis using assms(1,4) by (auto simp: ids_ok_def)
qed

lemma accounted_mono:
  assumes "accounted g k" "g_new g' = g_new g" "g_pending g' = g_pending g" "set (g_retry g) \<subseteq> set (g_retry g')"
    "set (g_hand g) \<subseteq> set (g_hand g')" "set (g_dlq g) \<subseteq> set (g_dlq g')" "set (g_published g) \<subseteq> set (g_published g')"
  shows "accounted g' k"
  using assms held_cong[OF assms(2,3)] by (auto simp: accounted_def settled_def)

text \<open>A message and its id, as far as the pending messages of its stream are concerned.\<close>
definition own_id :: "stream \<Rightarrow> job_message \<Rightarrow> grader \<Rightarrow> bool" where
  "own_id s m g = (\<forall>p\<in>set (g_pending g s). m_id (fst p) = m_id m \<longrightarrow> fst p = m)"

lemma ack_settled:
  assumes "accounted g k" "own_id s m g'" "g_new g' = g_new g" "g_pending g' = g_pending g" "m_jobId m = k \<longrightarrow> settled g' k"
    "settled g k \<longrightarrow> settled g' k"
  shows "accounted (ack_and_delete s (m_id m) g') k"
proof (rule accounted_ack)
  show "accounted g' k" using assms held_cong[OF assms(3,4)] by (auto simp: accounted_def)
qed (use assms(2,5) in \<open>auto simp: own_id_def\<close>)

lemma reject_accounted:
  assumes "accounted g k" "own_id s m g" shows "accounted (reject_message s m p err g) k"
  unfolding reject_message_def
  by (rule ack_settled[OF assms(1)]) (use assms(2) in \<open>auto simp: own_id_def settled_def\<close>)

lemma begin_accounted:
  assumes "accounted g k" "own_id s m g" "k \<noteq> []" shows "accounted (snd (process_begin s m g)) k"
proof -
  have drop: "accounted (ack_and_delete s (m_id m) g) k" if "m_jobId m = []"
    using assms that by (intro ack_settled[of g k s m g]) auto
  have go: "accounted (update_job_hash j f (update_progress j n (transition j q h (update_job_hash j f' g)))) k" for j f n q h f'
    using assms(1) by (rule accounted_mono) simp_all
  show ?thesis
    using drop reject_accounted[OF assms(1,2)] go
    by (auto simp: process_begin_def Let_def split: job_payload.split option.split)
qed

lemma begin_frame:
  "g_new (snd (process_begin s m g)) = g_new g" "g_runs (snd (process_begin s m g)) = g_runs g"
  "g_seq (snd (process_begin s m g)) = g_seq g" "g_rows (snd (process_begin s m g)) = g_rows g"
  "g_published (snd (process_begin s m g)) = g_published g"
  "set (g_pending (snd (process_begin s m g)) s') \<subseteq> set (g_pending g s')"
  by (auto simp: process_begin_def reject_message_def Let_def split: job_payload.split option.split)

lemma begin_message: "process_begin s m g = (Some r, g') \<Longrightarrow> run_message r = m"
  by (auto simp: process_begin_def Let_def split: if_splits job_payload.splits option.splits)

lemma failure_accounted:
  assumes "accounted g k" "own_id s m g" shows "accounted (process_failure cf now ok s m job n e g) k"
  unfolding process_failure_def Let_def
  by (simp split: if_split, intro conjI impI; rule ack_settled[OF assms(1)])
    (use assms(2) in \<open>auto simp: own_id_def settled_def zadd_def\<close>)

lemma end_accounted:
  assumes "accounted g k" "own_id s m g" shows "accounted (process_end cf now out ok1 ok2 s m job n g) k"
proof (cases out)
  case (Grader_error e)
  then show ?thesis using failure_accounted[OF assms] by (simp add: process_end_def)
next
  case (Graded r)
  obtain x g1 where st: "store_results ok1 now (j_attemptId job) r (j_isPreview job) (update_progress (m_jobId m) 80 g) = (x, g1)" by force
  then have g1: "g1 = snd (store_results ok1 now (j_attemptId job) r (j_isPreview job) (update_progress (m_jobId m) 80 g))" by simp
  have a1: "accounted g1 k" unfolding g1 using assms(1) by (rule accounted_mono) simp_all
  have o1: "own_id s m g1" using assms(2) by (simp add: g1 own_id_def)
  show ?thesis
  proof (cases x)
    case (Inl e)
    then show ?thesis using failure_accounted[OF a1 o1] by (simp add: process_end_def Graded st)
  next
    case (Inr r')
    then show ?thesis
      by (simp add: process_end_def Graded st, intro ack_settled[OF a1]) (use o1 in \<open>auto simp: own_id_def settled_def\<close>)
  qed
qed

lemma failure_frame:
  "g_new (process_failure cf now ok s m job n e g) = g_new g" "g_runs (process_failure cf now ok s m job n e g) = g_runs g"
  "g_seq (process_failure cf now ok s m job n e g) = g_seq g"
  "set (g_pending (process_failure cf now ok s m job n e g) s') \<subseteq> set (g_pending g s')"
  by (auto simp: process_failure_def Let_def)

lemma end_frame:
  "g_new (process_end cf now out ok1 ok2 s m job n g) = g_new g" "g_runs (process_end cf now out ok1 ok2 s m job n g) = g_runs g"
  "g_seq (process_end cf now out ok1 ok2 s m job n g) = g_seq g"
  "set (g_pending (process_end cf now out ok1 ok2 s m job n g) s') \<subseteq> set (g_pending g s')"
proof -
  have st: "g_new g1 = g_new g \<and> g_runs g1 = g_runs g \<and> g_seq g1 = g_seq g \<and> g_pending g1 = g_pending g"
    if "store_results ok1 now (j_attemptId job) r (j_isPreview job) (update_progress (m_jobId m) 80 g) = (x, g1)" for r x g1
    using store_fields[of ok1 now "j_attemptId job" r "j_isPreview job" "update_progress (m_jobId m) 80 g"] that by simp
  show "g_new (process_end cf now out ok1 ok2 s m job n g) = g_new g" "g_runs (process_end cf now out ok1 ok2 s m job n g) = g_runs g"
    "g_seq (process_end cf now out ok1 ok2 s m job n g) = g_seq g"
    by (auto simp: process_end_def failure_frame dest: st split: grading_outcome.split prod.split sum.split)
  show "set (g_pending (process_end cf now out ok1 ok2 s m job n g) s') \<subseteq> set (g_pending g s')"
  proof (cases out)
    case (Graded r)
    obtain x g1 where g1: "store_results ok1 now (j_attemptId job) r (j_isPreview job) (update_progress (m_jobId m) 80 g) = (x, g1)" by force
    then show ?thesis
      using st[OF g1] failure_frame(4)[of cf now ok2 s m job n _ g1 s'] by (cases x) (auto simp: process_end_def Graded)
  qed (simp add: process_end_def failure_frame)
qed

lemma drop_run_messages: "run_message ` set (take i rs @ drop (Suc i) rs) \<subseteq> run_message ` set rs"
  by (auto dest: in_set_takeD in_set_dropD)

lemma remove_run_fields [simp]:
  "g_seq (remove_run i g) = g_seq g" "g_new (remove_run i g) = g_new g" "g_pending (remove_run i g) = g_pending g"
  "g_retry (remove_run i g) = g_retry g" "g_hand (remove_run i g) = g_hand g" "g_dlq (remove_run i g) = g_dlq g"
  "g_published (remove_run i g) = g_published g" "g_rows (remove_run i g) = g_rows g" "g_jobs (remove_run i g) = g_jobs g"
  "g_stats (remove_run i g) = g_stats g"
  by (simp_all add: remove_run_def)

lemma messages_sub:
  assumes "\<And>s. set (g_new g' s) \<subseteq> set (g_new g s)" "\<And>s. set (g_pending g' s) \<subseteq> set (g_pending g s)"
    "run_message ` set (g_runs g') \<subseteq> run_message ` set (g_runs g)"
  shows "messages g' \<subseteq> messages g"
proof -
  have "stream_set g' s \<subseteq> stream_set g s" for s
    using assms(1)[of s] image_mono[OF assms(2)[of s], of fst] unfolding stream_set_def by blast
  then show ?thesis unfolding messages_def by (rule Un_mono[OF UN_mono[OF subset_refl] assms(3)])
qed

lemma begin_run_ids:
  assumes "ids_ok g" shows "ids_ok (begin_run i g)"
proof (cases "i < length (g_runs g)")
  case True
  show ?thesis
  proof (cases "g_runs g ! i")
    case (Received s m)
    obtain x g' where b: "process_begin s m g = (x, g')" by force
    have f: "g_new g' = g_new g" "g_runs g' = g_runs g" "g_seq g' = g_seq g" "\<And>s'. set (g_pending g' s') \<subseteq> set (g_pending g s')"
      using begin_frame[of s m g] b by simp_all
    have mem: "m \<in> run_message ` set (g_runs g)" using True Received by (force simp: in_set_conv_nth)
    show ?thesis
    proof (cases x)
      case None
      then have e: "begin_run i g = remove_run i g'" using True by (simp add: begin_run_def Received b)
      show ?thesis unfolding e using assms
        by (rule ids_ok_mono[OF _ messages_sub]) (use f drop_run_messages[of i "g_runs g"] in \<open>auto simp: remove_run_def\<close>)
    next
      case (Some r)
      then have e: "begin_run i g = g'\<lparr> g_runs := (g_runs g)[i := r] \<rparr>" using True by (simp add: begin_run_def Received b f)
      have "run_message ` set ((g_runs g)[i := r]) \<subseteq> run_message ` set (g_runs g)"
        using set_update_subset_insert[of "g_runs g" i r] begin_message[of s m g r g'] b Some mem by auto
      then show ?thesis unfolding e using f by (intro ids_ok_mono[OF assms messages_sub]) auto
    qed
  qed (simp add: begin_run_def True assms)
qed (simp add: begin_run_def assms)

lemma end_run_ids:
  assumes "ids_ok g" shows "ids_ok (end_run cf i out ok1 ok2 now g)"
proof (cases "i < length (g_runs g)")
  case True
  show ?thesis
  proof (cases "g_runs g ! i")
    case (Grading s m job n)
    then have e: "end_run cf i out ok1 ok2 now g = remove_run i (process_end cf now out ok1 ok2 s m job n g)"
      using True by (simp add: end_run_def)
    show ?thesis unfolding e
      by (intro ids_ok_mono[OF assms messages_sub])
        (use end_frame[of cf now out ok1 ok2 s m job n g] drop_run_messages[of i "g_runs g"] in \<open>auto simp: remove_run_def\<close>)
  qed (simp add: end_run_def True assms)
qed (simp add: end_run_def assms)

lemma read_frame:
  "stream_set (read_and_dispatch cf now s g) s' = stream_set g s'"
  "run_message ` set (g_runs (read_and_dispatch cf now s g)) \<subseteq> run_message ` set (g_runs g) \<union> stream_set g s"
  "g_seq (read_and_dispatch cf now s g) = g_seq g" "g_retry (read_and_dispatch cf now s g) = g_retry g"
  "g_hand (read_and_dispatch cf now s g) = g_hand g" "g_dlq (read_and_dispatch cf now s g) = g_dlq g"
  "g_published (read_and_dispatch cf now s g) = g_published g" "g_rows (read_and_dispatch cf now s g) = g_rows g"
  "g_jobs (read_and_dispatch cf now s g) = g_jobs g" "g_stats (read_and_dispatch cf now s g) = g_stats g"
proof -
  have split: "set xs = set (take k xs) \<union> set (drop k xs)" for k and xs :: "job_message list"
    by (metis append_take_drop_id set_append)
  show "stream_set (read_and_dispatch cf now s g) s' = stream_set g s'"
    using split[of "g_new g s" "min (nat (cf_readBatch cf)) (available cf g)"]
    by (auto simp: stream_set_def read_and_dispatch_def Let_def image_Un image_image)
qed (auto simp: stream_set_def read_and_dispatch_def Let_def dest: in_set_takeD)

lemma reclaim_frame:
  "stream_set (reclaim_stream cf now s g) s' = stream_set g s'"
  "run_message ` set (g_runs (reclaim_stream cf now s g)) \<subseteq> run_message ` set (g_runs g) \<union> stream_set g s"
  "g_seq (reclaim_stream cf now s g) = g_seq g" "g_retry (reclaim_stream cf now s g) = g_retry g"
  "g_hand (reclaim_stream cf now s g) = g_hand g" "g_dlq (reclaim_stream cf now s g) = g_dlq g"
  "g_published (reclaim_stream cf now s g) = g_published g" "g_rows (reclaim_stream cf now s g) = g_rows g"
  "g_jobs (reclaim_stream cf now s g) = g_jobs g" "g_stats (reclaim_stream cf now s g) = g_stats g"
proof -
  show "stream_set (reclaim_stream cf now s g) s' = stream_set g s'"
    by (simp add: stream_set_def reclaim_stream_def Let_def image_image case_prod_unfold)
  show "run_message ` set (g_runs (reclaim_stream cf now s g)) \<subseteq> run_message ` set (g_runs g) \<union> stream_set g s"
    by (auto simp: stream_set_def reclaim_stream_def Let_def dest!: in_set_takeD)
qed (simp_all add: reclaim_stream_def Let_def)

lemma read_held: "held (read_and_dispatch cf now s g) k = held g k"
  by (simp add: held_def read_frame)

lemma reclaim_held: "held (reclaim_stream cf now s g) k = held g k"
  by (simp add: held_def reclaim_frame)

lemma read_ids: "ids_ok g \<Longrightarrow> ids_ok (read_and_dispatch cf now s g)"
proof (rule ids_ok_mono)
  show "messages (read_and_dispatch cf now s g) \<subseteq> messages g"
    unfolding messages_def using read_frame(2)[of cf now s g] by (auto simp: read_frame(1))
qed (simp_all add: read_frame)

lemma reclaim_ids: "ids_ok g \<Longrightarrow> ids_ok (reclaim_stream cf now s g)"
proof (rule ids_ok_mono)
  show "messages (reclaim_stream cf now s g) \<subseteq> messages g"
    unfolding messages_def using reclaim_frame(2)[of cf now s g] by (auto simp: reclaim_frame(1))
qed (simp_all add: reclaim_frame)

lemma settled_cong:
  "g_retry g' = g_retry g \<Longrightarrow> g_hand g' = g_hand g \<Longrightarrow> g_dlq g' = g_dlq g \<Longrightarrow> g_published g' = g_published g \<Longrightarrow>
    settled g' k = settled g k"
  by (simp add: settled_def)

lemma read_accounted: "accounted (read_and_dispatch cf now s g) k = accounted g k"
  using settled_cong[of "read_and_dispatch cf now s g" g k] by (simp add: accounted_def read_held read_frame)

lemma turn_accounted: "accounted (processing_turn cf now g) k = accounted g k"
  by (simp add: processing_turn_def Let_def read_accounted)

lemma due_members: "fst ` set (g_retry g) \<subseteq> fst ` set (g_retry (take_due now g)) \<union> set (g_hand (take_due now g))"
proof
  fix k assume "k \<in> fst ` set (g_retry g)"
  then obtain t where t: "(k, t) \<in> set (g_retry g)" by auto
  let ?ids = "map fst (take 50 (filter (\<lambda>(_, t). t \<le> now) (g_retry g)))"
  show "k \<in> fst ` set (g_retry (take_due now g)) \<union> set (g_hand (take_due now g))"
  proof (cases "k \<in> set ?ids")
    case True
    then show ?thesis by (simp add: take_due_def Let_def)
  next
    case False
    then have "(k, t) \<in> set (g_retry (take_due now g))" using t by (simp add: take_due_def Let_def)
    then show ?thesis by force
  qed
qed

lemma due_accounted:
  assumes "accounted g k" shows "accounted (take_due now g) k"
proof -
  have "held (take_due now g) k = held g k" by (rule held_cong) (simp_all add: take_due_def Let_def)
  moreover have "g_dlq (take_due now g) = g_dlq g" "g_published (take_due now g) = g_published g"
    "set (g_hand g) \<subseteq> set (g_hand (take_due now g))" by (simp_all add: take_due_def Let_def)
  ultimately show ?thesis using assms due_members[of g now] unfolding accounted_def settled_def by auto
qed

lemma requeue_fields:
  "g_retry (requeue_job j g) = g_retry g" "g_hand (requeue_job j g) = g_hand g" "g_published (requeue_job j g) = g_published g"
  "g_pending (requeue_job j g) = g_pending g" "g_rows (requeue_job j g) = g_rows g" "g_runs (requeue_job j g) = g_runs g"
  by (simp_all add: requeue_job_def Let_def)

lemma requeue_held: "held (requeue_job j g) k = (held g k \<or> k = j \<and> jh_payload (hash_at g j) \<noteq> No_payload)"
proof -
  have "held (transition j st f g') k = held g' k" "held (send_to_dlq j p e g') k = held g' k" for st f p e g'
    by (rule held_cong; simp)+
  then show ?thesis by (auto simp: requeue_job_def Let_def)
qed

lemma requeue_dlq: "g_dlq (requeue_job j g) = g_dlq g @
    (if jh_payload (hash_at g j) = No_payload then [(j, No_payload, ''missing payload on retry'')] else [])"
  by (simp add: requeue_job_def Let_def)

lemma requeue_accounted:
  assumes "accounted g k" shows "accounted (requeue_next g) k"
proof (cases "g_hand g")
  case (Cons j js)
  have h: "held (g\<lparr> g_hand := js \<rparr>) k = held g k" by (rule held_cong) simp_all
  show ?thesis using assms
    by (auto simp: requeue_next_def Cons accounted_def settled_def requeue_held requeue_fields requeue_dlq h)
qed (simp add: requeue_next_def assms)

lemma own_id_run:
  assumes "ids_ok g" "i < length (g_runs g)" "run_message (g_runs g ! i) = m" shows "own_id s m g"
  using pending_ids[OF assms(1), of m] assms(2,3) by (force simp: own_id_def in_set_conv_nth)

lemma begin_run_accounted:
  assumes "ids_ok g" "accounted g k" "k \<noteq> []" shows "accounted (begin_run i g) k"
proof (cases "i < length (g_runs g)")
  case True
  show ?thesis
  proof (cases "g_runs g ! i")
    case (Received s m)
    obtain x g' where b: "process_begin s m g = (x, g')" by force
    have a: "accounted g' k" using begin_accounted[OF assms(2) own_id_run[OF assms(1) True] assms(3), of m s] Received b by simp
    have "accounted (remove_run i g') k" "accounted (g'\<lparr> g_runs := rs \<rparr>) k" for rs
      using a by (auto intro: accounted_mono)
    then show ?thesis by (cases x) (simp_all add: begin_run_def True Received b)
  qed (simp add: begin_run_def True assms)
qed (simp add: begin_run_def assms)

lemma end_run_accounted:
  assumes "ids_ok g" "accounted g k" shows "accounted (end_run cf i out ok1 ok2 now g) k"
proof (cases "i < length (g_runs g)")
  case True
  show ?thesis
  proof (cases "g_runs g ! i")
    case (Grading s m job n)
    have "accounted (process_end cf now out ok1 ok2 s m job n g) k"
      using end_accounted[OF assms(2) own_id_run[OF assms(1) True]] Grading by simp
    then have "accounted (remove_run i (process_end cf now out ok1 ok2 s m job n g)) k" by (rule accounted_mono) simp_all
    then show ?thesis by (simp add: end_run_def True Grading)
  qed (simp add: end_run_def True assms)
qed (simp add: end_run_def assms)

text \<open>The two events that can lose a job: a crash of the worker while its retry loop holds the id, and the clean-up
  of a retry that is overdue by the life time of a job.\<close>
definition loses :: "grader_config \<Rightarrow> grader_event \<Rightarrow> grader \<Rightarrow> id \<Rightarrow> bool" where
  "loses cf e g k = (case e of Crash \<Rightarrow> k \<in> set (g_hand g)
     | Cleanup now \<Rightarrow> (\<exists>t. (k, t) \<in> set (g_retry g) \<and> t \<le> now - 1000 * cf_jobTtlSec cf) | _ \<Rightarrow> False)"

fun lossless :: "grader_config \<Rightarrow> grader_event list \<Rightarrow> grader \<Rightarrow> id \<Rightarrow> bool" where
  "lossless cf [] g k = True"
| "lossless cf (e # es) g k = (\<not> loses cf e g k \<and> lossless cf es (grader_step cf e g) k)"

lemma ids_ok_same:
  "ids_ok g \<Longrightarrow> g_new g' = g_new g \<Longrightarrow> g_pending g' = g_pending g \<Longrightarrow> g_runs g' = g_runs g \<Longrightarrow> g_seq g' = g_seq g \<Longrightarrow> ids_ok g'"
  by (erule ids_ok_mono) (simp_all add: messages_def stream_set_def)

lemma requeue_ids:
  assumes "ids_ok g" shows "ids_ok (requeue_job j g)"
proof (cases "jh_payload (hash_at g j) = No_payload")
  case True
  show ?thesis using assms by (rule ids_ok_same) (simp_all add: requeue_job_def Let_def True)
next
  case False
  let ?s = "if jh_isPreview (hash_at g j) then Low else High"
  have "requeue_job j g = transition j Queued (\<lambda>h. h) (xadd ?s j (jh_payload (hash_at g j)) g)"
    using False by (simp add: requeue_job_def Let_def)
  moreover have "ids_ok (transition j Queued (\<lambda>h. h) (xadd ?s j (jh_payload (hash_at g j)) g))"
    using ids_ok_xadd[OF assms, of ?s j "jh_payload (hash_at g j)"] by (rule ids_ok_same) simp_all
  ultimately show ?thesis by simp
qed

lemma step_ids:
  assumes "ids_ok g" shows "ids_ok (grader_step cf e g)"
proof (cases e)
  case (Api_add j job)
  then show ?thesis using assms by (simp add: api_add_def ids_ok_xadd)
next
  case Requeue
  show ?thesis
  proof (cases "g_hand g")
    case (Cons j js)
    have "ids_ok (g\<lparr> g_hand := js \<rparr>)" using assms by (rule ids_ok_same) simp_all
    then have "ids_ok (requeue_job j (g\<lparr> g_hand := js \<rparr>))" by (rule requeue_ids)
    then show ?thesis by (simp add: Requeue requeue_next_def Cons)
  qed (simp add: Requeue requeue_next_def assms)
next
  case (Turn now)
  then show ?thesis using assms by (simp add: processing_turn_def Let_def read_ids)
next
  case Crash
  have "messages (g\<lparr> g_runs := [], g_hand := [] \<rparr>) \<subseteq> messages g" by (rule messages_sub) simp_all
  then show ?thesis using ids_ok_mono[OF assms] Crash by simp
next
  case (Begin i)
  then show ?thesis using assms by (simp add: begin_run_ids)
next
  case (Answer i out ok1 ok2 now)
  then show ?thesis using assms by (simp add: end_run_ids)
next
  case (Reclaim s now)
  then show ?thesis using assms by (simp add: reclaim_ids)
qed (simp_all add: api_record_def take_due_def retry_cleanup_def Let_def ids_ok_same[OF assms])

lemma cleanup_accounted:
  assumes "accounted g k" "\<not> loses cf (Cleanup now) g k" shows "accounted (retry_cleanup cf now g) k"
proof -
  have "held (retry_cleanup cf now g) k = held g k" by (rule held_cong) (simp_all add: retry_cleanup_def)
  then show ?thesis using assms by (force simp: accounted_def settled_def retry_cleanup_def loses_def)
qed

lemma step_accounted:
  assumes "ids_ok g" "accounted g k" "k \<noteq> []" "\<not> loses cf e g k" shows "accounted (grader_step cf e g) k"
proof (cases e)
  case (Api_add j job)
  then show ?thesis using assms(2) by (auto simp: accounted_def settled_def api_add_def)
next
  case (Reclaim s now)
  then show ?thesis using assms(2) by (simp add: accounted_def settled_def reclaim_held reclaim_frame)
next
  case (Cleanup now)
  then show ?thesis using cleanup_accounted assms by simp
next
  case Crash
  have "held (g\<lparr> g_runs := [], g_hand := [] \<rparr>) k = held g k" by (rule held_cong) simp_all
  then show ?thesis using assms Crash by (auto simp: accounted_def settled_def loses_def)
qed (use assms in \<open>auto intro: accounted_mono begin_run_accounted end_run_accounted due_accounted requeue_accounted
    simp: turn_accounted api_record_def\<close>)

lemma run_ids: "ids_ok g \<Longrightarrow> ids_ok (grader_run cf es g)"
  by (induction es arbitrary: g) (simp_all add: step_ids)

lemma run_accounted:
  "ids_ok g \<Longrightarrow> accounted g k \<Longrightarrow> k \<noteq> [] \<Longrightarrow> lossless cf es g k \<Longrightarrow> accounted (grader_run cf es g) k"
  by (induction es arbitrary: g) (simp_all add: step_ids step_accounted)

lemma ids_start [simp]: "ids_ok (start_grader rows)"
  by (simp add: ids_ok_def messages_def stream_set_def start_grader_def)

text \<open>C4: No grading job is lost. Once the server has put a job on a stream, then whatever happens, in any order, with any
  number of crashes of the worker, takeovers of unacknowledged messages, failures of the grader and of the database,
  and expired hashes: a message for the job waits in a stream or is not acknowledged, or it waits for its next
  attempt, or it is in the dead letters, or its result was stored and announced; unless the worker crashed between the two
  commands that take a due retry from the set and queue it again, or a retry was overdue for the life time of a job.\<close>
theorem no_job_lost:
  assumes "j \<noteq> []" "lossless cf es (grader_run cf (es0 @ [Api_add j job]) (start_grader rows)) j"
  shows "accounted (grader_run cf (es0 @ [Api_add j job] @ es) (start_grader rows)) j"
proof -
  let ?g = "grader_run cf (es0 @ [Api_add j job]) (start_grader rows)"
  have "ids_ok ?g" by (rule run_ids[OF ids_start])
  moreover have "accounted ?g j" by (simp add: grader_run_snoc api_add_def accounted_def)
  ultimately have "accounted (grader_run cf es ?g) j" by (rule run_accounted[OF _ _ assms])
  then show ?thesis by (simp add: grader_run_def)
qed

end
