(* ===== verification/Attempt_Lifecycle.thy ===== *)
theory Attempt_Lifecycle
  imports Exam_Routes Exam_Scheduler Grader_Worker Socket_Facts
begin

text \<open>
  The life of an attempt across the components. The abstract machine has three phases: an attempt is
  open while it is in progress, waits from its submission until its result, and is done with the result.
  It says who an attempt belongs to and when it started once and for all, and when it was submitted once it
  is no longer open. The scheduler reads the attempts in progress first and submits them by id later, so the
  machine also knows whether a scheduler holds the attempt on its list: a listed attempt can be submitted
  again whatever its phase. The concrete steps are the routes, the socket handlers, the timers,
  the single steps of any number of scheduler cycles and the rows the grader writes; each is simulated by the abstract machine.
\<close>

section \<open>The abstract machine\<close>

datatype phase = Open | Waiting | Done

record abstract_attempt =
  ab_phase :: phase
  ab_owner :: "id \<times> id \<times> time"
  ab_submittedAt :: "time option"

inductive abstract_move :: "abstract_attempt option \<Rightarrow> abstract_attempt option \<Rightarrow> bool" where
  am_stay: "abstract_move x x"
| am_open: "abstract_move None (Some \<lparr> ab_phase = Open, ab_owner = o1, ab_submittedAt = None \<rparr>)"
| am_submit: "ab_phase x = Open \<Longrightarrow> abstract_move (Some x) (Some (x\<lparr> ab_phase := Waiting, ab_submittedAt := Some t \<rparr>))"
| am_result: "abstract_move (Some x) (Some (x\<lparr> ab_phase := Done \<rparr>))"

text \<open>The machine with the list of the schedulers.\<close>
inductive listed_move :: "bool \<times> abstract_attempt option \<Rightarrow> bool \<times> abstract_attempt option \<Rightarrow> bool" where
  lm_move: "abstract_move x y \<Longrightarrow> listed_move (h, x) (h, y)"
| lm_list: "ab_phase x = Open \<Longrightarrow> listed_move (h, Some x) (True, Some x)"
| lm_drop: "listed_move (h, x) (False, x)"
| lm_stale: "listed_move (True, Some x) (True, Some (x\<lparr> ab_phase := Waiting, ab_submittedAt := Some t \<rparr>))"

section \<open>The abstraction\<close>

definition phase_of :: "attempt_status \<Rightarrow> phase" where
  "phase_of s = (case s of IN_PROGRESS \<Rightarrow> Open | SUBMITTED \<Rightarrow> Waiting | GRADING \<Rightarrow> Waiting | COMPLETED \<Rightarrow> Done | FAILED \<Rightarrow> Done)"

definition abs_attempt :: "attempt \<Rightarrow> abstract_attempt" where
  "abs_attempt a = \<lparr> ab_phase = phase_of (a_status a), ab_owner = (a_examId a, a_candidateId a, a_startedAt a),
     ab_submittedAt = a_submittedAt a \<rparr>"

definition abs_world :: "world \<Rightarrow> id \<Rightarrow> abstract_attempt option" where
  "abs_world W k = map_option abs_attempt (w_attempts W k)"

definition simulated :: "world \<Rightarrow> world \<Rightarrow> bool" where
  "simulated W W' = (\<forall>k. abstract_move (abs_world W k) (abs_world W' k))"

lemma phase_of_simps [simp]: "phase_of IN_PROGRESS = Open" "phase_of SUBMITTED = Waiting" "phase_of GRADING = Waiting"
  "phase_of COMPLETED = Done" "phase_of FAILED = Done"
  by (simp_all add: phase_of_def)

lemma phase_Open [simp]: "phase_of s = Open \<longleftrightarrow> s = IN_PROGRESS"
  by (cases s) simp_all

lemma simulated_same: "w_attempts W' = w_attempts W \<Longrightarrow> simulated W W'"
  by (simp add: simulated_def abs_world_def am_stay)

lemma simulated_row:
  assumes "w_attempts W k = Some a" "w_attempts W' = (w_attempts W)(k \<mapsto> a')" "abstract_move (Some (abs_attempt a)) (Some (abs_attempt a'))"
  shows "simulated W W'"
  using assms by (simp add: simulated_def abs_world_def am_stay)

text \<open>An update by id that keeps what the abstraction sees.\<close>
lemma simulated_upd:
  assumes "\<And>a. abs_attempt (f a) = abs_attempt a" shows "simulated W (w_attempts_update (row_upd k f) W)"
  by (auto simp: simulated_def abs_world_def option.map_comp comp_def assms am_stay)

lemma simulated_keep:
  assumes "\<And>k. abs_world W' k = abs_world W k" shows "simulated W W'"
  by (simp add: simulated_def assms am_stay)

lemma simulated_insert:
  assumes "w_attempts W k = None" "w_attempts W' = (w_attempts W)(k \<mapsto> new_attempt k e u fs t)"
  shows "simulated W W'"
  using assms am_open by (auto simp: simulated_def abs_world_def am_stay abs_attempt_def new_attempt_def)

lemma abs_files [simp]: "abs_attempt (a\<lparr> a_files := f \<rparr>) = abs_attempt a"
  by (simp add: abs_attempt_def)

lemma submit_move: "a_status a = IN_PROGRESS \<Longrightarrow> s = SUBMITTED \<or> s = GRADING \<Longrightarrow>
    abstract_move (Some (abs_attempt a)) (Some (abs_attempt (a\<lparr> a_status := s, a_submittedAt := Some t, a_files := f \<rparr>)))"
  using am_submit[of "abs_attempt a" t] by (auto simp: abs_attempt_def)

section \<open>The concrete steps\<close>

text \<open>The attempts a scheduler has read and not yet worked off.\<close>
definition entry_ids :: "expired_entry \<Rightarrow> id set" where
  "entry_ids x = a_id ` set (fst (snd (snd x)))"

definition on_list :: "scheduler_at \<Rightarrow> id set" where
  "on_list l = (case l of At_exams xs \<Rightarrow> \<Union> (entry_ids ` set xs)
     | At_attempts x xs \<Rightarrow> entry_ids x \<union> \<Union> (entry_ids ` set xs)
     | At_overdue xs \<Rightarrow> (\<lambda>x. a_id (fst x)) ` set xs
     | At_manual ch as \<Rightarrow> a_id ` set as
     | _ \<Rightarrow> {})"

text \<open>Any operation of the API server that can touch an attempt, by whomever and whenever. Beside the server stand
  the schedulers, as many cycles and manual processings as one likes, each somewhere in its steps. The ids of new rows
  are unused.\<close>
type_synonym 'w life = "(nat \<Rightarrow> scheduler_at) \<times> 'w node"

inductive life_step :: "'w services \<Rightarrow> ('w \<Rightarrow> world) \<Rightarrow> 'w life \<Rightarrow> 'w life \<Rightarrow> bool" for S V where
  ls_start: "w_attempts (V w) newid = None \<Longrightarrow> life_step S V (l, n, w) (l, n, snd (start_attempt S now newid u body w))"
| ls_accept: "w_attempts (V w) newid = None \<Longrightarrow> life_step S V (l, n, w) (l, n, snd (accept_invitation S req now newid u token w))"
| ls_save: "life_step S V (l, n, w) (l, n, snd (save_files S now u aid fs w))"
| ls_run_tests: "life_step S V (l, st) (l, snd (run_tests S now uuid u aid st))"
| ls_submit: "life_step S V (l, st) (l, snd (submit_attempt S now uuid u aid body st))"
| ls_screenshot: "life_step S V (l, n, w) (l, n, snd (upload_screenshot S cf sas now u aid file et w))"
| ls_code_save: "life_step S V (l, n, w) (l, n, snd (code_save S T now sid k aid fs' w))"
| ls_code_flush: "life_step S V (l, n, w) (l, n, snd (code_flush S now k aid w))"
| ls_flush_all: "life_step S V (l, n, w) (l, n, background_tick S now running w)"
| ls_event: "w_events (V w) newid = None \<Longrightarrow> life_step S V (l, n, w) (l, n, snd (log_event S now newid u pb w))"
| ls_socket_event: "w_events (V w) newid = None \<Longrightarrow> life_step S V (l, n, w) (l, n, snd (log_proctor_event S now newid u d w))"
| ls_timer: "timer_step S st st' \<Longrightarrow> life_step S V (l, st) (l, st')"
| ls_scheduler: "scheduler_step S now pid uuid' io (l i, st) = (q, st') \<Longrightarrow> life_step S V (l, st) (l(i := q), st')"
| ls_exam_end: "l i = At_rest \<Longrightarrow> life_step S V (l, n, w) (l(i := exam_end_query S eid w), n, w)"
| ls_result: "life_step S V (l, n, w) (l, n, update_attempt S aid (result_row now r preview) w)"

text \<open>What the abstract machine sees of an attempt.\<close>
definition abs_life :: "(nat \<Rightarrow> scheduler_at) \<Rightarrow> world \<Rightarrow> id \<Rightarrow> bool \<times> abstract_attempt option" where
  "abs_life l W k = (\<exists>i. k \<in> on_list (l i), abs_world W k)"

lemma simulated_submit:
  assumes "w_attempts W aid = Some a" "a_status a = IN_PROGRESS" "s = SUBMITTED \<or> s = GRADING"
    "w_attempts W' = (w_attempts W)(aid \<mapsto> a\<lparr> a_status := s, a_submittedAt := Some t, a_files := f \<rparr>)"
  shows "simulated W W'"
  by (rule simulated_row[OF assms(1,4) submit_move[OF assms(2,3)]])

context services begin

lemma attempts_add_job [simp]: "w_attempts (V (snd (snd (add_grading_job S now uuid job (init, w))))) = w_attempts (V w)"
proof -
  obtain jid i1 w1 where j: "add_grading_job S now uuid job (init, w) = (jid, i1, w1)"
    by (cases "add_grading_job S now uuid job (init, w)") auto
  then show ?thesis using add_job_V(3)[OF j] by auto
qed

lemma attempts_add_job_result: "add_grading_job S now uuid job (init, w) = (jid, i1, w1) \<Longrightarrow> w_attempts (V w1) = w_attempts (V w)"
  using attempts_add_job[of now uuid job init w] by simp

lemma attempts_insert: "w_attempts (V w) (a_id a) = None \<Longrightarrow>
    V (t_insert (sv_attempts S) a w) = w_attempts_update (\<lambda>m. m(a_id a \<mapsto> a)) (V w)"
  by (rule table_insert[OF attempts_ok])

lemma start_simulated:
  assumes "w_attempts (V w) newid = None"
  shows "simulated (V w) (V (snd (start_attempt S now newid u body w)))"
proof -
  have ins: "simulated (V w) (V (t_insert (sv_attempts S) (new_attempt newid e c fs now) w))" for e c fs
    using assms by (intro simulated_insert[of _ newid]) (simp_all add: attempts_insert)
  show ?thesis
    by (auto simp: start_attempt_def Let_def simulated_same ins split: option.split)
qed

lemma accept_simulated:
  assumes "w_attempts (V w) newid = None"
  shows "simulated (V w) (V (snd (accept_invitation S req now newid u token w)))"
proof -
  have upd: "w_attempts (V (update_invitation S k (\<lambda>r. r\<lparr> i_usedAt := Some now \<rparr>) w)) = w_attempts (V w)" for k
    by simp
  have ins: "simulated (V w) (V (t_insert (sv_attempts S) (new_attempt newid e c fs now)
      (update_invitation S k (\<lambda>r. r\<lparr> i_usedAt := Some now \<rparr>) w)))" for e c fs k
    using assms by (intro simulated_insert[of _ newid]) (simp_all add: attempts_insert)
  show ?thesis
    by (auto simp: accept_invitation_def Let_def simulated_same ins split: option.split)
qed

lemma run_tests_attempts [simp]: "w_attempts (V (snd (snd (run_tests S now uuid u aid (n, w))))) = w_attempts (V w)"
proof -
  obtain ok w1 where l: "sv_setnx S now (grading_lock_key aid) (Num now) 90 w = (ok, w1)" by force
  have w1: "w_attempts (V w1) = w_attempts (V w)"
    using setnx_snd[of now "grading_lock_key aid" "Num now" 90 w] by (simp add: l split: if_splits)
  obtain r n2 w2 where b: "run_tests_locked S now uuid u aid (n, w1) = (r, n2, w2)"
    by (cases "run_tests_locked S now uuid u aid (n, w1)") auto
  have "w_attempts (V (snd (snd (run_tests_locked S now uuid u aid (n, w1))))) = w_attempts (V w1)"
    by (auto simp: run_tests_locked_def Let_def dest!: attempts_add_job_result split: option.split prod.split)
  then show ?thesis using w1 by (auto simp: run_tests_def l b split: sum.split)
qed

lemma submit_simulated: "simulated (V w) (V (snd (snd (submit_attempt S now uuid u aid body (n, w)))))"
proof (cases "w_attempts (V w) aid")
  case None
  then show ?thesis by (auto simp: submit_attempt_def simulated_same split: option.split)
next
  case (Some a)
  show ?thesis
  proof (cases "body = None \<or> a_candidateId a \<noteq> jp_userId u \<or> a_status a \<noteq> IN_PROGRESS")
    case True
    then show ?thesis using Some by (auto simp: submit_attempt_def simulated_same split: option.split)
  next
    case False
    then obtain req where body: "body = Some req" and own: "a_candidateId a = jp_userId u" and open_: "a_status a = IN_PROGRESS" by auto
    obtain n1 w1 where s1: "stop_timer_permanently S now aid (n, w) = (n1, w1)" by force
    have V1: "w_attempts (V w1) = w_attempts (V w)" using V_stop_permanently(1)[of now aid n w] s1 by simp
    define w2 where "w2 = snd (flush_to_database S now aid w1)"
    have V2: "V w2 = flushed now aid (V w1)" by (simp add: w2_def)
    define fs where "fs = or_default (or_else req (or_else (get_from_buffer S now aid w2) (a_files a))) []"
    define w3 where "w3 = update_attempt S aid (\<lambda>r. r\<lparr> a_status := SUBMITTED, a_submittedAt := Some now, a_files := Some fs \<rparr>) w2"
    have w3: "w_attempts (V w3) = (w_attempts (V w))(aid \<mapsto> a\<lparr> a_status := SUBMITTED, a_submittedAt := Some now, a_files := Some fs \<rparr>)"
      using Some by (auto simp: w3_def w2_def flushed_row V1 fun_eq_iff)
    show ?thesis
    proof (cases "challenge_of (V w) a")
      case None
      then have "snd (snd (submit_attempt S now uuid u aid body (n, w))) = w3"
        by (simp add: submit_attempt_def body Some own open_ s1 Let_def w2_def[symmetric] fs_def[symmetric, unfolded get_from_buffer_eq V2] w3_def[symmetric])
      then show ?thesis using simulated_submit[OF Some open_ _ w3] by simp
    next
      case (Some c)
      obtain jid i4 w4 where j: "add_grading_job S now uuid (full_job (a_id a) fs c) (n_streams n1, w3) = (jid, i4, w4)"
        by (cases "add_grading_job S now uuid (full_job (a_id a) fs c) (n_streams n1, w3)") auto
      have V4: "w_attempts (V w4) = w_attempts (V w3)" using attempts_add_job[of now uuid "full_job (a_id a) fs c" "n_streams n1" w3] j by simp
      have e: "snd (snd (submit_attempt S now uuid u aid body (n, w))) =
          clear_buffer S now aid (update_attempt S aid (a_status_update (\<lambda>_. GRADING)) w4)"
        using Some j by (simp add: submit_attempt_def body \<open>w_attempts (V w) aid = Some a\<close> own open_ s1 Let_def w2_def[symmetric]
          fs_def[symmetric, unfolded get_from_buffer_eq V2] w3_def[symmetric])
      have "w_attempts (V (snd (snd (submit_attempt S now uuid u aid body (n, w))))) =
          (w_attempts (V w))(aid \<mapsto> a\<lparr> a_status := GRADING, a_submittedAt := Some now, a_files := Some fs \<rparr>)"
        unfolding e by (auto simp: V4 w3 fun_eq_iff)
      from simulated_submit[OF \<open>w_attempts (V w) aid = Some a\<close> open_ _ this] show ?thesis by simp
    qed
  qed
qed

lemma abs_flushed: "abs_world (flushed now aid W) k = abs_world W k"
  by (simp add: abs_world_def flushed_row option.map_comp comp_def)

lemma flush_simulated: "simulated (V w) (V (snd (flush_to_database S now aid w)))"
  by (rule simulated_keep) (simp add: abs_flushed)

lemma abs_flush_each: "abs_world (V (snd (flush_each S now aids m w))) k = abs_world (V w) k"
proof (induction aids arbitrary: m w)
  case (Cons a aids)
  obtain b w1 where f: "flush_to_database S now a w = (b, w1)" by force
  have "V w1 = flushed now a (V w)" using V_flush[of now a w] f by simp
  then show ?case using Cons.IH[of "if b then m + 1 else m" w1] by (simp add: f abs_flushed)
qed simp

lemma tick_simulated: "simulated (V w) (V (background_tick S now running w))"
  by (rule simulated_keep) (simp add: background_tick_def flush_all_dirty_def Let_def abs_flush_each)

lemma bump_abs: "bump et d a = Some a' \<Longrightarrow> abs_attempt a' = abs_attempt a"
  by (auto simp: bump_def abs_attempt_def Let_def split: event_type.splits option.splits if_splits)

lemma counters_simulated: "simulated (V w) (V (snd (update_integrity_counters S aid et d w)))"
proof (rule simulated_keep)
  fix k
  have b: "abs_attempt (or_default (bump et d r) r) = abs_attempt r" for r
    using bump_abs[of et d r] by (cases "bump et d r") simp_all
  show "abs_world (V (snd (update_integrity_counters S aid et d w))) k = abs_world (V w) k"
    by (cases "w_attempts (V w) aid")
      (simp_all add: update_integrity_counters_def abs_world_def update_attempt_eq[of "\<lambda>r. or_default (bump et d r) r"] option.map_comp comp_def b)
qed

lemma attempts_insert_event:
  "w_events (V w) newid = None \<Longrightarrow> w_attempts (V (snd (insert_event S now newid aid et d p m w))) = w_attempts (V w)"
  by (simp add: insert_event_def table_insert[OF events_ok] split: option.split)

end

lemma simulated_from: "w_attempts W1 = w_attempts W \<Longrightarrow> simulated W1 W' \<Longrightarrow> simulated W W'"
  by (simp add: simulated_def abs_world_def)

lemma simulated_messages [simp]: "simulated W (w_pub_update f W') = simulated W W'" "simulated W (w_out_update g W') = simulated W W'"
  by (simp_all add: simulated_def abs_world_def)

context services begin

lemma event_simulated:
  assumes "w_events (V w) newid = None" shows "simulated (V w) (V (snd (log_event S now newid u body w)))"
proof -
  have c: "simulated (V w) (V (snd (update_integrity_counters S aid et d w1)))"
    if "insert_event S now newid aid' et' d' p m w = (x, w1)" for aid et d x w1 aid' et' d' p m
    using simulated_from[OF _ counters_simulated] attempts_insert_event[OF assms, of now aid' et' d' p m] that by simp
  have i: "simulated (V w) (V w1)" if "insert_event S now newid aid' et' d' p m w = (x, w1)" for x w1 aid' et' d' p m
    using attempts_insert_event[OF assms, of now aid' et' d' p m] that by (simp add: simulated_same)
  show ?thesis
    by (auto simp: log_event_def Let_def simulated_same c i split: option.split sum.split prod.split)
qed

lemma socket_event_simulated:
  assumes "w_events (V w) newid = None" shows "simulated (V w) (V (snd (log_proctor_event S now newid u d w)))"
proof -
  have i: "w_attempts (V w1) = w_attempts (V w)" if "insert_event S now newid aid' et' d' p m w = (x, w1)" for x w1 aid' et' d' p m
    using attempts_insert_event[OF assms, of now aid' et' d' p m] that by simp
  have c: "simulated (V w) (V w2)"
    if "insert_event S now newid aid' et' d' p m w = (x, w1)" "update_integrity_counters S aid et dd w1 = (y, w2)" for aid et dd x w1 y w2 aid' et' d' p m
    using simulated_from[OF i[OF that(1)] counters_simulated, of aid et dd] that(2) by simp
  show ?thesis
    by (auto simp: log_proctor_event_def Let_def simulated_same c i split: option.split sum.split prod.split)
qed

lemma auto_submit_abs:
  "abs_world (V (snd (auto_submit_attempt S now uuid' io a ch (n, w)))) k =
    (if k = a_id a then map_option (\<lambda>x. x\<lparr> ab_phase := Waiting, ab_submittedAt := Some now \<rparr>) (abs_world (V w) k)
     else abs_world (V w) k)"
proof -
  define w1 where "w1 = (if io then sv_emit S (attempt_room (a_id a))
           (TimerExpired ''Exam window has closed. Your exam has been automatically submitted.'' (Some ''scheduled_end'')) w else w)"
  define w2 where "w2 = snd (flush_to_database S now (a_id a) w1)"
  have a2: "abs_world (V w2) k = abs_world (V w) k" for k
    by (simp add: w2_def w1_def abs_flushed) (simp add: abs_world_def)
  define fs where "fs = or_default (or_else (get_from_buffer S now (a_id a) w2) (a_files a)) []"
  define w3 where "w3 = update_attempt S (a_id a) (\<lambda>r. r\<lparr> a_status := SUBMITTED, a_submittedAt := Some now, a_files := Some fs \<rparr>) w2"
  have a3: "abs_world (V w3) k = (if k = a_id a then map_option (\<lambda>x. x\<lparr> ab_phase := Waiting, ab_submittedAt := Some now \<rparr>) (abs_world (V w) k)
     else abs_world (V w) k)" for k
    unfolding a2[symmetric] by (simp add: w3_def abs_world_def abs_attempt_def option.map_comp comp_def)
  show ?thesis
  proof (cases ch)
    case None
    then have "snd (auto_submit_attempt S now uuid' io a ch (n, w)) = w3"
      by (simp add: auto_submit_attempt_def Let_def w1_def[symmetric] w2_def[symmetric] fs_def[symmetric] w3_def[symmetric] del: get_from_buffer_eq)
    then show ?thesis by (simp add: a3)
  next
    case (Some c)
    obtain jid i4 w4 where j: "add_grading_job S now (uuid' (a_id a)) (full_job (a_id a) fs c) (n_streams n, w3) = (jid, i4, w4)"
      by (cases "add_grading_job S now (uuid' (a_id a)) (full_job (a_id a) fs c) (n_streams n, w3)") auto
    have e: "snd (auto_submit_attempt S now uuid' io a ch (n, w)) = update_attempt S (a_id a) (a_status_update (\<lambda>_. GRADING)) w4"
      using Some j by (simp add: auto_submit_attempt_def Let_def w1_def[symmetric] w2_def[symmetric] fs_def[symmetric] w3_def[symmetric] del: get_from_buffer_eq)
    have "w_attempts (V w4) = w_attempts (V w3)" by (rule attempts_add_job_result[OF j])
    then have "abs_world (V w4) k = abs_world (V w3) k" for k by (simp add: abs_world_def)
    moreover have "abs_world (V (update_attempt S (a_id a) (a_status_update (\<lambda>_. GRADING)) w4)) k =
        (if k = a_id a then map_option (\<lambda>x. x\<lparr> ab_phase := Waiting \<rparr>) (abs_world (V w4) k) else abs_world (V w4) k)"
      by (simp add: abs_world_def abs_attempt_def option.map_comp comp_def)
    ultimately show ?thesis unfolding e by (cases "abs_world (V w) k") (auto simp: a3)
  qed
qed

text \<open>What a step of a scheduler does to an attempt: it may read one that is in progress, and it submits only
  attempts it holds.\<close>
definition scheduler_effect :: "id \<Rightarrow> scheduler_at \<Rightarrow> world \<Rightarrow> scheduler_at \<Rightarrow> world \<Rightarrow> bool" where
  "scheduler_effect k l W q W' =
    ((abs_world W' k = abs_world W k \<and> (k \<in> on_list q \<longrightarrow> k \<in> on_list l \<or> (\<exists>x. abs_world W k = Some x \<and> ab_phase x = Open)))
     \<or> (k \<in> on_list l \<and> (k \<in> on_list q \<longrightarrow> k \<in> on_list l) \<and>
        (\<exists>t. abs_world W' k = map_option (\<lambda>x. x\<lparr> ab_phase := Waiting, ab_submittedAt := Some t \<rparr>) (abs_world W k))))"

lemma scheduler_effect_keep:
  "abs_world W' k = abs_world W k \<Longrightarrow> (k \<in> on_list q \<Longrightarrow> k \<in> on_list l) \<Longrightarrow> scheduler_effect k l W q W'"
  by (simp add: scheduler_effect_def)

lemma auto_submit_effect:
  assumes "abs_world (V w) k = abs_world W k" "a_id a \<in> on_list l" "k \<in> on_list q \<longrightarrow> k \<in> on_list l"
  shows "scheduler_effect k l W q (V (snd (auto_submit_attempt S now uuid' io a ch (n, w))))"
  using assms by (auto simp: scheduler_effect_def auto_submit_abs)

lemma read_in_progress:
  "a \<in> set (t_select (sv_attempts S) (\<lambda>a. P a \<and> a_status a = IN_PROGRESS) w) \<Longrightarrow>
    \<exists>x. abs_world (V w) (a_id a) = Some x \<and> ab_phase x = Open"
  by (simp add: table_set[OF attempts_ok] abs_world_def abs_attempt_def)

lemma expired_held: "k \<in> entry_ids x \<Longrightarrow> x \<in> set (expired_exams S now w) \<Longrightarrow> \<exists>y. abs_world (V w) k = Some y \<and> ab_phase y = Open"
  using read_in_progress by (auto simp: expired_exams_def entry_ids_def)

lemma progress_held: "x \<in> set (attempts_in_progress S w) \<Longrightarrow> \<exists>y. abs_world (V w) (a_id (fst x)) = Some y \<and> ab_phase y = Open"
  using read_in_progress[of _ "\<lambda>_. True"] by (auto simp: attempts_in_progress_def)

lemma abs_same: "w_attempts W' = w_attempts W \<Longrightarrow> abs_world W' k = abs_world W k"
  by (simp add: abs_world_def)

lemma fallback_effect:
  assumes "l = At_overdue (x # xs)"
  shows "scheduler_effect k l (V w) (At_overdue xs) (V (snd (fallback_attempt S now uuid' io x (n, w))))"
proof -
  obtain a ec where x: "x = (a, ec)" by force
  have h: "a_id a \<in> on_list l" "k \<in> on_list (At_overdue xs) \<longrightarrow> k \<in> on_list l" using assms x by (auto simp: on_list_def)
  obtain ok w1 where l1: "sv_setnx S now (attempt_lock_key (a_id a)) (Num 1) 300 w = (ok, w1)" by force
  have w1: "w_attempts (V w1) = w_attempts (V w)"
    using setnx_snd[of now "attempt_lock_key (a_id a)" "Num 1" 300 w] by (simp add: l1 split: if_splits)
  have "scheduler_effect k l (V w) (At_overdue xs) (V (snd (auto_submit_attempt S now uuid' io a ch (n, w1))))" for ch
    by (rule auto_submit_effect[OF abs_same[OF w1] h])
  moreover have "scheduler_effect k l (V w) (At_overdue xs) W'" if "w_attempts W' = w_attempts (V w)" for W'
    using h(2) by (intro scheduler_effect_keep abs_same[OF that]) simp
  ultimately show ?thesis using w1 by (auto simp: x fallback_attempt_def l1 split: option.split)
qed

lemma scheduler_step_effect:
  assumes "scheduler_step S now pid uuid' io (l, n, w) = (q, n', w')"
  shows "scheduler_effect k l (V w) q (V w')"
proof (cases l)
  case At_rest
  obtain ok w0 where l0: "sv_setnx S now scheduler_lock_key (Num pid) scheduler_lock_ttl w = (ok, w0)" by force
  have "w_attempts (V w0) = w_attempts (V w)"
    using setnx_snd[of now scheduler_lock_key "Num pid" scheduler_lock_ttl w] by (simp add: l0 split: if_splits)
  then show ?thesis using assms At_rest by (auto simp: scheduler_step_def l0 on_list_def intro!: scheduler_effect_keep abs_same split: if_splits)
next
  case At_warmup
  then show ?thesis using assms
    by (auto simp: scheduler_step_def request_warmup_def Let_def on_list_def intro!: scheduler_effect_keep abs_same)
next
  case At_query
  then show ?thesis using assms expired_held by (auto simp: scheduler_step_def scheduler_effect_def on_list_def)
next
  case (At_exams xs)
  then show ?thesis using assms
    by (cases xs) (auto simp: scheduler_step_def on_list_def entry_ids_def intro!: scheduler_effect_keep abs_same split: if_splits)
next
  case (At_attempts x xs)
  obtain e t as ch where x: "x = (e, t, as, ch)" by (cases x) auto
  show ?thesis
  proof (cases as)
    case Nil
    then show ?thesis using assms At_attempts x
      by (auto simp: scheduler_step_def on_list_def intro!: scheduler_effect_keep abs_same)
  next
    case (Cons a as')
    have w': "w' = snd (auto_submit_attempt S now uuid' io a ch (n, w))" "q = At_attempts (e, t, as', ch) xs"
      using assms At_attempts x Cons by (simp_all add: scheduler_step_def)
    show ?thesis unfolding w' by (rule auto_submit_effect) (auto simp: At_attempts x Cons on_list_def entry_ids_def)
  qed
next
  case At_fallback
  then show ?thesis using assms progress_held by (auto simp: scheduler_step_def scheduler_effect_def on_list_def)
next
  case (At_overdue xs)
  show ?thesis
  proof (cases xs)
    case Nil
    then show ?thesis using assms At_overdue
      by (auto simp: scheduler_step_def on_list_def intro!: scheduler_effect_keep abs_same)
  next
    case (Cons x xs')
    then show ?thesis using fallback_effect[of l x xs' k w now uuid' io n] assms At_overdue
      by (simp add: scheduler_step_def)
  qed
next
  case (At_manual ch as)
  show ?thesis
  proof (cases as)
    case Nil
    then show ?thesis using assms At_manual
      by (auto simp: scheduler_step_def on_list_def intro!: scheduler_effect_keep)
  next
    case (Cons a as')
    have w': "w' = snd (auto_submit_attempt S now uuid' io a ch (n, w))" "q = At_manual ch as'"
      using assms At_manual Cons by (simp_all add: scheduler_step_def)
    show ?thesis unfolding w' by (rule auto_submit_effect) (auto simp: At_manual Cons on_list_def)
  qed
qed

lemma scheduler_effect_moves:
  assumes "scheduler_effect k (l i) W q W'"
  shows "listed_move\<^sup>*\<^sup>* (abs_life l W k) (abs_life (l(i := q)) W' k)"
proof -
  define h where "h = (\<exists>j. k \<in> on_list (l j))"
  define h' where "h' = (\<exists>j. k \<in> on_list ((l(i := q)) j))"
  have drop: "listed_move\<^sup>*\<^sup>* (True, x) (b, x)" for b x by (cases b) (auto intro: lm_drop)
  consider (keep) "abs_world W' k = abs_world W k" "h' \<longrightarrow> h"
    | (read) x where "abs_world W' k = Some x" "abs_world W k = Some x" "ab_phase x = Open" h'
    | (submit) t where "abs_world W' k = map_option (\<lambda>x. x\<lparr> ab_phase := Waiting, ab_submittedAt := Some t \<rparr>) (abs_world W k)" h
  proof -
    have h'q: "h' \<Longrightarrow> h \<or> k \<in> on_list q" by (auto simp: h_def h'_def split: if_splits)
    have qh: "k \<in> on_list q \<Longrightarrow> h'" by (auto simp: h'_def)
    have lh: "k \<in> on_list (l i) \<Longrightarrow> h" by (auto simp: h_def)
    show thesis using assms that h'q qh lh unfolding scheduler_effect_def by metis
  qed
  then have "listed_move\<^sup>*\<^sup>* (h, abs_world W k) (h', abs_world W' k)"
  proof cases
    case keep
    then show ?thesis using drop by (cases h) auto
  next
    case read
    then show ?thesis by (auto intro: lm_list)
  next
    case submit
    show ?thesis
    proof (cases "abs_world W k")
      case (Some x)
      have "listed_move\<^sup>*\<^sup>* (h, Some x) (True, Some (x\<lparr> ab_phase := Waiting, ab_submittedAt := Some t \<rparr>))"
        using submit(2) by (auto intro: lm_stale)
      then show ?thesis using submit(1) Some drop[of "Some (x\<lparr> ab_phase := Waiting, ab_submittedAt := Some t \<rparr>)" h'] by simp
    qed (use submit drop in simp)
  qed
  then show ?thesis by (simp add: abs_life_def h_def h'_def)
qed

lemma exam_end_moves:
  assumes "l i = At_rest" shows "listed_move\<^sup>*\<^sup>* (abs_life l (V w) k) (abs_life (l(i := exam_end_query S eid w)) (V w) k)"
proof (rule scheduler_effect_moves)
  show "scheduler_effect k (l i) (V w) (exam_end_query S eid w) (V w)"
    using read_in_progress assms by (auto simp: scheduler_effect_def exam_end_query_def on_list_def split: option.split)
qed

end

lemma result_row_id [simp]: "a_id (result_row now r p a) = a_id a"
  by (simp add: result_row_def)

lemma result_row_move: "abstract_move (Some (abs_attempt a)) (Some (abs_attempt (result_row now r p a)))"
proof (cases p)
  case True
  then have "abs_attempt (result_row now r p a) = abs_attempt a" by (simp add: abs_attempt_def result_row_def)
  then show ?thesis by (simp add: am_stay)
next
  case False
  then have "abs_attempt (result_row now r p a) = (abs_attempt a)\<lparr> ab_phase := Done \<rparr>"
    by (simp add: abs_attempt_def result_row_def status_for_result_def)
  then show ?thesis by (simp add: am_result)
qed

lemma simulated_moves: "simulated W W' \<Longrightarrow> l = l' \<Longrightarrow> listed_move\<^sup>*\<^sup>* (abs_life l W k) (abs_life l' W' k)"
  by (auto simp: simulated_def abs_life_def intro: lm_move)

context services begin

lemma result_simulated: "simulated (V w) (V (update_attempt S aid (result_row now r preview) w))"
proof (cases "w_attempts (V w) aid")
  case (Some a)
  show ?thesis by (rule simulated_row[OF Some _ result_row_move[of a now r preview]]) (use Some in \<open>auto simp: fun_eq_iff\<close>)
qed (rule simulated_same, auto simp: fun_eq_iff)

lemma life_step_moves: "life_step S V (l, n, w) (l', n', w') \<Longrightarrow> listed_move\<^sup>*\<^sup>* (abs_life l (V w) k) (abs_life l' (V w') k)"
proof (induction "(l, n, w)" "(l', n', w')" rule: life_step.induct)
  case (ls_run_tests now uuid u aid)
  then show ?case using run_tests_attempts[of now uuid u aid n w]
    by (auto intro!: simulated_moves simulated_same)
next
  case (ls_submit now uuid u aid body)
  then show ?case using submit_simulated[of w now uuid u aid body n] by (auto intro!: simulated_moves)
next
  case ls_timer
  then show ?case using timer_frame_step[of "(n, w)" "(n', w')"]
    by (auto intro!: simulated_moves simulated_same simp: timer_frame_def same_tables_def)
next
  case (ls_save now u aid fs)
  then show ?case by (intro simulated_moves) (auto simp: save_files_def simulated_same split: option.split)
next
  case (ls_screenshot cf sas now u aid shot et)
  then show ?case
    by (intro simulated_moves)
      (auto simp: upload_screenshot_def push_attempt_shot_def push_exam_shot_def Let_def simulated_same split: option.split prod.split)
next
  case (ls_code_save T now sid ka aid fs')
  then show ?case by (intro simulated_moves) (auto simp: code_save_def simulated_same activity_buffer(2))
next
  case (ls_code_flush now ka aid)
  then show ?case by (intro simulated_moves) (auto simp: code_flush_def simulated_same flush_simulated[simplified])
next
  case (ls_scheduler now pid uuid' io i q)
  then show ?case by (auto intro!: scheduler_effect_moves scheduler_step_effect)
next
  case (ls_exam_end i eid)
  then show ?case using exam_end_moves by auto
qed (rule simulated_moves, fastforce simp: start_simulated accept_simulated tick_simulated event_simulated socket_event_simulated result_simulated[simplified], simp)+

end

section \<open>Runs\<close>

definition phase_rank :: "phase \<Rightarrow> nat" where
  "phase_rank p = (case p of Open \<Rightarrow> 0 | Waiting \<Rightarrow> 1 | Done \<Rightarrow> 2)"

lemma phase_rank_0 [simp]: "phase_rank p = 0 \<longleftrightarrow> p = Open"
  by (simp add: phase_rank_def split: phase.split)

text \<open>What every run keeps: the attempt and its owner; that it was submitted; and, once it was submitted and no scheduler
  holds it, its time of submission and the order of the phases.\<close>
definition keeps :: "bool \<times> abstract_attempt option \<Rightarrow> bool \<times> abstract_attempt option \<Rightarrow> bool" where
  "keeps p q = (\<forall>x. snd p = Some x \<longrightarrow> (\<exists>y. snd q = Some y \<and> ab_owner y = ab_owner x
     \<and> (ab_phase x \<noteq> Open \<longrightarrow> ab_phase y \<noteq> Open)
     \<and> (ab_phase x \<noteq> Open \<and> \<not> fst p \<longrightarrow> \<not> fst q \<and> ab_submittedAt y = ab_submittedAt x \<and> phase_rank (ab_phase x) \<le> phase_rank (ab_phase y))))"

lemma listed_move_keeps: "listed_move p q \<Longrightarrow> keeps p q"
proof (induction rule: listed_move.induct)
  case (lm_move x y h)
  then show ?case by (cases rule: abstract_move.cases) (auto simp: keeps_def phase_rank_def split: phase.split)
qed (auto simp: keeps_def)

lemma keeps_trans:
  assumes "keeps p q" "keeps q r" shows "keeps p r"
  unfolding keeps_def
proof (intro allI impI)
  fix x assume x: "snd p = Some x"
  let ?P = "\<lambda>p q x y. snd q = Some y \<and> ab_owner y = ab_owner x \<and> (ab_phase x \<noteq> Open \<longrightarrow> ab_phase y \<noteq> Open)
     \<and> (ab_phase x \<noteq> Open \<and> \<not> fst p \<longrightarrow> \<not> fst q \<and> ab_submittedAt y = ab_submittedAt x \<and> phase_rank (ab_phase x) \<le> phase_rank (ab_phase y))"
  obtain y where y: "?P p q x y" using assms(1) x unfolding keeps_def by blast
  then obtain z where z: "?P q r y z" using assms(2) unfolding keeps_def by blast
  show "\<exists>z. ?P p r x z" using y z by (intro exI[of _ z]) (auto dest: order_trans)
qed

lemma listed_run_keeps: "listed_move\<^sup>*\<^sup>* p q \<Longrightarrow> keeps p q"
proof (induction rule: rtranclp_induct)
  case (step q r)
  show ?case by (rule keeps_trans[OF step.IH listed_move_keeps[OF step(2)]])
qed (simp add: keeps_def)

lemma life_run_moves:
  assumes "services S V" "(life_step S V)\<^sup>*\<^sup>* (l, n, w) st"
  shows "listed_move\<^sup>*\<^sup>* (abs_life l (V w) k) (abs_life (fst st) (V (snd (snd st))) k)"
  using assms(2)
proof (induction rule: rtranclp_induct)
  case (step st1 st2)
  then show ?case using services.life_step_moves[OF assms(1), of "fst st1" "fst (snd st1)" "snd (snd st1)" "fst st2" "fst (snd st2)" "snd (snd st2)" k]
    by (metis prod.collapse rtranclp_trans)
qed simp

text \<open>C1: Attempts live by the abstract machine: any run of the server's operations on attempts, that is routes, socket
  handlers, timers, the single steps of any number of scheduler cycles and manual processings, and the rows the grader writes, in any order and at
  any times, looks on each attempt like a run of three phases, open, waiting and done, with a mark for the attempts a scheduler
  has read as being in progress and not yet worked off. So no attempt ever disappears, changes its
  candidate, exam or start, or is in progress again after its submission; and for an attempt that is submitted and that no
  scheduler holds, no scheduler ever will, its phase never goes back and the time of its
  submission never changes. (For one that a scheduler does hold this fails: it is submitted again, see the next property.)\<close>
theorem attempt_lifecycle_simulation:
  assumes "services S V" "(life_step S V)\<^sup>*\<^sup>* (l, n, w) (l', n', w')" "w_attempts (V w) aid = Some a"
  shows "listed_move\<^sup>*\<^sup>* (abs_life l (V w) aid) (abs_life l' (V w') aid)
    \<and> (\<exists>a'. w_attempts (V w') aid = Some a' \<and> a_candidateId a' = a_candidateId a \<and> a_examId a' = a_examId a
        \<and> a_startedAt a' = a_startedAt a \<and> (a_status a \<noteq> IN_PROGRESS \<longrightarrow> a_status a' \<noteq> IN_PROGRESS)
        \<and> (a_status a \<noteq> IN_PROGRESS \<and> (\<forall>i. aid \<notin> on_list (l i)) \<longrightarrow> (\<forall>i. aid \<notin> on_list (l' i)) \<and> a_submittedAt a' = a_submittedAt a
              \<and> phase_rank (phase_of (a_status a)) \<le> phase_rank (phase_of (a_status a'))))"
proof -
  have run: "listed_move\<^sup>*\<^sup>* (abs_life l (V w) aid) (abs_life l' (V w') aid)"
    using life_run_moves[OF assms(1,2), of aid] by simp
  have keep: "keeps (abs_life l (V w) aid) (abs_life l' (V w') aid)" by (rule listed_run_keeps[OF run])
  have x: "snd (abs_life l (V w) aid) = Some (abs_attempt a)" using assms(3) by (simp add: abs_life_def abs_world_def)
  then obtain y where "snd (abs_life l' (V w') aid) = Some y" using keep unfolding keeps_def by blast
  then obtain a' where "w_attempts (V w') aid = Some a'" "y = abs_attempt a'" by (auto simp: abs_life_def abs_world_def)
  then show ?thesis using keep x run \<open>snd (abs_life l' (V w') aid) = Some y\<close>
    by (auto simp: keeps_def abs_attempt_def abs_life_def)
qed

theorem attempt_lifecycle_witness:
  "\<exists>a'. w_attempts (ref_view (snd (snd (submit_attempt ref_services 5000 ''y'' demo_candidate ''a1'' (Some None) demo_node)))) ''a1'' = Some a'
     \<and> a_candidateId a' = ''u1'' \<and> a_startedAt a' = a_startedAt demo_attempt"
proof -
  obtain n' w' where run: "snd (submit_attempt ref_services 5000 ''y'' demo_candidate ''a1'' (Some None) demo_node) = (n', w')"
    by (cases "snd (submit_attempt ref_services 5000 ''y'' demo_candidate ''a1'' (Some None) demo_node)")
  have "life_step ref_services ref_view (\<lambda>_. At_rest, fst demo_node, snd demo_node)
      (\<lambda>_. At_rest, snd (submit_attempt ref_services 5000 ''y'' demo_candidate ''a1'' (Some None) (fst demo_node, snd demo_node)))"
    by (rule ls_submit)
  then have "(life_step ref_services ref_view)\<^sup>*\<^sup>* (\<lambda>_. At_rest, fst demo_node, snd demo_node) (\<lambda>_. At_rest, n', w')"
    using run by (intro r_into_rtranclp) simp
  from attempt_lifecycle_simulation[OF ref.services_axioms this, of "''a1''" demo_attempt]
  show ?thesis using run by (auto simp: demo_node_def demo_attempt_def)
qed

lemma live_gone: "ks_live now ks k = None \<Longrightarrow> now \<le> t \<Longrightarrow> ks_live t ks k = None"
  by (auto simp: ks_live_def split: option.splits prod.splits if_splits)

context services begin

lemma submit_keys:
  assumes a: "w_attempts (V w) aid = Some a" "a_candidateId a = jp_userId u" "a_status a = IN_PROGRESS"
    "challenge_of (V w) a = Some c" "aid \<noteq> ''dirty''"
    and run: "submit_attempt S now uuid u aid (Some req) (n, w) = (r, n', w')"
  shows "ks_live now (w_ks (V w')) (autosave_key aid) = None"
    "stream_key now (w_ks (V w)) stream_high \<Longrightarrow> stream_key now (w_ks (V w')) stream_high"
proof -
  obtain init sid where o: "V w' = w_ks_update (\<lambda>ks. ks_srem now autosave_dirty aid (ks_del (autosave_key aid)
         (add_job_ks (n_streams n) now uuid sid (full_job aid (final_files now (V w) req a) c) ks)))
       (w_attempts_update (\<lambda>m. m(aid \<mapsto> submitted_row now (final_files now (V w) req a) a))
         (flushed now aid
           (w_ks_update (\<lambda>ks. ks_del (timer_lock_key aid) (ks_del (timer_key aid)
              (ks_set now (timer_handled_key aid) (Num 1) (Some 3600) ks))) (V w))))"
    using submit_world[OF a refl, of now uuid req n] run by auto
  show "ks_live now (w_ks (V w')) (autosave_key aid) = None" using a(5) by (simp add: o)
  assume q: "stream_key now (w_ks (V w)) stream_high"
  have "stream_key now (w_ks (flushed now aid (w_ks_update (\<lambda>ks. ks_del (timer_lock_key aid) (ks_del (timer_key aid)
              (ks_set now (timer_handled_key aid) (Num 1) (Some 3600) ks))) (V w)))) stream_high"
    using q by (simp add: stream_key_def flushed_other_key)
  from stream_key_add_job[OF this] show "stream_key now (w_ks (V w')) stream_high" by (simp add: o stream_key_def)
qed

lemma auto_submit_stale:
  assumes b: "buffered t (V w) (a_id a) = None" and row: "w_attempts (V w) (a_id a) = Some r"
    and q: "stream_key t (w_ks (V w)) stream_high"
    and run: "auto_submit_attempt S t uuid' io a (Some c) (n, w) = (n', w')"
  shows "w_attempts (V w') = (w_attempts (V w))(a_id a \<mapsto>
      r\<lparr> a_status := GRADING, a_submittedAt := Some t, a_files := Some (or_default (a_files a) []) \<rparr>)"
    "queue_jobs t (V w') stream_high = queue_jobs t (V w) stream_high @ [full_job (a_id a) (or_default (a_files a) []) c]"
proof -
  define w1 where "w1 = (if io then sv_emit S (attempt_room (a_id a))
           (TimerExpired ''Exam window has closed. Your exam has been automatically submitted.'' (Some ''scheduled_end'')) w else w)"
  define w2 where "w2 = snd (flush_to_database S t (a_id a) w1)"
  have same: "w_attempts (V w1) = w_attempts (V w)" "w_ks (V w1) = w_ks (V w)" by (simp_all add: w1_def)
  have b1: "buffered t (V w1) (a_id a) = None" using b same(2) by (simp add: buffered_def)
  then have V2: "V w2 = V w1" by (simp add: w2_def flushed_def)
  let ?fs = "or_default (a_files a) []"
  define w3 where "w3 = update_attempt S (a_id a) (\<lambda>r. r\<lparr> a_status := SUBMITTED, a_submittedAt := Some t, a_files := Some ?fs \<rparr>) w2"
  obtain jid i4 w4 where j: "add_grading_job S t (uuid' (a_id a)) (full_job (a_id a) ?fs c) (n_streams n, w3) = (jid, i4, w4)"
    by (cases "add_grading_job S t (uuid' (a_id a)) (full_job (a_id a) ?fs c) (n_streams n, w3)") auto
  have "or_default (or_else (get_from_buffer S t (a_id a) w2) (a_files a)) [] = ?fs" by (simp add: V2 b1)
  then have w': "w' = update_attempt S (a_id a) (a_status_update (\<lambda>_. GRADING)) w4"
    using run j by (simp add: auto_submit_attempt_def Let_def w1_def[symmetric] w2_def[symmetric] w3_def[symmetric] del: get_from_buffer_eq)
  have "w_attempts (V w4) = w_attempts (V w3)" by (rule attempts_add_job_result[OF j])
  then show "w_attempts (V w') = (w_attempts (V w))(a_id a \<mapsto>
      r\<lparr> a_status := GRADING, a_submittedAt := Some t, a_files := Some ?fs \<rparr>)"
    using row by (auto simp: w' w3_def V2 same fun_eq_iff)
  have ks: "w_ks (V w3) = w_ks (V w)" by (simp add: w3_def V2 same)
  then have "stream_key t (w_ks (V w3)) stream_high" using q by simp
  from add_job_queue[OF j this]
  show "queue_jobs t (V w') stream_high = queue_jobs t (V w) stream_high @ [full_job (a_id a) ?fs c]"
    by (simp add: w' queue_jobs_def ks full_job_def)
qed

end

text \<open>C2: A submission that comes between the scheduler's reading of an attempt and its writing is undone: once the exam has
  ended, the scheduler reads the attempt as being in progress; the candidate submits and gets his answer; then the scheduler comes to
  the row it has read. It submits the attempt again, with the time of its step as time of the submission and, since the submission
  cleared the autosave buffer, with the files the row had when it was read; the submitted files are lost, and a
  second job with the old files stands behind the first. (The id of the attempt is not the word dirty, and the key of the queue holds a stream or nothing, before
  the submission and before the step of the scheduler.)\<close>
theorem stale_list_submits_again:
  assumes "services S V" "w_attempts (V w) aid = Some a0" "a_candidateId a0 = jp_userId u" "a_status a0 = IN_PROGRESS"
    "challenge_of (V w) a0 = Some c" "aid \<noteq> ''dirty''" "stream_key now (w_ks (V w)) stream_high"
    "submit_attempt S now uuid u aid (Some req) (n, w) = (r, n1, w1)"
    "a_id a = aid" "now \<le> t" "stream_key t (w_ks (V w1)) stream_high"
    "scheduler_step S t pid uuid' io (At_attempts (e, te, a # as, Some c') xs, n1, w1) = (q, n2, w2)"
  shows "r = Inr (create_job_id aid now uuid)
    \<and> w_attempts (V w2) = (w_attempts (V w))(aid \<mapsto> (submitted_row now (final_files now (V w) req a0) a0)\<lparr>
        a_submittedAt := Some t, a_files := Some (or_default (a_files a) []) \<rparr>)
    \<and> queue_jobs t (V w2) stream_high = queue_jobs t (V w1) stream_high @ [full_job aid (or_default (a_files a) []) c']"
proof -
  note sub = services.submit_success[OF assms(1-8)]
  have "ks_live now (w_ks (V w1)) (autosave_key aid) = None"
    using services.submit_keys(1)[OF assms(1-6,8)] .
  then have "ks_live t (w_ks (V w1)) (autosave_key aid) = None" using assms(10) by (rule live_gone)
  then have b: "buffered t (V w1) (a_id a) = None" using assms(9) by (simp add: buffered_def ks_get_def)
  have row: "w_attempts (V w1) (a_id a) = Some (submitted_row now (final_files now (V w) req a0) a0)"
    using sub(2) assms(9) by simp
  obtain n3 w3 where a: "auto_submit_attempt S t uuid' io a (Some c') (n1, w1) = (n3, w3)"
    by (cases "auto_submit_attempt S t uuid' io a (Some c') (n1, w1)")
  have "w2 = w3" using assms(12) a by (simp add: scheduler_step_def)
  then show ?thesis
    using services.auto_submit_stale[OF assms(1) b row assms(11) a] sub assms(9) by (simp add: submitted_row_def)
qed

theorem stale_list_submits_again_witness:
  "\<exists>n' w' q. scheduler_step ref_services 7300000 1 (\<lambda>a. ''z'') True
      (At_attempts (demo_exam, 7200000, [demo_attempt], Some demo_challenge) [],
       snd (submit_attempt ref_services 7300000 ''y'' demo_candidate ''a1'' (Some (Some [(''app.js'', ''2'')])) demo_node)) = (q, n', w')
     \<and> map_option a_files (w_attempts (ref_view w') ''a1'') = Some (Some [(''app.js'', ''1'')])
     \<and> (\<exists>js. queue_jobs 7300000 (ref_view w') stream_high = js @ [full_job ''a1'' [(''app.js'', ''1'')] demo_challenge])"
proof -
  obtain r n1 w1 where sub: "submit_attempt ref_services 7300000 ''y'' demo_candidate ''a1'' (Some (Some [(''app.js'', ''2'')]))
      (fst demo_node, demo_world) = (r, n1, w1)"
    by (cases "submit_attempt ref_services 7300000 ''y'' demo_candidate ''a1'' (Some (Some [(''app.js'', ''2'')])) (fst demo_node, demo_world)")
  obtain q n' w' where run: "scheduler_step ref_services 7300000 1 (\<lambda>a. ''z'') True
      (At_attempts (demo_exam, 7200000, [demo_attempt], Some demo_challenge) [], n1, w1) = (q, n', w')"
    by (cases "scheduler_step ref_services 7300000 1 (\<lambda>a. ''z'') True
      (At_attempts (demo_exam, 7200000, [demo_attempt], Some demo_challenge) [], n1, w1)")
  have node: "demo_node = (fst demo_node, demo_world)" by (simp add: demo_node_def)
  have high: "stream_key 7300000 (w_ks demo) stream_high" by (simp add: stream_key_def)
  have high1: "stream_key 7300000 (w_ks (ref_view w1)) stream_high"
    using services.submit_keys(2)[OF ref.services_axioms _ _ _ _ _ sub high, of demo_attempt demo_challenge] by simp
  have fs: "a_files demo_attempt = Some [(''app.js'', ''1'')]" by (simp add: demo_attempt_def new_attempt_def)
  show ?thesis
    using stale_list_submits_again[OF ref.services_axioms _ _ _ _ _ high sub _ _ high1 run, of demo_attempt demo_challenge] run sub fs
    by (subst node) simp
qed

end
