(* ===== verification/Autosave_Refinement.thy ===== *)
theory Autosave_Refinement
  imports Socket_Facts
begin

text \<open>
  What autosave promises a candidate: the files that are graded are the last ones saved. The
  abstract state, a draft, is the last saved files and the time since when they are not in the database. The
  concrete one is the Redis buffer with its twelve hours to live, the dirty set and the row of the attempt. The saves of
  the route and of the socket, the flush of one attempt and the periodic flush implement the draft, whatever else is
  saved in between, as long as no draft waits for a flush longer than the buffer lives.
\<close>

section \<open>The abstract state and the steps\<close>

record draft =
  dr_files :: files
  dr_since :: "time option"

definition clean :: "draft \<Rightarrow> draft" where "clean d = d\<lparr> dr_since := None \<rparr>"

definition in_time :: "draft \<Rightarrow> time \<Rightarrow> bool" where
  "in_time d t = (case dr_since d of None \<Rightarrow> True | Some s \<Rightarrow> t < s + 1000 * autosave_ttl)"

inductive autosave_step :: "'w services \<Rightarrow> id \<Rightarrow> draft \<times> 'w \<Rightarrow> draft \<times> 'w \<Rightarrow> bool" for S aid where
  as_route: "save_files S t u aid (Some fs) w = (Inr x, w') \<Longrightarrow>
    autosave_step S aid (d, w) (\<lparr> dr_files = fs, dr_since = Some t \<rparr>, w')"
| as_socket: "code_save S T t sid k aid fs w = (Success x, w') \<Longrightarrow>
    autosave_step S aid (d, w) (\<lparr> dr_files = fs, dr_since = Some t \<rparr>, w')"
| as_other: "j \<noteq> aid \<Longrightarrow> j \<noteq> ''dirty'' \<Longrightarrow> autosave_step S aid (d, w) (d, save_to_buffer S t j fs w)"
| as_flush: "in_time d t \<Longrightarrow> autosave_step S aid (d, w) (clean d, snd (flush_to_database S t aid w))"
| as_flush_all: "in_time d t \<Longrightarrow> autosave_step S aid (d, w) (clean d, snd (flush_all_dirty S t w))"

section \<open>A set key without expiry\<close>

definition eternal_set :: "keyspace \<Rightarrow> string \<Rightarrow> string set \<Rightarrow> bool" where
  "eternal_set ks k A = (case ks k of None \<Rightarrow> A = {} | Some (v, e) \<Rightarrow> v \<in> RSet ` {s. fset s = A} \<and> e = None)"

lemma eternal_set_cases:
  assumes "eternal_set ks k A"
  obtains "ks k = None" "A = {}" | s where "ks k = Some (RSet s, None)" "A = fset s"
  using assms by (auto simp: eternal_set_def split: option.splits)

lemma eternal_members: "eternal_set ks k A \<Longrightarrow> ks_members t ks k = A"
  by (erule eternal_set_cases) (simp_all add: ks_members_def ks_live_def)

lemma eternal_sadd: "eternal_set ks k A \<Longrightarrow> eternal_set (ks_sadd t k m ks) k (insert m A)"
  by (erule eternal_set_cases) (simp_all add: ks_sadd_def ks_live_def eternal_set_def)

lemma eternal_srem:
  assumes "eternal_set ks k A" shows "eternal_set (ks_srem t k m ks) k (A - {m})"
  using assms
proof (cases rule: eternal_set_cases)
  case (2 s)
  have "A - {m} = {}" if "s |-| {|m|} = {||}" using arg_cong[OF that, of fset] 2(2) by simp
  then show ?thesis using 2 by (auto simp: ks_srem_def ks_live_def eternal_set_def)
qed (simp add: ks_srem_def ks_live_def eternal_set_def)

lemma eternal_frame: "ks' k = ks k \<Longrightarrow> eternal_set ks' k A = eternal_set ks k A"
  by (simp add: eternal_set_def)

lemma raw_frame [simp]: "k \<noteq> k' \<Longrightarrow> ks_set t k' p ttl ks k = ks k" "k \<noteq> k' \<Longrightarrow> ks_sadd t k' m ks k = ks k"
  "k \<noteq> k' \<Longrightarrow> ks_srem t k' m ks k = ks k"
  by (simp_all add: ks_set_def ks_sadd_def ks_srem_def split: option.split prod.split rvalue.split)

lemma eternal_set_other [simp]: "k \<noteq> k' \<Longrightarrow> eternal_set (ks_set t k' p ttl ks) k A = eternal_set ks k A"
  by (simp add: eternal_set_def)

section \<open>The relation\<close>

text \<open>What the column, the raw value of the buffer and the dirty mark are for a draft.\<close>
definition draft_at :: "draft \<Rightarrow> files option \<Rightarrow> (rvalue \<times> time option) option \<Rightarrow> bool \<Rightarrow> bool" where
  "draft_at d f raw dirty = (case dr_since d of
        None \<Rightarrow> f = Some (dr_files d) \<and> (case raw of None \<Rightarrow> True | Some (v, e) \<Rightarrow> \<exists>s. v = RStr (AutosaveDoc (dr_files d) s))
      | Some s \<Rightarrow> dirty \<and> raw = Some (RStr (AutosaveDoc (dr_files d) s), Some (s + 1000 * autosave_ttl)))"

definition drafted :: "id \<Rightarrow> attempt \<Rightarrow> draft \<Rightarrow> world \<Rightarrow> bool" where
  "drafted aid a d W = (\<exists>f D. w_attempts W aid = Some (a\<lparr> a_files := f \<rparr>) \<and> eternal_set (w_ks W) autosave_dirty D \<and> ''dirty'' \<notin> D \<and>
     draft_at d f (w_ks W (autosave_key aid)) (aid \<in> D))"

lemma draftedI: "w_attempts W aid = Some (a\<lparr> a_files := f \<rparr>) \<Longrightarrow> eternal_set (w_ks W) autosave_dirty D \<Longrightarrow> ''dirty'' \<notin> D \<Longrightarrow>
    draft_at d f (w_ks W (autosave_key aid)) (aid \<in> D) \<Longrightarrow> drafted aid a d W"
  unfolding drafted_def by blast

lemma draftedE:
  assumes "drafted aid a d W"
  obtains f D where "w_attempts W aid = Some (a\<lparr> a_files := f \<rparr>)" "eternal_set (w_ks W) autosave_dirty D" "''dirty'' \<notin> D"
    "draft_at d f (w_ks W (autosave_key aid)) (aid \<in> D)"
  using assms unfolding drafted_def by blast

text \<open>In time, a reader of the buffer sees the last save, or the row has it.\<close>
lemma draft_at_read:
  assumes "draft_at d f (w_ks W (autosave_key aid)) dirty" "in_time d t"
  shows "buffered t W aid = Some (dr_files d) \<or> (buffered t W aid = None \<and> dr_since d = None \<and> f = Some (dr_files d))"
proof (cases "dr_since d")
  case None
  then show ?thesis using assms(1)
    by (cases "w_ks W (autosave_key aid)") (auto simp: draft_at_def buffered_def ks_get_def ks_live_def split: option.splits if_splits)
next
  case (Some s)
  then show ?thesis using assms by (simp add: draft_at_def in_time_def buffered_def ks_get_def ks_live_def)
qed

lemma drafted_final:
  assumes "drafted aid a d W" "in_time d t" "w_attempts W aid = Some r" "a_id r = aid"
  shows "final_files t W None r = dr_files d"
proof -
  obtain f D where "w_attempts W aid = Some (a\<lparr> a_files := f \<rparr>)" "draft_at d f (w_ks W (autosave_key aid)) (aid \<in> D)"
    using assms(1) by (rule draftedE)
  then show ?thesis using draft_at_read[of d f W aid "aid \<in> D" t] assms(2-4) by (auto simp: final_files_def)
qed

lemma drafted_saved:
  assumes "drafted aid a d W" "aid \<noteq> ''dirty''"
  shows "drafted aid a \<lparr> dr_files = fs, dr_since = Some t \<rparr> (w_ks_update (\<lambda>ks. ks_sadd t autosave_dirty aid
      (ks_set t (autosave_key aid) (AutosaveDoc fs t) (Some autosave_ttl) ks)) W)"
proof -
  obtain f D where d: "w_attempts W aid = Some (a\<lparr> a_files := f \<rparr>)" "eternal_set (w_ks W) autosave_dirty D" "''dirty'' \<notin> D"
    using assms(1) by (rule draftedE)
  show ?thesis
    by (rule draftedI[where f = f and D = "insert aid D"])
      (use d assms(2) in \<open>simp_all add: eternal_sadd draft_at_def, simp add: ks_set_def\<close>)
qed

lemma drafted_other:
  assumes "drafted aid a d W" "j \<noteq> aid" "j \<noteq> ''dirty''" "aid \<noteq> ''dirty''"
  shows "drafted aid a d (w_ks_update (\<lambda>ks. ks_sadd t autosave_dirty j (ks_set t (autosave_key j) p ttl ks)) W)"
proof -
  obtain f D where d: "w_attempts W aid = Some (a\<lparr> a_files := f \<rparr>)" "eternal_set (w_ks W) autosave_dirty D" "''dirty'' \<notin> D"
    "draft_at d f (w_ks W (autosave_key aid)) (aid \<in> D)" using assms(1) by (rule draftedE)
  show ?thesis
    by (rule draftedI[where f = f and D = "insert j D"]) (use d assms in \<open>simp_all add: eternal_sadd\<close>)
qed

lemma drafted_key:
  assumes "drafted aid a d W" "k \<noteq> autosave_key aid" "k \<noteq> autosave_dirty"
  shows "drafted aid a d (w_ks_update (ks_set t k p ttl) W)"
proof -
  obtain f D where d: "w_attempts W aid = Some (a\<lparr> a_files := f \<rparr>)" "eternal_set (w_ks W) autosave_dirty D" "''dirty'' \<notin> D"
    "draft_at d f (w_ks W (autosave_key aid)) (aid \<in> D)" using assms(1) by (rule draftedE)
  show ?thesis
    by (rule draftedI[where f = f and D = D]) (use d assms in \<open>simp_all add: eq_commute\<close>)
qed

lemma drafted_flush_self:
  assumes "drafted aid a d W" "in_time d t" "aid \<noteq> ''dirty''"
  shows "drafted aid a (clean d) (flushed t aid W)"
proof -
  obtain f D where d: "w_attempts W aid = Some (a\<lparr> a_files := f \<rparr>)" "eternal_set (w_ks W) autosave_dirty D" "''dirty'' \<notin> D"
    "draft_at d f (w_ks W (autosave_key aid)) (aid \<in> D)" using assms(1) by (rule draftedE)
  have raw: "draft_at (clean d) (Some (dr_files d)) (w_ks W (autosave_key aid)) b" for b
    using d(4) by (auto simp: draft_at_def clean_def split: option.splits)
  from draft_at_read[OF d(4) assms(2)] show ?thesis
  proof
    assume b: "buffered t W aid = Some (dr_files d)"
    show ?thesis
      by (rule draftedI[where f = "Some (dr_files d)" and D = "D - {aid}"])
        (use d(1,3) assms(3) raw eternal_srem[OF d(2)] b in \<open>simp_all add: flushed_def\<close>)
  next
    assume b: "buffered t W aid = None \<and> dr_since d = None \<and> f = Some (dr_files d)"
    then show ?thesis using d raw by (intro draftedI[where f = f and D = D]) (simp_all add: flushed_def)
  qed
qed

lemma drafted_flush_other:
  assumes "drafted aid a d W" "j \<noteq> aid" "aid \<noteq> ''dirty''"
  shows "drafted aid a d (flushed t j W)"
proof (cases "buffered t W j")
  case None
  then show ?thesis using assms(1) by (simp add: flushed_def)
next
  case (Some fs)
  obtain f D where d: "w_attempts W aid = Some (a\<lparr> a_files := f \<rparr>)" "eternal_set (w_ks W) autosave_dirty D" "''dirty'' \<notin> D"
    "draft_at d f (w_ks W (autosave_key aid)) (aid \<in> D)" using assms(1) by (rule draftedE)
  show ?thesis
    by (rule draftedI[where f = f and D = "D - {j}"]) (use d assms Some eternal_srem[OF d(2)] in \<open>simp_all add: flushed_def\<close>)
qed

lemma clean_clean [simp]: "clean (clean d) = clean d" "dr_files (clean d) = dr_files d" "in_time (clean d) t"
  by (simp_all add: clean_def in_time_def)

lemma clean_id: "dr_since d = None \<Longrightarrow> clean d = d"
  by (cases d) (simp add: clean_def)

context services begin

lemma drafted_flush_each:
  assumes "drafted aid a d (V w)" "in_time d t" "aid \<noteq> ''dirty''"
  shows "drafted aid a (if aid \<in> set l then clean d else d) (V (snd (flush_each S t l m w)))"
  using assms(1,2)
proof (induction l arbitrary: d m w)
  case (Cons j l)
  obtain b w1 where f: "flush_to_database S t j w = (b, w1)" by force
  have w1: "V w1 = flushed t j (V w)" using V_flush[of t j w] f by simp
  have step: "flush_each S t (j # l) m w = flush_each S t l (if b then m + 1 else m) w1" by (simp add: f)
  show ?case
  proof (cases "j = aid")
    case True
    then have "drafted aid a (clean d) (V w1)" using drafted_flush_self[OF Cons.prems assms(3)] w1 by simp
    from Cons.IH[OF this, of "if b then m + 1 else m"] show ?thesis using True unfolding step by (simp split: if_splits)
  next
    case False
    then have "drafted aid a d (V w1)" using drafted_flush_other[OF Cons.prems(1) False assms(3)] w1 by simp
    from Cons.IH[OF this Cons.prems(2)] show ?thesis using False unfolding step by simp
  qed
qed simp

lemma drafted_flush_all:
  assumes "drafted aid a d (V w)" "in_time d t" "aid \<noteq> ''dirty''"
  shows "drafted aid a (clean d) (V (snd (flush_all_dirty S t w)))"
proof -
  let ?l = "sv_smembers S t autosave_dirty w"
  obtain f D where d: "eternal_set (w_ks (V w)) autosave_dirty D" "draft_at d f (w_ks (V w) (autosave_key aid)) (aid \<in> D)"
    using assms(1) by (rule draftedE)
  have l: "set ?l = D" using eternal_members[OF d(1)] by (simp add: smembers_set)
  have same: "clean d = d" if "aid \<notin> D"
    using d(2) that by (intro clean_id) (simp add: draft_at_def split: option.splits)
  have each: "drafted aid a (if aid \<in> set ?l then clean d else d) (V (snd (flush_each S t ?l 0 w)))"
    by (rule drafted_flush_each[OF assms])
  have "flush_all_dirty S t w = flush_each S t ?l 0 w" by (simp add: flush_all_dirty_def Let_def)
  then show ?thesis using each same l by (simp split: if_splits)
qed

lemma drafted_step:
  assumes "autosave_step S aid (d, w) (d', w')" "drafted aid a d (V w)" "aid \<noteq> ''dirty''"
  shows "drafted aid a d' (V w')"
  using assms(1)
proof (cases rule: autosave_step.cases)
  case (as_route t u fs x)
  then have "w' = save_to_buffer S t aid fs w" by (auto simp: save_files_def split: option.splits if_splits)
  then show ?thesis using as_route(1) drafted_saved[OF assms(2,3)] by simp
next
  case (as_socket T t sid k fs x)
  let ?w1 = "save_to_buffer S t aid fs w"
  have w': "w' = update_session_activity S T t aid sid ?w1" using as_socket(2) by (auto simp: code_save_def split: if_splits)
  have d1: "drafted aid a d' (V ?w1)" using as_socket(1) drafted_saved[OF assms(2,3)] by simp
  show ?thesis unfolding w' update_session_activity_def
    using d1 drafted_key[OF d1, of "presence_key aid sid"] by (simp split: option.split payload.split)
next
  case (as_other j t fs)
  then show ?thesis using drafted_other[OF assms(2) as_other(3,4) assms(3)] by simp
next
  case (as_flush t)
  then show ?thesis using drafted_flush_self[OF assms(2) _ assms(3)] by simp
next
  case (as_flush_all t)
  then show ?thesis using drafted_flush_all[OF assms(2) _ assms(3)] by simp
qed

lemma drafted_run:
  assumes "(autosave_step S aid)\<^sup>*\<^sup>* (d, w) (d', w')" "drafted aid a d (V w)" "aid \<noteq> ''dirty''"
  shows "drafted aid a d' (V w')"
  using assms(1,2)
proof (induction rule: rtranclp_induct2)
  case (step d1 w1 d2 w2)
  then show ?case using drafted_step[OF step(2) _ assms(3)] by simp
qed

end

text \<open>C3: No edit is lost: after any number of saves by the route or the socket, flushes and periodic flushes, with other
  attempts saving in between, none of them leaving a draft in the buffer for twelve hours, a submission without files of
  its own grades exactly the files saved last and stores them in the row; a submission in the meantime does not
  depend on whether the last save was flushed.\<close>
theorem autosave_refines_draft:
  assumes "services S V" "aid \<noteq> ''dirty''" "w_attempts (V w0) aid = Some a0" "a_files a0 = Some fs0" "a_status a0 = IN_PROGRESS"
    "w_ks (V w0) (autosave_key aid) = None" "eternal_set (w_ks (V w0)) autosave_dirty D" "''dirty'' \<notin> D"
    "(autosave_step S aid)\<^sup>*\<^sup>* (\<lparr> dr_files = fs0, dr_since = None \<rparr>, w0) (d, w)" "in_time d now"
    "a_candidateId a0 = jp_userId u" "challenge_of (V w) a0 = Some c" "stream_key now (w_ks (V w)) stream_high"
    "submit_attempt S now uuid u aid (Some None) (n, w) = (r, n', w')"
  shows "queue_jobs now (V w') stream_high = queue_jobs now (V w) stream_high @ [full_job aid (dr_files d) c]
    \<and> w_attempts (V w') aid = Some (submitted_row now (dr_files d) a0)"
proof -
  have "drafted aid a0 \<lparr> dr_files = fs0, dr_since = None \<rparr> (V w0)"
    by (rule draftedI[where f = "Some fs0" and D = D]) (use assms(3-8) in \<open>simp_all add: draft_at_def\<close>)
  from services.drafted_run[OF assms(1,9) this assms(2)] have d: "drafted aid a0 d (V w)" .
  then obtain f where row: "w_attempts (V w) aid = Some (a0\<lparr> a_files := f \<rparr>)" by (auto elim: draftedE)
  have id: "a_id (a0\<lparr> a_files := f \<rparr>) = aid" by (rule services.attempt_id[OF assms(1) row])
  have final: "final_files now (V w) None (a0\<lparr> a_files := f \<rparr>) = dr_files d" by (rule drafted_final[OF d assms(10) row id])
  have c: "challenge_of (V w) (a0\<lparr> a_files := f \<rparr>) = Some c" using assms(12) by (simp add: challenge_of_def)
  from services.submit_success(2,3)[OF assms(1) row _ _ c assms(2) assms(13,14)] show ?thesis
    using assms(5,11) by (simp add: final submitted_row_def)
qed

theorem autosave_refines_witness:
  "\<exists>w r n' w'. save_files ref_services 5000 demo_candidate ''a1'' (Some [(''app.js'', ''2'')]) demo_world = (Inr 5000, w)
     \<and> submit_attempt ref_services 6000 ''y'' demo_candidate ''a1'' (Some None) (fst demo_node, w) = (r, n', w')
     \<and> w_attempts (ref_view w') ''a1'' = Some (submitted_row 6000 [(''app.js'', ''2'')] demo_attempt)"
proof -
  let ?w = "save_to_buffer ref_services 5000 ''a1'' [(''app.js'', ''2'')] demo_world"
  have files: "a_files demo_attempt = Some [(''app.js'', ''1'')]" by (simp add: demo_attempt_def)
  have paths: "validate_file_paths [''app.js''] = None" by code_simp
  have saved: "save_files ref_services 5000 demo_candidate ''a1'' (Some [(''app.js'', ''2'')]) demo_world = (Inr 5000, ?w)"
    using paths by (simp add: save_files_def)
  obtain r n' w' where run: "submit_attempt ref_services 6000 ''y'' demo_candidate ''a1'' (Some None) (fst demo_node, ?w) = (r, n', w')"
    by (cases "submit_attempt ref_services 6000 ''y'' demo_candidate ''a1'' (Some None) (fst demo_node, ?w)") auto
  have step: "(autosave_step ref_services ''a1'')\<^sup>*\<^sup>* (\<lparr> dr_files = [(''app.js'', ''1'')], dr_since = None \<rparr>, demo_world)
      (\<lparr> dr_files = [(''app.js'', ''2'')], dr_since = Some 5000 \<rparr>, ?w)"
    by (rule r_into_rtranclp) (rule as_route[OF saved])
  have "w_attempts (ref_view w') ''a1'' = Some (submitted_row 6000 [(''app.js'', ''2'')] demo_attempt)"
    using autosave_refines_draft[OF ref.services_axioms _ _ _ _ _ _ _ step _ _ _ _ run, of demo_attempt "{}" demo_challenge]
    by (simp add: files in_time_def autosave_ttl_def eternal_set_def stream_key_def)
  then show ?thesis using saved run by blast
qed

end
