(* ===== verification/Api_Client.thy ===== *)
theory Api_Client
  imports Auth_Routes
begin

text \<open>
  \<^verbatim>\<open>apps/web/src/lib/api.ts\<close> and \<^verbatim>\<open>apps/web/src/lib/auth-store.ts\<close>: how a
  browser tab keeps and refreshes its tokens. The calls of \<^verbatim>\<open>fetch\<close> run concurrently: each
  is a state, and the answers of the network arrive in any order as events. \<^verbatim>\<open>localStorage\<close> is
  shared by the tabs; \<^verbatim>\<open>isRefreshing\<close> and \<^verbatim>\<open>refreshPromise\<close> change
  together and are one flag.
\<close>

section \<open>Tokens\<close>

type_synonym storage = "string \<Rightarrow> string option"

record client =
  ac_access :: "string option"
  ac_refresh :: "string option"
  ac_refreshing :: bool

definition access_token_key :: string where "access_token_key = ''accessToken''"
definition refresh_token_key :: string where "refresh_token_key = ''refreshToken''"
definition legacy_token_key :: string where "legacy_token_key = ''token''"

definition load_tokens :: "storage \<Rightarrow> client" where
  "load_tokens m = (let a = m access_token_key; r = m refresh_token_key in
     \<lparr> ac_access = (if str_opt a = None \<and> str_opt r = None \<and> str_opt (m legacy_token_key) \<noteq> None then m legacy_token_key else a),
       ac_refresh = r, ac_refreshing = False \<rparr>)"

definition put_item :: "string \<Rightarrow> string option \<Rightarrow> storage \<Rightarrow> storage" where
  "put_item k v m = (case str_opt v of Some s \<Rightarrow> m(k \<mapsto> s) | None \<Rightarrow> m(k := None))"

text \<open>The callbacks of \<^verbatim>\<open>onTokenChange\<close> get the last component.\<close>
definition save_tokens :: "string option \<Rightarrow> string option \<Rightarrow> client \<times> storage \<Rightarrow> client \<times> storage \<times> bool" where
  "save_tokens a r st = (case st of (c, m) \<Rightarrow>
     (c\<lparr> ac_access := a, ac_refresh := r \<rparr>,
      put_item legacy_token_key a (put_item refresh_token_key r (put_item access_token_key a m)),
      str_opt a \<noteq> None))"

definition has_tokens :: "client \<Rightarrow> bool" where
  "has_tokens c = (str_opt (ac_access c) \<noteq> None \<or> str_opt (ac_refresh c) \<noteq> None)"

definition set_token :: "string option \<Rightarrow> client \<times> storage \<Rightarrow> client \<times> storage \<times> bool" where
  "set_token t st = save_tokens t (ac_refresh (fst st)) st"

section \<open>The auth store\<close>

record auth_store =
  au_user :: "public_user option"
  au_isLoading :: bool
  au_error :: "string option"
  au_isInitialized :: bool

definition initialize :: "auth_store \<Rightarrow> auth_store" where
  "initialize s = (if au_isInitialized s then s else s\<lparr> au_isInitialized := True \<rparr>)"

definition on_token_change :: "bool \<Rightarrow> auth_store \<Rightarrow> auth_store" where
  "on_token_change has s = (if au_isInitialized s \<and> \<not> has then s\<lparr> au_user := None \<rparr> else s)"

text \<open>The two halves of a request of the store: before it is sent and with its outcome.\<close>
definition store_login_begin :: "auth_store \<Rightarrow> auth_store" where
  "store_login_begin s = s\<lparr> au_isLoading := True, au_error := None \<rparr>"

definition store_login_end :: "string + public_user \<Rightarrow> auth_store \<Rightarrow> auth_store" where
  "store_login_end r s = (case r of Inr u \<Rightarrow> s\<lparr> au_user := Some u, au_isLoading := False \<rparr>
     | Inl e \<Rightarrow> s\<lparr> au_error := Some e, au_isLoading := False \<rparr>)"

definition store_logout_end :: "auth_store \<Rightarrow> auth_store" where
  "store_logout_end s = s\<lparr> au_user := None \<rparr>"

text \<open>\<^verbatim>\<open>checkAuth\<close>: whether a request is sent, and the store.\<close>
definition check_auth_begin :: "client \<Rightarrow> auth_store \<Rightarrow> bool \<times> auth_store" where
  "check_auth_begin c s = (if has_tokens c then (True, s\<lparr> au_isLoading := True \<rparr>) else (False, s\<lparr> au_user := None \<rparr>))"

definition check_auth_end :: "public_user option \<Rightarrow> auth_store \<Rightarrow> auth_store" where
  "check_auth_end u s = s\<lparr> au_user := u, au_isLoading := False \<rparr>"

definition clear_error :: "auth_store \<Rightarrow> auth_store" where
  "clear_error s = s\<lparr> au_error := None \<rparr>"

definition user_role :: "auth_store \<Rightarrow> role option" where
  "user_role s = map_option pu_role (au_user s)"

definition is_authenticated :: "auth_store \<Rightarrow> bool" where
  "is_authenticated s = (au_user s \<noteq> None)"

definition is_admin :: "auth_store \<Rightarrow> bool" where
  "is_admin s = (user_role s = Some ADMIN)"

section \<open>Requests\<close>

datatype outcome = Answered int | SessionExpired | NetworkError

text \<open>Where the body of \<^verbatim>\<open>fetch\<close> waits: for its first response, for the refresh, for the
  response to the retry.\<close>
datatype call = First | Waiting | Retried | Finished outcome

datatype request = ApiRequest nat "string option" | RefreshRequest string | LogoutRequest string

record tab =
  tb_client :: client
  tb_storage :: storage
  tb_store :: auth_store
  tb_calls :: "(bool \<times> call) list"      \<comment> \<open>skipAuth and state\<close>
  tb_sent :: "request list"

definition with_tokens :: "string option \<Rightarrow> string option \<Rightarrow> tab \<Rightarrow> tab" where
  "with_tokens a r st = (case save_tokens a r (tb_client st, tb_storage st) of (c, m, has) \<Rightarrow>
     st\<lparr> tb_client := c, tb_storage := m, tb_store := on_token_change has (tb_store st) \<rparr>)"

definition set_call :: "nat \<Rightarrow> call \<Rightarrow> tab \<Rightarrow> tab" where
  "set_call i k st = st\<lparr> tb_calls := (tb_calls st)[i := (fst (tb_calls st ! i), k)] \<rparr>"

definition send :: "request \<Rightarrow> tab \<Rightarrow> tab" where
  "send r st = st\<lparr> tb_sent := tb_sent st @ [r] \<rparr>"

definition request_token :: "bool \<Rightarrow> client \<Rightarrow> string option" where
  "request_token skipAuth c = (if skipAuth then None else str_opt (ac_access c))"

definition begin_fetch :: "bool \<Rightarrow> tab \<Rightarrow> tab" where
  "begin_fetch skipAuth st = send (ApiRequest (length (tb_calls st)) (request_token skipAuth (tb_client st)))
     (st\<lparr> tb_calls := tb_calls st @ [(skipAuth, First)] \<rparr>)"

text \<open>True when a refresh is on its way, after sending one if necessary.\<close>
definition refresh_access_token :: "tab \<Rightarrow> bool \<times> tab" where
  "refresh_access_token st = (if ac_refreshing (tb_client st) then (True, st)
     else (case str_opt (ac_refresh (tb_client st)) of
        None \<Rightarrow> (False, st)
      | Some t \<Rightarrow> (True, send (RefreshRequest t) (st\<lparr> tb_client := (tb_client st)\<lparr> ac_refreshing := True \<rparr> \<rparr>))))"

text \<open>The response to a request of the call \<^verbatim>\<open>i\<close>: a status, or a failure of the network.\<close>
definition receive :: "nat \<Rightarrow> int option \<Rightarrow> tab \<Rightarrow> tab" where
  "receive i status st = (case status of
     None \<Rightarrow> set_call i (Finished NetworkError) st
   | Some n \<Rightarrow>
      (case tb_calls st ! i of
         (skipAuth, First) \<Rightarrow>
           if n = 401 \<and> str_opt (ac_refresh (tb_client st)) \<noteq> None \<and> \<not> skipAuth
           then (case refresh_access_token st of
                (True, st1) \<Rightarrow> set_call i Waiting st1
              | (False, st1) \<Rightarrow> set_call i (Finished SessionExpired) st1)
           else set_call i (Finished (Answered n)) st
       | _ \<Rightarrow> set_call i (Finished (Answered n)) st))"

datatype refresh_reply = RefreshFailed | NotOk | NoData | Tokens "string option" "string option"

text \<open>The calls that wait for the refresh resume in order.\<close>
definition resume_one :: "bool \<Rightarrow> nat \<Rightarrow> tab \<Rightarrow> tab" where
  "resume_one ok i st = (case tb_calls st ! i of
     (skipAuth, Waiting) \<Rightarrow>
       if ok then send (ApiRequest i (request_token skipAuth (tb_client st))) (set_call i Retried st)
       else set_call i (Finished SessionExpired) st
   | _ \<Rightarrow> st)"

definition resume_calls :: "bool \<Rightarrow> tab \<Rightarrow> tab" where
  "resume_calls ok st = fold (resume_one ok) [0..<length (tb_calls st)] st"

definition receive_refresh :: "refresh_reply \<Rightarrow> tab \<Rightarrow> tab" where
  "receive_refresh r st =
    (let st1 = (case r of NotOk \<Rightarrow> with_tokens None None st | Tokens a t \<Rightarrow> with_tokens a t st | _ \<Rightarrow> st);
         st2 = st1\<lparr> tb_client := (tb_client st1)\<lparr> ac_refreshing := False \<rparr> \<rparr>
     in resume_calls (case r of Tokens _ _ \<Rightarrow> True | _ \<Rightarrow> False) st2)"

section \<open>Login and logout\<close>

text \<open>The answer of the login and registration requests: token, access token, refresh token.\<close>
definition login_tokens :: "string option \<Rightarrow> string option \<Rightarrow> string option \<Rightarrow> tab \<Rightarrow> tab" where
  "login_tokens token acc rtok st =
    (if str_opt acc \<noteq> None \<and> str_opt rtok \<noteq> None then with_tokens acc rtok st else with_tokens token None st)"

text \<open>The request, if there is a token to revoke; its outcome is ignored and the tokens are cleared.\<close>
definition begin_logout :: "tab \<Rightarrow> tab" where
  "begin_logout st = (case str_opt (ac_refresh (tb_client st)) of Some t \<Rightarrow> send (LogoutRequest t) st | None \<Rightarrow> st)"

definition end_logout :: "tab \<Rightarrow> tab" where
  "end_logout st = (let st1 = with_tokens None None st in st1\<lparr> tb_store := store_logout_end (tb_store st1) \<rparr>)"

definition begin_logout_all :: "tab \<Rightarrow> tab" where
  "begin_logout_all st = (if str_opt (ac_access (tb_client st)) \<noteq> None then begin_fetch False st else st)"

section \<open>What resuming does\<close>

definition resumed :: "bool \<Rightarrow> bool \<times> call \<Rightarrow> bool \<times> call" where
  "resumed ok x = (case x of (s, Waiting) \<Rightarrow> (s, if ok then Retried else Finished SessionExpired) | _ \<Rightarrow> x)"

definition waiting :: "tab \<Rightarrow> nat \<Rightarrow> bool" where
  "waiting st i = (i < length (tb_calls st) \<and> snd (tb_calls st ! i) = Waiting)"

definition retries :: "tab \<Rightarrow> nat \<Rightarrow> request list" where
  "retries st n = map (\<lambda>i. ApiRequest i (request_token (fst (tb_calls st ! i)) (tb_client st))) (filter (waiting st) [0..<n])"

lemma update_at_boundary: "n < length xs \<Longrightarrow> (map f (take n xs) @ drop n xs)[n := y] = map f (take n xs) @ y # drop (Suc n) xs"
  by (simp add: list_update_append Cons_nth_drop_Suc[symmetric])

lemma resume_upto:
  assumes "n \<le> length (tb_calls st)"
  shows "fold (resume_one ok) [0..<n] st = st\<lparr> tb_calls := map (resumed ok) (take n (tb_calls st)) @ drop n (tb_calls st),
     tb_sent := tb_sent st @ (if ok then retries st n else []) \<rparr>"
  using assms
proof (induction n)
  case 0
  show ?case by (simp add: retries_def)
next
  case (Suc n)
  define st1 where "st1 = st\<lparr> tb_calls := map (resumed ok) (take n (tb_calls st)) @ drop n (tb_calls st),
     tb_sent := tb_sent st @ (if ok then retries st n else []) \<rparr>"
  have n: "n < length (tb_calls st)" using Suc.prems by simp
  obtain s k where sk: "tb_calls st ! n = (s, k)" by force
  have at: "tb_calls st1 ! n = (s, k)" using n sk by (simp add: st1_def nth_append)
  have tk: "take (Suc n) (tb_calls st) = take n (tb_calls st) @ [(s, k)]" using n sk by (simp add: take_Suc_conv_app_nth)
  have fold: "fold (resume_one ok) [0..<Suc n] st = resume_one ok n st1" using Suc by (simp add: st1_def)
  have dr: "drop n (tb_calls st) = (s, k) # drop (Suc n) (tb_calls st)" using n sk by (simp add: Cons_nth_drop_Suc[symmetric])
  show ?case
  proof (cases "k = Waiting")
    case True
    then have r: "retries st (Suc n) = retries st n @ [ApiRequest n (request_token s (tb_client st))]"
      using n sk by (simp add: retries_def waiting_def)
    have c: "tb_client st1 = tb_client st" by (simp add: st1_def)
    have "resume_one ok n st1 = (if ok then send (ApiRequest n (request_token s (tb_client st))) (set_call n Retried st1)
        else set_call n (Finished SessionExpired) st1)" by (simp add: resume_one_def at True c)
    also have "\<dots> = st\<lparr> tb_calls := map (resumed ok) (take (Suc n) (tb_calls st)) @ drop (Suc n) (tb_calls st),
        tb_sent := tb_sent st @ (if ok then retries st (Suc n) else []) \<rparr>"
      using True n by (simp add: set_call_def send_def at r tk resumed_def) (simp add: st1_def update_at_boundary)
    finally show ?thesis unfolding fold .
  next
    case False
    then have r: "retries st (Suc n) = retries st n" using sk by (simp add: retries_def waiting_def)
    have "resume_one ok n st1 = st1" using False by (simp add: resume_one_def at split: call.split)
    then have "fold (resume_one ok) [0..<Suc n] st = st1" unfolding fold .
    also have "st1 = st\<lparr> tb_calls := map (resumed ok) (take (Suc n) (tb_calls st)) @ drop (Suc n) (tb_calls st),
        tb_sent := tb_sent st @ (if ok then retries st (Suc n) else []) \<rparr>"
      using False by (simp add: st1_def tk r dr resumed_def split: call.split)
    finally show ?thesis .
  qed
qed

lemma resume_calls_eq: "resume_calls ok st = st\<lparr> tb_calls := map (resumed ok) (tb_calls st),
    tb_sent := tb_sent st @ (if ok then retries st (length (tb_calls st)) else []) \<rparr>"
  by (simp add: resume_calls_def resume_upto)

section \<open>Every call ends\<close>

text \<open>An answer arrives: to a request of a call, or to the refresh.\<close>
inductive answer_step :: "tab \<Rightarrow> tab \<Rightarrow> bool" where
  an_call: "i < length (tb_calls st) \<Longrightarrow> snd (tb_calls st ! i) \<in> {First, Retried} \<Longrightarrow> answer_step st (receive i n st)"
| an_refresh: "ac_refreshing (tb_client st) \<Longrightarrow> answer_step st (receive_refresh r st)"

inductive tab_step :: "tab \<Rightarrow> tab \<Rightarrow> bool" where
  tb_answer: "answer_step st st' \<Longrightarrow> tab_step st st'"
| tb_begin: "tab_step st (begin_fetch skip st)"
| tb_login: "tab_step st (login_tokens token acc rtok st)"
| tb_logout: "tab_step st (begin_logout st)"
| tb_logged_out: "tab_step st (end_logout st)"
| tb_set: "tab_step st (with_tokens t (ac_refresh (tb_client st)) st)"

definition call_requests :: "nat \<Rightarrow> tab \<Rightarrow> nat" where
  "call_requests i st = length (filter (\<lambda>r. case r of ApiRequest j _ \<Rightarrow> j = i | _ \<Rightarrow> False) (tb_sent st))"

definition sent_by :: "call \<Rightarrow> nat" where
  "sent_by k = (case k of First \<Rightarrow> 1 | Waiting \<Rightarrow> 1 | Retried \<Rightarrow> 2 | Finished _ \<Rightarrow> 2)"

definition tab_ok :: "tab \<Rightarrow> bool" where
  "tab_ok st = ((ac_refreshing (tb_client st) \<longleftrightarrow> (\<exists>i. waiting st i)) \<and>
     (\<forall>i<length (tb_calls st). call_requests i st \<le> sent_by (snd (tb_calls st ! i))) \<and>
     (\<forall>i\<ge>length (tb_calls st). call_requests i st = 0))"

lemma with_tokens_fields [simp]: "tb_calls (with_tokens a r st) = tb_calls st" "tb_sent (with_tokens a r st) = tb_sent st"
  "ac_access (tb_client (with_tokens a r st)) = a" "ac_refresh (tb_client (with_tokens a r st)) = r"
  "ac_refreshing (tb_client (with_tokens a r st)) = ac_refreshing (tb_client st)"
  by (simp_all add: with_tokens_def save_tokens_def split: prod.split)

lemma set_call_fields [simp]: "tb_client (set_call i k st) = tb_client st" "tb_sent (set_call i k st) = tb_sent st"
  "tb_calls (set_call i k st) = (tb_calls st)[i := (fst (tb_calls st ! i), k)]"
  by (simp_all add: set_call_def)

lemma send_fields [simp]: "tb_client (send r st) = tb_client st" "tb_calls (send r st) = tb_calls st"
  "tb_sent (send r st) = tb_sent st @ [r]"
  by (simp_all add: send_def)

lemma tab_ok_same: "tab_ok st \<Longrightarrow> tb_calls st' = tb_calls st \<Longrightarrow> ac_refreshing (tb_client st') = ac_refreshing (tb_client st) \<Longrightarrow>
    (\<And>i. call_requests i st' = call_requests i st) \<Longrightarrow> tab_ok st'"
  by (simp add: tab_ok_def waiting_def)

lemma call_requests_send [simp]: "call_requests i (send (ApiRequest j t) st) = call_requests i st + (if i = j then 1 else 0)"
  "call_requests i (send (RefreshRequest u) st) = call_requests i st" "call_requests i (send (LogoutRequest u) st) = call_requests i st"
  by (simp_all add: call_requests_def)

lemma call_requests_sent: "tb_sent st' = tb_sent st \<Longrightarrow> call_requests i st' = call_requests i st"
  by (simp add: call_requests_def)

lemma begin_fetch_ok:
  assumes "tab_ok st" shows "tab_ok (begin_fetch skip st)"
proof -
  have c: "call_requests i (begin_fetch skip st) = call_requests i st + (if i = length (tb_calls st) then 1 else 0)" for i
    by (simp add: begin_fetch_def call_requests_def)
  have w: "waiting (begin_fetch skip st) i = waiting st i" for i
    by (auto simp: begin_fetch_def waiting_def nth_append less_Suc_eq)
  have f: "tb_calls (begin_fetch skip st) = tb_calls st @ [(skip, First)]" "tb_client (begin_fetch skip st) = tb_client st"
    by (simp_all add: begin_fetch_def)
  show ?thesis using assms unfolding tab_ok_def w c f by (auto simp: nth_append less_Suc_eq sent_by_def)
qed

text \<open>Changing the state of one call that is not waiting.\<close>
lemma set_call_ok:
  assumes "tab_ok st" "i < length (tb_calls st)" "snd (tb_calls st ! i) \<in> {First, Retried}" "k = Waiting \<longrightarrow> ac_refreshing (tb_client st)"
    "sent_by (snd (tb_calls st ! i)) \<le> sent_by k"
  shows "tab_ok (set_call i k st)"
proof -
  have w: "waiting (set_call i k st) j = (if j = i then k = Waiting else waiting st j)" for j
    using assms(2) by (auto simp: waiting_def)
  have ni: "\<not> waiting st i" using assms(3) by (auto simp: waiting_def)
  have c: "call_requests j (set_call i k st) = call_requests j st" for j by (rule call_requests_sent) simp
  have "ac_refreshing (tb_client st) \<longleftrightarrow> (\<exists>j. waiting (set_call i k st) j)"
    using assms(1,4) ni unfolding tab_ok_def w by metis
  moreover have "call_requests j st \<le> sent_by (snd (tb_calls (set_call i k st) ! j))" if "j < length (tb_calls st)" for j
  proof (cases "j = i")
    case True
    have "call_requests i st \<le> sent_by (snd (tb_calls st ! i))" using assms(1,2) by (simp add: tab_ok_def)
    then show ?thesis using True assms(2,5) by simp
  next
    case False
    then show ?thesis using assms(1) that by (simp add: tab_ok_def)
  qed
  ultimately show ?thesis using assms(1) by (simp add: tab_ok_def c)
qed

lemma refresh_access_fields:
  "tb_calls (snd (refresh_access_token st)) = tb_calls st"
  "fst (refresh_access_token st) \<longleftrightarrow> ac_refreshing (tb_client st) \<or> str_opt (ac_refresh (tb_client st)) \<noteq> None"
  "call_requests j (snd (refresh_access_token st)) = call_requests j st"
  "fst (refresh_access_token st) \<Longrightarrow> ac_refreshing (tb_client (snd (refresh_access_token st)))"
  by (auto simp: refresh_access_token_def call_requests_def split: option.splits if_splits)

lemma receive_cases:
  assumes "i < length (tb_calls st)" "snd (tb_calls st ! i) \<in> {First, Retried}"
  obtains out where "receive i n st = set_call i (Finished out) st"
  | "receive i n st = set_call i Waiting (snd (refresh_access_token st))" "snd (tb_calls st ! i) = First" "fst (refresh_access_token st)"
proof -
  obtain s k where sk: "tb_calls st ! i = (s, k)" by force
  show ?thesis
  proof (cases "k = First \<and> (\<exists>m. n = Some m \<and> m = 401) \<and> str_opt (ac_refresh (tb_client st)) \<noteq> None \<and> \<not> s")
    case True
    then have f: "fst (refresh_access_token st)" by (simp add: refresh_access_fields(2))
    obtain st1 where st1: "refresh_access_token st = (True, st1)" using f by (cases "refresh_access_token st") simp
    have "receive i n st = set_call i Waiting st1" using True by (auto simp: receive_def sk st1)
    then show ?thesis using that(2) True sk f st1 by simp
  next
    case False
    have "\<exists>out. receive i n st = set_call i (Finished out) st"
    proof (cases n)
      case None
      then show ?thesis by (auto simp: receive_def)
    next
      case (Some m)
      have "receive i n st = set_call i (Finished (Answered m)) st"
        using assms(2) False Some by (auto simp: receive_def sk)
      then show ?thesis by blast
    qed
    then show ?thesis using that(1) by blast
  qed
qed

lemma receive_ok:
  assumes "tab_ok st" "i < length (tb_calls st)" "snd (tb_calls st ! i) \<in> {First, Retried}"
  shows "tab_ok (receive i n st)"
  using assms(2,3)
proof (cases rule: receive_cases[where n = n])
  case (1 out)
  then show ?thesis unfolding 1 by (intro set_call_ok assms) (use assms(3) in \<open>auto simp: sent_by_def\<close>)
next
  case 2
  note f = refresh_access_fields[where st = st]
  obtain st1 where st1: "snd (refresh_access_token st) = st1" by simp
  have r: "ac_refreshing (tb_client st1)" "tb_calls st1 = tb_calls st" "call_requests j st1 = call_requests j st" for j
    using f(1,3,4) 2(3) by (simp_all add: st1)
  have w: "waiting (set_call i Waiting st1) j = (if j = i then True else waiting st j)" for j
    using assms(2) by (auto simp: waiting_def r)
  have c: "call_requests j (set_call i Waiting st1) = call_requests j st" for j using r(3) by (simp add: call_requests_def)
  have bound: "call_requests j st \<le> sent_by (snd (tb_calls (set_call i Waiting st1) ! j))" if "j < length (tb_calls st)" for j
  proof (cases "j = i")
    case True
    have "call_requests i st \<le> sent_by (snd (tb_calls st ! i))" using assms(1,2) by (simp add: tab_ok_def)
    then show ?thesis using True assms(2) 2(2) by (simp add: r(2) sent_by_def)
  next
    case False
    then show ?thesis using assms(1) that by (simp add: tab_ok_def r(2))
  qed
  have ex: "\<exists>j. waiting (set_call i Waiting st1) j" by (rule exI[of _ i]) (simp add: w)
  have rest: "call_requests j st = 0" if "length (tb_calls st) \<le> j" for j using assms(1) that by (simp add: tab_ok_def)
  have len: "length (tb_calls (set_call i Waiting st1)) = length (tb_calls st)" by (simp add: r(2))
  have rf: "ac_refreshing (tb_client (set_call i Waiting st1))" by (simp add: r(1))
  show ?thesis unfolding 2(1) st1 tab_ok_def c len using bound ex rest rf by blast
qed

lemma receive_refresh_fields:
  "tb_calls (receive_refresh r st) = map (resumed (case r of Tokens _ _ \<Rightarrow> True | _ \<Rightarrow> False)) (tb_calls st)"
  "\<not> ac_refreshing (tb_client (receive_refresh r st))"
proof -
  show "tb_calls (receive_refresh r st) = map (resumed (case r of Tokens _ _ \<Rightarrow> True | _ \<Rightarrow> False)) (tb_calls st)"
    by (cases r) (simp_all add: receive_refresh_def resume_calls_eq Let_def)
  show "\<not> ac_refreshing (tb_client (receive_refresh r st))"
    by (simp add: receive_refresh_def resume_calls_eq Let_def)
qed

lemma retries_count: "length (filter (\<lambda>r. case r of ApiRequest j _ \<Rightarrow> j = i | _ \<Rightarrow> False) (retries st n)) = (if i < n \<and> waiting st i then 1 else 0)"
  by (induction n) (auto simp: retries_def less_Suc_eq)

lemma receive_refresh_requests:
  "call_requests i (receive_refresh r st) = call_requests i st + (if (\<exists>a t. r = Tokens a t) \<and> waiting st i then 1 else 0)"
proof -
  have w: "waiting (x\<lparr> tb_client := c \<rparr>) i = waiting x i" "waiting (with_tokens a t st) i = waiting st i" for x c a t
    by (simp_all add: waiting_def)
  have in_range: "waiting st i \<Longrightarrow> i < length (tb_calls st)" by (simp add: waiting_def)
  show ?thesis
    by (cases r; simp add: receive_refresh_def Let_def resume_calls_eq call_requests_def retries_count w) (use in_range in auto)
qed

lemma receive_refresh_ok:
  assumes "tab_ok st" shows "tab_ok (receive_refresh r st)"
proof -
  let ?st = "receive_refresh r st"
  have k: "snd (tb_calls ?st ! i) = snd (resumed (case r of Tokens _ _ \<Rightarrow> True | _ \<Rightarrow> False) (tb_calls st ! i))" if "i < length (tb_calls st)" for i
    using that by (simp add: receive_refresh_fields)
  have nw: "\<not> waiting ?st i" for i
    by (cases "i < length (tb_calls st)") (auto simp: waiting_def receive_refresh_fields resumed_def split: prod.splits call.splits)
  have "call_requests i ?st \<le> sent_by (snd (tb_calls ?st ! i))" if i: "i < length (tb_calls st)" for i
  proof -
    have "call_requests i st \<le> sent_by (snd (tb_calls st ! i))" using assms i by (simp add: tab_ok_def)
    then show ?thesis using i unfolding k[OF i]
      by (cases "tb_calls st ! i"; cases r; cases "snd (tb_calls st ! i)")
        (auto simp: receive_refresh_requests resumed_def sent_by_def waiting_def)
  qed
  moreover have "call_requests i ?st = 0" if "length (tb_calls st) \<le> i" for i
    using assms that by (simp add: tab_ok_def receive_refresh_requests waiting_def)
  ultimately show ?thesis using nw receive_refresh_fields by (simp add: tab_ok_def)
qed

lemma answer_ok: "answer_step st st' \<Longrightarrow> tab_ok st \<Longrightarrow> tab_ok st'"
  by (induction rule: answer_step.induct) (simp_all add: receive_ok receive_refresh_ok)

lemma tab_step_ok: "tab_step st st' \<Longrightarrow> tab_ok st \<Longrightarrow> tab_ok st'"
proof (induction rule: tab_step.induct)
  case (tb_login st token acc rtok)
  then show ?case by (elim tab_ok_same) (simp_all add: login_tokens_def call_requests_def)
next
  case (tb_logout st)
  then show ?case by (elim tab_ok_same) (simp_all add: begin_logout_def call_requests_def split: option.split)
next
  case (tb_logged_out st)
  then show ?case by (elim tab_ok_same) (simp_all add: end_logout_def Let_def call_requests_def)
next
  case (tb_set st t)
  then show ?case by (elim tab_ok_same) (simp_all add: call_requests_def)
qed (simp_all add: begin_fetch_ok answer_ok)

definition answers_left :: "call \<Rightarrow> nat" where
  "answers_left k = (case k of First \<Rightarrow> 3 | Waiting \<Rightarrow> 2 | Retried \<Rightarrow> 1 | Finished _ \<Rightarrow> 0)"

definition total_left :: "tab \<Rightarrow> nat" where
  "total_left st = sum_list (map (\<lambda>x. answers_left (snd x)) (tb_calls st))"

lemma sum_list_less:
  assumes "\<And>x. x \<in> set xs \<Longrightarrow> f x \<le> g x" "i < length xs" "f (xs ! i) < g (xs ! i)"
  shows "sum_list (map f xs) < (sum_list (map g xs) :: nat)"
  using assms
proof (induction xs arbitrary: i)
  case (Cons x xs)
  have le: "sum_list (map f xs) \<le> sum_list (map g xs)" by (rule sum_list_mono) (use Cons.prems in auto)
  show ?case
  proof (cases i)
    case 0
    then show ?thesis using le Cons.prems(3) by simp
  next
    case (Suc j)
    have "sum_list (map f xs) < sum_list (map g xs)" by (rule Cons.IH[of j]) (use Cons.prems Suc in auto)
    then show ?thesis using Cons.prems(1)[of x] by simp
  qed
qed simp

lemma total_left_set:
  assumes "i < length (tb_calls st)" "answers_left k < answers_left (snd (tb_calls st ! i))"
  shows "total_left (set_call i k st) < total_left st"
proof -
  have "total_left (set_call i k st) + answers_left (snd (tb_calls st ! i)) = total_left st + answers_left k"
    using assms(1) elem_le_sum_list[of i "map (\<lambda>x. answers_left (snd x)) (tb_calls st)"]
    by (simp add: total_left_def map_update sum_list_update)
  then show ?thesis using assms(2) by simp
qed

lemma answer_decreases:
  assumes "answer_step st st'" "tab_ok st" shows "total_left st' < total_left st"
  using assms
proof (induction rule: answer_step.induct)
  case (an_call i st n)
  have k: "answers_left (Finished out) < answers_left (snd (tb_calls st ! i))" for out
    using an_call(2) by (auto simp: answers_left_def)
  from an_call(1,2) show ?case
  proof (cases rule: receive_cases[where n = n])
    case (1 out)
    show ?thesis unfolding 1 by (rule total_left_set[OF an_call(1) k])
  next
    case 2
    let ?st = "snd (refresh_access_token st)"
    have c: "tb_calls ?st = tb_calls st" by (rule refresh_access_fields)
    have "total_left (set_call i Waiting ?st) < total_left ?st"
      by (rule total_left_set) (use an_call(1) 2(2) in \<open>simp_all add: c answers_left_def\<close>)
    then show ?thesis unfolding 2(1) by (simp add: total_left_def c)
  qed
next
  case (an_refresh st r)
  then obtain i where i: "waiting st i" by (auto simp: tab_ok_def)
  let ?ok = "case r of Tokens _ _ \<Rightarrow> True | _ \<Rightarrow> False"
  have le: "answers_left (snd (resumed b x)) \<le> answers_left (snd x)" for b x
    by (auto simp: resumed_def answers_left_def split: prod.split call.split)
  have lt: "answers_left (snd (resumed b x)) < answers_left (snd x)" if "snd x = Waiting" for b x
    using that by (cases x) (simp add: resumed_def answers_left_def)
  have "sum_list (map (\<lambda>x. answers_left (snd (resumed ?ok x))) (tb_calls st)) < sum_list (map (\<lambda>x. answers_left (snd x)) (tb_calls st))"
    using i le lt by (intro sum_list_less[of _ _ _ i]) (simp_all add: waiting_def)
  then show ?case by (simp add: total_left_def receive_refresh_fields comp_def)
qed

definition new_tab :: "storage \<Rightarrow> auth_store \<Rightarrow> tab" where
  "new_tab m s = \<lparr> tb_client = load_tokens m, tb_storage = m, tb_store = s, tb_calls = [], tb_sent = [] \<rparr>"

lemma new_tab_ok: "tab_ok (new_tab m s)"
  by (simp add: tab_ok_def new_tab_def waiting_def load_tokens_def call_requests_def Let_def)

lemma tab_run_ok: "tab_step\<^sup>*\<^sup>* (new_tab m s) st \<Longrightarrow> tab_ok st"
  by (induction rule: rtranclp_induct) (auto intro: tab_step_ok new_tab_ok)

lemma answers_bounded: "(answer_step ^^ n) st st' \<Longrightarrow> tab_ok st \<Longrightarrow> tab_ok st' \<and> total_left st' + n \<le> total_left st"
proof (induction n arbitrary: st')
  case (Suc n)
  then obtain st1 where "(answer_step ^^ n) st st1" "answer_step st1 st'" by auto
  then show ?case using Suc.IH[of st1] Suc.prems(2) answer_ok[of st1 st'] answer_decreases[of st1 st'] by auto
qed simp

lemma total_left_bound: "total_left st \<le> 3 * length (tb_calls st)"
proof -
  have "answers_left k \<le> 3" for k by (simp add: answers_left_def split: call.split)
  then have "sum_list (map (\<lambda>x. answers_left (snd x)) xs) \<le> 3 * length xs" for xs :: "(bool \<times> call) list"
    by (induction xs) (auto intro: add_mono)
  then show ?thesis by (simp add: total_left_def)
qed

text \<open>C25: No request hangs or loops. From any state a tab reaches, answers of the network can arrive at most three times
  per call before there is none left to wait for; as long as a call is not finished an answer is awaited, of its
  own request or of the refresh; and no call sends more than two requests, however often the token expires.\<close>
theorem fetch_terminates:
  assumes "tab_step\<^sup>*\<^sup>* (new_tab m s) st"
  shows "(\<forall>n st'. (answer_step ^^ n) st st' \<longrightarrow> n \<le> 3 * length (tb_calls st))
    \<and> ((\<exists>st'. answer_step st st') \<longleftrightarrow> (\<exists>i<length (tb_calls st). \<forall>out. snd (tb_calls st ! i) \<noteq> Finished out))
    \<and> (\<forall>i. call_requests i st \<le> 2)"
proof -
  have ok: "tab_ok st" by (rule tab_run_ok[OF assms])
  have "n \<le> 3 * length (tb_calls st)" if "(answer_step ^^ n) st st'" for n st'
    using answers_bounded[OF that ok] total_left_bound[of st] by simp
  moreover have "(\<exists>st'. answer_step st st') \<longleftrightarrow> (\<exists>i<length (tb_calls st). \<forall>out. snd (tb_calls st ! i) \<noteq> Finished out)"
  proof
    assume "\<exists>st'. answer_step st st'"
    then show "\<exists>i<length (tb_calls st). \<forall>out. snd (tb_calls st ! i) \<noteq> Finished out"
      using ok by (auto elim!: answer_step.cases simp: tab_ok_def waiting_def)
  next
    assume "\<exists>i<length (tb_calls st). \<forall>out. snd (tb_calls st ! i) \<noteq> Finished out"
    then obtain i where i: "i < length (tb_calls st)" "\<forall>out. snd (tb_calls st ! i) \<noteq> Finished out" by blast
    show "\<exists>st'. answer_step st st'"
    proof (cases "snd (tb_calls st ! i) = Waiting")
      case True
      then have "ac_refreshing (tb_client st)" using ok i(1) by (auto simp: tab_ok_def waiting_def)
      then show ?thesis using an_refresh by blast
    next
      case False
      then have "snd (tb_calls st ! i) \<in> {First, Retried}" using i(2) by (cases "snd (tb_calls st ! i)") auto
      then show ?thesis using an_call[OF i(1)] by blast
    qed
  qed
  moreover have "call_requests i st \<le> 2" for i
  proof (cases "i < length (tb_calls st)")
    case True
    have "sent_by k \<le> 2" for k by (simp add: sent_by_def split: call.split)
    then show ?thesis using ok True by (meson le_trans tab_ok_def)
  next
    case False
    then show ?thesis using ok by (simp add: tab_ok_def)
  qed
  ultimately show ?thesis by blast
qed

section \<open>A refresh token is sent once\<close>

definition refreshes :: "tab \<Rightarrow> string list" where
  "refreshes st = List.map_filter (\<lambda>r. case r of RefreshRequest t \<Rightarrow> Some t | _ \<Rightarrow> None) (tb_sent st)"

text \<open>Tokens a server issues are new: this tab has sent none of them.\<close>
definition unsent :: "string option \<Rightarrow> tab \<Rightarrow> bool" where
  "unsent r st = (case str_opt r of None \<Rightarrow> True | Some t \<Rightarrow> t \<notin> set (refreshes st))"

text \<open>Steps of a tab whose refresh requests are all answered, by tokens or by a refusal.\<close>
inductive answered_step :: "tab \<Rightarrow> tab \<Rightarrow> bool" where
  ra_call: "i < length (tb_calls st) \<Longrightarrow> snd (tb_calls st ! i) \<in> {First, Retried} \<Longrightarrow> answered_step st (receive i n st)"
| ra_refused: "ac_refreshing (tb_client st) \<Longrightarrow> answered_step st (receive_refresh NotOk st)"
| ra_refreshed: "ac_refreshing (tb_client st) \<Longrightarrow> unsent r st \<Longrightarrow> answered_step st (receive_refresh (Tokens a r) st)"
| ra_begin: "answered_step st (begin_fetch skip st)"
| ra_login: "unsent rtok st \<Longrightarrow> answered_step st (login_tokens token acc rtok st)"
| ra_logout: "answered_step st (begin_logout st)"
| ra_logged_out: "answered_step st (end_logout st)"
| ra_set: "answered_step st (with_tokens t (ac_refresh (tb_client st)) st)"

definition once_ok :: "tab \<Rightarrow> bool" where
  "once_ok st = (distinct (refreshes st) \<and> (ac_refreshing (tb_client st) \<or> unsent (ac_refresh (tb_client st)) st))"

lemma unsent_None [simp]: "unsent None st" by (simp add: unsent_def)

lemma unsent_cong: "refreshes st' = refreshes st \<Longrightarrow> unsent r st' = unsent r st"
  by (simp add: unsent_def split: option.split)

lemma once_same: "once_ok st \<Longrightarrow> refreshes st' = refreshes st \<Longrightarrow> ac_refreshing (tb_client st') = ac_refreshing (tb_client st) \<Longrightarrow>
    unsent (ac_refresh (tb_client st')) st \<or> ac_refresh (tb_client st') = ac_refresh (tb_client st) \<Longrightarrow> once_ok st'"
  unfolding once_ok_def by (metis unsent_cong)

lemma refreshes_sent: "tb_sent st' = tb_sent st \<Longrightarrow> refreshes st' = refreshes st"
  by (simp add: refreshes_def)

lemma refreshes_send [simp]: "refreshes (send (ApiRequest i t) st) = refreshes st" "refreshes (send (LogoutRequest u) st) = refreshes st"
  "refreshes (send (RefreshRequest u) st) = refreshes st @ [u]"
  by (simp_all add: refreshes_def map_filter_def)

lemma refreshes_set_call [simp]: "refreshes (set_call i k st) = refreshes st" by (rule refreshes_sent) simp
lemma refreshes_with_tokens [simp]: "refreshes (with_tokens a r st) = refreshes st" by (rule refreshes_sent) simp

lemma refreshes_retries: "List.map_filter (\<lambda>r. case r of RefreshRequest t \<Rightarrow> Some t | _ \<Rightarrow> None) (retries st n) = []"
  by (simp add: retries_def map_filter_def filter_map comp_def)

lemma map_filter_append: "List.map_filter f (xs @ ys) = List.map_filter f xs @ List.map_filter f ys"
  by (simp add: map_filter_def)

lemma receive_refresh_refreshes [simp]: "refreshes (receive_refresh r st) = refreshes st"
  by (cases r) (simp_all add: receive_refresh_def Let_def resume_calls_eq refreshes_def map_filter_append refreshes_retries)

lemma receive_refresh_token: "ac_refresh (tb_client (receive_refresh r st)) =
    (case r of NotOk \<Rightarrow> None | Tokens a t \<Rightarrow> t | _ \<Rightarrow> ac_refresh (tb_client st))"
  "ac_access (tb_client (receive_refresh r st)) =
    (case r of NotOk \<Rightarrow> None | Tokens a t \<Rightarrow> a | _ \<Rightarrow> ac_access (tb_client st))"
  by (cases r; simp add: receive_refresh_def Let_def resume_calls_eq)+

lemma refresh_access_once: "once_ok st \<Longrightarrow> once_ok (snd (refresh_access_token st))"
proof (cases "ac_refreshing (tb_client st) \<or> str_opt (ac_refresh (tb_client st)) = None")
  case True
  then show "once_ok st \<Longrightarrow> once_ok (snd (refresh_access_token st))" by (auto simp: refresh_access_token_def split: option.split)
next
  case False
  then obtain t where t: "str_opt (ac_refresh (tb_client st)) = Some t" "\<not> ac_refreshing (tb_client st)" by auto
  have r: "refreshes (snd (refresh_access_token st)) = refreshes st @ [t]"
    using t by (simp add: refresh_access_token_def refreshes_def map_filter_def)
  assume "once_ok st"
  then have "distinct (refreshes st @ [t])" using t by (simp add: once_ok_def unsent_def)
  then show "once_ok (snd (refresh_access_token st))"
    unfolding once_ok_def r using t by (simp add: refresh_access_token_def)
qed

lemma answered_once: "answered_step st st' \<Longrightarrow> once_ok st \<Longrightarrow> once_ok st'"
proof (induction rule: answered_step.induct)
  case (ra_call i st n)
  from ra_call(1,2) show ?case
  proof (cases rule: receive_cases[where n = n])
    case (1 out)
    then show ?thesis by (intro once_same[OF ra_call(3)]) simp_all
  next
    case 2
    have "once_ok (snd (refresh_access_token st))" by (rule refresh_access_once[OF ra_call(3)])
    then show ?thesis unfolding 2(1) by (rule once_same) simp_all
  qed
next
  case (ra_refused st)
  then show ?case by (simp add: once_ok_def receive_refresh_token unsent_cong[OF receive_refresh_refreshes])
next
  case (ra_refreshed st r a)
  then show ?case by (simp add: once_ok_def receive_refresh_token unsent_cong[OF receive_refresh_refreshes])
next
  case (ra_begin st skip)
  have "refreshes (begin_fetch skip st) = refreshes st" by (simp add: begin_fetch_def refreshes_def map_filter_def)
  then show ?case by (intro once_same[OF ra_begin]) (simp_all add: begin_fetch_def)
next
  case (ra_login rtok st token acc)
  have "unsent (ac_refresh (tb_client (login_tokens token acc rtok st))) st" using ra_login(1) by (simp add: login_tokens_def)
  then show ?case by (intro once_same[OF ra_login(2)]) (simp_all add: login_tokens_def)
next
  case (ra_logout st)
  then show ?case by (intro once_same[OF ra_logout]) (simp_all add: begin_logout_def split: option.split)
next
  case (ra_logged_out st)
  have "refreshes (end_logout st) = refreshes st" by (rule refreshes_sent) (simp add: end_logout_def Let_def)
  then show ?case by (intro once_same[OF ra_logged_out]) (simp_all add: end_logout_def Let_def)
next
  case (ra_set st t)
  show ?case by (intro once_same[OF ra_set]) simp_all
qed

text \<open>C24: Requests that fail together refresh together: along any run of a tab in which every refresh request gets an answer,
  with tokens or a refusal, and the server never issues a token twice, no refresh token is sent twice, whatever
  the interleaving of calls, answers, logins and logouts.\<close>
theorem refresh_token_sent_once:
  assumes "answered_step\<^sup>*\<^sup>* (new_tab m s) st" shows "distinct (refreshes st)"
proof -
  have "once_ok (new_tab m s)"
    by (simp add: once_ok_def new_tab_def refreshes_def unsent_def map_filter_def split: option.split)
  with assms have "once_ok st" by (induction rule: rtranclp_induct) (auto intro: answered_once)
  then show ?thesis by (simp add: once_ok_def)
qed

section \<open>Two tabs of one session\<close>

text \<open>What the client sees of the answer of the refresh route.\<close>
definition reply_of :: "(string \<times> string) result \<Rightarrow> refresh_reply" where
  "reply_of r = (case r of Inr (a, t) \<Rightarrow> Tokens (Some a) (Some t) | Inl _ \<Rightarrow> NotOk)"

definition expired_call :: "tab \<Rightarrow> tab" where
  "expired_call st = receive 0 (Some 401) (begin_fetch False st)"

lemma expired_call_fields:
  assumes "load_tokens m = \<lparr> ac_access = a, ac_refresh = Some t, ac_refreshing = False \<rparr>" "t \<noteq> []"
  shows "tb_calls (expired_call (new_tab m s)) = [(False, Waiting)]"
    "tb_sent (expired_call (new_tab m s)) = [ApiRequest 0 (str_opt a), RefreshRequest t]"
    "tb_storage (expired_call (new_tab m s)) = m"
  using assms by (cases t; simp add: expired_call_def begin_fetch_def send_def new_tab_def request_token_def receive_def
    refresh_access_token_def set_call_def)+

lemma refused_reply_clears: "tb_storage (receive_refresh NotOk st) legacy_token_key = None"
  "tb_storage (receive_refresh NotOk st) refresh_token_key = None" "tb_storage (receive_refresh NotOk st) access_token_key = None"
  by (simp_all add: receive_refresh_def resume_calls_eq Let_def with_tokens_def save_tokens_def put_item_def
    access_token_key_def refresh_token_key_def legacy_token_key_def)

lemma cleared_storage: "m legacy_token_key = None \<Longrightarrow> m refresh_token_key = None \<Longrightarrow> m access_token_key = None \<Longrightarrow>
    load_tokens m = \<lparr> ac_access = None, ac_refresh = None, ac_refreshing = False \<rparr>"
  by (simp add: load_tokens_def)

lemma refresh_of_rotate: "refresh E S now tid (Some t) w = (r, w') \<Longrightarrow> t \<noteq> [] \<Longrightarrow>
    \<exists>x. rotate_refresh_token E S now tid t w = (x, w') \<and>
      r = (case x of Inl e \<Rightarrow> Inl e | Inr None \<Rightarrow> api_error ''Invalid or expired refresh token'' 401 | Inr (Some y) \<Rightarrow> Inr y)"
  by (cases t) (auto simp: refresh_def split: prod.splits sum.splits option.splits)

lemma refresh_of_refused: "fst (rotate_refresh_token E S now tid t w) = Inr None \<Longrightarrow> \<exists>e. fst (refresh E S now tid (Some t) w) = Inl e"
  by (cases t) (auto simp: refresh_def split: prod.splits sum.splits)

text \<open>C26: Two tabs of one session end it. Both, just opened, hold the same refresh token, any one that is in use, with the set of its family still on
  record when it is sent for the second time; a request of each is answered 401, and both
  send it to the refresh route within its week. The first answer gives its tab new tokens and the request is repeated; the second, with whatever in between that
  keeps the first one's mark as revoked and the members of the set, is
  taken for the reuse of a stolen token: its tab removes the tokens from the storage the tabs share and
  its request fails with an expired session, and the new refresh token of the first tab is refused from then on, in every world that keeps its mark.\<close>
theorem two_tabs_end_session:
  assumes "services S V" "get_secrets E = Inr (acc, sec)"
    "\<not> ks_exists t1 (w_ks (V w)) (revoked_key tid)" "ks_get t1 (w_ks (V w)) (refresh_key tid) = Some (RefreshDoc d)"
    "ks_live t2 (w_ks (V w)) (family_key fid) = Some (RSet M, ex)" "tid \<noteq> tid1"
    "tok = family_token S sec p tid fid t0" "tok \<noteq> []"
    "load_tokens m = \<lparr> ac_access = a0, ac_refresh = Some tok, ac_refreshing = False \<rparr>"
    "refresh E S t1 tid1 (Some tok) w = (r1, w1)"
    "w_ks (V w2) (revoked_key tid) = w_ks (V w1) (revoked_key tid)"
    "ks_members t2 (w_ks (V w1)) (family_key fid) \<subseteq> ks_members t2 (w_ks (V w2)) (family_key fid)"
    "refresh E S t2 tid2 (Some tok) w2 = (r2, w3)"
    "t0 \<le> t1" "t1 \<le> t2" "t2 div 1000 < t0 div 1000 + refresh_expiry"
    "A = expired_call (new_tab m s)" "B = expired_call (new_tab m s')"
    "A' = receive_refresh (reply_of r1) A" "B' = receive_refresh (reply_of r2) (B\<lparr> tb_storage := tb_storage A' \<rparr>)"
  shows "last (tb_sent A) = RefreshRequest tok \<and> last (tb_sent B) = RefreshRequest tok
    \<and> tb_calls A' = [(False, Retried)] \<and> tb_calls B' = [(False, Finished SessionExpired)]
    \<and> load_tokens (tb_storage B') = \<lparr> ac_access = None, ac_refresh = None, ac_refreshing = False \<rparr>
    \<and> (\<exists>tok1. ac_refresh (tb_client A') = Some tok1 \<and> (\<forall>t3 tid3 w4. w_ks (V w4) (revoked_key tid1) = w_ks (V w3) (revoked_key tid1) \<longrightarrow>
        (\<exists>e. fst (refresh E S t3 tid3 (Some tok1) w4) = Inl e)))"
proof -
  obtain x1 where x1: "rotate_refresh_token E S t1 tid1 tok w = (x1, w1)"
    and r1: "r1 = (case x1 of Inl e \<Rightarrow> Inl e | Inr None \<Rightarrow> api_error ''Invalid or expired refresh token'' 401 | Inr (Some y) \<Rightarrow> Inr y)"
    using refresh_of_rotate[OF assms(10,8)] by blast
  obtain x2 where x2: "rotate_refresh_token E S t2 tid2 tok w2 = (x2, w3)"
    and r2: "r2 = (case x2 of Inl e \<Rightarrow> Inl e | Inr None \<Rightarrow> api_error ''Invalid or expired refresh token'' 401 | Inr (Some y) \<Rightarrow> Inr y)"
    using refresh_of_rotate[OF assms(13,8)] by blast
  let ?tok1 = "family_token S sec p tid1 fid t1"
  obtain a where f: "x1 = Inr (Some (a, ?tok1))" "x2 = Inr None"
    and gone: "\<And>t3 tid3 w4. w_ks (V w4) (revoked_key tid1) = w_ks (V w3) (revoked_key tid1) \<Longrightarrow>
      fst (rotate_refresh_token E S t3 tid3 ?tok1 w4) = Inr None"
    using services.reuse_ends_family[OF assms(1-6) x1[unfolded assms(7)] assms(11,12) x2[unfolded assms(7)] assms(14-16)] assms(15) by blast
  have reply: "reply_of r1 = Tokens (Some a) (Some ?tok1)" "reply_of r2 = NotOk"
    by (simp_all add: r1 r2 f reply_of_def)
  have A: "tb_calls A = [(False, Waiting)]" "last (tb_sent A) = RefreshRequest tok"
    and B: "tb_calls B = [(False, Waiting)]" "last (tb_sent B) = RefreshRequest tok"
    unfolding assms(17,18) by (simp_all add: expired_call_fields[OF assms(9,8)])
  have calls: "tb_calls A' = [(False, Retried)]" "tb_calls B' = [(False, Finished SessionExpired)]"
    unfolding assms(19,20) reply by (simp_all add: receive_refresh_fields A B resumed_def)
  have tok1: "ac_refresh (tb_client A') = Some ?tok1" unfolding assms(19) reply by (simp add: receive_refresh_token)
  have "load_tokens (tb_storage B') = \<lparr> ac_access = None, ac_refresh = None, ac_refreshing = False \<rparr>"
    unfolding assms(20) reply by (intro cleared_storage refused_reply_clears)
  then show ?thesis using A(2) B(2) calls tok1 refresh_of_refused[OF gone] by blast
qed

section \<open>Witnesses\<close>

definition demo_store :: auth_store where
  "demo_store = \<lparr> au_user = None, au_isLoading = False, au_error = None, au_isInitialized = True \<rparr>"

definition demo_storage :: "string \<Rightarrow> storage" where
  "demo_storage t = [access_token_key \<mapsto> ''a'', refresh_token_key \<mapsto> t]"

lemma demo_storage_tokens: "load_tokens (demo_storage t) = \<lparr> ac_access = Some ''a'', ac_refresh = Some t, ac_refreshing = False \<rparr>"
  by (simp add: load_tokens_def demo_storage_def access_token_key_def refresh_token_key_def)

theorem two_tabs_end_session_witness:
  "\<exists>tok w0 r1 w1 r2 w2 A' B'.
     generate_refresh_token demo_env ref_services 1000 ''t0'' ''f'' demo_candidate demo_world = (Inr tok, w0)
   \<and> refresh demo_env ref_services 5000 ''t1'' (Some tok) w0 = (r1, w1)
   \<and> refresh demo_env ref_services 6000 ''t2'' (Some tok) w1 = (r2, w2)
   \<and> A' = receive_refresh (reply_of r1) (expired_call (new_tab (demo_storage tok) demo_store))
   \<and> B' = receive_refresh (reply_of r2) ((expired_call (new_tab (demo_storage tok) demo_store))\<lparr> tb_storage := tb_storage A' \<rparr>)
   \<and> load_tokens (tb_storage B') = \<lparr> ac_access = None, ac_refresh = None, ac_refreshing = False \<rparr>"
proof -
  let ?tok = "family_token ref_services ''s1'' demo_candidate ''t0'' ''f'' 1000"
  define w0 where "w0 = snd (generate_refresh_token demo_env ref_services 1000 ''t0'' ''f'' demo_candidate demo_world)"
  have g: "generate_refresh_token demo_env ref_services 1000 ''t0'' ''f'' demo_candidate demo_world = (Inr ?tok, w0)"
    by (simp add: w0_def generate_refresh_token_def demo_secrets Let_def)
  have ks: "w_ks (ref_view w0) = [refresh_key ''t0'' \<mapsto> (RStr (RefreshDoc (token_data demo_candidate ''f'' 1000 0)), Some 604801000),
      family_key ''f'' \<mapsto> (RSet {|''t0''|}, Some 604801000)]" unfolding w0_def by (rule demo_issued)
  have live: "\<not> ks_exists 5000 (w_ks (ref_view w0)) (revoked_key ''t0'')"
    "ks_get 5000 (w_ks (ref_view w0)) (refresh_key ''t0'') = Some (RefreshDoc (token_data demo_candidate ''f'' 1000 0))"
    "ks_live 6000 (w_ks (ref_view w0)) (family_key ''f'') = Some (RSet {|''t0''|}, Some 604801000)" "''t0'' \<noteq> ''t1''"
    unfolding ks by (simp_all add: ks_exists_def ks_get_def ks_live_def)
  have "?tok = ref_sign ''s1'' (refresh_claims demo_candidate ''t0'' ''f'') 1000 refresh_expiry" by (simp add: ref_services_def)
  then have "ref_open ?tok \<noteq> None" by (simp add: ref_open_sign)
  moreover have "ref_open [] = None" by code_simp
  ultimately have ne: "?tok \<noteq> []" by metis
  obtain r1 w1 where r1: "refresh demo_env ref_services 5000 ''t1'' (Some ?tok) w0 = (r1, w1)" by force
  obtain r2 w2 where r2: "refresh demo_env ref_services 6000 ''t2'' (Some ?tok) w1 = (r2, w2)" by force
  let ?A = "receive_refresh (reply_of r1) (expired_call (new_tab (demo_storage ?tok) demo_store))"
  let ?B = "receive_refresh (reply_of r2) ((expired_call (new_tab (demo_storage ?tok) demo_store))\<lparr> tb_storage := tb_storage ?A \<rparr>)"
  have f: "(1000::int) \<le> 5000" "(5000::int) \<le> 6000" "6000 div 1000 < 1000 div 1000 + refresh_expiry"
    by (simp_all add: refresh_expiry_def)
  have "load_tokens (tb_storage ?B) = \<lparr> ac_access = None, ac_refresh = None, ac_refreshing = False \<rparr>"
    using two_tabs_end_session[OF ref.services_axioms demo_secrets live refl ne demo_storage_tokens r1 refl subset_refl r2 f refl refl refl refl]
    by blast
  then show ?thesis using g r1 r2 by blast
qed

theorem fetch_terminates_witness:
  "\<exists>st. st = expired_call (new_tab (demo_storage ''t'') demo_store) \<and> (\<forall>i. call_requests i st \<le> 2) \<and> (\<exists>st'. answer_step st st')"
proof -
  let ?st = "expired_call (new_tab (demo_storage ''t'') demo_store)"
  have c: "tb_calls ?st = [(False, Waiting)]" by (rule expired_call_fields[OF demo_storage_tokens]) simp
  have "tab_step (new_tab (demo_storage ''t'') demo_store) (begin_fetch False (new_tab (demo_storage ''t'') demo_store))" by (rule tb_begin)
  moreover have "tab_step (begin_fetch False (new_tab (demo_storage ''t'') demo_store)) ?st"
    unfolding expired_call_def by (intro tb_answer an_call) (simp_all add: begin_fetch_def new_tab_def)
  ultimately have "tab_step\<^sup>*\<^sup>* (new_tab (demo_storage ''t'') demo_store) ?st" by (meson converse_rtranclp_into_rtranclp r_into_rtranclp)
  from fetch_terminates[OF this] show ?thesis by (simp add: c)
qed

theorem refresh_token_sent_once_witness:
  "\<exists>st. refreshes st = [''t''] \<and> distinct (refreshes st) \<and> answered_step\<^sup>*\<^sup>* (new_tab (demo_storage ''t'') demo_store) st"
proof -
  let ?st = "expired_call (new_tab (demo_storage ''t'') demo_store)"
  have c: "refreshes ?st = [''t'']" unfolding refreshes_def by (subst expired_call_fields[OF demo_storage_tokens]) (simp_all add: map_filter_def)
  have "answered_step (new_tab (demo_storage ''t'') demo_store) (begin_fetch False (new_tab (demo_storage ''t'') demo_store))" by (rule ra_begin)
  moreover have "answered_step (begin_fetch False (new_tab (demo_storage ''t'') demo_store)) ?st"
    unfolding expired_call_def by (intro ra_call) (simp_all add: begin_fetch_def new_tab_def)
  ultimately have run: "answered_step\<^sup>*\<^sup>* (new_tab (demo_storage ''t'') demo_store) ?st" by (meson converse_rtranclp_into_rtranclp r_into_rtranclp)
  from refresh_token_sent_once[OF run] c run show ?thesis by blast
qed

end
