(* ===== verification/Exam_Client.thy ===== *)
theory Exam_Client
  imports Api_Client Socket_Facts
begin

text \<open>
  The exam page of the browser: \<^verbatim>\<open>apps/web/src/lib/socket.ts\<close> and
  \<^verbatim>\<open>apps/web/src/hooks/useExamSocket.ts\<close>. First the saves: one timer reference
  serves the debounced save and the reset of the status line. Then the socket: which listeners it has, which
  attempts it joins and when. Timers fire and answers arrive as events, in any order.
\<close>

section \<open>Saving\<close>

datatype save_status = Saved | Saving | SaveError | IdleStatus

datatype page_timer = SaveLater files | ToIdle

text \<open>\<^verbatim>\<open>sp_timer\<close> is the live timer of \<^verbatim>\<open>saveTimeoutRef\<close>; a save in flight
  waits for its acknowledgement or its timeout of ten seconds.\<close>
record save_page =
  sp_timer :: "page_timer option"
  sp_status :: save_status
  sp_lastSaved :: "time option"
  sp_flight :: "files list"
  sp_sent :: "files list"

definition new_save_page :: save_page where
  "new_save_page = \<lparr> sp_timer = None, sp_status = IdleStatus, sp_lastSaved = None, sp_flight = [], sp_sent = [] \<rparr>"

text \<open>\<^verbatim>\<open>saveFiles\<close> of the hook up to the await: the one of \<^verbatim>\<open>socket.ts\<close> sends when the
  socket is connected and answers an error at once when not.\<close>
definition page_save :: "bool \<Rightarrow> files \<Rightarrow> save_page \<Rightarrow> save_page" where
  "page_save online fs st =
    (if \<not> online then st\<lparr> sp_status := SaveError \<rparr>
     else st\<lparr> sp_status := Saving, sp_flight := sp_flight st @ [fs], sp_sent := sp_sent st @ [fs] \<rparr>)"

text \<open>An answer: success with an optional time, or a failure or timeout.\<close>
datatype save_answer = SavedAt "time option" | NotSaved

definition page_answer :: "nat \<Rightarrow> save_answer \<Rightarrow> time \<Rightarrow> save_page \<Rightarrow> save_page" where
  "page_answer i a now st =
    (let st1 = st\<lparr> sp_flight := take i (sp_flight st) @ drop (Suc i) (sp_flight st) \<rparr> in
     case a of
       SavedAt t \<Rightarrow> st1\<lparr> sp_status := Saved, sp_timer := Some ToIdle,
         sp_lastSaved := Some (case t of Some s \<Rightarrow> if s = 0 then now else s | None \<Rightarrow> now) \<rparr>
     | NotSaved \<Rightarrow> st1\<lparr> sp_status := SaveError \<rparr>)"

definition debounced_save :: "files \<Rightarrow> save_page \<Rightarrow> save_page" where
  "debounced_save fs st = st\<lparr> sp_timer := Some (SaveLater fs) \<rparr>"

definition page_timer_fires :: "bool \<Rightarrow> save_page \<Rightarrow> save_page" where
  "page_timer_fires online st = (case sp_timer st of
     None \<Rightarrow> st
   | Some (SaveLater fs) \<Rightarrow> page_save online fs (st\<lparr> sp_timer := None \<rparr>)
   | Some ToIdle \<Rightarrow> st\<lparr> sp_timer := None, sp_status := IdleStatus \<rparr>)"

text \<open>Clean-up of the effect: the timer is cleared.\<close>
definition page_unmount :: "save_page \<Rightarrow> save_page" where
  "page_unmount st = st\<lparr> sp_timer := None \<rparr>"

subsection \<open>What becomes of the last edit\<close>

text \<open>The page beside its saves: its files since the last edit, how many automatic saves had been sent when the save was last put off, whether
  that save was dropped (a
  positive answer came while it waited, its timer fired without a connection, or the page was left), and the files that were sent with explicit requests,
  with their number at the last edit.\<close>
record edit_page =
  ed_files :: "files option"
  ed_before :: nat
  ed_dropped :: bool
  ed_http :: "files list"
  ed_requests :: nat

definition save_waits :: "save_page \<Rightarrow> bool" where
  "save_waits st = (case sp_timer st of Some (SaveLater _) \<Rightarrow> True | _ \<Rightarrow> False)"

text \<open>An edit, or the loading of other files: the state changes and the effect puts the save off. The effect runs again with the same files when the
  attempt is loaded anew or the consent is given.\<close>
definition page_edit :: "files \<Rightarrow> edit_page \<times> save_page \<Rightarrow> edit_page \<times> save_page" where
  "page_edit fs p = (\<lparr> ed_files = Some fs, ed_before = length (sp_sent (snd p)), ed_dropped = False,
       ed_http = ed_http (fst p), ed_requests = length (ed_http (fst p)) \<rparr>, debounced_save fs (snd p))"

definition page_effect :: "edit_page \<times> save_page \<Rightarrow> edit_page \<times> save_page" where
  "page_effect p = (case ed_files (fst p) of None \<Rightarrow> p
     | Some fs \<Rightarrow> ((fst p)\<lparr> ed_before := length (sp_sent (snd p)), ed_dropped := False \<rparr>, debounced_save fs (snd p)))"

text \<open>A test run, the run of a query and the submission send the files of the page.\<close>
definition page_request :: "edit_page \<Rightarrow> edit_page" where
  "page_request g = (case ed_files g of None \<Rightarrow> g | Some fs \<Rightarrow> g\<lparr> ed_http := ed_http g @ [fs] \<rparr>)"

inductive page_step :: "edit_page \<times> save_page \<Rightarrow> edit_page \<times> save_page \<Rightarrow> bool" where
  ps_edit: "page_step p (page_edit fs p)"
| ps_effect: "page_step p (page_effect p)"
| ps_request: "page_step (g, st) (page_request g, st)"
| ps_fire: "page_step (g, st) (g\<lparr> ed_dropped := (ed_dropped g \<or> save_waits st \<and> \<not> online) \<rparr>, page_timer_fires online st)"
| ps_saved: "i < length (sp_flight st) \<Longrightarrow>
    page_step (g, st) (g\<lparr> ed_dropped := (ed_dropped g \<or> save_waits st) \<rparr>, page_answer i (SavedAt t) now st)"
| ps_not_saved: "i < length (sp_flight st) \<Longrightarrow> page_step (g, st) (g, page_answer i NotSaved now st)"
| ps_unmount: "page_step (g, st) (g\<lparr> ed_dropped := (ed_dropped g \<or> save_waits st) \<rparr>, page_unmount st)"

definition edit_ok :: "edit_page \<Rightarrow> save_page \<Rightarrow> bool" where
  "edit_ok g st = (case ed_files g of
      None \<Rightarrow> sp_sent st = [] \<and> \<not> save_waits st
    | Some fs \<Rightarrow>
       set (drop (ed_requests g) (ed_http g)) \<subseteq> {fs} \<and> ed_requests g \<le> length (ed_http g) \<and>
       (if save_waits st then sp_timer st = Some (SaveLater fs) \<and> \<not> ed_dropped g \<and> length (sp_sent st) = ed_before g
        else if ed_dropped g then length (sp_sent st) = ed_before g
        else length (sp_sent st) = Suc (ed_before g) \<and> last (sp_sent st) = fs))"

lemma page_step_ok: "page_step x y \<Longrightarrow> edit_ok (fst x) (snd x) \<Longrightarrow> edit_ok (fst y) (snd y)"
proof (induction rule: page_step.induct)
  case (ps_edit p fs)
  show ?case by (simp add: edit_ok_def page_edit_def debounced_save_def save_waits_def)
next
  case (ps_effect p)
  then show ?case by (cases "ed_files (fst p)") (simp_all add: edit_ok_def page_effect_def debounced_save_def save_waits_def)
next
  case (ps_request g st)
  then show ?case by (cases "ed_files g") (auto simp: edit_ok_def page_request_def split: if_splits)
next
  case (ps_fire g st online)
  then show ?case
    by (cases "sp_timer st"; cases "the (sp_timer st)"; cases "ed_files g")
      (auto simp: edit_ok_def page_timer_fires_def page_save_def save_waits_def split: if_splits)
next
  case (ps_saved i st g t now)
  then show ?case
    by (cases "save_waits st"; cases "ed_files g") (auto simp: edit_ok_def page_answer_def save_waits_def Let_def)
next
  case (ps_not_saved i st g now)
  have "save_waits (page_answer i NotSaved now st) = save_waits st" "sp_timer (page_answer i NotSaved now st) = sp_timer st"
    "sp_sent (page_answer i NotSaved now st) = sp_sent st"
    by (simp_all add: page_answer_def save_waits_def Let_def)
  then show ?case using ps_not_saved by (cases "ed_files g") (simp_all add: edit_ok_def)
next
  case (ps_unmount g st)
  then show ?case
    by (cases "save_waits st"; cases "ed_files g") (auto simp: edit_ok_def page_unmount_def save_waits_def)
qed

definition no_edit :: edit_page where
  "no_edit = \<lparr> ed_files = None, ed_before = 0, ed_dropped = False, ed_http = [], ed_requests = 0 \<rparr>"



section \<open>The socket\<close>

text \<open>What a listener does; those that only write to the console are left out. \<^verbatim>\<open>JoinOnce\<close>
  and \<^verbatim>\<open>FailOnce\<close> are \<^verbatim>\<open>handleConnect\<close> and \<^verbatim>\<open>handleError\<close>.\<close>
datatype listener = RejoinActive | PageHandler id | JoinOnce id | FailOnce id

record io_socket =
  io_token :: "string option"
  io_connected :: bool
  io_listeners :: "(string \<times> listener) list"
  io_emitted :: "(string \<times> id) list"

text \<open>The variables of the module, and the attempts whose timeout of fifteen seconds runs.\<close>
record socket_module =
  sm_socket :: "io_socket option"
  sm_subscribed :: bool
  sm_active :: "id list"
  sm_attached :: bool
  sm_timeouts :: "id list"

definition new_module :: socket_module where
  "new_module = \<lparr> sm_socket = None, sm_subscribed = False, sm_active = [], sm_attached = False, sm_timeouts = [] \<rparr>"

definition with_socket :: "(io_socket \<Rightarrow> io_socket) \<Rightarrow> socket_module \<Rightarrow> socket_module" where
  "with_socket f st = st\<lparr> sm_socket := map_option f (sm_socket st) \<rparr>"

definition io_emit :: "string \<Rightarrow> id \<Rightarrow> io_socket \<Rightarrow> io_socket" where
  "io_emit ev aid s = s\<lparr> io_emitted := io_emitted s @ [(ev, aid)] \<rparr>"

definition io_add :: "string \<Rightarrow> listener \<Rightarrow> io_socket \<Rightarrow> io_socket" where
  "io_add ev l s = s\<lparr> io_listeners := io_listeners s @ [(ev, l)] \<rparr>"

definition io_remove :: "string \<Rightarrow> listener \<Rightarrow> io_socket \<Rightarrow> io_socket" where
  "io_remove ev l s = s\<lparr> io_listeners := remove1 (ev, l) (io_listeners s) \<rparr>"

text \<open>\<^verbatim>\<open>off\<close> with an event only removes every listener of the event.\<close>
definition io_off :: "string \<Rightarrow> io_socket \<Rightarrow> io_socket" where
  "io_off ev s = s\<lparr> io_listeners := filter (\<lambda>x. fst x \<noteq> ev) (io_listeners s) \<rparr>"

definition get_socket :: "string option \<Rightarrow> socket_module \<Rightarrow> socket_module" where
  "get_socket token st = (case sm_socket st of
     Some s \<Rightarrow> if io_token s = token then st
       else st\<lparr> sm_socket := Some (s\<lparr> io_token := token, io_connected := (io_connected s \<and> str_opt token \<noteq> None) \<rparr>) \<rparr>
   | None \<Rightarrow>
      (let s = \<lparr> io_token = token, io_connected = False, io_listeners = [], io_emitted = [] \<rparr>
       in st\<lparr> sm_socket := Some (if sm_attached st then s
              else io_add ''reconnect'' RejoinActive (io_add ''connect'' RejoinActive s)),
            sm_subscribed := True, sm_attached := True \<rparr>))"

definition rejoin_active_attempts :: "string option \<Rightarrow> socket_module \<Rightarrow> socket_module" where
  "rejoin_active_attempts token st = (case sm_socket st of
     None \<Rightarrow> st
   | Some s \<Rightarrow> if \<not> io_connected s \<or> str_opt token = None then st
       else with_socket (fold (io_emit ''attempt:join'') (sm_active st)) st)"

definition handle_connect :: "id \<Rightarrow> socket_module \<Rightarrow> socket_module" where
  "handle_connect aid st = with_socket (\<lambda>s. io_emit ''attempt:join'' aid (io_remove ''connect_error'' (FailOnce aid) s))
     (st\<lparr> sm_timeouts := remove1 aid (sm_timeouts st) \<rparr>)"

definition give_up :: "id \<Rightarrow> socket_module \<Rightarrow> socket_module" where
  "give_up aid st = with_socket (\<lambda>s. io_remove ''connect_error'' (FailOnce aid) (io_remove ''connect'' (JoinOnce aid) s))
     (st\<lparr> sm_timeouts := remove1 aid (sm_timeouts st), sm_active := removeAll aid (sm_active st) \<rparr>)"

text \<open>The answer to the join of \<^verbatim>\<open>connectToExam\<close> and to one of a rejoin.\<close>
definition join_answer :: "id \<Rightarrow> bool \<Rightarrow> socket_module \<Rightarrow> socket_module" where
  "join_answer aid success st = st\<lparr> sm_active := (if success then (if aid \<in> set (sm_active st) then sm_active st else sm_active st @ [aid])
     else removeAll aid (sm_active st)) \<rparr>"

definition rejoin_answer :: "id \<Rightarrow> bool \<Rightarrow> socket_module \<Rightarrow> socket_module" where
  "rejoin_answer aid success st = (if success then st else st\<lparr> sm_active := removeAll aid (sm_active st) \<rparr>)"

definition connect_to_exam :: "string option \<Rightarrow> id \<Rightarrow> socket_module \<Rightarrow> socket_module" where
  "connect_to_exam token aid st =
    (let st1 = get_socket token st; st2 = st1\<lparr> sm_timeouts := sm_timeouts st1 @ [aid] \<rparr>
     in if (case sm_socket st2 of Some s \<Rightarrow> io_connected s | None \<Rightarrow> False) then handle_connect aid st2
        else with_socket (\<lambda>s. io_add ''connect_error'' (FailOnce aid) (io_add ''connect'' (JoinOnce aid) s)) st2)"

definition leave_exam :: "id \<Rightarrow> socket_module \<Rightarrow> socket_module" where
  "leave_exam aid st = (with_socket (io_emit ''attempt:leave'' aid) st)\<lparr> sm_active := removeAll aid (sm_active st) \<rparr>"

definition disconnect_socket :: "socket_module \<Rightarrow> socket_module" where
  "disconnect_socket st = st\<lparr> sm_socket := None, sm_attached := (sm_attached st \<and> sm_socket st = None),
     sm_subscribed := False, sm_active := [] \<rparr>"

text \<open>The subscription to the tokens of the API client; a reconnection it starts succeeds or fails later.\<close>
definition token_changed :: "string option \<Rightarrow> socket_module \<Rightarrow> socket_module" where
  "token_changed token st = (if sm_subscribed st
     then with_socket (\<lambda>s. s\<lparr> io_token := token, io_connected := (io_connected s \<and> str_opt token \<noteq> None) \<rparr>) st else st)"

subsection \<open>Events of the connection\<close>

definition run_listener :: "string option \<Rightarrow> listener \<Rightarrow> socket_module \<Rightarrow> socket_module" where
  "run_listener token l st = (case l of
     RejoinActive \<Rightarrow> rejoin_active_attempts token st
   | PageHandler _ \<Rightarrow> st
   | JoinOnce aid \<Rightarrow> handle_connect aid (with_socket (io_remove ''connect'' (JoinOnce aid)) st)
   | FailOnce aid \<Rightarrow> give_up aid st)"

definition listeners_of :: "string \<Rightarrow> socket_module \<Rightarrow> listener list" where
  "listeners_of ev st = (case sm_socket st of None \<Rightarrow> [] | Some s \<Rightarrow> map snd (filter (\<lambda>x. fst x = ev) (io_listeners s)))"

definition fire_connect :: "string option \<Rightarrow> socket_module \<Rightarrow> socket_module" where
  "fire_connect token st = fold (run_listener token) (listeners_of ''connect'' st) (with_socket (io_connected_update (\<lambda>_. True)) st)"

definition fire_connect_error :: "string option \<Rightarrow> socket_module \<Rightarrow> socket_module" where
  "fire_connect_error token st = fold (run_listener token) (listeners_of ''connect_error'' st) st"

definition connection_lost :: "socket_module \<Rightarrow> socket_module" where
  "connection_lost st = with_socket (io_connected_update (\<lambda>_. False)) st"

subsection \<open>The effect of the hook\<close>

definition page_events :: "string list" where
  "page_events = [''connect'', ''disconnect'', ''timer:tick'', ''timer:expired'', ''grading:complete'', ''proctor:warning'']"

definition page_mount :: "string option \<Rightarrow> id \<Rightarrow> socket_module \<Rightarrow> socket_module" where
  "page_mount token aid st = connect_to_exam token aid
     (with_socket (fold (\<lambda>ev. io_add ev (PageHandler aid)) page_events) (get_socket token st))"

definition page_leave :: "id \<Rightarrow> socket_module \<Rightarrow> socket_module" where
  "page_leave aid st = with_socket (fold io_off page_events) (leave_exam aid st)"

definition page_reconnect :: "string option \<Rightarrow> id \<Rightarrow> socket_module \<Rightarrow> socket_module" where
  "page_reconnect token aid st = connect_to_exam token aid (disconnect_socket st)"

text \<open>Everything that happens to the module between the clean-ups of pages.\<close>
inductive browse_step :: "socket_module \<Rightarrow> socket_module \<Rightarrow> bool" where
  bs_mount: "browse_step st (page_mount token aid st)"
| bs_connect: "browse_step st (fire_connect token st)"
| bs_error: "browse_step st (fire_connect_error token st)"
| bs_lost: "browse_step st (connection_lost st)"
| bs_timeout: "aid \<in> set (sm_timeouts st) \<Longrightarrow> browse_step st (give_up aid st)"
| bs_answer: "browse_step st (join_answer aid success st)"
| bs_rejoined: "browse_step st (rejoin_answer aid success st)"
| bs_token: "browse_step st (token_changed token st)"

inductive visit_step :: "socket_module \<Rightarrow> socket_module \<Rightarrow> bool" where
  vs_browse: "browse_step st st' \<Longrightarrow> visit_step st st'"
| vs_leave: "visit_step st (page_leave aid st)"

subsection \<open>The listener that rejoins\<close>

definition rejoins :: "io_socket \<Rightarrow> bool" where
  "rejoins s = ((''connect'', RejoinActive) \<in> set (io_listeners s))"

text \<open>Whether there is a socket, whether its listeners count as attached, whether the one that rejoins is there.\<close>
definition core :: "socket_module \<Rightarrow> bool \<times> bool \<times> bool" where
  "core st = (sm_socket st \<noteq> None, sm_attached st, case sm_socket st of Some s \<Rightarrow> rejoins s | None \<Rightarrow> False)"

lemma rejoins_simps [simp]: "rejoins (io_emit ev aid s) = rejoins s" "l \<noteq> RejoinActive \<Longrightarrow> rejoins (io_add ev l s) = rejoins s"
  "l \<noteq> RejoinActive \<Longrightarrow> rejoins (io_remove ev l s) = rejoins s" "rejoins (s\<lparr> io_connected := b \<rparr>) = rejoins s"
  "rejoins (s\<lparr> io_token := tk \<rparr>) = rejoins s" "rejoins (io_connected_update g s) = rejoins s"
  by (simp_all add: rejoins_def io_emit_def io_add_def io_remove_def)

lemma rejoins_fold: "(\<And>x s. rejoins (f x s) = rejoins s) \<Longrightarrow> rejoins (fold f xs s) = rejoins s"
  by (induction xs arbitrary: s) simp_all

lemma core_with_socket [simp]: "(\<And>s. rejoins (f s) = rejoins s) \<Longrightarrow> core (with_socket f st) = core st"
  by (simp add: core_def with_socket_def split: option.split)

lemma core_fields [simp]: "core (st\<lparr> sm_active := a \<rparr>) = core st" "core (st\<lparr> sm_timeouts := ts \<rparr>) = core st"
  by (simp_all add: core_def)

lemma core_ops [simp]: "core (handle_connect aid st) = core st" "core (give_up aid st) = core st"
  "core (join_answer aid ok st) = core st" "core (rejoin_answer aid ok st) = core st" "core (connection_lost st) = core st"
  "core (token_changed token st) = core st" "core (rejoin_active_attempts token st) = core st"
  by (simp_all add: handle_connect_def give_up_def join_answer_def rejoin_answer_def connection_lost_def token_changed_def
    rejoin_active_attempts_def rejoins_fold split: option.split)

lemma core_listener [simp]: "core (run_listener token l st) = core st"
  by (simp add: run_listener_def split: listener.split)

lemma core_listeners [simp]: "core (fold (run_listener token) ls st) = core st"
  by (induction ls arbitrary: st) simp_all

lemma core_fires [simp]: "core (fire_connect token st) = core st" "core (fire_connect_error token st) = core st"
  by (simp_all add: fire_connect_def fire_connect_error_def)

lemma core_get_socket: "core (get_socket token st) = (if sm_socket st = None then (True, True, \<not> sm_attached st) else core st)"
  by (simp add: core_def get_socket_def Let_def split: option.split) (simp add: rejoins_def io_add_def)

lemma core_mount: "core (page_mount token aid st) = core (get_socket token st)"
proof -
  have "core (connect_to_exam token aid st') = core st'" if "sm_socket st' \<noteq> None" for st'
    using that by (auto simp: connect_to_exam_def Let_def core_get_socket)
  moreover have "sm_socket (with_socket f (get_socket token st)) \<noteq> None" for f
    by (simp add: with_socket_def get_socket_def Let_def split: option.split)
  ultimately show ?thesis by (simp add: page_mount_def rejoins_fold)
qed

definition core_ok :: "bool \<times> bool \<times> bool \<Rightarrow> bool" where
  "core_ok c = (case c of (present, attached, rejoin) \<Rightarrow> present = attached)"

lemma core_socket: "fst (core st) \<longleftrightarrow> sm_socket st \<noteq> None" "fst (snd (core st)) = sm_attached st"
  by (simp_all add: core_def)

lemma browse_core: "browse_step st st' \<Longrightarrow> core_ok (core st) \<Longrightarrow> core_ok (core st')
    \<and> (if fst (core st) then core st' = core st else core st' \<in> {core st, (True, True, True)})"
proof (induction rule: browse_step.induct)
  case (bs_mount st token aid)
  have c: "core (page_mount token aid st) = (if sm_socket st = None then (True, True, \<not> sm_attached st) else core st)"
    by (simp only: core_mount core_get_socket)
  show ?case
  proof (cases "sm_socket st = None")
    case True
    then have "core st = (False, sm_attached st, False)" by (simp add: core_def)
    then show ?thesis using bs_mount True c by (simp add: core_ok_def)
  next
    case False
    then have "core (page_mount token aid st) = core st" unfolding c by (rule if_not_P)
    then show ?thesis using bs_mount False by (simp add: core_socket)
  qed
qed simp_all

lemma core_leave: "core (page_leave aid st) = (sm_socket st \<noteq> None, sm_attached st, False)"
proof -
  have "\<not> rejoins (fold io_off page_events s)" for s by (simp add: page_events_def rejoins_def io_off_def)
  then show ?thesis by (simp add: core_def page_leave_def leave_exam_def with_socket_def split: option.split)
qed

lemma visits_core: "visit_step\<^sup>*\<^sup>* st st' \<Longrightarrow> core_ok (core st) \<Longrightarrow> core_ok (core st')"
proof (induction rule: rtranclp_induct)
  case (step y z)
  then have ok: "core_ok (core y)" by simp
  show ?case using step(2)
  proof cases
    case vs_browse
    then show ?thesis using browse_core ok by blast
  next
    case (vs_leave aid)
    have "core z = (sm_socket y \<noteq> None, sm_attached y, False)" unfolding vs_leave by (rule core_leave)
    moreover have "(sm_socket y \<noteq> None) = sm_attached y" using ok by (simp add: core_ok_def core_def)
    ultimately show ?thesis by (simp add: core_ok_def)
  qed
qed

lemma new_module_core: "core new_module = (False, False, False)"
  by (simp add: core_def new_module_def)

lemma browsing_core: "browse_step\<^sup>*\<^sup>* new_module st \<Longrightarrow> core st \<in> {(False, False, False), (True, True, True)}"
proof (induction rule: rtranclp_induct)
  case (step y z)
  then have "core_ok (core y)" by (auto simp: core_ok_def)
  with browse_core[OF step(2)] step(3) show ?case by (auto split: if_splits)
qed (simp add: new_module_core)

text \<open>\<^verbatim>\<open>reconnect\<close> of the hook starts over with a new socket, which has none of the page's handlers.\<close>
lemma reconnect_drops_handlers: "PageHandler a \<notin> set (listeners_of ev (page_reconnect token aid st))"
  by (auto simp: page_reconnect_def connect_to_exam_def get_socket_def disconnect_socket_def listeners_of_def with_socket_def
    handle_connect_def io_add_def io_emit_def io_remove_def Let_def)

subsection \<open>Only joins on a connection\<close>

text \<open>A failure handler is never a listener of a successful connection.\<close>
definition plain_listeners :: "io_socket \<Rightarrow> bool" where
  "plain_listeners s = (\<forall>a. (''connect'', FailOnce a) \<notin> set (io_listeners s))"

definition plain :: "socket_module \<Rightarrow> bool" where
  "plain st = (case sm_socket st of None \<Rightarrow> True | Some s \<Rightarrow> plain_listeners s)"

lemma plain_simps [simp]: "plain_listeners (io_emit ev aid s) = plain_listeners s"
  "ev \<noteq> ''connect'' \<or> (\<forall>a. l \<noteq> FailOnce a) \<Longrightarrow> plain_listeners s \<Longrightarrow> plain_listeners (io_add ev l s)"
  "plain_listeners s \<Longrightarrow> plain_listeners (io_remove ev l s)" "plain_listeners s \<Longrightarrow> plain_listeners (io_off ev s)"
  "plain_listeners (s\<lparr> io_connected := b \<rparr>) = plain_listeners s" "plain_listeners (s\<lparr> io_token := tk \<rparr>) = plain_listeners s"
  "plain_listeners (io_connected_update g s) = plain_listeners s"
  by (auto simp: plain_listeners_def io_emit_def io_add_def io_remove_def io_off_def dest: set_remove1_subset[THEN subsetD])

lemma plain_fold: "(\<And>x s. plain_listeners s \<Longrightarrow> plain_listeners (f x s)) \<Longrightarrow> plain_listeners s \<Longrightarrow> plain_listeners (fold f xs s)"
  by (induction xs arbitrary: s) simp_all

lemma plain_with_socket [simp]: "(\<And>s. plain_listeners s \<Longrightarrow> plain_listeners (f s)) \<Longrightarrow> plain st \<Longrightarrow> plain (with_socket f st)"
  by (simp add: plain_def with_socket_def split: option.splits)

lemma plain_fields [simp]: "plain (st\<lparr> sm_active := a \<rparr>) = plain st" "plain (st\<lparr> sm_timeouts := ts \<rparr>) = plain st"
  by (simp_all add: plain_def)

lemma plain_ops [simp]:
  assumes "plain st"
  shows "plain (handle_connect aid st)" "plain (give_up aid st)" "plain (join_answer aid ok st)" "plain (rejoin_answer aid ok st)"
    "plain (connection_lost st)" "plain (token_changed token st)" "plain (rejoin_active_attempts token st)" "plain (leave_exam aid st)"
    "plain (get_socket token st)"
  using assms by (simp_all add: handle_connect_def give_up_def join_answer_def rejoin_answer_def connection_lost_def token_changed_def
    rejoin_active_attempts_def leave_exam_def plain_fold split: option.split)
    (simp add: get_socket_def plain_def Let_def split: option.splits; simp add: plain_listeners_def io_add_def)

lemma plain_listener: "plain st \<Longrightarrow> plain (run_listener token l st)"
  by (simp add: run_listener_def split: listener.split)

lemma plain_run: "plain st \<Longrightarrow> plain (fold (run_listener token) ls st)"
  by (induction ls arbitrary: st) (simp_all add: plain_listener)

lemma plain_browse: "browse_step st st' \<Longrightarrow> plain st \<Longrightarrow> plain st'"
  by (induction rule: browse_step.induct)
    (simp_all add: fire_connect_def fire_connect_error_def plain_run page_mount_def connect_to_exam_def plain_fold Let_def)

lemma plain_browsing: "browse_step\<^sup>*\<^sup>* new_module st \<Longrightarrow> plain st"
proof (induction rule: rtranclp_induct)
  case (step y z)
  then show ?case by (rule_tac plain_browse)
qed (simp add: plain_def new_module_def)

subsection \<open>What a connection emits\<close>

definition emitted :: "socket_module \<Rightarrow> (string \<times> id) list" where
  "emitted st = (case sm_socket st of None \<Rightarrow> [] | Some s \<Rightarrow> io_emitted s)"

definition is_up :: "socket_module \<Rightarrow> bool" where
  "is_up st = (case sm_socket st of None \<Rightarrow> False | Some s \<Rightarrow> io_connected s)"

definition joins_of :: "string option \<Rightarrow> id list \<Rightarrow> listener \<Rightarrow> (string \<times> id) list" where
  "joins_of token active l = (case l of
       RejoinActive \<Rightarrow> if str_opt token = None then [] else map (Pair ''attempt:join'') active
     | JoinOnce a \<Rightarrow> [(''attempt:join'', a)]
     | _ \<Rightarrow> [])"

lemma joins_of_none: "l \<noteq> RejoinActive \<Longrightarrow> \<forall>a. l \<noteq> JoinOnce a \<Longrightarrow> joins_of token active l = []"
  by (cases l) (simp_all add: joins_of_def)

lemma no_joins: "RejoinActive \<notin> set ls \<Longrightarrow> \<forall>a. JoinOnce a \<notin> set ls \<Longrightarrow> concat (map (joins_of token as) ls) = []"
proof (induction ls)
  case (Cons l ls)
  then have "joins_of token as l = []" by (intro joins_of_none) auto
  then show ?case using Cons by simp
qed simp

lemma fold_emit: "io_emitted (fold (io_emit ev) xs s) = io_emitted s @ map (Pair ev) xs" "io_connected (fold (io_emit ev) xs s) = io_connected s"
  by (induction xs arbitrary: s) (simp_all add: io_emit_def)

lemma listener_effect:
  assumes "is_up st" "\<And>a. l \<noteq> FailOnce a"
  shows "is_up (run_listener token l st)" "sm_active (run_listener token l st) = sm_active st"
    "emitted (run_listener token l st) = emitted st @ joins_of token (sm_active st) l"
  using assms
  by (cases l; auto simp: run_listener_def rejoin_active_attempts_def handle_connect_def with_socket_def emitted_def is_up_def
    fold_emit io_emit_def io_remove_def joins_of_def split: option.splits)+

lemma listeners_effect:
  assumes "is_up st" "\<And>a. FailOnce a \<notin> set ls"
  shows "is_up (fold (run_listener token) ls st) \<and> emitted (fold (run_listener token) ls st) = emitted st @ concat (map (joins_of token (sm_active st)) ls)"
  using assms
proof (induction ls arbitrary: st)
  case (Cons l ls)
  have l: "l \<noteq> FailOnce a" for a using Cons.prems(2)[of a] by auto
  note e = listener_effect[OF Cons.prems(1) l, of token]
  show ?case using Cons.IH[OF e(1)] Cons.prems(2) e by simp
qed simp

lemma connect_emits:
  assumes "plain st" "sm_socket st = Some s"
  shows "is_up (fire_connect token st)" "emitted (fire_connect token st) = io_emitted s @ concat (map (joins_of token (sm_active st)) (listeners_of ''connect'' st))"
proof -
  let ?st = "with_socket (io_connected_update (\<lambda>_. True)) st"
  have up: "is_up ?st" "emitted ?st = io_emitted s" "sm_active ?st = sm_active st"
    using assms(2) by (simp_all add: is_up_def emitted_def with_socket_def)
  have "FailOnce a \<notin> set (listeners_of ''connect'' st)" for a
    using assms by (auto simp: listeners_of_def plain_def plain_listeners_def)
  note e = listeners_effect[OF up(1) this, of token]
  show "is_up (fire_connect token st)" using e by (simp add: fire_connect_def)
  show "emitted (fire_connect token st) = io_emitted s @ concat (map (joins_of token (sm_active st)) (listeners_of ''connect'' st))"
    using e up by (simp add: fire_connect_def)
qed

subsection \<open>Rejoining after a lost connection\<close>

lemma lost_fields: "sm_socket st = Some s \<Longrightarrow> sm_socket (connection_lost st) = Some (s\<lparr> io_connected := False \<rparr>)"
  "sm_active (connection_lost st) = sm_active st" "plain st \<Longrightarrow> plain (connection_lost st)"
  "listeners_of ev (connection_lost st) = listeners_of ev st"
  by (simp_all add: connection_lost_def) (simp_all add: with_socket_def listeners_of_def split: option.split)

text \<open>C32: A lost connection is made good: however pages were opened, answers, failures, timeouts and token changes came in,
  as long as no page was left, when the connection comes back and there is an access token, the socket asks to join
  every attempt that is active, after whatever it had sent before.\<close>
theorem reconnection_rejoins:
  assumes "browse_step\<^sup>*\<^sup>* new_module st" "sm_socket st = Some s" "aid \<in> set (sm_active st)" "str_opt token \<noteq> None"
  shows "\<exists>es. emitted (fire_connect token (connection_lost st)) = io_emitted s @ es \<and> (''attempt:join'', aid) \<in> set es"
proof -
  have "core st = (True, True, True)" using browsing_core[OF assms(1)] assms(2) by (auto simp: core_def)
  then have "RejoinActive \<in> set (listeners_of ''connect'' st)" using assms(2) by (force simp: core_def rejoins_def listeners_of_def)
  moreover note e = connect_emits(2)[OF lost_fields(3)[OF plain_browsing[OF assms(1)]] lost_fields(1)[OF assms(2)], of token]
  ultimately show ?thesis using assms(3,4) by (force simp: e lost_fields joins_of_def)
qed

lemma gone_for_good:
  assumes "visit_step\<^sup>*\<^sup>* st st'" "core st = (True, True, False)" shows "core st' = (True, True, False)"
  using assms
proof (induction rule: rtranclp_induct)
  case (step y z)
  then have y: "core y = (True, True, False)" by simp
  show ?case using step(2)
  proof cases
    case vs_browse
    then show ?thesis using browse_core y by (auto simp: core_ok_def)
  next
    case (vs_leave aid)
    then show ?thesis using y by (simp add: core_leave) (simp add: core_def)
  qed
qed

lemma plain_visits: "visit_step\<^sup>*\<^sup>* st st' \<Longrightarrow> plain st \<Longrightarrow> plain st'"
proof (induction rule: rtranclp_induct)
  case (step y z)
  from step(2) show ?case
  proof cases
    case vs_browse
    then show ?thesis using plain_browse step by blast
  next
    case (vs_leave aid)
    then show ?thesis using step by (simp add: page_leave_def plain_fold)
  qed
qed

text \<open>Leaving an exam page breaks this for every later page: the clean-up removes all listeners of the connection, the
  one that rejoins among them, and the module takes the socket's listeners for attached. Whatever happens afterwards,
  pages opened and left, as long as the socket lives, a lost connection that comes back while no page waits for its
  first one asks to join nothing, and the server refuses every save on the new connection.\<close>
theorem left_page_never_rejoins:
  assumes "visit_step\<^sup>*\<^sup>* new_module st" "sm_socket st \<noteq> None" "visit_step\<^sup>*\<^sup>* (page_leave aid st) st'"
    "sm_socket st' = Some s" "\<forall>a. JoinOnce a \<notin> set (listeners_of ''connect'' st')"
    "Socket_Server.connect S secret now sid tok srv = (Inr (), srv')" "ss_sockets srv' sid = Some k"
  shows "emitted (fire_connect token (connection_lost st')) = io_emitted s
    \<and> code_save S T t sid k b fs w = (Refused ''Cannot save to this attempt'', w)"
proof -
  have ok: "core_ok (core st)" using visits_core[OF assms(1)] by (simp add: new_module_core core_ok_def)
  then have "sm_attached st" using assms(2) by (simp add: core_def core_ok_def)
  then have "core (page_leave aid st) = (True, True, False)" using assms(2) by (simp add: core_leave)
  then have "core st' = (True, True, False)" by (rule gone_for_good[OF assms(3)])
  then have no: "RejoinActive \<notin> set (listeners_of ''connect'' st')"
    using assms(4) by (auto simp: core_def rejoins_def listeners_of_def)
  have pl: "plain new_module" by (simp add: plain_def new_module_def)
  have "plain st'" by (rule plain_visits[OF rtranclp_trans[OF rtranclp.rtrancl_into_rtrancl[OF assms(1) vs_leave] assms(3)] pl])
  then have pl': "plain (connection_lost st')" by (rule lost_fields)
  have "emitted (fire_connect token (connection_lost st')) = io_emitted s"
    unfolding connect_emits(2)[OF pl' lost_fields(1)[OF assms(4)]] lost_fields(4) no_joins[OF no assms(5)] by simp
  moreover have "so_attempt k = None"
    using assms(6,7) by (auto simp: Socket_Server.connect_def split: sum.splits)
  ultimately show ?thesis by (simp add: code_save_def)
qed

subsection \<open>Witnesses\<close>

definition joined_page :: socket_module where
  "joined_page = join_answer ''a1'' True (fire_connect (Some ''t'') (page_mount (Some ''t'') ''a1'' new_module))"

lemma joined_page_run: "browse_step\<^sup>*\<^sup>* new_module joined_page"
proof -
  let ?a = "page_mount (Some ''t'') ''a1'' new_module"
  have "browse_step\<^sup>*\<^sup>* new_module ?a" by (rule r_into_rtranclp) (rule bs_mount)
  moreover have "browse_step ?a (fire_connect (Some ''t'') ?a)" by (rule bs_connect)
  moreover have "browse_step (fire_connect (Some ''t'') ?a) joined_page" unfolding joined_page_def by (rule bs_answer)
  ultimately show ?thesis by (meson rtranclp.rtrancl_into_rtrancl)
qed

lemma joined_page_socket: "sm_socket joined_page \<noteq> None" "sm_active joined_page = [''a1'']"
  by code_simp+

theorem reconnection_rejoins_witness:
  "\<exists>s es. sm_socket joined_page = Some s
     \<and> emitted (fire_connect (Some ''t'') (connection_lost joined_page)) = io_emitted s @ es \<and> (''attempt:join'', ''a1'') \<in> set es"
proof -
  obtain s where s: "sm_socket joined_page = Some s" using joined_page_socket(1) by blast
  show ?thesis using reconnection_rejoins[OF joined_page_run s, of "''a1''" "Some ''t''"] s by (simp add: joined_page_socket)
qed

theorem left_page_never_rejoins_witness:
  "\<exists>srv' k s. Socket_Server.connect ref_services ''s1'' 1000 ''k1'' (Some (demo_token 1000)) empty_server = (Inr (), srv')
     \<and> ss_sockets srv' ''k1'' = Some k \<and> sm_socket (page_leave ''a1'' joined_page) = Some s
     \<and> emitted (fire_connect (Some ''t'') (connection_lost (page_leave ''a1'' joined_page))) = io_emitted s
     \<and> code_save ref_services 600 6000 ''k1'' k ''a1'' [] demo_world = (Refused ''Cannot save to this attempt'', demo_world)"
proof -
  obtain r srv' where c: "Socket_Server.connect ref_services ''s1'' 1000 ''k1'' (Some (demo_token 1000)) empty_server = (r, srv')" by force
  obtain k where k: "ss_sockets srv' ''k1'' = Some k" using one_socket_at c by (simp add: one_socket_def)
  have r: "r = Inr ()" using c k by (auto simp: Socket_Server.connect_def empty_server_def split: sum.splits)
  obtain s where s: "sm_socket (page_leave ''a1'' joined_page) = Some s"
    using joined_page_socket(1) by (auto simp: page_leave_def leave_exam_def with_socket_def)
  have run: "visit_step\<^sup>*\<^sup>* new_module joined_page"
    using joined_page_run by (rule rtranclp_mono[THEN predicate2D, rotated]) (auto intro: vs_browse)
  have none: "listeners_of ''connect'' (page_leave ''a1'' joined_page) = []" by code_simp
  show ?thesis
    using left_page_never_rejoins[OF run joined_page_socket(1) rtranclp.rtrancl_refl s _ c[unfolded r] k, where token = "Some ''t''" and T = 600 and t = 6000 and b = "''a1''" and fs = "[]" and w = demo_world]
      c k r s by (simp add: none)
qed

end
