(* ===== verification/Exam_Capture.thy ===== *)
theory Exam_Capture
  imports Keystrokes Reports
begin

text \<open>
  What the exam page records of the candidate: the queue of screenshots of
  \<^verbatim>\<open>apps/web/src/lib/proctorCapture.ts\<close> and the buffer of key presses of
  \<^verbatim>\<open>apps/web/src/hooks/useKeystrokeTracker.ts\<close>. The drawing of a frame and its upload are
  one step of unknown length and outcome; times are those of \<^verbatim>\<open>Date.now\<close>.
\<close>

section \<open>The queue of screenshots\<close>

record capture_options =
  co_attemptId :: id
  co_eventType :: string
  co_sequence :: "nat option"

definition min_capture_interval :: int where "min_capture_interval = 1000"
definition max_queue_size :: nat where "max_queue_size = 10"

text \<open>Where \<^verbatim>\<open>processQueue\<close> is: not running, before the end of its pause, or in a capture.\<close>
datatype queue_phase = NotProcessing | Pausing time | Capturing capture_options

record capture_queue =
  cq_queue :: "capture_options list"
  cq_phase :: queue_phase
  cq_last :: time
  cq_started :: "(capture_options \<times> time) list"

definition new_queue :: capture_queue where
  "new_queue = \<lparr> cq_queue = [], cq_phase = NotProcessing, cq_last = 0, cq_started = [] \<rparr>"

text \<open>From the shift of the queue to the await of the capture.\<close>
definition take_capture :: "time \<Rightarrow> capture_queue \<Rightarrow> capture_queue" where
  "take_capture now st = (case cq_queue st of
     [] \<Rightarrow> st\<lparr> cq_phase := NotProcessing \<rparr>
   | x # q \<Rightarrow> st\<lparr> cq_queue := q, cq_phase := Capturing x, cq_started := cq_started st @ [(x, now)] \<rparr>)"

text \<open>The head of the loop.\<close>
definition next_capture :: "time \<Rightarrow> capture_queue \<Rightarrow> capture_queue" where
  "next_capture now st =
    (if cq_queue st = [] then st\<lparr> cq_phase := NotProcessing \<rparr>
     else if now - cq_last st < min_capture_interval then st\<lparr> cq_phase := Pausing (cq_last st + min_capture_interval) \<rparr>
     else take_capture now st)"

definition capture_screenshot_async :: "time \<Rightarrow> capture_options \<Rightarrow> capture_queue \<Rightarrow> capture_queue" where
  "capture_screenshot_async now x st =
    (if max_queue_size \<le> length (cq_queue st) then st
     else (let st1 = st\<lparr> cq_queue := cq_queue st @ [x] \<rparr>
           in if cq_phase st = NotProcessing then next_capture now st1 else st1))"

definition pause_over :: "time \<Rightarrow> capture_queue \<Rightarrow> capture_queue" where
  "pause_over now st = take_capture now st"

definition capture_done :: "time \<Rightarrow> capture_queue \<Rightarrow> capture_queue" where
  "capture_done now st = next_capture now (st\<lparr> cq_last := now \<rparr>)"

text \<open>The captures of a repeated event with their delays: the first at once, the rest at the interval.\<close>
definition capture_multiple_screenshots :: "id \<Rightarrow> string \<Rightarrow> nat \<Rightarrow> int \<Rightarrow> (int \<times> capture_options) list" where
  "capture_multiple_screenshots aid et count interval = map (\<lambda>i. (int i * interval,
     \<lparr> co_attemptId = aid, co_eventType = et, co_sequence = Some (i + 1) \<rparr>)) [0..<max 1 count]"

text \<open>What \<^verbatim>\<open>doCapture\<close> answers: without HTTPS or without a frame it reports success and sends nothing.\<close>
definition do_capture :: "bool \<Rightarrow> bool \<Rightarrow> bool option \<Rightarrow> bool \<times> bool" where
  "do_capture http_mode frame upload_ok =
    (if http_mode then (True, False) else if \<not> frame then (True, False)
     else (case upload_ok of Some ok \<Rightarrow> (ok, True) | None \<Rightarrow> (False, True)))"

text \<open>Runs along a clock that does not go back: requests for captures, the end of a pause, the end of a capture. The third
  component are the requests that were accepted, the fourth the ends of captures.\<close>
inductive capture_run :: "time \<Rightarrow> capture_queue \<Rightarrow> capture_options list \<Rightarrow> time list \<Rightarrow> bool" where
  cr_new: "capture_run t new_queue [] []"
| cr_request: "capture_run t st acc ends \<Longrightarrow> t \<le> now \<Longrightarrow>
    capture_run now (capture_screenshot_async now x st) (if max_queue_size \<le> length (cq_queue st) then acc else acc @ [x]) ends"
| cr_pause_over: "capture_run t st acc ends \<Longrightarrow> t \<le> now \<Longrightarrow> cq_phase st = Pausing u \<Longrightarrow> u \<le> now \<Longrightarrow>
    capture_run now (pause_over now st) acc ends"
| cr_done: "capture_run t st acc ends \<Longrightarrow> t \<le> now \<Longrightarrow> cq_phase st = Capturing x \<Longrightarrow>
    capture_run now (capture_done now st) acc (ends @ [now])"

text \<open>Each capture starts when the one before has ended and the interval has passed.\<close>
definition spaced :: "time list \<Rightarrow> time list \<Rightarrow> bool" where
  "spaced starts ends = (\<forall>i. Suc i < length starts \<longrightarrow> i < length ends \<and> ends ! i + min_capture_interval \<le> starts ! Suc i)"

definition queue_ok :: "time \<Rightarrow> capture_queue \<Rightarrow> capture_options list \<Rightarrow> time list \<Rightarrow> bool" where
  "queue_ok t st acc ends = (length (cq_queue st) \<le> max_queue_size \<and> map fst (cq_started st) @ cq_queue st = acc \<and>
     spaced (map snd (cq_started st)) ends \<and>
     cq_last st = (if ends = [] then 0 else last ends) \<and>
     (case cq_phase st of
        NotProcessing \<Rightarrow> cq_queue st = [] \<and> length ends = length (cq_started st)
      | Pausing u \<Rightarrow> cq_queue st \<noteq> [] \<and> u = cq_last st + min_capture_interval \<and> length ends = length (cq_started st)
      | Capturing x \<Rightarrow> cq_started st \<noteq> [] \<and> x = fst (last (cq_started st)) \<and> Suc (length ends) = length (cq_started st)))"

lemma spaced_start:
  assumes "spaced ss es" "length es = length ss" "es = [] \<or> last es + min_capture_interval \<le> now"
  shows "spaced (ss @ [now]) es"
  unfolding spaced_def
proof (intro allI impI)
  fix i assume i: "Suc i < length (ss @ [now])"
  show "i < length es \<and> es ! i + min_capture_interval \<le> (ss @ [now]) ! Suc i"
  proof (cases "Suc i < length ss")
    case True
    then show ?thesis using assms(1) by (simp add: spaced_def nth_append)
  next
    case False
    then have n: "Suc i = length ss" using i by simp
    then have "es \<noteq> []" using assms(2) by auto
    then have "es ! i = last es" using n assms(2) by (metis diff_Suc_1 last_conv_nth)
    then show ?thesis using n assms(2,3) \<open>es \<noteq> []\<close> by (simp add: nth_append)
  qed
qed

lemma spaced_end: "spaced ss es \<Longrightarrow> spaced ss (es @ [t])"
  by (auto simp: spaced_def nth_append)

text \<open>The state at the head of the loop: no capture is under way.\<close>
definition at_rest :: "time \<Rightarrow> capture_queue \<Rightarrow> capture_options list \<Rightarrow> time list \<Rightarrow> bool" where
  "at_rest t st acc ends = (length (cq_queue st) \<le> max_queue_size \<and> map fst (cq_started st) @ cq_queue st = acc \<and>
     spaced (map snd (cq_started st)) ends \<and> cq_last st = (if ends = [] then 0 else last ends) \<and>
     length ends = length (cq_started st))"

lemma take_capture_ok:
  assumes "at_rest t st acc ends" "t \<le> now" "cq_queue st \<noteq> []" "cq_last st + min_capture_interval \<le> now"
  shows "queue_ok now (take_capture now st) acc ends"
proof -
  obtain x q where q: "cq_queue st = x # q" using assms(3) by (cases "cq_queue st") auto
  have "spaced (map snd (cq_started st) @ [now]) ends"
    by (rule spaced_start) (use assms in \<open>auto simp: at_rest_def split: if_splits\<close>)
  then show ?thesis using assms by (simp add: queue_ok_def at_rest_def take_capture_def q)
qed

lemma next_capture_ok:
  assumes "at_rest t st acc ends" "t \<le> now" shows "queue_ok now (next_capture now st) acc ends"
proof (cases "cq_queue st \<noteq> [] \<and> min_capture_interval \<le> now - cq_last st")
  case True
  then show ?thesis using take_capture_ok[OF assms] by (simp add: next_capture_def)
next
  case False
  then show ?thesis using assms by (auto simp: next_capture_def queue_ok_def at_rest_def)
qed

lemma capture_run_ok: "capture_run t st acc ends \<Longrightarrow> queue_ok t st acc ends"
proof (induction rule: capture_run.induct)
  case (cr_new t)
  then show ?case by (simp add: queue_ok_def new_queue_def spaced_def)
next
  case (cr_request t st acc ends now x)
  show ?case
  proof (cases "max_queue_size \<le> length (cq_queue st)")
    case True
    then show ?thesis using cr_request by (simp add: capture_screenshot_async_def queue_ok_def)
  next
    case False
    note ok = cr_request.IH[unfolded queue_ok_def]
    let ?st = "st\<lparr> cq_queue := cq_queue st @ [x] \<rparr>"
    show ?thesis
    proof (cases "cq_phase st = NotProcessing")
      case True
      have "at_rest t ?st (acc @ [x]) ends" using ok False True by (auto simp: at_rest_def)
      from next_capture_ok[OF this cr_request(2)] show ?thesis
        using False True by (simp add: capture_screenshot_async_def)
    next
      case busy: False
      then show ?thesis using ok False cr_request(2)
        by (cases "cq_phase st") (auto simp: capture_screenshot_async_def queue_ok_def)
    qed
  qed
next
  case (cr_pause_over t st acc ends now u)
  then have "at_rest t st acc ends" "cq_queue st \<noteq> []" "cq_last st + min_capture_interval \<le> now"
    by (auto simp: queue_ok_def at_rest_def)
  then show ?case unfolding pause_over_def using take_capture_ok cr_pause_over(2) by blast
next
  case (cr_done t st acc ends now x)
  have "at_rest t (st\<lparr> cq_last := now \<rparr>) acc (ends @ [now])"
    using cr_done by (auto simp: queue_ok_def at_rest_def spaced_end)
  then show ?case unfolding capture_done_def by (rule next_capture_ok) (rule cr_done(2))
qed

text \<open>Screenshots are taken one at a time, in order, and no more than one a second: along any run, at most ten wait, the
  captures started and those waiting are the accepted requests in their order, each once; a capture starts
  only when the one before has ended and a second has passed since; and the queue never stalls: whenever a request waits, a
  capture or a pause is under way.\<close>
theorem captures_in_order_and_spaced:
  assumes "capture_run t st acc ends"
  shows "length (cq_queue st) \<le> 10 \<and> map fst (cq_started st) @ cq_queue st = acc
    \<and> spaced (map snd (cq_started st)) ends \<and> length (cq_started st) \<le> Suc (length ends)
    \<and> (cq_phase st = NotProcessing \<longrightarrow> cq_queue st = [])"
  using capture_run_ok[OF assms] by (cases "cq_phase st") (auto simp: queue_ok_def max_queue_size_def)

theorem captures_witness:
  "\<exists>st x. capture_run 5000 st [x, x] [] \<and> map fst (cq_started st) @ cq_queue st = [x, x] \<and> length (cq_queue st) = 1"
proof -
  let ?x = "\<lparr> co_attemptId = ''a1'', co_eventType = ''TAB_LEAVE'', co_sequence = Some 1 \<rparr>"
  let ?a = "capture_screenshot_async 5000 ?x new_queue"
  let ?b = "capture_screenshot_async 5000 ?x ?a"
  have r0: "capture_run 5000 new_queue [] []" by (rule cr_new)
  have r1: "capture_run 5000 ?a [?x] []" using cr_request[OF r0 order_refl, of ?x] by (simp add: new_queue_def max_queue_size_def)
  have n: "length (cq_queue ?a) < max_queue_size" "length (cq_queue ?b) = 1" by code_simp+
  have r2: "capture_run 5000 ?b [?x, ?x] []" using cr_request[OF r1 order_refl, of ?x] n(1) by simp
  then show ?thesis using captures_in_order_and_spaced[OF r2] n by blast
qed

section \<open>The buffer of key presses\<close>

definition max_buffer_size :: nat where "max_buffer_size = 1000"

text \<open>The refs of the hook, and the payloads it has emitted.\<close>
record tracker =
  kt_buffer :: "keystroke list"
  kt_chars :: int
  kt_windowStart :: time
  kt_total :: int
  kt_sessionStart :: time
  kt_enabled :: bool
  kt_batches :: "batch_data list"
  kt_speeds :: "speed_data list"

definition is_printable :: "keystroke \<Rightarrow> bool" where
  "is_printable k = (length (k_key k) = 1 \<and> \<not> k_ctrl k \<and> \<not> k_meta k \<and> \<not> k_alt k)"

definition handle_key_down :: "keystroke \<Rightarrow> tracker \<Rightarrow> tracker" where
  "handle_key_down k st =
    (if \<not> kt_enabled st then st
     else st\<lparr> kt_buffer := kt_buffer st @ [k], kt_total := kt_total st + 1,
            kt_chars := (if is_printable k then kt_chars st + 1 else kt_chars st) \<rparr>)"

definition flush_buffer :: "id \<Rightarrow> bool \<Rightarrow> time \<Rightarrow> tracker \<Rightarrow> tracker" where
  "flush_buffer aid online now st =
    (if kt_buffer st = [] then st
     else if \<not> online then st\<lparr> kt_buffer := drop (length (kt_buffer st) - max_buffer_size) (kt_buffer st) \<rparr>
     else st\<lparr> kt_buffer := [], kt_batches := kt_batches st @ [\<lparr> bd_attemptId = aid, bd_keystrokes = Some (kt_buffer st),
            bd_totalKeystrokes = kt_total st, bd_timestamp = now \<rparr>] \<rparr>)"

text \<open>The rates are computed with doubles, \<^verbatim>\<open>fl\<close> rounds to the nearest.\<close>
definition send_typing_speed :: "(rat \<Rightarrow> rat) \<Rightarrow> id \<Rightarrow> bool \<Rightarrow> time \<Rightarrow> tracker \<Rightarrow> tracker" where
  "send_typing_speed fl aid online now st =
    (let elapsed = now - kt_windowStart st; chars = kt_chars st;
         st1 = st\<lparr> kt_chars := 0, kt_windowStart := now \<rparr>
     in if elapsed < 5000 \<or> chars = 0 \<or> \<not> online then st1
        else (let cpm = js_round (fl (of_int chars / fl (of_int elapsed / 60000))); wpm = js_round (fl (of_int cpm / 5))
              in st1\<lparr> kt_speeds := kt_speeds st1 @ [\<lparr> sd_attemptId = aid, sd_wpm = wpm, sd_cpm = cpm, sd_interval = elapsed,
                   sd_charCount = chars, sd_totalKeystrokes = kt_total st, sd_sessionDuration = now - kt_sessionStart st,
                   sd_timestamp = now \<rparr>] \<rparr>))"

text \<open>The effect runs again whenever \<^verbatim>\<open>enabled\<close> changes: its clean-up flushes and reports, its body starts the
  windows anew.\<close>
definition tracker_restart :: "(rat \<Rightarrow> rat) \<Rightarrow> id \<Rightarrow> bool \<Rightarrow> time \<Rightarrow> bool \<Rightarrow> tracker \<Rightarrow> tracker" where
  "tracker_restart fl aid online now enabled st =
    (send_typing_speed fl aid online now (flush_buffer aid online now st))
      \<lparr> kt_enabled := enabled, kt_sessionStart := now, kt_windowStart := now \<rparr>"

inductive tracker_step :: "(rat \<Rightarrow> rat) \<Rightarrow> id \<Rightarrow> keystroke list \<times> tracker \<Rightarrow> keystroke list \<times> tracker \<Rightarrow> bool" for fl aid where
  ts_key: "tracker_step fl aid (ks, st) (if kt_enabled st then ks @ [k] else ks, handle_key_down k st)"
| ts_batch: "kt_enabled st \<Longrightarrow> online \<or> length (kt_buffer st) \<le> max_buffer_size \<Longrightarrow> tracker_step fl aid (ks, st) (ks, flush_buffer aid online now st)"
| ts_speed: "kt_enabled st \<Longrightarrow> tracker_step fl aid (ks, st) (ks, send_typing_speed fl aid online now st)"
| ts_restart: "online \<or> length (kt_buffer st) \<le> max_buffer_size \<Longrightarrow>
    tracker_step fl aid (ks, st) (ks, tracker_restart fl aid online now enabled st)"

definition batched :: "tracker \<Rightarrow> keystroke list" where
  "batched st = concat (map (\<lambda>d. or_default (bd_keystrokes d) []) (kt_batches st)) @ kt_buffer st"

lemma flush_batched: "online \<or> length (kt_buffer st) \<le> max_buffer_size \<Longrightarrow> batched (flush_buffer aid online now st) = batched st"
  by (auto simp: batched_def flush_buffer_def or_default_def)

lemma speed_batched: "batched (send_typing_speed fl aid online now st) = batched st"
  by (simp add: batched_def send_typing_speed_def Let_def)

text \<open>Key presses of the recorded time are sent once, in order, as long as no more than a thousand pile up without a connection.\<close>
lemma key_presses_batched: "(tracker_step fl aid)\<^sup>*\<^sup>* (ks, st) (ks', st') \<Longrightarrow> batched st = ks \<Longrightarrow> batched st' = ks'"
proof (induction rule: rtranclp_induct2)
  case (step ks1 st1 ks2 st2)
  then have "batched st1 = ks1" by simp
  with step(2) show ?case
  proof cases
    case (ts_key k)
    then show ?thesis using \<open>batched st1 = ks1\<close> by (simp add: batched_def handle_key_down_def)
  next
    case (ts_restart online now enabled)
    have "batched (st\<lparr> kt_enabled := e, kt_sessionStart := t, kt_windowStart := t \<rparr>) = batched st" for st e t by (simp add: batched_def)
    then show ?thesis using ts_restart \<open>batched st1 = ks1\<close> by (simp add: tracker_restart_def speed_batched flush_batched)
  qed (simp_all add: flush_batched speed_batched)
qed

end
