(* ===== verification/Web_Routes.thy ===== *)
theory Web_Routes
  imports Query_Params
begin

text \<open>
  The two sides of the HTTP interface: the requests of the client methods of
  \<^verbatim>\<open>apps/web/src/lib/api.ts\<close> and the routes that \<^verbatim>\<open>app.ts\<close> mounts and the files of
  \<^verbatim>\<open>apps/api/src/routes\<close> declare, in the order of their declaration. Express takes the first route
  whose method and pattern match; a literal matches in any case, \<^verbatim>\<open>:id\<close> matches one segment that is not empty, a
  slash at the end is ignored.
\<close>

section \<open>Express\<close>

datatype http_method = GET | POST | PUT | DELETE

datatype segment = Lit string | Param

text \<open>The handlers, by the names the other theories give them.\<close>
datatype route =
    R_register | R_login | R_refresh | R_logout | R_logout_all | R_me
  | R_list_challenges | R_all_challenges | R_get_challenge | R_create_challenge | R_update_challenge | R_delete_challenge
  | R_validate | R_validate_saved
  | R_list_exams | R_get_exam | R_get_invitation | R_accept_invitation | R_create_exam | R_update_exam | R_publish | R_unpublish
  | R_invite | R_delete_exam | R_warm_pool | R_warmup_status | R_pool_status | R_pool_resize | R_pool_drain
  | R_list_attempts | R_get_attempt | R_start_attempt | R_starter_files | R_save_files | R_run_tests | R_submit_attempt
  | R_upload_screenshot | R_screenshots | R_live_screenshots | R_exam_screenshots
  | R_log_event | R_list_events | R_keystrokes
  | R_report_attempts | R_exam_report | R_attempt_report | R_dashboard | R_analytics
  | R_list_users | R_pending_users | R_approve_user | R_reject_user | R_change_role | R_user_stats

type_synonym route_entry = "http_method \<times> segment list \<times> route"

definition auth_router :: "route_entry list" where
  "auth_router = [(POST, [Lit ''register''], R_register), (POST, [Lit ''login''], R_login), (POST, [Lit ''refresh''], R_refresh),
    (POST, [Lit ''logout''], R_logout), (POST, [Lit ''logout-all''], R_logout_all), (GET, [Lit ''me''], R_me)]"

definition challenge_router :: "route_entry list" where
  "challenge_router = [(GET, [], R_list_challenges), (GET, [Lit ''all''], R_all_challenges), (GET, [Param], R_get_challenge),
    (POST, [], R_create_challenge), (PUT, [Param], R_update_challenge), (DELETE, [Param], R_delete_challenge),
    (POST, [Lit ''validate''], R_validate), (POST, [Param, Lit ''validate''], R_validate_saved)]"

definition exam_router :: "route_entry list" where
  "exam_router = [(GET, [], R_list_exams), (GET, [Param], R_get_exam), (GET, [Lit ''invite'', Param], R_get_invitation),
    (POST, [Lit ''invite'', Param, Lit ''accept''], R_accept_invitation), (POST, [], R_create_exam), (PUT, [Param], R_update_exam),
    (POST, [Param, Lit ''publish''], R_publish), (POST, [Param, Lit ''unpublish''], R_unpublish), (POST, [Param, Lit ''invite''], R_invite),
    (DELETE, [Param], R_delete_exam), (POST, [Param, Lit ''warm-pool''], R_warm_pool), (GET, [Param, Lit ''warmup-status''], R_warmup_status),
    (GET, [Lit ''pool'', Lit ''status''], R_pool_status), (POST, [Lit ''pool'', Lit ''resize''], R_pool_resize),
    (DELETE, [Lit ''pool'', Lit ''drain''], R_pool_drain)]"

definition attempt_router :: "route_entry list" where
  "attempt_router = [(GET, [], R_list_attempts), (GET, [Param], R_get_attempt), (POST, [], R_start_attempt),
    (GET, [Param, Lit ''starter-files''], R_starter_files), (PUT, [Param, Lit ''files''], R_save_files),
    (POST, [Param, Lit ''run-tests''], R_run_tests), (POST, [Param, Lit ''submit''], R_submit_attempt),
    (POST, [Param, Lit ''screenshot''], R_upload_screenshot), (GET, [Param, Lit ''screenshots''], R_screenshots),
    (GET, [Param, Lit ''screenshots'', Lit ''live''], R_live_screenshots),
    (GET, [Lit ''exam'', Param, Lit ''screenshots'', Lit ''live''], R_exam_screenshots)]"

definition proctor_router :: "route_entry list" where
  "proctor_router = [(POST, [Lit ''event''], R_log_event), (GET, [Lit ''events'', Param], R_list_events), (GET, [Lit ''keystrokes'', Param], R_keystrokes)]"

definition reports_router :: "route_entry list" where
  "reports_router = [(GET, [Lit ''attempts''], R_report_attempts), (GET, [Lit ''exam'', Param], R_exam_report),
    (GET, [Lit ''attempt'', Param], R_attempt_report), (GET, [Lit ''dashboard''], R_dashboard), (GET, [Lit ''analytics''], R_analytics)]"

definition admin_users_router :: "route_entry list" where
  "admin_users_router = [(GET, [], R_list_users), (GET, [Lit ''pending''], R_pending_users), (POST, [Param, Lit ''approve''], R_approve_user),
    (POST, [Param, Lit ''reject''], R_reject_user), (PUT, [Param, Lit ''role''], R_change_role), (GET, [Lit ''stats''], R_user_stats)]"

definition mounts :: "(string list \<times> route_entry list) list" where
  "mounts = [([''api'', ''auth''], auth_router), ([''api'', ''challenges''], challenge_router), ([''api'', ''exams''], exam_router),
    ([''api'', ''attempts''], attempt_router), ([''api'', ''proctor''], proctor_router), ([''api'', ''reports''], reports_router),
    ([''api'', ''admin'', ''users''], admin_users_router)]"

fun match_segments :: "segment list \<Rightarrow> string list \<Rightarrow> string list option" where
  "match_segments [] [] = Some []"
| "match_segments (Lit l # ps) (s # ss) = (if str_lower s = l then match_segments ps ss else None)"
| "match_segments (Param # ps) (s # ss) = (if s = [] then None else map_option ((#) s) (match_segments ps ss))"
| "match_segments _ _ = None"

fun match_router :: "route_entry list \<Rightarrow> http_method \<Rightarrow> string list \<Rightarrow> (route \<times> string list) option" where
  "match_router [] m ss = None"
| "match_router ((m', ps, r) # es) m ss = (case (if m = m' then match_segments ps ss else None) of
     Some vs \<Rightarrow> Some (r, vs)
   | None \<Rightarrow> match_router es m ss)"

text \<open>What is left of a path below a mount point.\<close>
fun strip_mount :: "string list \<Rightarrow> string list \<Rightarrow> string list option" where
  "strip_mount [] ss = Some ss"
| "strip_mount (l # ls) (s # ss) = (if str_lower s = l then strip_mount ls ss else None)"
| "strip_mount (l # ls) [] = None"

fun match_mounts :: "(string list \<times> route_entry list) list \<Rightarrow> http_method \<Rightarrow> string list \<Rightarrow> (route \<times> string list) option" where
  "match_mounts [] m ss = None"
| "match_mounts ((ls, es) # ms) m ss = (case (case strip_mount ls ss of None \<Rightarrow> None | Some rest \<Rightarrow> match_router es m rest) of
     Some x \<Rightarrow> Some x
   | None \<Rightarrow> match_mounts ms m ss)"

definition path_segments :: "string \<Rightarrow> string list" where
  "path_segments p = (let ss = tl (str_split CHR ''/'' p) in if ss \<noteq> [] \<and> last ss = [] then butlast ss else ss)"

definition dispatch :: "http_method \<Rightarrow> string \<Rightarrow> (route \<times> string list) option" where
  "dispatch m url = match_mounts mounts m (path_segments (takeWhile (\<lambda>c. c \<noteq> CHR ''?'') url))"

section \<open>The requests of the client\<close>

text \<open>One constructor for each client method, with the ids and query texts of its path.\<close>
datatype endpoint =
    Login | Register | GetCurrentUser | RefreshToken | Logout | LogoutAll
  | GetChallenges string | GetAllChallenges | GetChallenge id | CreateChallenge | UpdateChallenge id | DeleteChallenge id
  | GetExams string | GetExam id | CreateExam | UpdateExam id | PublishExam id | UnpublishExam id | DeleteExam id | CreateInvitation id
  | GetInvitation string | AcceptInvitation string
  | GetAttempts | GetStarterFiles id | GetAttempt id | StartAttempt | SaveFiles id | RunTests id | SubmitAttempt id
  | LogProctorEvent | GetProctorEvents id
  | GetExamReport id | GetAttemptReport id | GetDashboard | GetAllAttempts string
  | GetAdminUsers string | GetPendingUsers | ApproveUser id | RejectUser id | ChangeUserRole id | GetUserStats
  | GetPoolStatus | WarmPoolForExam id | GetExamWarmupStatus id | ResizePool | DrainAllPools

fun auth_request :: "endpoint \<Rightarrow> http_method \<times> string" where
  "auth_request Login = (POST, ''/auth/login'')"
| "auth_request Register = (POST, ''/auth/register'')"
| "auth_request GetCurrentUser = (GET, ''/auth/me'')"
| "auth_request RefreshToken = (POST, ''/auth/refresh'')"
| "auth_request Logout = (POST, ''/auth/logout'')"
| "auth_request _ = (POST, ''/auth/logout-all'')"

fun client_request :: "endpoint \<Rightarrow> http_method \<times> string" where
  "client_request (GetChallenges q) = (GET, ''/challenges'' @ q)"
| "client_request GetAllChallenges = (GET, ''/challenges/all'')"
| "client_request (GetChallenge i) = (GET, ''/challenges/'' @ i)"
| "client_request CreateChallenge = (POST, ''/challenges'')"
| "client_request (UpdateChallenge i) = (PUT, ''/challenges/'' @ i)"
| "client_request (DeleteChallenge i) = (DELETE, ''/challenges/'' @ i)"
| "client_request (GetExams q) = (GET, ''/exams'' @ q)"
| "client_request (GetExam i) = (GET, ''/exams/'' @ i)"
| "client_request CreateExam = (POST, ''/exams'')"
| "client_request (UpdateExam i) = (PUT, ''/exams/'' @ i)"
| "client_request (PublishExam i) = (POST, ''/exams/'' @ i @ ''/publish'')"
| "client_request (UnpublishExam i) = (POST, ''/exams/'' @ i @ ''/unpublish'')"
| "client_request (DeleteExam i) = (DELETE, ''/exams/'' @ i)"
| "client_request (CreateInvitation i) = (POST, ''/exams/'' @ i @ ''/invite'')"
| "client_request (GetInvitation t) = (GET, ''/exams/invite/'' @ t)"
| "client_request (AcceptInvitation t) = (POST, ''/exams/invite/'' @ t @ ''/accept'')"
| "client_request GetAttempts = (GET, ''/attempts'')"
| "client_request (GetStarterFiles i) = (GET, ''/attempts/'' @ i @ ''/starter-files'')"
| "client_request (GetAttempt i) = (GET, ''/attempts/'' @ i)"
| "client_request StartAttempt = (POST, ''/attempts'')"
| "client_request (SaveFiles i) = (PUT, ''/attempts/'' @ i @ ''/files'')"
| "client_request (RunTests i) = (POST, ''/attempts/'' @ i @ ''/run-tests'')"
| "client_request (SubmitAttempt i) = (POST, ''/attempts/'' @ i @ ''/submit'')"
| "client_request LogProctorEvent = (POST, ''/proctor/event'')"
| "client_request (GetProctorEvents i) = (GET, ''/proctor/events/'' @ i)"
| "client_request (GetExamReport i) = (GET, ''/reports/exam/'' @ i)"
| "client_request (GetAttemptReport i) = (GET, ''/reports/attempt/'' @ i)"
| "client_request GetDashboard = (GET, ''/reports/dashboard'')"
| "client_request (GetAllAttempts q) = (GET, ''/reports/attempts'' @ q)"
| "client_request (GetAdminUsers q) = (GET, ''/admin/users'' @ q)"
| "client_request GetPendingUsers = (GET, ''/admin/users/pending'')"
| "client_request (ApproveUser i) = (POST, ''/admin/users/'' @ i @ ''/approve'')"
| "client_request (RejectUser i) = (POST, ''/admin/users/'' @ i @ ''/reject'')"
| "client_request (ChangeUserRole i) = (PUT, ''/admin/users/'' @ i @ ''/role'')"
| "client_request GetUserStats = (GET, ''/admin/users/stats'')"
| "client_request GetPoolStatus = (GET, ''/exams/pool/status'')"
| "client_request (WarmPoolForExam i) = (POST, ''/exams/'' @ i @ ''/warm-pool'')"
| "client_request (GetExamWarmupStatus i) = (GET, ''/exams/'' @ i @ ''/warmup-status'')"
| "client_request ResizePool = (POST, ''/exams/pool/resize'')"
| "client_request DrainAllPools = (DELETE, ''/exams/pool/drain'')"
| "client_request e = auth_request e"

text \<open>\<^verbatim>\<open>API_BASE\<close> on the same origin, before the path.\<close>
definition client_url :: "endpoint \<Rightarrow> string" where
  "client_url e = ''/api'' @ snd (client_request e)"

section \<open>What each method means to call\<close>

fun meant :: "endpoint \<Rightarrow> route \<times> string list" where
  "meant Login = (R_login, [])" | "meant Register = (R_register, [])" | "meant GetCurrentUser = (R_me, [])"
| "meant RefreshToken = (R_refresh, [])" | "meant Logout = (R_logout, [])" | "meant LogoutAll = (R_logout_all, [])"
| "meant (GetChallenges q) = (R_list_challenges, [])" | "meant GetAllChallenges = (R_all_challenges, [])"
| "meant (GetChallenge i) = (R_get_challenge, [i])" | "meant CreateChallenge = (R_create_challenge, [])"
| "meant (UpdateChallenge i) = (R_update_challenge, [i])" | "meant (DeleteChallenge i) = (R_delete_challenge, [i])"
| "meant (GetExams q) = (R_list_exams, [])" | "meant (GetExam i) = (R_get_exam, [i])" | "meant CreateExam = (R_create_exam, [])"
| "meant (UpdateExam i) = (R_update_exam, [i])" | "meant (PublishExam i) = (R_publish, [i])" | "meant (UnpublishExam i) = (R_unpublish, [i])"
| "meant (DeleteExam i) = (R_delete_exam, [i])" | "meant (CreateInvitation i) = (R_invite, [i])"
| "meant (GetInvitation t) = (R_get_invitation, [t])" | "meant (AcceptInvitation t) = (R_accept_invitation, [t])"
| "meant GetAttempts = (R_list_attempts, [])" | "meant (GetStarterFiles i) = (R_starter_files, [i])" | "meant (GetAttempt i) = (R_get_attempt, [i])"
| "meant StartAttempt = (R_start_attempt, [])" | "meant (SaveFiles i) = (R_save_files, [i])" | "meant (RunTests i) = (R_run_tests, [i])"
| "meant (SubmitAttempt i) = (R_submit_attempt, [i])" | "meant LogProctorEvent = (R_log_event, [])" | "meant (GetProctorEvents i) = (R_list_events, [i])"
| "meant (GetExamReport i) = (R_exam_report, [i])" | "meant (GetAttemptReport i) = (R_attempt_report, [i])" | "meant GetDashboard = (R_dashboard, [])"
| "meant (GetAllAttempts q) = (R_report_attempts, [])" | "meant (GetAdminUsers q) = (R_list_users, [])" | "meant GetPendingUsers = (R_pending_users, [])"
| "meant (ApproveUser i) = (R_approve_user, [i])" | "meant (RejectUser i) = (R_reject_user, [i])" | "meant (ChangeUserRole i) = (R_change_role, [i])"
| "meant GetUserStats = (R_user_stats, [])" | "meant GetPoolStatus = (R_pool_status, [])" | "meant (WarmPoolForExam i) = (R_warm_pool, [i])"
| "meant (GetExamWarmupStatus i) = (R_warmup_status, [i])" | "meant ResizePool = (R_pool_resize, [])" | "meant DrainAllPools = (R_pool_drain, [])"

text \<open>Ids and invitation tokens: letters, digits, hyphens and underscores.\<close>
definition id_char :: "char \<Rightarrow> bool" where
  "id_char c = (c \<in> set ''0123456789-_ABCDEFGHIJKLMNOPQRSTUVWXYZabcdefghijklmnopqrstuvwxyz'')"

definition simple_id :: "string \<Rightarrow> bool" where
  "simple_id s = (s \<noteq> [] \<and> list_all id_char s)"

definition query_text :: "string \<Rightarrow> bool" where
  "query_text q = (q = [] \<or> hd q = CHR ''?'')"

text \<open>Two ids would run into a literal of a route declared before the one they are meant for.\<close>
fun fits :: "endpoint \<Rightarrow> bool" where
  "fits (GetChallenge i) = (simple_id i \<and> str_lower i \<noteq> ''all'')"
| "fits (GetExamWarmupStatus i) = (simple_id i \<and> str_lower i \<noteq> ''invite'')"
| "fits (GetChallenges q) = query_text q" | "fits (GetExams q) = query_text q" | "fits (GetAllAttempts q) = query_text q" | "fits (GetAdminUsers q) = query_text q"
| "fits e = list_all simple_id (snd (meant e))"

section \<open>Every method reaches its route\<close>

definition path_of :: "string list \<Rightarrow> string" where
  "path_of ss = concat (map (\<lambda>s. CHR ''/'' # s) ss)"

definition clean_segment :: "string \<Rightarrow> bool" where
  "clean_segment s = (s \<noteq> [] \<and> CHR ''/'' \<notin> set s \<and> CHR ''?'' \<notin> set s)"

lemma simple_clean: "simple_id s \<Longrightarrow> clean_segment s"
proof -
  have "\<not> id_char CHR ''/''" "\<not> id_char CHR ''?''" by code_simp+
  then show "simple_id s \<Longrightarrow> clean_segment s" by (auto simp: simple_id_def clean_segment_def list_all_iff)
qed

lemma split_here: "c \<notin> set v \<Longrightarrow> str_split c v = [v]"
  by (induction v) auto

lemma split_first: "c \<notin> set v \<Longrightarrow> str_split c (v @ c # t) = v # str_split c t"
  by (induction v) auto

lemma split_path: "list_all clean_segment ss \<Longrightarrow> ss \<noteq> [] \<Longrightarrow> str_split CHR ''/'' (path_of ss) = [] # ss"
proof (induction ss)
  case (Cons s ss)
  show ?case
  proof (cases ss)
    case Nil
    then show ?thesis using Cons.prems by (simp add: path_of_def clean_segment_def split_here)
  next
    case (Cons u us)
    then have ih: "str_split CHR ''/'' (path_of ss) = [] # ss" using Cons.IH Cons.prems by simp
    have "path_of (s # ss) = CHR ''/'' # s @ path_of ss" by (simp add: path_of_def)
    moreover obtain t where t: "path_of ss = CHR ''/'' # t" using Cons by (simp add: path_of_def)
    moreover have "str_split CHR ''/'' t = ss" using ih t by simp
    moreover have "CHR ''/'' \<notin> set s" using Cons.prems by (simp add: clean_segment_def)
    ultimately show ?thesis by (simp add: split_first)
  qed
qed simp

lemma clean_path: "list_all clean_segment ss \<Longrightarrow> c \<in> set (path_of ss) \<Longrightarrow> c \<noteq> CHR ''?''"
  by (induction ss) (auto simp: path_of_def clean_segment_def)

lemma url_segments:
  assumes "list_all clean_segment ss" "ss \<noteq> []" "query_text q"
  shows "path_segments (takeWhile (\<lambda>c. c \<noteq> CHR ''?'') (path_of ss @ q)) = ss"
proof -
  have "takeWhile (\<lambda>c. c \<noteq> CHR ''?'') (path_of ss @ q) = path_of ss"
    using clean_path[OF assms(1)] assms(3) by (cases q) (simp_all add: query_text_def takeWhile_append)
  moreover have "last ss \<noteq> []" using assms(1,2) by (auto simp: list_all_iff clean_segment_def)
  ultimately show ?thesis by (simp add: path_segments_def split_path[OF assms(1,2)] Let_def)
qed

lemma dispatch_path:
  assumes "url = path_of ss @ q" "list_all clean_segment ss" "ss \<noteq> []" "query_text q"
  shows "dispatch m url = match_mounts mounts m ss"
  using url_segments[OF assms(2-4)] by (simp add: dispatch_def assms(1))

fun url_segments_of :: "endpoint \<Rightarrow> string list" where
  "url_segments_of Login = [''api'', ''auth'', ''login'']"
| "url_segments_of Register = [''api'', ''auth'', ''register'']"
| "url_segments_of GetCurrentUser = [''api'', ''auth'', ''me'']"
| "url_segments_of RefreshToken = [''api'', ''auth'', ''refresh'']"
| "url_segments_of Logout = [''api'', ''auth'', ''logout'']"
| "url_segments_of LogoutAll = [''api'', ''auth'', ''logout-all'']"
| "url_segments_of (GetChallenges q) = [''api'', ''challenges'']"
| "url_segments_of GetAllChallenges = [''api'', ''challenges'', ''all'']"
| "url_segments_of (GetChallenge i) = [''api'', ''challenges'', i]"
| "url_segments_of CreateChallenge = [''api'', ''challenges'']"
| "url_segments_of (UpdateChallenge i) = [''api'', ''challenges'', i]"
| "url_segments_of (DeleteChallenge i) = [''api'', ''challenges'', i]"
| "url_segments_of (GetExams q) = [''api'', ''exams'']"
| "url_segments_of (GetExam i) = [''api'', ''exams'', i]"
| "url_segments_of CreateExam = [''api'', ''exams'']"
| "url_segments_of (UpdateExam i) = [''api'', ''exams'', i]"
| "url_segments_of (PublishExam i) = [''api'', ''exams'', i, ''publish'']"
| "url_segments_of (UnpublishExam i) = [''api'', ''exams'', i, ''unpublish'']"
| "url_segments_of (DeleteExam i) = [''api'', ''exams'', i]"
| "url_segments_of (CreateInvitation i) = [''api'', ''exams'', i, ''invite'']"
| "url_segments_of (GetInvitation t) = [''api'', ''exams'', ''invite'', t]"
| "url_segments_of (AcceptInvitation t) = [''api'', ''exams'', ''invite'', t, ''accept'']"
| "url_segments_of GetAttempts = [''api'', ''attempts'']"
| "url_segments_of (GetStarterFiles i) = [''api'', ''attempts'', i, ''starter-files'']"
| "url_segments_of (GetAttempt i) = [''api'', ''attempts'', i]"
| "url_segments_of StartAttempt = [''api'', ''attempts'']"
| "url_segments_of (SaveFiles i) = [''api'', ''attempts'', i, ''files'']"
| "url_segments_of (RunTests i) = [''api'', ''attempts'', i, ''run-tests'']"
| "url_segments_of (SubmitAttempt i) = [''api'', ''attempts'', i, ''submit'']"
| "url_segments_of LogProctorEvent = [''api'', ''proctor'', ''event'']"
| "url_segments_of (GetProctorEvents i) = [''api'', ''proctor'', ''events'', i]"
| "url_segments_of (GetExamReport i) = [''api'', ''reports'', ''exam'', i]"
| "url_segments_of (GetAttemptReport i) = [''api'', ''reports'', ''attempt'', i]"
| "url_segments_of GetDashboard = [''api'', ''reports'', ''dashboard'']"
| "url_segments_of (GetAllAttempts q) = [''api'', ''reports'', ''attempts'']"
| "url_segments_of (GetAdminUsers q) = [''api'', ''admin'', ''users'']"
| "url_segments_of GetPendingUsers = [''api'', ''admin'', ''users'', ''pending'']"
| "url_segments_of (ApproveUser i) = [''api'', ''admin'', ''users'', i, ''approve'']"
| "url_segments_of (RejectUser i) = [''api'', ''admin'', ''users'', i, ''reject'']"
| "url_segments_of (ChangeUserRole i) = [''api'', ''admin'', ''users'', i, ''role'']"
| "url_segments_of GetUserStats = [''api'', ''admin'', ''users'', ''stats'']"
| "url_segments_of GetPoolStatus = [''api'', ''exams'', ''pool'', ''status'']"
| "url_segments_of (WarmPoolForExam i) = [''api'', ''exams'', i, ''warm-pool'']"
| "url_segments_of (GetExamWarmupStatus i) = [''api'', ''exams'', i, ''warmup-status'']"
| "url_segments_of ResizePool = [''api'', ''exams'', ''pool'', ''resize'']"
| "url_segments_of DrainAllPools = [''api'', ''exams'', ''pool'', ''drain'']"

fun url_query :: "endpoint \<Rightarrow> string" where
  "url_query (GetChallenges q) = q"
| "url_query (GetExams q) = q"
| "url_query (GetAllAttempts q) = q"
| "url_query (GetAdminUsers q) = q"
| "url_query _ = []"

lemma lower_words [simp]:
  "str_lower ''accept'' = ''accept''" "str_lower ''admin'' = ''admin''" "str_lower ''all'' = ''all''"
  "str_lower ''analytics'' = ''analytics''" "str_lower ''api'' = ''api''" "str_lower ''approve'' = ''approve''"
  "str_lower ''attempt'' = ''attempt''" "str_lower ''attempts'' = ''attempts''" "str_lower ''auth'' = ''auth''"
  "str_lower ''challenges'' = ''challenges''" "str_lower ''dashboard'' = ''dashboard''" "str_lower ''drain'' = ''drain''"
  "str_lower ''event'' = ''event''" "str_lower ''events'' = ''events''" "str_lower ''exam'' = ''exam''"
  "str_lower ''exams'' = ''exams''" "str_lower ''files'' = ''files''" "str_lower ''invite'' = ''invite''"
  "str_lower ''keystrokes'' = ''keystrokes''" "str_lower ''live'' = ''live''" "str_lower ''login'' = ''login''"
  "str_lower ''logout'' = ''logout''" "str_lower ''logout-all'' = ''logout-all''" "str_lower ''me'' = ''me''"
  "str_lower ''pending'' = ''pending''" "str_lower ''pool'' = ''pool''" "str_lower ''proctor'' = ''proctor''"
  "str_lower ''publish'' = ''publish''" "str_lower ''refresh'' = ''refresh''" "str_lower ''register'' = ''register''"
  "str_lower ''reject'' = ''reject''" "str_lower ''reports'' = ''reports''" "str_lower ''resize'' = ''resize''"
  "str_lower ''role'' = ''role''" "str_lower ''run-tests'' = ''run-tests''" "str_lower ''screenshot'' = ''screenshot''"
  "str_lower ''screenshots'' = ''screenshots''" "str_lower ''starter-files'' = ''starter-files''" "str_lower ''stats'' = ''stats''"
  "str_lower ''status'' = ''status''" "str_lower ''submit'' = ''submit''" "str_lower ''unpublish'' = ''unpublish''"
  "str_lower ''users'' = ''users''" "str_lower ''validate'' = ''validate''" "str_lower ''warm-pool'' = ''warm-pool''"
  "str_lower ''warmup-status'' = ''warmup-status''"
  by code_simp+

lemma client_url_path: "client_url e = path_of (url_segments_of e) @ url_query e"
  by (cases e) (simp_all add: client_url_def path_of_def)

lemma fits_clean: "fits e \<Longrightarrow> list_all clean_segment (url_segments_of e) \<and> url_segments_of e \<noteq> [] \<and> query_text (url_query e)"
  by (cases e) (auto simp: simple_clean query_text_def, auto simp: clean_segment_def)

lemmas routers = mounts_def auth_router_def challenge_router_def exam_router_def attempt_router_def proctor_router_def reports_router_def
  admin_users_router_def

lemma simple_not_Nil: "simple_id s \<Longrightarrow> s \<noteq> []"
  by (simp add: simple_id_def)

lemma fits_route: "fits e \<Longrightarrow> match_mounts mounts (fst (client_request e)) (url_segments_of e) = Some (meant e)"
  by (cases e) (simp_all add: routers simple_not_Nil)

text \<open>C33: Client and server agree on the interface: for every method of the client, with ids and tokens of letters,
  digits, hyphens and underscores and any query text, the request the method sends is dispatched to the handler it is
  meant for with the ids it was given, although routes of the same shape are declared before it, unless the id of a challenge is the word all or
  that of an exam whose warm-up is asked for the word invite, in whatever case: such a request reaches another route declared before it. The ids of the database are neither.\<close>
theorem client_reaches_route:
  assumes "fits e" shows "dispatch (fst (client_request e)) (client_url e) = Some (meant e)"
proof -
  have c: "list_all clean_segment (url_segments_of e)" "url_segments_of e \<noteq> []" "query_text (url_query e)"
    using fits_clean[OF assms] by auto
  show ?thesis unfolding dispatch_path[OF client_url_path c] by (rule fits_route[OF assms])
qed

theorem client_reaches_route_witness:
  "dispatch POST (client_url (SubmitAttempt ''a-1'')) = Some (R_submit_attempt, [''a-1''])"
proof -
  have "fits (SubmitAttempt ''a-1'')" by code_simp
  from client_reaches_route[OF this] show ?thesis by simp
qed

end
