(* ===== verification/Query_Strings.thy ===== *)
theory Query_Strings
  imports Query_Params
begin

text \<open>
  The query strings of the listings: \<^verbatim>\<open>buildQueryString\<close> of
  \<^verbatim>\<open>apps/web/src/lib/api.ts\<close> and its two variants, with \<^verbatim>\<open>URLSearchParams\<close> of the
  language's environment, the form encoding of the URL standard on the bytes of a text. How the server parses a query is
  the business of express and a parameter of the properties; \<^verbatim>\<open>form_decode\<close> is the parser of the standard.
\<close>

section \<open>The form encoding\<close>

definition form_plain :: "char \<Rightarrow> bool" where
  "form_plain c = (c \<in> set ''*-._0123456789ABCDEFGHIJKLMNOPQRSTUVWXYZabcdefghijklmnopqrstuvwxyz'')"

definition hex_char :: "nat \<Rightarrow> char" where "hex_char n = ''0123456789ABCDEF'' ! n"

definition form_char :: "char \<Rightarrow> string" where
  "form_char c = (if form_plain c then [c] else if c = CHR '' '' then ''+''
     else [CHR ''%'', hex_char (of_char c div 16), hex_char (of_char c mod 16)])"

definition form_text :: "string \<Rightarrow> string" where "form_text s = concat (map form_char s)"

definition form_encode :: "(string \<times> string) list \<Rightarrow> string" where
  "form_encode kvs = str_join ''&'' (map (\<lambda>(k, v). form_text k @ CHR ''='' # form_text v) kvs)"

fun percent_decode :: "string \<Rightarrow> string" where
  "percent_decode (c # a # b # r) =
    (if c = CHR ''%'' \<and> hex_digit a \<noteq> None \<and> hex_digit b \<noteq> None
     then char_of (16 * the (hex_digit a) + the (hex_digit b)) # percent_decode r
     else (if c = CHR ''+'' then CHR '' '' else c) # percent_decode (a # b # r))"
| "percent_decode (c # r) = (if c = CHR ''+'' then CHR '' '' else c) # percent_decode r"
| "percent_decode [] = []"

definition form_pair :: "string \<Rightarrow> string \<times> string" where
  "form_pair w = (percent_decode (takeWhile (\<lambda>c. c \<noteq> CHR ''='') w), percent_decode (drop 1 (dropWhile (\<lambda>c. c \<noteq> CHR ''='') w)))"

definition form_decode :: "string \<Rightarrow> (string \<times> string) list" where
  "form_decode s = map form_pair (filter (\<lambda>w. w \<noteq> []) (str_split CHR ''&'' s))"

lemma decode_plain: "c \<noteq> CHR ''%'' \<Longrightarrow> c \<noteq> CHR ''+'' \<Longrightarrow> percent_decode (c # t) = c # percent_decode t"
  by (cases t rule: percent_decode.cases) auto

lemma decode_plus: "percent_decode (CHR ''+'' # t) = CHR '' '' # percent_decode t"
  by (cases t rule: percent_decode.cases) auto

lemma hex_char_digit: "n < 16 \<Longrightarrow> hex_digit (hex_char n) = Some n"
proof -
  have "\<forall>n \<in> set [0..<16]. hex_digit (hex_char n) = Some n" by code_simp
  then show "n < 16 \<Longrightarrow> hex_digit (hex_char n) = Some n" by simp
qed

lemma form_plain_not: "form_plain c \<Longrightarrow> c \<noteq> CHR ''%'' \<and> c \<noteq> CHR ''+'' \<and> c \<noteq> CHR ''&'' \<and> c \<noteq> CHR ''=''"
proof -
  have "\<not> form_plain CHR ''%''" "\<not> form_plain CHR ''+''" "\<not> form_plain CHR ''&''" "\<not> form_plain CHR ''=''" by code_simp+
  then show "form_plain c \<Longrightarrow> c \<noteq> CHR ''%'' \<and> c \<noteq> CHR ''+'' \<and> c \<noteq> CHR ''&'' \<and> c \<noteq> CHR ''=''" by metis
qed

lemma decode_char: "percent_decode (form_char c @ t) = c # percent_decode t"
proof -
  have n: "(of_char c :: nat) < 256" by (metis of_char_mod_256 mod_less_divisor zero_less_numeral)
  have "char_of (16 * (of_char c div 16) + of_char c mod 16 :: nat) = c" by simp
  moreover have "hex_digit (hex_char (of_char c div 16)) = Some (of_char c div 16)" "hex_digit (hex_char (of_char c mod 16)) = Some (of_char c mod 16)"
    using n by (simp_all add: hex_char_digit less_mult_imp_div_less)
  ultimately show ?thesis
    using form_plain_not[of c] by (auto simp: form_char_def decode_plain decode_plus)
qed

lemma decode_text: "percent_decode (form_text s) = s"
proof -
  have "percent_decode (form_text s @ t) = s @ percent_decode t" for t
    by (induction s) (simp_all add: form_text_def decode_char)
  from this[of "[]"] show ?thesis by simp
qed

lemma hex_char_plain: "n < 16 \<Longrightarrow> form_plain (hex_char n)"
proof -
  have "\<forall>n \<in> set [0..<16]. form_plain (hex_char n)" by code_simp
  then show "n < 16 \<Longrightarrow> form_plain (hex_char n)" by simp
qed

lemma text_chars: "c \<in> set (form_text s) \<Longrightarrow> form_plain c \<or> c = CHR ''+'' \<or> c = CHR ''%''"
proof -
  have n: "(of_char c :: nat) < 256" for c by (metis of_char_mod_256 mod_less_divisor zero_less_numeral)
  have "form_plain (hex_char (of_char c div 16))" "form_plain (hex_char (of_char c mod 16))" for c
    using n[of c] by (simp_all add: hex_char_plain less_mult_imp_div_less)
  then show "c \<in> set (form_text s) \<Longrightarrow> form_plain c \<or> c = CHR ''+'' \<or> c = CHR ''%''"
    by (auto simp: form_text_def form_char_def split: if_splits)
qed

lemma text_no_sep: "CHR ''&'' \<notin> set (form_text s)" "CHR ''='' \<notin> set (form_text s)"
  using text_chars[of "CHR ''&''" s] text_chars[of "CHR ''=''" s] form_plain_not by auto

lemma pair_text: "form_pair (form_text k @ CHR ''='' # form_text v) = (k, v)"
proof -
  have "\<forall>c \<in> set (form_text k). c \<noteq> CHR ''=''" using text_no_sep(2) by metis
  then show ?thesis by (simp add: form_pair_def takeWhile_append dropWhile_append decode_text)
qed

lemma form_roundtrip: "form_decode (form_encode kvs) = kvs"
proof (cases "kvs = []")
  case True
  then show ?thesis by (simp add: form_decode_def form_encode_def)
next
  case False
  let ?ws = "map (\<lambda>(k, v). form_text k @ CHR ''='' # form_text v) kvs"
  have "\<forall>w \<in> set ?ws. CHR ''&'' \<notin> set w" using text_no_sep(1) by auto
  then have "str_split CHR ''&'' (form_encode kvs) = ?ws" unfolding form_encode_def using False by (intro str_split_join) auto
  moreover have "filter (\<lambda>w. w \<noteq> []) ?ws = ?ws" by (rule filter_True) auto
  ultimately show ?thesis by (simp add: form_decode_def pair_text comp_def case_prod_beta)
qed

section \<open>The query strings of the client\<close>

record list_params =
  lp_page :: "int option"
  lp_limit :: "int option"
  lp_search :: "string option"
  lp_sortBy :: "string option"
  lp_order :: "string option"
  lp_status :: "string option"
  lp_examId :: "string option"
  lp_role :: "string option"

text \<open>\<^verbatim>\<open>if (x) query.set(k, String(x))\<close>.\<close>
definition set_number :: "string \<Rightarrow> int option \<Rightarrow> (string \<times> string) list" where
  "set_number k n = (case n of Some x \<Rightarrow> if x = 0 then [] else [(k, str_of_int x)] | None \<Rightarrow> [])"

definition set_text :: "string \<Rightarrow> string option \<Rightarrow> (string \<times> string) list" where
  "set_text k t = (case str_opt t of Some s \<Rightarrow> [(k, s)] | None \<Rightarrow> [])"

definition query_entries :: "list_params \<Rightarrow> (string \<times> string) list" where
  "query_entries p = set_number ''page'' (lp_page p) @ set_number ''limit'' (lp_limit p) @ set_text ''search'' (lp_search p)
     @ set_text ''sortBy'' (lp_sortBy p) @ set_text ''order'' (lp_order p)"

definition as_query :: "(string \<times> string) list \<Rightarrow> string" where
  "as_query kvs = (let qs = form_encode kvs in if qs = [] then [] else CHR ''?'' # qs)"

definition build_query_string :: "list_params \<Rightarrow> string" where
  "build_query_string p = as_query (query_entries p)"

definition all_attempts_query :: "list_params \<Rightarrow> string" where
  "all_attempts_query p = as_query (query_entries p @ set_text ''status'' (lp_status p) @ set_text ''examId'' (lp_examId p))"

definition admin_users_query :: "list_params \<Rightarrow> string" where
  "admin_users_query p = as_query (set_number ''page'' (lp_page p) @ set_number ''limit'' (lp_limit p) @ set_text ''search'' (lp_search p)
     @ set_text ''status'' (lp_status p) @ set_text ''role'' (lp_role p))"

section \<open>What the server reads\<close>

lemma digits_take: "takeWhile is_digit (nat_digits n) = nat_digits n"
  by (auto simp: takeWhile_eq_all_conv nat_digits_are_digits)

lemma digit_not: "is_digit c \<Longrightarrow> \<not> is_space c \<and> c \<noteq> CHR ''-'' \<and> c \<noteq> CHR ''+'' \<and> c \<noteq> CHR ''x'' \<and> c \<noteq> CHR ''X''"
proof -
  have "\<forall>c \<in> set ''0123456789''. \<not> is_space c \<and> c \<noteq> CHR ''-'' \<and> c \<noteq> CHR ''+'' \<and> c \<noteq> CHR ''x'' \<and> c \<noteq> CHR ''X''" by code_simp
  moreover assume d: "is_digit c"
  have "c \<in> set ''0123456789''"
  proof -
    obtain n where n: "of_char c = (n :: nat)" "48 \<le> n" "n \<le> 57" using d by (auto simp: is_digit_def Let_def)
    then have "c = char_of n" by (metis char_of_char)
    moreover have "n \<in> set [48..<58]" unfolding set_upt using n by simp
    moreover have "\<forall>n \<in> set [48..<58]. (char_of (n :: nat) :: char) \<in> set ''0123456789''" by code_simp
    ultimately show ?thesis by metis
  qed
  ultimately show ?thesis by blast
qed

lemma parse_int_digits: "js_parse_int (nat_digits n) = Some (int n)"
proof -
  obtain c r where c: "nat_digits n = c # r" by (cases "nat_digits n") (use nat_digits_not_Nil in auto)
  have d: "is_digit c" "\<forall>x \<in> set r. is_digit x" using nat_digits_are_digits[of _ n] c by auto
  have x: "hd r \<noteq> CHR ''x'' \<and> hd r \<noteq> CHR ''X''" if "r \<noteq> []" using that d(2) digit_not by (metis list.set_sel(1))
  have hex: "\<not> prefix ''x'' r" "\<not> prefix ''X'' r" using x by (cases r; auto)+
  have tw: "takeWhile is_digit r = r" using d(2) by (simp add: takeWhile_eq_all_conv)
  have "digits_val (c # r) = n" using digits_val_nat_digits[of n] c by simp
  then show ?thesis unfolding c using digit_not[OF d(1)] hex d(1) by (simp add: js_parse_int_def Let_def tw)
qed

lemma parse_int_of_int: "0 \<le> n \<Longrightarrow> js_parse_int (str_of_int n) = Some n"
  by (simp add: str_of_int_def parse_int_digits)

definition letters :: "string \<Rightarrow> bool" where
  "letters s = list_all (\<lambda>c. c \<in> set ''ABCDEFGHIJKLMNOPQRSTUVWXYZabcdefghijklmnopqrstuvwxyz'') s"

definition list_keys :: "string list" where
  "list_keys = [''page'', ''limit'', ''search'', ''sortBy'', ''order'']"

lemma entry_keys: "subseq (map fst (query_entries p)) list_keys"
proof -
  have n: "subseq (map fst (set_number k x)) [k]" for k x by (simp add: set_number_def split: option.split)
  have t: "subseq (map fst (set_text k x)) [k]" for k x by (simp add: set_text_def split: option.split)
  have "subseq (map fst (query_entries p)) ([''page''] @ [''limit''] @ [''search''] @ [''sortBy''] @ [''order''])"
    unfolding query_entries_def map_append by (intro list_emb_append_mono n t)
  then show ?thesis by (simp add: list_keys_def)
qed

lemma entry_keys_plain: "distinct (map fst (query_entries p)) \<and> list_all letters (map fst (query_entries p)) \<and> length (query_entries p) < 1000"
proof -
  have "\<forall>ks \<in> set (subseqs list_keys). distinct ks \<and> list_all letters ks \<and> length ks < 1000" by code_simp
  moreover have "map fst (query_entries p) \<in> set (subseqs list_keys)" unfolding in_set_subseqs by (rule entry_keys)
  ultimately have "distinct (map fst (query_entries p)) \<and> list_all letters (map fst (query_entries p)) \<and> length (map fst (query_entries p)) < 1000"
    by (rule bspec)
  then show ?thesis by simp
qed

text \<open>What a listing asks for is what the server reads: whatever text is searched for, with any parser that reads a
  query of distinct plain names as the URL standard does, the query string of the client gives the page, the limit cut to a
  hundred, the search text, the column and the order; zero and empty values are left out and read as the defaults.\<close>
theorem list_query_roundtrip:
  assumes "\<And>kvs k. distinct (map fst kvs) \<Longrightarrow> list_all letters (map fst kvs) \<Longrightarrow> length kvs < 1000 \<Longrightarrow>
      Q (form_encode kvs) k = map_of (form_decode (form_encode kvs)) k"
    and "\<And>n. lp_page p = Some n \<Longrightarrow> 0 \<le> n" "\<And>n. lp_limit p = Some n \<Longrightarrow> 0 \<le> n"
  shows "(let q = Q (drop 1 (build_query_string p)) in
      page_param (q ''page'') = (case lp_page p of Some n \<Rightarrow> max 1 n | None \<Rightarrow> 1)
    \<and> limit_param (q ''limit'') = (case lp_limit p of Some n \<Rightarrow> if n = 0 then 20 else min 100 n | None \<Rightarrow> 20)
    \<and> q ''search'' = str_opt (lp_search p) \<and> q ''sortBy'' = str_opt (lp_sortBy p) \<and> q ''order'' = str_opt (lp_order p))"
proof -
  let ?kvs = "query_entries p"
  note d = entry_keys_plain[of p]
  have q: "drop 1 (build_query_string p) = form_encode ?kvs" by (simp add: build_query_string_def as_query_def Let_def)
  have read: "Q (drop 1 (build_query_string p)) k = map_of ?kvs k" for k
    unfolding q using assms(1)[of ?kvs k] d by (simp add: form_roundtrip)
  have "map_of ?kvs ''page'' = (case lp_page p of Some n \<Rightarrow> if n = 0 then None else Some (str_of_int n) | None \<Rightarrow> None)"
    "map_of ?kvs ''limit'' = (case lp_limit p of Some n \<Rightarrow> if n = 0 then None else Some (str_of_int n) | None \<Rightarrow> None)"
    "map_of ?kvs ''search'' = str_opt (lp_search p)" "map_of ?kvs ''sortBy'' = str_opt (lp_sortBy p)"
    "map_of ?kvs ''order'' = str_opt (lp_order p)"
    by (simp_all add: query_entries_def set_number_def set_text_def split: option.split)
  note r = this
  have "page_param (map_of ?kvs ''page'') = (case lp_page p of Some n \<Rightarrow> max 1 n | None \<Rightarrow> 1)"
    unfolding r(1) using assms(2) by (cases "lp_page p") (simp_all add: page_param_def int_param_def parse_int_of_int)
  moreover have "limit_param (map_of ?kvs ''limit'') = (case lp_limit p of Some n \<Rightarrow> if n = 0 then 20 else min 100 n | None \<Rightarrow> 20)"
    unfolding r(2) using assms(3) by (cases "lp_limit p") (auto simp: limit_param_def int_param_def parse_int_of_int)
  ultimately show ?thesis unfolding Let_def read by (simp add: r(3-5))
qed

theorem list_query_roundtrip_witness:
  "(let q = map_of (form_decode (drop 1 (build_query_string \<lparr> lp_page = Some 2, lp_limit = Some 500, lp_search = Some ''a&b = c%'',
        lp_sortBy = None, lp_order = Some ''asc'', lp_status = None, lp_examId = None, lp_role = None \<rparr>))) in
      page_param (q ''page'') = 2 \<and> limit_param (q ''limit'') = 100 \<and> q ''search'' = Some ''a&b = c%''
    \<and> q ''sortBy'' = None \<and> q ''order'' = Some ''asc'')"
  using list_query_roundtrip[where Q = "\<lambda>s. map_of (form_decode s)" and p = "\<lparr> lp_page = Some 2, lp_limit = Some 500,
      lp_search = Some ''a&b = c%'', lp_sortBy = None, lp_order = Some ''asc'', lp_status = None, lp_examId = None, lp_role = None \<rparr>"]
  by (simp add: Let_def)

end
