(* ===== verification/Redis_Types.thy ===== *)
theory Redis_Types
  imports Attempt_Lifecycle Keystrokes Auth_Routes
begin

text \<open>
  The keyspace is shared by every component of the server: nine modules write to one Redis and keep their keys apart by
  prefix. Redis checks the type of a value at every command, and the modules parse what they read. Here each
  key family has a type, the components' operations are shown to respect it, and
  so in every reachable state a command meets a value of its own type and a reader a document of its own.
  One family is shared: presence and login sessions both live under \<^verbatim>\<open>session:\<close> and are
  told apart by the colon that follows the attempt in the key of a presence.
\<close>

section \<open>Types of values\<close>

datatype kind = KTxt | KNum | KAutosave | KTimer | KPresence | KLogin | KRefresh | KJob | KShot | KBatch | KSpeed

fun kind_of :: "payload \<Rightarrow> kind" where
  "kind_of (Txt _) = KTxt"
| "kind_of (Num _) = KNum"
| "kind_of (AutosaveDoc _ _) = KAutosave"
| "kind_of (TimerDoc _) = KTimer"
| "kind_of (PresenceDoc _) = KPresence"
| "kind_of (LoginDoc _) = KLogin"
| "kind_of (RefreshDoc _) = KRefresh"
| "kind_of (JobDoc _) = KJob"
| "kind_of (ShotDoc _) = KShot"
| "kind_of (BatchDoc _) = KBatch"
| "kind_of (SpeedDoc _) = KSpeed"

text \<open>A hash has named fields; a key outside the families may hold anything.\<close>
datatype shape = Str kind | SetOf | ListOf kind | Fields "(string \<times> kind) list" | StreamOf | ZSetOf | Foreign

fun has_shape :: "shape \<Rightarrow> rvalue \<Rightarrow> bool" where
  "has_shape (Str k) v = (case v of RStr p \<Rightarrow> kind_of p = k | _ \<Rightarrow> False)"
| "has_shape SetOf v = (case v of RSet _ \<Rightarrow> True | _ \<Rightarrow> False)"
| "has_shape (ListOf k) v = (case v of RList l \<Rightarrow> list_all (\<lambda>p. kind_of p = k) l | _ \<Rightarrow> False)"
| "has_shape (Fields fs) v = (case v of RHash h \<Rightarrow> (\<forall>f p. h f = Some p \<longrightarrow> map_of fs f = Some (kind_of p)) | _ \<Rightarrow> False)"
| "has_shape StreamOf v = (case v of RStream _ \<Rightarrow> True | _ \<Rightarrow> False)"
| "has_shape ZSetOf v = (case v of RZSet _ \<Rightarrow> True | _ \<Rightarrow> False)"
| "has_shape Foreign v = True"

section \<open>The key families\<close>

definition stats_fields :: "(string \<times> kind) list" where
  "stats_fields = [(''queued'', KNum), (''active'', KNum), (''completed'', KNum), (''failed'', KNum), (''retrying'', KNum)]"

definition job_hash :: "(string \<times> kind) list" where
  "job_hash = [(''status'', KTxt), (''progress'', KNum), (''attemptId'', KTxt), (''stream'', KTxt), (''streamId'', KTxt),
     (''createdAt'', KNum), (''updatedAt'', KNum), (''attempts'', KNum), (''isPreview'', KNum), (''payload'', KJob), (''group'', KTxt)]"

definition typing_fields :: "(string \<times> kind) list" where
  "typing_fields = [(''totalKeystrokes'', KNum), (''lastActivity'', KNum), (''lastWpm'', KNum), (''lastCpm'', KNum),
     (''sessionDuration'', KNum)]"

definition single_keys :: "(string \<times> shape) list" where
  "single_keys = [(''autosave:dirty'', SetOf), (''grading:stats'', Fields stats_fields), (''grading:queue:paused'', Str KNum),
     (''grading:jobs:high'', StreamOf), (''grading:jobs:low'', StreamOf), (''grading:jobs:dlq'', StreamOf),
     (''grading:jobs:retry'', ZSetOf), (''exam_scheduler:lock'', Str KNum)]"

definition key_families :: "(string \<times> shape) list" where
  "key_families = [(''autosave:'', Str KAutosave), (''timer:'', Str KTimer), (''timer_lock:'', Str KNum),
     (''timer_handled:'', Str KNum), (''grading:lock:'', Str KNum), (''grading:job:'', Fields job_hash),
     (''exam_scheduler:processed:'', Str KNum), (''scheduler:attempt_lock:'', Str KNum), (''screenshots:'', ListOf KShot),
     (''keystroke:batch:'', ListOf KBatch), (''keystroke:speed:'', ListOf KSpeed), (''keystroke:stats:'', Fields typing_fields),
     (''attempt:examId:'', Str KTxt), (''sessions:'', SetOf), (''user_sessions:'', SetOf), (''login_cache:'', Str KTxt),
     (''refresh:'', Str KRefresh), (''revoked:'', Str KNum), (''token_family:'', SetOf)]"

definition shape_of :: "string \<Rightarrow> shape" where
  "shape_of k = (if prefix ''session:'' k then (if CHR '':'' \<in> set (drop 8 k) then Str KPresence else Str KLogin)
     else case map_of single_keys k of Some s \<Rightarrow> s
        | None \<Rightarrow> (case find (\<lambda>x. prefix (fst x) k) key_families of Some x \<Rightarrow> snd x | None \<Rightarrow> Foreign))"

text \<open>No family is a part of another, so the order of the list does not matter.\<close>
lemma families_apart:
  "list_all (\<lambda>x. list_all (\<lambda>y. prefix (fst x) (fst y) \<longrightarrow> x = y) key_families) key_families"
  by code_simp

lemma shape_simps [simp]:
  "shape_of autosave_dirty = SetOf" "aid \<noteq> ''dirty'' \<Longrightarrow> shape_of (autosave_key aid) = Str KAutosave"
  "shape_of (timer_key aid) = Str KTimer" "shape_of (timer_lock_key aid) = Str KNum" "shape_of (timer_handled_key aid) = Str KNum"
  "shape_of stream_high = StreamOf" "shape_of stream_low = StreamOf" "shape_of stats_key = Fields stats_fields"
  "shape_of (job_key j) = Fields job_hash" "shape_of paused_key = Str KNum" "shape_of (grading_lock_key aid) = Str KNum"
  "shape_of scheduler_lock_key = Str KNum" "shape_of (processed_key e t) = Str KNum" "shape_of (attempt_lock_key aid) = Str KNum"
  "shape_of (shots_key aid) = ListOf KShot" "shape_of (exam_shots_key e) = ListOf KShot"
  by (simp_all add: shape_of_def key_simps single_keys_def key_families_def)

lemma shape_more [simp]:
  "shape_of (batch_key aid) = ListOf KBatch" "shape_of (speed_key aid) = ListOf KSpeed"
  "shape_of (keystroke_stats_key aid) = Fields typing_fields" "shape_of (exam_id_cache_key aid) = Str KTxt"
  "shape_of (presence_set aid) = SetOf" "shape_of (presence_key aid sid) = Str KPresence"
  "CHR '':'' \<notin> set sid \<Longrightarrow> shape_of (session_key sid) = Str KLogin" "shape_of (user_sessions_key u) = SetOf"
  "shape_of (login_cache_key m) = Str KTxt" "shape_of (refresh_key t) = Str KRefresh" "shape_of (revoked_key t) = Str KNum"
  "shape_of (family_key f) = SetOf"
  by (simp_all add: shape_of_def key_simps single_keys_def key_families_def batch_key_def speed_key_def keystroke_stats_key_def
      exam_id_cache_key_def presence_set_def presence_key_def)

section \<open>Well-typed keyspaces\<close>

definition typed :: "keyspace \<Rightarrow> bool" where
  "typed ks = (\<forall>k v e. ks k = Some (v, e) \<longrightarrow> has_shape (shape_of k) v)"

lemma typed_live: "typed ks \<Longrightarrow> ks_live now ks k = Some (v, e) \<Longrightarrow> has_shape (shape_of k) v"
  by (auto simp: typed_def ks_live_def split: option.splits if_splits)

lemma typed_upd: "typed ks \<Longrightarrow> has_shape (shape_of k) v \<Longrightarrow> typed (ks(k \<mapsto> (v, e)))"
  by (auto simp: typed_def)

lemma typed_drop: "typed ks \<Longrightarrow> typed (ks(k := None))"
  by (auto simp: typed_def)

lemma typed_empty: "typed Map.empty"
  by (simp add: typed_def)

lemma typed_get: "typed ks \<Longrightarrow> ks_get now ks k = Some p \<Longrightarrow> has_shape (shape_of k) (RStr p)"
  by (auto simp: ks_get_def dest: typed_live split: option.splits prod.splits rvalue.splits)

lemma typed_set [intro]: "typed ks \<Longrightarrow> has_shape (shape_of k) (RStr p) \<Longrightarrow> typed (ks_set now k p ttl ks)"
  by (simp add: ks_set_def typed_upd)

lemma typed_del [intro]: "typed ks \<Longrightarrow> typed (ks_del k ks)"
  by (simp add: ks_del_def typed_drop)

lemma typed_expire [intro]: "typed ks \<Longrightarrow> typed (ks_expire now k s ks)"
  by (auto simp: ks_expire_def dest: typed_live intro: typed_upd split: option.split prod.split)

lemma typed_sadd [intro]: "typed ks \<Longrightarrow> shape_of k = SetOf \<Longrightarrow> typed (ks_sadd now k m ks)"
  by (auto simp: ks_sadd_def intro: typed_upd split: option.split prod.split rvalue.split)

lemma set_like: "has_shape s (RSet A) \<Longrightarrow> has_shape s (RSet B)" by (cases s) auto
lemma stream_like: "has_shape s (RStream A) \<Longrightarrow> has_shape s (RStream B)" by (cases s) auto
lemma zset_like: "has_shape s (RZSet A) \<Longrightarrow> has_shape s (RZSet B)" by (cases s) auto
lemma list_like: "has_shape s (RList l) \<Longrightarrow> set l' \<subseteq> set l \<Longrightarrow> has_shape s (RList l')"
  by (cases s) (auto simp: list_all_iff)

lemma typed_srem [intro]: "typed ks \<Longrightarrow> typed (ks_srem now k m ks)"
  by (auto simp: ks_srem_def dest: typed_live intro: typed_upd typed_drop set_like split: option.split prod.split rvalue.split)

lemma typed_put_list [intro]:
  assumes "typed ks" "shape_of k = ListOf c" "\<And>l. list_all (\<lambda>p. kind_of p = c) l \<Longrightarrow> list_all (\<lambda>p. kind_of p = c) (f l)"
  shows "typed (ks_put_list now k f ks)"
proof (cases "ks_live now ks k")
  case None
  have "list_all (\<lambda>p. kind_of p = c) (f [])" by (rule assms(3)) simp
  then show ?thesis using None assms(1,2) by (auto simp: ks_put_list_def intro: typed_upd typed_drop)
next
  case (Some ve)
  obtain v e where ve: "ve = (v, e)" by force
  have "has_shape (ListOf c) v" using typed_live[OF assms(1) Some[unfolded ve]] assms(2) by simp
  then obtain l where l: "v = RList l" "list_all (\<lambda>p. kind_of p = c) l" by (auto split: rvalue.splits)
  then have "list_all (\<lambda>p. kind_of p = c) (f l)" using assms(3) by blast
  then show ?thesis using Some ve l assms(1,2) by (auto simp: ks_put_list_def intro: typed_upd typed_drop)
qed

lemma typed_put_hash [intro]:
  assumes "typed ks" "shape_of k = Fields F" "\<And>h. has_shape (Fields F) (RHash h) \<Longrightarrow> has_shape (Fields F) (RHash (f h))"
  shows "typed (ks_put_hash now k f ks)"
proof (cases "ks_live now ks k")
  case None
  have "has_shape (Fields F) (RHash (f Map.empty))" by (rule assms(3)) simp
  then show ?thesis using None assms(1,2) by (auto simp: ks_put_hash_def simp del: has_shape.simps intro: typed_upd)
next
  case (Some ve)
  obtain v e where ve: "ve = (v, e)" by force
  have v: "has_shape (Fields F) v" using typed_live[OF assms(1) Some[unfolded ve]] assms(2) by simp
  then obtain h where h: "v = RHash h" by (auto split: rvalue.splits)
  then have "has_shape (Fields F) (RHash (f h))" using v assms(3) by blast
  then show ?thesis using Some ve h assms(1,2) by (auto simp: ks_put_hash_def simp del: has_shape.simps intro: typed_upd)
qed

lemma typed_put_stream [intro]: "typed ks \<Longrightarrow> shape_of k = StreamOf \<Longrightarrow> typed (ks_put_stream now k f ks)"
  by (auto simp: ks_put_stream_def intro: typed_upd split: option.split prod.split rvalue.split)

lemma typed_trim_stream [intro]: "typed ks \<Longrightarrow> typed (ks_trim_stream now k ms ks)"
  by (auto simp: ks_trim_stream_def dest: typed_live intro: typed_upd stream_like split: option.split prod.split rvalue.split)

lemma typed_trim_zset [intro]: "typed ks \<Longrightarrow> typed (ks_trim_zset now k lo hi ks)"
  by (auto simp: ks_trim_zset_def Let_def dest: typed_live intro: typed_upd typed_drop zset_like split: option.split prod.split rvalue.split)

lemma hash_fields:
  assumes "has_shape (Fields F) (RHash h)"
  shows "list_all (\<lambda>(f, p). map_of F f = Some (kind_of p)) fs \<Longrightarrow> has_shape (Fields F) (RHash (h ++ map_of fs))"
    "map_of F f = Some (kind_of p) \<Longrightarrow> has_shape (Fields F) (RHash (hash_setnx f p h))"
    "map_of F f = Some KNum \<Longrightarrow> has_shape (Fields F) (RHash (hash_incr f d h))"
  using assms
  by (auto simp: list_all_iff map_add_Some_iff hash_setnx_def hash_incr_def dest!: map_of_SomeD split: option.split payload.split)

section \<open>Operations\<close>

definition well_typed :: "('w \<Rightarrow> world) \<Rightarrow> 'w \<Rightarrow> bool" where
  "well_typed V w = typed (w_ks (V w))"

named_theorems typing "the operations keep the keyspace well typed"

context services begin

text \<open>The commands, each on a key of its type.\<close>
lemma typed_commands [typing]:
  "well_typed V w \<Longrightarrow> shape_of k = Str (kind_of p) \<Longrightarrow> well_typed V (sv_set S now k p ttl w)"
  "well_typed V w \<Longrightarrow> shape_of k = Str (kind_of p) \<Longrightarrow> well_typed V (snd (sv_setnx S now k p s w))"
  "well_typed V w \<Longrightarrow> well_typed V (sv_del S k w)"
  "well_typed V w \<Longrightarrow> well_typed V (sv_expire S now k s w)"
  "well_typed V w \<Longrightarrow> shape_of k = SetOf \<Longrightarrow> well_typed V (sv_sadd S now k m w)"
  "well_typed V w \<Longrightarrow> well_typed V (sv_srem S now k m w)"
  "well_typed V w \<Longrightarrow> shape_of k = ListOf (kind_of p) \<Longrightarrow> well_typed V (sv_lpush S now k p w)"
  "well_typed V w \<Longrightarrow> shape_of k = ListOf (kind_of p) \<Longrightarrow> well_typed V (sv_rpush S now k p w)"
  by (auto simp: well_typed_def intro!: typed_put_list)

lemma range_subset: "set (redis_range i j l) \<subseteq> set l"
  by (auto simp: redis_range_def Let_def dest!: in_set_takeD in_set_dropD)

lemma typed_commands2 [typing]:
  "well_typed V w \<Longrightarrow> shape_of k = ListOf c \<Longrightarrow> well_typed V (sv_ltrim S now k i j w)"
  "well_typed V w \<Longrightarrow> shape_of k = Fields F \<Longrightarrow> list_all (\<lambda>(f, p). map_of F f = Some (kind_of p)) fs \<Longrightarrow>
     well_typed V (sv_hset S now k fs w)"
  "well_typed V w \<Longrightarrow> shape_of k = Fields F \<Longrightarrow> map_of F f = Some (kind_of p) \<Longrightarrow> well_typed V (sv_hsetnx S now k f p w)"
  "well_typed V w \<Longrightarrow> shape_of k = Fields F \<Longrightarrow> map_of F f = Some KNum \<Longrightarrow> well_typed V (sv_hincrby S now k f d w)"
  "well_typed V w \<Longrightarrow> shape_of k = StreamOf \<Longrightarrow> well_typed V (sv_xgroup S now k w)"
  "well_typed V w \<Longrightarrow> shape_of k = StreamOf \<Longrightarrow> well_typed V (snd (sv_xadd S now k jid aid pv job w))"
  "well_typed V w \<Longrightarrow> well_typed V (sv_xtrim S now k ms w)"
  "well_typed V w \<Longrightarrow> well_typed V (sv_zremrange S now k lo hi w)"
  by (auto simp: well_typed_def list_all_iff simp del: has_shape.simps
      intro!: typed_put_list typed_put_hash hash_fields dest!: subsetD[OF range_subset])

text \<open>The commands on other services do not touch Redis.\<close>
lemma typed_elsewhere [typing]:
  "well_typed V w \<Longrightarrow> well_typed V (sv_emit S room ev w)"
  "well_typed V w \<Longrightarrow> well_typed V (sv_publish S ch msg w)"
  "well_typed V w \<Longrightarrow> (\<And>r. a_id (f r) = a_id r) \<Longrightarrow> well_typed V (update_attempt S k f w)"
  by (simp_all add: well_typed_def)

lemma typed_reads:
  "well_typed V w \<Longrightarrow> sv_get S now k w = Some p \<Longrightarrow> has_shape (shape_of k) (RStr p)"
  by (simp add: well_typed_def typed_get)

text \<open>The components.\<close>
lemma typed_autosave [typing]:
  "well_typed V w \<Longrightarrow> aid \<noteq> ''dirty'' \<Longrightarrow> well_typed V (save_to_buffer S now aid fs w)"
  "well_typed V w \<Longrightarrow> well_typed V (snd (flush_to_database S now aid w))"
  "well_typed V w \<Longrightarrow> well_typed V (clear_buffer S now aid w)"
  by (auto simp: save_to_buffer_def flush_to_database_def clear_buffer_def Let_def
      intro!: typing split: option.split payload.split)

lemma typed_flush_each: "well_typed V w \<Longrightarrow> well_typed V (snd (flush_each S now aids n w))"
  by (induction aids arbitrary: n w) (simp_all add: typed_autosave case_prod_beta)

lemma typed_flush_all [typing]: "well_typed V w \<Longrightarrow> well_typed V (snd (flush_all_dirty S now w))"
  by (simp add: flush_all_dirty_def Let_def typed_flush_each)

lemma typed_streams: "well_typed V (snd st) \<Longrightarrow> well_typed V (snd (ensure_streams_initialized S now st))"
  by (auto simp: ensure_streams_initialized_def case_prod_beta intro!: typing)

lemma typed_stats: "well_typed V (snd st) \<Longrightarrow> well_typed V (snd (ensure_stats_initialized S now st))"
  by (auto simp: ensure_stats_initialized_def case_prod_beta stats_fields_def typed_streams intro!: typing)

lemma typed_add_job [typing]:
  assumes "well_typed V (snd st)" shows "well_typed V (snd (snd (add_grading_job S now uuid job st)))"
proof -
  have stream: "shape_of (if j_isPreview job then stream_low else stream_high) = StreamOf" by simp
  show ?thesis
    unfolding add_grading_job_def
    by (auto simp: Let_def case_prod_beta job_hash_def stats_fields_def stream typed_stats[OF assms] intro!: typing)
qed

lemma typed_queue [typing]:
  "well_typed V w \<Longrightarrow> well_typed V (clean_queue S now grace w)"
  "well_typed V w \<Longrightarrow> well_typed V (pause_queue S now w)"
  "well_typed V w \<Longrightarrow> well_typed V (resume_queue S w)"
  by (auto simp: clean_queue_def pause_queue_def resume_queue_def intro!: typing)

lemma typed_stop [typing]:
  "well_typed V (snd st) \<Longrightarrow> well_typed V (snd (stop_timer S aid st))"
  "well_typed V (snd st) \<Longrightarrow> well_typed V (snd (stop_timer_permanently S now aid st))"
  "well_typed V w \<Longrightarrow> well_typed V (mark_timer_handled S now aid w)"
  "well_typed V w \<Longrightarrow> well_typed V (clear_handled_timer S aid w)"
  by (auto simp: stop_timer_def stop_timer_permanently_def mark_timer_handled_def clear_handled_timer_def case_prod_beta
      intro!: typing)

lemma typed_auto_submit: "well_typed V (snd st) \<Longrightarrow> well_typed V (snd (auto_submit_expired S now uuid aid st))"
  by (auto simp: auto_submit_expired_def Let_def case_prod_beta intro!: typing split: option.split)

lemma typed_handle: "well_typed V (snd st) \<Longrightarrow> well_typed V (snd (handle_timer_expired S now uuid aid st))"
  by (auto simp: handle_timer_expired_def Let_def case_prod_beta intro!: typing typed_auto_submit)

lemma typed_timers [typing]:
  "well_typed V (snd st) \<Longrightarrow> well_typed V (snd (start_timer S now uuid aid t0 limit sched st))"
  "well_typed V (snd st) \<Longrightarrow> well_typed V (snd (timer_tick S now uuid aid st))"
  "well_typed V (snd st) \<Longrightarrow> well_typed V (snd (snd (resume_timer S now uuid aid st)))"
  by (auto simp: start_timer_def timer_tick_def resume_timer_def Let_def case_prod_beta intro!: typing typed_handle split: option.split)

lemma typed_auto_attempt: "well_typed V (snd st) \<Longrightarrow> well_typed V (snd (auto_submit_attempt S now uuid' io a ch st))"
  by (auto simp: auto_submit_attempt_def Let_def case_prod_beta intro!: typing split: option.split)

lemma typed_auto_each: "well_typed V (snd st) \<Longrightarrow> well_typed V (snd (auto_submit_each S now uuid' io ch as st))"
  by (induction as arbitrary: st) (simp_all add: typed_auto_attempt)

lemma typed_expired_exam: "well_typed V (snd st) \<Longrightarrow> well_typed V (snd (process_expired_exam S now uuid' io x st))"
  by (auto simp: process_expired_exam_def case_prod_beta intro!: typing typed_auto_each)

lemma typed_expired_exams: "well_typed V (snd st) \<Longrightarrow> well_typed V (snd (process_expired_exams S now uuid' io xs st))"
  by (induction xs arbitrary: st) (simp_all add: typed_expired_exam)

lemma typed_fallback: "well_typed V (snd st) \<Longrightarrow> well_typed V (snd (fallback_attempt S now uuid' io x st))"
  by (auto simp: fallback_attempt_def case_prod_beta intro!: typing typed_auto_attempt split: option.split)

lemma typed_fallbacks: "well_typed V (snd st) \<Longrightarrow> well_typed V (snd (fallback_attempts S now uuid' io xs st))"
  by (induction xs arbitrary: st) (simp_all add: typed_fallback)

lemma typed_scheduler [typing]:
  "well_typed V (snd st) \<Longrightarrow> well_typed V (snd (run_scheduler_cycle S now pid uuid' io st))"
  "well_typed V (snd st) \<Longrightarrow> well_typed V (snd (snd (process_exam_end S now uuid' io eid st)))"
  by (auto simp: run_scheduler_cycle_def request_warmup_def process_exam_end_def Let_def case_prod_beta
      intro!: typing typed_fallbacks typed_expired_exams typed_auto_each split: option.split)

lemma typed_scheduler_step [typing]:
  "well_typed V (snd st) \<Longrightarrow> well_typed V (snd (snd (scheduler_step S now pid uuid' io (l, st))))"
  by (auto simp: scheduler_step_def request_warmup_def Let_def case_prod_beta
      intro!: typing typed_fallback typed_auto_attempt split: scheduler_at.split list.split)

lemma typed_save_files [typing]:
  "well_typed V w \<Longrightarrow> aid \<noteq> ''dirty'' \<Longrightarrow> well_typed V (snd (save_files S now u aid body w))"
  by (auto simp: save_files_def intro!: typing split: option.split)

lemma typed_run_tests [typing]: "well_typed V (snd st) \<Longrightarrow> well_typed V (snd (snd (run_tests S now uuid u aid st)))"
  by (auto simp: run_tests_def run_tests_locked_def Let_def case_prod_beta intro!: typing split: option.split sum.split)

lemma typed_submit [typing]: "well_typed V (snd st) \<Longrightarrow> well_typed V (snd (snd (submit_attempt S now uuid u aid body st)))"
  by (auto simp: submit_attempt_def Let_def case_prod_beta intro!: typing split: option.split)

lemma typed_push [typing]:
  "well_typed V w \<Longrightarrow> shape_of k = ListOf (kind_of p) \<Longrightarrow> well_typed V (push_front S now k n ttl p w)"
  "well_typed V w \<Longrightarrow> shape_of k = ListOf (kind_of p) \<Longrightarrow> well_typed V (push_back S now k n ttl p w)"
  by (auto simp: push_front_def push_back_def intro!: typing)

lemma typed_screenshot [typing]: "well_typed V w \<Longrightarrow> well_typed V (snd (upload_screenshot S cf sas now u aid file et w))"
  by (auto simp: upload_screenshot_def push_attempt_shot_def push_exam_shot_def Let_def case_prod_beta intro!: typing split: option.split)

lemma typed_typing [typing]:
  "well_typed V w \<Longrightarrow> well_typed V (snd (keystroke_batch_event S now joined b w))"
  "well_typed V w \<Longrightarrow> well_typed V (snd (keystroke_speed_event S now joined d w))"
  by (auto simp: keystroke_batch_event_def keystroke_speed_event_def Let_def typing_fields_def intro!: typing split: option.split)

lemma typed_check_sessions: "well_typed V w \<Longrightarrow> well_typed V (snd (check_sessions S T now aid sid uid xs w))"
proof (induction xs arbitrary: w)
  case (Cons x xs)
  show ?case
  proof (cases "x = sid")
    case False
    let ?data = "sv_get S now (presence_key aid x) w"
    have gone: "well_typed V (snd (check_sessions S T now aid sid uid xs (sv_srem S now (presence_set aid) x w)))"
      "well_typed V (snd (check_sessions S T now aid sid uid xs (sv_del S (presence_key aid x) (sv_srem S now (presence_set aid) x w))))"
      using Cons.prems by (intro Cons.IH typing; assumption)+
    show ?thesis
      by (cases ?data; cases "the ?data") (use False gone Cons in \<open>simp_all add: Let_def del: get\<close>)
  qed (use Cons in simp)
qed simp

lemma typed_presence [typing]:
  "well_typed V w \<Longrightarrow> well_typed V (snd (track_session S T now aid sid uid w))"
  "well_typed V w \<Longrightarrow> well_typed V (remove_session S now aid sid w)"
  "well_typed V w \<Longrightarrow> well_typed V (update_session_activity S T now aid sid w)"
  by (auto simp: track_session_def remove_session_def update_session_activity_def case_prod_beta
      intro!: typing typed_check_sessions split: option.split payload.split bool.split)

lemma typed_count_sessions: "well_typed V w \<Longrightarrow> well_typed V (snd (count_sessions S now aid xs w))"
  by (induction xs arbitrary: w) (auto simp: case_prod_beta intro!: typing)

lemma typed_sessions_of: "well_typed V w \<Longrightarrow> well_typed V (snd (sessions_of S now aid xs w))"
  by (induction xs arbitrary: w) (auto simp: case_prod_beta intro!: typing split: option.split payload.split)

lemma typed_fold: "well_typed V w \<Longrightarrow> (\<And>x w. well_typed V w \<Longrightarrow> well_typed V (f x w)) \<Longrightarrow> well_typed V (fold f xs w)"
  by (induction xs arbitrary: w) simp_all

lemma typed_session_lists [typing]:
  "well_typed V w \<Longrightarrow> well_typed V (snd (get_session_count S now aid w))"
  "well_typed V w \<Longrightarrow> well_typed V (snd (get_sessions_for_attempt S now aid w))"
  "well_typed V w \<Longrightarrow> well_typed V (clear_all_sessions S now aid w)"
  by (auto simp: get_session_count_def get_sessions_for_attempt_def clear_all_sessions_def
      intro!: typing typed_count_sessions typed_sessions_of typed_fold)

text \<open>A login session is rewritten in place: its key has the right type because it was read from there.\<close>
lemma typed_get_session [typing]: "well_typed V w \<Longrightarrow> well_typed V (snd (get_session S now sid w))"
proof (cases "sv_get S now (session_key sid) w")
  case (Some p)
  assume w: "well_typed V w"
  show ?thesis
  proof (cases p)
    case (LoginDoc s)
    have "has_shape (shape_of (session_key sid)) (RStr (LoginDoc s))" using typed_reads[OF w Some] LoginDoc by simp
    then show ?thesis using w Some LoginDoc typed_set[of "w_ks (V w)" "session_key sid"]
      by (cases "shape_of (session_key sid)") (simp_all add: get_session_def Let_def well_typed_def)
  qed (use w Some in \<open>simp_all add: get_session_def del: get\<close>)
qed (simp add: get_session_def del: get)

lemma typed_session_cache [typing]:
  "well_typed V w \<Longrightarrow> CHR '':'' \<notin> set sid \<Longrightarrow> well_typed V (snd (create_session S now sid u agent ip w))"
  "well_typed V w \<Longrightarrow> well_typed V (invalidate_session S now sid w)"
  "well_typed V w \<Longrightarrow> well_typed V (snd (invalidate_all_user_sessions S now uid w))"
  "well_typed V w \<Longrightarrow> well_typed V (snd (get_cached_login S now m w))"
  "well_typed V w \<Longrightarrow> well_typed V (set_cached_login S now m sid' w)"
  "well_typed V w \<Longrightarrow> well_typed V (remove_cached_login S m w)"
  by (auto simp: create_session_def invalidate_session_def invalidate_all_user_sessions_def get_cached_login_def
      set_cached_login_def remove_cached_login_def Let_def case_prod_beta intro!: typing typed_fold split: option.split payload.split)

lemma typed_validate_session [typing]: "well_typed V w \<Longrightarrow> well_typed V (snd (validate_session S now sid hash w))"
  by (auto simp: validate_session_def case_prod_beta intro!: typing split: option.split)

lemma typed_collect: "well_typed V w \<Longrightarrow> well_typed V (snd (collect_sessions S now sids w))"
  by (induction sids arbitrary: w) (auto simp: case_prod_beta intro!: typing)

lemma typed_revoke [typing]:
  "well_typed V w \<Longrightarrow> well_typed V (revoke_token S now tid w)"
  by (auto simp: revoke_token_def intro!: typing)

lemma typed_family [typing]: "well_typed V w \<Longrightarrow> well_typed V (revoke_token_family S now fid w)"
  by (auto simp: revoke_token_family_def intro!: typing typed_fold)

lemma typed_tokens [typing]:
  "well_typed V w \<Longrightarrow> well_typed V (snd (generate_refresh_token E S now tid fid p w))"
  "well_typed V w \<Longrightarrow> well_typed V (snd (rotate_refresh_token E S now newid t w))"
  "well_typed V w \<Longrightarrow> well_typed V (snd (revoke_refresh_token E S now t w))"
  "well_typed V w \<Longrightarrow> well_typed V (revoke_all_user_tokens S now uid w)"
  by (auto simp: generate_refresh_token_def rotate_refresh_token_def revoke_refresh_token_def revoke_all_user_tokens_def
      revoke_if_users_def Let_def case_prod_beta intro!: typing typed_fold split: sum.split option.split payload.split)

lemma typed_tables [typing]:
  "well_typed V w \<Longrightarrow> w_events (V w) (p_id e) = None \<Longrightarrow> well_typed V (t_insert (sv_events S) e w)"
  "well_typed V w \<Longrightarrow> w_attempts (V w) (a_id a) = None \<Longrightarrow> well_typed V (t_insert (sv_attempts S) a w)"
  "well_typed V w \<Longrightarrow> w_users (V w) (u_id u) = None \<Longrightarrow> well_typed V (t_insert (sv_users S) u w)"
  "well_typed V w \<Longrightarrow> (\<And>r. i_id (g r) = i_id r) \<Longrightarrow> well_typed V (update_invitation S k g w)"
  by (simp_all add: well_typed_def table_insert[OF events_ok] table_insert[OF attempts_ok] table_insert[OF users_ok])

lemma typed_counters: "well_typed V w \<Longrightarrow> well_typed V (snd (update_integrity_counters S aid et d w))"
  by (auto simp: update_integrity_counters_def intro!: typing split: option.split)

lemma typed_insert_event: "well_typed V w \<Longrightarrow> w_events (V w) newid = None \<Longrightarrow>
    well_typed V (snd (insert_event S now newid aid et d n m w))"
  by (auto simp: insert_event_def intro!: typing split: option.split)

lemma typed_events [typing]:
  assumes "well_typed V w" "w_events (V w) newid = None"
  shows "well_typed V (snd (log_event S now newid u body w))"
    "well_typed V (snd (log_proctor_event S now newid u d w))"
proof -
  note ins = typed_insert_event[OF assms]
  show "well_typed V (snd (log_event S now newid u body w))"
    unfolding log_event_def
    by (auto simp: case_prod_beta intro!: assms ins typed_counters split: option.split sum.split)
  show "well_typed V (snd (log_proctor_event S now newid u d w))"
    unfolding log_proctor_event_def
    by (auto simp: Let_def case_prod_beta intro!: typing assms ins typed_counters split: option.split sum.split)
qed

lemma typed_start [typing]:
  "well_typed V w \<Longrightarrow> w_attempts (V w) newid = None \<Longrightarrow> well_typed V (snd (start_attempt S now newid u eid w))"
  by (auto simp: start_attempt_def Let_def new_attempt_def intro!: typing split: option.split)

lemma typed_accept [typing]:
  "well_typed V w \<Longrightarrow> w_attempts (V w) newid = None \<Longrightarrow> well_typed V (snd (accept_invitation S req now newid u token w))"
  by (auto simp: accept_invitation_def Let_def new_attempt_def intro!: typing split: option.split)

lemma typed_results [typing]: "well_typed V w \<Longrightarrow> well_typed V (update_attempt S aid (result_row now r preview) w)"
  by (simp add: well_typed_def)

lemma typed_issue: "well_typed V w \<Longrightarrow> well_typed V (snd (issue_tokens E S secret now fr u sid msg w))"
  by (auto simp: issue_tokens_def case_prod_beta intro!: typing split: sum.split)

lemma typed_register [typing]: "well_typed V w \<Longrightarrow> w_users (V w) (fr_userId fr) = None \<Longrightarrow>
    well_typed V (snd (register E S secret is_email now fr body w))"
  unfolding register_def
  by (auto simp: Let_def intro!: typing typed_issue split: option.split sum.split)

lemma typed_login [typing]:
  assumes "well_typed V w" "CHR '':'' \<notin> set (fr_sessionId fr)"
  shows "well_typed V (snd (login E S secret is_email now fr agent ip body w))"
  unfolding login_def using assms
  by (auto simp: case_prod_beta create_session_def Let_def intro!: typing typed_issue split: option.split sum.split)

lemma typed_sign_out [typing]:
  "well_typed V w \<Longrightarrow> well_typed V (snd (refresh E S now newid token w))"
  "well_typed V w \<Longrightarrow> well_typed V (snd (logout E S now token email w))"
  "well_typed V w \<Longrightarrow> well_typed V (snd (logout_all S now p w))"
  by (auto simp: refresh_def logout_def logout_all_def evict_user_sockets_def Let_def case_prod_beta
      intro!: typing split: option.split sum.split)

lemma typed_join [typing]:
  "well_typed V (snd (snd st)) \<Longrightarrow> well_typed V (snd (snd (snd (attempt_join S T now uuid sid k aid st))))"
  by (auto simp: attempt_join_def Let_def case_prod_beta intro!: typing split: option.split bool.split)

lemma typed_code [typing]:
  "well_typed V w \<Longrightarrow> aid \<noteq> ''dirty'' \<Longrightarrow> well_typed V (snd (code_save S T now sid k aid fs w))"
  "well_typed V w \<Longrightarrow> well_typed V (snd (code_flush S now k aid w))"
  "well_typed V w \<Longrightarrow> well_typed V (handle_grading_complete S aid r preview w)"
  by (auto simp: code_save_def code_flush_def handle_grading_complete_def Let_def intro!: typing)

lemma typed_leave [typing]:
  "well_typed V w \<Longrightarrow> well_typed V (snd (attempt_leave S now sid aid (srv, w)))"
  by (auto simp: attempt_leave_def intro!: typing)

lemma events_remove_session [simp]: "w_events (V (remove_session S now aid sid w)) = w_events (V w)"
  by (simp add: remove_session_def)

lemma typed_disconnect [typing]:
  "well_typed V w \<Longrightarrow> w_events (V w) (fresh sid) = None \<Longrightarrow> well_typed V (snd (on_disconnect S now fresh sid (srv, w)))"
  by (auto simp: on_disconnect_def intro!: typing split: option.split)

end

section \<open>The server\<close>

text \<open>Every operation of the server that uses Redis, the tables or both, by whomever and at any time. New rows
  have unused ids, a session id is hexadecimal and no attempt is called dirty. Timers fire and resume on
  the instance, requests and socket events arrive in any order. What the grader
  writes to the job hashes and streams is not among the steps.\<close>
inductive redis_step :: "'w services \<Rightarrow> ('w \<Rightarrow> world) \<Rightarrow> 'w hub \<Rightarrow> 'w hub \<Rightarrow> bool" for S V where
  sr_start: "w_attempts (V w) newid = None \<Longrightarrow> redis_step S V (srv, n, w) (srv, n, snd (start_attempt S now newid u eid w))"
| sr_accept: "w_attempts (V w) newid = None \<Longrightarrow> redis_step S V (srv, n, w) (srv, n, snd (accept_invitation S req now newid u token w))"
| sr_save: "aid \<noteq> ''dirty'' \<Longrightarrow> redis_step S V (srv, n, w) (srv, n, snd (save_files S now u aid fs w))"
| sr_run_tests: "redis_step S V (srv, st) (srv, snd (run_tests S now uuid u aid st))"
| sr_submit: "redis_step S V (srv, st) (srv, snd (submit_attempt S now uuid u aid body st))"
| sr_screenshot: "redis_step S V (srv, n, w) (srv, n, snd (upload_screenshot S cf sas now u aid file et w))"
| sr_event: "w_events (V w) newid = None \<Longrightarrow> redis_step S V (srv, n, w) (srv, n, snd (log_event S now newid u pb w))"
| sr_register: "w_users (V w) (fr_userId fr) = None \<Longrightarrow>
    redis_step S V (srv, n, w) (srv, n, snd (register E S secret is_email now fr rb w))"
| sr_login: "CHR '':'' \<notin> set (fr_sessionId fr) \<Longrightarrow>
    redis_step S V (srv, n, w) (srv, n, snd (login E S secret is_email now fr agent ip lb w))"
| sr_refresh: "redis_step S V (srv, n, w) (srv, n, snd (refresh E S now newid rt w))"
| sr_logout: "redis_step S V (srv, n, w) (srv, n, snd (logout E S now rt email w))"
| sr_logout_all: "redis_step S V (srv, n, w) (srv, n, snd (logout_all S now p w))"
| sr_session: "redis_step S V (srv, n, w) (srv, n, snd (validate_session S now sid hash w))"
| sr_connect: "redis_step S V (srv, n, w) (snd (connect S secret now sid rt srv), n, w)"
| sr_disconnect: "w_events (V w) (fresh sid) = None \<Longrightarrow>
    redis_step S V (srv, n, w) (fst (on_disconnect S now fresh sid (srv, w)), n, snd (on_disconnect S now fresh sid (srv, w)))"
| sr_join: "redis_step S V st (snd (attempt_join S T now uuid sid k aid st))"
| sr_leave: "redis_step S V (srv, n, w) (fst (attempt_leave S now sid aid (srv, w)), n, snd (attempt_leave S now sid aid (srv, w)))"
| sr_code_save: "aid \<noteq> ''dirty'' \<Longrightarrow> redis_step S V (srv, n, w) (srv, n, snd (code_save S T now sid k aid files w))"
| sr_code_flush: "redis_step S V (srv, n, w) (srv, n, snd (code_flush S now k aid w))"
| sr_socket_event: "w_events (V w) newid = None \<Longrightarrow> redis_step S V (srv, n, w) (srv, n, snd (log_proctor_event S now newid u ed w))"
| sr_typing: "redis_step S V (srv, n, w) (srv, n, snd (keystroke_batch_event S now joined bd w))"
| sr_speed: "redis_step S V (srv, n, w) (srv, n, snd (keystroke_speed_event S now joined sd w))"
| sr_sessions: "redis_step S V (srv, n, w) (srv, n, snd (get_sessions_for_attempt S now aid w))"
| sr_graded: "redis_step S V (srv, n, w) (srv, n, handle_grading_complete S aid r preview w)"
| sr_result: "redis_step S V (srv, n, w) (srv, n, update_attempt S aid (result_row now r preview) w)"
| sr_tick: "redis_step S V (srv, st) (srv, timer_tick S now uuid aid st)"
| sr_resume: "redis_step S V (srv, st) (srv, snd (resume_timer S now uuid aid st))"
| sr_flush: "redis_step S V (srv, n, w) (srv, n, snd (flush_all_dirty S now w))"
| sr_scheduler: "redis_step S V (srv, st) (srv, snd (scheduler_step S now pid uuid' io (l, st)))"
| sr_cycle: "redis_step S V (srv, st) (srv, run_scheduler_cycle S now pid uuid' io st)"
| sr_exam_end: "redis_step S V (srv, st) (srv, snd (process_exam_end S now uuid' io eid st))"
| sr_clean: "redis_step S V (srv, n, w) (srv, n, clean_queue S now grace w)"
| sr_pause: "redis_step S V (srv, n, w) (srv, n, pause_queue S now w)"
| sr_unpause: "redis_step S V (srv, n, w) (srv, n, resume_queue S w)"

context services begin

lemma redis_step_typed:
  assumes "redis_step S V st st'" "well_typed V (snd (snd st))" shows "well_typed V (snd (snd st'))"
  using assms by cases (simp_all add: typing)

lemma redis_run_typed:
  assumes "(redis_step S V)\<^sup>*\<^sup>* st st'" "well_typed V (snd (snd st))" shows "well_typed V (snd (snd st'))"
  using assms by (induction rule: rtranclp_induct) (auto dest: redis_step_typed)

end

text \<open>What a command and a reader find.\<close>
lemma typed_find:
  assumes "typed ks"
  shows "shape_of k = SetOf \<Longrightarrow> set_key now ks k" "shape_of k = ListOf c \<Longrightarrow> list_key now ks k"
    "shape_of k = StreamOf \<Longrightarrow> stream_key now ks k"
    "shape_of k = Str c \<Longrightarrow> ks_get now ks k = Some p \<Longrightarrow> kind_of p = c"
    "shape_of k = Str c \<Longrightarrow> ks_exists now ks k \<Longrightarrow> \<exists>p. ks_get now ks k = Some p"
    "shape_of k = ListOf c \<Longrightarrow> p \<in> set (ks_list now ks k) \<Longrightarrow> kind_of p = c"
proof -
  consider "ks_live now ks k = None" | v e where "ks_live now ks k = Some (v, e)" "has_shape (shape_of k) v"
    using typed_live[OF assms] by (cases "ks_live now ks k") auto
  note live = this
  show "shape_of k = SetOf \<Longrightarrow> set_key now ks k" "shape_of k = ListOf c \<Longrightarrow> list_key now ks k"
    "shape_of k = StreamOf \<Longrightarrow> stream_key now ks k"
    by (cases rule: live; auto simp: set_key_def list_key_def stream_key_def split: rvalue.splits)+
  show "shape_of k = Str c \<Longrightarrow> ks_get now ks k = Some p \<Longrightarrow> kind_of p = c"
    "shape_of k = Str c \<Longrightarrow> ks_exists now ks k \<Longrightarrow> \<exists>p. ks_get now ks k = Some p"
    by (cases rule: live; auto simp: ks_get_def ks_exists_def split: rvalue.splits)+
  show "shape_of k = ListOf c \<Longrightarrow> p \<in> set (ks_list now ks k) \<Longrightarrow> kind_of p = c"
    by (cases rule: live; auto simp: ks_list_def list_all_iff split: rvalue.splits)
qed

lemma kind_of_docs [simp]:
  "kind_of p = KTimer \<longleftrightarrow> (\<exists>m. p = TimerDoc m)" "kind_of p = KPresence \<longleftrightarrow> (\<exists>s. p = PresenceDoc s)"
  "kind_of p = KLogin \<longleftrightarrow> (\<exists>s. p = LoginDoc s)" "kind_of p = KRefresh \<longleftrightarrow> (\<exists>d. p = RefreshDoc d)"
  "kind_of p = KAutosave \<longleftrightarrow> (\<exists>fs t. p = AutosaveDoc fs t)" "kind_of p = KShot \<longleftrightarrow> (\<exists>s. p = ShotDoc s)"
  by (cases p; simp)+

text \<open>C13: The keys of Redis are well typed: whatever requests, socket events, timers, flushes and scheduler cycles run, in
  whatever order and at whatever times, every key keeps the type of its family. So no command ever
  fails on a key that holds a value of another type, and whatever a handler reads under a key of its own is a document that
  it can parse: buffered files, timers, presences, login sessions and refresh tokens are each found
  under their own keys only.\<close>
theorem redis_keys_typed:
  assumes "services S V" "(redis_step S V)\<^sup>*\<^sup>* (srv, n, w) (srv', n', w')" "well_typed V w"
  shows "well_typed V w'
    \<and> set_key now (w_ks (V w')) autosave_dirty \<and> set_key now (w_ks (V w')) (presence_set aid)
    \<and> set_key now (w_ks (V w')) (user_sessions_key uid) \<and> set_key now (w_ks (V w')) (family_key fid)
    \<and> stream_key now (w_ks (V w')) stream_high \<and> list_key now (w_ks (V w')) (shots_key aid)
    \<and> (aid \<noteq> ''dirty'' \<longrightarrow> sv_get S now (autosave_key aid) w' = Some p \<longrightarrow> (\<exists>fs t. p = AutosaveDoc fs t))
    \<and> (sv_get S now (timer_key aid) w' = Some p \<longrightarrow> (\<exists>m. p = TimerDoc m))
    \<and> (sv_get S now (presence_key aid sid) w' = Some p \<longrightarrow> (\<exists>s. p = PresenceDoc s))
    \<and> (CHR '':'' \<notin> set sid \<longrightarrow> sv_get S now (session_key sid) w' = Some p \<longrightarrow> (\<exists>s. p = LoginDoc s))
    \<and> (sv_get S now (refresh_key tid) w' = Some p \<longrightarrow> (\<exists>d. p = RefreshDoc d))"
proof -
  have w': "well_typed V w'" using services.redis_run_typed[OF assms(1,2)] assms(3) by simp
  note find = typed_find[OF w'[unfolded well_typed_def]]
  have get: "sv_get S now k w' = ks_get now (w_ks (V w')) k" for k by (rule services.get[OF assms(1)])
  have doc: "shape_of k = Str c \<Longrightarrow> sv_get S now k w' = Some p \<Longrightarrow> kind_of p = c" for k c
    unfolding get by (rule find(4))
  show ?thesis
    using w' doc[of "autosave_key aid" KAutosave] doc[of "timer_key aid" KTimer] doc[of "presence_key aid sid" KPresence]
      doc[of "session_key sid" KLogin] doc[of "refresh_key tid" KRefresh]
    by (simp add: find(1) find(2)[of _ KShot] find(3))
qed

theorem redis_keys_typed_witness:
  "set_key 5000 (w_ks (ref_view (save_to_buffer ref_services 1000 ''a1'' [] demo_world))) autosave_dirty"
proof -
  let ?w = "snd (save_files ref_services 1000 demo_candidate ''a1'' (Some []) demo_world)"
  have t: "well_typed ref_view demo_world" by (simp add: well_typed_def typed_empty)
  have "(redis_step ref_services ref_view)\<^sup>*\<^sup>* (srv, n, demo_world) (srv, n, ?w)" for srv :: socket_server and n
    by (rule r_into_rtranclp) (rule sr_save, simp)
  from redis_keys_typed[OF ref.services_axioms this t, of 5000]
  have "set_key 5000 (w_ks (ref_view ?w)) autosave_dirty" by blast
  moreover have "?w = save_to_buffer ref_services 1000 ''a1'' [] demo_world"
    by (simp add: save_files_def)
  ultimately show ?thesis by simp
qed

end
