(* ===== verification/Editor_Files.thy ===== *)
theory Editor_Files
  imports Prelude "HOL-Library.Multiset"
begin

text \<open>
  The files in the editor of the exam page (\<^verbatim>\<open>apps/web/src/app/exam/[id]/page.tsx\<close>): the tree
  of folders built from their paths, and the open tabs. A node is found among its siblings by its name, which is
  its key in the maps of the code. \<^verbatim>\<open>name.localeCompare\<close> is the parameter \<^verbatim>\<open>le\<close>. The names that every
  JavaScript object inherits are taken for existing nodes by the code: such a file is skipped.
  (A folder named \<^verbatim>\<open>__proto__\<close> even leaks its children into other folders, which is not represented.)
\<close>

section \<open>The tree\<close>

datatype tree_node = TreeNode (tn_name: string) (tn_path: string) (tn_folder: bool) (tn_children: "tree_node list")

definition inherited_names :: "string list" where
  "inherited_names = [''constructor'', ''hasOwnProperty'', ''isPrototypeOf'', ''propertyIsEnumerable'', ''toLocaleString'',
     ''toString'', ''valueOf'', ''__defineGetter__'', ''__defineSetter__'', ''__lookupGetter__'', ''__lookupSetter__'', ''__proto__'']"

definition put_node :: "tree_node \<Rightarrow> tree_node list \<Rightarrow> tree_node list" where
  "put_node n ns = (if tn_name n \<in> tn_name ` set ns then map (\<lambda>m. if tn_name m = tn_name n then n else m) ns else ns @ [n])"

text \<open>One path, segment by segment; \<^verbatim>\<open>pre\<close> are the segments passed.\<close>
fun add_path :: "string list \<Rightarrow> string list \<Rightarrow> tree_node list \<Rightarrow> tree_node list" where
  "add_path pre [] ns = ns"
| "add_path pre (p # ps) ns =
    (if p \<notin> tn_name ` set ns \<and> p \<in> set inherited_names then ns
     else (let node = or_default (find (\<lambda>n. tn_name n = p) ns) (TreeNode p (str_join ''/'' (pre @ [p])) (ps \<noteq> []) [])
       in put_node (if ps = [] then node
            else TreeNode (tn_name node) (tn_path node) (tn_folder node) (add_path (pre @ [p]) ps (tn_children node))) ns))"

definition segments :: "string \<Rightarrow> string list" where "segments path = str_split CHR ''/'' path"

definition path_trie :: "string list \<Rightarrow> tree_node list" where
  "path_trie paths = fold (\<lambda>path. add_path [] (segments path)) (sort paths) []"

text \<open>Folders first, then by name.\<close>
definition node_le :: "(string \<Rightarrow> string \<Rightarrow> bool) \<Rightarrow> tree_node \<Rightarrow> tree_node \<Rightarrow> bool" where
  "node_le le a b = (if tn_folder a \<noteq> tn_folder b then tn_folder a else le (tn_name a) (tn_name b))"

fun insert_node :: "(string \<Rightarrow> string \<Rightarrow> bool) \<Rightarrow> tree_node \<Rightarrow> tree_node list \<Rightarrow> tree_node list" where
  "insert_node le n [] = [n]"
| "insert_node le n (m # ms) = (if node_le le n m then n # m # ms else m # insert_node le n ms)"

definition sort_nodes :: "(string \<Rightarrow> string \<Rightarrow> bool) \<Rightarrow> tree_node list \<Rightarrow> tree_node list" where
  "sort_nodes le ns = foldr (insert_node le) ns []"

fun sorted_node :: "(string \<Rightarrow> string \<Rightarrow> bool) \<Rightarrow> tree_node \<Rightarrow> tree_node" where
  "sorted_node le (TreeNode n p f ns) = TreeNode n p f (sort_nodes le (map (sorted_node le) ns))"

definition build_nested_tree :: "(string \<Rightarrow> string \<Rightarrow> bool) \<Rightarrow> files \<Rightarrow> tree_node list" where
  "build_nested_tree le fs = sort_nodes le (map (sorted_node le) (path_trie (map fst fs)))"

text \<open>The rows of files when every folder is expanded: a row that is no folder shows no children.\<close>
fun file_rows :: "tree_node \<Rightarrow> string list" where
  "file_rows (TreeNode n p f ns) = (if f then concat (map file_rows ns) else [p])"

definition all_file_rows :: "tree_node list \<Rightarrow> string list" where
  "all_file_rows ns = concat (map file_rows ns)"

section \<open>What the tree shows\<close>

text \<open>The way to a row, and the shape of a tree in construction: siblings have different names, a folder has a row in it and a
  node knows its path.\<close>
fun ways :: "tree_node \<Rightarrow> string list list" where
  "ways (TreeNode n p f ns) = (if f then map (Cons n) (concat (map ways ns)) else [[n]])"

definition all_ways :: "tree_node list \<Rightarrow> string list list" where
  "all_ways ns = concat (map ways ns)"

fun tree_ok :: "string list \<Rightarrow> tree_node \<Rightarrow> bool" where
  "tree_ok pre (TreeNode n p f ns) = (p = str_join ''/'' (pre @ [n]) \<and> (f \<longrightarrow> concat (map ways ns) \<noteq> [] \<and>
     distinct (map tn_name ns) \<and> (\<forall>m\<in>set ns. tree_ok (pre @ [n]) m)))"

definition forest_ok :: "string list \<Rightarrow> tree_node list \<Rightarrow> bool" where
  "forest_ok pre ns = (distinct (map tn_name ns) \<and> (\<forall>m\<in>set ns. tree_ok pre m))"

lemma ways_name: "w \<in> set (ways n) \<Longrightarrow> \<exists>ps. w = tn_name n # ps"
  by (cases n) (auto split: if_splits)

lemma tree_ok_node: "tree_ok pre n \<longleftrightarrow> tn_path n = str_join ''/'' (pre @ [tn_name n]) \<and>
    (tn_folder n \<longrightarrow> all_ways (tn_children n) \<noteq> [] \<and> forest_ok (pre @ [tn_name n]) (tn_children n))"
  by (cases n) (auto simp: forest_ok_def all_ways_def)

lemma ways_node: "ways n = (if tn_folder n then map (Cons (tn_name n)) (all_ways (tn_children n)) else [[tn_name n]])"
  by (cases n) (simp add: all_ways_def)

lemma all_ways_set: "set (all_ways ns) = (\<Union>n\<in>set ns. set (ways n))"
  by (simp add: all_ways_def)

lemma all_ways_Cons_iff:
  assumes "distinct (map tn_name ns)" "find (\<lambda>n. tn_name n = p) ns = Some n"
  shows "p # q \<in> set (all_ways ns) \<longleftrightarrow> p # q \<in> set (ways n)"
proof -
  have n: "n \<in> set ns" "tn_name n = p" using assms(2) by (auto simp: find_Some_iff)
  have "m = n" if "m \<in> set ns" "p # q \<in> set (ways m)" for m
    using ways_name[OF that(2)] n that(1) assms(1) by (auto simp: distinct_map inj_on_def)
  then show ?thesis using n(1) by (auto simp: all_ways_set)
qed

lemma all_ways_new: "p \<notin> tn_name ` set ns \<Longrightarrow> p # q \<notin> set (all_ways ns)"
  by (auto simp: all_ways_set dest: ways_name)

lemma all_ways_nonempty: "w \<in> set (all_ways ns) \<Longrightarrow> w \<noteq> []"
  by (auto simp: all_ways_set dest: ways_name)

lemma ways_hd: "w \<in> set (ways m) \<Longrightarrow> hd w = tn_name m"
  using ways_name by fastforce

lemma put_ways:
  assumes "distinct (map tn_name ns)"
  shows "set (all_ways (put_node n ns)) = set (ways n) \<union> {w \<in> set (all_ways ns). hd w \<noteq> tn_name n}"
proof -
  have rest: "{w \<in> set (all_ways ns). hd w \<noteq> tn_name n} = (\<Union>m\<in>{m \<in> set ns. tn_name m \<noteq> tn_name n}. set (ways m))"
    using ways_hd by (force simp: all_ways_set)
  have "set (put_node n ns) = insert n {m \<in> set ns. tn_name m \<noteq> tn_name n}"
    by (auto simp: put_node_def image_iff)
  then show ?thesis unfolding rest by (simp add: all_ways_set)
qed

lemma put_ok:
  assumes "forest_ok pre ns" "tree_ok pre n" shows "forest_ok pre (put_node n ns)"
proof -
  have "map tn_name (map (\<lambda>m. if tn_name m = tn_name n then n else m) ns) = map tn_name ns" by simp
  then show ?thesis using assms unfolding forest_ok_def put_node_def by (auto simp del: map_map)
qed

lemma put_same:
  assumes "distinct (map tn_name ns)" "n \<in> set ns" shows "put_node n ns = ns"
proof -
  have "(if tn_name m = tn_name n then n else m) = m" if "m \<in> set ns" for m
    using assms that by (auto simp: distinct_map inj_on_def)
  then show ?thesis using assms(2) by (simp add: put_node_def map_idI)
qed

lemma split_hd:
  assumes "\<And>q. p # q \<in> X \<longleftrightarrow> q \<in> Y" "[] \<notin> X" shows "X = Cons p ` Y \<union> {w \<in> X. hd w \<noteq> p}"
proof (intro equalityI subsetI)
  fix w assume w: "w \<in> X"
  then obtain r q where "w = r # q" using assms(2) by (cases w) auto
  then show "w \<in> Cons p ` Y \<union> {w \<in> X. hd w \<noteq> p}" using w assms(1) by (cases "r = p") auto
qed (use assms(1) in auto)

lemma strict_prefix_Cons: "strict_prefix w (p # ps) \<longleftrightarrow> w = [] \<or> (\<exists>q. w = p # q \<and> strict_prefix q ps)"
  by (cases w) (auto simp: strict_prefix_def)

text \<open>A path is added unless a row is on its way.\<close>
definition adds :: "string list \<Rightarrow> string list \<Rightarrow> tree_node list \<Rightarrow> tree_node list \<Rightarrow> bool" where
  "adds pre xs ns ns' = (forest_ok pre ns' \<and> set (all_ways ns') =
    (if \<exists>w\<in>set (all_ways ns). strict_prefix w xs then set (all_ways ns) else insert xs (set (all_ways ns))))"

lemma add_path_new:
  assumes "forest_ok pre ns" "p \<notin> tn_name ` set ns" "p \<notin> set inherited_names"
    "ps \<noteq> [] \<Longrightarrow> adds (pre @ [p]) ps [] (add_path (pre @ [p]) ps [])"
  shows "adds pre (p # ps) ns (add_path pre (p # ps) ns)"
proof -
  have d: "distinct (map tn_name ns)" using assms(1) by (simp add: forest_ok_def)
  have apart: "\<not> strict_prefix w (p # ps)" "hd w \<noteq> p" if mem: "w \<in> set (all_ways ns)" for w
  proof -
    obtain r q where w: "w = r # q" using all_ways_nonempty[OF mem] by (cases w) auto
    then have "r \<noteq> p" using mem all_ways_new[OF assms(2)] by blast
    then show "\<not> strict_prefix w (p # ps)" "hd w \<noteq> p" using w by (simp_all add: strict_prefix_Cons)
  qed
  define kids where "kids = add_path (pre @ [p]) ps []"
  have kids: "forest_ok (pre @ [p]) kids" "set (all_ways kids) = (if ps = [] then {} else {ps})"
    using assms(4) unfolding kids_def by (cases "ps = []"; simp add: adds_def forest_ok_def all_ways_def)+
  define n where "n = TreeNode p (str_join ''/'' (pre @ [p])) (ps \<noteq> []) kids"
  have n: "tree_ok pre n" "set (ways n) = {p # ps}"
    using kids by (auto simp: n_def tree_ok_node ways_node)
  have "find (\<lambda>n. tn_name n = p) ns = None" using assms(2) by (auto simp: find_None_iff)
  then have e: "add_path pre (p # ps) ns = put_node n ns" by (simp add: assms(3) n_def kids_def Let_def)
  show ?thesis
    unfolding e adds_def put_ways[OF d] using put_ok[OF assms(1) n(1)] n apart by (auto simp: n_def)
qed

lemma add_path_row:
  assumes "forest_ok pre ns" "find (\<lambda>n. tn_name n = p) ns = Some n" "\<not> tn_folder n" "p \<notin> set inherited_names"
  shows "adds pre (p # ps) ns (add_path pre (p # ps) ns)"
proof -
  have d: "distinct (map tn_name ns)" using assms(1) by (simp add: forest_ok_def)
  have n: "n \<in> set ns" "tn_name n = p" using assms(2) by (auto simp: find_Some_iff)
  have ok: "tree_ok pre n" using assms(1) n(1) by (simp add: forest_ok_def)
  have only: "p # q \<in> set (all_ways ns) \<longleftrightarrow> q \<in> {[]}" for q
    unfolding all_ways_Cons_iff[OF d assms(2)] by (auto simp: ways_node assms(3) n(2))
  show ?thesis
  proof (cases "ps = []")
    case True
    have "add_path pre (p # ps) ns = ns" using put_same[OF d n(1)] True by (simp add: assms)
    then show ?thesis using only[of "[]"] True assms(1) by (auto simp: adds_def strict_prefix_def insert_absorb)
  next
    case False
    define n' where "n' = TreeNode p (tn_path n) False (add_path (pre @ [p]) ps (tn_children n))"
    have n': "tree_ok pre n'" "set (ways n') = {[p]}" using ok n(2) by (auto simp: n'_def tree_ok_node ways_node)
    have e: "add_path pre (p # ps) ns = put_node n' ns" using n False by (simp add: assms n'_def)
    have "set (all_ways ns) = Cons p ` {[]} \<union> {w \<in> set (all_ways ns). hd w \<noteq> p}"
      by (rule split_hd[OF only]) (use all_ways_nonempty in blast)
    moreover have "strict_prefix [p] (p # ps)" using False by (simp add: strict_prefix_def)
    ultimately show ?thesis
      unfolding e adds_def put_ways[OF d] n'(2) using put_ok[OF assms(1) n'(1)] only[of "[]"] by (auto simp: n'_def)
  qed
qed

lemma add_path_folder:
  assumes ok: "forest_ok pre ns" and f: "find (\<lambda>n. tn_name n = p) ns = Some n" "tn_folder n" "p \<notin> set inherited_names"
    and ps: "ps \<noteq> []" "adds (pre @ [p]) ps (tn_children n) (add_path (pre @ [p]) ps (tn_children n))"
  shows "adds pre (p # ps) ns (add_path pre (p # ps) ns)"
proof -
  have d: "distinct (map tn_name ns)" using ok by (simp add: forest_ok_def)
  have n: "n \<in> set ns" "tn_name n = p" using f(1) by (auto simp: find_Some_iff)
  have "tree_ok pre n" using ok n(1) by (simp add: forest_ok_def)
  then have path: "tn_path n = str_join ''/'' (pre @ [p])" and kids: "all_ways (tn_children n) \<noteq> []" using f(2) n(2) by (auto simp: tree_ok_node)
  have sub: "p # q \<in> set (all_ways ns) \<longleftrightarrow> q \<in> set (all_ways (tn_children n))" for q
    unfolding all_ways_Cons_iff[OF d f(1)] by (auto simp: ways_node f(2) n(2))
  define kids' where "kids' = add_path (pre @ [p]) ps (tn_children n)"
  define n' where "n' = TreeNode p (tn_path n) True kids'"
  note k = ps(2)[folded kids'_def, unfolded adds_def]
  have "all_ways kids' \<noteq> []" using k kids by (auto split: if_splits)
  then have n': "tree_ok pre n'" "set (ways n') = Cons p ` set (all_ways kids')" using k path by (auto simp: n'_def tree_ok_node ways_node)
  have e: "add_path pre (p # ps) ns = put_node n' ns" using n ps(1) f by (auto simp: n'_def kids'_def Let_def)
  have old: "set (all_ways ns) = Cons p ` set (all_ways (tn_children n)) \<union> {w \<in> set (all_ways ns). hd w \<noteq> p}"
    by (rule split_hd[OF sub]) (use all_ways_nonempty in blast)
  have below: "(\<exists>w\<in>set (all_ways ns). strict_prefix w (p # ps)) \<longleftrightarrow> (\<exists>w\<in>set (all_ways (tn_children n)). strict_prefix w ps)"
    unfolding strict_prefix_Cons using sub all_ways_nonempty by blast
  have "set (all_ways (put_node n' ns)) = Cons p ` set (all_ways kids') \<union> {w \<in> set (all_ways ns). hd w \<noteq> p}"
    unfolding put_ways[OF d] n'(2) by (simp add: n'_def)
  then show ?thesis unfolding e adds_def below using put_ok[OF ok n'(1)] old k by auto
qed

lemma add_path_adds:
  assumes "forest_ok pre ns" "xs \<noteq> []" "\<forall>w\<in>set (all_ways ns). \<not> strict_prefix xs w" "set xs \<inter> set inherited_names = {}"
  shows "adds pre xs ns (add_path pre xs ns)"
  using assms
proof (induction xs arbitrary: pre ns)
  case (Cons p ps)
  have own: "p \<notin> set inherited_names" "set ps \<inter> set inherited_names = {}" using Cons.prems(4) by auto
  show ?case
  proof (cases "find (\<lambda>n. tn_name n = p) ns")
    case None
    have "ps \<noteq> [] \<Longrightarrow> adds (pre @ [p]) ps [] (add_path (pre @ [p]) ps [])"
      by (rule Cons.IH) (simp_all add: own forest_ok_def all_ways_def)
    then show ?thesis using None by (intro add_path_new) (auto simp: own Cons.prems(1) find_None_iff)
  next
    case (Some n)
    show ?thesis
    proof (cases "tn_folder n")
      case True
      have n: "n \<in> set ns" "tn_name n = p" using Some by (auto simp: find_Some_iff)
      have "tree_ok pre n" using Cons.prems(1) n(1) by (simp add: forest_ok_def)
      then have kids: "forest_ok (pre @ [p]) (tn_children n)" "all_ways (tn_children n) \<noteq> []"
        using n(2) True unfolding tree_ok_node by simp_all
      have in_n: "p # q \<in> set (all_ways ns)" if "q \<in> set (all_ways (tn_children n))" for q
        using that n True by (auto simp: all_ways_set[of ns] ways_node intro!: bexI[of _ n])
      have "\<not> strict_prefix (p # ps) (p # q)" if "q \<in> set (all_ways (tn_children n))" for q
        using in_n[OF that] Cons.prems(3) by blast
      then have no: "\<forall>w\<in>set (all_ways (tn_children n)). \<not> strict_prefix ps w" by (auto simp: strict_prefix_Cons)
      obtain q where "q \<in> set (all_ways (tn_children n))" using kids(2) by (cases "all_ways (tn_children n)") auto
      then have "q \<noteq> []" "\<not> strict_prefix ps q" using no all_ways_nonempty by blast+
      then have ps: "ps \<noteq> []" by (auto simp: strict_prefix_def)
      show ?thesis by (rule add_path_folder[OF Cons.prems(1) Some True own(1) ps Cons.IH[OF kids(1) ps no own(2)]])
    qed (rule add_path_row[OF Cons.prems(1) Some _ own(1)])
  qed
qed simp

lemma str_join_append: "xs \<noteq> [] \<Longrightarrow> zs \<noteq> [] \<Longrightarrow> str_join d (xs @ zs) = str_join d xs @ d @ str_join d zs"
proof (induction xs)
  case (Cons x xs)
  then show ?case by (cases "xs = []") (simp_all add: str_join_Cons)
qed simp

lemma less_append: "u \<noteq> [] \<Longrightarrow> (xs :: string) < xs @ u"
  by (induction xs) (auto simp: neq_Nil_conv)

lemma prefix_join:
  assumes "strict_prefix xs ys" "xs \<noteq> []" shows "str_join ''/'' xs < str_join ''/'' ys"
proof -
  obtain zs where "ys = xs @ zs" "zs \<noteq> []" using assms(1) by (auto simp: strict_prefix_def prefix_def)
  then show ?thesis using less_append[of "''/'' @ str_join ''/'' zs" "str_join ''/'' xs"] assms(2) by (simp add: str_join_append)
qed

lemma segments_join: "str_join ''/'' (segments f) = f"
  by (simp add: segments_def str_join_split)

lemma segments_nonempty [simp]: "segments f \<noteq> []"
  by (simp add: segments_def)

text \<open>The files that do not lie below another file.\<close>
definition shown_files :: "string list \<Rightarrow> string list" where
  "shown_files paths = filter (\<lambda>f. \<not> (\<exists>g\<in>set paths. strict_prefix (segments g) (segments f))) paths"

lemma shorter_exists:
  assumes "finite A" "\<exists>g\<in>A. strict_prefix (segments g) x"
  shows "\<exists>g\<in>A. strict_prefix (segments g) x \<and> (\<forall>h\<in>A. \<not> strict_prefix (segments h) (segments g))"
proof -
  obtain g where g: "g \<in> A" "strict_prefix (segments g) x"
      "\<And>h. h \<in> A \<Longrightarrow> strict_prefix (segments h) x \<Longrightarrow> length (segments g) \<le> length (segments h)"
    using assms(2) arg_min_nat_lemma[of "\<lambda>g. g \<in> A \<and> strict_prefix (segments g) x" _ "\<lambda>g. length (segments g)"] by blast
  have "\<not> strict_prefix (segments h) (segments g)" if "h \<in> A" for h
    using g that prefix_length_less[of "segments h" "segments g"]
    by (meson linorder_not_less prefix_order.less_trans)
  then show ?thesis using g by blast
qed

lemma trie_ways:
  assumes "sorted paths" "distinct paths" "\<forall>f\<in>set paths. set (segments f) \<inter> set inherited_names = {}"
  shows "forest_ok [] (fold (\<lambda>path. add_path [] (segments path)) paths []) \<and>
    set (all_ways (fold (\<lambda>path. add_path [] (segments path)) paths [])) = segments ` set (shown_files paths)"
  using assms
proof (induction paths rule: rev_induct)
  case Nil
  then show ?case by (simp add: forest_ok_def all_ways_def shown_files_def)
next
  case (snoc f paths)
  let ?ns = "fold (\<lambda>path. add_path [] (segments path)) paths []"
  have IH: "forest_ok [] ?ns" "set (all_ways ?ns) = segments ` set (shown_files paths)"
    using snoc by (auto simp: sorted_append)
  have later: "g \<le> f" "g \<noteq> f" if "g \<in> set paths" for g using snoc.prems that by (auto simp: sorted_append)
  have no: "\<not> strict_prefix (segments f) (segments g)" if "g \<in> set paths" for g
    using prefix_join[of "segments f" "segments g"] later[OF that] by (auto simp: segments_join)
  have "adds [] (segments f) ?ns (add_path [] (segments f) ?ns)"
    by (rule add_path_adds) (use IH no snoc.prems in \<open>auto simp: shown_files_def\<close>)
  moreover have "(\<exists>w\<in>set (all_ways ?ns). strict_prefix w (segments f)) \<longleftrightarrow> (\<exists>g\<in>set paths. strict_prefix (segments g) (segments f))"
    using shorter_exists[of "set paths" "segments f"] unfolding IH(2) by (auto simp: shown_files_def)
  moreover have "set (shown_files (paths @ [f])) = (if \<exists>g\<in>set paths. strict_prefix (segments g) (segments f) then set (shown_files paths)
      else insert f (set (shown_files paths)))"
    using no by (auto simp: shown_files_def)
  ultimately show ?case by (auto simp: adds_def IH(2))
qed

text \<open>A row shows the path of its way, and no two rows have the same way.\<close>
lemma rows_ways: "tree_ok pre n \<Longrightarrow> file_rows n = map (\<lambda>w. str_join ''/'' (pre @ w)) (ways n)"
proof (induction n arbitrary: pre)
  case (TreeNode n p f ns)
  show ?case
  proof (cases f)
    case True
    have "file_rows m = map (\<lambda>w. str_join ''/'' (pre @ n # w)) (ways m)" if "m \<in> set ns" for m
      using TreeNode.IH[OF that, of "pre @ [n]"] TreeNode.prems True that by simp
    then have "concat (map file_rows ns) = concat (map (\<lambda>m. map (\<lambda>w. str_join ''/'' (pre @ n # w)) (ways m)) ns)"
      by (metis (no_types, lifting) map_eq_conv)
    then show ?thesis using True by (simp add: map_concat comp_def)
  qed (use TreeNode.prems in simp)
qed

lemma distinct_all_ways: "distinct (map tn_name ns) \<Longrightarrow> (\<And>m. m \<in> set ns \<Longrightarrow> distinct (ways m)) \<Longrightarrow> distinct (all_ways ns)"
proof (induction ns)
  case (Cons m ms)
  have "w \<notin> set (ways k)" if w: "w \<in> set (ways m)" and k: "k \<in> set ms" for w k
  proof
    assume "w \<in> set (ways k)"
    then have "tn_name m \<in> tn_name ` set ms" using ways_hd w k by (metis image_eqI)
    then show False using Cons.prems(1) by simp
  qed
  then have "set (ways m) \<inter> set (all_ways ms) = {}" by (auto simp: all_ways_set)
  then show ?case using Cons by (simp add: all_ways_def)
qed (simp add: all_ways_def)

lemma distinct_ways: "tree_ok pre n \<Longrightarrow> distinct (ways n)"
proof (induction n arbitrary: pre)
  case (TreeNode n p f ns)
  have "f \<Longrightarrow> distinct (all_ways ns)"
    using TreeNode by (intro distinct_all_ways) auto
  then show ?case by (auto simp: ways_node distinct_map)
qed

lemma mset_insert_node [simp]: "mset (insert_node le n ns) = add_mset n (mset ns)"
  by (induction ns) auto

lemma mset_sort_nodes [simp]: "mset (sort_nodes le ns) = mset ns"
  unfolding sort_nodes_def by (induction ns) auto

lemma mset_concat_cong:
  assumes "mset xs = mset ys" shows "mset (concat (map g xs)) = mset (concat (map g ys))"
proof -
  have "mset (concat (map g zs)) = (\<Sum>x\<in>#mset zs. mset (g x))" for zs by (induction zs) auto
  then show ?thesis using assms by simp
qed

lemma rows_sorted: "mset (file_rows (sorted_node le n)) = mset (file_rows n)"
proof (induction n)
  case (TreeNode n p f ns)
  have "mset (concat (map file_rows (map (sorted_node le) ns))) = mset (concat (map file_rows ns))"
    using TreeNode.IH by (induction ns) auto
  then show ?case using mset_concat_cong[OF mset_sort_nodes[of le "map (sorted_node le) ns"], of file_rows] by simp
qed

text \<open>Folders before files, at every level.\<close>
definition folders_before :: "tree_node list \<Rightarrow> bool" where
  "folders_before ns = sorted_wrt (\<lambda>a b. tn_folder b \<longrightarrow> tn_folder a) ns"

fun folders_first :: "tree_node \<Rightarrow> bool" where
  "folders_first (TreeNode n p f ns) = (folders_before ns \<and> (\<forall>m\<in>set ns. folders_first m))"

lemma set_insert_node [simp]: "set (insert_node le n ns) = insert n (set ns)"
  by (induction ns) auto

lemma folders_insert: "folders_before ns \<Longrightarrow> folders_before (insert_node le n ns)"
  unfolding folders_before_def by (induction ns) (auto simp: node_le_def split: if_splits)

lemma folders_sort: "folders_before (sort_nodes le ns)"
  unfolding sort_nodes_def by (induction ns) (simp_all add: folders_insert folders_before_def[of "[]"])

lemma set_sort_nodes [simp]: "set (sort_nodes le ns) = set ns"
  by (metis mset_sort_nodes set_mset_mset)

lemma folders_sorted_node: "folders_first (sorted_node le n)"
  by (induction n) (auto simp: folders_sort)

text \<open>C35: The file tree shows the files: with all folders expanded every file of the attempt has exactly one row, which
  carries its path, except a file that lies below another file (\<^verbatim>\<open>a\<close> and \<^verbatim>\<open>a/b\<close>), which the candidate
  cannot open; and among the children of every folder the folders come first. No segment of a path may be a name that every
  JavaScript object inherits.\<close>
theorem file_tree_shows_files:
  assumes "distinct (map fst fs)" "\<forall>f\<in>fst ` set fs. set (segments f) \<inter> set inherited_names = {}"
  shows "mset (all_file_rows (build_nested_tree le fs)) = mset (shown_files (map fst fs))
    \<and> folders_before (build_nested_tree le fs) \<and> (\<forall>n\<in>set (build_nested_tree le fs). folders_first n)"
proof -
  let ?ps = "sort (map fst fs)"
  have d: "distinct ?ps" and own: "\<forall>f\<in>set ?ps. set (segments f) \<inter> set inherited_names = {}" using assms by simp_all
  have ways: "forest_ok [] (path_trie (map fst fs))" "set (all_ways (path_trie (map fst fs))) = segments ` set (shown_files ?ps)"
    using trie_ways[OF sorted_sort d own] by (simp_all add: path_trie_def)
  let ?ns = "path_trie (map fst fs)"
  have row: "map file_rows ?ns = map (\<lambda>n. map (str_join ''/'') (ways n)) ?ns"
    by (rule map_cong[OF refl]) (use ways(1) rows_ways[of "[]"] in \<open>simp add: forest_ok_def\<close>)
  have rows: "all_file_rows ?ns = map (str_join ''/'') (all_ways ?ns)"
    unfolding all_file_rows_def row by (simp add: all_ways_def map_concat comp_def)
  have dw: "distinct (all_ways ?ns)" using ways(1) distinct_all_ways distinct_ways unfolding forest_ok_def by blast
  have inj: "inj_on (str_join ''/'') (segments ` A)" for A by (auto simp: inj_on_def segments_join)
  have "distinct (all_file_rows ?ns)" unfolding rows distinct_map using dw inj ways(2) by simp
  moreover have "set (all_file_rows ?ns) = set (shown_files ?ps)" unfolding rows using ways(2) by (force simp: segments_join)
  moreover have "set (shown_files ?ps) = set (shown_files (map fst fs))" "distinct (shown_files (map fst fs))"
    using assms(1) by (auto simp: shown_files_def)
  ultimately have m: "mset (all_file_rows ?ns) = mset (shown_files (map fst fs))" by (simp add: set_eq_iff_mset_eq_distinct)
  have "mset (concat (map file_rows (map (sorted_node le) ns))) = mset (all_file_rows ns)" for ns
    unfolding all_file_rows_def by (induction ns) (auto simp: rows_sorted)
  then show ?thesis
    using mset_concat_cong[OF mset_sort_nodes[of le "map (sorted_node le) ?ns"], of file_rows] m
    by (auto simp: build_nested_tree_def all_file_rows_def folders_sort folders_sorted_node)
qed

theorem file_tree_witness:
  "\<exists>fs. all_file_rows (build_nested_tree (\<le>) fs) = [''src/a.js'', ''readme'', ''x''] \<and> length fs = 4
     \<and> mset (all_file_rows (build_nested_tree (\<le>) fs)) = mset (shown_files (map fst fs))"
proof -
  let ?fs = "[(''readme'', []), (''x'', []), (''x/y'', []), (''src/a.js'', [])] :: files"
  have a: "distinct (map fst ?fs)" by code_simp
  have b: "\<forall>f\<in>fst ` set ?fs. set (segments f) \<inter> set inherited_names = {}" by code_simp
  have c: "all_file_rows (build_nested_tree (\<le>) ?fs) = [''src/a.js'', ''readme'', ''x'']" by code_simp
  show ?thesis using file_tree_shows_files[OF a b, of "(\<le>)"] c by (intro exI[of _ ?fs]) simp
qed

section \<open>Tabs\<close>

text \<open>The files and tabs of the page; no active file is the empty path.\<close>
record editor =
  ed_files :: files
  ed_active :: string
  ed_open :: "string list"

definition first_file :: "files \<Rightarrow> string" where
  "first_file fs = (case fs of [] \<Rightarrow> [] | (f, _) # _ \<Rightarrow> f)"

text \<open>\<^verbatim>\<open>loadAttempt\<close> and \<^verbatim>\<open>confirmReset\<close>: without a first file the tabs stay as they are.\<close>
definition show_files :: "files \<Rightarrow> editor \<Rightarrow> editor" where
  "show_files fs ed = (let first = first_file fs; ed1 = ed\<lparr> ed_files := fs \<rparr>
     in if first = [] then ed1 else ed1\<lparr> ed_active := first, ed_open := [first] \<rparr>)"

definition handle_file_click :: "string \<Rightarrow> editor \<Rightarrow> editor" where
  "handle_file_click path ed = ed\<lparr> ed_active := path, ed_open := (if path \<in> set (ed_open ed) then ed_open ed else ed_open ed @ [path]) \<rparr>"

definition handle_close_tab :: "string \<Rightarrow> editor \<Rightarrow> editor" where
  "handle_close_tab path ed = (let remaining = filter (\<lambda>f. f \<noteq> path) (ed_open ed)
     in ed\<lparr> ed_open := remaining,
           ed_active := (if ed_active ed = path then (if remaining = [] then [] else last remaining) else ed_active ed) \<rparr>)"

definition handle_file_change :: "string option \<Rightarrow> editor \<Rightarrow> editor" where
  "handle_file_change value ed = (case value of None \<Rightarrow> ed
     | Some v \<Rightarrow> if ed_active ed = [] then ed else ed\<lparr> ed_files := AList.update (ed_active ed) v (ed_files ed) \<rparr>)"

inductive editor_step :: "editor \<Rightarrow> editor \<Rightarrow> bool" where
  es_show: "distinct (map fst fs) \<Longrightarrow> editor_step ed (show_files fs ed)"
| es_click: "path \<in> fst ` set (ed_files ed) \<Longrightarrow> editor_step ed (handle_file_click path ed)"
| es_close: "path \<in> set (ed_open ed) \<Longrightarrow> editor_step ed (handle_close_tab path ed)"
| es_change: "editor_step ed (handle_file_change v ed)"

definition new_editor :: editor where
  "new_editor = \<lparr> ed_files = [], ed_active = [], ed_open = [] \<rparr>"

text \<open>Each tab once, and the file in the editor has one.\<close>
definition tabs_ok :: "editor \<Rightarrow> bool" where
  "tabs_ok ed = (distinct (ed_open ed) \<and> (ed_active ed \<noteq> [] \<longrightarrow> ed_active ed \<in> set (ed_open ed)) \<and> distinct (map fst (ed_files ed)))"

lemma editor_step_ok: "editor_step ed ed' \<Longrightarrow> tabs_ok ed \<Longrightarrow> tabs_ok ed'"
proof (induction rule: editor_step.induct)
  case (es_close path ed)
  then show ?case by (auto simp: tabs_ok_def handle_close_tab_def Let_def dest: last_in_set)
qed (auto simp: tabs_ok_def show_files_def handle_file_click_def handle_file_change_def Let_def distinct_update split: option.split)

text \<open>In every reachable state the tabs are distinct and the edited file has a tab; an edit changes the file in
  the editor and no other.\<close>
theorem tabs_invariant:
  assumes "editor_step\<^sup>*\<^sup>* new_editor ed"
  shows "tabs_ok ed \<and> (ed_active ed \<noteq> [] \<longrightarrow> map_of (ed_files (handle_file_change (Some v) ed)) =
    (map_of (ed_files ed))(ed_active ed \<mapsto> v))"
proof -
  have "tabs_ok new_editor" by (simp add: tabs_ok_def new_editor_def)
  with assms have "tabs_ok ed" by (induction rule: rtranclp_induct) (auto intro: editor_step_ok)
  then show ?thesis by (simp add: handle_file_change_def update_conv')
qed

theorem tabs_witness: "tabs_ok (handle_close_tab ''a'' (handle_file_click ''b'' (show_files [(''a'', []), (''b'', [])] new_editor)))"
proof -
  let ?a = "show_files [(''a'', []), (''b'', [])] new_editor"
  let ?b = "handle_file_click ''b'' ?a"
  have "editor_step new_editor ?a" by (rule es_show) simp
  moreover have "editor_step ?a ?b" by (rule es_click) (simp add: show_files_def first_file_def Let_def)
  moreover have "editor_step ?b (handle_close_tab ''a'' ?b)" by (rule es_close) (simp add: show_files_def first_file_def handle_file_click_def Let_def)
  ultimately have "editor_step\<^sup>*\<^sup>* new_editor (handle_close_tab ''a'' ?b)" by (meson rtranclp.rtrancl_into_rtrancl r_into_rtranclp)
  from tabs_invariant[OF this] show ?thesis by blast
qed

end
