(* ===== verification/Test_Runs.thy ===== *)
theory Test_Runs
  imports Attempts
begin

text \<open>
  A test run on the exam page (\<^verbatim>\<open>handleRunTests\<close> in \<^verbatim>\<open>apps/web/src/app/exam/[id]/page.tsx\<close>): the
  files are saved, the run is queued, and its result comes over the socket or is found by polling the attempt every three
  seconds, until ninety seconds have passed. The state holds the refs of the component, the timers of the browser
  and what is in flight: handlers between two awaits and polls, each with the start of the run it was sent for.
  A run in SQL mode has no timers. Texts of the output are constructors; the clean-up of the
  log for display is left out.
\<close>

datatype run_output = ClickRunTests | SavingFiles | RunningTests | TestResult int int string | TimedOut | AlreadyRunning | RunError | SqlRunning

datatype run_handler = AwaitSave | AwaitQueue | SqlAwaitSave | SqlAwaitQueue

record run_page =
  rp_running :: bool
  rp_started :: "time option"
  rp_pollRef :: "nat option"
  rp_timeoutRef :: "nat option"
  rp_output :: run_output
  rp_nextTimer :: nat
  rp_intervals :: "nat list"
  rp_timeouts :: "(nat \<times> time) list"
  rp_handlers :: "run_handler list"
  rp_polls :: "time list"

definition new_run_page :: run_page where
  "new_run_page = \<lparr> rp_running = False, rp_started = None, rp_pollRef = None, rp_timeoutRef = None, rp_output = ClickRunTests,
     rp_nextTimer = 0, rp_intervals = [], rp_timeouts = [], rp_handlers = [], rp_polls = [] \<rparr>"

definition clear_run_tests_timers :: "run_page \<Rightarrow> run_page" where
  "clear_run_tests_timers st = st\<lparr> rp_started := None, rp_pollRef := None, rp_timeoutRef := None,
     rp_intervals := (case rp_pollRef st of None \<Rightarrow> rp_intervals st | Some i \<Rightarrow> removeAll i (rp_intervals st)),
     rp_timeouts := (case rp_timeoutRef st of None \<Rightarrow> rp_timeouts st | Some i \<Rightarrow> filter (\<lambda>x. fst x \<noteq> i) (rp_timeouts st)) \<rparr>"

text \<open>\<^verbatim>\<open>public ?? 0\<close> of \<^verbatim>\<open>total ?? 0\<close>, and the logs.\<close>
definition apply_preview_result :: "int option \<Rightarrow> int option \<Rightarrow> string option \<Rightarrow> run_page \<Rightarrow> run_page" where
  "apply_preview_result passed tests logs st = (clear_run_tests_timers st)
     \<lparr> rp_output := TestResult (or_default passed 0) (or_default tests 0) (or_default logs []), rp_running := False \<rparr>"

definition handle_run_tests :: "time \<Rightarrow> run_page \<Rightarrow> run_page" where
  "handle_run_tests now st = (if rp_running st then st
     else (let st1 = clear_run_tests_timers st
       in st1\<lparr> rp_started := Some now, rp_running := True, rp_output := SavingFiles, rp_handlers := rp_handlers st1 @ [AwaitSave] \<rparr>))"

definition drop_nth :: "nat \<Rightarrow> 'a list \<Rightarrow> 'a list" where
  "drop_nth i xs = take i xs @ drop (Suc i) xs"

text \<open>The \<^verbatim>\<open>catch\<close>; \<^verbatim>\<open>busy\<close> is an error with status 429.\<close>
definition run_failed :: "nat \<Rightarrow> bool \<Rightarrow> run_page \<Rightarrow> run_page" where
  "run_failed i busy st = clear_run_tests_timers
     (st\<lparr> rp_handlers := drop_nth i (rp_handlers st), rp_output := (if busy then AlreadyRunning else RunError), rp_running := False \<rparr>)"

definition save_answered :: "nat \<Rightarrow> run_page \<Rightarrow> run_page" where
  "save_answered i st = st\<lparr> rp_handlers := (rp_handlers st)[i := AwaitQueue], rp_output := RunningTests \<rparr>"

text \<open>\<^verbatim>\<open>pollAttempt\<close> until its await.\<close>
definition poll_attempt :: "run_page \<Rightarrow> run_page" where
  "poll_attempt st = (case rp_started st of None \<Rightarrow> st | Some t \<Rightarrow> if t = 0 then st else st\<lparr> rp_polls := rp_polls st @ [t] \<rparr>)"

definition run_queued :: "time \<Rightarrow> nat \<Rightarrow> run_page \<Rightarrow> run_page" where
  "run_queued now i st = (let n = rp_nextTimer st;
      st1 = poll_attempt (st\<lparr> rp_handlers := drop_nth i (rp_handlers st), rp_pollRef := Some n, rp_intervals := rp_intervals st @ [n] \<rparr>)
    in st1\<lparr> rp_timeoutRef := Some (n + 1), rp_timeouts := rp_timeouts st1 @ [(n + 1, now + 90000)], rp_nextTimer := n + 2 \<rparr>)"

text \<open>The answer to a poll: the grading time, scores and log of the attempt, or a failure.\<close>
definition poll_answered :: "nat \<Rightarrow> (time option \<times> int option \<times> int option \<times> string option) option \<Rightarrow> run_page \<Rightarrow> run_page" where
  "poll_answered i ans st = (let start = rp_polls st ! i; st1 = st\<lparr> rp_polls := drop_nth i (rp_polls st) \<rparr>
    in case ans of None \<Rightarrow> st1
     | Some (graded, passed, tests, logs) \<Rightarrow>
         if start \<le> or_default graded 0 then apply_preview_result passed tests logs st1 else st1)"

definition run_timeout :: "nat \<Rightarrow> run_page \<Rightarrow> run_page" where
  "run_timeout i st = (let st1 = st\<lparr> rp_timeouts := filter (\<lambda>x. fst x \<noteq> i) (rp_timeouts st) \<rparr>
     in case rp_started st of None \<Rightarrow> st1
      | Some t \<Rightarrow> if t = 0 then st1 else clear_run_tests_timers (st1\<lparr> rp_output := TimedOut, rp_running := False \<rparr>))"

text \<open>\<^verbatim>\<open>onGradingComplete\<close>.\<close>
definition grading_complete :: "grading_result \<Rightarrow> bool \<Rightarrow> run_page \<Rightarrow> run_page" where
  "grading_complete r preview st = (let st1 = st\<lparr> rp_running := False \<rparr>
     in if preview then apply_preview_result (Some (gr_publicScore r)) (Some (gr_totalPublic r)) (Some (gr_logs r)) st1
        else clear_run_tests_timers st1)"

section \<open>SQL mode\<close>

definition sql_run :: "run_page \<Rightarrow> run_page" where
  "sql_run st = (if rp_running st then st
     else st\<lparr> rp_running := True, rp_output := SqlRunning, rp_handlers := rp_handlers st @ [SqlAwaitSave] \<rparr>)"

definition sql_save_answered :: "nat \<Rightarrow> run_page \<Rightarrow> run_page" where
  "sql_save_answered i st = st\<lparr> rp_handlers := (rp_handlers st)[i := SqlAwaitQueue] \<rparr>"

definition sql_queued :: "nat \<Rightarrow> run_page \<Rightarrow> run_page" where
  "sql_queued i st = st\<lparr> rp_handlers := drop_nth i (rp_handlers st) \<rparr>"

definition sql_failed :: "nat \<Rightarrow> bool \<Rightarrow> run_page \<Rightarrow> run_page" where
  "sql_failed i busy st = st\<lparr> rp_handlers := drop_nth i (rp_handlers st),
     rp_output := (if busy then AlreadyRunning else RunError), rp_running := False \<rparr>"

section \<open>Runs of the page\<close>

text \<open>A page outside SQL mode; \<^verbatim>\<open>Date.now\<close> is positive.\<close>
inductive run_step :: "run_page \<Rightarrow> run_page \<Rightarrow> bool" where
  rs_click: "0 < now \<Longrightarrow> run_step st (handle_run_tests now st)"
| rs_saved: "i < length (rp_handlers st) \<Longrightarrow> rp_handlers st ! i = AwaitSave \<Longrightarrow> run_step st (save_answered i st)"
| rs_failed: "i < length (rp_handlers st) \<Longrightarrow> run_step st (run_failed i busy st)"
| rs_queued: "i < length (rp_handlers st) \<Longrightarrow> rp_handlers st ! i = AwaitQueue \<Longrightarrow> run_step st (run_queued now i st)"
| rs_interval: "k \<in> set (rp_intervals st) \<Longrightarrow> run_step st (poll_attempt st)"
| rs_poll: "i < length (rp_polls st) \<Longrightarrow> run_step st (poll_answered i ans st)"
| rs_timeout: "(k, due) \<in> set (rp_timeouts st) \<Longrightarrow> run_step st (run_timeout k st)"
| rs_graded: "run_step st (grading_complete r preview st)"

text \<open>While the button shows a run, its start is set and something is under way that ends it.\<close>
definition run_page_ok :: "run_page \<Rightarrow> bool" where
  "run_page_ok st = (rp_running st \<longrightarrow>
     (\<exists>t. rp_started st = Some t \<and> 0 < t) \<and> (rp_handlers st \<noteq> [] \<or> rp_timeouts st \<noteq> []))"

lemma clear_simps [simp]: "rp_running (clear_run_tests_timers st) = rp_running st" "rp_handlers (clear_run_tests_timers st) = rp_handlers st"
  "rp_output (clear_run_tests_timers st) = rp_output st" "rp_started (clear_run_tests_timers st) = None"
  "rp_polls (clear_run_tests_timers st) = rp_polls st"
  by (simp_all add: clear_run_tests_timers_def)

lemma preview_simps [simp]: "\<not> rp_running (apply_preview_result p n l st)" "rp_handlers (apply_preview_result p n l st) = rp_handlers st"
  by (simp_all add: apply_preview_result_def)

lemma poll_simps [simp]: "rp_running (poll_attempt st) = rp_running st" "rp_started (poll_attempt st) = rp_started st"
  "rp_handlers (poll_attempt st) = rp_handlers st" "rp_timeouts (poll_attempt st) = rp_timeouts st"
  by (simp_all add: poll_attempt_def split: option.splits)

lemma run_step_ok: "run_step st st' \<Longrightarrow> run_page_ok st \<Longrightarrow> run_page_ok st'"
proof (induction rule: run_step.induct)
  case (rs_queued i st now)
  then show ?case by (simp add: run_page_ok_def run_queued_def Let_def)
next
  case (rs_poll i st ans)
  then show ?case by (auto simp: run_page_ok_def poll_answered_def Let_def split: option.splits)
next
  case (rs_timeout k due st)
  then show ?case by (auto simp: run_page_ok_def run_timeout_def Let_def split: option.splits)
qed (auto simp: run_page_ok_def handle_run_tests_def save_answered_def run_failed_def grading_complete_def Let_def)

lemma reachable_ok: "run_step\<^sup>*\<^sup>* new_run_page st \<Longrightarrow> run_page_ok st"
proof (induction rule: rtranclp_induct)
  case base
  show ?case by (simp add: run_page_ok_def new_run_page_def)
qed (rule run_step_ok)

text \<open>C21: The button never stays at running, for runs of the tests outside SQL mode (a run of a query has no timer and can stay at running, which
  \<^verbatim>\<open>sql_run_stuck\<close> shows): however clicks, answers, polls, timers and results interleave, and whatever fails,
  while the page shows a test run as running either a request of a run is still
  unanswered or a timer of ninety seconds is armed, and the timer, whenever it fires, ends the run with a message; a run that is queued arms one. Any
  error, any result on the socket and the answer to a poll with a grading time not before the run that sent the poll, whose scores it then shows, ends it as well. Clicks during a run change nothing.\<close>
theorem test_run_ends:
  assumes "run_step\<^sup>*\<^sup>* new_run_page st" "rp_running st"
  shows "(rp_handlers st \<noteq> [] \<or> rp_timeouts st \<noteq> [])
    \<and> (\<forall>k. \<not> rp_running (run_timeout k st) \<and> rp_output (run_timeout k st) = TimedOut)
    \<and> (\<forall>i busy. \<not> rp_running (run_failed i busy st)) \<and> (\<forall>r preview. \<not> rp_running (grading_complete r preview st))
    \<and> (\<forall>i graded passed tests logs. rp_polls st ! i \<le> graded \<longrightarrow>
        (let st' = poll_answered i (Some (Some graded, Some passed, Some tests, Some logs)) st
         in \<not> rp_running st' \<and> rp_output st' = TestResult passed tests logs))
    \<and> (\<forall>i. i < length (rp_handlers st) \<longrightarrow> rp_timeouts (run_queued now i st) = rp_timeouts st @ [(rp_nextTimer st + 1, now + 90000)])
    \<and> handle_run_tests now st = st"
  using reachable_ok[OF assms(1)] assms(2)
  by (auto simp: run_page_ok_def run_timeout_def run_failed_def grading_complete_def handle_run_tests_def run_queued_def
      poll_answered_def apply_preview_result_def Let_def)

definition queued_run :: "time \<Rightarrow> run_page" where
  "queued_run t = run_queued (t + 1000) 0 (save_answered 0 (handle_run_tests t new_run_page))"

lemma queued_run_reachable: "0 < t \<Longrightarrow> run_step\<^sup>*\<^sup>* new_run_page (queued_run t)"
proof -
  assume "0 < t"
  then have "run_step new_run_page (handle_run_tests t new_run_page)" by (rule rs_click)
  moreover have "run_step (handle_run_tests t new_run_page) (save_answered 0 (handle_run_tests t new_run_page))"
    by (rule rs_saved) (simp_all add: handle_run_tests_def new_run_page_def)
  moreover have "run_step (save_answered 0 (handle_run_tests t new_run_page)) (queued_run t)"
    unfolding queued_run_def by (rule rs_queued) (simp_all add: handle_run_tests_def new_run_page_def save_answered_def)
  ultimately show ?thesis by (meson rtranclp.rtrancl_into_rtrancl r_into_rtranclp)
qed

lemma queued_run_state: "rp_running (queued_run 5000)" "rp_polls (queued_run 5000) = [5000]" "rp_timeouts (queued_run 5000) = [(1, 96000)]"
  by code_simp+

theorem test_run_ends_witness: "rp_output (run_timeout 1 (queued_run 5000)) = TimedOut \<and> \<not> rp_running (run_timeout 1 (queued_run 5000))"
  using test_run_ends[OF queued_run_reachable queued_run_state(1)] by simp

text \<open>A poll remembers the start of the run that sent it, but its answer ends whatever run there is: here the first run
  is over by the result on the socket, a second one has just started, and the late answer to a poll of
  the first shows the old result as that of the second, whose files are not even saved.\<close>
theorem stale_result_ends_new_run:
  "\<exists>st st'. run_step\<^sup>*\<^sup>* new_run_page st \<and> run_step st st' \<and> rp_running st \<and> rp_started st = Some 20000 \<and> rp_handlers st = [AwaitSave]
    \<and> st' = poll_answered 0 (Some (Some 9000, Some 2, Some 3, None)) st \<and> \<not> rp_running st' \<and> rp_output st' = TestResult 2 3 []
    \<and> rp_handlers st' = [AwaitSave]"
proof -
  let ?r = "\<lparr> gr_publicScore = 2, gr_hiddenScore = 0, gr_totalPublic = 3, gr_totalHidden = 0, gr_logs = [],
     gr_success = True, gr_error = None \<rparr>"
  let ?a = "grading_complete ?r True (queued_run 5000)"
  let ?b = "handle_run_tests 20000 ?a"
  let ?c = "poll_answered 0 (Some (Some 9000, Some 2, Some 3, None)) ?b"
  have "run_step (queued_run 5000) ?a" by (rule rs_graded)
  moreover have "run_step ?a ?b" by (rule rs_click) simp
  ultimately have "run_step\<^sup>*\<^sup>* new_run_page ?b" using queued_run_reachable[of 5000] by (meson rtranclp.rtrancl_into_rtrancl zero_less_numeral)
  moreover have "rp_running ?b \<and> rp_started ?b = Some 20000 \<and> rp_handlers ?b = [AwaitSave] \<and> rp_polls ?b = [5000]
      \<and> \<not> rp_running ?c \<and> rp_output ?c = TestResult 2 3 [] \<and> rp_handlers ?c = [AwaitSave]" by code_simp
  moreover have "run_step ?b ?c" by (rule rs_poll) (use calculation in simp)
  ultimately show ?thesis by blast
qed

inductive sql_step :: "run_page \<Rightarrow> run_page \<Rightarrow> bool" where
  sq_click: "sql_step st (sql_run st)"
| sq_saved: "i < length (rp_handlers st) \<Longrightarrow> rp_handlers st ! i = SqlAwaitSave \<Longrightarrow> sql_step st (sql_save_answered i st)"
| sq_queued: "i < length (rp_handlers st) \<Longrightarrow> rp_handlers st ! i = SqlAwaitQueue \<Longrightarrow> sql_step st (sql_queued i st)"
| sq_failed: "i < length (rp_handlers st) \<Longrightarrow> sql_step st (sql_failed i busy st)"
| sq_graded: "sql_step st (grading_complete r preview st)"

lemma sql_idle:
  assumes "sql_step st st'" "rp_running st" "rp_handlers st = []"
  shows "st' = st \<or> (\<exists>r preview. st' = grading_complete r preview st)"
  using assms by cases (auto simp: sql_run_def)

text \<open>In SQL mode a run has no timer and no poll: once it is queued only a result on the socket ends it. When that is lost
  with the connection the page shows the run as running for ever, and no further click does anything.\<close>
theorem sql_run_stuck:
  "\<exists>st. sql_step\<^sup>*\<^sup>* new_run_page st \<and> rp_running st \<and> (\<forall>st'. sql_step st st' \<longrightarrow> st' = st \<or> (\<exists>r preview. st' = grading_complete r preview st))"
proof -
  let ?a = "sql_run new_run_page"
  let ?b = "sql_save_answered 0 ?a"
  let ?c = "sql_queued 0 ?b"
  have s: "rp_handlers ?a = [SqlAwaitSave]" "rp_handlers ?b = [SqlAwaitQueue]" "rp_running ?c" "rp_handlers ?c = []" by code_simp+
  have "sql_step new_run_page ?a" "sql_step ?a ?b" "sql_step ?b ?c"
    by (rule sq_click, rule sq_saved, simp_all add: s, rule sq_queued, simp_all add: s)
  then have "sql_step\<^sup>*\<^sup>* new_run_page ?c" by (meson rtranclp.rtrancl_into_rtrancl r_into_rtranclp)
  then show ?thesis using sql_idle[OF _ s(3,4)] s(3) by blast
qed

end
