(* ===== verification/Exam_Page.thy ===== *)
theory Exam_Page
  imports Attempts Proctoring
begin

text \<open>
  What the exam page watches and asks for (\<^verbatim>\<open>apps/web/src/app/exam/[id]/page.tsx\<close>): the visibility
  of its tab, the sharing of the screen (\<^verbatim>\<open>hooks/useScreenShare.ts\<close>), the random captures
  (\<^verbatim>\<open>lib/proctorCapture.ts\<close>) and the submission, and the schedule shown before an exam
  (\<^verbatim>\<open>components/ExamCountdown.tsx\<close>). Effects of React run after every change of the state. Divisions of times
  by doubles are exact at these sizes.
\<close>

section \<open>The schedule\<close>

datatype window_status = NotScheduled | BeforeStart | InProgress | Ended

text \<open>\<^verbatim>\<open>updateStatus\<close>; a time of 0 is falsy.\<close>
definition update_status :: "time option \<Rightarrow> time option \<Rightarrow> time \<Rightarrow> window_status" where
  "update_status start stop now =
    (if start = None \<and> stop = None then NotScheduled
     else if (case stop of None \<Rightarrow> False | Some t \<Rightarrow> t \<noteq> 0 \<and> t \<le> now) then Ended
     else if (case start of None \<Rightarrow> False | Some s \<Rightarrow> s \<noteq> 0 \<and> now < s) then BeforeStart
     else InProgress)"

record time_remaining =
  tr_days :: int
  tr_hours :: int
  tr_minutes :: int
  tr_seconds :: int
  tr_total :: int

definition format_time_remaining :: "int \<Rightarrow> time_remaining" where
  "format_time_remaining ms = (let t = max 0 ms in
     \<lparr> tr_days = t div 86400000, tr_hours = t div 3600000 mod 24, tr_minutes = t div 60000 mod 60, tr_seconds = t div 1000 mod 60, tr_total = t \<rparr>)"

lemma format_time_remaining_exact:
  "let r = format_time_remaining ms in 0 \<le> tr_seconds r \<and> tr_seconds r < 60 \<and> 0 \<le> tr_minutes r \<and> tr_minutes r < 60 \<and>
     0 \<le> tr_hours r \<and> tr_hours r < 24 \<and>
     tr_days r * 86400 + tr_hours r * 3600 + tr_minutes r * 60 + tr_seconds r = max 0 ms div 1000"
proof -
  define t where "t = max 0 ms"
  have m: "t div 60000 = t div 1000 div 60" "t div 3600000 = t div 1000 div 60 div 60" "t div 86400000 = t div 1000 div 60 div 60 div 24"
    by (simp_all add: zdiv_zmult2_eq[symmetric])
  have parts: "c * 86400 + z * 3600 + y * 60 + x = s" if "s = 60 * a + x" "a = 60 * b + y" "b = 24 * c + z" for a b c s x y z :: int
    using that by simp
  define s where "s = t div 1000"
  have "s div 60 div 60 div 24 * 86400 + s div 60 div 60 mod 24 * 3600 + s div 60 mod 60 * 60 + s mod 60 = s"
    by (rule parts; simp only: mult_div_mod_eq)
  then show ?thesis unfolding format_time_remaining_def Let_def t_def[symmetric]
    by (simp only: m s_def[symmetric] time_remaining.simps) simp
qed

text \<open>C36: The page and the server agree on the window of an exam: the page shows the exam as open exactly when the server would let an
  attempt start, as not yet open exactly when the server says it has not started, and as ended
  otherwise, as long as the schedule ends after it starts.\<close>
theorem countdown_agrees_with_server:
  assumes "0 \<le> now" "\<And>s t. e_scheduledStartAt e = Some s \<Longrightarrow> e_scheduledEndAt e = Some t \<Longrightarrow> s < t"
    "e_scheduledEndAt e \<noteq> Some 0"
  shows "case update_status (e_scheduledStartAt e) (e_scheduledEndAt e) now of
      NotScheduled \<Rightarrow> check_window e now = None
    | InProgress \<Rightarrow> check_window e now = None
    | BeforeStart \<Rightarrow> (\<exists>m s. e_scheduledStartAt e = Some s \<and> check_window e now = Some (ApiError m 403 (ExamNotStarted (s - now) s)))
    | Ended \<Rightarrow> (\<exists>m t. e_scheduledEndAt e = Some t \<and> check_window e now = Some (ApiError m 403 (ExamEnded t)))"
proof (cases "e_scheduledEndAt e")
  case None
  then show ?thesis using assms(1) by (cases "e_scheduledStartAt e") (auto simp: update_status_def check_window_def)
next
  case (Some t)
  then have "t \<noteq> 0" "\<And>s. e_scheduledStartAt e = Some s \<Longrightarrow> s < t" using assms(2,3) by auto
  then show ?thesis using assms(1) Some by (cases "e_scheduledStartAt e") (fastforce simp: update_status_def check_window_def)+
qed

theorem countdown_witness:
  "update_status (e_scheduledStartAt demo_exam) (e_scheduledEndAt demo_exam) 5 = InProgress \<and> check_window demo_exam 5 = None"
proof -
  have s: "update_status (e_scheduledStartAt demo_exam) (e_scheduledEndAt demo_exam) 5 = InProgress"
    by (simp add: update_status_def demo_exam_def)
  then show ?thesis using countdown_agrees_with_server[of 5 demo_exam] by (simp add: demo_exam_def)
qed

section \<open>The tab\<close>

record tab_watch =
  tw_listening :: bool
  tw_hidden :: bool
  tw_leave :: time
  tw_events :: "(string \<times> int option) list"

definition new_watch :: tab_watch where
  "new_watch = \<lparr> tw_listening = False, tw_hidden = False, tw_leave = 0, tw_events = [] \<rparr>"

text \<open>\<^verbatim>\<open>handleVisibilityChange\<close>, attached while the exam runs and the socket is connected.\<close>
definition visibility_change :: "time \<Rightarrow> bool \<Rightarrow> tab_watch \<Rightarrow> tab_watch" where
  "visibility_change now hidden st = (let st1 = st\<lparr> tw_hidden := hidden \<rparr> in
     if \<not> tw_listening st then st1
     else if hidden then st1\<lparr> tw_leave := now, tw_events := tw_events st @ [(''TAB_LEAVE'', None)] \<rparr>
     else st1\<lparr> tw_leave := 0, tw_events := (if 0 < tw_leave st
        then tw_events st @ [(''TAB_RETURN'', Some (min ((now - tw_leave st) div 1000) 86400))] else tw_events st) \<rparr>)"

text \<open>Along a clock that does not go back: the tab is hidden or shown again, the handler is attached or taken off.\<close>
inductive watch_run :: "time \<Rightarrow> time \<Rightarrow> tab_watch \<Rightarrow> bool" for t0 where
  wr_new: "watch_run t0 t0 new_watch"
| wr_listen: "watch_run t0 t st \<Longrightarrow> t \<le> now \<Longrightarrow> watch_run t0 now (st\<lparr> tw_listening := b \<rparr>)"
| wr_change: "watch_run t0 t st \<Longrightarrow> t \<le> now \<Longrightarrow> watch_run t0 now (visibility_change now (\<not> tw_hidden st) st)"

definition durations :: "tab_watch \<Rightarrow> int list" where
  "durations st = List.map_filter snd (tw_events st)"

lemma durations_append: "tw_events st' = tw_events st @ [(n, d)] \<Longrightarrow>
    durations st' = durations st @ (case d of None \<Rightarrow> [] | Some x \<Rightarrow> [x])"
  by (simp add: durations_def List.map_filter_def split: option.split)

definition watch_ok :: "time \<Rightarrow> time \<Rightarrow> tab_watch \<Rightarrow> bool" where
  "watch_ok t0 t st = (t0 \<le> t \<and> 0 \<le> tw_leave st \<and> tw_leave st \<le> t \<and> (\<forall>d\<in>set (durations st). 0 \<le> d \<and> d \<le> 86400) \<and>
     t0 + 1000 * sum_list (durations st) \<le> (if 0 < tw_leave st then tw_leave st else t))"

lemma watch_run_ok: "watch_run t0 t st \<Longrightarrow> 0 \<le> t0 \<Longrightarrow> watch_ok t0 t st"
proof (induction rule: watch_run.induct)
  case wr_new
  then show ?case by (simp add: watch_ok_def new_watch_def durations_def)
next
  case (wr_listen t st now b)
  then show ?case by (auto simp: watch_ok_def durations_def split: if_splits)
next
  case (wr_change t st now)
  then have ok: "watch_ok t0 t st" by simp
  let ?st = "visibility_change now (\<not> tw_hidden st) st"
  consider "\<not> tw_listening st" | "tw_listening st" "\<not> tw_hidden st" | "tw_listening st" "tw_hidden st" "tw_leave st \<le> 0"
    | "tw_listening st" "tw_hidden st" "0 < tw_leave st" by linarith
  then show ?case
  proof cases
    case 1
    then show ?thesis using ok wr_change(2) by (auto simp: watch_ok_def visibility_change_def Let_def durations_def split: if_splits)
  next
    case 2
    have "durations ?st = durations st" using 2 by (simp add: visibility_change_def Let_def durations_def List.map_filter_def)
    then show ?thesis using 2 ok wr_change(2) by (auto simp: watch_ok_def visibility_change_def Let_def split: if_splits)
  next
    case 3
    then show ?thesis using ok wr_change(2) by (auto simp: watch_ok_def visibility_change_def Let_def durations_def split: if_splits)
  next
    case 4
    define d where "d = min ((now - tw_leave st) div 1000) 86400"
    have d: "0 \<le> d" "d \<le> 86400" "1000 * d \<le> now - tw_leave st"
      using ok 4 wr_change(2) by (auto simp: d_def watch_ok_def min_def pos_imp_zdiv_nonneg_iff)
    have "durations ?st = durations st @ [d]" "tw_leave ?st = 0"
      using 4 by (simp_all add: visibility_change_def Let_def durations_def List.map_filter_def d_def)
    then show ?thesis using 4 ok wr_change(2) d by (auto simp: watch_ok_def)
  qed
qed

text \<open>What the socket sends of an event.\<close>
definition page_event :: "id \<Rightarrow> string \<times> int option \<Rightarrow> event_data" where
  "page_event aid x = \<lparr> ed_attemptId = aid, ed_eventType = fst x, ed_duration = map_option rat_of_int (snd x), ed_pasteLength = None, ed_isMultiline = None \<rparr>"

lemma valid_page_duration: "0 \<le> d \<Longrightarrow> d \<le> 86400 \<Longrightarrow>
    validated_duration (Some (rat_of_int d)) = (if d = 0 then None else Some (rat_of_int d))"
  by (simp add: validated_duration_def)

text \<open>The reported absences are bounded: along any run of visibility changes, connections and disconnections, every
  reported absence is of at most a day and the server takes it as it is, and together they are no
  longer than the time since the page was opened.\<close>
theorem away_time_bounded:
  assumes "watch_run t0 t st" "0 \<le> t0"
  shows "1000 * sum_list (durations st) \<le> t - t0
    \<and> (\<forall>d\<in>set (durations st). 0 \<le> d \<and> d \<le> 86400 \<and>
        validated_duration (Some (rat_of_int d)) = (if d = 0 then None else Some (rat_of_int d)))"
  using watch_run_ok[OF assms] by (auto simp: watch_ok_def valid_page_duration split: if_splits)

text \<open>What a page that stays connected reports of the times at which the tab is hidden and shown in turn.\<close>
fun expected_events :: "time list \<Rightarrow> (string \<times> int option) list" where
  "expected_events [] = []"
| "expected_events [a] = [(''TAB_LEAVE'', None)]"
| "expected_events (a # b # ts) = (''TAB_LEAVE'', None) # (''TAB_RETURN'', Some (min ((b - a) div 1000) 86400)) # expected_events ts"

definition toggle :: "time \<Rightarrow> tab_watch \<Rightarrow> tab_watch" where
  "toggle now st = visibility_change now (\<not> tw_hidden st) st"

text \<open>While the page is connected every absence is reported once, with its length in whole seconds up to a day.\<close>
theorem connected_absences_exact:
  assumes "tw_listening st" "\<not> tw_hidden st" "tw_leave st = 0" "\<forall>t\<in>set ts. 0 < t"
  shows "tw_events (fold toggle ts st) = tw_events st @ expected_events ts"
  using assms
proof (induction ts arbitrary: st rule: expected_events.induct)
  case (3 a b ts)
  let ?st = "toggle b (toggle a st)"
  have e: "tw_events ?st = tw_events st @ [(''TAB_LEAVE'', None), (''TAB_RETURN'', Some (min ((b - a) div 1000) 86400))]"
    "tw_listening ?st" "\<not> tw_hidden ?st" "tw_leave ?st = 0"
    using "3.prems" by (simp_all add: toggle_def visibility_change_def Let_def)
  then show ?case using "3.IH"[OF e(2,3,4)] "3.prems"(4) by simp
qed (simp_all add: toggle_def visibility_change_def Let_def)

text \<open>Across a lost connection the report is wrong: the tab is hidden from 10 s to 20 s, its return falls into the loss of the
  connection, and when it is hidden again at 50 s, still without a connection, and shown at 60 s with one, an
  absence of 50 s is reported, although it was hidden for 20 s altogether.\<close>
theorem absence_overreported:
  "\<exists>st. watch_run 1000 60000 st \<and> durations st = [50] \<and> tw_events st = [(''TAB_LEAVE'', None), (''TAB_RETURN'', Some 50)]"
proof -
  let ?a = "new_watch\<lparr> tw_listening := True \<rparr>"
  let ?b = "toggle 10000 ?a"
  let ?c = "?b\<lparr> tw_listening := False \<rparr>"
  let ?d = "toggle 50000 (toggle 20000 ?c)"
  let ?e = "?d\<lparr> tw_listening := True \<rparr>"
  have "watch_run 1000 1000 new_watch" by (rule wr_new)
  then have "watch_run 1000 1000 ?a" by (rule wr_listen) simp
  then have "watch_run 1000 10000 ?b" unfolding toggle_def by (rule wr_change) simp
  then have "watch_run 1000 10000 ?c" by (rule wr_listen) simp
  then have "watch_run 1000 20000 (toggle 20000 ?c)" unfolding toggle_def by (rule wr_change) simp
  then have "watch_run 1000 50000 ?d" unfolding toggle_def[of 50000] by (rule wr_change) simp
  then have "watch_run 1000 50000 ?e" by (rule wr_listen) simp
  then have "watch_run 1000 60000 (toggle 60000 ?e)" unfolding toggle_def[of 60000] by (rule wr_change) simp
  moreover have "durations (toggle 60000 ?e) = [50] \<and> tw_events (toggle 60000 ?e) = [(''TAB_LEAVE'', None), (''TAB_RETURN'', Some 50)]"
    by code_simp
  ultimately show ?thesis by blast
qed

theorem away_time_witness: "\<exists>st. watch_run 0 9000 st \<and> durations st = [4] \<and> 1000 * sum_list (durations st) \<le> 9000"
proof -
  let ?a = "new_watch\<lparr> tw_listening := True \<rparr>"
  have "watch_run 0 0 ?a" by (rule wr_listen[OF wr_new]) simp
  then have "watch_run 0 5000 (toggle 5000 ?a)" unfolding toggle_def by (rule wr_change) simp
  then have r: "watch_run 0 9000 (toggle 9000 (toggle 5000 ?a))" unfolding toggle_def[of 9000] by (rule wr_change) simp
  have "durations (toggle 9000 (toggle 5000 ?a)) = [4]" by code_simp
  then show ?thesis using away_time_bounded[OF r] r by (intro exI[of _ "toggle 9000 (toggle 5000 ?a)"]) simp
qed

section \<open>Random captures\<close>

text \<open>The module variables of the random captures, the timers of the browser and the attempts captured so far.\<close>
record random_captures =
  rc_timer :: "nat option"
  rc_attempt :: "id option"
  rc_live :: "nat list"
  rc_next :: nat
  rc_taken :: "id list"

definition no_captures :: random_captures where
  "no_captures = \<lparr> rc_timer = None, rc_attempt = None, rc_live = [], rc_next = 0, rc_taken = [] \<rparr>"

definition stop_random_captures :: "random_captures \<Rightarrow> random_captures" where
  "stop_random_captures st = st\<lparr> rc_timer := None, rc_attempt := None,
     rc_live := (case rc_timer st of None \<Rightarrow> rc_live st | Some i \<Rightarrow> removeAll i (rc_live st)) \<rparr>"

definition arm_capture :: "random_captures \<Rightarrow> random_captures" where
  "arm_capture st = st\<lparr> rc_timer := Some (rc_next st), rc_live := rc_live st @ [rc_next st], rc_next := rc_next st + 1 \<rparr>"

definition start_random_captures :: "id \<Rightarrow> random_captures \<Rightarrow> random_captures" where
  "start_random_captures aid st = arm_capture ((stop_random_captures st)\<lparr> rc_attempt := Some aid \<rparr>)"

text \<open>A timer of either kind fires: a capture, and \<^verbatim>\<open>scheduleNext\<close>.\<close>
definition random_capture_fires :: "nat \<Rightarrow> random_captures \<Rightarrow> random_captures" where
  "random_capture_fires i st = (let st1 = st\<lparr> rc_live := removeAll i (rc_live st) \<rparr>
     in case rc_attempt st of None \<Rightarrow> st1 | Some aid \<Rightarrow> arm_capture (st1\<lparr> rc_taken := rc_taken st @ [aid] \<rparr>))"

definition captures_ok :: "random_captures \<Rightarrow> bool" where
  "captures_ok st = (case rc_attempt st of None \<Rightarrow> rc_live st = [] | Some _ \<Rightarrow> (\<exists>i. rc_timer st = Some i \<and> rc_live st = [i]))"

lemma stop_ok: "captures_ok st \<Longrightarrow> captures_ok (stop_random_captures st) \<and> rc_live (stop_random_captures st) = []"
  by (auto simp: captures_ok_def stop_random_captures_def split: option.splits)

lemma start_captures_ok: "captures_ok st \<Longrightarrow> captures_ok (start_random_captures aid st)"
  using stop_ok[of st] by (auto simp: start_random_captures_def arm_capture_def captures_ok_def)

lemma fires_ok: "captures_ok st \<Longrightarrow> i \<in> set (rc_live st) \<Longrightarrow> captures_ok (random_capture_fires i st)"
  by (auto simp: captures_ok_def random_capture_fires_def arm_capture_def Let_def split: option.splits)

section \<open>Sharing the screen, starting and submitting\<close>

text \<open>The answer of the browser to a request for the screen: there is no sharing without HTTPS, it fails, another surface than the whole
  screen is chosen, or the screen is shared.\<close>
datatype share_answer = ShareUnavailable | ShareDenied | ShareOtherSurface | ShareScreen

record exam_page =
  ep_loaded :: bool
  ep_consent :: bool
  ep_sharing :: bool
  ep_requesting :: bool
  ep_stream :: bool
  ep_overlay :: bool
  ep_submitModal :: bool
  ep_submitting :: bool
  ep_captures :: random_captures
  ep_logged :: "string list"
  ep_shots :: "string list"

definition new_exam_page :: exam_page where
  "new_exam_page = \<lparr> ep_loaded = False, ep_consent = True, ep_sharing = False, ep_requesting = False, ep_stream = False,
     ep_overlay = False, ep_submitModal = False, ep_submitting = False, ep_captures = no_captures, ep_logged = [], ep_shots = [] \<rparr>"

text \<open>The effect on the sharing of the screen.\<close>
definition share_effect :: "exam_page \<Rightarrow> exam_page" where
  "share_effect st = (if \<not> ep_loaded st \<or> ep_consent st then st
     else if \<not> ep_sharing st \<and> \<not> ep_requesting st then st\<lparr> ep_overlay := True \<rparr>
     else if ep_sharing st then st\<lparr> ep_overlay := False \<rparr> else st)"

text \<open>\<^verbatim>\<open>loadAttempt\<close> with the start of the attempt, which is falsy when it is missing.\<close>
definition load_attempt :: "time option \<Rightarrow> exam_page \<Rightarrow> exam_page" where
  "load_attempt started st = share_effect (let st1 = st\<lparr> ep_loaded := True \<rparr>
     in if started \<noteq> None then st1\<lparr> ep_consent := False, ep_overlay := True \<rparr> else st1)"

text \<open>\<^verbatim>\<open>requestScreenShare\<close> until the browser answers, and after: does it report success?\<close>
definition request_screen_share :: "exam_page \<Rightarrow> exam_page" where
  "request_screen_share st = share_effect (st\<lparr> ep_requesting := True \<rparr>)"

definition share_answered :: "share_answer \<Rightarrow> exam_page \<Rightarrow> bool \<times> exam_page" where
  "share_answered a st = (case a of
     ShareUnavailable \<Rightarrow> (True, st\<lparr> ep_requesting := False, ep_sharing := True \<rparr>)
   | ShareScreen \<Rightarrow> (True, st\<lparr> ep_requesting := False, ep_sharing := True, ep_stream := True \<rparr>)
   | _ \<Rightarrow> (False, st\<lparr> ep_requesting := False \<rparr>))"

text \<open>The rest of \<^verbatim>\<open>enterFullscreen\<close> and of \<^verbatim>\<open>handleScreenShareRequest\<close>.\<close>
definition enter_fullscreen :: "id \<Rightarrow> share_answer \<Rightarrow> bool \<Rightarrow> exam_page \<Rightarrow> exam_page" where
  "enter_fullscreen aid a fullscreen st = share_effect (case share_answered a st of (ok, st1) \<Rightarrow>
     if ok \<and> fullscreen
     then st1\<lparr> ep_consent := False, ep_overlay := False, ep_shots := ep_shots st1 @ [''EXAM_START''],
            ep_captures := start_random_captures aid (ep_captures st1) \<rparr>
     else st1)"

definition handle_screen_share_request :: "id \<Rightarrow> share_answer \<Rightarrow> exam_page \<Rightarrow> exam_page" where
  "handle_screen_share_request aid a st = share_effect (case share_answered a st of (ok, st1) \<Rightarrow>
     if ok then st1\<lparr> ep_overlay := False, ep_captures := start_random_captures aid (ep_captures st1) \<rparr> else st1)"

text \<open>The track of the screen ends: the listener of the hook and \<^verbatim>\<open>onScreenShareLost\<close>.\<close>
definition screen_share_lost :: "exam_page \<Rightarrow> exam_page" where
  "screen_share_lost st = share_effect (st\<lparr> ep_sharing := False, ep_stream := False, ep_overlay := True,
     ep_logged := ep_logged st @ [''SCREEN_SHARE_LOST''], ep_shots := ep_shots st @ [''FULLSCREEN_EXIT''] \<rparr>)"

definition handle_submit :: "exam_page \<Rightarrow> exam_page" where
  "handle_submit st = (if ep_submitting st then st else st\<lparr> ep_submitModal := True \<rparr>)"

text \<open>\<^verbatim>\<open>confirmSubmit\<close> until the answer of the server, and after.\<close>
definition confirm_submit :: "exam_page \<Rightarrow> exam_page" where
  "confirm_submit st = st\<lparr> ep_submitModal := False, ep_submitting := True, ep_shots := ep_shots st @ [''EXAM_SUBMIT''],
     ep_captures := stop_random_captures (ep_captures st) \<rparr>"

definition submit_answered :: "bool \<Rightarrow> exam_page \<Rightarrow> exam_page" where
  "submit_answered ok st = (if ok then st else st\<lparr> ep_submitting := False \<rparr>)"

definition timer_expired :: "exam_page \<Rightarrow> exam_page" where
  "timer_expired st = st\<lparr> ep_submitting := True \<rparr>"

definition captures_fire :: "nat \<Rightarrow> exam_page \<Rightarrow> exam_page" where
  "captures_fire i st = st\<lparr> ep_captures := random_capture_fires i (ep_captures st) \<rparr>"

text \<open>The steps of the page of an attempt that the server has sent; \<^verbatim>\<open>avail\<close> is \<^verbatim>\<open>isScreenShareAvailable\<close>, which depends on the
  address of the page and on the browser only.\<close>
inductive workspace_step :: "bool \<Rightarrow> id \<Rightarrow> attempt \<Rightarrow> exam_page \<Rightarrow> exam_page \<Rightarrow> bool" for avail aid a where
  pg_load: "\<not> ep_loaded st \<Longrightarrow> workspace_step avail aid a st (load_attempt (Some (a_startedAt a)) st)"
| pg_request: "ep_loaded st \<Longrightarrow> workspace_step avail aid a st (request_screen_share st)"
| pg_start: "ep_loaded st \<Longrightarrow> ep_consent st \<Longrightarrow> ep_requesting st \<Longrightarrow> (ans = ShareUnavailable) = (\<not> avail) \<Longrightarrow> workspace_step avail aid a st (enter_fullscreen aid ans fs st)"
| pg_share: "ep_loaded st \<Longrightarrow> \<not> ep_consent st \<Longrightarrow> ep_requesting st \<Longrightarrow> (ans = ShareUnavailable) = (\<not> avail) \<Longrightarrow> workspace_step avail aid a st (handle_screen_share_request aid ans st)"
| pg_lost: "ep_stream st \<Longrightarrow> workspace_step avail aid a st (screen_share_lost st)"
| pg_submit: "ep_loaded st \<Longrightarrow> workspace_step avail aid a st (handle_submit st)"
| pg_confirm: "ep_submitModal st \<Longrightarrow> workspace_step avail aid a st (confirm_submit st)"
| pg_answer: "ep_submitting st \<Longrightarrow> workspace_step avail aid a st (submit_answered ok st)"
| pg_expired: "workspace_step avail aid a st (timer_expired st)"
| pg_capture: "i \<in> set (rc_live (ep_captures st)) \<Longrightarrow> workspace_step avail aid a st (captures_fire i st)"

definition page_ok :: "bool \<Rightarrow> exam_page \<Rightarrow> bool" where
  "page_ok avail st = ((ep_loaded st \<longrightarrow> \<not> ep_consent st \<and> (ep_sharing st \<or> ep_overlay st)) \<and> (ep_sharing st \<longrightarrow> (ep_stream st \<longleftrightarrow> avail)) \<and>
     (ep_stream st \<longrightarrow> avail) \<and> ''EXAM_START'' \<notin> set (ep_shots st) \<and> captures_ok (ep_captures st))"

lemma workspace_step_ok: "workspace_step avail aid a st st' \<Longrightarrow> page_ok avail st \<Longrightarrow> page_ok avail st'"
proof (induction rule: workspace_step.induct)
  case (pg_share st ans)
  then show ?case
    by (cases ans) (auto simp: page_ok_def handle_screen_share_request_def share_answered_def share_effect_def start_captures_ok)
next
  case (pg_start st ans fs)
  then show ?case by (simp add: page_ok_def)
next
  case (pg_confirm st)
  then show ?case by (auto simp: page_ok_def confirm_submit_def stop_ok)
next
  case (pg_capture i st)
  then show ?case by (auto simp: page_ok_def captures_fire_def fires_ok)
qed (auto simp: page_ok_def load_attempt_def request_screen_share_def screen_share_lost_def share_effect_def handle_submit_def
    submit_answered_def timer_expired_def Let_def)

lemma page_reachable_ok: "(workspace_step avail aid a)\<^sup>*\<^sup>* new_exam_page st \<Longrightarrow> page_ok avail st"
proof (induction rule: rtranclp_induct)
  case base
  show ?case by (simp add: page_ok_def new_exam_page_def captures_ok_def no_captures_def)
qed (rule workspace_step_ok)



text \<open>A submission stops the random captures before it asks the server. When it fails the exam goes on, and no more
  captures are taken until the screen is shared anew; and once the timer has expired the button does nothing, since the
  page waits for a submission by the server.\<close>
theorem failed_submission_ends_captures:
  assumes "(workspace_step avail aid a)\<^sup>*\<^sup>* new_exam_page st"
  shows "\<not> ep_submitting (submit_answered False (confirm_submit st)) \<and> rc_live (ep_captures (submit_answered False (confirm_submit st))) = []
    \<and> ep_sharing (submit_answered False (confirm_submit st)) = ep_sharing st
    \<and> handle_submit (timer_expired st) = timer_expired st"
  using page_reachable_ok[OF assms] stop_ok[of "ep_captures st"]
  by (simp add: page_ok_def submit_answered_def confirm_submit_def handle_submit_def timer_expired_def)

theorem failed_submission_witness: "rc_live (ep_captures (submit_answered False (confirm_submit new_exam_page))) = []"
  using failed_submission_ends_captures[of True "''a1''" demo_attempt new_exam_page] by simp

text \<open>The events the page logs and the server: the loss of the screen is none the server knows, so it is refused and neither
  counted nor stored (the monitor gets a screenshot under the name of another event); the other five are known.\<close>
theorem share_loss_not_recorded:
  "set (ep_logged (screen_share_lost st)) - set (ep_logged st) \<subseteq> {''SCREEN_SHARE_LOST''}
   \<and> snd (log_proctor_event S now newid u (page_event aid (''SCREEN_SHARE_LOST'', d)) w) = w
   \<and> (\<forall>n\<in>{''TAB_LEAVE'', ''TAB_RETURN'', ''FULLSCREEN_EXIT'', ''FULLSCREEN_ENTER'', ''PASTE_ATTEMPT''}. event_type_of_name n \<noteq> None)"
  by (auto simp: screen_share_lost_def share_effect_def log_proctor_event_def page_event_def event_type_of_name_def Let_def split: option.split)

end
