(* ===== verification/Client_Queries.thy ===== *)
theory Client_Queries
  imports Attempts
begin

text \<open>
  The lists of the web client. \<^verbatim>\<open>usePaginatedQuery\<close> of \<^verbatim>\<open>apps/web/src/hooks/useApi.ts\<close> fetches a page
  whenever its parameters change; the fetcher is a closure of the component, here a value
  \<^verbatim>\<open>'f\<close>, that is read from a ref. Effects run after every change of the state. The monitor
  of an exam (\<^verbatim>\<open>hooks/useExamMonitor.ts\<close>) keeps the newest screenshots of its room.
\<close>

section \<open>The paginated query\<close>

record query_params =
  qp_page :: int
  qp_limit :: int
  qp_search :: string
  qp_sortBy :: string
  qp_descending :: bool

text \<open>\<^verbatim>\<open>pq_deps\<close> are the dependencies with which the effect ran last, \<^verbatim>\<open>pq_flight\<close> the requests without an
  answer, each with its fetcher and parameters.\<close>
record ('f, 'd) paginated_query =
  pq_enabled :: bool
  pq_fetcher :: 'f
  pq_params :: query_params
  pq_data :: "'d list"
  pq_total :: nat
  pq_loading :: bool
  pq_refetching :: bool
  pq_error :: bool
  pq_deps :: "(bool \<times> query_params \<times> nat) option"
  pq_flight :: "('f \<times> query_params) list"

text \<open>\<^verbatim>\<open>fetchData\<close> until its await.\<close>
definition fetch_data :: "bool \<Rightarrow> ('f, 'd) paginated_query \<Rightarrow> ('f, 'd) paginated_query" where
  "fetch_data show st = (if \<not> pq_enabled st then st
     else (let st1 = (if show \<and> pq_data st = [] then st\<lparr> pq_loading := True \<rparr> else st\<lparr> pq_refetching := True \<rparr>)
       in st1\<lparr> pq_error := False, pq_flight := pq_flight st @ [(pq_fetcher st, pq_params st)] \<rparr>))"

text \<open>The effect on \<^verbatim>\<open>fetchData\<close>, which depends on the parameters and the length of the data but not on the fetcher.\<close>
definition query_effect :: "('f, 'd) paginated_query \<Rightarrow> ('f, 'd) paginated_query" where
  "query_effect st = (let deps = (pq_enabled st, pq_params st, length (pq_data st))
     in if pq_deps st = Some deps then st else fetch_data True (st\<lparr> pq_deps := Some deps \<rparr>))"

definition use_paginated_query :: "bool \<Rightarrow> 'f \<Rightarrow> ('f, 'd) paginated_query" where
  "use_paginated_query enabled f = query_effect \<lparr> pq_enabled = enabled, pq_fetcher = f,
     pq_params = \<lparr> qp_page = 1, qp_limit = 20, qp_search = [], qp_sortBy = [], qp_descending = True \<rparr>,
     pq_data = [], pq_total = 0, pq_loading = True, pq_refetching = False, pq_error = False, pq_deps = None, pq_flight = [] \<rparr>"

definition set_page :: "int \<Rightarrow> ('f, 'd) paginated_query \<Rightarrow> ('f, 'd) paginated_query" where
  "set_page p st = query_effect (st\<lparr> pq_params := (pq_params st)\<lparr> qp_page := p \<rparr> \<rparr>)"

definition set_limit :: "int \<Rightarrow> ('f, 'd) paginated_query \<Rightarrow> ('f, 'd) paginated_query" where
  "set_limit n st = query_effect (st\<lparr> pq_params := (pq_params st)\<lparr> qp_limit := n, qp_page := 1 \<rparr> \<rparr>)"

definition set_search :: "string \<Rightarrow> ('f, 'd) paginated_query \<Rightarrow> ('f, 'd) paginated_query" where
  "set_search s st = query_effect (st\<lparr> pq_params := (pq_params st)\<lparr> qp_search := s, qp_page := 1 \<rparr> \<rparr>)"

definition set_sort :: "string \<Rightarrow> bool \<Rightarrow> ('f, 'd) paginated_query \<Rightarrow> ('f, 'd) paginated_query" where
  "set_sort s d st = query_effect (st\<lparr> pq_params := (pq_params st)\<lparr> qp_sortBy := s, qp_descending := d, qp_page := 1 \<rparr> \<rparr>)"

text \<open>The component renders with another fetcher, or enables the query.\<close>
definition set_fetcher :: "'f \<Rightarrow> ('f, 'd) paginated_query \<Rightarrow> ('f, 'd) paginated_query" where
  "set_fetcher f st = query_effect (st\<lparr> pq_fetcher := f \<rparr>)"

definition set_enabled :: "bool \<Rightarrow> ('f, 'd) paginated_query \<Rightarrow> ('f, 'd) paginated_query" where
  "set_enabled b st = query_effect (st\<lparr> pq_enabled := b \<rparr>)"

definition refetch :: "('f, 'd) paginated_query \<Rightarrow> ('f, 'd) paginated_query" where
  "refetch st = fetch_data False st"

text \<open>The answer to the request at a position: a page and the total, or a failure.\<close>
definition fetch_answered :: "nat \<Rightarrow> ('d list \<times> nat) option \<Rightarrow> ('f, 'd) paginated_query \<Rightarrow> ('f, 'd) paginated_query" where
  "fetch_answered i ans st = query_effect (let st1 = st\<lparr> pq_flight := take i (pq_flight st) @ drop (Suc i) (pq_flight st),
       pq_loading := False, pq_refetching := False \<rparr>
     in case ans of None \<Rightarrow> st1\<lparr> pq_error := True \<rparr> | Some (d, n) \<Rightarrow> st1\<lparr> pq_data := d, pq_total := n \<rparr>)"

text \<open>Runs in which the requests are answered in their order, by the server's answer to what they ask or with a failure; the component may change its fetcher at any
  time. Beside the query stands the fetcher of the newest request.\<close>
definition asked :: "'f \<Rightarrow> ('f, 'd) paginated_query \<Rightarrow> 'f \<times> ('f, 'd) paginated_query" where
  "asked g st = (if pq_flight st = [] then g else fst (last (pq_flight st)), st)"

inductive query_step :: "('f \<Rightarrow> query_params \<Rightarrow> 'd list \<times> nat) \<Rightarrow> 'f \<times> ('f, 'd) paginated_query \<Rightarrow> 'f \<times> ('f, 'd) paginated_query \<Rightarrow> bool" for srv where
  qs_page: "query_step srv (g, st) (asked g (set_page p st))"
| qs_limit: "query_step srv (g, st) (asked g (set_limit n st))"
| qs_search: "query_step srv (g, st) (asked g (set_search s st))"
| qs_sort: "query_step srv (g, st) (asked g (set_sort s d st))"
| qs_refetch: "query_step srv (g, st) (asked g (refetch st))"
| qs_fetcher: "query_step srv (g, st) (asked g (set_fetcher f st))"
| qs_answer: "pq_flight st = (f, p) # rest \<Longrightarrow> query_step srv (g, st) (asked g (fetch_answered 0 (Some (srv f p)) st))"
| qs_failure: "pq_flight st \<noteq> [] \<Longrightarrow> query_step srv (g, st) (asked g (fetch_answered 0 None st))"

text \<open>The newest request is for what is selected, and without a request the data are its answer or an error is shown.\<close>
definition query_ok :: "('f \<Rightarrow> query_params \<Rightarrow> 'd list \<times> nat) \<Rightarrow> 'f \<times> ('f, 'd) paginated_query \<Rightarrow> bool" where
  "query_ok srv x = (case x of (g, st) \<Rightarrow> pq_enabled st \<and>
     pq_deps st = Some (True, pq_params st, length (pq_data st)) \<and>
     (if pq_flight st = [] then pq_error st \<or> (pq_data st, pq_total st) = srv g (pq_params st)
      else last (pq_flight st) = (g, pq_params st)))"

lemma fetch_ok: "pq_enabled st \<Longrightarrow> pq_deps st = Some (True, pq_params st, length (pq_data st)) \<Longrightarrow> query_ok srv (asked g (fetch_data show st))"
  by (simp add: query_ok_def asked_def fetch_data_def Let_def)

lemma effect_ok:
  assumes "pq_enabled st" "pq_deps st = Some (True, pq_params st, length (pq_data st)) \<Longrightarrow> query_ok srv (asked g st)"
  shows "query_ok srv (asked g (query_effect st))"
  using assms by (auto simp: query_effect_def Let_def intro: fetch_ok)

lemma params_ok: "query_ok srv (g, st) \<Longrightarrow> query_ok srv (asked g (query_effect (st\<lparr> pq_params := p \<rparr>)))"
  by (rule effect_ok) (auto simp: query_ok_def asked_def)

lemma query_step_ok: "query_step srv x y \<Longrightarrow> query_ok srv x \<Longrightarrow> query_ok srv y"
proof (induction rule: query_step.induct)
  case (qs_answer st f p rest g)
  show ?case
  proof (cases rest)
    case Nil
    have "(f, p) = (g, pq_params st)" using qs_answer Nil by (simp add: query_ok_def)
    then show ?thesis using qs_answer Nil unfolding fetch_answered_def
      by (intro effect_ok) (auto simp: query_ok_def asked_def Let_def split: prod.splits)
  next
    case (Cons r rs)
    then show ?thesis using qs_answer unfolding fetch_answered_def
      by (intro effect_ok) (auto simp: query_ok_def asked_def Let_def split: prod.splits)
  qed
next
  case (qs_failure st g)
  then obtain r rs where "pq_flight st = r # rs" by (cases "pq_flight st") auto
  then show ?case using qs_failure unfolding fetch_answered_def
    by (intro effect_ok) (auto simp: query_ok_def asked_def Let_def)
next
  case (qs_refetch g st)
  then show ?case by (auto simp: refetch_def query_ok_def[of _ "(g, st)"] intro: fetch_ok)
next
  case (qs_fetcher g st f)
  then show ?case unfolding set_fetcher_def by (intro effect_ok) (auto simp: query_ok_def asked_def)
qed (simp_all add: set_page_def set_limit_def set_search_def set_sort_def params_ok)

lemma query_run_ok: "(query_step srv)\<^sup>*\<^sup>* (f, use_paginated_query True f) x \<Longrightarrow> query_ok srv x"
proof (induction rule: rtranclp_induct)
  case base
  show ?case by (simp add: use_paginated_query_def query_effect_def fetch_data_def query_ok_def Let_def)
qed (rule query_step_ok)


text \<open>A server with as many rows as the number of the page.\<close>
definition demo_server :: "unit \<Rightarrow> query_params \<Rightarrow> int list \<times> nat" where
  "demo_server f p = (replicate (nat (qp_page p)) (qp_page p), 7)"


text \<open>Answers out of order: the page chosen first is shown under the number of the second, and nothing is under way to correct it.\<close>
theorem late_answer_shown:
  "\<exists>st :: (unit, int) paginated_query. qp_page (pq_params st) = 3 \<and> pq_data st = [2] \<and> pq_flight st = []
    \<and> st = fetch_answered 0 (Some ([2], 9)) (fetch_answered 1 (Some ([3], 9)) (set_page 3 (set_page 2
        (fetch_answered 0 (Some ([1], 9)) (fetch_answered 0 (Some ([1], 9)) (use_paginated_query True ()))))))"
  by (intro exI[of _ "fetch_answered 0 (Some ([2], 9)) (fetch_answered 1 (Some ([3], 9)) (set_page 3 (set_page 2
        (fetch_answered 0 (Some ([1], 9)) (fetch_answered 0 (Some ([1], 9)) (use_paginated_query True ()))))))"])
    code_simp

section \<open>The monitor\<close>

record monitor =
  mo_connected :: bool
  mo_shots :: "screenshot list"

definition monitor_screenshot :: "screenshot \<Rightarrow> monitor \<Rightarrow> monitor" where
  "monitor_screenshot s st = st\<lparr> mo_shots := take 100 (s # mo_shots st) \<rparr>"

definition monitor_fetched :: "screenshot list \<Rightarrow> monitor \<Rightarrow> monitor" where
  "monitor_fetched l st = st\<lparr> mo_shots := l \<rparr>"

definition clear_screenshots :: "monitor \<Rightarrow> monitor" where
  "clear_screenshots st = st\<lparr> mo_shots := [] \<rparr>"

interpretation monitor_log: capped_list monitor_screenshot mo_shots 100 "\<lambda>_. True"
  by unfold_locales (simp_all add: monitor_screenshot_def)

context services begin

lemma pushed_shots:
  assumes "list_key now (w_ks (V w)) (exam_shots_key eid)" "ss \<noteq> []"
  shows "ks_list now (w_ks (V (fold (push_exam_shot S now eid) (map ShotDoc ss) w))) (exam_shots_key eid) =
    take 200 (rev (map ShotDoc ss) @ ks_list now (w_ks (V w)) (exam_shots_key eid))"
  using exam_shots.entries_pushes[OF assms(1), of "map ShotDoc ss"] assms(2) by (simp add: list_at_def)

end

lemma parse_shots [simp]: "List.map_filter parse_shot (map ShotDoc ss) = ss"
  by (induction ss) (simp_all add: List.map_filter_simps parse_shot_def)

lemma map_filter_all: "list_all (\<lambda>p. f p \<noteq> None) l \<Longrightarrow> List.map_filter f (take n l) = take n (List.map_filter f l)"
  by (induction l arbitrary: n) (auto simp: List.map_filter_simps take_Cons split: nat.split option.split)

lemma parsed_append: "List.map_filter f (xs @ ys) = List.map_filter f xs @ List.map_filter f ys"
  by (simp add: List.map_filter_def)

text \<open>The monitor shows the newest: an administrator who has fetched the stored screenshots of an exam and then gets those
  uploaded since, sees exactly the hundred newest of the list that the server keeps.\<close>
theorem monitor_shows_newest:
  assumes "services S V" "list_key now (w_ks (V w)) (exam_shots_key eid)" "ss \<noteq> []" "jp_role u = ADMIN"
    "list_all (\<lambda>p. parse_shot p \<noteq> None) (ks_list now (w_ks (V w)) (exam_shots_key eid))"
    "live_exam_screenshots S now u eid w = Inr stored"
    "live_exam_screenshots S now u eid (fold (push_exam_shot S now eid) (map ShotDoc ss) w) = Inr stored'"
  shows "mo_shots (fold monitor_screenshot ss (monitor_fetched stored st)) = take 100 stored'"
proof -
  let ?L = "ks_list now (w_ks (V w)) (exam_shots_key eid)"
  have lrange: "sv_lrange S now (exam_shots_key eid) 0 199 v = take 200 (ks_list now (w_ks (V v)) (exam_shots_key eid))" for v
    using services.lrange[OF assms(1), of now "exam_shots_key eid" 0 199 v] redis_range_take[of 200] by simp
  have a: "stored = take 200 (List.map_filter parse_shot ?L)"
    using assms(4,6) map_filter_all[OF assms(5)] by (simp add: live_exam_screenshots_def lrange)
  have "List.map_filter parse_shot (rev (map ShotDoc ss) @ ?L) = rev ss @ List.map_filter parse_shot ?L"
    using parse_shots[of "rev ss"] by (simp add: parsed_append rev_map)
  moreover have "list_all (\<lambda>p. parse_shot p \<noteq> None) (rev (map ShotDoc ss) @ ?L)" using assms(5) by (auto simp: list_all_iff parse_shot_def)
  ultimately have cut: "List.map_filter parse_shot (take 200 (rev (map ShotDoc ss) @ ?L)) = take 200 (rev ss @ List.map_filter parse_shot ?L)"
    using map_filter_all[of parse_shot "rev (map ShotDoc ss) @ ?L" 200] by simp
  have "stored' = List.map_filter parse_shot (take 200 (take 200 (rev (map ShotDoc ss) @ ?L)))"
    using assms(4,7) unfolding live_exam_screenshots_def lrange services.pushed_shots[OF assms(1,2,3)] by simp
  then have b: "stored' = take 200 (rev ss @ List.map_filter parse_shot ?L)"
    unfolding take_take min.idem cut .
  have "mo_shots (fold monitor_screenshot ss (monitor_fetched stored st)) = take 100 (rev ss @ stored)"
    using monitor_log.entries_pushes[OF TrueI assms(3), of "monitor_fetched stored st"] by (simp add: monitor_fetched_def)
  then show ?thesis unfolding a b by (simp add: take_append min_def)
qed

end
