(* ===== verification/Grader_Facts.thy ===== *)
theory Grader_Facts
  imports Grader_Worker Attempt_Lifecycle
begin

text \<open>
  What the grader makes of the server's jobs: the counters of the queue, the rows of the attempts, and the end of a
  job that keeps failing; the submission of a challenge the grader refuses, from the route to the row.
\<close>

section \<open>The counters\<close>

text \<open>The states a job leaves again, which the counters count down.\<close>
definition transient :: "job_state \<Rightarrow> bool" where
  "transient st = (st = Queued \<or> st = Processing \<or> st = Retrying)"

definition jobs_in :: "grader \<Rightarrow> job_state \<Rightarrow> id set" where
  "jobs_in g st = {j. \<exists>h. g_jobs g j = Some h \<and> jh_status h = Some st}"

definition queue_counters_ok :: "grader \<Rightarrow> bool" where
  "queue_counters_ok g = (finite (dom (g_jobs g)) \<and> (\<forall>st. transient st \<longrightarrow> g_stats g st = int (card (jobs_in g st))))"

lemma jobs_in_finite: "finite (dom (g_jobs g)) \<Longrightarrow> finite (jobs_in g st)"
  by (rule finite_subset[rotated]) (auto simp: jobs_in_def)

lemma jobs_in_upd: "jobs_in (g\<lparr> g_jobs := (g_jobs g)(j \<mapsto> h), g_stats := c \<rparr>) st =
    (if jh_status h = Some st then insert j (jobs_in g st) else jobs_in g st - {j})"
  by (auto simp: jobs_in_def)

lemma mem_jobs_in: "j \<in> jobs_in g st \<longleftrightarrow> jh_status (hash_at g j) = Some st"
  by (cases "g_jobs g j") (auto simp: jobs_in_def hash_at_def empty_hash_def)

lemma counters_cong: "g_jobs g' = g_jobs g \<Longrightarrow> g_stats g' = g_stats g \<Longrightarrow> queue_counters_ok g' = queue_counters_ok g"
  by (simp add: queue_counters_ok_def jobs_in_def)

lemma counters_frame [simp]:
  "queue_counters_ok (ack_and_delete s i g) = queue_counters_ok g" "queue_counters_ok (send_to_dlq j p e g) = queue_counters_ok g"
  "queue_counters_ok (zadd j t g) = queue_counters_ok g" "queue_counters_ok (publish_complete c g) = queue_counters_ok g"
  "queue_counters_ok (snd (store_results ok now aid r b g)) = queue_counters_ok g" "queue_counters_ok (xadd st j p g) = queue_counters_ok g"
  "queue_counters_ok (remove_run i g) = queue_counters_ok g" "queue_counters_ok (g\<lparr> g_runs := rs \<rparr>) = queue_counters_ok g"
  "queue_counters_ok (g\<lparr> g_hand := js \<rparr>) = queue_counters_ok g"
  by (rule counters_cong; simp)+

text \<open>Moving a job to a state, with the counters moved along.\<close>
lemma card_move:
  assumes "finite A" shows "int (card (insert j A)) = int (card A) + (if j \<in> A then 0 else 1)"
    "int (card (A - {j})) = int (card A) - (if j \<in> A then 1 else 0)"
  using assms card_Suc_Diff1[of A j] by (auto simp: insert_absorb)

lemma transition_counters:
  assumes "queue_counters_ok g" "\<And>h. jh_status (f h) = jh_status h" shows "queue_counters_ok (transition j n f g)"
proof -
  let ?h = "f ((hash_at g j)\<lparr> jh_status := Some n \<rparr>)"
  have fin: "finite (dom (g_jobs g))" and cnt: "\<And>st. transient st \<Longrightarrow> g_stats g st = int (card (jobs_in g st))"
    using assms(1) by (auto simp: queue_counters_ok_def)
  have ji: "jobs_in (transition j n f g) st = (if st = n then insert j (jobs_in g st) else jobs_in g st - {j})" for st
    by (auto simp: transition_def Let_def jobs_in_def assms(2))
  have stats: "g_stats (transition j n f g) st = g_stats g st + (if st = n then 1 else 0)
      - (if j \<in> jobs_in g st then 1 else 0)" if "transient st" for st
    using that by (auto simp: transition_def Let_def mem_jobs_in transient_def split: option.splits job_state.splits)
  have "finite (dom (g_jobs (transition j n f g)))" using fin by (simp add: transition_def Let_def)
  moreover have "g_stats (transition j n f g) st = int (card (jobs_in (transition j n f g) st))" if "transient st" for st
    using card_move[OF jobs_in_finite[OF fin, of st], of j] by (simp only: stats[OF that] ji cnt[OF that] split: if_split) auto
  ultimately show ?thesis by (simp add: queue_counters_ok_def)
qed

lemma update_hash_counters:
  assumes "queue_counters_ok g" "jh_status (f (hash_at g j)) = jh_status (hash_at g j)" shows "queue_counters_ok (update_job_hash j f g)"
proof -
  have "jobs_in (update_job_hash j f g) st = jobs_in g st" for st
    using assms(2) mem_jobs_in[of j g st] by (auto simp: update_job_hash_def jobs_in_def)
  moreover have "finite (dom (g_jobs (update_job_hash j f g)))" using assms(1) by (simp add: update_job_hash_def queue_counters_ok_def)
  ultimately show ?thesis using assms(1) by (simp add: queue_counters_ok_def)
qed

lemma progress_counters: "queue_counters_ok g \<Longrightarrow> queue_counters_ok (update_progress j p g)"
  unfolding update_progress_def by (rule update_hash_counters) simp_all

lemma reject_counters: "queue_counters_ok g \<Longrightarrow> queue_counters_ok (reject_message s m p e g)"
  by (simp add: reject_message_def transition_counters)

lemma begin_counters:
  assumes "queue_counters_ok g" shows "queue_counters_ok (snd (process_begin s m g))"
proof -
  have ack: "queue_counters_ok (ack_and_delete s (m_id m) g)" using assms by simp
  have go: "queue_counters_ok (update_job_hash j (jh_attempts_update (\<lambda>_. n)) (update_progress j q (transition j Processing (\<lambda>h. h)
      (update_job_hash j (\<lambda>h. h\<lparr> jh_payload := p, jh_attemptId := a, jh_isPreview := b \<rparr>) g))))" for j n q p a b
    by (intro update_hash_counters progress_counters transition_counters assms) simp_all
  show ?thesis using ack reject_counters[OF assms] go
    by (auto simp: process_begin_def Let_def split: job_payload.split option.split)
qed

lemma failure_counters: "queue_counters_ok g \<Longrightarrow> queue_counters_ok (process_failure cf now ok s m job n e g)"
  by (simp add: process_failure_def Let_def transition_counters)

lemma end_counters:
  assumes "queue_counters_ok g" shows "queue_counters_ok (process_end cf now out ok1 ok2 s m job n g)"
proof (cases out)
  case (Graded r)
  obtain x g1 where st: "store_results ok1 now (j_attemptId job) r (j_isPreview job) (update_progress (m_jobId m) 80 g) = (x, g1)" by force
  have "queue_counters_ok (snd (store_results ok1 now (j_attemptId job) r (j_isPreview job) (update_progress (m_jobId m) 80 g)))"
    using progress_counters[OF assms] by simp
  then have "queue_counters_ok g1" by (simp add: st)
  then show ?thesis
    by (cases x) (simp_all add: process_end_def Graded st failure_counters transition_counters progress_counters)
qed (simp add: process_end_def failure_counters assms)

text \<open>Events after which the counters could be off: the server records a job that the worker already took up, or the
  hash of a job expires that is not finished.\<close>
definition tidy :: "grader_event \<Rightarrow> grader \<Rightarrow> bool" where
  "tidy e g = (case e of
     Api_record j job \<Rightarrow> (case jh_status (hash_at g j) of None \<Rightarrow> True | Some st \<Rightarrow> \<not> transient st)
   | Hash_expires j \<Rightarrow> (case jh_status (hash_at g j) of None \<Rightarrow> True | Some st \<Rightarrow> \<not> transient st)
   | _ \<Rightarrow> True)"

fun tidy_run :: "grader_config \<Rightarrow> grader_event list \<Rightarrow> grader \<Rightarrow> bool" where
  "tidy_run cf [] g = True"
| "tidy_run cf (e # es) g = (tidy e g \<and> tidy_run cf es (grader_step cf e g))"

lemma record_counters:
  assumes "queue_counters_ok g" "tidy (Api_record j job) g" shows "queue_counters_ok (api_record j job g)"
proof -
  have fin: "finite (dom (g_jobs g))" and cnt: "\<And>st. transient st \<Longrightarrow> g_stats g st = int (card (jobs_in g st))"
    using assms(1) by (auto simp: queue_counters_ok_def)
  have out: "j \<notin> jobs_in g st" if "transient st" for st
    using assms(2) that by (auto simp: mem_jobs_in tidy_def)
  have ji: "jobs_in (api_record j job g) st = (if st = Queued then insert j (jobs_in g st) else jobs_in g st - {j})" for st
    by (auto simp: api_record_def jobs_in_def)
  have "g_stats (api_record j job g) st = int (card (jobs_in (api_record j job g) st))" if "transient st" for st
  proof (cases "st = Queued")
    case True
    then show ?thesis using card_move(1)[OF jobs_in_finite[OF fin, of Queued], of j] out[OF that] cnt[OF that]
      by (simp add: ji) (simp add: api_record_def)
  next
    case False
    then have "jobs_in (api_record j job g) st = jobs_in g st" using out[OF that] by (simp add: ji)
    then show ?thesis using False cnt[OF that] by (simp add: api_record_def)
  qed
  then show ?thesis using fin by (simp add: queue_counters_ok_def api_record_def)
qed

lemma expire_counters:
  assumes "queue_counters_ok g" "tidy (Hash_expires j) g" shows "queue_counters_ok (g\<lparr> g_jobs := (g_jobs g)(j := None) \<rparr>)"
proof -
  have out: "j \<notin> jobs_in g st" if "transient st" for st
    using assms(2) that by (auto simp: mem_jobs_in tidy_def)
  have ji: "jobs_in (g\<lparr> g_jobs := (g_jobs g)(j := None) \<rparr>) st = jobs_in g st - {j}" for st
    by (auto simp: jobs_in_def)
  show ?thesis using assms(1) out by (simp add: queue_counters_ok_def ji)
qed

lemma requeue_counters: "queue_counters_ok g \<Longrightarrow> queue_counters_ok (requeue_job j g)"
  by (simp add: requeue_job_def Let_def transition_counters)

lemma step_counters:
  assumes "queue_counters_ok g" "tidy e g" shows "queue_counters_ok (grader_step cf e g)"
proof (cases e)
  case (Begin i)
  have "queue_counters_ok (begin_run i g)"
  proof (cases "i < length (g_runs g)")
    case True
    show ?thesis
    proof (cases "g_runs g ! i")
      case (Received s m)
      obtain x g' where "process_begin s m g = (x, g')" by force
      then show ?thesis using begin_counters[OF assms(1), of s m] True Received
        by (cases x) (simp_all add: begin_run_def)
    qed (simp add: begin_run_def assms(1))
  qed (simp add: begin_run_def assms(1))
  then show ?thesis by (simp add: Begin)
next
  case (Answer i out ok1 ok2 now)
  then show ?thesis using assms(1) by (simp add: end_run_def end_counters split: run.split)
next
  case Requeue
  then show ?thesis using assms(1) by (simp add: requeue_next_def requeue_counters split: list.split)
next
  case (Api_record j job)
  then show ?thesis using record_counters[OF assms(1)] assms(2) by simp
next
  case (Hash_expires j)
  then show ?thesis using expire_counters[OF assms(1)] assms(2) by simp
next
  case (Turn now)
  have r: "queue_counters_ok (read_and_dispatch cf now s g') = queue_counters_ok g'" for s g'
    by (rule counters_cong) (simp_all add: read_frame)
  show ?thesis using assms(1) by (simp add: Turn processing_turn_def Let_def r)
next
  case (Reclaim s now)
  have "queue_counters_ok (reclaim_stream cf now s g) = queue_counters_ok g" by (rule counters_cong) (simp_all add: reclaim_frame)
  then show ?thesis using assms(1) Reclaim by simp
qed (use assms(1) in \<open>simp_all add: api_add_def take_due_def retry_cleanup_def Let_def queue_counters_ok_def jobs_in_def\<close>)

lemma run_counters: "queue_counters_ok g \<Longrightarrow> tidy_run cf es g \<Longrightarrow> queue_counters_ok (grader_run cf es g)"
  by (induction es arbitrary: g) (simp_all add: step_counters)

text \<open>C15: The counters of the queue count jobs. Along every run in which the server records a job before the worker
  takes it up and no hash of an unfinished job expires, whatever else happens (failures, retries, takeovers, crashes), the
  counters of queued, active and retrying jobs are the numbers of jobs with that status.\<close>
theorem queue_counters_exact:
  assumes "tidy_run cf es (start_grader rows)" "st = Queued \<or> st = Processing \<or> st = Retrying"
  shows "g_stats (grader_run cf es (start_grader rows)) st
    = int (card {j. \<exists>h. g_jobs (grader_run cf es (start_grader rows)) j = Some h \<and> jh_status h = Some st})"
proof -
  have "queue_counters_ok (start_grader rows)" by (simp add: queue_counters_ok_def jobs_in_def start_grader_def)
  from run_counters[OF this assms(1)] show ?thesis using assms(2) unfolding queue_counters_ok_def jobs_in_def transient_def by blast
qed

section \<open>Jobs the grader refuses\<close>

fun payload_refused :: "id \<Rightarrow> job_payload \<Rightarrow> bool" where
  "payload_refused aid (Readable job) = (j_attemptId job = aid \<longrightarrow> validate_job_payload job \<noteq> None)"
| "payload_refused aid _ = True"

fun run_spares :: "id \<Rightarrow> run \<Rightarrow> bool" where
  "run_spares aid (Grading s m job n) = (j_attemptId job \<noteq> aid)"
| "run_spares aid (Received s m) = True"

text \<open>Every payload for the attempt, on a stream, in a goroutine or in a job hash, is one the worker refuses.\<close>
definition all_refused :: "id \<Rightarrow> grader \<Rightarrow> bool" where
  "all_refused aid g = ((\<forall>m\<in>messages g. payload_refused aid (m_payload m)) \<and> (\<forall>j. payload_refused aid (jh_payload (hash_at g j)))
     \<and> (\<forall>r\<in>set (g_runs g). run_spares aid r))"

definition sends_refused :: "id \<Rightarrow> grader_event \<Rightarrow> bool" where
  "sends_refused aid e = (case e of Api_add j job \<Rightarrow> payload_refused aid (Readable job)
     | Api_record j job \<Rightarrow> payload_refused aid (Readable job) | _ \<Rightarrow> True)"

lemma refusedI:
  assumes "all_refused aid g" "messages g' \<subseteq> messages g" "\<And>j. jh_payload (hash_at g' j) = jh_payload (hash_at g j)"
    "set (g_runs g') \<subseteq> set (g_runs g)"
  shows "all_refused aid g'"
  using assms unfolding all_refused_def by auto

lemma hash_at_transition [simp]: "hash_at (transition j n f g) k =
    (if k = j then f ((hash_at g j)\<lparr> jh_status := Some n \<rparr>) else hash_at g k)"
  by (simp add: hash_at_def transition_def Let_def)

lemma hash_at_update [simp]: "hash_at (update_job_hash j f g) k = (if k = j then f (hash_at g j) else hash_at g k)"
  by (simp add: hash_at_def update_job_hash_def)

lemma hash_at_progress [simp]: "hash_at (update_progress j p g) k =
    (if k = j then (hash_at g j)\<lparr> jh_progress := p \<rparr> else hash_at g k)"
  by (simp add: update_progress_def)

lemma hash_at_cong [simp]:
  "hash_at (ack_and_delete s i g) = hash_at g" "hash_at (send_to_dlq j p e g) = hash_at g" "hash_at (zadd j t g) = hash_at g"
  "hash_at (publish_complete c g) = hash_at g" "hash_at (snd (store_results ok now aid r b g)) = hash_at g"
  "hash_at (xadd st j p g) = hash_at g" "hash_at (remove_run i g) = hash_at g" "hash_at (g\<lparr> g_runs := rs \<rparr>) = hash_at g"
  "hash_at (g\<lparr> g_hand := js \<rparr>) = hash_at g" "hash_at (g\<lparr> g_retry := rt \<rparr>) = hash_at g"
  by (rule ext, simp add: hash_at_def)+

lemma begin_refused:
  assumes "all_refused aid g" "m \<in> messages g"
  shows "payload_refused aid (jh_payload (hash_at (snd (process_begin s m g)) k))"
    "fst (process_begin s m g) = Some r \<Longrightarrow> run_spares aid r"
proof -
  have h: "payload_refused aid (jh_payload (hash_at g j))" for j using assms(1) by (simp add: all_refused_def)
  have m: "payload_refused aid (m_payload m)" using assms by (simp add: all_refused_def)
  show "payload_refused aid (jh_payload (hash_at (snd (process_begin s m g)) k))"
    using h[of k] h[of "m_jobId m"] m
    by (auto simp: process_begin_def reject_message_def Let_def split: job_payload.split option.split)
  show "run_spares aid r" if "fst (process_begin s m g) = Some r"
    using that h[of "m_jobId m"] m
    by (auto simp: process_begin_def Let_def split: job_payload.splits option.splits if_splits)
qed

lemma failure_hash: "jh_payload (hash_at (process_failure cf now ok s m job n e g) k) = jh_payload (hash_at g k)"
  by (simp add: process_failure_def Let_def)

lemma end_hash: "jh_payload (hash_at (process_end cf now out ok1 ok2 s m job n g) k) = jh_payload (hash_at g k)"
proof (cases out)
  case (Graded r)
  obtain x g1 where st: "store_results ok1 now (j_attemptId job) r (j_isPreview job) (update_progress (m_jobId m) 80 g) = (x, g1)" by force
  have "hash_at g1 = hash_at (update_progress (m_jobId m) 80 g)"
    using hash_at_cong(5)[of ok1 now "j_attemptId job" r "j_isPreview job" "update_progress (m_jobId m) 80 g"] st by simp
  then show ?thesis by (cases x) (simp_all add: process_end_def Graded st failure_hash)
qed (simp add: process_end_def failure_hash)

lemma store_rows: "aid' \<noteq> aid \<Longrightarrow> g_rows (snd (store_results ok now aid' r b g)) aid = g_rows g aid"
  by (simp add: store_results_def)

lemma failure_rows: "j_attemptId job \<noteq> aid \<Longrightarrow> g_rows (process_failure cf now ok s m job n e g) aid = g_rows g aid"
  by (simp add: process_failure_def Let_def store_rows)

lemma end_rows:
  assumes "j_attemptId job \<noteq> aid" shows "g_rows (process_end cf now out ok1 ok2 s m job n g) aid = g_rows g aid"
proof (cases out)
  case (Graded r)
  obtain x g1 where st: "store_results ok1 now (j_attemptId job) r (j_isPreview job) (update_progress (m_jobId m) 80 g) = (x, g1)" by force
  have "g_rows g1 aid = g_rows g aid" using store_rows[OF assms, of ok1 now r "j_isPreview job" "update_progress (m_jobId m) 80 g"] st by simp
  then show ?thesis by (cases x) (simp_all add: process_end_def Graded st failure_rows assms)
qed (simp add: process_end_def failure_rows assms)

lemma run_in_messages: "i < length (g_runs g) \<Longrightarrow> run_message (g_runs g ! i) \<in> messages g"
  by (auto simp: messages_def)

lemma begin_run_refused:
  assumes "all_refused aid g" shows "all_refused aid (begin_run i g)" "g_rows (begin_run i g) = g_rows g"
proof -
  have "all_refused aid (begin_run i g) \<and> g_rows (begin_run i g) = g_rows g"
  proof (cases "i < length (g_runs g)")
    case True
    show ?thesis
    proof (cases "g_runs g ! i")
      case (Received s m)
      obtain x g' where b: "process_begin s m g = (x, g')" by force
      have mem: "m \<in> messages g" using run_in_messages[OF True] Received by simp
      have f: "g_new g' = g_new g" "g_runs g' = g_runs g" "\<And>s'. set (g_pending g' s') \<subseteq> set (g_pending g s')" "g_rows g' = g_rows g"
        using begin_frame[of s m g] b by simp_all
      have pay: "payload_refused aid (jh_payload (hash_at g' k))" for k using begin_refused(1)[OF assms mem, of s k] b by simp
      have old: "\<forall>m\<in>messages g. payload_refused aid (m_payload m)" "\<forall>r\<in>set (g_runs g). run_spares aid r"
        using assms by (simp_all add: all_refused_def)
      show ?thesis
      proof (cases x)
        case None
        have "messages (remove_run i g') \<subseteq> messages g"
          by (rule messages_sub) (use f drop_run_messages[of i "g_runs g"] in \<open>auto simp: remove_run_def\<close>)
        moreover have "set (g_runs (remove_run i g')) \<subseteq> set (g_runs g)" by (auto simp: remove_run_def f dest: in_set_takeD in_set_dropD)
        ultimately show ?thesis using old pay f(4) by (auto simp: begin_run_def True Received b None all_refused_def)
      next
        case (Some r)
        have r: "run_spares aid r" "run_message r = m" using begin_refused(2)[OF assms mem, of s r] begin_message[of s m g r g'] b Some by simp_all
        have runs: "set ((g_runs g)[i := r]) \<subseteq> insert r (set (g_runs g))" by (rule set_update_subset_insert)
        have "run_message ` set ((g_runs g)[i := r]) \<subseteq> run_message ` set (g_runs g)"
        proof -
          have "m \<in> run_message ` set (g_runs g)" using True Received by (force simp: in_set_conv_nth)
          then show ?thesis using image_mono[OF runs, of run_message] r(2) by auto
        qed
        then have "messages (g'\<lparr> g_runs := (g_runs g)[i := r] \<rparr>) \<subseteq> messages g" by (intro messages_sub) (simp_all add: f)
        then show ?thesis using old pay r(1) runs by (auto simp: begin_run_def True Received b Some all_refused_def f(2,4))
      qed
    qed (simp add: begin_run_def True assms)
  qed (simp add: begin_run_def assms)
  then show "all_refused aid (begin_run i g)" "g_rows (begin_run i g) = g_rows g" by simp_all
qed

lemma end_run_refused:
  assumes "all_refused aid g"
  shows "all_refused aid (end_run cf i out ok1 ok2 now g)" "g_rows (end_run cf i out ok1 ok2 now g) aid = g_rows g aid"
proof -
  have "all_refused aid (end_run cf i out ok1 ok2 now g) \<and> g_rows (end_run cf i out ok1 ok2 now g) aid = g_rows g aid"
  proof (cases "i < length (g_runs g)")
    case True
    show ?thesis
    proof (cases "g_runs g ! i")
      case (Grading s m job n)
      then have e: "end_run cf i out ok1 ok2 now g = remove_run i (process_end cf now out ok1 ok2 s m job n g)"
        using True by (simp add: end_run_def)
      have "run_spares aid (g_runs g ! i)" using assms True by (simp add: all_refused_def)
      then have rows: "g_rows (process_end cf now out ok1 ok2 s m job n g) aid = g_rows g aid" using Grading by (simp add: end_rows)
      have "all_refused aid (remove_run i (process_end cf now out ok1 ok2 s m job n g))"
      proof (rule refusedI[OF assms])
        show "messages (remove_run i (process_end cf now out ok1 ok2 s m job n g)) \<subseteq> messages g"
          by (rule messages_sub) (use end_frame[of cf now out ok1 ok2 s m job n g] drop_run_messages[of i "g_runs g"] in
            \<open>auto simp: remove_run_def\<close>)
        show "set (g_runs (remove_run i (process_end cf now out ok1 ok2 s m job n g))) \<subseteq> set (g_runs g)"
          by (auto simp: remove_run_def end_frame dest: in_set_takeD in_set_dropD)
      qed (simp add: end_hash)
      then show ?thesis using rows by (simp add: e)
    qed (simp add: end_run_def True assms)
  qed (simp add: end_run_def assms)
  then show "all_refused aid (end_run cf i out ok1 ok2 now g)" "g_rows (end_run cf i out ok1 ok2 now g) aid = g_rows g aid" by simp_all
qed

lemma xadd_refused:
  assumes "all_refused aid g" "payload_refused aid p" shows "all_refused aid (xadd s j p g)"
proof -
  have "messages (xadd s j p g) \<subseteq> insert \<lparr> m_id = g_seq g, m_jobId = j, m_payload = p \<rparr> (messages g)"
    by (auto simp: messages_def split: if_splits)
  then show ?thesis using assms unfolding all_refused_def by auto
qed

lemma requeue_refused:
  assumes "all_refused aid g" shows "all_refused aid (requeue_job j g)"
proof -
  have h: "payload_refused aid (jh_payload (hash_at g j))" using assms by (simp add: all_refused_def)
  have t: "all_refused aid (transition j st f g')" if "all_refused aid g'" "\<And>h. jh_payload (f h) = jh_payload h" for st f g'
    by (rule refusedI[OF that(1)]) (simp_all add: messages_def stream_set_def that(2))
  have d: "all_refused aid (send_to_dlq j p e g')" if "all_refused aid g'" for p e g'
    by (rule refusedI[OF that]) (simp_all add: messages_def stream_set_def)
  show ?thesis using assms h by (simp add: requeue_job_def Let_def t d xadd_refused)
qed

lemma step_refused:
  assumes "all_refused aid g" "sends_refused aid e"
  shows "all_refused aid (grader_step cf e g)" "g_rows (grader_step cf e g) aid = g_rows g aid"
proof -
  have same: "all_refused aid g'" if "g_new g' = g_new g" "g_pending g' = g_pending g" "set (g_runs g') \<subseteq> set (g_runs g)"
      "\<And>j. payload_refused aid (jh_payload (hash_at g' j))" for g'
  proof -
    have "messages g' \<subseteq> messages g" by (rule messages_sub) (use that in \<open>auto intro: image_mono\<close>)
    then show ?thesis using assms(1) that(3,4) unfolding all_refused_def by blast
  qed
  have h: "payload_refused aid (jh_payload (hash_at g j))" for j using assms(1) by (simp add: all_refused_def)
  have read: "all_refused aid (read_and_dispatch cf now s g')" if "all_refused aid g'" for now s g'
  proof -
    have "messages (read_and_dispatch cf now s g') \<subseteq> messages g'"
      unfolding messages_def using read_frame(2)[of cf now s g'] by (auto simp: read_frame(1))
    moreover have "set (g_runs (read_and_dispatch cf now s g')) \<subseteq> set (g_runs g') \<union> range (Received s)"
      by (auto simp: read_and_dispatch_def Let_def)
    ultimately show ?thesis using that unfolding all_refused_def by (auto simp: hash_at_def read_frame)
  qed
  have "all_refused aid (grader_step cf e g) \<and> g_rows (grader_step cf e g) aid = g_rows g aid"
  proof (cases e)
    case (Begin i)
    then show ?thesis using begin_run_refused[OF assms(1)] by simp
  next
    case (Answer i out ok1 ok2 now)
    then show ?thesis using end_run_refused[OF assms(1)] by simp
  next
    case (Turn now)
    then show ?thesis using assms(1) by (simp add: processing_turn_def Let_def read read_frame)
  next
    case (Reclaim s now)
    have "messages (reclaim_stream cf now s g) \<subseteq> messages g"
      unfolding messages_def using reclaim_frame(2)[of cf now s g] by (auto simp: reclaim_frame(1))
    moreover have "set (g_runs (reclaim_stream cf now s g)) \<subseteq> set (g_runs g) \<union> range (Received s)"
      by (auto simp: reclaim_stream_def Let_def)
    ultimately show ?thesis using assms(1) Reclaim unfolding all_refused_def by (auto simp: hash_at_def reclaim_frame)
  next
    case Requeue
    have "all_refused aid (g\<lparr> g_hand := js \<rparr>)" for js by (rule same) (simp_all add: h)
    then show ?thesis using assms(1) by (simp add: Requeue requeue_next_def requeue_refused requeue_fields split: list.split)
  next
    case (Api_add j job)
    then show ?thesis using xadd_refused[OF assms(1)] assms(2) by (simp add: api_add_def sends_refused_def)
  next
    case (Api_record j job)
    have "all_refused aid (api_record j job g)"
      by (rule same) (use assms(2) h in \<open>auto simp: api_record_def hash_at_def Api_record sends_refused_def\<close>)
    then show ?thesis using Api_record by (simp add: api_record_def)
  next
    case (Hash_expires j)
    have "all_refused aid (g\<lparr> g_jobs := (g_jobs g)(j := None) \<rparr>)"
      by (rule same) (use h in \<open>auto simp: hash_at_def empty_hash_def\<close>)
    then show ?thesis using Hash_expires by simp
  next
    case Crash
    have "all_refused aid (g\<lparr> g_runs := [], g_hand := [] \<rparr>)" using assms(1) unfolding all_refused_def messages_def stream_set_def hash_at_def by auto
    then show ?thesis using Crash by simp
  next
    case (Due now)
    have "all_refused aid (take_due now g)" by (rule same) (use h in \<open>simp_all add: take_due_def Let_def hash_at_def\<close>)
    then show ?thesis using Due by (simp add: take_due_def Let_def)
  next
    case (Cleanup now)
    have "all_refused aid (retry_cleanup cf now g)" by (rule same) (use h in \<open>simp_all add: retry_cleanup_def hash_at_def\<close>)
    then show ?thesis using Cleanup by (simp add: retry_cleanup_def)
  next
    case (Pause b)
    have "all_refused aid (g\<lparr> g_paused := b \<rparr>)" by (rule same) (use h in \<open>simp_all add: hash_at_def\<close>)
    then show ?thesis using Pause by simp
  qed
  then show "all_refused aid (grader_step cf e g)" "g_rows (grader_step cf e g) aid = g_rows g aid" by simp_all
qed

lemma run_refused:
  "all_refused aid g \<Longrightarrow> \<forall>e\<in>set es. sends_refused aid e \<Longrightarrow> g_rows (grader_run cf es g) aid = g_rows g aid"
  by (induction es arbitrary: g) (simp_all add: step_refused)

lemma start_refused: "all_refused aid (start_grader rows)"
  by (simp add: all_refused_def messages_def stream_set_def start_grader_def hash_at_def empty_hash_def)

lemma full_job_refused: "c_runner c = None \<or> c_runner c = Some RJest \<Longrightarrow> payload_refused k (Readable (full_job aid fs c))"
  by (auto simp: full_job_def validate_job_payload_def)

text \<open>C16: A challenge without a runner, or with the runner for Jest, is never graded, though the shared types call the first the
  platform's legacy behaviour and offer the second. The submission is accepted and the attempt becomes GRADING; the worker refuses
  the job and tells the attempt nothing. Whatever happens afterwards, as long as the server queues only jobs
  of this challenge for the attempt, its row stays GRADING, without scores.\<close>
theorem submission_without_runner_stuck:
  assumes "services S V" "w_attempts (V w) aid = Some a" "a_candidateId a = jp_userId u" "a_status a = IN_PROGRESS"
    "challenge_of (V w) a = Some c" "c_runner c = None \<or> c_runner c = Some RJest" "aid \<noteq> ''dirty''"
    "stream_key now (w_ks (V w)) stream_high"
    "submit_attempt S now uuid u aid (Some req) (n, w) = (Inr jid, n', w')"
    "job = full_job aid (final_files now (V w) req a) c"
    "\<forall>j job'. Api_add j job' \<in> set es \<or> Api_record j job' \<in> set es \<longrightarrow> j_attemptId job' \<noteq> aid \<or> j_runner job' = c_runner c"
  shows "queue_jobs now (V w') stream_high = queue_jobs now (V w) stream_high @ [job]
    \<and> g_rows (grader_run cf ([Api_add jid job, Api_record jid job] @ es) (start_grader (w_attempts (V w')))) aid
        = Some (submitted_row now (final_files now (V w) req a) a)
    \<and> a_status (submitted_row now (final_files now (V w) req a) a) = GRADING"
proof -
  note sub = services.submit_success[OF assms(1-5,7,8,9)]
  have ev: "sends_refused aid e" if "e \<in> set ([Api_add jid job, Api_record jid job] @ es)" for e
  proof -
    have ref: "payload_refused aid (Readable job')" if "j_attemptId job' \<noteq> aid \<or> j_runner job' = c_runner c" for job'
      using that assms(6) by (auto simp: validate_job_payload_def)
    have "payload_refused aid (Readable job)" using full_job_refused[OF assms(6)] assms(10) by simp
    then show ?thesis using that assms(11) ref by (cases e) (auto simp: sends_refused_def)
  qed
  have "g_rows (grader_run cf ([Api_add jid job, Api_record jid job] @ es) (start_grader (w_attempts (V w')))) aid
      = g_rows (start_grader (w_attempts (V w'))) aid"
    by (rule run_refused[OF start_refused]) (use ev in blast)
  then show ?thesis using sub(2,3) assms(10) by (simp add: start_grader_def submitted_row_def)
qed

section \<open>The grader in the life of an attempt\<close>

text \<open>Where one row goes: nowhere, or by a move of the abstract machine.\<close>
definition row_moves :: "grader \<Rightarrow> grader \<Rightarrow> bool" where
  "row_moves g g' = (\<forall>k. abstract_move (map_option abs_attempt (g_rows g k)) (map_option abs_attempt (g_rows g' k)))"

lemma row_moves_same: "g_rows g' = g_rows g \<Longrightarrow> row_moves g g'"
  by (simp add: row_moves_def am_stay)

lemma store_moves: "row_moves g (snd (store_results ok now aid r p g))"
  by (cases "g_rows g aid") (auto simp: row_moves_def store_results_def am_stay result_row_move)

lemma row_moves_cong: "row_moves g g' \<Longrightarrow> g_rows h = g_rows g \<Longrightarrow> g_rows h' = g_rows g' \<Longrightarrow> row_moves h h'"
  by (simp add: row_moves_def)

lemma failure_moves: "row_moves g (process_failure cf now ok s m job n e g)"
  by (rule row_moves_cong[OF store_moves[of g ok now "j_attemptId job" "failure_result (sanitize_worker_error e)" "j_isPreview job"]])
    (simp_all add: process_failure_def Let_def)

lemma store_Inl: "store_results ok now aid r p g = (Inl e, g1) \<Longrightarrow> g1 = g"
  by (auto simp: store_results_def split: if_splits)

lemma end_moves: "row_moves g (process_end cf now out ok1 ok2 s m job n g)"
proof (cases out)
  case (Graded r)
  obtain x g1 where st: "store_results ok1 now (j_attemptId job) r (j_isPreview job) (update_progress (m_jobId m) 80 g) = (x, g1)" by force
  show ?thesis
  proof (cases x)
    case (Inl e)
    then have "g1 = update_progress (m_jobId m) 80 g" using store_Inl st by blast
    then show ?thesis using row_moves_cong[OF failure_moves[of g1 cf now ok2 s m job n]] by (simp add: process_end_def Graded st Inl)
  next
    case (Inr r')
    then show ?thesis
      using row_moves_cong[OF store_moves[of "update_progress (m_jobId m) 80 g" ok1 now "j_attemptId job" r "j_isPreview job"]]
      by (simp add: process_end_def Graded st)
  qed
qed (simp add: process_end_def failure_moves)

lemma end_run_moves: "row_moves g (end_run cf i out ok1 ok2 now g)"
proof (cases "i < length (g_runs g)")
  case True
  show ?thesis
  proof (cases "g_runs g ! i")
    case (Grading s m job n)
    then show ?thesis using True row_moves_cong[OF end_moves[of g cf now out ok1 ok2 s m job n]] by (simp add: end_run_def)
  qed (simp add: end_run_def True row_moves_same)
qed (simp add: end_run_def row_moves_same)

lemma begin_run_rows: "g_rows (begin_run i g) = g_rows g"
proof (cases "i < length (g_runs g)")
  case True
  show ?thesis
  proof (cases "g_runs g ! i")
    case (Received s m)
    obtain x g' where b: "process_begin s m g = (x, g')" by force
    then have "g_rows g' = g_rows g" using begin_frame(4)[of s m g] by simp
    then show ?thesis by (cases x) (simp_all add: begin_run_def True Received b)
  qed (simp add: begin_run_def True)
qed (simp add: begin_run_def)

lemma step_moves: "row_moves g (grader_step cf e g)"
proof (cases e)
  case (Answer i out ok1 ok2 now)
  then show ?thesis by (simp add: end_run_moves)
next
  case (Begin i)
  then show ?thesis by (simp add: row_moves_same begin_run_rows)
next
  case (Turn now)
  then show ?thesis by (simp add: row_moves_same processing_turn_def Let_def read_frame)
next
  case (Reclaim s now)
  then show ?thesis by (simp add: row_moves_same reclaim_frame)
next
  case Requeue
  then show ?thesis by (cases "g_hand g") (simp_all add: row_moves_same requeue_next_def requeue_fields)
qed (auto intro!: row_moves_same simp: api_add_def api_record_def take_due_def retry_cleanup_def Let_def)

text \<open>The grader keeps to the life of an attempt: along any run of its events every row moves as the abstract machine of
  \<^verbatim>\<open>Attempt_Lifecycle\<close> allows, so the worker neither reopens an attempt nor changes its candidate, exam, start or the time of its submission.\<close>
theorem grader_simulated:
  "abstract_move\<^sup>*\<^sup>* (map_option abs_attempt (g_rows g k)) (map_option abs_attempt (g_rows (grader_run cf es g) k))"
proof (induction es arbitrary: g)
  case (Cons e es)
  have "abstract_move (map_option abs_attempt (g_rows g k)) (map_option abs_attempt (g_rows (grader_step cf e g) k))"
    using step_moves[of g cf e] by (simp add: row_moves_def)
  then show ?case using Cons.IH[of "grader_step cf e g"] by (simp add: converse_rtranclp_into_rtranclp)
qed simp

section \<open>Retries end\<close>

text \<open>The delay is never longer than its bound.\<close>
lemma retry_delay_le: "retry_delay base mx n \<le> mx"
  by (simp add: retry_delay_def Let_def)

text \<open>The events that write the number of attempts of a job anew: the server's record of the job, and the end of its life in Redis.\<close>
fun rewrites_hash :: "id \<Rightarrow> grader_event \<Rightarrow> bool" where
  "rewrites_hash j (Api_record k job) = (k = j)"
| "rewrites_hash j (Hash_expires k) = (k = j)"
| "rewrites_hash j e = False"

text \<open>An answer of the grader for a job that is put back for another attempt, and how many of them a run of events has.\<close>
fun put_back :: "grader_config \<Rightarrow> id \<Rightarrow> grader_event \<Rightarrow> grader \<Rightarrow> bool" where
  "put_back cf j (Answer i out ok1 ok2 now) g = (i < length (g_runs g) \<and> (case g_runs g ! i of Received s m \<Rightarrow> False
     | Grading s m job n \<Rightarrow> m_jobId m = j \<and> jh_status (hash_at (end_run cf i out ok1 ok2 now g) j) = Some Retrying))"
| "put_back cf j e g = False"

fun retries :: "grader_config \<Rightarrow> id \<Rightarrow> grader_event list \<Rightarrow> grader \<Rightarrow> nat" where
  "retries cf j [] g = 0"
| "retries cf j (e # es) g = (if put_back cf j e g then 1 else 0) + retries cf j es (grader_step cf e g)"

text \<open>The numbers of the attempts that are running.\<close>
fun numbers :: "id \<Rightarrow> run list \<Rightarrow> int list" where
  "numbers j [] = []"
| "numbers j (Received s m # rs) = numbers j rs"
| "numbers j (Grading s m job n # rs) = (if m_jobId m = j then n # numbers j rs else numbers j rs)"

abbreviation tries_of :: "grader \<Rightarrow> id \<Rightarrow> int" where
  "tries_of g j \<equiv> jh_attempts (hash_at g j)"

lemma numbers_append [simp]: "numbers j (rs @ rs') = numbers j rs @ numbers j rs'"
  by (induction j rs rule: numbers.induct) auto

lemma numbers_received [simp]: "numbers j (map (Received s) ms) = []"
  by (induction ms) simp_all

lemma numbers_split: "i < length rs \<Longrightarrow> numbers j rs = numbers j (take i rs) @ numbers j [rs ! i] @ numbers j (drop (Suc i) rs)"
  by (metis append_Cons append_Nil id_take_nth_drop numbers_append)

lemma numbers_update: "i < length rs \<Longrightarrow> numbers j (rs[i := r]) = numbers j (take i rs) @ numbers j [r] @ numbers j (drop (Suc i) rs)"
  by (metis append_Cons append_Nil upd_conv_take_nth_drop numbers_append)

lemma numbers_none: "\<forall>r\<in>set rs. m_jobId (run_message r) \<noteq> j \<Longrightarrow> numbers j rs = []"
  by (induction j rs rule: numbers.induct) auto

lemma attempts_frames [simp]:
  "tries_of (update_progress k p g) j = tries_of g j" "tries_of (ack_and_delete s i g) j = tries_of g j"
  "tries_of (send_to_dlq k q e g) j = tries_of g j" "tries_of (publish_complete c g) j = tries_of g j"
  "tries_of (zadd k t g) j = tries_of g j" "tries_of (xadd st k q g) j = tries_of g j"
  "tries_of (remove_run i' g) j = tries_of g j" "tries_of (g\<lparr> g_hand := js \<rparr>) j = tries_of g j"
  "tries_of (g\<lparr> g_runs := rs \<rparr>) j = tries_of g j" "tries_of (g\<lparr> g_paused := b \<rparr>) j = tries_of g j"
  "tries_of (g\<lparr> g_retry := zs \<rparr>) j = tries_of g j"
  by (simp_all add: hash_at_def update_progress_def update_job_hash_def ack_and_delete_def send_to_dlq_def publish_complete_def zadd_def
      xadd_def remove_run_def)

lemma attempts_store [simp]: "tries_of (snd (store_results ok now aid r p g)) j = tries_of g j"
  by (simp add: hash_at_def)

lemma attempts_transition: "(\<And>h. jh_attempts (f h) = jh_attempts h) \<Longrightarrow> tries_of (transition k st f g) j = tries_of g j"
  by (simp add: transition_def Let_def hash_at_def)

lemma status_transition [simp]: "(\<And>h. jh_status (f h) = jh_status h) \<Longrightarrow> jh_status (hash_at (transition j st f g) j) = Some st"
  by (simp add: transition_def Let_def hash_at_def)

lemma hash_frames [simp]:
  "hash_at (ack_and_delete s i g) j = hash_at g j" "hash_at (send_to_dlq k q e g) j = hash_at g j" "hash_at (zadd k t g) j = hash_at g j"
  "hash_at (remove_run i' g) j = hash_at g j"
  by (simp_all add: hash_at_def remove_run_def)

text \<open>How the processing of a message ends: with a result, back in the retry set, or in the dead letters.\<close>
definition answered :: "grader_config \<Rightarrow> time \<Rightarrow> id \<Rightarrow> grading_job \<Rightarrow> int \<Rightarrow> grader \<Rightarrow> grader \<Rightarrow> bool" where
  "answered cf now j job n g g' =
    ((\<exists>c. g_published g' = g_published g @ [c] \<and> cp_jobId c = j \<and> cp_error c = None) \<and> jh_status (hash_at g' j) = Some Completed_job
     \<or> (\<exists>t. (j, t) \<in> set (g_retry g') \<and> t \<le> now + cf_retryMaxMs cf) \<and> jh_status (hash_at g' j) = Some Retrying \<and> n < cf_maxAttempts cf
     \<or> (\<exists>err. (j, Readable job, err) \<in> set (g_dlq g')) \<and> jh_status (hash_at g' j) = Some Failed_job)"

lemma failure_answered: "answered cf now (m_jobId m) job n g (process_failure cf now ok s m job n e g0)"
  using retry_delay_le[of "cf_retryBaseMs cf" "cf_retryMaxMs cf" n]
  by (auto simp: answered_def process_failure_def Let_def zadd_def)

lemma failure_attempts [simp]: "tries_of (process_failure cf now ok s m job n e g) j = tries_of g j"
  by (simp add: process_failure_def Let_def attempts_transition)

lemma end_answered: "answered cf now (m_jobId m) job n g (process_end cf now out ok1 ok2 s m job n g)"
proof (cases out)
  case (Graded r)
  obtain x g1 where st: "store_results ok1 now (j_attemptId job) r (j_isPreview job) (update_progress (m_jobId m) 80 g) = (x, g1)" by force
  have "g_published g1 = g_published g" using st store_fields(6)[of ok1 now "j_attemptId job" r "j_isPreview job" "update_progress (m_jobId m) 80 g"] by simp
  then show ?thesis by (cases x) (simp_all add: process_end_def Graded st failure_answered, simp add: answered_def)
qed (simp add: process_end_def failure_answered)

lemma end_attempts [simp]: "tries_of (process_end cf now out ok1 ok2 s m job n g) j = tries_of g j"
proof (cases out)
  case (Graded r)
  obtain x g1 where st: "store_results ok1 now (j_attemptId job) r (j_isPreview job) (update_progress (m_jobId m) 80 g) = (x, g1)" by force
  then have "tries_of g1 j = tries_of g j"
    using attempts_store[of ok1 now "j_attemptId job" r "j_isPreview job" "update_progress (m_jobId m) 80 g" j] by simp
  then show ?thesis by (cases x) (auto simp: process_end_def Graded st attempts_transition)
qed (simp add: process_end_def)

lemma begin_attempts:
  "tries_of (snd (process_begin s m g)) j = tries_of g j + (if fst (process_begin s m g) \<noteq> None \<and> m_jobId m = j then 1 else 0)"
  "fst (process_begin s m g) = Some r \<Longrightarrow> numbers j [r] = (if m_jobId m = j then [tries_of g j + 1] else [])"
proof -
  have u: "tries_of (update_job_hash k f g0) j = (if j = k then jh_attempts (f (hash_at g0 k)) else tries_of g0 j)" for k f g0
    by (simp add: update_job_hash_def hash_at_def)
  show "tries_of (snd (process_begin s m g)) j = tries_of g j + (if fst (process_begin s m g) \<noteq> None \<and> m_jobId m = j then 1 else 0)"
    by (auto simp: process_begin_def reject_message_def Let_def u attempts_transition split: job_payload.split option.split)
  show "fst (process_begin s m g) = Some r \<Longrightarrow> numbers j [r] = (if m_jobId m = j then [tries_of g j + 1] else [])"
    by (auto simp: process_begin_def Let_def u attempts_transition split: if_splits job_payload.splits option.splits)
qed

text \<open>The attempts of a job have distinct numbers: those that were put back, all below the bound, and those that run.\<close>
definition numbered :: "grader_config \<Rightarrow> id \<Rightarrow> int list \<Rightarrow> grader \<Rightarrow> bool" where
  "numbered cf j ns g = (distinct (ns @ numbers j (g_runs g)) \<and> 0 \<le> tries_of g j
     \<and> (\<forall>n\<in>set ns \<union> set (numbers j (g_runs g)). 1 \<le> n \<and> n \<le> tries_of g j) \<and> (\<forall>n\<in>set ns. n < cf_maxAttempts cf))"

lemma numbered_cong:
  "numbered cf j ns g \<Longrightarrow> tries_of g' j = tries_of g j \<Longrightarrow> numbers j (g_runs g') = numbers j (g_runs g) \<Longrightarrow> numbered cf j ns g'"
  by (simp add: numbered_def)

lemma fresh_number: "distinct (ns @ as @ bs) \<Longrightarrow> \<forall>n\<in>set ns \<union> set as \<union> set bs. n \<le> h \<Longrightarrow> distinct (ns @ as @ (h + 1) # bs)" for h :: int
  by (auto dest: bspec[where x = "h + 1"])

lemma begin_numbered: "numbered cf j ns g \<Longrightarrow> numbered cf j ns (begin_run i g)"
proof -
  assume inv: "numbered cf j ns g"
  show "numbered cf j ns (begin_run i g)"
  proof (cases "i < length (g_runs g) \<and> (\<exists>s m. g_runs g ! i = Received s m)")
    case True
    then obtain s m where i: "i < length (g_runs g)" "g_runs g ! i = Received s m" by blast
    obtain x g' where b: "process_begin s m g = (x, g')" by force
    have runs: "g_runs g' = g_runs g" using begin_frame(2)[of s m g] b by simp
    have split: "numbers j (g_runs g) = numbers j (take i (g_runs g)) @ numbers j (drop (Suc i) (g_runs g))"
      using numbers_split[OF i(1)] i(2) by simp
    show ?thesis
    proof (cases x)
      case None
      then have "tries_of g' j = tries_of g j" using begin_attempts(1)[of s m g j] b by simp
      then show ?thesis using inv i b None runs split by (auto simp: begin_run_def remove_run_def intro!: numbered_cong[OF inv])
    next
      case (Some r)
      have a: "tries_of g' j = tries_of g j + (if m_jobId m = j then 1 else 0)" using begin_attempts(1)[of s m g j] b Some by simp
      have n: "numbers j [r] = (if m_jobId m = j then [tries_of g j + 1] else [])" using begin_attempts(2)[of s m g r j] b Some by simp
      have "begin_run i g = g'\<lparr> g_runs := (g_runs g)[i := r] \<rparr>" using i b Some runs by (simp add: begin_run_def)
      moreover have "numbers j ((g_runs g)[i := r]) = numbers j (take i (g_runs g)) @ numbers j [r] @ numbers j (drop (Suc i) (g_runs g))"
        by (rule numbers_update[OF i(1)])
      moreover have "distinct (ns @ numbers j (take i (g_runs g)) @ (tries_of g j + 1) # numbers j (drop (Suc i) (g_runs g)))"
        using inv unfolding numbered_def split by (intro fresh_number) auto
      ultimately show ?thesis using inv a n split by (cases "m_jobId m = j") (simp_all add: numbered_def ball_Un add_nonneg_nonneg, auto)
    qed
  next
    case False
    then show ?thesis using inv by (auto simp: begin_run_def split: run.split)
  qed
qed

lemma answer_numbered:
  assumes "numbered cf j ns g"
  shows "\<exists>ns'. numbered cf j ns' (end_run cf i out ok1 ok2 now g)
     \<and> length ns' = length ns + (if put_back cf j (Answer i out ok1 ok2 now) g then 1 else 0)"
proof (cases "i < length (g_runs g) \<and> (\<exists>s m job n. g_runs g ! i = Grading s m job n)")
  case True
  then obtain s m job n where i: "i < length (g_runs g)" "g_runs g ! i = Grading s m job n" by blast
  let ?g = "process_end cf now out ok1 ok2 s m job n g"
  have e: "end_run cf i out ok1 ok2 now g = remove_run i ?g" using i by (simp add: end_run_def)
  have runs: "g_runs ?g = g_runs g" by (rule end_frame)
  have rest: "numbers j (g_runs (remove_run i ?g)) = numbers j (take i (g_runs g)) @ numbers j (drop (Suc i) (g_runs g))"
    by (simp add: remove_run_def runs)
  have split: "numbers j (g_runs g) = numbers j (take i (g_runs g)) @ (if m_jobId m = j then [n] else []) @ numbers j (drop (Suc i) (g_runs g))"
    using numbers_split[OF i(1), of j] i(2) by simp
  show ?thesis
  proof (cases "put_back cf j (Answer i out ok1 ok2 now) g")
    case True
    then have j: "m_jobId m = j" "jh_status (hash_at ?g j) = Some Retrying" using i e by simp_all
    then have "n < cf_maxAttempts cf" using end_answered[of cf now m job n g out ok1 ok2 s] by (auto simp: answered_def)
    then have "numbered cf j (n # ns) (remove_run i ?g)" using assms j(1) rest split unfolding numbered_def by auto
    then show ?thesis using True e by (intro exI[of _ "n # ns"]) simp
  next
    case False
    have "numbered cf j ns (remove_run i ?g)" using assms rest split unfolding numbered_def by (auto split: if_splits)
    then show ?thesis using False e by (intro exI[of _ ns]) simp
  qed
next
  case False
  then have "end_run cf i out ok1 ok2 now g = g" "\<not> put_back cf j (Answer i out ok1 ok2 now) g" by (auto simp: end_run_def split: run.splits)
  then show ?thesis using assms by auto
qed

lemma requeue_attempts: "tries_of (requeue_next g) j = tries_of g j" "g_runs (requeue_next g) = g_runs g"
  by (simp_all add: requeue_next_def requeue_job_def Let_def attempts_transition split: list.split)

lemma turn_numbers: "tries_of (processing_turn cf now g) j = tries_of g j" "numbers j (g_runs (processing_turn cf now g)) = numbers j (g_runs g)"
  by (simp_all add: processing_turn_def read_and_dispatch_def Let_def hash_at_def)

lemma step_numbered:
  assumes "numbered cf j ns g" "\<not> rewrites_hash j e"
  shows "\<exists>ns'. numbered cf j ns' (grader_step cf e g) \<and> length ns' = length ns + (if put_back cf j e g then 1 else 0)"
proof (cases e)
  case (Answer i out ok1 ok2 now)
  then show ?thesis using answer_numbered[OF assms(1)] by simp
next
  case (Begin i)
  then show ?thesis using begin_numbered[OF assms(1)] by auto
next
  case (Turn now)
  have "numbered cf j ns (grader_step cf e g)" by (rule numbered_cong[OF assms(1)]) (simp_all add: Turn turn_numbers)
  then show ?thesis by (auto simp: Turn)
next
  case Requeue
  have "numbered cf j ns (grader_step cf e g)" by (rule numbered_cong[OF assms(1)]) (simp_all add: Requeue requeue_attempts)
  then show ?thesis by (auto simp: Requeue)
next
  case Crash
  have "numbered cf j ns (grader_step cf e g)" using assms(1) by (auto simp: Crash numbered_def hash_at_def)
  then show ?thesis by (auto simp: Crash)
next
  case (Api_record k job)
  have "numbered cf j ns (grader_step cf e g)" by (rule numbered_cong[OF assms(1)]) (use assms(2) in \<open>simp_all add: Api_record api_record_def hash_at_def\<close>)
  then show ?thesis by (auto simp: Api_record)
next
  case (Hash_expires k)
  have "numbered cf j ns (grader_step cf e g)" by (rule numbered_cong[OF assms(1)]) (use assms(2) in \<open>simp_all add: Hash_expires hash_at_def\<close>)
  then show ?thesis by (auto simp: Hash_expires)
qed (use assms(1) in \<open>auto simp: api_add_def reclaim_stream_def take_due_def retry_cleanup_def Let_def hash_at_def
    intro!: exI[of _ ns] numbered_cong[OF assms(1)]\<close>)

lemma retries_bound:
  "numbered cf j ns g \<Longrightarrow> \<forall>e\<in>set es. \<not> rewrites_hash j e \<Longrightarrow> 1 \<le> cf_maxAttempts cf \<Longrightarrow> int (length ns + retries cf j es g) < cf_maxAttempts cf"
proof (induction es arbitrary: ns g)
  case Nil
  then have "set ns \<subseteq> {1..<cf_maxAttempts cf}" "distinct ns" by (auto simp: numbered_def)
  then have "length ns \<le> card {1..<cf_maxAttempts cf}" by (metis card_mono distinct_card finite_atLeastLessThan_int)
  then show ?case using Nil(3) by simp
next
  case (Cons e es)
  then obtain ns' where "numbered cf j ns' (grader_step cf e g)" "length ns' = length ns + (if put_back cf j e g then 1 else 0)"
    using step_numbered[of cf j ns g e] by auto
  then show ?case using Cons.IH[of ns' "grader_step cf e g"] Cons.prems(2,3) by simp
qed

lemma retries_append: "retries cf j (es @ es') g = retries cf j es g + retries cf j es' (grader_run cf es g)"
  by (induction es arbitrary: g) simp_all

text \<open>C14: Retries end. At least one attempt is configured, the server records a job while no goroutine of the worker holds it, and its hash lives and
  is not recorded anew. Then, whatever the server, the worker, takeovers, pauses and crashes do in whatever order, the job is put back for another attempt
  fewer times than attempts are configured. Every answer of the grader for it, with whatever success of the writes to the database, ends with a
  result announced without an error, or with the job waiting for a retry at most the longest delay later, which only happens while retries are
  left, or with the job in the dead letters.\<close>
theorem retries_end:
  assumes "1 \<le> cf_maxAttempts cf" "\<forall>r\<in>set (g_runs g). m_jobId (run_message r) \<noteq> j" "\<forall>e\<in>set es. \<not> rewrites_hash j e" "g1 = api_record j job g"
  shows "int (retries cf j es g1) < cf_maxAttempts cf
     \<and> (\<forall>es1 i out ok1 ok2 now es2 s m job' n g2 g3. es = es1 @ Answer i out ok1 ok2 now # es2 \<longrightarrow> g2 = grader_run cf es1 g1
         \<longrightarrow> i < length (g_runs g2) \<longrightarrow> g_runs g2 ! i = Grading s m job' n \<longrightarrow> m_jobId m = j \<longrightarrow> g3 = grader_step cf (Answer i out ok1 ok2 now) g2
         \<longrightarrow> (\<exists>c. g_published g3 = g_published g2 @ [c] \<and> cp_jobId c = j \<and> cp_error c = None)
           \<or> (\<exists>t. (j, t) \<in> set (g_retry g3) \<and> t \<le> now + cf_retryMaxMs cf) \<and> int (retries cf j es1 g1) + 1 < cf_maxAttempts cf
           \<or> (\<exists>err. (j, Readable job', err) \<in> set (g_dlq g3)))"
proof -
  have "numbered cf j [] g1" using assms(2,4) by (simp add: numbered_def numbers_none api_record_def hash_at_def)
  note bound = retries_bound[OF this _ assms(1), simplified]
  moreover have "(\<exists>c. g_published g3 = g_published g2 @ [c] \<and> cp_jobId c = j \<and> cp_error c = None)
       \<or> (\<exists>t. (j, t) \<in> set (g_retry g3) \<and> t \<le> now + cf_retryMaxMs cf) \<and> int (retries cf j es1 g1) + 1 < cf_maxAttempts cf
       \<or> (\<exists>err. (j, Readable job', err) \<in> set (g_dlq g3))"
    if a: "es = es1 @ Answer i out ok1 ok2 now # es2" "g2 = grader_run cf es1 g1" "i < length (g_runs g2)" "g_runs g2 ! i = Grading s m job' n"
      "m_jobId m = j" "g3 = grader_step cf (Answer i out ok1 ok2 now) g2" for es1 i out ok1 ok2 now es2 s m job' n g2 g3
  proof -
    have g3: "g3 = remove_run i (process_end cf now out ok1 ok2 s m job' n g2)" using a(3,4,6) by (simp add: end_run_def)
    have "answered cf now j job' n g2 g3"
      using end_answered[of cf now m job' n g2 out ok1 ok2 s] a(5) unfolding g3 answered_def by (simp add: remove_run_def hash_at_def)
    moreover have "int (retries cf j es1 g1) + 1 < cf_maxAttempts cf" if "jh_status (hash_at g3 j) = Some Retrying"
    proof -
      have "put_back cf j (Answer i out ok1 ok2 now) g2" using a(3-6) that by simp
      then have "retries cf j (es1 @ [Answer i out ok1 ok2 now]) g1 = retries cf j es1 g1 + 1" using a(2) by (simp add: retries_append)
      then show ?thesis using bound[of "es1 @ [Answer i out ok1 ok2 now]"] assms(3) a(1) by auto
    qed
    ultimately show ?thesis unfolding answered_def by blast
  qed
  ultimately show ?thesis using assms(3) by blast
qed

section \<open>Runs on the default configuration\<close>

definition default_config :: grader_config where
  "default_config = \<lparr> cf_concurrency = 1, cf_readBatch = 10, cf_pelIdleMs = 60000, cf_retryBaseMs = 1000, cf_retryMaxMs = 60000,
     cf_maxAttempts = 3, cf_jobTtlSec = 172800 \<rparr>"

lemma load_default: "load_config (\<lambda>k. if k = ''DATABASE_URL'' then ''postgres:'' else []) 4 = Some default_config"
  by (simp add: load_config_def get_env_int_def default_config_def Let_def)

definition sql_config :: sql_cfg where
  "sql_config = \<lparr> sq_runtime = Postgresql, sq_setupScript = ''create table t(i int)'', sq_resetScript = None, sq_image = None, sq_tables = [],
     sq_isolation = Shared_db, sq_orderSensitive = False, sq_columnOrderSensitive = False, sq_timeoutMs = 1000,
     sq_publicTests = [], sq_hiddenTests = [] \<rparr>"

definition sql_challenge :: challenge where
  "sql_challenge = demo_challenge\<lparr> c_runner := Some (RSql sql_config) \<rparr>"

definition sql_job :: grading_job where
  "sql_job = full_job ''a1'' [(''q.sql'', ''select 1'')] sql_challenge"

lemma sql_job_valid [simp]: "validate_job_payload sql_job = None"
  by (simp add: validate_job_payload_def sql_job_def full_job_def sql_challenge_def sql_config_def str_trim_def is_space_def Let_def)

lemma sql_job_fields [simp]: "j_attemptId sql_job = ''a1''" "\<not> j_isPreview sql_job"
  by (simp_all add: sql_job_def full_job_def)

lemmas grader_eval = start_grader_def default_config_def api_add_def api_record_def processing_turn_def read_and_dispatch_def
  available_def begin_run_def end_run_def process_begin_def process_end_def process_failure_def store_results_def Let_def
  remove_run_def xadd_def transition_def update_job_hash_def update_progress_def ack_and_delete_def publish_complete_def
  zadd_def take_due_def requeue_next_def requeue_job_def retry_delay_def hash_at_def empty_hash_def reclaim_stream_def send_to_dlq_def

text \<open>The events of a job whose first attempt fails.\<close>
abbreviation first_failure :: "grader_event list" where
  "first_failure \<equiv> [Api_add ''j'' sql_job, Api_record ''j'' sql_job, Turn 0, Begin 0, Answer 0 (Grader_error ''no docker'') True True 0]"

theorem no_job_lost_witness:
  "accounted (grader_run default_config ([Api_add ''j'' sql_job, Api_record ''j'' sql_job, Turn 0, Begin 0, Crash, Reclaim High 60000])
     (start_grader (w_attempts demo))) ''j''"
  using no_job_lost[of "''j''" default_config "[Api_record ''j'' sql_job, Turn 0, Begin 0, Crash, Reclaim High 60000]" "[]" sql_job "w_attempts demo"]
  by (simp add: loses_def grader_eval)

text \<open>A crash between the two commands of the retry loop loses the job for good: it is queued nowhere, in no set and in no
  list of failures, and its attempt shows the failure of the first attempt as the result, though two attempts were left.\<close>
theorem crash_loses_retry:
  "\<exists>g a. g = grader_run default_config (first_failure @ [Due 1000, Crash]) (start_grader [''a1'' \<mapsto> demo_attempt\<lparr> a_status := GRADING \<rparr>])
     \<and> \<not> accounted g ''j'' \<and> g_rows g ''a1'' = Some a \<and> a_status a = FAILED \<and> jh_attempts (hash_at g ''j'') = 1"
  by (simp add: grader_eval accounted_def held_def stream_set_def settled_def failure_result_def result_row_def status_for_result_def
      split: stream.split)

theorem queue_counters_exact_witness:
  "g_stats (grader_run default_config first_failure (start_grader (w_attempts demo))) Retrying
     = int (card {j. \<exists>h. g_jobs (grader_run default_config first_failure (start_grader (w_attempts demo))) j = Some h
         \<and> jh_status h = Some Retrying})"
  by (rule queue_counters_exact) (simp_all add: tidy_def grader_eval)

text \<open>The counters drift when the worker is faster than the server: \<^verbatim>\<open>addGradingJob\<close> puts the job on the stream before it
  writes the hash and the counter. A worker that takes the job up in between counts it as active, the server then writes the status
  queued over it, and at the end the worker counts it as no longer queued: the job is completed and one job is
  counted as active for ever.\<close>
theorem early_worker_counter_drift:
  "\<exists>g. g = grader_run default_config [Api_add ''j'' sql_job, Turn 0, Begin 0, Api_record ''j'' sql_job, Answer 0 (Graded r) True True 5]
       (start_grader rows)
     \<and> jh_status (hash_at g ''j'') = Some Completed_job \<and> g_stats g Processing = 1 \<and> g_stats g Queued = 0 \<and> jobs_in g Processing = {}"
  by (auto simp: grader_eval jobs_in_def split: if_splits)

text \<open>A job that runs longer than a minute is graded again while it runs, as long as the worker has room: the message is taken
  over from the worker itself. The later of the two results stays, both are announced, and the job is counted as
  completed twice.\<close>
theorem slow_job_graded_twice:
  "\<exists>g. g = grader_run (default_config\<lparr> cf_concurrency := 2 \<rparr>) [Api_add ''j'' sql_job, Api_record ''j'' sql_job, Turn 0, Begin 0,
       Reclaim High 60000, Begin 1, Answer 0 (Graded r) True True 70000, Answer 0 (Graded r') True True 80000]
       (start_grader [''a1'' \<mapsto> a])
     \<and> g_rows g ''a1'' = Some (result_row 80000 r' False (result_row 70000 r False a)) \<and> length (g_published g) = 2
     \<and> g_stats g Completed_job = 2"
  by (simp add: grader_eval)

text \<open>While a retry waits, the attempt shows the failure as its result, with all scores zero, and the page is told so.\<close>
theorem failed_while_retrying:
  assumes "n < cf_maxAttempts cf" "g_rows g (j_attemptId job) = Some a" "\<not> j_isPreview job" "j_attemptId job \<noteq> []"
  shows "\<exists>a'. g_rows (process_end cf now (Grader_error e) ok1 True s m job n g) (j_attemptId job) = Some a'
     \<and> a_status a' = FAILED \<and> a_publicScore a' = Some 0 \<and> a_hiddenScore a' = Some 0
     \<and> m_jobId m \<in> fst ` set (g_retry (process_end cf now (Grader_error e) ok1 True s m job n g))
     \<and> (\<exists>c. g_published (process_end cf now (Grader_error e) ok1 True s m job n g) = g_published g @ [c] \<and> cp_error c \<noteq> None)"
  using assms
  by (simp add: process_end_def process_failure_def Let_def store_results_def result_row_def status_for_result_def failure_result_def)

theorem failed_while_retrying_witness:
  "\<exists>a'. g_rows (process_end default_config 5 (Grader_error ''no docker'') True True High \<lparr> m_id = 0, m_jobId = ''j'', m_payload = Readable sql_job \<rparr>
      sql_job 1 (start_grader (w_attempts demo))) ''a1'' = Some a' \<and> a_status a' = FAILED"
  using failed_while_retrying[of 1 default_config "start_grader (w_attempts demo)" sql_job demo_attempt 5 "''no docker''" True High
      "\<lparr> m_id = 0, m_jobId = ''j'', m_payload = Readable sql_job \<rparr>"]
  by (auto simp: default_config_def start_grader_def)

text \<open>Three attempts of which each fails. The third answer is in the dead letters.\<close>
definition three_failures :: "grader_event list" where
  "three_failures = [Turn 0, Begin 0, Answer 0 (Grader_error ''x'') True True 0, Due 60000, Requeue,
     Turn 60000, Begin 0, Answer 0 (Grader_error ''y'') True True 60000, Due 120000, Requeue, Turn 120000, Begin 0]"

theorem retries_end_witness:
  "\<exists>g err. g = grader_run default_config (three_failures @ [Answer 0 (Grader_error ''z'') True True 120000])
      (api_record ''j'' sql_job (api_add ''j'' sql_job (start_grader (w_attempts demo))))
     \<and> (''j'', Readable sql_job, err) \<in> set (g_dlq g)"
proof -
  let ?g0 = "api_add ''j'' sql_job (start_grader (w_attempts demo))" let ?last = "Answer 0 (Grader_error ''z'') True True 120000"
  define g2 where "g2 = grader_run default_config three_failures (api_record ''j'' sql_job ?g0)"
  have "\<exists>m n. g_runs g2 = [Grading High m sql_job n] \<and> m_jobId m = ''j''" "retries default_config ''j'' three_failures (api_record ''j'' sql_job ?g0) = 2"
    by (simp_all add: g2_def three_failures_def grader_eval end_run_def)
  then obtain m n where g2: "g_runs g2 = [Grading High m sql_job n]" "m_jobId m = ''j''"
    "retries default_config ''j'' three_failures (api_record ''j'' sql_job ?g0) = 2" by blast
  have pub: "\<forall>c. g_published (grader_step default_config ?last g2) = g_published g2 @ [c] \<longrightarrow> cp_error c \<noteq> None"
    using g2 by (auto simp: end_run_def process_end_def process_failure_def Let_def remove_run_def default_config_def)
  have pre: "1 \<le> cf_maxAttempts default_config" "\<forall>r\<in>set (g_runs ?g0). m_jobId (run_message r) \<noteq> ''j''"
    "\<forall>e\<in>set (three_failures @ [?last]). \<not> rewrites_hash ''j'' e"
    by (simp_all add: default_config_def api_add_def start_grader_def three_failures_def)
  have g3: "grader_run default_config (three_failures @ [?last]) (api_record ''j'' sql_job ?g0) = grader_step default_config ?last g2"
    by (simp add: g2_def grader_run_def)
  have run: "0 < length (g_runs g2)" "g_runs g2 ! 0 = Grading High m sql_job n" using g2(1) by simp_all
  have "\<not> int (retries default_config ''j'' three_failures (api_record ''j'' sql_job ?g0)) + 1 < cf_maxAttempts default_config"
    using g2(3) by (simp add: default_config_def)
  then have "\<exists>err. (''j'', Readable sql_job, err) \<in> set (g_dlq (grader_step default_config ?last g2))"
    using retries_end[OF pre refl, THEN conjunct2, rule_format, OF refl g2_def run g2(2) refl] pub by blast
  then show ?thesis unfolding g3 by simp
qed

theorem submission_without_runner_stuck_witness:
  "\<exists>jid n' w' job. submit_attempt ref_services 5000 ''y'' demo_candidate ''a1'' (Some None) demo_node = (Inr jid, n', w')
     \<and> map_option a_status (g_rows (grader_run default_config [Api_add jid job, Api_record jid job, Turn 6000, Begin 0]
          (start_grader (w_attempts (ref_view w')))) ''a1'') = Some GRADING"
proof -
  obtain r n' w' where run: "submit_attempt ref_services 5000 ''y'' demo_candidate ''a1'' (Some None) (fst demo_node, demo_world) = (r, n', w')"
    by (cases "submit_attempt ref_services 5000 ''y'' demo_candidate ''a1'' (Some None) (fst demo_node, demo_world)") auto
  have pre: "w_attempts (ref_view demo_world) ''a1'' = Some demo_attempt" "a_candidateId demo_attempt = jp_userId demo_candidate"
    "a_status demo_attempt = IN_PROGRESS" "challenge_of (ref_view demo_world) demo_attempt = Some demo_challenge" "''a1'' \<noteq> ''dirty''"
    "stream_key 5000 (w_ks (ref_view demo_world)) stream_high" by (simp_all add: stream_key_def)
  have r: "r = Inr (create_job_id ''a1'' 5000 ''y'')" by (rule ref.submit_success(1)[OF pre run])
  have "c_runner demo_challenge = None \<or> c_runner demo_challenge = Some RJest" by (simp add: demo_challenge_def)
  from submission_without_runner_stuck[OF ref.services_axioms pre(1-4) this pre(5,6) run[unfolded r] refl, of "[Turn 6000, Begin 0]" default_config]
  have "map_option a_status (g_rows (grader_run default_config ([Api_add (create_job_id ''a1'' 5000 ''y'') (full_job ''a1'' (final_files 5000 demo None demo_attempt) demo_challenge),
      Api_record (create_job_id ''a1'' 5000 ''y'') (full_job ''a1'' (final_files 5000 demo None demo_attempt) demo_challenge)] @ [Turn 6000, Begin 0])
      (start_grader (w_attempts (ref_view w')))) ''a1'') = Some GRADING" by simp
  then show ?thesis using run r by (intro exI conjI) (auto simp: demo_node_def)
qed

end
