(* ===== verification/Json_Text.thy ===== *)
theory Json_Text
  imports Grading_Queue Request_Schemas "HOL-Library.AList"
begin

text \<open>
  \<^verbatim>\<open>JSON.stringify\<close> and \<^verbatim>\<open>JSON.parse\<close> as the pages and the server use them: the forms of the
  administration edit JSON texts, and the graders put the details of their tests as JSON into the log. A number is the decimal
  that its double is written as, so a number has at most twenty digits behind the point; the texts of very large and very small
  numbers (with an exponent) are read, not printed. Characters are bytes: an escape beyond them does not read. Keys that
  look like array indices, which JavaScript moves to the front of an object, are left where they are.
\<close>

section \<open>Printing\<close>

definition quote_char :: char where "quote_char = char_of (34 :: nat)"
definition backslash_char :: char where "backslash_char = char_of (92 :: nat)"
definition line_feed :: char where "line_feed = char_of (10 :: nat)"

text \<open>The digits behind the point of a number below one.\<close>
fun decimals :: "nat \<Rightarrow> rat \<Rightarrow> string" where
  "decimals 0 q = []"
| "decimals (Suc n) q = (if q = 0 then [] else
     char_of (48 + nat \<lfloor>10 * q\<rfloor>) # decimals n (10 * q - of_int \<lfloor>10 * q\<rfloor>))"

definition num_text :: "rat \<Rightarrow> string" where
  "num_text q = (if q < 0 then ''-'' else []) @ nat_digits (nat \<lfloor>\<bar>q\<bar>\<rfloor>) @
     (if is_int_rat q then [] else ''.'' @ decimals 20 (\<bar>q\<bar> - of_int \<lfloor>\<bar>q\<bar>\<rfloor>))"

text \<open>The third argument of \<^verbatim>\<open>stringify\<close> gives the gap: without one there is no white space at all.\<close>
fun json_text :: "string \<Rightarrow> string \<Rightarrow> json \<Rightarrow> string" where
  "json_text gap ind JNull = ''null''"
| "json_text gap ind (JBool b) = (if b then ''true'' else ''false'')"
| "json_text gap ind (JNum q) = num_text q"
| "json_text gap ind (JStr s) = json_string s"
| "json_text gap ind (JArr xs) = (if xs = [] then ''[]'' else
     let sep = (if gap = [] then [] else line_feed # ind @ gap); end = (if gap = [] then [] else line_feed # ind)
     in ''['' @ sep @ str_join ('','' @ sep) (map (json_text gap (ind @ gap)) xs) @ end @ '']'')"
| "json_text gap ind (JObj kvs) = (if kvs = [] then ''{}'' else
     let sep = (if gap = [] then [] else line_feed # ind @ gap); end = (if gap = [] then [] else line_feed # ind);
         colon = (if gap = [] then '':'' else '': '')
     in ''{'' @ sep @ str_join ('','' @ sep) (map (\<lambda>(k, v). json_string k @ colon @ json_text gap (ind @ gap) v) kvs) @ end @ ''}'')"

definition stringify :: "json \<Rightarrow> string" where "stringify = json_text [] []"
definition stringify2 :: "json \<Rightarrow> string" where "stringify2 = json_text ''  '' []"

section \<open>Reading\<close>

definition is_ws :: "char \<Rightarrow> bool" where
  "is_ws c = (let n = of_char c :: nat in n = 32 \<or> n = 9 \<or> n = 10 \<or> n = 13)"

definition skip_ws :: "string \<Rightarrow> string" where "skip_ws = dropWhile is_ws"

definition hex_val :: "char \<Rightarrow> nat option" where
  "hex_val c = (let n = of_char c :: nat in if 48 \<le> n \<and> n \<le> 57 then Some (n - 48)
     else if 97 \<le> n \<and> n \<le> 102 then Some (n - 87) else if 65 \<le> n \<and> n \<le> 70 then Some (n - 55) else None)"

text \<open>The character of \<^verbatim>\<open>\uXXXX\<close>.\<close>
definition unicode_escape :: "char \<Rightarrow> char \<Rightarrow> char \<Rightarrow> char \<Rightarrow> char option" where
  "unicode_escape a b c d = (case (hex_val a, hex_val b, hex_val c, hex_val d) of
     (Some w, Some x, Some y, Some z) \<Rightarrow> (let n = 4096 * w + 256 * x + 16 * y + z in if n < 256 then Some (char_of n) else None)
   | _ \<Rightarrow> None)"

text \<open>What stands behind a backslash, other than u.\<close>
definition short_escape :: "char \<Rightarrow> char option" where
  "short_escape c = (if c = quote_char \<or> c = backslash_char \<or> c = CHR ''/'' then Some c
     else if c = CHR ''b'' then Some (char_of (8 :: nat)) else if c = CHR ''t'' then Some (char_of (9 :: nat))
     else if c = CHR ''n'' then Some (char_of (10 :: nat)) else if c = CHR ''f'' then Some (char_of (12 :: nat))
     else if c = CHR ''r'' then Some (char_of (13 :: nat)) else None)"

definition put_char :: "char \<Rightarrow> (string \<times> string) option \<Rightarrow> (string \<times> string) option" where
  "put_char c = map_option (\<lambda>(s, r). (c # s, r))"

text \<open>The rest of a string and what follows its closing quote.\<close>
fun read_string :: "string \<Rightarrow> (string \<times> string) option" where
  "read_string [] = None"
| "read_string (c # s) =
    (if c = quote_char then Some ([], s)
     else if c = backslash_char then
       (case s of [] \<Rightarrow> None
        | e # s1 \<Rightarrow>
            if e = CHR ''u'' then
              (case s1 of x1 # x2 # x3 # x4 # s2 \<Rightarrow>
                  (case unicode_escape x1 x2 x3 x4 of None \<Rightarrow> None | Some d \<Rightarrow> put_char d (read_string s2))
               | _ \<Rightarrow> None)
            else (case short_escape e of None \<Rightarrow> None | Some d \<Rightarrow> put_char d (read_string s1)))
     else if (of_char c :: nat) < 32 then None
     else put_char c (read_string s))"

fun fraction_val :: "string \<Rightarrow> rat" where
  "fraction_val [] = 0"
| "fraction_val (c # s) = (of_nat (of_char c - 48) + fraction_val s) / 10"

definition whole_part :: "string \<Rightarrow> string" where
  "whole_part s = (case s of c # _ \<Rightarrow> if c = CHR ''0'' then [c] else takeWhile is_digit s | [] \<Rightarrow> [])"

text \<open>The optional fraction: its value and the rest; none if the point has no digit.\<close>
definition read_fraction :: "string \<Rightarrow> (rat \<times> string) option" where
  "read_fraction s = (case s of c # t \<Rightarrow>
       if c = CHR ''.'' then (let ds = takeWhile is_digit t in if ds = [] then None else Some (fraction_val ds, dropWhile is_digit t))
       else Some (0, s)
     | [] \<Rightarrow> Some (0, s))"

definition read_exponent :: "string \<Rightarrow> (int \<times> string) option" where
  "read_exponent s = (case s of c # t \<Rightarrow>
       if c = CHR ''e'' \<or> c = CHR ''E'' then
         (let (neg, t1) = (case t of d # t1 \<Rightarrow> if d = CHR ''-'' then (True, t1) else if d = CHR ''+'' then (False, t1) else (False, t)
              | [] \<Rightarrow> (False, t));
              ds = takeWhile is_digit t1
          in if ds = [] then None else Some (if neg then - int (digits_val ds) else int (digits_val ds), dropWhile is_digit t1))
       else Some (0, s)
     | [] \<Rightarrow> Some (0, s))"

definition scale10 :: "rat \<Rightarrow> int \<Rightarrow> rat" where
  "scale10 q e = (if 0 \<le> e then q * 10 ^ nat e else q / 10 ^ nat (- e))"

definition read_number :: "string \<Rightarrow> (rat \<times> string) option" where
  "read_number s =
    (let (neg, s1) = (case s of c # t \<Rightarrow> if c = CHR ''-'' then (True, t) else (False, s) | [] \<Rightarrow> (False, s));
         ds = whole_part s1
     in if ds = [] then None
        else (case read_fraction (drop (length ds) s1) of None \<Rightarrow> None
          | Some (f, s2) \<Rightarrow> (case read_exponent s2 of None \<Rightarrow> None
             | Some (e, s3) \<Rightarrow> (let q = scale10 (of_nat (digits_val ds) + f) e in Some (if neg then - q else q, s3)))))"

text \<open>Of two members with the same key the later one wins, at the place of the first.\<close>
definition last_wins :: "(string \<times> json) list \<Rightarrow> (string \<times> json) list" where
  "last_wins kvs = foldl (\<lambda>acc (k, v). AList.update k v acc) [] kvs"

definition read_word :: "string \<Rightarrow> (json \<times> string) option" where
  "read_word s = (if prefix ''null'' s then Some (JNull, drop 4 s)
     else if prefix ''true'' s then Some (JBool True, drop 4 s)
     else if prefix ''false'' s then Some (JBool False, drop 5 s) else None)"

text \<open>A value, the elements of an array and the members of an object, with what follows. The fuel bounds the depth of the recursion;
  the length of the text is enough (\<^verbatim>\<open>fuel_irrelevant\<close>).\<close>
fun read_value :: "nat \<Rightarrow> string \<Rightarrow> (json \<times> string) option"
and read_elements :: "nat \<Rightarrow> string \<Rightarrow> (json list \<times> string) option"
and read_members :: "nat \<Rightarrow> string \<Rightarrow> ((string \<times> json) list \<times> string) option" where
  "read_value 0 s = None"
| "read_value (Suc n) s = (case skip_ws s of [] \<Rightarrow> None
     | c # t \<Rightarrow>
        if c = quote_char then map_option (\<lambda>(x, r). (JStr x, r)) (read_string t)
        else if c = CHR ''['' then
          (if prefix '']'' (skip_ws t) then Some (JArr [], tl (skip_ws t))
           else map_option (\<lambda>(xs, r). (JArr xs, r)) (read_elements n t))
        else if c = CHR ''{'' then
          (if prefix ''}'' (skip_ws t) then Some (JObj [], tl (skip_ws t))
           else map_option (\<lambda>(kvs, r). (JObj (last_wins kvs), r)) (read_members n t))
        else if is_digit c \<or> c = CHR ''-'' then map_option (\<lambda>(q, r). (JNum q, r)) (read_number (c # t))
        else read_word (c # t))"
| "read_elements 0 s = None"
| "read_elements (Suc n) s = (case read_value n s of None \<Rightarrow> None
     | Some (x, r) \<Rightarrow> (case skip_ws r of [] \<Rightarrow> None
         | c # t \<Rightarrow> if c = CHR '','' then map_option (\<lambda>(xs, r'). (x # xs, r')) (read_elements n t)
              else if c = CHR '']'' then Some ([x], t) else None))"
| "read_members 0 s = None"
| "read_members (Suc n) s = (case skip_ws s of [] \<Rightarrow> None
     | c # t \<Rightarrow> if c \<noteq> quote_char then None
         else (case read_string t of None \<Rightarrow> None
          | Some (k, r) \<Rightarrow> (case skip_ws r of [] \<Rightarrow> None
             | d # r1 \<Rightarrow> if d \<noteq> CHR '':'' then None
                 else (case read_value n r1 of None \<Rightarrow> None
                  | Some (v, r2) \<Rightarrow> (case skip_ws r2 of [] \<Rightarrow> None
                     | e # r3 \<Rightarrow> if e = CHR '','' then map_option (\<lambda>(kvs, r'). ((k, v) # kvs, r')) (read_members n r3)
                          else if e = CHR ''}'' then Some ([(k, v)], r3) else None)))))"

definition json_parse :: "string \<Rightarrow> json option" where
  "json_parse s = (case read_value (Suc (length s)) s of None \<Rightarrow> None
     | Some (j, r) \<Rightarrow> if skip_ws r = [] then Some j else None)"

section \<open>Strings and numbers\<close>

lemma skip_ws_append [simp]: "list_all is_ws w \<Longrightarrow> skip_ws (w @ s) = skip_ws s"
  by (induction w) (auto simp: skip_ws_def)

lemma skip_ws_stop [simp]: "\<not> is_ws c \<Longrightarrow> skip_ws (c # s) = c # s"
  by (simp add: skip_ws_def)

lemma skip_ws_length: "length (skip_ws s) \<le> length s"
  by (simp add: skip_ws_def length_dropWhile_le)

lemma char_literals:
  "char_of (34 :: nat) = CHR 0x22" "char_of (92 :: nat) = CHR 0x5C" "char_of (8 :: nat) = CHR 0x08" "char_of (9 :: nat) = CHR 0x09"
  "char_of (10 :: nat) = CHR 0x0A" "char_of (12 :: nat) = CHR 0x0C" "char_of (13 :: nat) = CHR 0x0D"
  by (simp_all add: char_of_def bit_0)

lemma control_escape:
  assumes "n < 32" shows "unicode_escape CHR ''0'' CHR ''0'' (hex_digit (n div 16)) (hex_digit (n mod 16)) = Some (char_of n)"
proof -
  have h: "hex_val (hex_digit m) = Some m" if "m < 16" for m :: nat
    using that by (auto simp: hex_val_def hex_digit_def Let_def)
  have "n div 16 < 16" "n mod 16 < 16" using assms by simp_all
  then show ?thesis using assms by (simp add: unicode_escape_def h) (simp add: hex_val_def)
qed

lemma read_json_char: "read_string (json_char c @ s) = put_char c (read_string s)"
proof -
  define n where "n = (of_char c :: nat)"
  have c: "c = char_of n" "n < 256" by (simp_all add: n_def)
  consider "n = 34 \<or> n = 92 \<or> n = 8 \<or> n = 9 \<or> n = 10 \<or> n = 12 \<or> n = 13" | "n < 32" "n \<notin> {8, 9, 10, 12, 13}"
    | "32 \<le> n" "n \<noteq> 34" "n \<noteq> 92" by force
  then show ?thesis
  proof cases
    case 1
    then show ?thesis unfolding c(1)
      by (elim disjE; simp add: json_char_def quote_char_def backslash_char_def short_escape_def char_literals Let_def)
  next
    case 2
    then have j: "json_char c = [backslash_char, CHR ''u'', CHR ''0'', CHR ''0'', hex_digit (n div 16), hex_digit (n mod 16)]"
      by (simp add: json_char_def n_def[symmetric] backslash_char_def)
    have q: "backslash_char \<noteq> quote_char" by (simp add: backslash_char_def quote_char_def)
    have "unicode_escape CHR ''0'' CHR ''0'' (hex_digit (n div 16)) (hex_digit (n mod 16)) = Some c"
      unfolding c(1) using 2(1) by (rule control_escape)
    then show ?thesis using q by (simp add: j)
  next
    case 3
    have "(of_char quote_char :: nat) = 34" "(of_char backslash_char :: nat) = 92" by (simp_all add: quote_char_def backslash_char_def)
    then have "c \<noteq> quote_char" "c \<noteq> backslash_char" using 3 n_def by auto
    moreover have "json_char c = [c]" using 3 by (simp add: json_char_def n_def[symmetric])
    ultimately show ?thesis using 3 n_def by simp
  qed
qed

lemma read_json_chars: "read_string (concat (map json_char s) @ quote_char # r) = Some (s, r)"
  by (induction s) (simp_all add: read_json_char put_char_def)

lemma is_int_rat_iff: "is_int_rat r \<longleftrightarrow> (\<exists>n. r = of_int n)"
  unfolding is_int_rat_def by (metis floor_of_int)

lemma is_int_rat_minus: "is_int_rat (- q) = is_int_rat q"
  unfolding is_int_rat_iff by (metis minus_minus of_int_minus)

lemma is_int_rat_abs: "is_int_rat \<bar>q\<bar> = is_int_rat q"
  by (simp add: abs_if is_int_rat_minus)

lemma is_int_rat_diff: "is_int_rat (q - of_int n) = is_int_rat q"
  unfolding is_int_rat_iff by (metis add_diff_cancel_right' diff_add_cancel of_int_add of_int_diff)

lemma digit_char: "0 \<le> d \<Longrightarrow> d < 10 \<Longrightarrow> (of_char (char_of (48 + nat d) :: char) :: nat) = 48 + nat d"
  by simp

lemma digit_char_digit: "0 \<le> d \<Longrightarrow> d < 10 \<Longrightarrow> is_digit (char_of (48 + nat d))"
  unfolding is_digit_def Let_def by (subst (1 2) digit_char) auto

definition decimal :: "rat \<Rightarrow> bool" where "decimal q = is_int_rat (q * 10 ^ 20)"

lemma decimals_val:
  "0 \<le> q \<Longrightarrow> q < 1 \<Longrightarrow> is_int_rat (q * 10 ^ n) \<Longrightarrow> fraction_val (decimals n q) = q"
proof (induction n arbitrary: q)
  case 0
  have "of_int \<lfloor>q\<rfloor> = q" using 0(3) by (simp add: is_int_rat_def)
  moreover have "\<lfloor>q\<rfloor> = 0" using 0(1,2) by linarith
  ultimately show ?case by simp
next
  case (Suc n)
  let ?d = "\<lfloor>10 * q\<rfloor>" let ?q = "10 * q - of_int ?d"
  have d: "0 \<le> ?d" "?d < 10" using Suc.prems(1,2) by linarith+
  have "?q * 10 ^ n = q * 10 ^ Suc n - of_int (?d * 10 ^ n)" by (simp add: algebra_simps)
  then have i: "is_int_rat (?q * 10 ^ n)"
    using Suc.prems(3) by (simp only: is_int_rat_diff)
  have "0 \<le> ?q" "?q < 1" by linarith+
  then have "fraction_val (decimals n ?q) = ?q" using Suc.IH i by blast
  moreover have "of_nat (of_char (char_of (48 + nat ?d) :: char) - 48) = (of_int ?d :: rat)"
    unfolding digit_char[OF d] using d(1) by simp
  ultimately show ?case using d(1) by simp
qed

lemma decimals_digits: "0 \<le> q \<Longrightarrow> q < 1 \<Longrightarrow> list_all is_digit (decimals n q)"
proof (induction n arbitrary: q)
  case (Suc n)
  let ?d = "\<lfloor>10 * q\<rfloor>"
  have d: "0 \<le> ?d" "?d < 10" using Suc.prems by linarith+
  have "is_digit (char_of (48 + nat ?d))" using d by (rule digit_char_digit)
  moreover have "0 \<le> 10 * q - of_int ?d" "10 * q - of_int ?d < 1" by linarith+
  ultimately show ?case using Suc.IH by simp
qed simp

lemma decimals_not_Nil: "q \<noteq> 0 \<Longrightarrow> decimals 20 q \<noteq> []"
proof -
  have "decimals (Suc n) q \<noteq> []" if "q \<noteq> 0" for n using that by simp
  then show "q \<noteq> 0 \<Longrightarrow> decimals 20 q \<noteq> []" by (metis numeral_eq_Suc)
qed

definition delimited :: "string \<Rightarrow> bool" where
  "delimited r = (case r of [] \<Rightarrow> True | c # _ \<Rightarrow> c = CHR '','' \<or> c = CHR '']'' \<or> c = CHR ''}'' \<or> is_ws c)"

lemma delimitedD:
  assumes "delimited r"
  shows "takeWhile is_digit (ds @ r) = takeWhile is_digit ds" "read_fraction r = Some (0, r)" "read_exponent r = Some (0, r)"
proof -
  have "takeWhile is_digit r = [] \<and> read_fraction r = Some (0, r) \<and> read_exponent r = Some (0, r)"
  proof (cases r)
    case (Cons c t)
    then have "c = CHR '','' \<or> c = CHR '']'' \<or> c = CHR ''}'' \<or> is_ws c" using assms by (simp add: delimited_def)
    then have "\<not> is_digit c \<and> c \<noteq> CHR ''.'' \<and> c \<noteq> CHR ''e'' \<and> c \<noteq> CHR ''E''"
      by (auto simp: is_digit_def is_ws_def Let_def)
    then show ?thesis by (simp add: Cons read_fraction_def read_exponent_def)
  qed (simp add: read_fraction_def read_exponent_def)
  then show "read_fraction r = Some (0, r)" "read_exponent r = Some (0, r)"
    "takeWhile is_digit (ds @ r) = takeWhile is_digit ds" by (auto simp: takeWhile_append takeWhile_eq_all_conv[THEN iffD2])
qed

lemma takeWhile_digits [simp]: "takeWhile is_digit (nat_digits n) = nat_digits n"
  using nat_digits_are_digits by (simp add: takeWhile_eq_all_conv)

lemma nat_digits_zero: "nat_digits n = CHR ''0'' # t \<Longrightarrow> n = 0"
proof (induction n arbitrary: t rule: nat_digits.induct)
  case (1 n)
  show ?case
  proof (cases "n < 10")
    case True
    have "char_of (48 + n) = CHR ''0''" using 1(2) True by (subst (asm) nat_digits.simps) simp
    then have "(of_char (char_of (48 + n) :: char) :: nat) = of_char CHR ''0''" by simp
    then show ?thesis using True by simp
  next
    case False
    obtain u where "nat_digits (n div 10) = CHR ''0'' # u"
      using 1(2) False by (subst (asm) nat_digits.simps) (auto simp: append_eq_Cons_conv)
    then have "n div 10 = 0" using 1(1) False by blast
    then show ?thesis using False by simp
  qed
qed

lemma whole_part_digits:
  assumes "takeWhile is_digit r = []" shows "whole_part (nat_digits n @ r) = nat_digits n"
proof (cases "nat_digits n")
  case (Cons c t)
  have d: "takeWhile is_digit (nat_digits n @ r) = nat_digits n" using assms by (simp add: takeWhile_append nat_digits_are_digits)
  show ?thesis
  proof (cases "c = CHR ''0''")
    case True
    then have "n = 0" using Cons nat_digits_zero by simp
    then have "t = []" using Cons by (subst (asm) nat_digits.simps) simp
    then show ?thesis using Cons True by (simp add: whole_part_def)
  next
    case False
    then show ?thesis using Cons d by (simp add: whole_part_def)
  qed
qed simp

lemma digit_not_minus: "is_digit c \<Longrightarrow> c \<noteq> CHR ''-''"
  by (auto simp: is_digit_def)

lemma read_unsigned:
  assumes "0 \<le> q" "decimal q" "delimited r"
  defines "s \<equiv> nat_digits (nat \<lfloor>q\<rfloor>) @ (if is_int_rat q then [] else ''.'' @ decimals 20 (q - of_int \<lfloor>q\<rfloor>)) @ r"
  shows "whole_part s = nat_digits (nat \<lfloor>q\<rfloor>)"
    "read_fraction (drop (length (nat_digits (nat \<lfloor>q\<rfloor>))) s) = Some (q - of_int \<lfloor>q\<rfloor>, r)"
proof -
  let ?f = "q - of_int \<lfloor>q\<rfloor>"
  have f: "0 \<le> ?f" "?f < 1" by linarith+
  have "?f * 10 ^ 20 = q * 10 ^ 20 - of_int (\<lfloor>q\<rfloor> * 10 ^ 20)" by (simp add: algebra_simps)
  then have "is_int_rat (?f * 10 ^ 20)" using assms(2) by (simp only: decimal_def is_int_rat_diff)
  then have v: "fraction_val (decimals 20 ?f) = ?f" by (rule decimals_val[OF f])
  have ds: "takeWhile is_digit (decimals 20 ?f @ r) = decimals 20 ?f" "dropWhile is_digit (decimals 20 ?f @ r) = r"
  proof -
    have "list_all is_digit (decimals 20 ?f)" by (rule decimals_digits[OF f])
    then have t: "takeWhile is_digit (decimals 20 ?f) = decimals 20 ?f" by (simp add: takeWhile_eq_all_conv list_all_iff)
    then show 1: "takeWhile is_digit (decimals 20 ?f @ r) = decimals 20 ?f" using delimitedD(1)[OF assms(3)] by simp
    show "dropWhile is_digit (decimals 20 ?f @ r) = r" using takeWhile_dropWhile_id[of is_digit "decimals 20 ?f @ r"] 1 by simp
  qed
  have r0: "takeWhile is_digit r = []" using delimitedD(1)[OF assms(3), of "[]"] by simp
  show "whole_part s = nat_digits (nat \<lfloor>q\<rfloor>)" unfolding s_def
    using r0 by (intro whole_part_digits) (simp add: is_digit_def)
  show "read_fraction (drop (length (nat_digits (nat \<lfloor>q\<rfloor>))) s) = Some (?f, r)"
  proof (cases "is_int_rat q")
    case True
    then have "?f = 0" by (simp only: is_int_rat_def diff_self)
    then show ?thesis using True by (simp add: s_def delimitedD(2)[OF assms(3)])
  next
    case False
    then have "?f \<noteq> 0" by (auto simp: is_int_rat_def)
    then show ?thesis using False ds v decimals_not_Nil by (simp add: s_def read_fraction_def Let_def)
  qed
qed

lemma read_num_text:
  assumes "decimal q" "delimited r" shows "read_number (num_text q @ r) = Some (q, r)"
proof -
  let ?a = "\<bar>q\<bar>"
  let ?s = "nat_digits (nat \<lfloor>?a\<rfloor>) @ (if is_int_rat ?a then [] else ''.'' @ decimals 20 (?a - of_int \<lfloor>?a\<rfloor>)) @ r"
  have dec: "decimal ?a" using assms(1) is_int_rat_abs[of "q * 10 ^ 20"] by (simp add: decimal_def abs_mult)
  note u = read_unsigned[OF abs_ge_zero dec assms(2)]
  have s: "num_text q @ r = (if q < 0 then CHR ''-'' # ?s else ?s)" by (simp add: num_text_def abs_if is_int_rat_minus)
  have v: "of_nat (nat \<lfloor>?a\<rfloor>) + (?a - of_int \<lfloor>?a\<rfloor>) = ?a" by simp
  obtain c t0 where ct: "?s = c # t0" "c \<noteq> CHR ''-''"
  proof (cases "nat_digits (nat \<lfloor>?a\<rfloor>)")
    case (Cons c t)
    have "is_digit c" using nat_digits_are_digits[of c "nat \<lfloor>?a\<rfloor>"] Cons by simp
    then show thesis using that Cons digit_not_minus by simp
  qed simp
  define t where "t = ?s"
  note u' = u[folded t_def]
  have "read_number (CHR ''-'' # t) = Some (- ?a, r)"
    by (simp add: read_number_def u' delimitedD(3)[OF assms(2)] scale10_def Let_def v)
  moreover have "read_number t = Some (?a, r)"
  proof -
    have "(case t of c # t' \<Rightarrow> if c = CHR ''-'' then (True, t') else (False, t) | [] \<Rightarrow> (False, t)) = (False, t)"
      using ct(2) ct(1)[folded t_def] by simp
    then show ?thesis by (simp add: read_number_def u' delimitedD(3)[OF assms(2)] scale10_def Let_def v)
  qed
  ultimately show ?thesis by (simp only: s t_def[symmetric]) (simp add: abs_if)
qed

section \<open>What is printed is read back\<close>

fun json_ok :: "json \<Rightarrow> bool" where
  "json_ok (JNum q) = decimal q"
| "json_ok (JArr xs) = list_all json_ok xs"
| "json_ok (JObj kvs) = (distinct (map fst kvs) \<and> list_all (\<lambda>(_, v). json_ok v) kvs)"
| "json_ok _ = True"

lemma update_append: "k \<notin> fst ` set xs \<Longrightarrow> AList.update k v xs = xs @ [(k, v)]"
  by (induction xs) auto

lemma last_wins_distinct: "distinct (map fst kvs) \<Longrightarrow> last_wins kvs = kvs"
proof -
  have "distinct (map fst (acc @ kvs)) \<Longrightarrow> foldl (\<lambda>acc (k, v). AList.update k v acc) acc kvs = acc @ kvs" for acc
  proof (induction kvs arbitrary: acc)
    case (Cons kv kvs)
    obtain k v where kv: "kv = (k, v)" by force
    have "AList.update k v acc = acc @ [(k, v)]" using Cons.prems kv by (intro update_append) auto
    then show ?case using Cons.IH[of "acc @ [(k, v)]"] Cons.prems kv by simp
  qed simp
  from this[of "[]"] show "distinct (map fst kvs) \<Longrightarrow> last_wins kvs = kvs" by (simp add: last_wins_def)
qed

lemma read_value_ws [simp]: "list_all is_ws w \<Longrightarrow> read_value n (w @ s) = read_value n s"
  by (cases n) simp_all

lemma read_elements_ws [simp]: "list_all is_ws w \<Longrightarrow> read_elements n (w @ s) = read_elements n s"
  by (cases n) simp_all

lemma read_members_ws [simp]: "list_all is_ws w \<Longrightarrow> read_members n (w @ s) = read_members n s"
  by (cases n) simp_all

text \<open>A text reads as a value whatever follows it, with more fuel than it is long.\<close>
definition reads :: "string \<Rightarrow> json \<Rightarrow> bool" where
  "reads t j = (\<forall>n r. length t < n \<longrightarrow> delimited r \<longrightarrow> read_value n (t @ r) = Some (j, r))"

lemma readsD: "reads t j \<Longrightarrow> length t < n \<Longrightarrow> delimited r \<Longrightarrow> read_value n (t @ r) = Some (j, r)"
  by (simp add: reads_def)

lemma delimited_end: "e = [] \<or> hd e = line_feed \<Longrightarrow> c \<in> {CHR '','', CHR '']'', CHR ''}''} \<Longrightarrow> delimited (e @ c # r)"
  by (cases e) (auto simp: delimited_def is_ws_def line_feed_def)

lemma not_ws [simp]: "\<not> is_ws CHR '',''" "\<not> is_ws CHR '']''" "\<not> is_ws CHR ''}''" "\<not> is_ws CHR '':''" "\<not> is_ws CHR ''[''"
  "\<not> is_ws CHR ''{''" "\<not> is_ws quote_char" "is_ws line_feed" "CHR ''['' \<noteq> quote_char" "CHR ''{'' \<noteq> quote_char"
  by (simp_all add: is_ws_def quote_char_def line_feed_def char_literals)

lemma read_elements_join:
  assumes "xs \<noteq> []" "list_all2 reads ts xs" "list_all is_ws sep" "list_all is_ws e" "e = [] \<or> hd e = line_feed"
    "length (str_join ('','' @ sep) ts) + 1 < n"
  shows "read_elements n (str_join ('','' @ sep) ts @ e @ '']'' @ r) = Some (xs, r)"
  using assms(1,2,6)
proof (induction ts arbitrary: xs n)
  case (Cons t ts)
  obtain x xs' where xs: "xs = x # xs'" "reads t x" "list_all2 reads ts xs'" using Cons.prems(2) by (cases xs) auto
  obtain m where n: "n = Suc m" using Cons.prems(3) by (cases n) auto
  show ?case
  proof (cases ts)
    case Nil
    then have "read_value m (t @ e @ CHR '']'' # r) = Some (x, e @ CHR '']'' # r)"
      using Cons.prems(3) n by (intro readsD[OF xs(2)] delimited_end[OF assms(5)]) auto
    then show ?thesis using Nil xs n assms(4) by simp
  next
    case (Cons t' ts')
    let ?rest = "str_join ('','' @ sep) ts @ e @ '']'' @ r"
    have l: "length (str_join ('','' @ sep) (t # ts)) = length t + 1 + length sep + length (str_join ('','' @ sep) ts)"
      using Cons by simp
    have "read_value m (t @ CHR '','' # sep @ ?rest) = Some (x, CHR '','' # sep @ ?rest)"
      using Cons.prems(3) n l by (intro readsD[OF xs(2)]) (auto simp: delimited_def)
    moreover have "read_elements m ?rest = Some (xs', r)"
      using Cons.IH[of xs' m] Cons xs Cons.prems(3) n l by (cases xs') auto
    ultimately show ?thesis using Cons xs n assms(3) by simp
  qed
qed simp

definition reads_member :: "string \<Rightarrow> string \<times> json \<Rightarrow> bool" where
  "reads_member t kv = (\<exists>w t'. t = json_string (fst kv) @ '':'' @ w @ t' \<and> list_all is_ws w \<and> reads t' (snd kv))"

lemma read_json_string: "read_string (tl (json_string s) @ r) = Some (s, r)" "json_string s = quote_char # tl (json_string s)"
  using read_json_chars[of s r] by (simp_all add: json_string_def quote_char_def Let_def)

lemma read_members_join:
  assumes "kvs \<noteq> []" "list_all2 reads_member ts kvs" "list_all is_ws sep" "list_all is_ws e" "e = [] \<or> hd e = line_feed"
    "length (str_join ('','' @ sep) ts) + 1 < n"
  shows "read_members n (str_join ('','' @ sep) ts @ e @ ''}'' @ r) = Some (kvs, r)"
  using assms(1,2,6)
proof (induction ts arbitrary: kvs n)
  case (Cons t ts)
  obtain k v kvs' where kvs: "kvs = (k, v) # kvs'" "reads_member t (k, v)" "list_all2 reads_member ts kvs'"
    using Cons.prems(2) by (cases kvs) auto
  obtain w t' where t: "t = json_string k @ '':'' @ w @ t'" "list_all is_ws w" "reads t' v"
    using kvs(2) by (auto simp: reads_member_def)
  obtain m where n: "n = Suc m" using Cons.prems(3) by (cases n) auto
  have front: "read_members n (t @ u) = (case read_value m (t' @ u) of None \<Rightarrow> None
      | Some (v, r2) \<Rightarrow> (case skip_ws r2 of [] \<Rightarrow> None
         | e # r3 \<Rightarrow> if e = CHR '','' then map_option (\<lambda>(kvs, r'). ((k, v) # kvs, r')) (read_members m r3)
              else if e = CHR ''}'' then Some ([(k, v)], r3) else None))" for u
  proof -
    have "t @ u = quote_char # (tl (json_string k) @ CHR '':'' # w @ t' @ u)"
      using t(1) read_json_string(2)[of k] by (metis append.assoc append_Cons append_Nil)
    then show ?thesis using t(2) n by (simp add: read_json_string(1))
  qed
  show ?case
  proof (cases ts)
    case Nil
    then have "read_value m (t' @ e @ CHR ''}'' # r) = Some (v, e @ CHR ''}'' # r)"
      using Cons.prems(3) n t(1) by (intro readsD[OF t(3)] delimited_end[OF assms(5)]) auto
    then show ?thesis using Nil kvs front[of "e @ CHR ''}'' # r"] assms(4) by simp
  next
    case (Cons t2 ts')
    let ?rest = "str_join ('','' @ sep) ts @ e @ ''}'' @ r"
    have l: "length (str_join ('','' @ sep) (t # ts)) = length t + 1 + length sep + length (str_join ('','' @ sep) ts)"
      using Cons by simp
    have "read_value m (t' @ CHR '','' # sep @ ?rest) = Some (v, CHR '','' # sep @ ?rest)"
      using Cons.prems(3) n l t(1) by (intro readsD[OF t(3)]) (auto simp: delimited_def)
    moreover have "read_members m ?rest = Some (kvs', r)"
      using Cons.IH[of kvs' m] Cons kvs Cons.prems(3) n l by (cases kvs') auto
    ultimately show ?thesis using Cons kvs front[of "CHR '','' # sep @ ?rest"] assms(3) by simp
  qed
qed simp

lemma readsI: "(\<And>n r. length t \<le> n \<Longrightarrow> delimited r \<Longrightarrow> read_value (Suc n) (t @ r) = Some (j, r)) \<Longrightarrow> reads t j"
proof -
  assume a: "\<And>n r. length t \<le> n \<Longrightarrow> delimited r \<Longrightarrow> read_value (Suc n) (t @ r) = Some (j, r)"
  have "read_value n (t @ r) = Some (j, r)" if "length t < n" "delimited r" for n r
    using that a[of "n - 1" r] by (cases n) auto
  then show ?thesis by (simp add: reads_def)
qed

lemma elements_start: "read_elements n s = Some y \<Longrightarrow> \<not> prefix '']'' (skip_ws s)"
proof
  assume a: "read_elements n s = Some y" "prefix '']'' (skip_ws s)"
  then obtain m t where "n = Suc m" "skip_ws s = CHR '']'' # t" by (cases n) (auto simp: prefix_def)
  moreover have "read_value m s = None" using calculation(2)
    by (cases m) (simp_all add: quote_char_def char_literals is_digit_def read_word_def)
  ultimately show False using a by simp
qed

lemma members_start: "read_members n s = Some y \<Longrightarrow> \<not> prefix ''}'' (skip_ws s)"
proof
  assume a: "read_members n s = Some y" "prefix ''}'' (skip_ws s)"
  then obtain m t where "n = Suc m" "skip_ws s = CHR ''}'' # t" by (cases n) (auto simp: prefix_def)
  then show False using a by (simp add: quote_char_def char_literals)
qed

lemma num_text_start: "\<exists>c t. num_text q = c # t \<and> (is_digit c \<or> c = CHR ''-'') \<and> \<not> is_ws c \<and> c \<noteq> quote_char \<and> c \<noteq> CHR ''['' \<and> c \<noteq> CHR ''{''"
proof -
  obtain c t where ct: "num_text q = c # t" by (cases "num_text q") (auto simp: num_text_def)
  have "is_digit c \<or> c = CHR ''-''"
  proof (cases "q < 0")
    case False
    then have "c = hd (nat_digits (nat \<lfloor>q\<rfloor>))" using ct by (cases "nat_digits (nat \<lfloor>q\<rfloor>)") (auto simp: num_text_def)
    then show ?thesis using nat_digits_are_digits hd_in_set nat_digits_not_Nil by blast
  qed (use ct in \<open>simp add: num_text_def\<close>)
  then have "\<not> is_ws c \<and> c \<noteq> quote_char \<and> c \<noteq> CHR ''['' \<and> c \<noteq> CHR ''{''"
    by (auto simp: is_ws_def is_digit_def quote_char_def Let_def char_literals)
  then show ?thesis using ct \<open>is_digit c \<or> c = CHR ''-''\<close> by blast
qed

lemma json_text_reads:
  assumes "json_ok j" "list_all is_ws gap" "list_all is_ws ind" shows "reads (json_text gap ind j) j"
  using assms(1,3)
proof (induction j arbitrary: ind)
  case JNull
  show ?case by (rule readsI) (simp add: is_ws_def quote_char_def char_literals is_digit_def read_word_def skip_ws_def)
next
  case (JBool b)
  show ?case by (rule readsI) (simp add: is_ws_def quote_char_def char_literals is_digit_def read_word_def skip_ws_def)
next
  case (JNum q)
  show ?case
  proof (rule readsI)
    fix n r assume "delimited r"
    obtain c t where c: "num_text q = c # t" "is_digit c \<or> c = CHR ''-''" "\<not> is_ws c" "c \<noteq> quote_char" "c \<noteq> CHR ''[''" "c \<noteq> CHR ''{''"
      using num_text_start by blast
    then show "read_value (Suc n) (json_text gap ind (JNum q) @ r) = Some (JNum q, r)"
      using read_num_text[OF _ \<open>delimited r\<close>, of q] JNum by simp
  qed
next
  case (JStr s)
  show ?case
  proof (rule readsI)
    fix n r
    have "json_string s @ r = quote_char # (tl (json_string s) @ r)" using read_json_string(2)[of s] by (metis append_Cons)
    then show "read_value (Suc n) (json_text gap ind (JStr s) @ r) = Some (JStr s, r)" unfolding json_text.simps by (simp only:) (simp add: read_json_string(1))
  qed
next
  case (JArr xs)
  show ?case
  proof (rule readsI)
    fix n r assume n: "length (json_text gap ind (JArr xs)) \<le> n"
    let ?sep = "if gap = [] then [] else line_feed # ind @ gap" and ?e = "if gap = [] then [] else line_feed # ind"
    let ?ts = "map (json_text gap (ind @ gap)) xs"
    have w: "list_all is_ws ?sep" "list_all is_ws ?e" using JArr.prems(2) assms(2) by auto
    have "reads (json_text gap (ind @ gap) x) x" if "x \<in> set xs" for x
    proof -
      have "list_all is_ws (ind @ gap)" "json_ok x" using JArr.prems that assms(2) by (auto simp: list_all_iff)
      then show ?thesis using JArr.IH[OF that] by blast
    qed
    then have "list_all2 reads ?ts xs" by (simp add: list_all2_map1 list_all2_same)
    then have b: "xs \<noteq> [] \<Longrightarrow> read_elements n (str_join ('','' @ ?sep) ?ts @ ?e @ '']'' @ r) = Some (xs, r)"
      using n by (intro read_elements_join w) (auto simp: Let_def)
    then have "xs \<noteq> [] \<Longrightarrow> \<not> prefix '']'' (skip_ws (str_join ('','' @ ?sep) ?ts @ ?e @ '']'' @ r))" by (intro elements_start)
    then show "read_value (Suc n) (json_text gap ind (JArr xs) @ r) = Some (JArr xs, r)"
      using b w by (cases "xs = []") (simp_all add: Let_def)
  qed
next
  case (JObj kvs)
  show ?case
  proof (rule readsI)
    fix n r assume n: "length (json_text gap ind (JObj kvs)) \<le> n"
    let ?sep = "if gap = [] then [] else line_feed # ind @ gap" and ?e = "if gap = [] then [] else line_feed # ind"
    let ?colon = "if gap = [] then '':'' else '': ''"
    let ?ts = "map (\<lambda>(k, v). json_string k @ ?colon @ json_text gap (ind @ gap) v) kvs"
    have w: "list_all is_ws ?sep" "list_all is_ws ?e" using JObj.prems(2) assms(2) by auto
    have "reads_member (json_string k @ ?colon @ json_text gap (ind @ gap) v) (k, v)" if "(k, v) \<in> set kvs" for k v
    proof -
      have "reads (json_text gap (ind @ gap) v) v"
      proof -
        have "list_all is_ws (ind @ gap)" "json_ok v" using JObj.prems that assms(2) by (auto simp: list_all_iff)
        then show ?thesis using JObj.IH[OF that, of v] by simp
      qed
      moreover have "?colon = '':'' @ (if gap = [] then [] else '' '')" "list_all is_ws (if gap = [] then [] else '' '')"
        by (simp_all add: is_ws_def)
      ultimately show ?thesis unfolding reads_member_def
        by (intro exI[of _ "if gap = [] then [] else '' ''"] exI[of _ "json_text gap (ind @ gap) v"]) auto
    qed
    then have "list_all2 reads_member ?ts kvs" by (auto simp: list_all2_map1 list_all2_same simp del: append_Cons)
    then have b: "kvs \<noteq> [] \<Longrightarrow> read_members n (str_join ('','' @ ?sep) ?ts @ ?e @ ''}'' @ r) = Some (kvs, r)"
      using n by (intro read_members_join w) (auto simp: Let_def)
    then have "kvs \<noteq> [] \<Longrightarrow> \<not> prefix ''}'' (skip_ws (str_join ('','' @ ?sep) ?ts @ ?e @ ''}'' @ r))" by (intro members_start)
    then show "read_value (Suc n) (json_text gap ind (JObj kvs) @ r) = Some (JObj kvs, r)"
      using b w JObj.prems(1) by (cases "kvs = []") (simp_all add: Let_def last_wins_distinct)
  qed
qed

section \<open>The fuel is enough\<close>

lemma read_string_shorter: "read_string s = Some (x, r) \<Longrightarrow> length r < length s"
proof (induction s arbitrary: x rule: length_induct)
  case (1 s)
  have IH: "length r < length u" if "read_string u = Some (y, r)" "length u < length s" for u y using 1 that by blast
  show ?case
  proof (cases s)
    case (Cons c t)
    then show ?thesis using 1(2)
      by (auto simp: put_char_def split: if_splits option.splits list.splits dest!: IH)
  qed (use 1 in simp)
qed

lemma read_number_shorter:
  assumes "read_number s = Some (q, r)" shows "length r < length s"
proof -
  have f: "read_fraction t = Some (x, u) \<Longrightarrow> length u \<le> length t" for t x u
    using length_dropWhile_le[of is_digit "tl t"] by (auto simp: read_fraction_def Let_def split: list.splits if_splits)
  have e: "read_exponent t = Some (x, u) \<Longrightarrow> length u \<le> length t" for t x u
    using length_dropWhile_le[of is_digit "tl t"] length_dropWhile_le[of is_digit "tl (tl t)"]
    by (auto simp: read_exponent_def Let_def split: list.splits if_splits)
  define t where "t = (if prefix ''-'' s then tl s else s)"
  have t: "(case s of c # u \<Rightarrow> if c = CHR ''-'' then (True, u) else (False, s) | [] \<Rightarrow> (False, s)) = (prefix ''-'' s, t)"
    "length t \<le> length s" by (auto simp: t_def split: list.split)
  have w: "length (whole_part t) \<le> length t"
    using length_takeWhile_le[of is_digit t] by (auto simp: whole_part_def split: list.split)
  obtain x u y where "whole_part t \<noteq> []" "read_fraction (drop (length (whole_part t)) t) = Some (x, u)" "read_exponent u = Some (y, r)"
    using assms by (auto simp: read_number_def t(1) Let_def split: if_splits option.splits)
  then have "length r \<le> length t - length (whole_part t)" "0 < length (whole_part t)" using f e by (fastforce, simp)
  then show ?thesis using w t(2) by linarith
qed

lemma read_word_shorter: "read_word s = Some (j, r) \<Longrightarrow> length r < length s"
  by (auto simp: read_word_def prefix_def split: if_splits)

text \<open>A reader that succeeds takes something of its text, and any fuel above what it takes gives the same.\<close>
definition settles :: "(nat \<Rightarrow> string \<Rightarrow> ('a \<times> string) option) \<Rightarrow> nat \<Rightarrow> bool" where
  "settles f n = (\<forall>s x r. f n s = Some (x, r) \<longrightarrow> length r < length s \<and> (\<forall>m. length s - length r < m \<longrightarrow> f m s = Some (x, r)))"

lemma settlesD:
  assumes "settles f n" "f n s = Some (x, r)"
  shows "length r < length s" "length s - length r < m \<Longrightarrow> f m s = Some (x, r)"
  using assms unfolding settles_def by blast+

lemma skip_ws_Cons: "skip_ws s = c # t \<Longrightarrow> length t < length s"
  using skip_ws_length[of s] by simp

lemma value_settles:
  assumes "settles read_elements n" "settles read_members n" shows "settles read_value (Suc n)"
  unfolding settles_def
proof (intro allI impI)
  fix s x r assume a: "read_value (Suc n) s = Some (x, r)"
  obtain c t where s: "skip_ws s = c # t" using a by (cases "skip_ws s") auto
  note l = skip_ws_Cons[OF s]
  have m: "\<exists>k. m = Suc k \<and> length s - length r' \<le> k" if "length s - length r' < m" for m and r' :: string using that by (cases m) auto
  consider "c = quote_char" | "c = CHR ''[''" "prefix '']'' (skip_ws t)" | "c = CHR ''[''" "\<not> prefix '']'' (skip_ws t)"
    | "c = CHR ''{''" "prefix ''}'' (skip_ws t)" | "c = CHR ''{''" "\<not> prefix ''}'' (skip_ws t)"
    | "c \<noteq> quote_char" "c \<noteq> CHR ''[''" "c \<noteq> CHR ''{''" by blast
  then show "length r < length s \<and> (\<forall>m. length s - length r < m \<longrightarrow> read_value m s = Some (x, r))"
  proof cases
    case 3
    then obtain xs where e: "read_elements n t = Some (xs, r)" "x = JArr xs" using a s by (auto simp: quote_char_def char_literals)
    show ?thesis using settlesD[OF assms(1) e(1)] 3 s l e(2) by (auto dest!: m simp: quote_char_def char_literals)
  next
    case 5
    then obtain xs where e: "read_members n t = Some (xs, r)" "x = JObj (last_wins xs)" using a s by (auto simp: quote_char_def char_literals)
    show ?thesis using settlesD[OF assms(2) e(1)] 5 s l e(2) by (auto dest!: m simp: quote_char_def char_literals)
  next
    case 1
    then obtain y where y: "read_string t = Some (y, r)" "x = JStr y" using a s by auto
    show ?thesis using read_string_shorter[OF y(1)] 1 s l y by (auto dest!: m)
  next
    case 2
    then show ?thesis using a s l skip_ws_length[of t] by (auto dest!: m simp: quote_char_def char_literals)
  next
    case 4
    then show ?thesis using a s l skip_ws_length[of t] by (auto dest!: m simp: quote_char_def char_literals)
  next
    case 6
    then have "length r < length (c # t)" using a s read_number_shorter[of "c # t"] read_word_shorter[of "c # t"] by (auto split: if_splits)
    then show ?thesis using a s l 6 skip_ws_length[of s] by (auto dest!: m)
  qed
qed

lemma elements_settles:
  assumes "settles read_value n" "settles read_elements n" shows "settles read_elements (Suc n)"
  unfolding settles_def
proof (intro allI impI)
  fix s xs r assume a: "read_elements (Suc n) s = Some (xs, r)"
  obtain x u where v: "read_value n s = Some (x, u)" using a by (auto split: option.splits)
  obtain c t where u: "skip_ws u = c # t" using a v by (cases "skip_ws u") auto
  note l = skip_ws_Cons[OF u] settlesD(1)[OF assms(1) v]
  have m: "\<exists>k. m = Suc k \<and> length s - length r' \<le> k" if "length s - length r' < m" for m and r' :: string using that by (cases m) auto
  show "length r < length s \<and> (\<forall>m. length s - length r < m \<longrightarrow> read_elements m s = Some (xs, r))"
  proof (cases "c = CHR '',''")
    case True
    then obtain ys where e: "read_elements n t = Some (ys, r)" "xs = x # ys" using a v u by auto
    show ?thesis using settlesD[OF assms(2) e(1)] settlesD(2)[OF assms(1) v] l True e(2) u by (auto dest!: m)
  next
    case False
    then have "c = CHR '']''" "xs = [x]" "r = t" using a v u by (auto split: if_splits)
    then show ?thesis using settlesD(2)[OF assms(1) v] l u by (auto dest!: m)
  qed
qed

lemma members_settles:
  assumes "settles read_value n" "settles read_members n" shows "settles read_members (Suc n)"
  unfolding settles_def
proof (intro allI impI)
  fix s kvs r assume a: "read_members (Suc n) s = Some (kvs, r)"
  obtain t where s: "skip_ws s = quote_char # t" using a by (cases "skip_ws s") (auto split: if_splits)
  obtain k r0 where k: "read_string t = Some (k, r0)" using a s by (auto split: option.splits)
  obtain r1 where d: "skip_ws r0 = CHR '':'' # r1" using a s k by (cases "skip_ws r0") (auto split: if_splits)
  obtain v r2 where v: "read_value n r1 = Some (v, r2)" using a s k d by (auto split: option.splits)
  obtain e r3 where e: "skip_ws r2 = e # r3" using a s k d v by (cases "skip_ws r2") auto
  note l = skip_ws_Cons[OF s] read_string_shorter[OF k] skip_ws_Cons[OF d] settlesD(1)[OF assms(1) v] skip_ws_Cons[OF e]
  have m: "\<exists>k. m = Suc k \<and> length s - length r' \<le> k" if "length s - length r' < m" for m and r' :: string using that by (cases m) auto
  show "length r < length s \<and> (\<forall>m. length s - length r < m \<longrightarrow> read_members m s = Some (kvs, r))"
  proof (cases "e = CHR '',''")
    case True
    then obtain ys where y: "read_members n r3 = Some (ys, r)" "kvs = (k, v) # ys" using a s k d v e by auto
    show ?thesis using settlesD[OF assms(2) y(1)] settlesD(2)[OF assms(1) v] l True y(2) s k d e by (auto dest!: m)
  next
    case False
    then have "e = CHR ''}''" "kvs = [(k, v)]" "r = r3" using a s k d v e by (auto split: if_splits)
    then show ?thesis using settlesD(2)[OF assms(1) v] l s k d e by (auto dest!: m)
  qed
qed

lemma all_settle: "settles read_value n \<and> settles read_elements n \<and> settles read_members n"
proof (induction n)
  case 0
  show ?case by (simp add: settles_def)
qed (simp add: value_settles elements_settles members_settles)

lemma fuel_irrelevant: "read_value n s = Some x \<Longrightarrow> read_value (Suc (length s)) s = Some x"
  using settlesD(2)[of read_value n s "fst x" "snd x" "Suc (length s)"] all_settle[of n] by simp

text \<open>A text that reads with any fuel reads with the fuel it is given.\<close>
lemma json_fuel: "read_value n s = Some (j, r) \<Longrightarrow> skip_ws r = [] \<Longrightarrow> json_parse s = Some j"
  using fuel_irrelevant by (simp add: json_parse_def)

lemma json_parse_text:
  assumes "json_ok j" "list_all is_ws gap" "list_all is_ws u" "list_all is_ws v"
  shows "json_parse (u @ json_text gap [] j @ v) = Some j"
proof -
  let ?t = "json_text gap [] j"
  have "skip_ws v = []" using assms(4) skip_ws_append[of v "[]"] by (simp add: skip_ws_def)
  moreover have "delimited v" using assms(4) by (cases v) (simp_all add: delimited_def)
  ultimately have "read_value (Suc (length (u @ ?t @ v))) (?t @ v) = Some (j, v)"
    using json_text_reads[OF assms(1,2), of "[]"] by (intro readsD[of ?t]) simp_all
  then show ?thesis using \<open>skip_ws v = []\<close> read_value_ws[OF assms(3), of _ "?t @ v"] by (simp only: json_parse_def option.case prod.case) simp
qed

lemma json_parse_stringify [simp]: "json_ok j \<Longrightarrow> json_parse (stringify j) = Some j" "json_ok j \<Longrightarrow> json_parse (stringify2 j) = Some j"
  using json_parse_text[of j _ "[]" "[]"] by (simp_all add: stringify_def stringify2_def is_ws_def)

end
