(* ===== verification/Runner_Schema.thy ===== *)
theory Runner_Schema
  imports Json_Text "HOL-Library.Monad_Syntax"
begin

text \<open>
  The challenge schemas of \<^verbatim>\<open>packages/shared/src/index.ts\<close> as readers of JSON: \<^verbatim>\<open>challengeRunnerSchema\<close>, a union
  that the field \<^verbatim>\<open>mode\<close> decides, and the types of the fields of a challenge. A reader answers nothing where zod reports an issue;
  keys that the schema does not name are dropped; a default replaces a missing field, not a null. \<^verbatim>\<open>runner_json\<close> is
  the object a stored runner is sent as.
\<close>

section \<open>Types of fields\<close>

definition as_object :: "json \<Rightarrow> (string \<times> json) list option" where
  "as_object j = (case j of JObj kvs \<Rightarrow> Some kvs | _ \<Rightarrow> None)"

definition as_str :: "json \<Rightarrow> string option" where
  "as_str j = (case j of JStr s \<Rightarrow> Some s | _ \<Rightarrow> None)"

definition as_text :: "json \<Rightarrow> string option" where   \<comment> \<open>\<^verbatim>\<open>z.string().min(1)\<close>\<close>
  "as_text j = (case j of JStr s \<Rightarrow> if s = [] then None else Some s | _ \<Rightarrow> None)"

definition as_bool :: "json \<Rightarrow> bool option" where
  "as_bool j = (case j of JBool b \<Rightarrow> Some b | _ \<Rightarrow> None)"

definition as_int :: "int \<Rightarrow> int \<Rightarrow> json \<Rightarrow> int option" where   \<comment> \<open>\<^verbatim>\<open>z.number().int().min(lo).max(hi)\<close>\<close>
  "as_int lo hi j = (case j of JNum q \<Rightarrow> if is_int_rat q \<and> lo \<le> \<lfloor>q\<rfloor> \<and> \<lfloor>q\<rfloor> \<le> hi then Some \<lfloor>q\<rfloor> else None | _ \<Rightarrow> None)"

definition as_literal :: "string \<Rightarrow> json \<Rightarrow> unit option" where
  "as_literal s j = (if j = JStr s then Some () else None)"

definition as_list :: "(json \<Rightarrow> 'a option) \<Rightarrow> json \<Rightarrow> 'a list option" where
  "as_list f j = (case j of JArr xs \<Rightarrow> those (map f xs) | _ \<Rightarrow> None)"

definition as_record :: "(json \<Rightarrow> 'a option) \<Rightarrow> json \<Rightarrow> (string \<times> 'a) list option" where
  "as_record f j = (case j of JObj kvs \<Rightarrow> those (map (\<lambda>(k, v). map_option (Pair k) (f v)) kvs) | _ \<Rightarrow> None)"

definition as_dict :: "json \<Rightarrow> dict option" where "as_dict = as_record as_str"
definition as_rows :: "json \<Rightarrow> (string \<times> json) list list option" where "as_rows = as_list as_object"

definition required :: "(json \<Rightarrow> 'a option) \<Rightarrow> string \<Rightarrow> (string \<times> json) list \<Rightarrow> 'a option" where
  "required f k ob = (case map_of ob k of None \<Rightarrow> None | Some j \<Rightarrow> f j)"

definition optional :: "(json \<Rightarrow> 'a option) \<Rightarrow> string \<Rightarrow> (string \<times> json) list \<Rightarrow> 'a option option" where
  "optional f k ob = (case map_of ob k of None \<Rightarrow> Some None | Some j \<Rightarrow> map_option Some (f j))"

definition defaulted :: "(json \<Rightarrow> 'a option) \<Rightarrow> 'a \<Rightarrow> string \<Rightarrow> (string \<times> json) list \<Rightarrow> 'a option" where
  "defaulted f d k ob = (case map_of ob k of None \<Rightarrow> Some d | Some j \<Rightarrow> f j)"

section \<open>The runner\<close>

text \<open>The candidate of the three container modes, which differ in the bound and the default of the start-up time and in the
  default of the health path.\<close>
definition read_candidate :: "int \<Rightarrow> int \<Rightarrow> string \<Rightarrow> json \<Rightarrow> candidate_cfg option" where
  "read_candidate maxStart start health j = do {
     ob \<leftarrow> as_object j;
     image \<leftarrow> required as_text ''image'' ob;
     workdir \<leftarrow> defaulted as_str ''/app'' ''workdir'' ob;
     generated \<leftarrow> optional as_dict ''generatedFiles'' ob;
     install \<leftarrow> optional as_str ''installCommand'' ob;
     run \<leftarrow> required as_text ''runCommand'' ob;
     port \<leftarrow> defaulted (as_int 1 65535) 3000 ''port'' ob;
     path \<leftarrow> defaulted as_str health ''healthPath'' ob;
     env \<leftarrow> optional as_dict ''env'' ob;
     startup \<leftarrow> defaulted (as_int 1000 maxStart) start ''startupTimeoutMs'' ob;
     Some \<lparr> cc_image = image, cc_workdir = workdir, cc_generatedFiles = generated, cc_installCommand = install,
       cc_runCommand = run, cc_port = port, cc_healthPath = path, cc_env = env, cc_startupTimeoutMs = startup \<rparr> }"

definition read_tests :: "string \<Rightarrow> int \<Rightarrow> int \<Rightarrow> json \<Rightarrow> tests_cfg option" where
  "read_tests framework maxTime time j = do {
     ob \<leftarrow> as_object j;
     required (as_literal framework) ''framework'' ob;
     image \<leftarrow> optional as_str ''image'' ob;
     install \<leftarrow> optional as_str ''installCommand'' ob;
     test \<leftarrow> optional as_str ''testCommand'' ob;
     env \<leftarrow> optional as_dict ''env'' ob;
     timeout \<leftarrow> defaulted (as_int 1000 maxTime) time ''timeoutMs'' ob;
     Some \<lparr> tc_image = image, tc_installCommand = install, tc_testCommand = test, tc_env = env, tc_timeoutMs = timeout \<rparr> }"

definition read_sql_runtime :: "json \<Rightarrow> sql_runtime option" where
  "read_sql_runtime j = (if j = JStr ''postgresql'' then Some Postgresql else if j = JStr ''mysql'' then Some Mysql else None)"

definition read_isolation :: "json \<Rightarrow> sql_isolation option" where
  "read_isolation j = (if j = JStr ''shared'' then Some Shared_db else if j = JStr ''isolated'' then Some Isolated else None)"

definition read_column :: "json \<Rightarrow> (string \<times> string) option" where
  "read_column j = do { ob \<leftarrow> as_object j; name \<leftarrow> required as_str ''name'' ob; type \<leftarrow> required as_str ''type'' ob; Some (name, type) }"

definition read_table :: "json \<Rightarrow> sql_table option" where
  "read_table j = do {
     ob \<leftarrow> as_object j;
     columns \<leftarrow> required (as_list read_column) ''columns'' ob;
     rows \<leftarrow> required as_rows ''rows'' ob;
     truncated \<leftarrow> defaulted as_bool False ''truncated'' ob;
     Some \<lparr> st_columns = columns, st_rows = rows, st_truncated = truncated \<rparr> }"

definition read_public_test :: "json \<Rightarrow> sql_public_test option" where
  "read_public_test j = do {
     ob \<leftarrow> as_object j;
     name \<leftarrow> required as_str ''name'' ob;
     expected \<leftarrow> optional as_rows ''expectedResult'' ob;
     validation \<leftarrow> optional as_str ''validationQuery'' ob;
     after \<leftarrow> optional as_rows ''expectedAfterMutation'' ob;
     Some \<lparr> sp_name = name, sp_expectedResult = expected, sp_validationQuery = validation, sp_expectedAfterMutation = after \<rparr> }"

definition read_generator :: "json \<Rightarrow> sql_generator option" where
  "read_generator j = do {
     ob \<leftarrow> as_object j;
     table \<leftarrow> required as_str ''table'' ob;
     count \<leftarrow> required (as_int 1 1000) ''count'' ob;
     columns \<leftarrow> required as_dict ''columns'' ob;
     Some \<lparr> sg_table = table, sg_count = count, sg_columns = columns \<rparr> }"

definition read_hidden_test :: "json \<Rightarrow> sql_hidden_test option" where
  "read_hidden_test j = do {
     ob \<leftarrow> as_object j;
     name \<leftarrow> required as_str ''name'' ob;
     generator \<leftarrow> optional read_generator ''dataGenerator'' ob;
     reference \<leftarrow> required as_str ''referenceQuery'' ob;
     validation \<leftarrow> optional as_str ''validationQuery'' ob;
     Some \<lparr> sh_name = name, sh_dataGenerator = generator, sh_referenceQuery = reference, sh_validationQuery = validation \<rparr> }"

definition read_sql :: "(string \<times> json) list \<Rightarrow> sql_cfg option" where
  "read_sql ob = do {
     runtime \<leftarrow> defaulted read_sql_runtime Postgresql ''runtime'' ob;
     db \<leftarrow> required as_object ''database'' ob;
     setup \<leftarrow> required as_text ''setupScript'' db;
     reset \<leftarrow> optional as_str ''resetScript'' db;
     image \<leftarrow> optional as_str ''image'' db;
     sample \<leftarrow> required as_object ''sampleData'' ob;
     tables \<leftarrow> required (as_record read_table) ''tables'' sample;
     ts \<leftarrow> required as_object ''tests'' ob;
     isolation \<leftarrow> defaulted read_isolation Shared_db ''isolation'' ts;
     order \<leftarrow> defaulted as_bool False ''orderSensitive'' ts;
     columns \<leftarrow> defaulted as_bool False ''columnOrderSensitive'' ts;
     timeout \<leftarrow> defaulted (as_int 1000 30000) 5000 ''timeoutMs'' ts;
     public \<leftarrow> required (as_list read_public_test) ''publicTests'' ob;
     hidden \<leftarrow> required (as_list read_hidden_test) ''hiddenTests'' ob;
     Some \<lparr> sq_runtime = runtime, sq_setupScript = setup, sq_resetScript = reset, sq_image = image, sq_tables = tables,
       sq_isolation = isolation, sq_orderSensitive = order, sq_columnOrderSensitive = columns, sq_timeoutMs = timeout,
       sq_publicTests = public, sq_hiddenTests = hidden \<rparr> }"

definition read_runner :: "json \<Rightarrow> runner option" where
  "read_runner j = do {
     ob \<leftarrow> as_object j;
     mode \<leftarrow> required as_str ''mode'' ob;
     if mode = ''jest'' then Some RJest
     else if mode = ''http'' then do {
       runtime \<leftarrow> required as_text ''runtime'' ob;
       c \<leftarrow> required (read_candidate 120000 20000 ''/'') ''candidate'' ob;
       t \<leftarrow> required (read_tests ''jest'' 300000 120000) ''tests'' ob;
       Some (RHttp runtime c t) }
     else if mode = ''playwright'' then do {
       required (as_literal ''react'') ''runtime'' ob;
       c \<leftarrow> required (read_candidate 180000 30000 ''/'') ''candidate'' ob;
       t \<leftarrow> required (read_tests ''playwright'' 600000 180000) ''tests'' ob;
       Some (RPlaywright c t) }
     else if mode = ''ui_jsdom'' then do {
       required (as_literal ''react'') ''runtime'' ob;
       c \<leftarrow> required (read_candidate 180000 30000 ''/health'') ''candidate'' ob;
       t \<leftarrow> required (read_tests ''vitest'' 300000 180000) ''tests'' ob;
       Some (RUiJsdom c t) }
     else if mode = ''sql'' then map_option RSql (read_sql ob)
     else None }"

section \<open>Bodies of the challenge routes\<close>

definition read_challenge_body :: "json \<Rightarrow> challenge_body option" where
  "read_challenge_body j = do {
     ob \<leftarrow> as_object j;
     name \<leftarrow> required as_str ''name'' ob;
     description \<leftarrow> optional as_str ''description'' ob;
     files \<leftarrow> required as_dict ''starterFiles'' ob;
     public \<leftarrow> required as_str ''publicTests'' ob;
     hidden \<leftarrow> required as_str ''hiddenTests'' ob;
     deps \<leftarrow> required as_dict ''dependencies'' ob;
     node \<leftarrow> optional as_str ''nodeVersion'' ob;
     runner \<leftarrow> optional read_runner ''runner'' ob;
     Some \<lparr> cb_name = name, cb_description = description, cb_starterFiles = files, cb_publicTests = public,
       cb_hiddenTests = hidden, cb_dependencies = deps, cb_nodeVersion = node, cb_runner = runner \<rparr> }"

definition read_challenge_patch :: "json \<Rightarrow> challenge_patch option" where
  "read_challenge_patch j = do {
     ob \<leftarrow> as_object j;
     name \<leftarrow> optional as_str ''name'' ob;
     description \<leftarrow> optional as_str ''description'' ob;
     files \<leftarrow> optional as_dict ''starterFiles'' ob;
     public \<leftarrow> optional as_str ''publicTests'' ob;
     hidden \<leftarrow> optional as_str ''hiddenTests'' ob;
     deps \<leftarrow> optional as_dict ''dependencies'' ob;
     node \<leftarrow> optional as_str ''nodeVersion'' ob;
     runner \<leftarrow> optional read_runner ''runner'' ob;
     Some \<lparr> cp_name = name, cp_description = description, cp_starterFiles = files, cp_publicTests = public,
       cp_hiddenTests = hidden, cp_dependencies = deps, cp_nodeVersion = node, cp_runner = runner \<rparr> }"

section \<open>The runner as it is sent\<close>

definition opt_member :: "string \<Rightarrow> ('a \<Rightarrow> json) \<Rightarrow> 'a option \<Rightarrow> (string \<times> json) list" where
  "opt_member k f x = (case x of None \<Rightarrow> [] | Some v \<Rightarrow> [(k, f v)])"

definition dict_json :: "dict \<Rightarrow> json" where "dict_json d = JObj (map (\<lambda>(k, v). (k, JStr v)) d)"
definition rows_json :: "(string \<times> json) list list \<Rightarrow> json" where "rows_json rs = JArr (map JObj rs)"

definition candidate_json :: "candidate_cfg \<Rightarrow> json" where
  "candidate_json c = JObj ([(''image'', JStr (cc_image c)), (''workdir'', JStr (cc_workdir c))] @
     opt_member ''generatedFiles'' dict_json (cc_generatedFiles c) @ opt_member ''installCommand'' JStr (cc_installCommand c) @
     [(''runCommand'', JStr (cc_runCommand c)), (''port'', JNum (of_int (cc_port c))), (''healthPath'', JStr (cc_healthPath c))] @
     opt_member ''env'' dict_json (cc_env c) @ [(''startupTimeoutMs'', JNum (of_int (cc_startupTimeoutMs c)))])"

definition tests_json :: "string \<Rightarrow> tests_cfg \<Rightarrow> json" where
  "tests_json framework t = JObj ([(''framework'', JStr framework)] @ opt_member ''image'' JStr (tc_image t) @
     opt_member ''installCommand'' JStr (tc_installCommand t) @ opt_member ''testCommand'' JStr (tc_testCommand t) @
     opt_member ''env'' dict_json (tc_env t) @ [(''timeoutMs'', JNum (of_int (tc_timeoutMs t)))])"

definition table_json :: "sql_table \<Rightarrow> json" where
  "table_json t = JObj [(''columns'', JArr (map (\<lambda>(n, ty). JObj [(''name'', JStr n), (''type'', JStr ty)]) (st_columns t))),
     (''rows'', rows_json (st_rows t)), (''truncated'', JBool (st_truncated t))]"

definition public_test_json :: "sql_public_test \<Rightarrow> json" where
  "public_test_json t = JObj ([(''name'', JStr (sp_name t))] @ opt_member ''expectedResult'' rows_json (sp_expectedResult t) @
     opt_member ''validationQuery'' JStr (sp_validationQuery t) @ opt_member ''expectedAfterMutation'' rows_json (sp_expectedAfterMutation t))"

definition generator_json :: "sql_generator \<Rightarrow> json" where
  "generator_json g = JObj [(''table'', JStr (sg_table g)), (''count'', JNum (of_int (sg_count g))), (''columns'', dict_json (sg_columns g))]"

definition hidden_test_json :: "sql_hidden_test \<Rightarrow> json" where
  "hidden_test_json t = JObj ([(''name'', JStr (sh_name t))] @ opt_member ''dataGenerator'' generator_json (sh_dataGenerator t) @
     [(''referenceQuery'', JStr (sh_referenceQuery t))] @ opt_member ''validationQuery'' JStr (sh_validationQuery t))"

definition sql_json :: "sql_cfg \<Rightarrow> (string \<times> json) list" where
  "sql_json q = [(''runtime'', JStr (case sq_runtime q of Postgresql \<Rightarrow> ''postgresql'' | Mysql \<Rightarrow> ''mysql'')),
     (''database'', JObj ([(''setupScript'', JStr (sq_setupScript q))] @ opt_member ''resetScript'' JStr (sq_resetScript q) @
        opt_member ''image'' JStr (sq_image q))),
     (''sampleData'', JObj [(''tables'', JObj (map (\<lambda>(k, t). (k, table_json t)) (sq_tables q)))]),
     (''tests'', JObj [(''isolation'', JStr (case sq_isolation q of Shared_db \<Rightarrow> ''shared'' | Isolated \<Rightarrow> ''isolated'')),
        (''orderSensitive'', JBool (sq_orderSensitive q)), (''columnOrderSensitive'', JBool (sq_columnOrderSensitive q)),
        (''timeoutMs'', JNum (of_int (sq_timeoutMs q)))]),
     (''publicTests'', JArr (map public_test_json (sq_publicTests q))), (''hiddenTests'', JArr (map hidden_test_json (sq_hiddenTests q)))]"

definition runner_json :: "runner \<Rightarrow> json" where
  "runner_json r = (case r of
     RJest \<Rightarrow> JObj [(''mode'', JStr ''jest'')]
   | RHttp rt c t \<Rightarrow> JObj [(''mode'', JStr ''http''), (''runtime'', JStr rt), (''candidate'', candidate_json c), (''tests'', tests_json ''jest'' t)]
   | RPlaywright c t \<Rightarrow> JObj [(''mode'', JStr ''playwright''), (''runtime'', JStr ''react''), (''candidate'', candidate_json c), (''tests'', tests_json ''playwright'' t)]
   | RUiJsdom c t \<Rightarrow> JObj [(''mode'', JStr ''ui_jsdom''), (''runtime'', JStr ''react''), (''candidate'', candidate_json c), (''tests'', tests_json ''vitest'' t)]
   | RSql q \<Rightarrow> JObj ((''mode'', JStr ''sql'') # sql_json q))"

section \<open>What the schema promises\<close>

definition candidate_ok :: "int \<Rightarrow> candidate_cfg \<Rightarrow> bool" where
  "candidate_ok maxStart c = (cc_image c \<noteq> [] \<and> cc_runCommand c \<noteq> [] \<and> 1 \<le> cc_port c \<and> cc_port c \<le> 65535 \<and>
     1000 \<le> cc_startupTimeoutMs c \<and> cc_startupTimeoutMs c \<le> maxStart)"

definition tests_ok :: "int \<Rightarrow> tests_cfg \<Rightarrow> bool" where
  "tests_ok maxTime t = (1000 \<le> tc_timeoutMs t \<and> tc_timeoutMs t \<le> maxTime)"

definition sql_ok :: "sql_cfg \<Rightarrow> bool" where
  "sql_ok q = (sq_setupScript q \<noteq> [] \<and> 1000 \<le> sq_timeoutMs q \<and> sq_timeoutMs q \<le> 30000 \<and>
     list_all (\<lambda>t. opt_all (\<lambda>g. 1 \<le> sg_count g \<and> sg_count g \<le> 1000) (sh_dataGenerator t)) (sq_hiddenTests q))"

definition runner_ok :: "runner \<Rightarrow> bool" where
  "runner_ok r = (case r of RJest \<Rightarrow> True
     | RHttp rt c t \<Rightarrow> rt \<noteq> [] \<and> candidate_ok 120000 c \<and> tests_ok 300000 t
     | RPlaywright c t \<Rightarrow> candidate_ok 180000 c \<and> tests_ok 600000 t
     | RUiJsdom c t \<Rightarrow> candidate_ok 180000 c \<and> tests_ok 300000 t
     | RSql q \<Rightarrow> sql_ok q)"

section \<open>Facts\<close>

lemma opt_member_simps [simp]: "opt_member k f None = []" "opt_member k f (Some v) = [(k, f v)]"
  by (simp_all add: opt_member_def)

lemma those_map_Some: "(\<And>x. x \<in> set xs \<Longrightarrow> f x = Some (g x)) \<Longrightarrow> those (map f xs) = Some (map g xs)"
  by (induction xs) auto

lemma as_simps [simp]: "as_object (JObj kvs) = Some kvs" "as_str (JStr s) = Some s" "as_bool (JBool b) = Some b"
  "as_text (JStr s) = (if s = [] then None else Some s)" "as_literal s (JStr t) = (if t = s then Some () else None)"
  "as_int lo hi (JNum (of_int n)) = (if lo \<le> n \<and> n \<le> hi then Some n else None)"
  by (simp_all add: as_object_def as_str_def as_bool_def as_text_def as_literal_def as_int_def is_int_rat_iff)

lemma as_list_map: "(\<And>x. x \<in> set xs \<Longrightarrow> f (g x) = Some x) \<Longrightarrow> as_list f (JArr (map g xs)) = Some xs"
  using those_map_Some[of xs "f \<circ> g" id] by (simp add: as_list_def)

lemma as_record_map: "(\<And>k x. (k, x) \<in> set xs \<Longrightarrow> f (g x) = Some x) \<Longrightarrow> as_record f (JObj (map (\<lambda>(k, x). (k, g x)) xs)) = Some xs"
  using those_map_Some[of xs "(\<lambda>(k, v). map_option (Pair k) (f v)) \<circ> (\<lambda>(k, x). (k, g x))" id] by (auto simp: as_record_def)

lemma as_dict_json [simp]: "as_dict (dict_json d) = Some d"
  by (simp add: as_dict_def dict_json_def as_record_map)

lemma as_rows_json [simp]: "as_rows (rows_json rs) = Some rs"
  by (simp add: as_rows_def rows_json_def as_list_map)

lemma requiredE: "required f k ob = Some x \<Longrightarrow> \<exists>j. f j = Some x"
  by (auto simp: required_def split: option.splits)

lemma defaultedE: "defaulted f d k ob = Some x \<Longrightarrow> x = d \<or> (\<exists>j. f j = Some x)"
  by (auto simp: defaulted_def split: option.splits)

lemma optionalE: "optional f k ob = Some (Some x) \<Longrightarrow> \<exists>j. f j = Some x"
  by (auto simp: optional_def split: option.splits)

lemma as_textD: "as_text j = Some s \<Longrightarrow> s \<noteq> []"
  by (auto simp: as_text_def split: json.splits if_splits)

lemma as_intD: "as_int lo hi j = Some n \<Longrightarrow> lo \<le> n \<and> n \<le> hi"
  by (auto simp: as_int_def split: json.splits if_splits)

lemma as_listD: "as_list f j = Some xs \<Longrightarrow> x \<in> set xs \<Longrightarrow> \<exists>j'. f j' = Some x"
proof -
  have "those (map f ys) = Some xs \<Longrightarrow> x \<in> set xs \<Longrightarrow> \<exists>j'. f j' = Some x" for ys
    by (induction ys arbitrary: xs) (auto split: option.splits)
  then show "as_list f j = Some xs \<Longrightarrow> x \<in> set xs \<Longrightarrow> \<exists>j'. f j' = Some x" by (auto simp: as_list_def split: json.splits)
qed

lemmas field_defs = required_def optional_def defaulted_def

lemma candidate_roundtrip: "candidate_ok m c \<Longrightarrow> read_candidate m d h (candidate_json c) = Some c"
  by (cases "cc_generatedFiles c"; cases "cc_installCommand c"; cases "cc_env c")
    (simp_all add: read_candidate_def candidate_json_def candidate_ok_def field_defs)

lemma tests_roundtrip: "tests_ok m t \<Longrightarrow> read_tests fw m d (tests_json fw t) = Some t"
  by (cases "tc_image t"; cases "tc_installCommand t"; cases "tc_testCommand t"; cases "tc_env t")
    (simp_all add: read_tests_def tests_json_def tests_ok_def field_defs)

lemma table_roundtrip: "read_table (table_json t) = Some t"
proof -
  have "as_list read_column (JArr (map (\<lambda>(n, ty). JObj [(''name'', JStr n), (''type'', JStr ty)]) (st_columns t))) = Some (st_columns t)"
    by (rule as_list_map) (auto simp: read_column_def field_defs)
  then show ?thesis by (simp add: read_table_def table_json_def field_defs)
qed

lemma public_test_roundtrip: "read_public_test (public_test_json t) = Some t"
  by (cases "sp_expectedResult t"; cases "sp_validationQuery t"; cases "sp_expectedAfterMutation t")
    (simp_all add: read_public_test_def public_test_json_def field_defs)

lemma generator_roundtrip: "1 \<le> sg_count g \<Longrightarrow> sg_count g \<le> 1000 \<Longrightarrow> read_generator (generator_json g) = Some g"
  by (simp add: read_generator_def generator_json_def field_defs)

lemma hidden_test_roundtrip:
  "opt_all (\<lambda>g. 1 \<le> sg_count g \<and> sg_count g \<le> 1000) (sh_dataGenerator t) \<Longrightarrow> read_hidden_test (hidden_test_json t) = Some t"
  by (cases "sh_dataGenerator t"; cases "sh_validationQuery t")
    (simp_all add: read_hidden_test_def hidden_test_json_def field_defs generator_roundtrip)

lemma sql_roundtrip:
  assumes "sql_ok q" shows "read_sql ((''mode'', m) # sql_json q) = Some q"
proof -
  have r: "read_sql_runtime (JStr (case rt of Postgresql \<Rightarrow> ''postgresql'' | Mysql \<Rightarrow> ''mysql'')) = Some rt" for rt
    by (cases rt) (simp_all add: read_sql_runtime_def)
  have i: "read_isolation (JStr (case is of Shared_db \<Rightarrow> ''shared'' | Isolated \<Rightarrow> ''isolated'')) = Some is" for "is"
    by (cases "is") (simp_all add: read_isolation_def)
  have t: "as_record read_table (JObj (map (\<lambda>(k, t). (k, table_json t)) (sq_tables q))) = Some (sq_tables q)"
    by (rule as_record_map) (rule table_roundtrip)
  have p: "as_list read_public_test (JArr (map public_test_json (sq_publicTests q))) = Some (sq_publicTests q)"
    by (rule as_list_map) (rule public_test_roundtrip)
  have h: "as_list read_hidden_test (JArr (map hidden_test_json (sq_hiddenTests q))) = Some (sq_hiddenTests q)"
    using assms by (intro as_list_map hidden_test_roundtrip) (simp add: sql_ok_def list_all_iff)
  show ?thesis using assms r i t p h
    by (cases "sq_resetScript q"; cases "sq_image q") (simp_all add: read_sql_def sql_json_def sql_ok_def field_defs)
qed

lemma runner_roundtrip: "runner_ok r \<Longrightarrow> read_runner (runner_json r) = Some r"
  by (cases r) (simp_all add: read_runner_def runner_json_def runner_ok_def field_defs candidate_roundtrip tests_roundtrip sql_roundtrip)

lemma candidate_bounds: "read_candidate m d h j = Some c \<Longrightarrow> 1000 \<le> d \<Longrightarrow> d \<le> m \<Longrightarrow> candidate_ok m c"
  by (auto simp: read_candidate_def candidate_ok_def bind_eq_Some_conv dest!: requiredE defaultedE as_textD as_intD)

lemma tests_bounds: "read_tests fw m d j = Some t \<Longrightarrow> 1000 \<le> d \<Longrightarrow> d \<le> m \<Longrightarrow> tests_ok m t"
  by (auto simp: read_tests_def tests_ok_def bind_eq_Some_conv dest!: defaultedE as_intD)

lemma generator_bounds: "read_generator j = Some g \<Longrightarrow> 1 \<le> sg_count g \<and> sg_count g \<le> 1000"
  by (auto simp: read_generator_def bind_eq_Some_conv dest!: requiredE as_intD)

lemma hidden_test_bounds: "read_hidden_test j = Some t \<Longrightarrow> opt_all (\<lambda>g. 1 \<le> sg_count g \<and> sg_count g \<le> 1000) (sh_dataGenerator t)"
  by (cases "sh_dataGenerator t") (auto simp: read_hidden_test_def bind_eq_Some_conv dest!: optionalE generator_bounds)

lemma sql_bounds:
  assumes "read_sql ob = Some q" shows "sql_ok q"
proof -
  obtain db ts where "required as_text ''setupScript'' db = Some (sq_setupScript q)"
    "defaulted (as_int 1000 30000) 5000 ''timeoutMs'' ts = Some (sq_timeoutMs q)"
    "required (as_list read_hidden_test) ''hiddenTests'' ob = Some (sq_hiddenTests q)"
    using assms by (auto simp: read_sql_def bind_eq_Some_conv)
  then show ?thesis unfolding sql_ok_def list_all_iff
    by (auto dest!: requiredE defaultedE as_textD as_intD dest: as_listD hidden_test_bounds)
qed

lemma runner_bounds: "read_runner j = Some r \<Longrightarrow> runner_ok r"
  by (auto simp: read_runner_def runner_ok_def bind_eq_Some_conv split: if_splits
    dest!: requiredE as_textD candidate_bounds tests_bounds sql_bounds)

end
