(* ===== verification/Challenge_Presets.thy ===== *)
theory Challenge_Presets
  imports Runner_Schema
begin

text \<open>
  The literals of the forms for challenges (app/admin/challenges/new/page.tsx and app/admin/challenges/[id]/edit/page.tsx): the
  starter files and tests that a new challenge begins with and the presets of the runner, as JSON values. The presets for
  containers are the same on both pages except for the start-up time of the Playwright one; the SQL presets
  are only on the page for a new challenge.
\<close>

section \<open>A new challenge\<close>

definition default_index :: string where
  "default_index = str_join [line_feed] [
     ''const express = require('express');'',
     [],
     ''const app = express();'',
     ''app.use(express.json());'',
     [],
     ''// In-memory storage (if needed)'',
     ''let items = [];'',
     ''let nextId = 1;'',
     [],
     ''// TODO: Implement your routes here'',
     [],
     ''module.exports = app;'',
     []]"

definition default_server :: string where
  "default_server = str_join [line_feed] [
     ''const app = require('./index');'',
     [],
     ''const PORT = process.env.PORT || 3000;'',
     ''app.listen(PORT, () => {'',
     ''    console.log(`Server running on port ${PORT}`);'',
     ''});'',
     []]"

definition default_starter_files :: json where
  "default_starter_files = JObj [(''src/index.js'', JStr default_index), (''src/server.js'', JStr default_server)]"

definition default_dependencies :: json where
  "default_dependencies = JObj [(''express'', JStr ''^4.18.2''), (''typescript'', JStr ''^5.0.0''), (''@types/express'', JStr ''^4.17.17''),
     (''@types/node'', JStr ''^20.0.0''), (''jest'', JStr ''^29.0.0''), (''@types/jest'', JStr ''^29.0.0''), (''supertest'', JStr ''^6.3.0''),
     (''@types/supertest'', JStr ''^2.0.0''), (''ts-jest'', JStr ''^29.0.0'')]"

definition default_public_tests :: string where
  "default_public_tests = str_join [line_feed] [
     ''const request = require('supertest');'',
     [],
     ''let app;'',
     [],
     ''// Test isolation - reload app before each test to reset state'',
     ''beforeEach(() => {'',
     ''    jest.resetModules();'',
     ''    app = require('../src/index');'',
     ''});'',
     [],
     ''describe('API Tests - Public', () => {'',
     ''    test('GET / should respond with 200', async () => {'',
     ''        const res = await request(app).get('/');'',
     ''        expect(res.status).toBe(200);'',
     ''    });'',
     [],
     ''    // Add more public tests here...'',
     ''    // Tips:'',
     ''    // - Use random data to prevent hardcoding: `Title-${Date.now()}`'',
     ''    // - Test actual behavior, not just status codes'',
     ''    // - Verify created items appear in list responses'',
     ''});'',
     []]"

definition default_hidden_tests :: string where
  "default_hidden_tests = str_join [line_feed] [
     ''const request = require('supertest');'',
     [],
     ''let app;'',
     [],
     ''// Test isolation - reload app before each test to reset state'',
     ''beforeEach(() => {'',
     ''    jest.resetModules();'',
     ''    app = require('../src/index');'',
     ''});'',
     [],
     ''describe('Hidden Tests', () => {'',
     ''    // Use random data to prevent hardcoding'',
     ''    test('API works with random data', async () => {'',
     ''        const randomValue = `Test-${Date.now()}-${Math.random().toString(36).slice(2)}`;'',
     ''        // Replace with actual test logic'',
     ''        expect(randomValue).toBeDefined();'',
     ''    });'',
     [],
     ''    // Test defaults are set correctly'',
     ''    test('Default values are applied', async () => {'',
     ''        // Example: POST without optional field should set default'',
     ''        expect(true).toBe(true);'',
     ''    });'',
     [],
     ''    // Test error handling'',
     ''    test('Returns 404 for non-existent resource', async () => {'',
     ''        const res = await request(app).get('/nonexistent/99999');'',
     ''        expect(res.status).toBe(404);'',
     ''    });'',
     [],
     ''    // Test isolation - operations don't affect unrelated data'',
     ''    test('Delete only affects target item', async () => {'',
     ''        // Create multiple items, delete one, verify others remain'',
     ''        expect(true).toBe(true);'',
     ''    });'',
     [],
     ''    // Add more hidden tests...'',
     ''    // Tips:'',
     ''    // - Test list endpoints return created items (prevents empty array forever)'',
     ''    // - Verify updates persist to subsequent GET requests'',
     ''    // - Test 404 for PUT/DELETE on non-existent resources'',
     ''    // - Validate date/timestamp formats'',
     ''});'',
     []]"

section \<open>Containers\<close>

definition npm_install :: json where "npm_install = JStr ''npm install --legacy-peer-deps 2>&1''"

definition http_tests_preset :: json where
  "http_tests_preset = JObj [(''framework'', JStr ''jest''), (''image'', JStr ''node:20-alpine''), (''installCommand'', npm_install),
     (''testCommand'', JStr ''npm test 2>&1 || true''), (''timeoutMs'', JNum 120000)]"

definition http_preset :: "string \<Rightarrow> string \<Rightarrow> (string \<times> json) list \<Rightarrow> json \<Rightarrow> string \<Rightarrow> json" where
  "http_preset runtime img generated install run = JObj [(''mode'', JStr ''http''), (''runtime'', JStr runtime),
     (''candidate'', JObj ([(''image'', JStr img), (''workdir'', JStr ''/app'')] @ generated @ [(''installCommand'', install),
        (''runCommand'', JStr run), (''port'', JNum 3000), (''healthPath'', JStr ''/''), (''startupTimeoutMs'', JNum 30000)])),
     (''tests'', http_tests_preset)]"

definition requirements :: "string list \<Rightarrow> (string \<times> json) list" where
  "requirements ls = [(''generatedFiles'', JObj [(''requirements.txt'', JStr (str_join [line_feed] (ls @ [[]])))])]"

definition node_preset :: json where
  "node_preset = http_preset ''node'' ''node:20-alpine'' [] npm_install ''node src/server.js''"

definition fastapi_preset :: json where
  "fastapi_preset = http_preset ''python'' ''python:3.11-slim'' (requirements [''fastapi==0.115.5'', ''uvicorn==0.32.1''])
     (JStr ''pip install -r requirements.txt'') ''python -m uvicorn main:app --host 0.0.0.0 --port $PORT''"

definition flask_preset :: json where
  "flask_preset = http_preset ''python'' ''python:3.11-slim'' (requirements [''flask==3.0.3''])
     (JStr ''pip install -r requirements.txt'') ''python app.py''"

definition go_preset :: json where
  "go_preset = http_preset ''go'' ''golang:1.22-alpine'' [] (JStr ''go build -o app .'') ''./app''"

definition react_dependencies :: json where
  "react_dependencies = JObj [(''react'', JStr ''^18.3.1''), (''react-dom'', JStr ''^18.3.1'')]"

definition react_package :: json where
  "react_package = JObj [(''name'', JStr ''candidate-react-app''), (''private'', JBool True),
     (''scripts'', JObj [(''dev'', JStr ''vite --host 0.0.0.0 --port $PORT''), (''build'', JStr ''vite build''),
        (''start'', JStr ''vite preview --host 0.0.0.0 --port $PORT'')]),
     (''dependencies'', react_dependencies),
     (''devDependencies'', JObj [(''vite'', JStr ''^5.4.10''), (''@vitejs/plugin-react'', JStr ''^4.3.3'')])]"

definition playwright_preset :: "rat \<Rightarrow> json" where
  "playwright_preset startup = JObj [(''mode'', JStr ''playwright''), (''runtime'', JStr ''react''),
     (''candidate'', JObj [(''image'', JStr ''node:20-alpine''), (''workdir'', JStr ''/app''),
        (''generatedFiles'', JObj [(''package.json'', JStr (stringify2 react_package))]), (''installCommand'', npm_install),
        (''runCommand'', JStr ''npm run dev -- --host 0.0.0.0 --port $PORT''), (''port'', JNum 3000), (''healthPath'', JStr ''/''),
        (''startupTimeoutMs'', JNum startup)]),
     (''tests'', JObj [(''framework'', JStr ''playwright''), (''image'', JStr ''mcr.microsoft.com/playwright:v1.57.0-jammy''),
        (''installCommand'', JStr ''npm install 2>&1''),
        (''testCommand'', JStr ''PLAYWRIGHT_JUNIT_OUTPUT_NAME=results.xml npx playwright test --reporter=junit 2>&1''), (''timeoutMs'', JNum 180000)])]"

definition jsdom_package :: json where
  "jsdom_package = JObj [(''name'', JStr ''candidate-react-ui-jsdom''), (''private'', JBool True), (''type'', JStr ''module''),
     (''scripts'', JObj [(''dev'', JStr ''vite --host 0.0.0.0 --port $PORT''), (''build'', JStr ''vite build'')]),
     (''dependencies'', react_dependencies),
     (''devDependencies'', JObj [(''vite'', JStr ''^5.4.10''), (''@vitejs/plugin-react'', JStr ''^4.3.3''), (''jsdom'', JStr ''^24.1.0''),
        (''@testing-library/react'', JStr ''^16.0.1''), (''@testing-library/dom'', JStr ''^10.4.0''), (''@testing-library/user-event'', JStr ''^14.5.2'')])]"

definition jsdom_harness :: string where
  "jsdom_harness = str_join [line_feed] [
     ''// ui_jsdom harness (placeholder)'',
     ''// Replace with the full harness template from docs.'',
     ''console.log('ui_jsdom harness placeholder');'',
     ''require('http').createServer((req, res) => {'',
     ''  if (req.url === '/health') return res.end('ok');'',
     ''  res.statusCode = 404;'',
     ''  res.end('not implemented');'',
     ''}).listen(process.env.PORT || 3000, '0.0.0.0');'',
     []]"

definition jsdom_preset :: json where
  "jsdom_preset = JObj [(''mode'', JStr ''ui_jsdom''), (''runtime'', JStr ''react''),
     (''candidate'', JObj [(''image'', JStr ''node:20-alpine''), (''workdir'', JStr ''/app''),
        (''generatedFiles'', JObj [(''package.json'', JStr (stringify2 jsdom_package)), (''.grader/ui-harness.cjs'', JStr jsdom_harness)]),
        (''installCommand'', npm_install), (''runCommand'', JStr ''node .grader/ui-harness.cjs''), (''port'', JNum 3000),
        (''healthPath'', JStr ''/health''), (''env'', JObj [(''APP_ENTRY'', JStr ''/src/App.jsx'')]), (''startupTimeoutMs'', JNum 45000)]),
     (''tests'', JObj [(''framework'', JStr ''vitest''), (''image'', JStr ''node:20-alpine''), (''installCommand'', npm_install),
        (''testCommand'', JStr ''npm test 2>&1''), (''timeoutMs'', JNum 180000)])]"

section \<open>Databases\<close>

definition column_json :: "string \<Rightarrow> string \<Rightarrow> json" where
  "column_json n t = JObj [(''name'', JStr n), (''type'', JStr t)]"

definition user_row :: "rat \<Rightarrow> string \<Rightarrow> string \<Rightarrow> rat \<Rightarrow> json" where
  "user_row i n e a = JObj [(''id'', JNum i), (''name'', JStr n), (''email'', JStr e), (''age'', JNum a)]"

definition users_script :: string where
  "users_script = str_join [line_feed] [
     ''CREATE TABLE users ('',
     ''    id SERIAL PRIMARY KEY,'',
     ''    name VARCHAR(100) NOT NULL,'',
     ''    email VARCHAR(255) UNIQUE,'',
     ''    age INT,'',
     ''    created_at TIMESTAMP DEFAULT NOW()'',
     '');'',
     [],
     ''INSERT INTO users (name, email, age) VALUES'',
     ''    ('Alice', 'alice@test.com', 28),'',
     ''    ('Bob', 'bob@test.com', 35),'',
     ''    ('Charlie', 'charlie@test.com', 42),'',
     ''    ('Diana', 'diana@test.com', 31),'',
     ''    ('Eve', 'eve@test.com', 25);'']"

definition sql_readonly_preset :: json where
  "sql_readonly_preset = JObj [(''mode'', JStr ''sql''), (''runtime'', JStr ''postgresql''),
     (''database'', JObj [(''setupScript'', JStr users_script)]),
     (''sampleData'', JObj [(''tables'', JObj [(''users'', JObj [
        (''columns'', JArr [column_json ''id'' ''INT'', column_json ''name'' ''VARCHAR(100)'', column_json ''email'' ''VARCHAR(255)'', column_json ''age'' ''INT'']),
        (''rows'', JArr [user_row 1 ''Alice'' ''alice@test.com'' 28, user_row 2 ''Bob'' ''bob@test.com'' 35, user_row 3 ''Charlie'' ''charlie@test.com'' 42]),
        (''truncated'', JBool True)])])]),
     (''tests'', JObj [(''isolation'', JStr ''shared''), (''orderSensitive'', JBool False), (''columnOrderSensitive'', JBool False), (''timeoutMs'', JNum 5000)]),
     (''publicTests'', JArr [JObj [(''name'', JStr ''Select all users''),
        (''expectedResult'', JArr [user_row 1 ''Alice'' ''alice@test.com'' 28, user_row 2 ''Bob'' ''bob@test.com'' 35,
           user_row 3 ''Charlie'' ''charlie@test.com'' 42, user_row 4 ''Diana'' ''diana@test.com'' 31, user_row 5 ''Eve'' ''eve@test.com'' 25])]]),
     (''hiddenTests'', JArr [JObj [(''name'', JStr ''Filter by age > 30''), (''referenceQuery'', JStr ''SELECT * FROM users WHERE age > 30 ORDER BY id'')]])]"

definition task_row :: "rat \<Rightarrow> string \<Rightarrow> json" where
  "task_row i t = JObj [(''id'', JNum i), (''title'', JStr t), (''completed'', JBool False)]"

definition tasks_script :: string where
  "tasks_script = str_join [line_feed] [
     ''CREATE TABLE tasks ('',
     ''    id SERIAL PRIMARY KEY,'',
     ''    title VARCHAR(255) NOT NULL,'',
     ''    completed BOOLEAN DEFAULT FALSE,'',
     ''    created_at TIMESTAMP DEFAULT NOW()'',
     '');'',
     [],
     ''INSERT INTO tasks (title, completed) VALUES'',
     ''    ('Learn SQL', FALSE),'',
     ''    ('Practice queries', FALSE);'']"

definition sql_write_preset :: json where
  "sql_write_preset = JObj [(''mode'', JStr ''sql''), (''runtime'', JStr ''postgresql''),
     (''database'', JObj [(''setupScript'', JStr tasks_script), (''resetScript'', JStr ''TRUNCATE tasks RESTART IDENTITY CASCADE;'')]),
     (''sampleData'', JObj [(''tables'', JObj [(''tasks'', JObj [
        (''columns'', JArr [column_json ''id'' ''INT'', column_json ''title'' ''VARCHAR(255)'', column_json ''completed'' ''BOOLEAN'']),
        (''rows'', JArr [task_row 1 ''Learn SQL'', task_row 2 ''Practice queries'']),
        (''truncated'', JBool False)])])]),
     (''tests'', JObj [(''isolation'', JStr ''isolated''), (''orderSensitive'', JBool False), (''columnOrderSensitive'', JBool False), (''timeoutMs'', JNum 10000)]),
     (''publicTests'', JArr [JObj [(''name'', JStr ''Insert a new task''), (''validationQuery'', JStr ''SELECT COUNT(*) as count FROM tasks''),
        (''expectedAfterMutation'', JArr [JObj [(''count'', JNum 3)]])]]),
     (''hiddenTests'', JArr [JObj [(''name'', JStr ''Insert with random data''),
        (''dataGenerator'', JObj [(''table'', JStr ''tasks''), (''count'', JNum 5),
           (''columns'', JObj [(''title'', JStr ''RANDOM_STRING(20)''), (''completed'', JStr ''RANDOM_BOOL()'')])]),
        (''referenceQuery'', JStr ''INSERT INTO tasks (title, completed) VALUES ('New Task', FALSE)''),
        (''validationQuery'', JStr ''SELECT COUNT(*) as count FROM tasks'')]])]"

section \<open>The menus\<close>

text \<open>The keys of the presets, apart from legacy, and their values on the page for a new challenge and on the page that edits one.\<close>
definition new_presets :: "(string \<times> json) list" where
  "new_presets = [(''backend_node_http'', node_preset), (''backend_fastapi_http'', fastapi_preset), (''backend_flask_http'', flask_preset),
     (''backend_go_http'', go_preset), (''react_playwright'', playwright_preset 45000), (''react_ui_jsdom'', jsdom_preset),
     (''sql_readonly'', sql_readonly_preset), (''sql_write'', sql_write_preset)]"

definition edit_presets :: "(string \<times> json) list" where
  "edit_presets = [(''backend_node_http'', node_preset), (''backend_fastapi_http'', fastapi_preset), (''backend_flask_http'', flask_preset),
     (''backend_go_http'', go_preset), (''react_playwright'', playwright_preset 30000), (''react_ui_jsdom'', jsdom_preset)]"

end
