(* ===== verification/Challenge_Forms.thy ===== *)
theory Challenge_Forms
  imports Challenge_Presets Challenge_Routes Grader_Worker
begin

text \<open>
  The forms in which administrators write challenges: app/admin/challenges/new/page.tsx and
  app/admin/challenges/[id]/edit/page.tsx. Dependencies, starter files and the runner are edited as JSON texts; the object
  \<^verbatim>\<open>form\<close> keeps parsed copies of them that a submission replaces by a fresh reading of the texts, so they are not part of the
  state. \<^verbatim>\<open>submit_form\<close> answers the body of the request, which arrives as it was sent (\<^verbatim>\<open>json_parse_stringify\<close>).
\<close>

section \<open>The form\<close>

record challenge_page =
  hp_name :: string
  hp_description :: string
  hp_nodeVersion :: string
  hp_publicTests :: string
  hp_hiddenTests :: string
  hp_dependenciesJson :: string
  hp_starterFilesJson :: string
  hp_runnerJson :: string
  hp_runnerPreset :: string
  hp_errors :: dict

definition new_challenge_page :: challenge_page where
  "new_challenge_page = \<lparr> hp_name = [], hp_description = [], hp_nodeVersion = ''20'', hp_publicTests = default_public_tests,
     hp_hiddenTests = default_hidden_tests, hp_dependenciesJson = stringify2 default_dependencies,
     hp_starterFilesJson = stringify2 default_starter_files, hp_runnerJson = [], hp_runnerPreset = ''legacy'', hp_errors = [] \<rparr>"

definition clear_error :: "string \<Rightarrow> challenge_page \<Rightarrow> challenge_page" where
  "clear_error f p = p\<lparr> hp_errors := filter (\<lambda>(g, _). g \<noteq> f) (hp_errors p) \<rparr>"

text \<open>An error is cleared as soon as the field changes, of the three texts only when they read as JSON.\<close>
definition clear_if_json :: "string \<Rightarrow> string \<Rightarrow> challenge_page \<Rightarrow> challenge_page" where
  "clear_if_json f t p = (if json_parse t = None then p else clear_error f p)"

datatype challenge_edit = Name string | Description string | Node_version string | Public_tests string | Hidden_tests string
  | Dependencies string | Starter_files string | Runner_text string

fun edit_field :: "challenge_edit \<Rightarrow> challenge_page \<Rightarrow> challenge_page" where
  "edit_field (Name v) p = clear_error ''name'' (p\<lparr> hp_name := v \<rparr>)"
| "edit_field (Description v) p = clear_error ''description'' (p\<lparr> hp_description := v \<rparr>)"
| "edit_field (Node_version v) p = clear_error ''nodeVersion'' (p\<lparr> hp_nodeVersion := v \<rparr>)"
| "edit_field (Public_tests v) p = clear_error ''publicTests'' (p\<lparr> hp_publicTests := v \<rparr>)"
| "edit_field (Hidden_tests v) p = clear_error ''hiddenTests'' (p\<lparr> hp_hiddenTests := v \<rparr>)"
| "edit_field (Dependencies v) p = clear_if_json ''dependencies'' v (p\<lparr> hp_dependenciesJson := v \<rparr>)"
| "edit_field (Starter_files v) p = clear_if_json ''starterFiles'' v (p\<lparr> hp_starterFilesJson := v \<rparr>)"
| "edit_field (Runner_text v) p = clear_if_json ''runner'' v (p\<lparr> hp_runnerJson := v \<rparr>)"

definition apply_runner_preset :: "(string \<times> json) list \<Rightarrow> string \<Rightarrow> challenge_page \<Rightarrow> challenge_page" where
  "apply_runner_preset presets preset p = (let p1 = p\<lparr> hp_runnerPreset := preset \<rparr> in
     if preset = ''legacy'' then clear_error ''runner'' (p1\<lparr> hp_runnerJson := [] \<rparr>)
     else case map_of presets preset of None \<Rightarrow> p1
       | Some r \<Rightarrow> clear_error ''runner'' (p1\<lparr> hp_runnerJson := stringify2 r \<rparr>))"

definition validate_form :: "challenge_page \<Rightarrow> dict" where
  "validate_form p =
    (if str_trim (hp_name p) = [] then [(''name'', ''Name is required'')] else []) @
    (if json_parse (hp_dependenciesJson p) = None then [(''dependencies'', ''Invalid JSON for dependencies'')] else []) @
    (if json_parse (hp_starterFilesJson p) = None then [(''starterFiles'', ''Invalid JSON for starter files'')] else []) @
    (if str_trim (hp_publicTests p) = [] then [(''publicTests'', ''Public tests are required'')] else []) @
    (if str_trim (hp_hiddenTests p) = [] then [(''hiddenTests'', ''Hidden tests are required'')] else []) @
    (if str_trim (hp_runnerJson p) \<noteq> [] \<and> json_parse (hp_runnerJson p) = None then [(''runner'', ''Invalid JSON for runner config'')] else [])"

definition form_payload :: "challenge_page \<Rightarrow> json" where
  "form_payload p = JObj ([(''name'', JStr (hp_name p)), (''description'', JStr (hp_description p)), (''nodeVersion'', JStr (hp_nodeVersion p)),
     (''dependencies'', or_default (json_parse (hp_dependenciesJson p)) JNull),
     (''starterFiles'', or_default (json_parse (hp_starterFilesJson p)) JNull),
     (''publicTests'', JStr (hp_publicTests p)), (''hiddenTests'', JStr (hp_hiddenTests p))] @
     (if str_trim (hp_runnerJson p) = [] then [] else [(''runner'', or_default (json_parse (hp_runnerJson p)) JNull)]))"

definition submit_form :: "challenge_page \<Rightarrow> json option \<times> challenge_page" where
  "submit_form p = (let es = validate_form p in (if es = [] then Some (form_payload p) else None, p\<lparr> hp_errors := es \<rparr>))"

section \<open>Editing a challenge\<close>

text \<open>The entry of the menu that the edit page shows for a runner.\<close>
definition inferred_preset :: "runner option \<Rightarrow> string" where
  "inferred_preset r = (case r of
     Some (RPlaywright _ _) \<Rightarrow> ''react_playwright''
   | Some (RUiJsdom _ _) \<Rightarrow> ''react_ui_jsdom''
   | Some (RHttp rt _ _) \<Rightarrow> if rt = ''python'' then ''backend_fastapi_http'' else if rt = ''go'' then ''backend_go_http'' else ''backend_node_http''
   | _ \<Rightarrow> ''legacy'')"

text \<open>The effect that fills the form when the challenge has been fetched.\<close>
definition load_challenge :: "challenge \<Rightarrow> challenge_page \<Rightarrow> challenge_page" where
  "load_challenge c p = p\<lparr> hp_name := c_name c, hp_description := or_default (c_description c) [],
     hp_nodeVersion := (if c_nodeVersion c = [] then ''20'' else c_nodeVersion c), hp_publicTests := c_publicTests c,
     hp_hiddenTests := c_hiddenTests c, hp_dependenciesJson := stringify2 (dict_json (c_dependencies c)),
     hp_starterFilesJson := stringify2 (dict_json (c_starterFiles c)),
     hp_runnerJson := (case c_runner c of None \<Rightarrow> [] | Some r \<Rightarrow> stringify2 (runner_json r)),
     hp_runnerPreset := inferred_preset (c_runner c) \<rparr>"

section \<open>Facts\<close>

text \<open>The printed text of an object is not blank.\<close>
lemma trim_object [simp]: "str_trim (stringify2 (JObj kvs)) \<noteq> []"
proof -
  have "\<exists>t. stringify2 (JObj kvs) = CHR ''{'' # t" by (simp add: stringify2_def Let_def)
  then obtain t where "stringify2 (JObj kvs) = CHR ''{'' # t" by blast
  moreover have "dropWhile is_space (rev (CHR ''{'' # t)) \<noteq> []" by (auto simp: dropWhile_eq_Nil_conv is_space_def)
  ultimately show ?thesis by (simp add: str_trim_def is_space_def)
qed

lemma dict_json_ok: "distinct (map fst d) \<Longrightarrow> json_ok (dict_json d)"
  by (induction d) (auto simp: dict_json_def image_image case_prod_unfold comp_def)

lemma node_ok [simp]: "json_ok npm_install" by (simp add: npm_install_def)

text \<open>The presets of both pages are what the schema reads and the worker accepts.\<close>
definition gradable :: "runner \<Rightarrow> bool" where
  "gradable r = (case r of RJest \<Rightarrow> False | RHttp _ c _ \<Rightarrow> validate_candidate c = None | RPlaywright c _ \<Rightarrow> validate_candidate c = None
     | RUiJsdom c _ \<Rightarrow> validate_candidate c = None | RSql q \<Rightarrow> str_trim (sq_setupScript q) \<noteq> [])"

definition preset_ok :: "json \<Rightarrow> bool" where
  "preset_ok j = (json_ok j \<and> (\<exists>kvs. j = JObj kvs) \<and> (\<exists>r. read_runner j = Some r \<and> gradable r))"

lemma trim_start: "\<not> is_space c \<Longrightarrow> str_trim (c # s) \<noteq> []"
proof -
  assume c: "\<not> is_space c"
  then have "dropWhile is_space (rev (c # s)) \<noteq> []" by (auto simp: dropWhile_eq_Nil_conv)
  then show ?thesis using c by (simp add: str_trim_def)
qed

lemma decimal_of_int [simp]: "decimal (of_int n)" "decimal (numeral k)" "decimal 1" "decimal 0"
proof -
  have d: "decimal (of_int n)" for n
    unfolding decimal_def is_int_rat_iff by (rule exI[of _ "n * 10 ^ 20"]) simp
  show "decimal (of_int n)" "decimal (numeral k)" "decimal 1" "decimal 0" using d[of n] d[of "numeral k"] d[of 1] d[of 0] by simp_all
qed

lemma as_int_numeral [simp]: "as_int lo hi (JNum (numeral k)) = (if lo \<le> numeral k \<and> numeral k \<le> hi then Some (numeral k) else None)"
  "as_int lo hi (JNum 1) = (if lo \<le> 1 \<and> 1 \<le> hi then Some 1 else None)"
  using as_simps(6)[of lo hi "numeral k"] as_simps(6)[of lo hi 1] by simp_all

lemmas preset_defs = preset_ok_def read_runner_def field_defs read_candidate_def read_tests_def as_dict_def as_record_def gradable_def
  validate_candidate_def http_tests_preset_def npm_install_def

lemma node_preset_ok: "preset_ok node_preset"
  by (simp add: preset_defs node_preset_def http_preset_def trim_start is_space_def)

lemma fastapi_preset_ok: "preset_ok fastapi_preset"
  by (simp add: preset_defs fastapi_preset_def http_preset_def requirements_def trim_start is_space_def)

lemma flask_preset_ok: "preset_ok flask_preset"
  by (simp add: preset_defs flask_preset_def http_preset_def requirements_def trim_start is_space_def)

lemma go_preset_ok: "preset_ok go_preset"
  by (simp add: preset_defs go_preset_def http_preset_def trim_start is_space_def)

lemma playwright_preset_ok: "preset_ok (playwright_preset 30000)" "preset_ok (playwright_preset 45000)"
  by (simp_all add: preset_defs playwright_preset_def trim_start is_space_def)

lemma jsdom_preset_ok: "preset_ok jsdom_preset"
  by (simp add: preset_defs jsdom_preset_def trim_start is_space_def)

lemmas sql_preset_defs = preset_ok_def read_runner_def read_sql_def field_defs read_sql_runtime_def read_isolation_def as_record_def as_dict_def
  read_table_def as_list_def read_column_def as_rows_def read_public_test_def read_hidden_test_def read_generator_def gradable_def
  column_json_def user_row_def task_row_def

lemma scripts [simp]: "str_trim users_script \<noteq> []" "users_script \<noteq> []" "str_trim tasks_script \<noteq> []" "tasks_script \<noteq> []"
  by (simp_all add: users_script_def tasks_script_def trim_start is_space_def)

lemma sql_readonly_preset_ok: "preset_ok sql_readonly_preset"
  by (simp add: sql_preset_defs sql_readonly_preset_def)

lemma sql_write_preset_ok: "preset_ok sql_write_preset"
  by (simp add: sql_preset_defs sql_write_preset_def)

lemma presets_ok: "(k, j) \<in> set new_presets \<union> set edit_presets \<Longrightarrow> preset_ok j"
  using node_preset_ok fastapi_preset_ok flask_preset_ok go_preset_ok playwright_preset_ok jsdom_preset_ok sql_readonly_preset_ok sql_write_preset_ok
  by (auto simp: new_presets_def edit_presets_def)

lemma valid_job_iff:
  "str_trim (j_attemptId job) \<noteq> [] \<Longrightarrow> validate_job_payload job = None \<longleftrightarrow> (\<exists>r. j_runner job = Some r \<and> gradable r)"
  by (auto simp: validate_job_payload_def gradable_def split: option.split runner.split)

section \<open>From the form to the worker\<close>

text \<open>A page that can be sent, but for the runner.\<close>
definition page_filled :: "challenge_page \<Rightarrow> bool" where
  "page_filled p = (3 \<le> length (hp_name p) \<and> str_trim (hp_name p) \<noteq> [] \<and> str_trim (hp_publicTests p) \<noteq> [] \<and> str_trim (hp_hiddenTests p) \<noteq> []
     \<and> Option.bind (json_parse (hp_dependenciesJson p)) as_dict \<noteq> None \<and> Option.bind (json_parse (hp_starterFilesJson p)) as_dict \<noteq> None)"

lemma trim_not_Nil: "str_trim s \<noteq> [] \<Longrightarrow> s \<noteq> []"
  by (auto simp: str_trim_def)

text \<open>What a filled page sends, with the runner its text holds.\<close>
lemma submit_filled:
  assumes "page_filled p" "str_trim (hp_runnerJson p) = [] \<and> r = None \<or> str_trim (hp_runnerJson p) \<noteq> [] \<and> r \<noteq> None \<and> Option.bind (json_parse (hp_runnerJson p)) read_runner = r"
  obtains deps files where "Option.bind (json_parse (hp_dependenciesJson p)) as_dict = Some deps"
    "Option.bind (json_parse (hp_starterFilesJson p)) as_dict = Some files" "fst (submit_form p) = Some (form_payload p)"
    "read_challenge_body (form_payload p) = Some \<lparr> cb_name = hp_name p, cb_description = Some (hp_description p), cb_starterFiles = files,
       cb_publicTests = hp_publicTests p, cb_hiddenTests = hp_hiddenTests p, cb_dependencies = deps, cb_nodeVersion = Some (hp_nodeVersion p), cb_runner = r \<rparr>"
    "read_challenge_patch (form_payload p) = Some \<lparr> cp_name = Some (hp_name p), cp_description = Some (hp_description p), cp_starterFiles = Some files,
       cp_publicTests = Some (hp_publicTests p), cp_hiddenTests = Some (hp_hiddenTests p), cp_dependencies = Some deps,
       cp_nodeVersion = Some (hp_nodeVersion p), cp_runner = r \<rparr>"
proof -
  obtain dj deps where d: "json_parse (hp_dependenciesJson p) = Some dj" "as_dict dj = Some deps"
    using assms(1) by (auto simp: page_filled_def bind_eq_Some_conv)
  obtain fj files where f: "json_parse (hp_starterFilesJson p) = Some fj" "as_dict fj = Some files"
    using assms(1) by (auto simp: page_filled_def bind_eq_Some_conv)
  have "fst (submit_form p) = Some (form_payload p)"
    using assms d f by (auto simp: submit_form_def validate_form_def page_filled_def Let_def bind_eq_Some_conv)
  moreover have "str_trim (hp_runnerJson p) \<noteq> [] \<Longrightarrow> \<exists>j x. json_parse (hp_runnerJson p) = Some j \<and> r = Some x \<and> read_runner j = Some x"
    using assms(2) by (auto simp: bind_eq_Some_conv)
  ultimately show ?thesis using that[of deps files] assms(2) d f
    by (cases "str_trim (hp_runnerJson p) = []")
      (auto simp: read_challenge_body_def read_challenge_patch_def form_payload_def field_defs)
qed

text \<open>C17: Every preset of the runner can be graded, and no challenge can be graded without one: whatever administrators write into
  the form, once it names the challenge, has tests and readable objects for dependencies and files, choosing an entry of the menu and sending the form
  creates the challenge, and the worker accepts the jobs of its submissions exactly if the entry is not the one the page starts with,
  legacy.\<close>
theorem preset_challenge_gradable:
  assumes "services S V" "page_filled p" "preset = ''legacy'' \<or> preset \<in> fst ` set new_presets" "str_trim aid \<noteq> []"
  shows "\<exists>payload c. fst (submit_form (apply_runner_preset new_presets preset p)) = Some payload
     \<and> create_challenge S now newid u (read_challenge_body payload) w = (Inr c, t_insert (sv_challenges S) c w)
     \<and> c_name c = hp_name p
     \<and> (validate_job_payload (full_job aid fs c) = None \<longleftrightarrow> preset \<noteq> ''legacy'')"
proof -
  define p1 where "p1 = apply_runner_preset new_presets preset p"
  obtain r where r: "str_trim (hp_runnerJson p1) = [] \<and> r = None \<or> str_trim (hp_runnerJson p1) \<noteq> [] \<and> r \<noteq> None
        \<and> Option.bind (json_parse (hp_runnerJson p1)) read_runner = r"
    "(\<exists>x. r = Some x \<and> gradable x) \<longleftrightarrow> preset \<noteq> ''legacy''" "page_filled p1" "hp_name p1 = hp_name p"
  proof (cases "preset = ''legacy''")
    case True
    then show thesis using that[of None] assms(2)
      by (simp add: p1_def apply_runner_preset_def clear_error_def str_trim_def page_filled_def)
  next
    case False
    then obtain j where j: "map_of new_presets preset = Some j" using assms(3) by (meson map_of_eq_None_iff not_None_eq)
    then have "preset_ok j" using presets_ok map_of_SomeD by fastforce
    then obtain kvs x where "json_ok j" "j = JObj kvs" "read_runner j = Some x" "gradable x" by (auto simp: preset_ok_def)
    then show thesis using that[of "Some x"] False j assms(2)
      by (simp add: p1_def apply_runner_preset_def clear_error_def page_filled_def)
  qed
  obtain deps files where s: "fst (submit_form p1) = Some (form_payload p1)"
    "read_challenge_body (form_payload p1) = Some \<lparr> cb_name = hp_name p1, cb_description = Some (hp_description p1), cb_starterFiles = files,
       cb_publicTests = hp_publicTests p1, cb_hiddenTests = hp_hiddenTests p1, cb_dependencies = deps, cb_nodeVersion = Some (hp_nodeVersion p1), cb_runner = r \<rparr>"
    using submit_filled[OF r(3,1)] by metis
  have "hp_publicTests p1 \<noteq> []" "hp_hiddenTests p1 \<noteq> []" "3 \<le> length (hp_name p1)"
    using r(3) trim_not_Nil by (auto simp: page_filled_def)
  then have t: "Suc 0 \<le> length (hp_publicTests p1)" "Suc 0 \<le> length (hp_hiddenTests p1)" "3 \<le> length (hp_name p1)" by (simp_all add: Suc_le_eq)
  obtain c where c: "create_challenge S now newid u (read_challenge_body (form_payload p1)) w = (Inr c, t_insert (sv_challenges S) c w)"
    "c_name c = hp_name p" "c_runner c = r"
    using t r(4) by (auto simp: s(2) create_challenge_def create_challenge_schema_def Let_def)
  moreover have "validate_job_payload (full_job aid fs c) = None \<longleftrightarrow> preset \<noteq> ''legacy''"
    using valid_job_iff[of "full_job aid fs c"] r(2) c(3) assms(4) by (simp add: full_job_def)
  ultimately show ?thesis using s(1) by (auto simp: p1_def[symmetric])
qed

theorem preset_challenge_gradable_witness:
  "\<exists>payload c. fst (submit_form (apply_runner_preset new_presets ''sql_write'' (edit_field (Name ''Tasks'') new_challenge_page))) = Some payload
     \<and> create_challenge ref_services 5000 ''c9'' demo_admin (read_challenge_body payload) demo_world = (Inr c, t_insert (sv_challenges ref_services) c demo_world)
     \<and> c_name c = ''Tasks'' \<and> (validate_job_payload (full_job ''a1'' [] c) = None)"
proof -
  have "page_filled (edit_field (Name ''Tasks'') new_challenge_page)"
    by (simp add: page_filled_def new_challenge_page_def clear_error_def trim_start is_space_def default_public_tests_def default_hidden_tests_def
        default_dependencies_def default_starter_files_def as_dict_def as_record_def)
  from preset_challenge_gradable[OF ref.services_axioms this, of "''sql_write''" "''a1''"]
  show ?thesis by (simp add: new_presets_def trim_start is_space_def clear_error_def)
qed

section \<open>Editing without a change\<close>

lemma dict_json_object: "\<exists>kvs. dict_json d = JObj kvs"
  by (simp add: dict_json_def)

lemma runner_json_object: "\<exists>kvs. runner_json r = JObj kvs"
  by (cases r) (simp_all add: runner_json_def)

text \<open>A challenge as the routes store it: named, with tests, a version of node and dictionaries with distinct keys.\<close>
definition stored_challenge :: "challenge \<Rightarrow> bool" where
  "stored_challenge c = (3 \<le> length (c_name c) \<and> str_trim (c_name c) \<noteq> [] \<and> str_trim (c_publicTests c) \<noteq> [] \<and> str_trim (c_hiddenTests c) \<noteq> []
     \<and> c_nodeVersion c \<noteq> [] \<and> distinct (map fst (c_dependencies c)) \<and> distinct (map fst (c_starterFiles c))
     \<and> opt_all (\<lambda>r. runner_ok r \<and> json_ok (runner_json r)) (c_runner c))"

lemma load_filled: "stored_challenge c \<Longrightarrow> page_filled (load_challenge c p)"
  by (simp add: stored_challenge_def page_filled_def load_challenge_def dict_json_ok)

lemma load_runner:
  assumes "stored_challenge c"
  shows "str_trim (hp_runnerJson (load_challenge c p)) = [] \<and> c_runner c = None \<or> str_trim (hp_runnerJson (load_challenge c p)) \<noteq> []
    \<and> c_runner c \<noteq> None \<and> Option.bind (json_parse (hp_runnerJson (load_challenge c p))) read_runner = c_runner c"
proof (cases "c_runner c")
  case (Some r)
  obtain kvs where "runner_json r = JObj kvs" using runner_json_object by blast
  then have "str_trim (stringify2 (runner_json r)) \<noteq> []" by simp
  then show ?thesis using assms Some by (simp add: stored_challenge_def load_challenge_def runner_roundtrip)
qed (simp add: load_challenge_def str_trim_def)

text \<open>C18: Opening a challenge in the form and saving it as it is changes nothing: the texts the form shows read as what is stored, the
  schema of the server accepts them, runner, dependencies and files included, and the row stays as it was, except that a missing description becomes an empty one. Choosing
  the entry legacy before saving, or emptying the text of the runner, does the same: a runner cannot be taken away.\<close>
theorem edit_unchanged_keeps_challenge:
  assumes "services S V" "w_challenges (V w) cid = Some c" "stored_challenge c"
    "p = load_challenge c p0 \<or> p = apply_runner_preset edit_presets ''legacy'' (load_challenge c p0) \<or> p = edit_field (Runner_text []) (load_challenge c p0)"
  shows "\<exists>payload. fst (submit_form p) = Some payload
     \<and> fst (update_challenge_route S cid (read_challenge_patch payload) w) = Inr (c\<lparr> c_description := Some (or_default (c_description c) []) \<rparr>)
     \<and> V (snd (update_challenge_route S cid (read_challenge_patch payload) w))
         = w_challenges_update (\<lambda>m. m(cid \<mapsto> c\<lparr> c_description := Some (or_default (c_description c) []) \<rparr>)) (V w)"
proof -
  let ?q = "load_challenge c p0"
  note st = assms(3)[unfolded stored_challenge_def]
  have same: "hp_name p = hp_name ?q" "hp_description p = hp_description ?q" "hp_nodeVersion p = hp_nodeVersion ?q"
    "hp_publicTests p = hp_publicTests ?q" "hp_hiddenTests p = hp_hiddenTests ?q" "hp_dependenciesJson p = hp_dependenciesJson ?q"
    "hp_starterFilesJson p = hp_starterFilesJson ?q"
    using assms(4) by (auto simp: apply_runner_preset_def clear_error_def clear_if_json_def Let_def)
  obtain r where r: "str_trim (hp_runnerJson p) = [] \<and> r = None \<or> str_trim (hp_runnerJson p) \<noteq> [] \<and> r \<noteq> None
        \<and> Option.bind (json_parse (hp_runnerJson p)) read_runner = r" "or_else r (c_runner c) = c_runner c"
  proof (cases "p = ?q")
    case True
    then show thesis using that[of "c_runner c"] load_runner[OF assms(3), of p0] by (cases "c_runner c") auto
  next
    case False
    then have "hp_runnerJson p = []" using assms(4) by (auto simp: apply_runner_preset_def clear_error_def clear_if_json_def Let_def)
    then show thesis using that[of None] by (simp add: str_trim_def)
  qed
  have filled: "page_filled p" using load_filled[OF assms(3), of p0] by (simp add: page_filled_def same)
  obtain deps files where s: "Option.bind (json_parse (hp_dependenciesJson p)) as_dict = Some deps"
    "Option.bind (json_parse (hp_starterFilesJson p)) as_dict = Some files" "fst (submit_form p) = Some (form_payload p)"
    "read_challenge_patch (form_payload p) = Some \<lparr> cp_name = Some (hp_name p), cp_description = Some (hp_description p), cp_starterFiles = Some files,
       cp_publicTests = Some (hp_publicTests p), cp_hiddenTests = Some (hp_hiddenTests p), cp_dependencies = Some deps,
       cp_nodeVersion = Some (hp_nodeVersion p), cp_runner = r \<rparr>"
    using submit_filled[OF filled r(1)] by metis
  let ?d = "\<lparr> cp_name = Some (hp_name p), cp_description = Some (hp_description p), cp_starterFiles = Some files,
       cp_publicTests = Some (hp_publicTests p), cp_hiddenTests = Some (hp_hiddenTests p), cp_dependencies = Some deps,
       cp_nodeVersion = Some (hp_nodeVersion p), cp_runner = r \<rparr>"
  have "deps = c_dependencies c" "files = c_starterFiles c" using s(1,2) st by (auto simp: same load_challenge_def dict_json_ok)
  then have patch: "patch_challenge ?d c = c\<lparr> c_description := Some (or_default (c_description c) []) \<rparr>"
    using st r(2) by (simp add: patch_challenge_def same load_challenge_def)
  have schema: "update_challenge_schema ?d = Inr ?d"
    using st trim_not_Nil by (auto simp: update_challenge_schema_def same load_challenge_def Suc_le_eq)
  have ne: "?d \<noteq> empty_challenge_patch" by (simp add: empty_challenge_patch_def)
  have "update_challenge_route S cid (read_challenge_patch (form_payload p)) w
      = (Inr (patch_challenge ?d c), update_challenge S cid (patch_challenge ?d) w)"
    using ne assms(2) services.find_challenge_eq[OF assms(1)] by (simp add: s(4) update_challenge_route_def schema)
  moreover have "V (update_challenge S cid (patch_challenge ?d) w) = w_challenges_update (row_upd cid (patch_challenge ?d)) (V w)"
    by (rule services.update_challenge_eq[OF assms(1)]) (simp add: patch_challenge_id)
  moreover have "row_upd cid (patch_challenge ?d) (w_challenges (V w)) = (w_challenges (V w))(cid \<mapsto> patch_challenge ?d c)"
    by (simp add: row_upd_def assms(2))
  then have "w_challenges_update (row_upd cid (patch_challenge ?d)) (V w) = w_challenges_update (\<lambda>m. m(cid \<mapsto> patch_challenge ?d c)) (V w)"
    by simp
  ultimately show ?thesis using s(3) by (simp add: patch)
qed

text \<open>A challenge with a runner, as it is stored.\<close>
definition go_row :: challenge where
  "go_row = demo_challenge\<lparr> c_runner := Some (RHttp ''go'' \<lparr> cc_image = ''golang'', cc_workdir = ''/app'', cc_generatedFiles = None,
     cc_installCommand = Some ''go build'', cc_runCommand = ''./app'', cc_port = 3000, cc_healthPath = ''/'', cc_env = Some [(''A'', ''1'')], cc_startupTimeoutMs = 30000 \<rparr>
     \<lparr> tc_image = None, tc_installCommand = None, tc_testCommand = Some ''npm test'', tc_env = None, tc_timeoutMs = 120000 \<rparr>) \<rparr>"

theorem edit_unchanged_keeps_challenge_witness:
  "\<exists>payload. fst (submit_form (apply_runner_preset edit_presets ''legacy'' (load_challenge go_row new_challenge_page))) = Some payload
     \<and> fst (update_challenge_route ref_services ''c1'' (read_challenge_patch payload) (demo_world\<lparr> rw_challenges := [go_row] \<rparr>))
         = Inr (go_row\<lparr> c_description := Some [] \<rparr>)"
proof -
  have "stored_challenge go_row"
    by (simp add: stored_challenge_def go_row_def demo_challenge_def trim_start is_space_def runner_ok_def candidate_ok_def tests_ok_def
        runner_json_def candidate_json_def tests_json_def dict_json_def)
  moreover have "w_challenges (ref_view (demo_world\<lparr> rw_challenges := [go_row] \<rparr>)) ''c1'' = Some go_row"
    by (simp add: ref_view_def keyed_def demo_world_def go_row_def demo_challenge_def)
  ultimately show ?thesis
    using edit_unchanged_keeps_challenge[OF ref.services_axioms, of "demo_world\<lparr> rw_challenges := [go_row] \<rparr>" "''c1''" go_row
        "apply_runner_preset edit_presets ''legacy'' (load_challenge go_row new_challenge_page)" new_challenge_page]
    by (auto simp: go_row_def demo_challenge_def)
qed

end
