(* ===== verification/Exam_Forms.thy ===== *)
theory Exam_Forms
  imports Exam_Routes Query_Params Json_Text
begin

text \<open>
  The forms in which administrators plan exams: app/admin/exams/new/page.tsx and app/admin/exams/[id]/edit/page.tsx, down to
  the routes of the server. A field for a date holds a day, counted from 1 January 1970, or nothing, a field for a time a minute
  of the day or nothing. \<^verbatim>\<open>Date\<close> works in the time zone of the browser, two functions: the offset from UTC at an instant
  (\<^verbatim>\<open>offset_at\<close>) and the offset that a local time is read with (\<^verbatim>\<open>offset_of\<close>), in milliseconds. The server
  reads dates with its argument \<^verbatim>\<open>parse\<close>, which reads what \<^verbatim>\<open>toISOString\<close> writes.
\<close>

section \<open>Numbers and times in fields\<close>

text \<open>\<^verbatim>\<open>parseFloat\<close>: the longest beginning that is a number without an exponent.\<close>
definition parse_float :: "string \<Rightarrow> rat option" where
  "parse_float s = (let t = dropWhile is_space s;
     (neg, u) = (case t of c # r \<Rightarrow> if c = CHR ''-'' then (True, r) else if c = CHR ''+'' then (False, r) else (False, t) | [] \<Rightarrow> (False, t));
     ds = takeWhile is_digit u; v = dropWhile is_digit u;
     fs = (case v of c # r \<Rightarrow> if c = CHR ''.'' then takeWhile is_digit r else [] | [] \<Rightarrow> []);
     q = of_nat (digits_val ds) + fraction_val fs
   in if ds = [] \<and> fs = [] then None else Some (if neg then - q else q))"

definition day_ms :: int where "day_ms = 86400000"

text \<open>The text of a time field, on which the form compares.\<close>
definition time_text :: "nat \<Rightarrow> string" where
  "time_text m = pad_left 2 (nat_digits (m div 60)) @ '':'' @ pad_left 2 (nat_digits (m mod 60))"

fun text_less :: "string \<Rightarrow> string \<Rightarrow> bool" where
  "text_less _ [] = False"
| "text_less [] (_ # _) = True"
| "text_less (c # s) (d # t) = ((of_char c :: nat) < of_char d \<or> c = d \<and> text_less s t)"

section \<open>The form\<close>

record exam_form =
  xf_title :: string
  xf_description :: string
  xf_challengeId :: id
  xf_timeLimit :: int
  xf_maxAttempts :: int
  xf_passThreshold :: rat
  xf_pasteDisabled :: bool
  xf_fullscreenRequired :: bool
  xf_enableScheduling :: bool
  xf_scheduledDate :: "int option"
  xf_scheduledStartTime :: "nat option"
  xf_scheduledEndTime :: "nat option"
  xf_timezone :: string
  xf_errors :: dict

definition new_exam_form :: exam_form where
  "new_exam_form = \<lparr> xf_title = [], xf_description = [], xf_challengeId = [], xf_timeLimit = 60, xf_maxAttempts = 1, xf_passThreshold = 7 / 10,
     xf_pasteDisabled = True, xf_fullscreenRequired = True, xf_enableScheduling = False, xf_scheduledDate = None,
     xf_scheduledStartTime = None, xf_scheduledEndTime = None, xf_timezone = ''Asia/Kolkata'', xf_errors = [] \<rparr>"

datatype exam_edit = Title string | Exam_description string | Challenge_id id | Time_limit string | Max_attempts string | Pass_threshold string
  | Paste_disabled bool | Fullscreen_required bool | Enable_scheduling bool | Scheduled_date "int option" | Scheduled_start "nat option"
  | Scheduled_end "nat option"

fun set_exam_field :: "exam_edit \<Rightarrow> exam_form \<Rightarrow> exam_form" where
  "set_exam_field (Title v) f = f\<lparr> xf_title := v \<rparr>"
| "set_exam_field (Exam_description v) f = f\<lparr> xf_description := v \<rparr>"
| "set_exam_field (Challenge_id v) f = f\<lparr> xf_challengeId := v \<rparr>"
| "set_exam_field (Time_limit t) f = f\<lparr> xf_timeLimit := int_param (Some t) 0 \<rparr>"
| "set_exam_field (Max_attempts t) f = f\<lparr> xf_maxAttempts := int_param (Some t) 1 \<rparr>"
| "set_exam_field (Pass_threshold t) f = f\<lparr> xf_passThreshold := or_default (parse_float t) 0 \<rparr>"
| "set_exam_field (Paste_disabled b) f = f\<lparr> xf_pasteDisabled := b \<rparr>"
| "set_exam_field (Fullscreen_required b) f = f\<lparr> xf_fullscreenRequired := b \<rparr>"
| "set_exam_field (Enable_scheduling b) f = f\<lparr> xf_enableScheduling := b \<rparr>"
| "set_exam_field (Scheduled_date d) f = f\<lparr> xf_scheduledDate := d \<rparr>"
| "set_exam_field (Scheduled_start m) f = f\<lparr> xf_scheduledStartTime := m \<rparr>"
| "set_exam_field (Scheduled_end m) f = f\<lparr> xf_scheduledEndTime := m \<rparr>"

fun exam_field_name :: "exam_edit \<Rightarrow> string" where
  "exam_field_name (Title _) = ''title''" | "exam_field_name (Exam_description _) = ''description''"
| "exam_field_name (Challenge_id _) = ''challengeId''" | "exam_field_name (Time_limit _) = ''timeLimit''"
| "exam_field_name (Max_attempts _) = ''maxAttempts''" | "exam_field_name (Pass_threshold _) = ''passThreshold''"
| "exam_field_name (Paste_disabled _) = ''pasteDisabled''" | "exam_field_name (Fullscreen_required _) = ''fullscreenRequired''"
| "exam_field_name (Enable_scheduling _) = ''enableScheduling''" | "exam_field_name (Scheduled_date _) = ''scheduledDate''"
| "exam_field_name (Scheduled_start _) = ''scheduledStartTime''" | "exam_field_name (Scheduled_end _) = ''scheduledEndTime''"

definition update_exam_field :: "exam_edit \<Rightarrow> exam_form \<Rightarrow> exam_form" where
  "update_exam_field e f = (let f1 = set_exam_field e f in f1\<lparr> xf_errors := filter (\<lambda>(k, _). k \<noteq> exam_field_name e) (xf_errors f1) \<rparr>)"

text \<open>Two errors for the field of the end: the second is set over the first, which cannot both happen.\<close>
definition validate_exam_form :: "exam_form \<Rightarrow> dict" where
  "validate_exam_form f =
    (if str_trim (xf_title f) = [] then [(''title'', ''Title is required'')] else []) @
    (if xf_challengeId f = [] then [(''challengeId'', ''Please select a challenge'')] else []) @
    (if xf_timeLimit f < 1 \<or> 480 < xf_timeLimit f then [(''timeLimit'', ''Time limit must be between 1 and 480 minutes'')] else []) @
    (if xf_maxAttempts f < 1 \<or> 10 < xf_maxAttempts f then [(''maxAttempts'', ''Max attempts must be between 1 and 10'')] else []) @
    (if xf_passThreshold f < 0 \<or> 1 < xf_passThreshold f then [(''passThreshold'', ''Pass threshold must be between 0 and 1'')] else []) @
    (if xf_enableScheduling f then
       (if xf_scheduledDate f = None then [(''scheduledDate'', ''Date is required for scheduled exams'')] else []) @
       (if xf_scheduledStartTime f = None then [(''scheduledStartTime'', ''Start time is required'')] else []) @
       (if xf_scheduledEndTime f = None then [(''scheduledEndTime'', ''End time is required'')] else []) @
       (case (xf_scheduledStartTime f, xf_scheduledEndTime f) of
          (Some a, Some b) \<Rightarrow> if \<not> text_less (time_text a) (time_text b) then [(''scheduledEndTime'', ''End time must be after start time'')] else []
        | _ \<Rightarrow> [])
     else [])"

text \<open>The argument for the time zone of the form is not used.\<close>
definition to_iso_string :: "(int \<Rightarrow> int) \<Rightarrow> int option \<Rightarrow> nat option \<Rightarrow> string option" where
  "to_iso_string offset_of date time = (case (date, time) of
     (Some d, Some m) \<Rightarrow> (let l = d * day_ms + int m * 60000 in Some (iso_string (l - offset_of l)))
   | _ \<Rightarrow> None)"

definition submit_new_exam :: "(int \<Rightarrow> int) \<Rightarrow> exam_form \<Rightarrow> exam_body option \<times> exam_form" where
  "submit_new_exam offset_of f = (let es = validate_exam_form f; f1 = f\<lparr> xf_errors := es \<rparr>;
     scheduled = xf_enableScheduling f \<and> xf_scheduledDate f \<noteq> None
   in (if es \<noteq> [] then None else Some \<lparr> eb_title = xf_title f, eb_description = str_opt (Some (xf_description f)),
        eb_challengeId = xf_challengeId f, eb_timeLimit = of_int (xf_timeLimit f), eb_maxAttempts = Some (of_int (xf_maxAttempts f)),
        eb_passThreshold = Some (xf_passThreshold f), eb_fullscreenRequired = Some (xf_fullscreenRequired f), eb_tabSwitchLogging = None,
        eb_pasteDisabled = Some (xf_pasteDisabled f), eb_expectedCandidates = None,
        eb_scheduledStartAt = (if scheduled then to_iso_string offset_of (xf_scheduledDate f) (xf_scheduledStartTime f) else None),
        eb_scheduledEndAt = (if scheduled then to_iso_string offset_of (xf_scheduledDate f) (xf_scheduledEndTime f) else None),
        eb_timezone = Some (xf_timezone f) \<rparr>, f1))"

section \<open>Editing\<close>

text \<open>\<^verbatim>\<open>parseScheduledDateTime\<close>: the day by UTC, the time by the clock of the browser.\<close>
definition parse_scheduled :: "(time \<Rightarrow> int) \<Rightarrow> time option \<Rightarrow> int option \<times> nat option" where
  "parse_scheduled offset_at t = (case t of None \<Rightarrow> (None, None)
     | Some t \<Rightarrow> (Some (t div day_ms), Some (nat ((t + offset_at t) mod day_ms div 60000))))"

definition load_exam :: "(time \<Rightarrow> int) \<Rightarrow> exam \<Rightarrow> exam_form \<Rightarrow> exam_form" where
  "load_exam offset_at e f =
    (let (sd, st) = parse_scheduled offset_at (e_scheduledStartAt e); (ed, et) = parse_scheduled offset_at (e_scheduledEndAt e)
     in f\<lparr> xf_title := e_title e, xf_description := or_default (e_description e) [], xf_challengeId := e_challengeId e,
        xf_timeLimit := (if e_timeLimit e = 0 then 60 else e_timeLimit e), xf_maxAttempts := (if e_maxAttempts e = 0 then 1 else e_maxAttempts e),
        xf_passThreshold := (if e_passThreshold e = 0 then 7 / 10 else e_passThreshold e), xf_pasteDisabled := e_pasteDisabled e,
        xf_fullscreenRequired := e_fullscreenRequired e,
        xf_enableScheduling := (e_scheduledStartAt e \<noteq> None \<or> e_scheduledEndAt e \<noteq> None),
        xf_scheduledDate := or_else sd ed, xf_scheduledStartTime := st, xf_scheduledEndTime := et,
        xf_timezone := or_default (str_opt (e_timezone e)) ''Asia/Kolkata'' \<rparr>)"

definition submit_exam_edit :: "(int \<Rightarrow> int) \<Rightarrow> exam_form \<Rightarrow> exam_patch option \<times> exam_form" where
  "submit_exam_edit offset_of f = (let es = validate_exam_form f; f1 = f\<lparr> xf_errors := es \<rparr>;
     scheduled = xf_enableScheduling f \<and> xf_scheduledDate f \<noteq> None
   in (if es \<noteq> [] then None else Some \<lparr> ep_title = Some (xf_title f), ep_description = str_opt (Some (xf_description f)),
        ep_challengeId = Some (xf_challengeId f), ep_timeLimit = Some (of_int (xf_timeLimit f)), ep_maxAttempts = Some (of_int (xf_maxAttempts f)),
        ep_passThreshold = Some (xf_passThreshold f), ep_fullscreenRequired = Some (xf_fullscreenRequired f), ep_tabSwitchLogging = None,
        ep_pasteDisabled = Some (xf_pasteDisabled f), ep_expectedCandidates = None,
        ep_scheduledStartAt = (if scheduled then to_iso_string offset_of (xf_scheduledDate f) (xf_scheduledStartTime f) else None),
        ep_scheduledEndAt = (if scheduled then to_iso_string offset_of (xf_scheduledDate f) (xf_scheduledEndTime f) else None),
        ep_timezone = Some (xf_timezone f) \<rparr>, f1))"

section \<open>Facts\<close>

lemma pad2: "n < 100 \<Longrightarrow> pad_left 2 (nat_digits n) = [char_of (48 + n div 10), char_of (48 + n mod 10)]"
proof (cases "n < 10")
  case True
  then show ?thesis by (subst nat_digits.simps) (simp add: pad_left_def char_of_def bit_0)
next
  case False
  assume "n < 100"
  then have "nat_digits (n div 10) = [char_of (48 + n div 10)]" by (subst nat_digits.simps) simp
  then show ?thesis using False by (subst nat_digits.simps) (simp add: pad_left_def)
qed

lemma char_of_less: "a < 200 \<Longrightarrow> b < 200 \<Longrightarrow> (of_char (char_of a :: char) :: nat) < of_char (char_of b :: char) \<longleftrightarrow> a < b"
  "a < 200 \<Longrightarrow> b < 200 \<Longrightarrow> (char_of a :: char) = char_of b \<longleftrightarrow> a = (b :: nat)"
  by (simp_all add: char_of_eq_iff take_bit_nat_eq_self)

lemma parts_less: "x div k < y div k \<or> x div k = y div k \<and> x mod k < y mod k \<longleftrightarrow> x < (y :: nat)"
proof (cases "x div k" "y div k" rule: linorder_cases)
  case less
  then show ?thesis using div_le_mono[of y x k] by (auto simp: not_less[symmetric])
next
  case equal
  have "x = k * (y div k) + x mod k" "y = k * (y div k) + y mod k" using equal mult_div_mod_eq[of k x] mult_div_mod_eq[of k y] by simp_all
  then have "x < y \<longleftrightarrow> x mod k < y mod k" by linarith
  then show ?thesis using equal by simp
next
  case greater
  then have "\<not> x < y" using div_le_mono[of x y k] by linarith
  then show ?thesis using greater by simp
qed

text \<open>The texts of two times compare as the times do.\<close>
lemma time_text_less: "a < 1440 \<Longrightarrow> b < 1440 \<Longrightarrow> text_less (time_text a) (time_text b) \<longleftrightarrow> a < b"
proof -
  assume ab: "a < 1440" "b < 1440"
  then have "a div 60 < 100" "b div 60 < 100" "a mod 60 < 100" "b mod 60 < 100" by simp_all
  moreover have "48 + x div 10 < 200" "48 + x mod 10 < 200" if "x < 100" for x :: nat using that by linarith+
  ultimately show ?thesis using parts_less[of "a div 60" 10 "b div 60"] parts_less[of "a mod 60" 10 "b mod 60"] parts_less[of a 60 b]
    by (simp add: time_text_def pad2 char_of_less) (metis div_mult_mod_eq)
qed

section \<open>Planning an exam\<close>

text \<open>The fields of a planned exam are in the bounds of the server; the time fields hold minutes of a day.\<close>
definition form_in_bounds :: "exam_form \<Rightarrow> bool" where
  "form_in_bounds f = (3 \<le> length (xf_title f) \<and> 5 \<le> xf_timeLimit f \<and>
     opt_all (\<lambda>m. m < 1440) (xf_scheduledStartTime f) \<and> opt_all (\<lambda>m. m < 1440) (xf_scheduledEndTime f))"

lemma validated_form:
  assumes "validate_exam_form f = []"
  shows "str_trim (xf_title f) \<noteq> []" "xf_challengeId f \<noteq> []" "1 \<le> xf_timeLimit f" "xf_timeLimit f \<le> 480" "1 \<le> xf_maxAttempts f"
    "xf_maxAttempts f \<le> 10" "0 \<le> xf_passThreshold f" "xf_passThreshold f \<le> 1"
    "xf_enableScheduling f \<Longrightarrow> \<exists>d a b. xf_scheduledDate f = Some d \<and> xf_scheduledStartTime f = Some a \<and> xf_scheduledEndTime f = Some b
       \<and> text_less (time_text a) (time_text b)"
  using assms by (auto simp: validate_exam_form_def split: if_splits option.splits)

text \<open>The instant of a day and a minute on a clock that is ahead of UTC by an offset.\<close>
definition clock_time :: "int \<Rightarrow> int \<Rightarrow> nat \<Rightarrow> time" where
  "clock_time off d m = d * day_ms + int m * 60000 - off"

lemma to_iso_clock: "offset_of (d * day_ms + int m * 60000) = off \<Longrightarrow> to_iso_string offset_of (Some d) (Some m) = Some (iso_string (clock_time off d m))"
  by (simp add: to_iso_string_def clock_time_def Let_def)

lemma let_not_Nil: "(\<And>x. f x \<noteq> []) \<Longrightarrow> Let a f \<noteq> []"
  by (simp add: Let_def)

lemma iso_string_not_Nil [simp]: "iso_string t \<noteq> []"
  unfolding iso_string_def by (intro let_not_Nil) simp

lemma date_field_iso [simp]: "date_field parse (Some (iso_string t)) = parse (iso_string t)" "date_field parse None = None"
  by (simp_all add: date_field_def str_opt_def)

lemma end_after_start_simps [simp]: "end_after_start None e" "end_after_start s None" "end_after_start (Some a) (Some b) = (a < b)"
  by (simp_all add: end_after_start_def split: option.split)

text \<open>C19: What an administrator plans is what the server stores, on the clock of the browser: a form that its own check and the bounds
  of the server (three characters, five minutes) accept creates the exam with exactly its title, challenge, limits and rules; a
  scheduled exam opens and closes at the given times of the given day on the clock of the browser that sent the form, whatever the time zone of the exam
  is, though the form says that all times are Indian Standard Time. The browser is in a zone with a fixed offset.\<close>
theorem planned_exam_created:
  assumes "services S V" "validate_exam_form f = []" "form_in_bounds f" "w_challenges (V w) (xf_challengeId f) = Some c"
    "\<And>t. xf_enableScheduling f \<Longrightarrow> t \<in> {clock_time off (the (xf_scheduledDate f)) (the (xf_scheduledStartTime f)),
       clock_time off (the (xf_scheduledDate f)) (the (xf_scheduledEndTime f))} \<Longrightarrow> parse (iso_string t) = Some t"
  shows "\<exists>b e. fst (submit_new_exam (\<lambda>_. off) f) = Some b
     \<and> create_exam S parse now newid u (Some b) w = (Inr e, t_insert (sv_exams S) e w)
     \<and> e_title e = xf_title f \<and> e_challengeId e = xf_challengeId f \<and> e_timeLimit e = xf_timeLimit f \<and> e_maxAttempts e = xf_maxAttempts f
     \<and> e_passThreshold e = xf_passThreshold f \<and> e_pasteDisabled e = xf_pasteDisabled f \<and> e_fullscreenRequired e = xf_fullscreenRequired f
     \<and> e_timezone e = Some (xf_timezone f) \<and> \<not> e_isPublished e
     \<and> e_scheduledStartAt e = (if xf_enableScheduling f then Some (clock_time off (the (xf_scheduledDate f)) (the (xf_scheduledStartTime f))) else None)
     \<and> e_scheduledEndAt e = (if xf_enableScheduling f then Some (clock_time off (the (xf_scheduledDate f)) (the (xf_scheduledEndTime f))) else None)"
proof -
  note v = validated_form[OF assms(2)]
  note b = assms(3)[unfolded form_in_bounds_def]
  have bounds: "between 5 480 (of_int (xf_timeLimit f))" "between 1 10 (of_int (xf_maxAttempts f))" "between 0 1 (xf_passThreshold f)"
    "Suc 0 \<le> length (xf_challengeId f)" "3 \<le> length (xf_title f)"
    using v b by (auto simp: between_def Suc_le_eq)
  show ?thesis
  proof (cases "xf_enableScheduling f")
    case False
    then show ?thesis using bounds assms(2,4) services.find_challenge_eq[OF assms(1)]
      by (simp add: submit_new_exam_def create_exam_def create_exam_schema_def new_exam_def
          Let_def between_def is_int_rat_iff)
  next
    case True
    then obtain d x y where s: "xf_scheduledDate f = Some d" "xf_scheduledStartTime f = Some x" "xf_scheduledEndTime f = Some y"
      "text_less (time_text x) (time_text y)" using v(9) by blast
    then have "x < y" using b time_text_less by simp
    then have "clock_time off d x < clock_time off d y" by (simp add: clock_time_def)
    moreover have "parse (iso_string (clock_time off d x)) = Some (clock_time off d x)" "parse (iso_string (clock_time off d y)) = Some (clock_time off d y)"
      using assms(5)[OF True] s by simp_all
    ultimately show ?thesis using True s bounds assms(2,4) services.find_challenge_eq[OF assms(1)] to_iso_clock[of "\<lambda>_. off" _ _ off]
      by (simp add: submit_new_exam_def create_exam_def create_exam_schema_def new_exam_def
          Let_def between_def is_int_rat_iff)
  qed
qed

section \<open>Saving an exam as it is\<close>

text \<open>The minute a clock ahead of UTC by an offset shows, and the instant the form makes of a date: its minute on the clock of the browser, on
  the day the start of the exam has by UTC.\<close>
definition clock_minute :: "int \<Rightarrow> time \<Rightarrow> nat" where
  "clock_minute off t = nat ((t + off) mod day_ms div 60000)"

definition resaved :: "int \<Rightarrow> time \<Rightarrow> time \<Rightarrow> time" where
  "resaved off s t = clock_time off (s div day_ms) (clock_minute off t)"

lemma clock_minute_bound: "clock_minute off t < 1440"
proof -
  have "(t + off) mod day_ms < 86400000" "0 \<le> (t + off) mod day_ms" by (simp_all add: day_ms_def)
  then show ?thesis unfolding clock_minute_def by linarith
qed

lemma same_day: "a * day_ms + (r - m) = b * day_ms + r \<Longrightarrow> 0 \<le> m \<Longrightarrow> m < 60000 \<Longrightarrow> b = a \<and> m = 0"
  for a b r m :: int
  unfolding day_ms_def by (cases a b rule: linorder_cases) linarith+

text \<open>A date stays under saving exactly if it has the day of the start and no seconds.\<close>
lemma resaved_same: "resaved off s t = t \<longleftrightarrow> (t + off) div day_ms = s div day_ms \<and> 60000 dvd t + off"
proof -
  let ?r = "(t + off) mod day_ms"
  have r: "0 \<le> ?r" "?r < 86400000" by (simp_all add: day_ms_def)
  have m: "int (clock_minute off t) * 60000 = ?r - ?r mod 60000" using r(1) minus_mod_eq_div_mult[of ?r 60000] by (simp add: clock_minute_def pos_imp_zdiv_nonneg_iff)
  have d: "t + off = (t + off) div day_ms * day_ms + ?r" by simp
  have low: "0 \<le> ?r mod 60000" "?r mod 60000 < 60000" "?r mod 60000 \<le> ?r" using r(1) by (simp_all add: zmod_le_nonneg_dividend)
  have "?r mod 60000 = (t + off) mod 60000" by (simp add: day_ms_def mod_mod_cancel)
  then have dv: "60000 dvd t + off \<longleftrightarrow> ?r mod 60000 = 0" by (simp add: dvd_eq_mod_eq_0)
  have "resaved off s t = t \<longleftrightarrow> s div day_ms * day_ms + (?r - ?r mod 60000) = (t + off) div day_ms * day_ms + ?r"
    using d m unfolding resaved_def clock_time_def by linarith
  also have "\<dots> \<longleftrightarrow> (t + off) div day_ms = s div day_ms \<and> ?r mod 60000 = 0"
  proof
    assume e: "s div day_ms * day_ms + (?r - ?r mod 60000) = (t + off) div day_ms * day_ms + ?r"
    then show "(t + off) div day_ms = s div day_ms \<and> ?r mod 60000 = 0" using same_day[OF _ low(1,2)] by metis
  qed simp
  finally show ?thesis by (simp add: dv)
qed

text \<open>C20: Opening a scheduled exam and saving it as it is can move it. Take an exam with both dates and fields within the bounds of the server, and a browser
  in a zone with a fixed offset. If the clock of the browser does not show an earlier time of day at the start than at the end, the form refuses to save.
  Otherwise it saves, the start and the end are both put on the day that
  the start has by UTC, at their minutes on that clock, and each stays where it was exactly if it has that day on the clock as well and no seconds; so an exam that
  starts between midnight and the offset of a zone ahead of UTC moves back by a whole day. A pass threshold of zero becomes
  seven tenths and a missing time zone becomes that of India; everything else stays.\<close>
theorem edit_exam_moves_schedule:
  assumes "services S V" "w_exams (V w) eid = Some e" "w_challenges (V w) (e_challengeId e) = Some c"
    "3 \<le> length (e_title e)" "str_trim (e_title e) \<noteq> []" "e_challengeId e \<noteq> []" "5 \<le> e_timeLimit e" "e_timeLimit e \<le> 480" "1 \<le> e_maxAttempts e" "e_maxAttempts e \<le> 10"
    "0 \<le> e_passThreshold e" "e_passThreshold e \<le> 1"
    "e_scheduledStartAt e = Some s" "e_scheduledEndAt e = Some t"
    "parse (iso_string (resaved off s s)) = Some (resaved off s s)" "parse (iso_string (resaved off s t)) = Some (resaved off s t)"
  shows "if clock_minute off s < clock_minute off t
    then \<exists>b e'. fst (submit_exam_edit (\<lambda>_. off) (load_exam (\<lambda>_. off) e f0)) = Some b
     \<and> fst (update_exam_route S parse now eid (Some b) w) = Inr e'
     \<and> e' = e\<lparr> e_passThreshold := (if e_passThreshold e = 0 then 7 / 10 else e_passThreshold e),
             e_timezone := Some (or_default (str_opt (e_timezone e)) ''Asia/Kolkata''),
             e_scheduledStartAt := Some (resaved off s s), e_scheduledEndAt := Some (resaved off s t), e_updatedAt := now \<rparr>
     \<and> (e_scheduledStartAt e' = Some s \<longleftrightarrow> (s + off) div day_ms = s div day_ms \<and> 60000 dvd s + off)
     \<and> (e_scheduledEndAt e' = Some t \<longleftrightarrow> (t + off) div day_ms = s div day_ms \<and> 60000 dvd t + off)
    else fst (submit_exam_edit (\<lambda>_. off) (load_exam (\<lambda>_. off) e f0)) = None"
proof -
  define q where "q = s div day_ms"
  define a where "a = clock_minute off s"
  define b where "b = clock_minute off t"
  define th where "th = (if e_passThreshold e = 0 then 7 / 10 else e_passThreshold e)"
  define tz where "tz = or_default (str_opt (e_timezone e)) ''Asia/Kolkata''"
  have less: "text_less (time_text a) (time_text b) \<longleftrightarrow> a < b" unfolding a_def b_def using clock_minute_bound by (intro time_text_less)
  let ?f = "load_exam (\<lambda>_. off) e f0"
  have fields: "xf_title ?f = e_title e" "xf_challengeId ?f = e_challengeId e" "xf_timeLimit ?f = e_timeLimit e" "xf_maxAttempts ?f = e_maxAttempts e"
    "xf_passThreshold ?f = th" "xf_pasteDisabled ?f = e_pasteDisabled e" "xf_fullscreenRequired ?f = e_fullscreenRequired e"
    "xf_enableScheduling ?f" "xf_scheduledDate ?f = Some q" "xf_scheduledStartTime ?f = Some a" "xf_scheduledEndTime ?f = Some b" "xf_timezone ?f = tz"
    "xf_description ?f = or_default (e_description e) []"
    using assms(7,9,13,14) by (simp_all add: load_exam_def parse_scheduled_def q_def a_def b_def th_def tz_def clock_minute_def)
  have th: "0 \<le> th" "th \<le> 1" using assms(11,12) by (simp_all add: th_def)
  have valid: "validate_exam_form ?f = [] \<longleftrightarrow> a < b" using fields assms(5-10) th less by (simp add: validate_exam_form_def)
  show ?thesis
  proof (cases "a < b")
    case False
    then show ?thesis using valid by (simp add: submit_exam_edit_def Let_def a_def b_def)
  next
    case True
    define s' where "s' = resaved off s s" define t' where "t' = resaved off s t"
    have iso: "to_iso_string (\<lambda>_. off) (Some q) (Some a) = Some (iso_string s')" "to_iso_string (\<lambda>_. off) (Some q) (Some b) = Some (iso_string t')"
      unfolding s'_def t'_def resaved_def q_def a_def b_def by (rule to_iso_clock, rule refl)+
    have "s' < t'" using True by (simp add: s'_def t'_def resaved_def clock_time_def a_def b_def)
    obtain p where p: "fst (submit_exam_edit (\<lambda>_. off) ?f) = Some p" "p = \<lparr> ep_title = Some (e_title e), ep_description = str_opt (Some (or_default (e_description e) [])),
        ep_challengeId = Some (e_challengeId e), ep_timeLimit = Some (of_int (e_timeLimit e)), ep_maxAttempts = Some (of_int (e_maxAttempts e)),
        ep_passThreshold = Some th, ep_fullscreenRequired = Some (e_fullscreenRequired e), ep_tabSwitchLogging = None,
        ep_pasteDisabled = Some (e_pasteDisabled e), ep_expectedCandidates = None, ep_scheduledStartAt = Some (iso_string s'),
        ep_scheduledEndAt = Some (iso_string t'), ep_timezone = Some tz \<rparr>"
      using valid True by (simp add: submit_exam_edit_def fields iso)
    have schema: "update_exam_schema parse p = Inr (p, Some s', Some t')"
      using assms(4,6-10,15,16) th \<open>s' < t'\<close> by (simp add: p(2) update_exam_schema_def between_def Suc_le_eq s'_def t'_def)
    have "or_else (str_opt (Some (or_default (e_description e) []))) (e_description e) = e_description e"
      by (cases "e_description e") (simp_all add: str_opt_def)
    then have patch: "patch_exam p (Some s') (Some t') now e = e\<lparr> e_passThreshold := th, e_timezone := Some tz,
        e_scheduledStartAt := Some s', e_scheduledEndAt := Some t', e_updatedAt := now \<rparr>"
      by (simp add: p(2) patch_exam_def opt_int_def)
    have allowed: "patch_allowed S p w" using assms(3) services.find_challenge_eq[OF assms(1)] by (simp add: p(2) patch_allowed_def opt_int_def)
    have route: "fst (update_exam_route S parse now eid (Some p) w) = Inr (e\<lparr> e_passThreshold := th, e_timezone := Some tz,
        e_scheduledStartAt := Some s', e_scheduledEndAt := Some t', e_updatedAt := now \<rparr>)"
      using schema allowed assms(2) services.find_exam_eq[OF assms(1)] by (simp add: update_exam_route_def patch)
    note route' = route[unfolded th_def tz_def s'_def t'_def]
    have clocks: "clock_minute off s < clock_minute off t" using True by (simp add: a_def b_def)
    show ?thesis using clocks p(1) route' resaved_same[of off s s] resaved_same[of off s t] by simp
  qed
qed

section \<open>Witnesses\<close>

text \<open>Indian Standard Time; an exam on the second of January 1970 from four to five in the morning on that clock.\<close>
definition ist :: int where "ist = 19800000"

definition early_form :: exam_form where
  "early_form = new_exam_form\<lparr> xf_title := ''early'', xf_challengeId := ''c1'', xf_enableScheduling := True, xf_scheduledDate := Some 1,
     xf_scheduledStartTime := Some 240, xf_scheduledEndTime := Some 300 \<rparr>"

definition early_exam :: exam where
  "early_exam = demo_exam\<lparr> e_scheduledStartAt := Some 167400000, e_scheduledEndAt := Some 171000000 \<rparr>"

theorem planned_exam_created_witness:
  "\<exists>b e. fst (submit_new_exam (\<lambda>_. ist) early_form) = Some b
     \<and> fst (create_exam ref_services (\<lambda>s. if s = iso_string 81000000 then Some 81000000 else Some 84600000) 5 ''e9'' demo_admin (Some b) demo_world) = Inr e
     \<and> e_scheduledStartAt e = Some 81000000 \<and> e_timezone e = Some ''Asia/Kolkata''"
proof -
  have "iso_string 84600000 \<noteq> iso_string 81000000" by code_simp
  moreover have "validate_exam_form early_form = []"
    by (simp add: validate_exam_form_def early_form_def new_exam_form_def str_trim_def is_space_def time_text_less)
  moreover have "form_in_bounds early_form" by (simp add: form_in_bounds_def early_form_def new_exam_form_def)
  moreover have "w_challenges (ref_view demo_world) (xf_challengeId early_form) = Some demo_challenge" by (simp add: early_form_def)
  moreover have "clock_time ist (the (xf_scheduledDate early_form)) (the (xf_scheduledStartTime early_form)) = 81000000"
    "clock_time ist (the (xf_scheduledDate early_form)) (the (xf_scheduledEndTime early_form)) = 84600000" "xf_enableScheduling early_form"
    "xf_timezone early_form = ''Asia/Kolkata''"
    by (simp_all add: early_form_def new_exam_form_def clock_time_def ist_def day_ms_def)
  ultimately show ?thesis
    using planned_exam_created[OF ref.services_axioms, of early_form demo_world demo_challenge ist
        "\<lambda>s. if s = iso_string 81000000 then Some 81000000 else Some 84600000" 5 "''e9''" demo_admin] by fastforce
qed

text \<open>An exam on the third of January from four to five in the morning moves to the second when it is saved as it is.\<close>
theorem edit_exam_moves_schedule_witness:
  "\<exists>b e'. fst (submit_exam_edit (\<lambda>_. ist) (load_exam (\<lambda>_. ist) early_exam new_exam_form)) = Some b
     \<and> fst (update_exam_route ref_services (\<lambda>s. if s = iso_string 81000000 then Some 81000000 else Some 84600000) 5 ''e1'' (Some b)
          (demo_world\<lparr> rw_exams := [early_exam] \<rparr>)) = Inr e'
     \<and> e_scheduledStartAt e' = Some 81000000 \<and> e_scheduledStartAt early_exam = Some 167400000"
proof -
  have later: "iso_string 84600000 \<noteq> iso_string 81000000" by code_simp
  have e: "e_scheduledStartAt early_exam = Some 167400000" "e_scheduledEndAt early_exam = Some 171000000" "e_title early_exam = ''exam''"
    "e_challengeId early_exam = ''c1''" "e_timeLimit early_exam = 60" "e_maxAttempts early_exam = 1" "e_passThreshold early_exam = 3 / 5"
    "e_timezone early_exam = Some ''UTC''" "e_id early_exam = ''e1''" by (simp_all add: early_exam_def demo_exam_def)
  have w: "w_exams (ref_view (demo_world\<lparr> rw_exams := [early_exam] \<rparr>)) ''e1'' = Some early_exam"
    "w_challenges (ref_view (demo_world\<lparr> rw_exams := [early_exam] \<rparr>)) (e_challengeId early_exam) = Some demo_challenge"
    by (simp_all add: ref_view_def keyed_def demo_world_def e demo_challenge_def)
  have moved: "resaved ist 167400000 167400000 = 81000000" "resaved ist 167400000 171000000 = 84600000"
    "clock_minute ist 167400000 < clock_minute ist 171000000" by (simp_all add: resaved_def clock_time_def clock_minute_def ist_def day_ms_def)
  have trim: "str_trim ''exam'' \<noteq> []" by (simp add: str_trim_def is_space_def)
  let ?parse = "\<lambda>s. if s = iso_string 81000000 then Some 81000000 else Some (84600000 :: int)"
  have "?parse (iso_string 81000000) = Some 81000000" "?parse (iso_string 84600000) = Some 84600000" using later by auto
  with edit_exam_moves_schedule[OF ref.services_axioms w, of 167400000 171000000 ?parse ist new_exam_form 5] trim
  obtain b e' where "fst (submit_exam_edit (\<lambda>_. ist) (load_exam (\<lambda>_. ist) early_exam new_exam_form)) = Some b"
    "fst (update_exam_route ref_services ?parse 5 ''e1'' (Some b) (demo_world\<lparr> rw_exams := [early_exam] \<rparr>)) = Inr e'"
    "e_scheduledStartAt e' = Some 81000000"
    unfolding e moved by (auto simp: moved(3))
  then show ?thesis using e(1) by auto
qed

end
